(* ===== verification/PLC_Prelude.thy ===== *)
theory PLC_Prelude
  imports Main "HOL-Library.Word" "HOL-Library.Monad_Syntax"
begin

text \<open>
  Shared base of the development.  C arrays are lists, an access outside an array is
  \<open>None\<close> (the C program has undefined behaviour there), and code that can make such an
  access runs in the option monad.  The theory fixes the machine word types, the checked
  array accesses, the little-endian reads of program memory
  (\<open>GET_PU8_DATA\<close>, \<open>GET_PU16_DATA\<close>, \<open>GET_PU32_DATA\<close> of
  \<open>source/plc/common/inc/plc_commonfunc.h\<close>) and the generic lemmas on bits, words, lists and
  the option monad that all components use.
\<close>

unbundle bit_operations_syntax

type_synonym u8 = "8 word"
type_synonym u16 = "16 word"
type_synonym u32 = "32 word"

named_theorems mem_simps \<open>checked array accesses\<close>
named_theorems plc_defs \<open>definitions of the small building blocks of the model\<close>

section \<open>Checked array access\<close>

definition rd :: "'a list \<Rightarrow> nat \<Rightarrow> 'a option" where
  "rd xs i = (if i < length xs then Some (xs ! i) else None)"

definition wr :: "'a list \<Rightarrow> nat \<Rightarrow> 'a \<Rightarrow> 'a list option" where
  "wr xs i v = (if i < length xs then Some (xs[i := v]) else None)"

text \<open>A zero-filled array of a given length, kept folded so that it stays small in evaluation.\<close>

definition zeros :: "nat \<Rightarrow> 'a::zero list" where
  "zeros n = replicate n 0"

text \<open>Writing bit \<open>k\<close> of a word: \<open>w |= (0x01 << k)\<close> for a non-zero value, else
  \<open>w &= ~(0x01 << k)\<close>.\<close>

definition bit_write :: "u16 \<Rightarrow> nat \<Rightarrow> u8 \<Rightarrow> u16" where
  "bit_write w k v = (if v \<noteq> 0 then w OR push_bit k 1 else w AND NOT (push_bit k 1))"

text \<open>Shifting a bit in from the right: \<open>(v << 1) + b\<close>.\<close>

definition shl_in :: "'w::len word \<Rightarrow> u8 \<Rightarrow> 'w word" where
  "shl_in v b = push_bit 1 v + ucast b"

section \<open>Reads of program memory\<close>

text \<open>The target is a little-endian Cortex-M7 that allows unaligned accesses.\<close>

definition GET_PU8_DATA :: "u8 list \<Rightarrow> nat \<Rightarrow> u8 option" where
  "GET_PU8_DATA m a = rd m a"

definition bytes_u16 :: "u8 \<Rightarrow> u8 \<Rightarrow> u16" where
  "bytes_u16 lo hi = ucast lo OR push_bit 8 (ucast hi)"

definition GET_PU16_DATA :: "u8 list \<Rightarrow> nat \<Rightarrow> u16 option" where
  "GET_PU16_DATA m a = do { lo \<leftarrow> rd m a; hi \<leftarrow> rd m (a + 1); Some (bytes_u16 lo hi) }"

definition words_u32 :: "u16 \<Rightarrow> u16 \<Rightarrow> u32" where
  "words_u32 lo hi = push_bit 16 (ucast hi) + ucast lo"

definition GET_PU32_DATA :: "u8 list \<Rightarrow> nat \<Rightarrow> u32 option" where
  "GET_PU32_DATA m a = do { lo \<leftarrow> GET_PU16_DATA m a; hi \<leftarrow> GET_PU16_DATA m (a + 2);
     Some (words_u32 lo hi) }"

text \<open>The two halves of a 32-bit value, as the code splits it into two 16-bit elements.\<close>

definition lo16 :: "u32 \<Rightarrow> u16" where
  "lo16 v = ucast (v AND 0x0000FFFF)"

definition hi16 :: "u32 \<Rightarrow> u16" where
  "hi16 v = ucast (drop_bit 16 v)"

section \<open>Lemmas on checked access\<close>

lemma rd_eq_Some [simp]: "rd xs i = Some v \<longleftrightarrow> i < length xs \<and> v = xs ! i"
  by (auto simp: rd_def)

lemma rd_in [mem_simps]: "i < length xs \<Longrightarrow> rd xs i = Some (xs ! i)"
  by (simp add: rd_def)

lemma rd_eq_None [simp]: "rd xs i = None \<longleftrightarrow> length xs \<le> i"
  by (auto simp: rd_def)

lemma wr_eq_Some [simp]: "wr xs i v = Some ys \<longleftrightarrow> i < length xs \<and> ys = xs[i := v]"
  by (auto simp: wr_def)

lemma wr_in [mem_simps]: "i < length xs \<Longrightarrow> wr xs i v = Some (xs[i := v])"
  by (simp add: wr_def)

lemma wr_eq_None [simp]: "wr xs i v = None \<longleftrightarrow> length xs \<le> i"
  by (auto simp: wr_def)

lemma length_zeros [simp]: "length (zeros n) = n"
  by (simp add: zeros_def)

lemma zeros_Nil [simp]: "zeros n = [] \<longleftrightarrow> n = 0"
  by (simp add: zeros_def)

lemma nth_zeros [simp]: "i < n \<Longrightarrow> zeros n ! i = 0"
  by (simp add: zeros_def)

lemma bind_Some_iff: "Option.bind m f = Some y \<longleftrightarrow> (\<exists>x. m = Some x \<and> f x = Some y)"
  by (cases m) auto

lemma bind_None_iff: "Option.bind m f = None \<longleftrightarrow> m = None \<or> (\<exists>x. m = Some x \<and> f x = None)"
  by (cases m) auto

lemmas opt_simps = bind_Some_iff bind_None_iff

section \<open>Lemmas on words and bits\<close>

lemma unat_drop_bit: "unat (drop_bit n (w :: 'a::len word)) = unat w div 2 ^ n"
  by (simp add: unat_drop_bit_eq flip: drop_bit_eq_div)

lemma unat_and_15: "unat (w AND 15 :: u16) = unat w mod 16"
proof -
  have "w AND 15 = take_bit 4 w"
    by (simp add: take_bit_eq_mask mask_eq_exp_minus_1)
  then show ?thesis
    by (simp only: unsigned_take_bit_eq) (simp add: take_bit_eq_mod)
qed

lemma bit_or_exp: "bit (w OR 2 ^ k :: 'a::len word) n \<longleftrightarrow> bit w n \<or> (n = k \<and> k < LENGTH('a))"
  by (auto simp: bit_simps)

lemma bit_and_not_exp: "bit (w AND NOT (2 ^ k) :: 'a::len word) n \<longleftrightarrow> bit w n \<and> n \<noteq> k"
  by (auto simp: bit_simps dest: bit_imp_le_length)

lemma bit_bit_write: "k < 16 \<Longrightarrow> bit (bit_write w k v) n \<longleftrightarrow> (if n = k then v \<noteq> 0 else bit w n)"
  by (auto simp: bit_write_def bit_or_exp bit_and_not_exp)

lemma drop_bit_and_1: "(drop_bit k w AND 1 :: 'a::len word) = of_bool (bit w k)"
  by (simp add: bit_iff_odd_drop_bit and_one_eq mod_2_eq_odd)

lemma bit_push_bit_1: "bit (push_bit 1 (v :: 'w::len word)) n \<longleftrightarrow> n < LENGTH('w) \<and> n \<noteq> 0 \<and> bit v (n - 1)"
  by (auto simp only: bit_push_bit_iff) auto

lemma bit_shl_in:
  fixes v :: "'w::len word" and b :: u8
  assumes "b = 0 \<or> b = 1" and "n < LENGTH('w)"
  shows "bit (shl_in v b) n \<longleftrightarrow> (if n = 0 then b = 1 else bit v (n - 1))"
proof -
  have "shl_in v b = push_bit 1 v OR ucast b"
    unfolding shl_in_def using assms(1)
    by (intro disjunctive_add) (auto simp only: bit_push_bit_1 bit_unsigned_iff, auto simp: bit_1_iff)
  then show ?thesis
    using assms
    by (auto simp only: bit_or_iff bit_push_bit_1 bit_unsigned_iff) (auto simp: bit_1_iff split: if_splits)
qed

lemma word_eq_iff_bits: "(\<And>n. n < LENGTH('a) \<Longrightarrow> bit (v :: 'a::len word) n = bit w n) \<Longrightarrow> v = w"
  by (rule bit_word_eqI)

lemma unat_lt_16 [simp]: "unat (w :: u16) < 65536"
  using unsigned_less [of w] by simp

lemma unat_lt_8 [simp]: "unat (w :: u8) < 256"
  using unsigned_less [of w] by simp

lemma unat_inj [simp]: "unat (v :: 'a::len word) = unat w \<longleftrightarrow> v = w"
  by (rule word_unat_eq_iff [symmetric])

lemma unat_add_of_nat: "unat (i :: u16) + k < 65536 \<Longrightarrow> unat (i + of_nat k) = unat i + k"
  by (simp add: unat_word_ariths(1) unat_of_nat)

lemma add_of_nat_inj:
  "unat (i :: u16) + k < 65536 \<Longrightarrow> unat i + k' < 65536 \<Longrightarrow> i + of_nat k = i + of_nat k' \<longleftrightarrow> k = k'"
  by (metis unat_add_of_nat add_left_cancel)

lemma bit_bytes_u16: "bit (bytes_u16 lo hi) n \<longleftrightarrow> (if n < 8 then bit lo n else n < 16 \<and> bit hi (n - 8))"
  by (auto simp: bytes_u16_def bit_simps dest: bit_imp_le_length)

lemma unat_bytes_u16: "unat (bytes_u16 lo hi) = unat lo + 256 * unat hi"
proof -
  have "bytes_u16 lo hi = ucast lo + push_bit 8 (ucast hi)"
    unfolding bytes_u16_def
    by (rule disjunctive_add [symmetric]) (auto simp: bit_simps dest: bit_imp_le_length)
  also have "\<dots> = of_nat (unat lo + 256 * unat hi)"
    by (simp add: push_bit_eq_mult)
  finally have eq: "bytes_u16 lo hi = of_nat (unat lo + 256 * unat hi)" .
  have "unat (bytes_u16 lo hi) = (unat lo + 256 * unat hi) mod 2 ^ LENGTH(16)"
    unfolding eq by (rule unat_of_nat)
  moreover have "unat lo + 256 * unat hi < 65536"
    using unat_lt_8 [of lo] unat_lt_8 [of hi] by linarith
  ultimately show ?thesis by simp
qed

lemma bit_FFFF: "bit (0x0000FFFF :: u32) n \<longleftrightarrow> n < 16"
proof -
  have "(0x0000FFFF :: u32) = mask 16"
    by (simp add: mask_eq_exp_minus_1)
  then show ?thesis
    by (simp only: bit_mask_iff) auto
qed

lemma bit_lo16: "bit (lo16 v) n \<longleftrightarrow> n < 16 \<and> bit v n"
  unfolding lo16_def bit_unsigned_iff bit_and_iff bit_FFFF
  by (auto dest: bit_imp_le_length)

lemma bit_hi16: "bit (hi16 v) n \<longleftrightarrow> n < 16 \<and> bit v (n + 16)"
  by (auto simp: hi16_def bit_simps ac_simps dest: bit_imp_le_length)

lemma words_u32_or: "words_u32 lo hi = push_bit 16 (ucast hi) OR ucast lo"
  unfolding words_u32_def
  by (rule disjunctive_add) (auto simp: bit_simps dest: bit_imp_le_length)

lemma bit_words_u32: "bit (words_u32 lo hi) n \<longleftrightarrow> (if n < 16 then bit lo n else n < 32 \<and> bit hi (n - 16))"
  by (auto simp: words_u32_or bit_simps dest: bit_imp_le_length)

lemma words_u32_lo16_hi16 [simp]: "words_u32 (lo16 v) (hi16 v) = v"
  by (rule bit_word_eqI) (auto simp: bit_words_u32 bit_lo16 bit_hi16)

lemma lo16_words_u32 [simp]: "lo16 (words_u32 lo hi) = lo"
  by (rule bit_word_eqI) (auto simp: bit_words_u32 bit_lo16)

lemma hi16_words_u32 [simp]: "hi16 (words_u32 lo hi) = hi"
  by (rule bit_word_eqI) (auto simp: bit_words_u32 bit_hi16)

lemma layer_ucast: "(n :: u32) < 8 \<Longrightarrow> (ucast n :: u8) < 8"
  by (simp add: word_less_nat_alt unsigned_ucast_eq take_bit_eq_mod)

lemma layer_Suc: "(n :: u32) < 7 \<Longrightarrow> n + 1 < 8"
  by (simp add: word_less_nat_alt unat_word_ariths)

end
