(* ===== verification/PLC_State.thy ===== *)
theory PLC_State
  imports PLC_Prelude
begin

text \<open>
  The data of the PLC runtime: the soft elements and their counts
  (\<open>source/plc/common/inc/plc_element.h\<close>), the return codes of the instruction functions
  (\<open>source/plc/executer/inc/plc_errormsg.h\<close>, \<open>plc_instruction.h\<close>), and the global run-time variables
  (\<open>source/plc/common/inc/plc_variable.h\<close>).  Every C struct is a record with the source's
  fields (fields that several structs share carry a prefix), the globals are the fields of
  \<open>plc_state\<close>.  Pointers into the user program are offsets into the byte list \<open>ucode\<close>, the
  memory behind \<open>gtv_UserFilePtrSt.UCodePtr\<close>.  The theory ends with the well-formedness
  predicate that ties the element counts to the sizes of the arrays.
\<close>

section \<open>Return codes\<close>

datatype plc_ret =
    pdPASS
  | EXEC_FLAG_FEND | EXEC_FLAG_IRET | EXEC_FLAG_SRET | EXEC_FLAG_STOP
  | ERR_USER_PROGRAM | ERR_SYSTEM_BLOCK | ERR_DATA_BLOCK
  | ERR_COMPILER | ERR_EXEC_OVER_TIME | ERR_ILLEGAL_INSTRCTION | ERR_ELEMENT_TYPE
  | ERR_OPERANDS | ERR_OVER_ELEMENT_RANG | ERR_OVER_SBR_STACK | ERR_DIV_ZERO
  | ERR_STACK_DEFINE | ERR_NO_DEFINE_SBR_INTR | ERR_RTC_INSTRUCTION | ERR_NET_CONFIG | ERR_MODBUS_TBL | ERR_MODBUSTCP_TBL
  | ERR_NULL_UCODE | ERR_NULL_DATA_BLOCK | ERR_NULL_POU_INFO | ERR_NULL_SYSTEM_BLOCK
  | ERR_NULL_NET_CONFIG | ERR_NULL_GVT
  | ERR_NO_FREE_MEMORY | ERR_EXTEND_ERR | ERR_SLAVE_ERR
  | ERR_ECAT_SLAVE_NUM_ERR | ERR_ECAT_WKC_ERR | ERR_EXPANSION_MODULE | ERR_ECAT_NOT_OPMODE
  | ERR_MDTCP_EXCEEDMAXCONN

primrec ret_code :: "plc_ret \<Rightarrow> u8" where
  "ret_code pdPASS = 1"
| "ret_code EXEC_FLAG_FEND = 2"
| "ret_code EXEC_FLAG_IRET = 3"
| "ret_code EXEC_FLAG_SRET = 4"
| "ret_code EXEC_FLAG_STOP = 5"
| "ret_code ERR_USER_PROGRAM = 40"
| "ret_code ERR_SYSTEM_BLOCK = 41"
| "ret_code ERR_DATA_BLOCK = 42"
| "ret_code ERR_COMPILER = 60"
| "ret_code ERR_EXEC_OVER_TIME = 61"
| "ret_code ERR_ILLEGAL_INSTRCTION = 62"
| "ret_code ERR_ELEMENT_TYPE = 63"
| "ret_code ERR_OPERANDS = 64"
| "ret_code ERR_OVER_ELEMENT_RANG = 65"
| "ret_code ERR_OVER_SBR_STACK = 66"
| "ret_code ERR_DIV_ZERO = 69"
| "ret_code ERR_STACK_DEFINE = 70"
| "ret_code ERR_NO_DEFINE_SBR_INTR = 72"
| "ret_code ERR_RTC_INSTRUCTION = 76"
| "ret_code ERR_NET_CONFIG = 77"
| "ret_code ERR_MODBUS_TBL = 78"
| "ret_code ERR_MODBUSTCP_TBL = 79"
| "ret_code ERR_NULL_UCODE = 90"
| "ret_code ERR_NULL_DATA_BLOCK = 91"
| "ret_code ERR_NULL_POU_INFO = 92"
| "ret_code ERR_NULL_SYSTEM_BLOCK = 93"
| "ret_code ERR_NULL_NET_CONFIG = 94"
| "ret_code ERR_NULL_GVT = 95"
| "ret_code ERR_NO_FREE_MEMORY = 113"
| "ret_code ERR_EXTEND_ERR = 200"
| "ret_code ERR_SLAVE_ERR = 201"
| "ret_code ERR_ECAT_SLAVE_NUM_ERR = 204"
| "ret_code ERR_ECAT_WKC_ERR = 205"
| "ret_code ERR_EXPANSION_MODULE = 206"
| "ret_code ERR_ECAT_NOT_OPMODE = 207"
| "ret_code ERR_MDTCP_EXCEEDMAXCONN = 230"

section \<open>Soft elements\<close>

record plc_c_element_info_st =
  c_ElementCnt :: u16
  c_16bitCnt :: u16
  c_32bitCnt :: u16

record plc_t_element_info_st =
  t_ElementCnt :: u16
  t_100msTimerCnt :: u16
  t_10msTimerCnt :: u16
  t_1msTimerCnt :: u16

record plc_element_info_st =
  msv_XElementCnt :: u16
  msv_YElementCnt :: u16
  msv_MElementCnt :: u16
  msv_LMElementCnt :: u16
  msv_SMElementCnt :: u16
  msv_SElementCnt :: u16
  msv_DElementCnt :: u16
  msv_RElementCnt :: u16
  msv_SDElementCnt :: u16
  msv_VElementCnt :: u16
  msv_ZElementCnt :: u16
  msv_CElement :: plc_c_element_info_st
  msv_TElement :: plc_t_element_info_st

record plc_c_element_status_st =
  c_PowerFlow :: bool
  c_Started :: bool
  c_Reserved :: "6 word"

record plc_c_element_st =
  c_BitElement :: "u16 list"
  c_16BitValue :: "u16 list"
  c_32BitValue :: "u32 list"
  c_StatusInfo :: "plc_c_element_status_st list"

record plc_t_element_status_st =
  t_Enable :: bool
  t_PowerFlow :: bool
  t_Init :: bool
  t_Type :: "2 word"
  t_Capacity :: "3 word"

record plc_t_element_st =
  t_BitElement :: "u16 list"
  t_CurrentValue :: "u16 list"
  t_DestValue :: "u16 list"
  t_StartValue :: "u32 list"
  t_StatusInfo :: "plc_t_element_status_st list"

record plc_element_st =
  msp_XElement :: "u16 list"
  msp_YElement :: "u16 list"
  msp_MElement :: "u16 list"
  msp_LMElement :: "u16 list"
  msp_SMElement :: "u16 list"
  msp_SElement :: "u16 list"
  msp_DElement :: "u16 list"
  msp_RElement :: "u16 list"
  msp_SDElement :: "u16 list"
  msp_VElement :: "u16 list"
  msp_ZElement :: "u16 list"
  mtv_CElement :: plc_c_element_st
  mtv_TElement :: plc_t_element_st

definition MAX_SBR_NESTED_LAYER :: nat where
  "MAX_SBR_NESTED_LAYER = 8"

text \<open>The element counts that \<open>board/bsp_1062/bsp_dct.c\<close> writes into the device table.\<close>

definition default_element_info :: plc_element_info_st where
  "default_element_info = \<lparr>msv_XElementCnt = 2048, msv_YElementCnt = 2048, msv_MElementCnt = 16384,
     msv_LMElementCnt = 64, msv_SMElementCnt = 1024, msv_SElementCnt = 4096,
     msv_DElementCnt = 8000, msv_RElementCnt = 32768, msv_SDElementCnt = 1024,
     msv_VElementCnt = 64, msv_ZElementCnt = 16,
     msv_CElement = \<lparr>c_ElementCnt = 512, c_16bitCnt = 200, c_32bitCnt = 312\<rparr>,
     msv_TElement = \<lparr>t_ElementCnt = 512, t_100msTimerCnt = 256, t_10msTimerCnt = 128,
       t_1msTimerCnt = 128\<rparr>\<rparr>"

text \<open>
  The statically allocated element arrays, zero at start-up; the R elements are the one
  array that \<open>plc_element_init\<close> takes from the heap.
\<close>

definition static_elements :: plc_element_st where
  "static_elements = \<lparr>msp_XElement = zeros (2048 div 16), msp_YElement = zeros (2048 div 16),
     msp_MElement = zeros (16384 div 16 * 8), msp_LMElement = zeros (64 div 16 * 8),
     msp_SMElement = zeros (1024 div 16), msp_SElement = zeros (4096 div 16),
     msp_DElement = zeros 8000, msp_RElement = zeros 32768, msp_SDElement = zeros 1024,
     msp_VElement = zeros (64 * 8), msp_ZElement = zeros 16,
     mtv_CElement = \<lparr>c_BitElement = zeros (512 div 16), c_16BitValue = zeros 200,
       c_32BitValue = zeros 312,
       c_StatusInfo = replicate 512 \<lparr>c_PowerFlow = False, c_Started = False, c_Reserved = 0\<rparr>\<rparr>,
     mtv_TElement = \<lparr>t_BitElement = zeros (512 div 16), t_CurrentValue = zeros 512,
       t_DestValue = zeros 512, t_StartValue = zeros 512,
       t_StatusInfo = replicate 512 \<lparr>t_Enable = False, t_PowerFlow = False, t_Init = False,
         t_Type = 0, t_Capacity = 0\<rparr>\<rparr>\<rparr>"

lemma default_element_info_simps [simp]:
  "msv_XElementCnt default_element_info = 2048" "msv_YElementCnt default_element_info = 2048"
  "msv_MElementCnt default_element_info = 16384" "msv_LMElementCnt default_element_info = 64"
  "msv_SMElementCnt default_element_info = 1024" "msv_SElementCnt default_element_info = 4096"
  "msv_DElementCnt default_element_info = 8000" "msv_RElementCnt default_element_info = 32768"
  "msv_SDElementCnt default_element_info = 1024" "msv_VElementCnt default_element_info = 64"
  "msv_ZElementCnt default_element_info = 16" "c_ElementCnt (msv_CElement default_element_info) = 512"
  "c_16bitCnt (msv_CElement default_element_info) = 200" "c_32bitCnt (msv_CElement default_element_info) = 312"
  "t_ElementCnt (msv_TElement default_element_info) = 512"
  by (simp_all add: default_element_info_def)

lemma static_elements_simps [simp]:
  "msp_XElement static_elements = zeros 128" "msp_YElement static_elements = zeros 128"
  "msp_MElement static_elements = zeros 8192" "msp_LMElement static_elements = zeros 32"
  "msp_SMElement static_elements = zeros 64" "msp_SElement static_elements = zeros 256"
  "msp_DElement static_elements = zeros 8000" "msp_RElement static_elements = zeros 32768"
  "msp_SDElement static_elements = zeros 1024" "msp_VElement static_elements = zeros 512"
  "msp_ZElement static_elements = zeros 16" "c_BitElement (mtv_CElement static_elements) = zeros 32"
  "c_16BitValue (mtv_CElement static_elements) = zeros 200" "c_32BitValue (mtv_CElement static_elements) = zeros 312"
  "t_BitElement (mtv_TElement static_elements) = zeros 32"
  by (simp_all add: static_elements_def)

section \<open>Run-time variables\<close>

text \<open>Bit positions of the unions \<open>plc_stop_error_flag\<close>, \<open>plc_non_stop_error_flag\<close> and
  \<open>plc_status_switch_u\<close>.\<close>

abbreviation (input) "stop_sysblock_err \<equiv> (5::nat)"
abbreviation (input) "stop_exec_err \<equiv> (7::nat)"
abbreviation (input) "nonstop_operands_err \<equiv> (4::nat)"
abbreviation (input) "nonstop_extend_bus_err \<equiv> (7::nat)"
abbreviation (input) "nonstop_netconfig_err \<equiv> (9::nat)"
abbreviation (input) "nonstop_ucode_err \<equiv> (10::nat)"
abbreviation (input) "nonstop_datablock_err \<equiv> (11::nat)"
abbreviation (input) "nonstop_sysblock_err \<equiv> (12::nat)"
abbreviation (input) "nonstop_ecat_err \<equiv> (13::nat)"
abbreviation (input) "cmd_run \<equiv> (1::nat)"
abbreviation (input) "input_point_run \<equiv> (2::nat)"
abbreviation (input) "error_status_stop \<equiv> (4::nat)"
abbreviation (input) "cmd_stop \<equiv> (5::nat)"
abbreviation (input) "cmd_reboot \<equiv> (6::nat)"

record plc_exec_error_record_st =
  mcv_ErrorCnt :: u8
  msv_ErrorMsg :: "u16 list"
  msv_ErrorAddr :: "u32 list"

definition MAX_EXEC_ERROR_RECORD_CNT :: nat where
  "MAX_EXEC_ERROR_RECORD_CNT = 5"

record plc_run_status_st =
  mcv_PlcRunSwitch :: u8
  mtv_PlcRunStopFlag :: u8
  mcv_PlcCurrentStatus :: u8
  mcv_IsOnlineProgram :: u8
  mlv_SysScanTime :: u32
  mlv_WatchDogTime :: u32

record plc_run_power_flow_st =
  mlv_InPF :: u32
  mlv_OutPF :: u32
  mcp_PC :: nat

record plc_call_ins_info_st =
  msv_SbrNestedNum :: u32
  msv_UseNum :: u32
  mlv_UCodeAddr :: "nat list"
  mcv_IsExec :: "u8 list"
  mcp_RetPc :: "nat list"
  mcp_SbrPc :: "nat option list"

record plc_eu_ed_st =
  msv_IsInit :: u16
  msv_Value :: u16

text \<open>FOR-NEXT loops of one call layer, the step sequence in execution, and the lists of instructions that
  have to be reset when a subroutine, a step or a master-control block is left; a linked list of
  instruction addresses is the list of its entries.\<close>

definition MAX_FOR_NEXT_NESTED_NUM :: nat where
  "MAX_FOR_NEXT_NESTED_NUM = 8"

definition MAX_SFC_SERIES_STL_NUM :: nat where
  "MAX_SFC_SERIES_STL_NUM = 16"

definition MAX_SBR_COUNT :: nat where
  "MAX_SBR_COUNT = 64"

definition MAX_CALL_INS_USE_NUMBER :: nat where
  "MAX_CALL_INS_USE_NUMBER = 256"

record plc_for_next_ins_st =
  msa_LoopCnt :: "u16 list"
  msp_StartUcodeAddr :: "nat list"
  msp_EndUcodeAddr :: "nat list"
  msv_NestedNum :: u16

record plc_sfc_run_status_info_st =
  mcv_sfcEnable :: u8
  mcv_SeriesSTLCnt :: u8
  msv_StlNum :: "u16 list"

record plc_ins_list_head_st =
  mtv_SimpInsHead :: "nat list"
  mtv_CompInsHead :: "nat list"

record plc_mc_mcr_ins_list_st =
  mcp_McUCodePc :: nat
  mc_SimpInsHead :: "nat list"
  mc_CompInsHead :: "nat list"

record plc_mc_mcr_ins_info_st =
  mcv_NestedLevel :: u8
  mtv_McMcrHead :: "plc_mc_mcr_ins_list_st list"

text \<open>The hour meters.\<close>

record plc_hour_ins_st =
  mcv_LastPFStatus :: u8
  mlv_LastTime :: u32

text \<open>User interrupts (\<open>source/plc/interrupt/inc/plc_interrupt.h\<close>); the handler of every source is
  \<open>plc_run_user_program\<close>, so it is not stored.\<close>

definition MAX_SYS_INT_NUM :: nat where
  "MAX_SYS_INT_NUM = 60"

record plc_interrupt_source_st =
  mcv_Priority :: u8
  mcv_IntFlag :: u8
  mcv_Count :: u8
  mcp_IntPara :: "nat option"

record plc_interrupt_info_st =
  mcv_IntEnable :: u8
  mtv_IntSource :: "plc_interrupt_source_st list"

record plc_state =
  gtp_PlcElementInfo :: plc_element_info_st
  gtv_PlcElement :: plc_element_st
  gtp_EuEd :: "plc_eu_ed_st list"
  gtp_CallInsInfoPtr :: plc_call_ins_info_st
  guv_StopError :: u16
  guv_NonStopError :: u16
  gtv_PlcExecErrorRecord :: plc_exec_error_record_st
  gtv_PlcRunStatus :: plc_run_status_st
  gcp_BackupUserPc :: nat
  ucode :: "u8 list"
  gtp_ForNextIns :: "plc_for_next_ins_st list"
  gtp_SfcStatus :: plc_sfc_run_status_info_st
  gtp_SbrListPtr :: "plc_ins_list_head_st list"
  gtp_StlListPtr :: "plc_ins_list_head_st list"
  gtv_McMcrBlockInfo :: plc_mc_mcr_ins_info_st
  gtp_InterruptInfo :: plc_interrupt_info_st
  gtp_HourInsSt :: "plc_hour_ins_st list"
  ssv_MinAlarmSElement :: u16
  gtv_InterruptMsgQueue :: "u8 list"
  srtc_datetime :: "u16 list"
  xTickCount :: u32
  tick_tape :: "u32 list"

text \<open>\<open>xTickCount\<close> is the tick counter of the RTOS, which \<open>GET_1MS_TICKS_COUNT()\<close> reads; it does not move
  during one instruction, the timer interrupt advances it in between.  \<open>tick_tape\<close> is not a variable of the
  code: it lists the values that the counter will have at the coming passes of the program loop.
  \<open>gtv_InterruptMsgQueue\<close> holds the interrupt numbers in the message queue of the RTOS, \<open>srtc_datetime\<close> the date and time last
  given to the real-time clock.\<close>

definition GET_1MS_TICKS_COUNT :: "plc_state \<Rightarrow> u32" where
  "GET_1MS_TICKS_COUNT s = xTickCount s"

text \<open>\<open>nested s\<close> is \<open>gtp_CallInsInfoPtr->msv_SbrNestedNum\<close>, the depth of subroutine calls.\<close>

abbreviation nested :: "plc_state \<Rightarrow> u32" where
  "nested s \<equiv> msv_SbrNestedNum (gtp_CallInsInfoPtr s)"

text \<open>The state in which the runtime starts a program: all data zero.\<close>

definition boot_state :: "u8 list \<Rightarrow> plc_state" where
  "boot_state code = \<lparr>gtp_PlcElementInfo = default_element_info, gtv_PlcElement = static_elements,
     gtp_EuEd = replicate 512 \<lparr>msv_IsInit = 0, msv_Value = 0\<rparr>,
     gtp_CallInsInfoPtr = \<lparr>msv_SbrNestedNum = 0, msv_UseNum = 0, mlv_UCodeAddr = replicate 256 0, mcv_IsExec = replicate 256 0,
       mcp_RetPc = replicate 8 0, mcp_SbrPc = replicate 64 None\<rparr>,
     guv_StopError = 0, guv_NonStopError = 0,
     gtv_PlcExecErrorRecord = \<lparr>mcv_ErrorCnt = 0, msv_ErrorMsg = zeros 5, msv_ErrorAddr = zeros 5\<rparr>,
     gtv_PlcRunStatus = \<lparr>mcv_PlcRunSwitch = 0, mtv_PlcRunStopFlag = 0, mcv_PlcCurrentStatus = 0,
       mcv_IsOnlineProgram = 0, mlv_SysScanTime = 0, mlv_WatchDogTime = 0\<rparr>,
     gcp_BackupUserPc = 0, ucode = code,
     gtp_ForNextIns = replicate 8 \<lparr>msa_LoopCnt = replicate 8 0, msp_StartUcodeAddr = replicate 8 0,
       msp_EndUcodeAddr = replicate 8 0, msv_NestedNum = 0\<rparr>,
     gtp_SfcStatus = \<lparr>mcv_sfcEnable = 0, mcv_SeriesSTLCnt = 0, msv_StlNum = replicate 16 0\<rparr>,
     gtp_SbrListPtr = replicate 64 \<lparr>mtv_SimpInsHead = [], mtv_CompInsHead = []\<rparr>,
     gtp_StlListPtr = replicate 4096 \<lparr>mtv_SimpInsHead = [], mtv_CompInsHead = []\<rparr>,
     gtv_McMcrBlockInfo = \<lparr>mcv_NestedLevel = 0, mtv_McMcrHead = []\<rparr>,
     gtp_InterruptInfo = \<lparr>mcv_IntEnable = 0, mtv_IntSource = replicate 60
       \<lparr>mcv_Priority = 0, mcv_IntFlag = 1, mcv_Count = 0, mcp_IntPara = None\<rparr>\<rparr>,
     gtp_HourInsSt = replicate 256 \<lparr>mcv_LastPFStatus = 0, mlv_LastTime = 0\<rparr>,
     ssv_MinAlarmSElement = 999, gtv_InterruptMsgQueue = [], srtc_datetime = [], xTickCount = 0, tick_tape = []\<rparr>"

section \<open>Well-formed states\<close>

definition wf_elements :: "plc_element_info_st \<Rightarrow> plc_element_st \<Rightarrow> bool" where
  "wf_elements i e \<longleftrightarrow>
     unat (msv_XElementCnt i) \<le> 16 * length (msp_XElement e) \<and>
     unat (msv_YElementCnt i) \<le> 16 * length (msp_YElement e) \<and>
     unat (msv_MElementCnt i) \<le> 16 * length (msp_MElement e) \<and>
     MAX_SBR_NESTED_LAYER * (unat (msv_MElementCnt i) div 16) \<le> length (msp_MElement e) \<and>
     16 dvd unat (msv_LMElementCnt i) \<and>
     MAX_SBR_NESTED_LAYER * (unat (msv_LMElementCnt i) div 16) \<le> length (msp_LMElement e) \<and>
     unat (msv_SMElementCnt i) \<le> 16 * length (msp_SMElement e) \<and>
     unat (msv_SElementCnt i) \<le> 16 * length (msp_SElement e) \<and>
     unat (msv_DElementCnt i) \<le> length (msp_DElement e) \<and>
     unat (msv_RElementCnt i) \<le> length (msp_RElement e) \<and>
     unat (msv_SDElementCnt i) \<le> length (msp_SDElement e) \<and>
     MAX_SBR_NESTED_LAYER * unat (msv_VElementCnt i) \<le> length (msp_VElement e) \<and>
     MAX_SBR_NESTED_LAYER * unat (msv_VElementCnt i) < 65536 \<and>
     unat (msv_ZElementCnt i) \<le> length (msp_ZElement e) \<and>
     unat (c_ElementCnt (msv_CElement i)) \<le> 16 * length (c_BitElement (mtv_CElement e)) \<and>
     unat (c_16bitCnt (msv_CElement i)) \<le> length (c_16BitValue (mtv_CElement e)) \<and>
     unat (c_32bitCnt (msv_CElement i)) \<le> length (c_32BitValue (mtv_CElement e)) \<and>
     unat (c_ElementCnt (msv_CElement i)) \<le>
       unat (c_16bitCnt (msv_CElement i)) + length (c_32BitValue (mtv_CElement e)) \<and>
     unat (c_ElementCnt (msv_CElement i)) \<le> length (c_StatusInfo (mtv_CElement e)) \<and>
     unat (t_ElementCnt (msv_TElement i)) \<le> 16 * length (t_BitElement (mtv_TElement e)) \<and>
     unat (t_ElementCnt (msv_TElement i)) \<le> length (t_CurrentValue (mtv_TElement e)) \<and>
     unat (t_ElementCnt (msv_TElement i)) \<le> length (t_DestValue (mtv_TElement e)) \<and>
     unat (t_ElementCnt (msv_TElement i)) \<le> length (t_StartValue (mtv_TElement e)) \<and>
     unat (t_ElementCnt (msv_TElement i)) \<le> length (t_StatusInfo (mtv_TElement e))"

abbreviation wf_state :: "plc_state \<Rightarrow> bool" where
  "wf_state s \<equiv> wf_elements (gtp_PlcElementInfo s) (gtv_PlcElement s)"

text \<open>The configuration the board support writes is well-formed for the static arrays.\<close>

lemma wf_default [simp]: "wf_elements default_element_info static_elements"
  by (simp add: wf_elements_def default_element_info_def static_elements_def
        MAX_SBR_NESTED_LAYER_def)

lemma wf_boot [simp]: "wf_state (boot_state code)"
  by (simp add: boot_state_def wf_default)

lemma boot_state_simps [simp]:
  "gtp_PlcElementInfo (boot_state code) = default_element_info"
  "gtv_PlcElement (boot_state code) = static_elements"
  "nested (boot_state code) = 0"
  "ucode (boot_state code) = code"
  by (simp_all add: boot_state_def)

text \<open>No two return codes share a number, so a \<open>switch\<close> over the codes separates them.\<close>

lemma ret_code_inj: "ret_code r = ret_code r' \<longleftrightarrow> r = r'"
  by (cases r; cases r'; simp)

end
