(* ===== verification/PLC_Element.thy ===== *)
theory PLC_Element
  imports PLC_State
begin

text \<open>
  The element store of \<open>source/plc/common/src/plc_element.c\<close>: reading and writing bit elements
  packed sixteen to a word, the per-call-layer LM bits and V words, the word elements behind
  the macros of \<open>plc_element.h\<close>, the 32-bit counters and the initialisation loops.  The locale
  \<open>bank\<close> is the contract a bank of elements offers to the operand-access code (what a read
  returns after a write, which accesses are defined, that the invariant is kept); it is
  interpreted for the bit areas, the LM layer, the word areas and the V layer.
\<close>

section \<open>Bit elements\<close>

text \<open>The base addresses \<open>X_ELEMENT\<close>, \<open>Y_ELEMENT\<close>, \<dots> of the packed bit arrays.\<close>

datatype bit_area = X_ELEMENT | Y_ELEMENT | M_ELEMENT | SM_ELEMENT | S_ELEMENT | C_ELEMENT | T_ELEMENT

primrec bit_base :: "plc_element_st \<Rightarrow> bit_area \<Rightarrow> u16 list" where
  "bit_base e X_ELEMENT = msp_XElement e"
| "bit_base e Y_ELEMENT = msp_YElement e"
| "bit_base e M_ELEMENT = msp_MElement e"
| "bit_base e SM_ELEMENT = msp_SMElement e"
| "bit_base e S_ELEMENT = msp_SElement e"
| "bit_base e C_ELEMENT = c_BitElement (mtv_CElement e)"
| "bit_base e T_ELEMENT = t_BitElement (mtv_TElement e)"

primrec upd_bit_base :: "bit_area \<Rightarrow> u16 list \<Rightarrow> plc_element_st \<Rightarrow> plc_element_st" where
  "upd_bit_base X_ELEMENT b e = e\<lparr>msp_XElement := b\<rparr>"
| "upd_bit_base Y_ELEMENT b e = e\<lparr>msp_YElement := b\<rparr>"
| "upd_bit_base M_ELEMENT b e = e\<lparr>msp_MElement := b\<rparr>"
| "upd_bit_base SM_ELEMENT b e = e\<lparr>msp_SMElement := b\<rparr>"
| "upd_bit_base S_ELEMENT b e = e\<lparr>msp_SElement := b\<rparr>"
| "upd_bit_base C_ELEMENT b e = e\<lparr>mtv_CElement := (mtv_CElement e)\<lparr>c_BitElement := b\<rparr>\<rparr>"
| "upd_bit_base T_ELEMENT b e = e\<lparr>mtv_TElement := (mtv_TElement e)\<lparr>t_BitElement := b\<rparr>\<rparr>"

text \<open>\<open>X_RANG\<close>, \<open>Y_RANG\<close>, \<dots> for the bit areas.\<close>

primrec bit_rang :: "plc_element_info_st \<Rightarrow> bit_area \<Rightarrow> u16" where
  "bit_rang i X_ELEMENT = msv_XElementCnt i"
| "bit_rang i Y_ELEMENT = msv_YElementCnt i"
| "bit_rang i M_ELEMENT = msv_MElementCnt i"
| "bit_rang i SM_ELEMENT = msv_SMElementCnt i"
| "bit_rang i S_ELEMENT = msv_SElementCnt i"
| "bit_rang i C_ELEMENT = c_ElementCnt (msv_CElement i)"
| "bit_rang i T_ELEMENT = t_ElementCnt (msv_TElement i)"

definition plc_set_bit_element_value :: "u16 list \<Rightarrow> u16 \<Rightarrow> u8 \<Rightarrow> u16 list option" where
  "plc_set_bit_element_value BaseAddr Element Value =
     (let p = unat (drop_bit 4 Element); k = unat (Element AND 0x0F) in
      do { w \<leftarrow> rd BaseAddr p;
           wr BaseAddr p (bit_write w k Value) })"

definition plc_get_bit_element_value :: "u16 list \<Rightarrow> u16 \<Rightarrow> u8 option" where
  "plc_get_bit_element_value BaseAddr Element =
     do { w \<leftarrow> rd BaseAddr (unat (drop_bit 4 Element));
          Some (ucast (drop_bit (unat (Element AND 0x0F)) w AND 1)) }"

text \<open>The first word of the LM elements of a call layer, \<open>((LM_RANG)/16)*layer\<close>.\<close>

definition lm_base :: "plc_element_info_st \<Rightarrow> u8 \<Rightarrow> nat" where
  "lm_base i layer = unat (msv_LMElementCnt i) div 16 * unat layer"

definition plc_get_lm_element_value :: "plc_element_info_st \<Rightarrow> plc_element_st \<Rightarrow> u8 \<Rightarrow> u16 \<Rightarrow> u8 option" where
  "plc_get_lm_element_value i e layer Element =
     do { w \<leftarrow> rd (msp_LMElement e) (lm_base i layer + unat (drop_bit 4 Element));
          Some (ucast (drop_bit (unat (Element AND 0x0F)) w AND 1)) }"

definition plc_set_lm_element_value ::
    "plc_element_info_st \<Rightarrow> plc_element_st \<Rightarrow> u8 \<Rightarrow> u16 \<Rightarrow> u8 \<Rightarrow> plc_element_st option" where
  "plc_set_lm_element_value i e layer Element Value =
     (let p = lm_base i layer + unat (drop_bit 4 Element); k = unat (Element AND 0x0F) in
      do { w \<leftarrow> rd (msp_LMElement e) p;
           b \<leftarrow> wr (msp_LMElement e) p (bit_write w k Value);
           Some (e\<lparr>msp_LMElement := b\<rparr>) })"

section \<open>Loops that clear an array\<close>

text \<open>
  \<open>for (i = 0; i < n; i++) if (!skip(i)) base[i] = z;\<close> where \<open>base\<close> points \<open>b\<close> entries into
  the array and \<open>lim\<close> is the largest value of the loop counter's type: a bound above it is
  never reached, the loop then has no result.
\<close>

function clear_loop :: "nat \<Rightarrow> 'a \<Rightarrow> (nat \<Rightarrow> bool) \<Rightarrow> nat \<Rightarrow> nat \<Rightarrow> nat \<Rightarrow> 'a list \<Rightarrow> 'a list option" where
  "clear_loop lim z skip b i n a =
     (if lim < n then None
      else if i < n then
        (if skip i then clear_loop lim z skip b (i + 1) n a
         else do { a' \<leftarrow> wr a (b + i) z; clear_loop lim z skip b (i + 1) n a' })
      else Some a)"
  by pat_completeness auto
termination
  by (relation "measure (\<lambda>(lim, z, skip, b, i, n, a). n - i)") auto

declare clear_loop.simps [simp del]

text \<open>The loops of \<open>plc_element_value_init\<close> have an \<open>unsigned short\<close> counter.\<close>

abbreviation clear16 :: "'a \<Rightarrow> nat \<Rightarrow> 'a list \<Rightarrow> 'a list option" where
  "clear16 z n a \<equiv> clear_loop 65535 z (\<lambda>_. False) 0 0 n a"

abbreviation clear0 :: "nat \<Rightarrow> 'a::zero list \<Rightarrow> 'a list option" where
  "clear0 n a \<equiv> clear16 0 n a"

definition plc_clean_layer_lm_element ::
    "plc_element_info_st \<Rightarrow> plc_element_st \<Rightarrow> u8 \<Rightarrow> plc_element_st option" where
  "plc_clean_layer_lm_element i e layer =
     do { a \<leftarrow> clear_loop 255 0 (\<lambda>_. False) (lm_base i layer) 0
                (unat (msv_LMElementCnt i) div 16) (msp_LMElement e);
          Some (e\<lparr>msp_LMElement := a\<rparr>) }"

definition c_status0 :: plc_c_element_status_st where
  "c_status0 = \<lparr>c_PowerFlow = False, c_Started = False, c_Reserved = 0\<rparr>"

definition t_status0 :: plc_t_element_status_st where
  "t_status0 = \<lparr>t_Enable = False, t_PowerFlow = False, t_Init = False, t_Type = 0, t_Capacity = 0\<rparr>"

definition sd_keep :: "nat \<Rightarrow> bool" where
  "sd_keep i \<longleftrightarrow> (233 \<le> i \<and> i \<le> 384) \<or> (100 \<le> i \<and> i \<le> 106)"

definition c_element_value_init :: "plc_c_element_info_st \<Rightarrow> plc_c_element_st \<Rightarrow> plc_c_element_st option" where
  "c_element_value_init i c =
     do { b \<leftarrow> clear0 (unat (c_ElementCnt i) div 16) (c_BitElement c);
          st \<leftarrow> clear16 c_status0 (unat (c_ElementCnt i)) (c_StatusInfo c);
          v16 \<leftarrow> clear0 (unat (c_16bitCnt i)) (c_16BitValue c);
          v32 \<leftarrow> clear0 (unat (c_32bitCnt i)) (c_32BitValue c);
          Some (c\<lparr>c_BitElement := b, c_StatusInfo := st, c_16BitValue := v16, c_32BitValue := v32\<rparr>) }"

definition t_element_value_init :: "plc_t_element_info_st \<Rightarrow> plc_t_element_st \<Rightarrow> plc_t_element_st option" where
  "t_element_value_init i t =
     do { b \<leftarrow> clear0 (unat (t_ElementCnt i) div 16) (t_BitElement t);
          st \<leftarrow> clear16 t_status0 (unat (t_ElementCnt i)) (t_StatusInfo t);
          sv \<leftarrow> clear0 (unat (t_ElementCnt i)) (t_StartValue t);
          dv \<leftarrow> clear0 (unat (t_ElementCnt i)) (t_DestValue t);
          cv \<leftarrow> clear0 (unat (t_ElementCnt i)) (t_CurrentValue t);
          Some (t\<lparr>t_BitElement := b, t_StatusInfo := st, t_StartValue := sv, t_DestValue := dv,
                  t_CurrentValue := cv\<rparr>) }"

definition plc_element_value_init :: "plc_element_info_st \<Rightarrow> plc_element_st \<Rightarrow> plc_element_st option" where
  "plc_element_value_init i e =
     do { x \<leftarrow> clear0 (unat (msv_XElementCnt i) div 16) (msp_XElement e);
          y \<leftarrow> clear0 (unat (msv_YElementCnt i) div 16) (msp_YElement e);
          m \<leftarrow> clear0 (unat (msv_MElementCnt i) div 16 * MAX_SBR_NESTED_LAYER) (msp_MElement e);
          lm \<leftarrow> clear0 (unat (msv_LMElementCnt i) div 16 * MAX_SBR_NESTED_LAYER) (msp_LMElement e);
          sm \<leftarrow> clear0 (unat (msv_SMElementCnt i) div 16) (msp_SMElement e);
          st \<leftarrow> clear0 (unat (msv_SElementCnt i) div 16) (msp_SElement e);
          d \<leftarrow> clear0 (unat (msv_DElementCnt i)) (msp_DElement e);
          sd \<leftarrow> clear_loop 65535 0 sd_keep 0 0 (unat (msv_SDElementCnt i)) (msp_SDElement e);
          v \<leftarrow> clear0 (unat (msv_VElementCnt i) * MAX_SBR_NESTED_LAYER) (msp_VElement e);
          r \<leftarrow> clear0 (unat (msv_RElementCnt i)) (msp_RElement e);
          z \<leftarrow> clear0 (unat (msv_ZElementCnt i)) (msp_ZElement e);
          c \<leftarrow> c_element_value_init (msv_CElement i) (mtv_CElement e);
          t \<leftarrow> t_element_value_init (msv_TElement i) (mtv_TElement e);
          Some (e\<lparr>msp_XElement := x, msp_YElement := y, msp_MElement := m, msp_LMElement := lm,
                  msp_SMElement := sm, msp_SElement := st, msp_DElement := d, msp_SDElement := sd,
                  msp_VElement := v, msp_RElement := r, msp_ZElement := z, mtv_CElement := c,
                  mtv_TElement := t\<rparr>) }"

section \<open>Word elements\<close>

text \<open>The word arrays behind \<open>GET_D_ELEMENT_VALUE\<close>, \<open>GET_R_ELEMENT_VALUE\<close>,
  \<open>GET_SD_ELEMENT_VALUE\<close>, \<open>GET_Z_ELEMENT_VALUE\<close>, \<open>GET_C16_CURRENT_VALUE\<close> and
  \<open>GET_T_CURRENT_VALUE\<close>.\<close>

datatype word_area = D_AREA | R_AREA | SD_AREA | Z_AREA | C16_AREA | T_AREA

primrec word_base :: "plc_element_st \<Rightarrow> word_area \<Rightarrow> u16 list" where
  "word_base e D_AREA = msp_DElement e"
| "word_base e R_AREA = msp_RElement e"
| "word_base e SD_AREA = msp_SDElement e"
| "word_base e Z_AREA = msp_ZElement e"
| "word_base e C16_AREA = c_16BitValue (mtv_CElement e)"
| "word_base e T_AREA = t_CurrentValue (mtv_TElement e)"

primrec upd_word_base :: "word_area \<Rightarrow> u16 list \<Rightarrow> plc_element_st \<Rightarrow> plc_element_st" where
  "upd_word_base D_AREA b e = e\<lparr>msp_DElement := b\<rparr>"
| "upd_word_base R_AREA b e = e\<lparr>msp_RElement := b\<rparr>"
| "upd_word_base SD_AREA b e = e\<lparr>msp_SDElement := b\<rparr>"
| "upd_word_base Z_AREA b e = e\<lparr>msp_ZElement := b\<rparr>"
| "upd_word_base C16_AREA b e = e\<lparr>mtv_CElement := (mtv_CElement e)\<lparr>c_16BitValue := b\<rparr>\<rparr>"
| "upd_word_base T_AREA b e = e\<lparr>mtv_TElement := (mtv_TElement e)\<lparr>t_CurrentValue := b\<rparr>\<rparr>"

primrec word_rang :: "plc_element_info_st \<Rightarrow> word_area \<Rightarrow> u16" where
  "word_rang i D_AREA = msv_DElementCnt i"
| "word_rang i R_AREA = msv_RElementCnt i"
| "word_rang i SD_AREA = msv_SDElementCnt i"
| "word_rang i Z_AREA = msv_ZElementCnt i"
| "word_rang i C16_AREA = c_16bitCnt (msv_CElement i)"
| "word_rang i T_AREA = t_ElementCnt (msv_TElement i)"

section \<open>Accesses to the elements of a state\<close>

definition get_bit_elem :: "bit_area \<Rightarrow> plc_state \<Rightarrow> u16 \<Rightarrow> u8 option" where
  "get_bit_elem a s i = plc_get_bit_element_value (bit_base (gtv_PlcElement s) a) i"

definition set_bit_elem :: "bit_area \<Rightarrow> plc_state \<Rightarrow> u16 \<Rightarrow> u8 \<Rightarrow> plc_state option" where
  "set_bit_elem a s i v =
     do { b \<leftarrow> plc_set_bit_element_value (bit_base (gtv_PlcElement s) a) i v;
          Some (s\<lparr>gtv_PlcElement := upd_bit_base a b (gtv_PlcElement s)\<rparr>) }"

definition get_lm_elem :: "u8 \<Rightarrow> plc_state \<Rightarrow> u16 \<Rightarrow> u8 option" where
  "get_lm_elem layer s i = plc_get_lm_element_value (gtp_PlcElementInfo s) (gtv_PlcElement s) layer i"

definition set_lm_elem :: "u8 \<Rightarrow> plc_state \<Rightarrow> u16 \<Rightarrow> u8 \<Rightarrow> plc_state option" where
  "set_lm_elem layer s i v =
     do { e \<leftarrow> plc_set_lm_element_value (gtp_PlcElementInfo s) (gtv_PlcElement s) layer i v;
          Some (s\<lparr>gtv_PlcElement := e\<rparr>) }"

definition get_word_elem :: "word_area \<Rightarrow> plc_state \<Rightarrow> u16 \<Rightarrow> u16 option" where
  "get_word_elem a s i = rd (word_base (gtv_PlcElement s) a) (unat i)"

definition set_word_elem :: "word_area \<Rightarrow> plc_state \<Rightarrow> u16 \<Rightarrow> u16 \<Rightarrow> plc_state option" where
  "set_word_elem a s i v =
     do { b \<leftarrow> wr (word_base (gtv_PlcElement s) a) (unat i) v;
          Some (s\<lparr>gtv_PlcElement := upd_word_base a b (gtv_PlcElement s)\<rparr>) }"

text \<open>\<open>GET_V_ELEMENT_VALUE(layer, element)\<close> and \<open>SET_V_ELEMENT_VALUE\<close>.\<close>

definition v_index :: "plc_element_info_st \<Rightarrow> u32 \<Rightarrow> nat \<Rightarrow> nat" where
  "v_index i layer k = unat (msv_VElementCnt i) * unat layer + k"

definition get_v_elem :: "u32 \<Rightarrow> plc_state \<Rightarrow> u16 \<Rightarrow> u16 option" where
  "get_v_elem layer s i =
     rd (msp_VElement (gtv_PlcElement s)) (v_index (gtp_PlcElementInfo s) layer (unat i))"

definition set_v_elem :: "u32 \<Rightarrow> plc_state \<Rightarrow> u16 \<Rightarrow> u16 \<Rightarrow> plc_state option" where
  "set_v_elem layer s i v =
     do { b \<leftarrow> wr (msp_VElement (gtv_PlcElement s)) (v_index (gtp_PlcElementInfo s) layer (unat i)) v;
          Some (s\<lparr>gtv_PlcElement := (gtv_PlcElement s)\<lparr>msp_VElement := b\<rparr>\<rparr>) }"

text \<open>
  \<open>GET_C32_CURRENT_VALUE(element)\<close> and \<open>SET_C32_CURRENT_VALUE\<close> index the 32-bit array with
  \<open>element - msv_16bitCnt\<close>: a smaller element number is a negative index.
\<close>

definition get_c32_elem :: "plc_state \<Rightarrow> u16 \<Rightarrow> u32 option" where
  "get_c32_elem s i =
     (let n = c_16bitCnt (msv_CElement (gtp_PlcElementInfo s)) in
      if i < n then None
      else rd (c_32BitValue (mtv_CElement (gtv_PlcElement s))) (unat i - unat n))"

definition set_c32_elem :: "plc_state \<Rightarrow> u16 \<Rightarrow> u32 \<Rightarrow> plc_state option" where
  "set_c32_elem s i v =
     (let n = c_16bitCnt (msv_CElement (gtp_PlcElementInfo s)); e = gtv_PlcElement s in
      if i < n then None
      else do { b \<leftarrow> wr (c_32BitValue (mtv_CElement e)) (unat i - unat n) v;
                Some (s\<lparr>gtv_PlcElement := e\<lparr>mtv_CElement := (mtv_CElement e)\<lparr>c_32BitValue := b\<rparr>\<rparr>\<rparr>) })"

section \<open>Lemmas on bit elements\<close>

lemma get_bit_alt: "plc_get_bit_element_value b i =
   (if unat i div 16 < length b then Some (of_bool (bit (b ! (unat i div 16)) (unat i mod 16))) else None)"
  by (simp add: plc_get_bit_element_value_def unat_drop_bit unat_and_15 drop_bit_and_1 rd_def)

lemma set_bit_alt: "plc_set_bit_element_value b i v =
   (if unat i div 16 < length b
    then Some (b[unat i div 16 := bit_write (b ! (unat i div 16)) (unat i mod 16) v]) else None)"
  by (simp add: plc_set_bit_element_value_def unat_drop_bit unat_and_15 rd_def wr_def Let_def)

lemma get_lm_alt: "plc_get_lm_element_value f e l i =
   (let p = lm_base f l + unat i div 16 in
    if p < length (msp_LMElement e)
    then Some (of_bool (bit (msp_LMElement e ! p) (unat i mod 16))) else None)"
  by (simp add: plc_get_lm_element_value_def unat_drop_bit unat_and_15 drop_bit_and_1 rd_def Let_def)

lemma set_lm_alt: "plc_set_lm_element_value f e l i v =
   (let p = lm_base f l + unat i div 16 in
    if p < length (msp_LMElement e)
    then Some (e\<lparr>msp_LMElement := (msp_LMElement e)[p := bit_write (msp_LMElement e ! p) (unat i mod 16) v]\<rparr>)
    else None)"
  by (simp add: plc_set_lm_element_value_def unat_drop_bit unat_and_15 rd_def wr_def Let_def)

lemma div_mod_neq: "unat (i::u16) div 16 = unat j div 16 \<Longrightarrow> i \<noteq> j \<Longrightarrow> unat i mod 16 \<noteq> unat j mod 16"
  by (metis div_mult_mod_eq word_unat_eq_iff)

lemma get_set_bit_same: "plc_set_bit_element_value b i v = Some b' \<Longrightarrow>
   plc_get_bit_element_value b' i = Some (of_bool (v \<noteq> 0))"
  by (auto simp: set_bit_alt get_bit_alt bit_bit_write split: if_splits)

lemma get_set_bit_other: "plc_set_bit_element_value b i v = Some b' \<Longrightarrow> i \<noteq> j \<Longrightarrow>
   plc_get_bit_element_value b' j = plc_get_bit_element_value b j"
  using div_mod_neq [of i j]
  by (auto simp: set_bit_alt get_bit_alt bit_bit_write nth_list_update split: if_splits)

lemma length_set_bit: "plc_set_bit_element_value b i v = Some b' \<Longrightarrow> length b' = length b"
  by (auto simp: set_bit_alt split: if_splits)

lemma get_set_lm_same: "plc_set_lm_element_value f e l i v = Some e' \<Longrightarrow>
   plc_get_lm_element_value f e' l i = Some (of_bool (v \<noteq> 0))"
  by (auto simp: set_lm_alt get_lm_alt bit_bit_write Let_def split: if_splits)

lemma get_set_lm_other: "plc_set_lm_element_value f e l i v = Some e' \<Longrightarrow> i \<noteq> j \<Longrightarrow>
   plc_get_lm_element_value f e' l j = plc_get_lm_element_value f e l j"
  using div_mod_neq [of i j]
  by (auto simp: set_lm_alt get_lm_alt bit_bit_write nth_list_update Let_def split: if_splits)

section \<open>Independence of the arrays\<close>

lemma bit_base_upd [simp]: "bit_base (upd_bit_base a b e) a' = (if a' = a then b else bit_base e a')"
  by (cases a; cases a'; simp)

lemma bit_base_upd_word [simp]: "bit_base (upd_word_base w b e) a = bit_base e a"
  by (cases a; cases w; simp)

lemma word_base_upd_bit [simp]: "word_base (upd_bit_base a b e) w = word_base e w"
  by (cases a; cases w; simp)

lemma word_base_upd [simp]: "word_base (upd_word_base w b e) w' = (if w' = w then b else word_base e w')"
  by (cases w; cases w'; simp)

lemma LM_upd [simp]:
  "msp_LMElement (upd_bit_base a b e) = msp_LMElement e"
  "msp_LMElement (upd_word_base w b e) = msp_LMElement e"
  by (cases a; simp) (cases w; simp)

lemma V_upd [simp]:
  "msp_VElement (upd_bit_base a b e) = msp_VElement e"
  "msp_VElement (upd_word_base w b e) = msp_VElement e"
  by (cases a; simp) (cases w; simp)

lemma base_upd_LM [simp]:
  "bit_base (e\<lparr>msp_LMElement := b\<rparr>) a = bit_base e a"
  "word_base (e\<lparr>msp_LMElement := b\<rparr>) w = word_base e w"
  by (cases a; simp) (cases w; simp)

lemma base_upd_V [simp]:
  "bit_base (e\<lparr>msp_VElement := b\<rparr>) a = bit_base e a"
  "word_base (e\<lparr>msp_VElement := b\<rparr>) w = word_base e w"
  by (cases a; simp) (cases w; simp)

lemma bit_base_upd_C32 [simp]:
  "bit_base (e\<lparr>mtv_CElement := (mtv_CElement e)\<lparr>c_32BitValue := b\<rparr>\<rparr>) a = bit_base e a"
  "word_base (e\<lparr>mtv_CElement := (mtv_CElement e)\<lparr>c_32BitValue := b\<rparr>\<rparr>) w = word_base e w"
  by (cases a; simp) (cases w; simp)

section \<open>Well-formedness is kept\<close>

lemma wf_upd_bit: "wf_elements f e \<Longrightarrow> length b = length (bit_base e a) \<Longrightarrow> wf_elements f (upd_bit_base a b e)"
  by (cases a; simp add: wf_elements_def)

lemma wf_upd_word: "wf_elements f e \<Longrightarrow> length b = length (word_base e a) \<Longrightarrow> wf_elements f (upd_word_base a b e)"
  by (cases a; simp add: wf_elements_def)

lemma wf_bit_range: "wf_elements f e \<Longrightarrow> i < bit_rang f a \<Longrightarrow> unat i div 16 < length (bit_base e a)"
  by (cases a; auto simp: wf_elements_def word_less_nat_alt)

lemma wf_word_range: "wf_elements f e \<Longrightarrow> i < word_rang f a \<Longrightarrow> unat i < length (word_base e a)"
  by (cases a; auto simp: wf_elements_def word_less_nat_alt)

lemma wf_upd_LM: "wf_elements f e \<Longrightarrow> length b = length (msp_LMElement e) \<Longrightarrow>
   wf_elements f (e\<lparr>msp_LMElement := b\<rparr>)"
  by (simp add: wf_elements_def)

lemma wf_upd_V: "wf_elements f e \<Longrightarrow> length b = length (msp_VElement e) \<Longrightarrow>
   wf_elements f (e\<lparr>msp_VElement := b\<rparr>)"
  by (simp add: wf_elements_def)

lemma wf_upd_C32: "wf_elements f e \<Longrightarrow> length b = length (c_32BitValue (mtv_CElement e)) \<Longrightarrow>
   wf_elements f (e\<lparr>mtv_CElement := (mtv_CElement e)\<lparr>c_32BitValue := b\<rparr>\<rparr>)"
  by (simp add: wf_elements_def)

lemma layer_bound:
  assumes "(8::nat) * r \<le> n" and "l < 8" and "k < r"
  shows "r * l + k < n"
proof -
  have "r * l + k < r * (l + 1)"
    using assms(3) by simp
  also have "\<dots> \<le> r * 8"
    using assms(2) by (intro mult_le_mono2) simp
  finally show ?thesis
    using assms(1) by (simp add: ac_simps)
qed

lemma wf_lm_range:
  assumes "wf_elements f e" and "layer < 8" and "i < msv_LMElementCnt f"
  shows "lm_base f layer + unat i div 16 < length (msp_LMElement e)"
proof -
  have "unat i div 16 < unat (msv_LMElementCnt f) div 16"
    using assms by (auto simp: wf_elements_def word_less_nat_alt elim!: dvdE)
  then show ?thesis
    using assms layer_bound [of "unat (msv_LMElementCnt f) div 16"]
    by (simp add: lm_base_def wf_elements_def MAX_SBR_NESTED_LAYER_def word_less_nat_alt)
qed

lemma wf_v_range:
  assumes "wf_elements f e" and "layer < 8" and "i < msv_VElementCnt f"
  shows "v_index f layer (unat i) < length (msp_VElement e)"
  using assms layer_bound [of "unat (msv_VElementCnt f)"]
  by (simp add: v_index_def wf_elements_def MAX_SBR_NESTED_LAYER_def word_less_nat_alt)

lemma v_index_inj [simp]: "v_index f layer k = v_index f layer k' \<longleftrightarrow> k = k'"
  by (simp add: v_index_def)

lemma wf_c32_range:
  assumes "wf_elements f e" and "c_16bitCnt (msv_CElement f) \<le> i" and "i < c_ElementCnt (msv_CElement f)"
  shows "unat i - unat (c_16bitCnt (msv_CElement f)) < length (c_32BitValue (mtv_CElement e))"
  using assms by (auto simp: wf_elements_def word_less_nat_alt word_le_nat_alt)

section \<open>The contract of a bank of elements\<close>

text \<open>
  \<open>get\<close> and \<open>put\<close> access element \<open>i\<close>, \<open>norm\<close> is the value a read returns for a written one
  (a bit element keeps only whether the value is zero), \<open>rng\<close> the number of elements the
  range checks compare with, \<open>inv\<close> the states in which all elements below \<open>rng\<close> exist.
\<close>

locale bank =
  fixes get :: "'s \<Rightarrow> u16 \<Rightarrow> 'v option"
    and put :: "'s \<Rightarrow> u16 \<Rightarrow> 'v \<Rightarrow> 's option"
    and norm :: "'v \<Rightarrow> 'v"
    and rng :: "'s \<Rightarrow> u16"
    and inv :: "'s \<Rightarrow> bool"
  assumes get_ok: "inv s \<Longrightarrow> i < rng s \<Longrightarrow> \<exists>v. get s i = Some v"
    and put_ok: "inv s \<Longrightarrow> i < rng s \<Longrightarrow> \<exists>s'. put s i v = Some s'"
    and put_inv: "inv s \<Longrightarrow> put s i v = Some s' \<Longrightarrow> inv s'"
    and put_rng: "put s i v = Some s' \<Longrightarrow> rng s' = rng s"
    and get_put_same: "put s i v = Some s' \<Longrightarrow> get s' i = Some (norm v)"
    and get_put_other: "put s i v = Some s' \<Longrightarrow> i \<noteq> j \<Longrightarrow> get s' j = get s j"

definition bit_norm :: "u8 \<Rightarrow> u8" where
  "bit_norm v = of_bool (v \<noteq> 0)"

abbreviation bit_elem_rang :: "bit_area \<Rightarrow> plc_state \<Rightarrow> u16" where
  "bit_elem_rang a s \<equiv> bit_rang (gtp_PlcElementInfo s) a"

abbreviation lm_elem_rang :: "plc_state \<Rightarrow> u16" where
  "lm_elem_rang s \<equiv> msv_LMElementCnt (gtp_PlcElementInfo s)"

abbreviation word_elem_rang :: "word_area \<Rightarrow> plc_state \<Rightarrow> u16" where
  "word_elem_rang a s \<equiv> word_rang (gtp_PlcElementInfo s) a"

abbreviation v_elem_rang :: "plc_state \<Rightarrow> u16" where
  "v_elem_rang s \<equiv> msv_VElementCnt (gtp_PlcElementInfo s)"

interpretation bits: bank "get_bit_elem a" "set_bit_elem a" bit_norm "bit_elem_rang a" wf_state
  for a
proof (unfold_locales, goal_cases)
  case (3 s i v s')
  then show ?case
    by (auto simp: set_bit_elem_def opt_simps intro!: wf_upd_bit dest: length_set_bit)
qed (auto simp: get_bit_elem_def set_bit_elem_def bit_norm_def opt_simps get_bit_alt set_bit_alt wf_bit_range
       bit_bit_write nth_list_update div_mod_neq split: if_splits)

interpretation lm: bank "get_lm_elem layer" "set_lm_elem layer" bit_norm lm_elem_rang
    "\<lambda>s. wf_state s \<and> layer < 8"
  for layer
proof (unfold_locales, goal_cases)
  case (3 s i v s')
  then show ?case
    by (auto simp: set_lm_elem_def set_lm_alt opt_simps Let_def split: if_splits intro!: wf_upd_LM)
next
  case (6 s i v s' j)
  then show ?case
    by (auto simp: get_lm_elem_def set_lm_elem_def opt_simps get_set_lm_other)
qed (auto simp: get_lm_elem_def set_lm_elem_def bit_norm_def opt_simps get_set_lm_same get_lm_alt set_lm_alt Let_def
       wf_lm_range bit_bit_write split: if_splits)

interpretation words: bank "get_word_elem a" "set_word_elem a" "\<lambda>v. v" "word_elem_rang a" wf_state
  for a
  by unfold_locales
    (auto simp: get_word_elem_def set_word_elem_def opt_simps wf_word_range rd_def
      nth_list_update intro!: wf_upd_word)

interpretation vs: bank "get_v_elem layer" "set_v_elem layer" "\<lambda>v. v" v_elem_rang
    "\<lambda>s. wf_state s \<and> layer < 8"
  for layer
  by unfold_locales
    (auto simp: get_v_elem_def set_v_elem_def opt_simps wf_v_range rd_def
      nth_list_update intro!: wf_upd_V)

section \<open>The initialisation loops\<close>

lemma clear_loop_ok:
  "n \<le> lim \<Longrightarrow> b + n \<le> length a \<Longrightarrow>
   \<exists>a'. clear_loop lim z skip b i n a = Some a' \<and> length a' = length a \<and>
     (\<forall>k < length a. a' ! k = (if b + i \<le> k \<and> k < b + n \<and> \<not> skip (k - b) then z else a ! k))"
proof (induction lim z skip b i n a rule: clear_loop.induct)
  case (1 lim z skip b i n a)
  show ?case
  proof (cases "i < n")
    case False
    then show ?thesis
      using 1 by (subst clear_loop.simps) auto
  next
    case True
    show ?thesis
    proof (cases "skip i")
      case skip: True
      obtain a' where "clear_loop lim z skip b (i + 1) n a = Some a'" "length a' = length a"
        "\<forall>k < length a. a' ! k = (if b + (i + 1) \<le> k \<and> k < b + n \<and> \<not> skip (k - b) then z else a ! k)"
        using 1(1) [OF _ True skip] 1(3,4) by auto
      moreover have "b + (i + 1) \<le> k \<longleftrightarrow> b + i \<le> k \<and> k \<noteq> b + i" for k
        by auto
      ultimately show ?thesis
        using 1(3) True skip by (subst clear_loop.simps) auto
    next
      case no: False
      obtain a' where "clear_loop lim z skip b (i + 1) n (a[b + i := z]) = Some a'" "length a' = length a"
        "\<forall>k < length a. a' ! k = (if b + (i + 1) \<le> k \<and> k < b + n \<and> \<not> skip (k - b) then z else a[b + i := z] ! k)"
        using 1(2) [OF _ True no, of "a[b + i := z]"] 1(3,4) True by auto
      moreover have "b + (i + 1) \<le> k \<longleftrightarrow> b + i \<le> k \<and> k \<noteq> b + i" for k
        by auto
      ultimately show ?thesis
        using 1(3,4) True no by (subst clear_loop.simps) (auto simp: nth_list_update mem_simps)
    qed
  qed
qed

lemma clear16_ok:
  assumes "n < 65536" and "n \<le> length a"
  shows "\<exists>a'. clear16 z n a = Some a' \<and> length a' = length a \<and> (\<forall>k < n. a' ! k = z)"
  using clear_loop_ok [of n 65535 0 a z "\<lambda>_. False" 0] assms by force

text \<open>An array is cleared below \<open>n\<close>.\<close>

abbreviation cleared :: "nat \<Rightarrow> 'a \<Rightarrow> 'a list \<Rightarrow> bool" where
  "cleared n z a \<equiv> \<forall>k < n. a ! k = z"

text \<open>The counter and timer structures after their initialisation.\<close>

definition c_inited :: "plc_c_element_info_st \<Rightarrow> plc_c_element_st \<Rightarrow> plc_c_element_st \<Rightarrow> bool" where
  "c_inited i c c' \<longleftrightarrow> length (c_BitElement c') = length (c_BitElement c) \<and>
     length (c_StatusInfo c') = length (c_StatusInfo c) \<and>
     length (c_16BitValue c') = length (c_16BitValue c) \<and>
     length (c_32BitValue c') = length (c_32BitValue c) \<and>
     cleared (unat (c_ElementCnt i) div 16) 0 (c_BitElement c') \<and>
     cleared (unat (c_ElementCnt i)) c_status0 (c_StatusInfo c') \<and>
     cleared (unat (c_16bitCnt i)) 0 (c_16BitValue c') \<and>
     cleared (unat (c_32bitCnt i)) 0 (c_32BitValue c')"

definition t_inited :: "plc_t_element_info_st \<Rightarrow> plc_t_element_st \<Rightarrow> plc_t_element_st \<Rightarrow> bool" where
  "t_inited i t t' \<longleftrightarrow> length (t_BitElement t') = length (t_BitElement t) \<and>
     length (t_StatusInfo t') = length (t_StatusInfo t) \<and>
     length (t_StartValue t') = length (t_StartValue t) \<and>
     length (t_DestValue t') = length (t_DestValue t) \<and>
     length (t_CurrentValue t') = length (t_CurrentValue t) \<and>
     cleared (unat (t_ElementCnt i) div 16) 0 (t_BitElement t') \<and>
     cleared (unat (t_ElementCnt i)) t_status0 (t_StatusInfo t') \<and>
     cleared (unat (t_ElementCnt i)) 0 (t_StartValue t') \<and>
     cleared (unat (t_ElementCnt i)) 0 (t_DestValue t') \<and>
     cleared (unat (t_ElementCnt i)) 0 (t_CurrentValue t')"

lemma div_rang: "unat (n :: u16) \<le> 16 * l \<Longrightarrow> unat n div 16 < 65536 \<and> unat n div 16 \<le> l"
  using unat_lt_16 [of n] by linarith

lemma c_element_value_init_ok:
  assumes "unat (c_ElementCnt i) \<le> 16 * length (c_BitElement c)"
    and "unat (c_ElementCnt i) \<le> length (c_StatusInfo c)"
    and "unat (c_16bitCnt i) \<le> length (c_16BitValue c)"
    and "unat (c_32bitCnt i) \<le> length (c_32BitValue c)"
  shows "\<exists>c'. c_element_value_init i c = Some c' \<and> c_inited i c c'"
  using assms clear16_ok [of "unat (c_ElementCnt i) div 16" "c_BitElement c" 0]
    clear16_ok [of "unat (c_ElementCnt i)" "c_StatusInfo c" c_status0]
    clear16_ok [of "unat (c_16bitCnt i)" "c_16BitValue c" 0]
    clear16_ok [of "unat (c_32bitCnt i)" "c_32BitValue c" 0] div_rang [OF assms(1)]
  by (auto simp: c_element_value_init_def c_inited_def)

lemma t_element_value_init_ok:
  assumes "unat (t_ElementCnt i) \<le> 16 * length (t_BitElement t)"
    and "unat (t_ElementCnt i) \<le> length (t_StatusInfo t)"
    and "unat (t_ElementCnt i) \<le> length (t_StartValue t)"
    and "unat (t_ElementCnt i) \<le> length (t_DestValue t)"
    and "unat (t_ElementCnt i) \<le> length (t_CurrentValue t)"
  shows "\<exists>t'. t_element_value_init i t = Some t' \<and> t_inited i t t'"
  using assms clear16_ok [of "unat (t_ElementCnt i) div 16" "t_BitElement t" 0]
    clear16_ok [of "unat (t_ElementCnt i)" "t_StatusInfo t" t_status0]
    clear16_ok [of "unat (t_ElementCnt i)" "t_StartValue t" 0]
    clear16_ok [of "unat (t_ElementCnt i)" "t_DestValue t" 0]
    clear16_ok [of "unat (t_ElementCnt i)" "t_CurrentValue t" 0] div_rang [OF assms(1)]
  by (auto simp: t_element_value_init_def t_inited_def)

text \<open>What the initialisation leaves of the elements.\<close>

definition elements_cleared :: "plc_element_info_st \<Rightarrow> plc_element_st \<Rightarrow> plc_element_st \<Rightarrow> bool" where
  "elements_cleared i e e' \<longleftrightarrow>
     (\<forall>a. cleared (unat (bit_rang i a) div 16) 0 (bit_base e' a)) \<and>
     (\<forall>w. w \<noteq> SD_AREA \<longrightarrow> cleared (unat (word_rang i w)) 0 (word_base e' w)) \<and>
     (\<forall>k < unat (msv_SDElementCnt i). msp_SDElement e' ! k = (if sd_keep k then msp_SDElement e ! k else 0)) \<and>
     cleared (unat (msv_LMElementCnt i) div 16 * 8) 0 (msp_LMElement e') \<and>
     cleared (unat (msv_VElementCnt i) * 8) 0 (msp_VElement e') \<and>
     cleared (unat (c_32bitCnt (msv_CElement i))) 0 (c_32BitValue (mtv_CElement e')) \<and>
     cleared (unat (c_ElementCnt (msv_CElement i))) c_status0 (c_StatusInfo (mtv_CElement e')) \<and>
     cleared (unat (t_ElementCnt (msv_TElement i))) t_status0 (t_StatusInfo (mtv_TElement e')) \<and>
     cleared (unat (t_ElementCnt (msv_TElement i))) 0 (t_StartValue (mtv_TElement e')) \<and>
     cleared (unat (t_ElementCnt (msv_TElement i))) 0 (t_DestValue (mtv_TElement e'))"

lemma all_bit_area: "(\<forall>a. P a) \<longleftrightarrow> P X_ELEMENT \<and> P Y_ELEMENT \<and> P M_ELEMENT \<and> P SM_ELEMENT \<and>
   P S_ELEMENT \<and> P C_ELEMENT \<and> P T_ELEMENT"
proof (intro iffI allI)
  show "P a" if "P X_ELEMENT \<and> P Y_ELEMENT \<and> P M_ELEMENT \<and> P SM_ELEMENT \<and> P S_ELEMENT \<and> P C_ELEMENT \<and> P T_ELEMENT" for a
    using that by (cases a) simp_all
qed simp

lemma all_word_area: "(\<forall>a. P a) \<longleftrightarrow> P D_AREA \<and> P R_AREA \<and> P SD_AREA \<and> P Z_AREA \<and>
   P C16_AREA \<and> P T_AREA"
proof (intro iffI allI)
  show "P a" if "P D_AREA \<and> P R_AREA \<and> P SD_AREA \<and> P Z_AREA \<and> P C16_AREA \<and> P T_AREA" for a
    using that by (cases a) simp_all
qed simp

definition clears :: "nat \<Rightarrow> 'a::zero list \<Rightarrow> 'a list \<Rightarrow> bool" where
  "clears n a a' \<longleftrightarrow> clear0 n a = Some a' \<and> length a' = length a \<and> cleared n 0 a'"

lemma clears_bit: "unat (n :: u16) \<le> 16 * length a \<Longrightarrow> \<exists>a'. clears (unat n div 16) a a'"
  unfolding clears_def by (rule clear16_ok) (auto dest: div_rang)

lemma clears_word: "unat (n :: u16) \<le> length a \<Longrightarrow> \<exists>a'. clears (unat n) a a'"
  unfolding clears_def by (rule clear16_ok) auto

lemma clears_layers: "8 * m \<le> length a \<Longrightarrow> 8 * m < 65536 \<Longrightarrow> \<exists>a'. clears (m * 8) a a'"
  unfolding clears_def by (rule clear16_ok) auto

lemma layers_lt: "8 * (unat (n :: u16) div 16) < 65536"
  using unat_lt_16 [of n] by linarith

lemma element_value_init_ok:
  assumes wf: "wf_elements i e"
  shows "\<exists>e'. plc_element_value_init i e = Some e' \<and> wf_elements i e' \<and> elements_cleared i e e'"
proof -
  note wfs = wf [unfolded wf_elements_def MAX_SBR_NESTED_LAYER_def]
  obtain x y sm st where bits:
    "clears (unat (msv_XElementCnt i) div 16) (msp_XElement e) x"
    "clears (unat (msv_YElementCnt i) div 16) (msp_YElement e) y"
    "clears (unat (msv_SMElementCnt i) div 16) (msp_SMElement e) sm"
    "clears (unat (msv_SElementCnt i) div 16) (msp_SElement e) st"
    using clears_bit [of "msv_XElementCnt i" "msp_XElement e"] clears_bit [of "msv_YElementCnt i" "msp_YElement e"]
      clears_bit [of "msv_SMElementCnt i" "msp_SMElement e"] clears_bit [of "msv_SElementCnt i" "msp_SElement e"] wfs
    by fast
  obtain m lm v where layers:
    "clears (unat (msv_MElementCnt i) div 16 * 8) (msp_MElement e) m"
    "clears (unat (msv_LMElementCnt i) div 16 * 8) (msp_LMElement e) lm"
    "clears (unat (msv_VElementCnt i) * 8) (msp_VElement e) v"
    using clears_layers [of "unat (msv_MElementCnt i) div 16" "msp_MElement e"]
      clears_layers [of "unat (msv_LMElementCnt i) div 16" "msp_LMElement e"]
      clears_layers [of "unat (msv_VElementCnt i)" "msp_VElement e"] layers_lt wfs
    by fast
  obtain d r z where words:
    "clears (unat (msv_DElementCnt i)) (msp_DElement e) d"
    "clears (unat (msv_RElementCnt i)) (msp_RElement e) r"
    "clears (unat (msv_ZElementCnt i)) (msp_ZElement e) z"
    using clears_word [of "msv_DElementCnt i" "msp_DElement e"] clears_word [of "msv_RElementCnt i" "msp_RElement e"]
      clears_word [of "msv_ZElementCnt i" "msp_ZElement e"] wfs
    by fast
  obtain sd where sd: "clear_loop 65535 0 sd_keep 0 0 (unat (msv_SDElementCnt i)) (msp_SDElement e) = Some sd"
    "length sd = length (msp_SDElement e)"
    "\<forall>k < unat (msv_SDElementCnt i). sd ! k = (if sd_keep k then msp_SDElement e ! k else 0)"
    using clear_loop_ok [of "unat (msv_SDElementCnt i)" 65535 0 "msp_SDElement e" 0 sd_keep 0] wfs
      unat_lt_16 [of "msv_SDElementCnt i"] by force
  obtain c where c: "c_element_value_init (msv_CElement i) (mtv_CElement e) = Some c"
      "c_inited (msv_CElement i) (mtv_CElement e) c"
    using c_element_value_init_ok [of "msv_CElement i" "mtv_CElement e"] wfs by fast
  obtain t where t: "t_element_value_init (msv_TElement i) (mtv_TElement e) = Some t"
      "t_inited (msv_TElement i) (mtv_TElement e) t"
    using t_element_value_init_ok [of "msv_TElement i" "mtv_TElement e"] wfs by fast
  have eq: "plc_element_value_init i e = Some (e\<lparr>msp_XElement := x, msp_YElement := y, msp_MElement := m,
      msp_LMElement := lm, msp_SMElement := sm, msp_SElement := st, msp_DElement := d, msp_SDElement := sd,
      msp_VElement := v, msp_RElement := r, msp_ZElement := z, mtv_CElement := c, mtv_TElement := t\<rparr>)"
    (is "_ = Some ?e'")
    using bits layers words by (simp add: clears_def plc_element_value_init_def MAX_SBR_NESTED_LAYER_def sd(1) c(1) t(1))
  moreover have "wf_elements i ?e'"
    using wf bits layers words
    by (simp add: clears_def wf_elements_def sd(2) c(2) [unfolded c_inited_def] t(2) [unfolded t_inited_def])
  moreover have "elements_cleared i e ?e'"
    using bits layers words by (simp add: clears_def elements_cleared_def all_bit_area all_word_area sd(3)
      c(2) [unfolded c_inited_def] t(2) [unfolded t_inited_def])
  ultimately show ?thesis
    by blast
qed

section \<open>Properties\<close>

text \<open>C30. The initialisation of the soft elements ends without leaving an array for every well-formed
  configuration, keeps it well-formed, and clears every configured element: all bit areas, the LM and
  V elements of all call layers, D, R, Z, the counters and timers with their status; of the SD
  elements those of the kept ranges (100 to 106 and 233 to 384) are unchanged and the others cleared.\<close>

theorem plc_element_value_init_clears:
  assumes "wf_elements i e"
  shows "\<exists>e'. plc_element_value_init i e = Some e' \<and> wf_elements i e' \<and> elements_cleared i e e'"
  by (rule element_value_init_ok [OF assms])

theorem plc_element_value_init_clears_witness:
  "\<exists>e'. plc_element_value_init default_element_info static_elements = Some e' \<and>
     wf_elements default_element_info e' \<and> elements_cleared default_element_info static_elements e'"
  using plc_element_value_init_clears [OF wf_default] by simp

text \<open>A bit element holds the last value written to it, as 0 or 1, and a write changes no other
  element of its area and no element of another area.\<close>

theorem set_get_bit_elem:
  assumes "set_bit_elem a s i v = Some s'"
  shows "get_bit_elem a' s' j = (if a' = a \<and> j = i then Some (of_bool (v \<noteq> 0)) else get_bit_elem a' s j)"
proof (cases "a' = a")
  case True
  then show ?thesis
    using bits.get_put_same [OF assms] bits.get_put_other [OF assms, of j] by (auto simp: bit_norm_def)
next
  case False
  then show ?thesis
    using assms by (auto simp: set_bit_elem_def get_bit_elem_def opt_simps)
qed

theorem set_get_bit_elem_witness:
  "\<exists>s'. set_bit_elem M_ELEMENT (boot_state []) 100 7 = Some s' \<and> get_bit_elem M_ELEMENT s' 100 = Some 1 \<and>
     get_bit_elem M_ELEMENT s' 101 = Some 0 \<and> get_bit_elem Y_ELEMENT s' 100 = Some 0"
proof -
  obtain s' where s': "set_bit_elem M_ELEMENT (boot_state []) 100 7 = Some s'"
    by (simp add: set_bit_elem_def set_bit_alt)
  then show ?thesis
    using set_get_bit_elem [OF s', of M_ELEMENT 100] set_get_bit_elem [OF s', of M_ELEMENT 101]
      set_get_bit_elem [OF s', of Y_ELEMENT 100]
    by (simp add: get_bit_elem_def get_bit_alt)
qed

text \<open>The LM elements of the call layers are separate: a write to one layer changes exactly that
  element of that layer, whatever the layers are, as long as the element numbers are in range.\<close>

theorem set_get_lm_elem:
  assumes "wf_state s" and "i < lm_elem_rang s" and "j < lm_elem_rang s" and "set_lm_elem l s i v = Some s'"
  shows "get_lm_elem l' s' j = (if l' = l \<and> j = i then Some (of_bool (v \<noteq> 0)) else get_lm_elem l' s j)"
proof (cases "l' = l")
  case True
  then show ?thesis
    using lm.get_put_same [OF assms(4)] lm.get_put_other [OF assms(4), of j] by (auto simp: bit_norm_def)
next
  case False
  let ?n = "unat (lm_elem_rang s) div 16"
  have lt: "unat i div 16 < ?n" "unat j div 16 < ?n"
    using assms(1-3) by (auto simp: wf_elements_def word_less_nat_alt elim!: dvdE)
  have "lm_base (gtp_PlcElementInfo s) l + unat i div 16 \<noteq> lm_base (gtp_PlcElementInfo s) l' + unat j div 16"
  proof
    assume eq: "lm_base (gtp_PlcElementInfo s) l + unat i div 16 = lm_base (gtp_PlcElementInfo s) l' + unat j div 16"
    have "unat l = (lm_base (gtp_PlcElementInfo s) l + unat i div 16) div ?n"
      using lt by (simp add: lm_base_def)
    also have "\<dots> = unat l'"
      using lt by (simp add: eq) (simp add: lm_base_def)
    finally show False
      using False by simp
  qed
  then show ?thesis
    using assms(4) False
    by (auto simp: set_lm_elem_def get_lm_elem_def opt_simps set_lm_alt get_lm_alt Let_def split: if_splits)
qed

theorem set_get_lm_elem_witness:
  "\<exists>s'. set_lm_elem 2 (boot_state []) 63 1 = Some s' \<and> get_lm_elem 2 s' 63 = Some 1 \<and> get_lm_elem 3 s' 0 = Some 0"
proof -
  obtain s' where s': "set_lm_elem 2 (boot_state []) 63 1 = Some s'"
    by (simp add: set_lm_elem_def set_lm_alt lm_base_def)
  then show ?thesis
    using set_get_lm_elem [OF _ _ _ s', of 63 2] set_get_lm_elem [OF _ _ _ s', of 0 3]
    by (simp add: get_lm_elem_def get_lm_alt lm_base_def)
qed

end
