(* ===== verification/PLC_Access.thy ===== *)
theory PLC_Access
  imports PLC_Element
begin

text \<open>
  The loops of \<open>source/plc/executer/src/plc_parseaddr.c\<close>.  Every case of the operand functions
  runs one of four loops over a bank of elements: read or write \<open>n\<close> consecutive elements, or
  read or write \<open>n\<close> groups of \<open>4*Kn\<close> bit elements as words.  The loops are defined once, over
  the bank's \<open>get\<close> or \<open>put\<close> and the bound of its range check; their contracts (results on
  success and on a range error, frame, safety, round trip) are proved once in the locale
  \<open>bank\<close>, and for bit groups in its extension \<open>bit_bank\<close>.
\<close>

section \<open>Consecutive elements\<close>

text \<open>The values stored through the result pointer are the list; a range error keeps those
  stored before it.\<close>

fun get_run :: "('s \<Rightarrow> u16 \<Rightarrow> 'v option) \<Rightarrow> u16 \<Rightarrow> 's \<Rightarrow> u16 \<Rightarrow> nat \<Rightarrow> (plc_ret \<times> 'v list) option" where
  "get_run get rang s i 0 = Some (pdPASS, [])"
| "get_run get rang s i (Suc n) =
     (if i < rang then do { v \<leftarrow> get s i; (r, vs) \<leftarrow> get_run get rang s (i + 1) n; Some (r, v # vs) }
      else Some (ERR_OVER_ELEMENT_RANG, []))"

text \<open>A write takes its values from a buffer; reading past the buffer is undefined.\<close>

fun save_run :: "('s \<Rightarrow> u16 \<Rightarrow> 'v \<Rightarrow> 's option) \<Rightarrow> u16 \<Rightarrow> 's \<Rightarrow> u16 \<Rightarrow> nat \<Rightarrow> 'v list \<Rightarrow> (plc_ret \<times> 's) option" where
  "save_run put rang s i 0 vs = Some (pdPASS, s)"
| "save_run put rang s i (Suc n) vs =
     (if i < rang then
        (case vs of [] \<Rightarrow> None
         | v # vs' \<Rightarrow> do { s' \<leftarrow> put s i v; save_run put rang s' (i + 1) n vs' })
      else Some (ERR_OVER_ELEMENT_RANG, s))"

section \<open>Groups of bit elements\<close>

text \<open>
  One group, read from its highest element down: \<open>*value = (*value << 1) + bit\<close> for
  \<open>lsv_Temp = t, \<dots>, 1\<close> at index \<open>lsv_Temp + base - 1\<close>, where \<open>base\<close> is
  \<open>lsv_StartIndex + lsv_Offset*4*lcv_Kn\<close>.
\<close>

fun kn_get_bits :: "('s \<Rightarrow> u16 \<Rightarrow> u8 option) \<Rightarrow> u16 \<Rightarrow> 's \<Rightarrow> u16 \<Rightarrow> nat \<Rightarrow> 'w::len word \<Rightarrow> (plc_ret \<times> 'w word) option" where
  "kn_get_bits get rang s base 0 v = Some (pdPASS, v)"
| "kn_get_bits get rang s base (Suc t) v =
     (let i = of_nat (Suc t) + base - 1 in
      if i < rang then do { b \<leftarrow> get s i; kn_get_bits get rang s base t (shl_in v b) }
      else Some (ERR_OVER_ELEMENT_RANG, v))"

definition kn_base :: "u16 \<Rightarrow> u16 \<Rightarrow> u8 \<Rightarrow> u16" where
  "kn_base start off kn = start + off * 4 * ucast kn"

fun kn_get :: "('s \<Rightarrow> u16 \<Rightarrow> u8 option) \<Rightarrow> u16 \<Rightarrow> 's \<Rightarrow> u16 \<Rightarrow> u8 \<Rightarrow> u16 \<Rightarrow> nat \<Rightarrow> (plc_ret \<times> 'w::len word list) option" where
  "kn_get get rang s start kn off 0 = Some (pdPASS, [])"
| "kn_get get rang s start kn off (Suc n) =
     do { (r, v) \<leftarrow> kn_get_bits get rang s (kn_base start off kn) (4 * unat kn) 0;
          if r \<noteq> pdPASS then Some (r, [v])
          else do { (r', vs) \<leftarrow> kn_get get rang s start kn (off + 1) n; Some (r', v # vs) } }"

text \<open>
  One group, written from its lowest element up (\<open>i\<close> is \<open>lsv_Temp + base\<close>, \<open>m\<close> the number of
  elements left); the value is shifted in the caller's buffer, which the result returns.
\<close>

fun kn_save_bits :: "('s \<Rightarrow> u16 \<Rightarrow> u8 \<Rightarrow> 's option) \<Rightarrow> u16 \<Rightarrow> 's \<Rightarrow> u16 \<Rightarrow> nat \<Rightarrow> 'w::len word \<Rightarrow> (plc_ret \<times> 's \<times> 'w word) option" where
  "kn_save_bits put rang s i 0 v = Some (pdPASS, s, v)"
| "kn_save_bits put rang s i (Suc m) v =
     (if i < rang then do { s' \<leftarrow> put s i (ucast (v AND 1)); kn_save_bits put rang s' (i + 1) m (drop_bit 1 v) }
      else Some (ERR_OVER_ELEMENT_RANG, s, v))"

fun kn_save :: "('s \<Rightarrow> u16 \<Rightarrow> u8 \<Rightarrow> 's option) \<Rightarrow> u16 \<Rightarrow> 's \<Rightarrow> u16 \<Rightarrow> u8 \<Rightarrow> u16 \<Rightarrow> nat \<Rightarrow> 'w::len word list \<Rightarrow> (plc_ret \<times> 's \<times> 'w word list) option" where
  "kn_save put rang s start kn off 0 vs = Some (pdPASS, s, vs)"
| "kn_save put rang s start kn off (Suc n) vs =
     (case vs of [] \<Rightarrow> None
      | v # vs' \<Rightarrow>
        do { (r, s', v') \<leftarrow> kn_save_bits put rang s (kn_base start off kn) (4 * unat kn) v;
             if r \<noteq> pdPASS then Some (r, s', v' # vs')
             else do { (r', s'', ws) \<leftarrow> kn_save put rang s' start kn (off + 1) n vs'; Some (r', s'', v' # ws) } })"

text \<open>Unfolding on a literal count, for evaluation.\<close>

lemmas run_numeral =
  get_run.simps(2) [where n = "pred_numeral k" for k, folded numeral_eq_Suc]
  save_run.simps(2) [where n = "pred_numeral k" for k, folded numeral_eq_Suc]
  kn_get_bits.simps(2) [where t = "pred_numeral k" for k, folded numeral_eq_Suc]
  kn_get.simps(2) [where n = "pred_numeral k" for k, folded numeral_eq_Suc]
  kn_save_bits.simps(2) [where m = "pred_numeral k" for k, folded numeral_eq_Suc]
  kn_save.simps(2) [where n = "pred_numeral k" for k, folded numeral_eq_Suc]

section \<open>Contracts of the loops over consecutive elements\<close>

text \<open>How many of \<open>n\<close> elements from \<open>i\<close> lie below the bound, and the loop's return code.\<close>

definition in_range :: "u16 \<Rightarrow> u16 \<Rightarrow> nat \<Rightarrow> nat" where
  "in_range rang i n = min n (unat rang - unat i)"

definition run_ret :: "u16 \<Rightarrow> u16 \<Rightarrow> nat \<Rightarrow> plc_ret" where
  "run_ret rang i n = (if in_range rang i n = n then pdPASS else ERR_OVER_ELEMENT_RANG)"

lemma unat_Suc_in: "(i :: u16) < rang \<Longrightarrow> unat (i + 1) = unat i + 1"
  using unat_add_of_nat [of i 1] unat_lt_16 [of rang] by (simp add: word_less_nat_alt)

lemma in_range_0 [simp]: "in_range rang i 0 = 0"
  by (simp add: in_range_def)

lemma in_range_Suc: "in_range rang i (Suc n) = (if i < rang then Suc (in_range rang (i + 1) n) else 0)"
  by (auto simp: in_range_def word_less_nat_alt unat_Suc_in)

lemma run_ret_0 [simp]: "run_ret rang i 0 = pdPASS"
  by (simp add: run_ret_def)

lemma run_ret_Suc: "run_ret rang i (Suc n) = (if i < rang then run_ret rang (i + 1) n else ERR_OVER_ELEMENT_RANG)"
  by (simp add: run_ret_def in_range_Suc)

lemma run_ret_pass: "run_ret rang i n = pdPASS \<longleftrightarrow> n = 0 \<or> unat i + n \<le> unat rang"
  by (auto simp: run_ret_def in_range_def min_def)

lemma in_range_le: "0 < in_range rang i n \<Longrightarrow> unat i + in_range rang i n \<le> unat rang"
  by (auto simp: in_range_def)

lemma in_range_le_n: "n \<le> l \<Longrightarrow> in_range rang i n \<le> l"
  by (simp add: in_range_def)

lemma in_range_lt: "k < in_range rang i n \<Longrightarrow> unat i + k < 65536"
  using in_range_le [of rang i n] unat_lt_16 [of rang] by linarith

lemma in_range_inj: "k < in_range rang i n \<Longrightarrow> k' < in_range rang i n \<Longrightarrow> i + of_nat k = i + of_nat k' \<longleftrightarrow> k = k'"
  using add_of_nat_inj in_range_lt by metis

lemma in_range_ne: "(i :: u16) < rang \<Longrightarrow> k < in_range rang (i + 1) n \<Longrightarrow> i \<noteq> i + 1 + of_nat k"
  using in_range_inj [of 0 rang i "Suc n" "Suc k"] by (simp add: in_range_Suc ac_simps)

text \<open>A relation that every single write keeps is kept by the run.\<close>

lemma run_pres:
  assumes "save_run put rang s i n vs = Some (r, s')"
    and step: "\<And>s i v s'. i < rang \<Longrightarrow> put s i v = Some s' \<Longrightarrow> R s s'"
    and refl: "\<And>s. R s s" and trans: "\<And>a b c. R a b \<Longrightarrow> R b c \<Longrightarrow> R a c"
  shows "R s s'"
  using assms(1)
proof (induction n arbitrary: s i vs)
  case (Suc n)
  then show ?case
    using step trans refl by (fastforce simp: opt_simps split: if_splits list.splits)
qed (simp add: refl)

text \<open>\<open>run_index\<close> tells whether \<open>j\<close> is one of the \<open>m\<close> indices from \<open>i\<close>.\<close>

definition run_index :: "u16 \<Rightarrow> nat \<Rightarrow> u16 \<Rightarrow> bool" where
  "run_index i m j \<longleftrightarrow> (\<exists>k < m. j = i + of_nat k)"

lemma run_index_0 [simp]: "\<not> run_index i 0 j"
  by (simp add: run_index_def)

lemma run_index_Suc: "run_index i (Suc m) j \<longleftrightarrow> j = i \<or> run_index (i + 1) m j"
  by (auto simp: run_index_def less_Suc_eq_0_disj algebra_simps)

context bank
begin

lemma get_run_spec:
  "inv s \<Longrightarrow> rang \<le> rng s \<Longrightarrow>
   get_run get rang s i n = Some (run_ret rang i n, map (\<lambda>k. the (get s (i + of_nat k))) [0..<in_range rang i n])"
proof (induction n arbitrary: i)
  case (Suc n)
  show ?case
  proof (cases "i < rang")
    case True
    then obtain v where "get s i = Some v"
      using get_ok [OF Suc.prems(1), of i] Suc.prems(2) by fastforce
    then show ?thesis
      using Suc True
      by (simp add: run_ret_Suc in_range_Suc upt_conv_Cons map_Suc_upt [symmetric] del: upt_Suc)
        (simp add: ac_simps)
  qed (simp add: run_ret_Suc in_range_Suc)
qed simp

lemma save_run_spec:
  "inv s \<Longrightarrow> rang \<le> rng s \<Longrightarrow> in_range rang i n \<le> length vs \<Longrightarrow>
   \<exists>s'. save_run put rang s i n vs = Some (run_ret rang i n, s') \<and> inv s' \<and> rng s' = rng s \<and>
     (\<forall>k < in_range rang i n. get s' (i + of_nat k) = Some (norm (vs ! k))) \<and>
     (\<forall>j. \<not> run_index i (in_range rang i n) j \<longrightarrow> get s' j = get s j)"
proof (induction n arbitrary: s i vs)
  case (Suc n)
  show ?case
  proof (cases "i < rang")
    case True
    then obtain v vs' where vs: "vs = v # vs'"
      using Suc.prems(3) by (cases vs) (auto simp: in_range_Suc)
    obtain s1 where s1: "put s i v = Some s1"
      using put_ok [OF Suc.prems(1), of i v] True Suc.prems(2) by fastforce
    have "inv s1" "rng s1 = rng s"
      using put_inv [OF Suc.prems(1) s1] put_rng [OF s1] by auto
    then obtain s' where s': "save_run put rang s1 (i + 1) n vs' = Some (run_ret rang (i + 1) n, s')"
      "inv s'" "rng s' = rng s"
      "\<And>k. k < in_range rang (i + 1) n \<Longrightarrow> get s' (i + 1 + of_nat k) = Some (norm (vs' ! k))"
      "\<And>j. \<not> run_index (i + 1) (in_range rang (i + 1) n) j \<Longrightarrow> get s' j = get s1 j"
      using Suc.IH [of s1 "i + 1" vs'] Suc.prems True by (auto simp: vs in_range_Suc)
    have "\<not> run_index (i + 1) (in_range rang (i + 1) n) i"
      using in_range_ne [OF True] by (auto simp: run_index_def)
    then have i: "get s' i = Some (norm v)"
      by (simp add: s'(5) get_put_same [OF s1])
    have "get s' (i + of_nat k) = Some (norm (vs ! k))" if "k < in_range rang i (Suc n)" for k
      using that s'(4) [of "k - 1"] i True by (cases k) (auto simp: vs in_range_Suc algebra_simps)
    moreover have "get s' j = get s j" if "\<not> run_index i (in_range rang i (Suc n)) j" for j
      using that True s'(5) [of j] get_put_other [OF s1, of j]
      by (auto simp: in_range_Suc run_index_Suc)
    ultimately show ?thesis
      using True s1 s'(1-3) by (simp add: vs run_ret_Suc)
  qed (use Suc.prems in \<open>simp add: run_ret_Suc in_range_Suc\<close>)
qed simp

text \<open>Reading back what was written gives the normalised values.\<close>

lemma save_get_run:
  assumes "inv s" and "rang \<le> rng s" and "n \<le> length vs" and "save_run put rang s i n vs = Some (pdPASS, s')"
  shows "get_run get rang s' i n = Some (pdPASS, map norm (take n vs))"
proof -
  obtain t where t: "save_run put rang s i n vs = Some (run_ret rang i n, t)" "inv t" "rng t = rng s"
    "\<forall>k < in_range rang i n. get t (i + of_nat k) = Some (norm (vs ! k))"
    using save_run_spec [of s rang i n vs] assms by (auto simp: in_range_def)
  then have "in_range rang i n = n" "t = s'" "run_ret rang i n = pdPASS"
    using assms(4) by (auto simp: run_ret_def split: if_splits)
  then show ?thesis
    using get_run_spec [of s' rang i n] t assms(2,3) by (auto intro!: nth_equalityI)
qed

text \<open>The loops have a result whenever the invariant holds and the buffer is long enough.\<close>

lemma get_run_total: "inv s \<Longrightarrow> rang \<le> rng s \<Longrightarrow> \<exists>r vs. get_run get rang s i n = Some (r, vs)"
  by (simp add: get_run_spec)

lemma save_run_total: "inv s \<Longrightarrow> rang \<le> rng s \<Longrightarrow> n \<le> length vs \<Longrightarrow>
   \<exists>r s'. save_run put rang s i n vs = Some (r, s') \<and> inv s'"
  using save_run_spec [OF _ _ in_range_le_n, of s rang n vs i] by blast

end

section \<open>Contracts of the bit-group loops\<close>

text \<open>The bits of a value, lowest first, and the value of a group of bits.\<close>

definition bits_of :: "'w::len word \<Rightarrow> nat \<Rightarrow> u8 list" where
  "bits_of v m = map (\<lambda>k. ucast (drop_bit k v AND 1)) [0..<m]"

definition pack :: "u8 list \<Rightarrow> 'w::len word \<Rightarrow> 'w word" where
  "pack bs v = foldr (\<lambda>b v. shl_in v b) bs v"

lemma length_bits_of [simp]: "length (bits_of v m) = m"
  by (simp add: bits_of_def)

lemma bits_of_Suc: "bits_of v (Suc m) = ucast (v AND 1) # bits_of (drop_bit 1 v) m"
  by (simp add: bits_of_def upt_conv_Cons map_Suc_upt [symmetric] del: upt_Suc drop_bit_Suc)

lemma nth_bits_of: "k < m \<Longrightarrow> bits_of v m ! k = of_bool (bit v k)"
  by (simp add: bits_of_def drop_bit_and_1)

lemma bit_pack:
  fixes v :: "'w::len word"
  shows "\<forall>b \<in> set bs. b = 0 \<or> b = 1 \<Longrightarrow> n < LENGTH('w) \<Longrightarrow>
    bit (pack bs v) n \<longleftrightarrow> (if n < length bs then bs ! n = 1 else bit v (n - length bs))"
  by (induction bs arbitrary: n) (auto simp: pack_def bit_shl_in nth_Cons' split: if_splits)

lemma bits_of_bits: "\<forall>b \<in> set (bits_of v m). b = 0 \<or> b = 1"
  by (auto simp: bits_of_def drop_bit_and_1)

lemma pack_bits_of: "pack (bits_of v m) 0 = take_bit m v"
  by (rule bit_word_eqI) (simp add: bit_pack bits_of_bits nth_bits_of bit_take_bit_iff)

text \<open>Writing one group is writing its bits to consecutive elements, for every range check.\<close>

lemma kn_save_bits_run:
  "kn_save_bits put rang s i m v =
     map_option (\<lambda>(r, s'). (r, s', drop_bit (in_range rang i m) v)) (save_run put rang s i m (bits_of v m))"
  by (induction m arbitrary: s i v) (auto simp: bits_of_Suc in_range_Suc bind_map_option split: Option.bind_splits)

text \<open>A run is the run of its first part, then that of the rest unless the first part failed.\<close>

lemma save_run_append:
  "length xs = m \<Longrightarrow> save_run put rang s i (m + n) (xs @ ys) =
     do { (r, s') \<leftarrow> save_run put rang s i m xs;
          if r \<noteq> pdPASS then Some (r, s') else save_run put rang s' (i + of_nat m) n ys }"
proof (induction m arbitrary: xs s i)
  case (Suc m)
  then show ?case
    by (cases xs) (auto simp: algebra_simps split: Option.bind_splits)
qed simp

lemma get_run_append:
  "get_run get rang s i (m + n) =
     do { (r, xs) \<leftarrow> get_run get rang s i m;
          if r \<noteq> pdPASS then Some (r, xs)
          else do { (r', ys) \<leftarrow> get_run get rang s (i + of_nat m) n; Some (r', xs @ ys) } }"
  by (induction m arbitrary: i) (auto simp: algebra_simps split: Option.bind_splits)

lemma get_run_cong: "(\<And>i. i < rang \<Longrightarrow> get s' i = get s i) \<Longrightarrow> get_run get rang s' i n = get_run get rang s i n"
  by (induction n arbitrary: i) auto

lemma get_run_length: "get_run get rang s i n = Some (pdPASS, vs) \<Longrightarrow> length vs = n"
  by (induction n arbitrary: i vs) (auto split: if_splits Option.bind_splits)

lemma kn_base_step: "kn_base start (off + 1) kn = kn_base start off kn + 4 * ucast kn"
  by (simp add: kn_base_def algebra_simps)

text \<open>Writing \<open>n\<close> groups is writing all their bits to consecutive elements.\<close>

lemma kn_save_run:
  "n \<le> length vs \<Longrightarrow>
   map_option (\<lambda>(r, s', _). (r, s')) (kn_save put rang s start kn off n vs) =
   save_run put rang s (kn_base start off kn) (n * (4 * unat kn))
     (concat (map (\<lambda>v. bits_of v (4 * unat kn)) (take n vs)))"
proof (induction n arbitrary: s off vs)
  case (Suc n)
  then obtain v vs' where vs: "vs = v # vs'" "n \<le> length vs'"
    by (cases vs) auto
  show ?case
  proof (cases "save_run put rang s (kn_base start off kn) (4 * unat kn) (bits_of v (4 * unat kn))")
    case (Some p)
    then show ?thesis
      using Suc.IH [OF vs(2), of "snd p" "off + 1"]
      by (cases p) (auto simp: vs save_run_append kn_save_bits_run kn_base_step split: Option.bind_splits)
  qed (simp add: vs save_run_append kn_save_bits_run)
qed simp

section \<open>Banks of bit elements\<close>

text \<open>A bank of bit elements: a write keeps only whether the value is zero, a read gives 0 or 1.\<close>

locale bit_bank = bank get put bit_norm rng inv
  for get :: "'s \<Rightarrow> u16 \<Rightarrow> u8 option" and put rng inv +
  assumes get_bit: "get s i = Some v \<Longrightarrow> v = 0 \<or> v = 1"
begin

text \<open>A group in range is read as the value of its bits, another one is a range error.\<close>

lemma kn_get_bits_pass:
  assumes "inv s" and "rang \<le> rng s"
  shows "unat base + t \<le> unat rang \<Longrightarrow>
    kn_get_bits get rang s base t v =
      Some (pdPASS, pack (map (\<lambda>k. the (get s (base + of_nat k))) [0..<t]) v)"
proof (induction t arbitrary: v)
  case (Suc t)
  have i: "of_nat (Suc t) + base - 1 = base + of_nat t"
    by simp
  have lt: "base + of_nat t < rang"
    using unat_add_of_nat [of base t] Suc.prems(1) unat_lt_16 [of rang] by (simp add: word_less_nat_alt)
  obtain b where b: "get s (base + of_nat t) = Some b"
    using get_ok [OF assms(1), of "base + of_nat t"] lt assms(2) by fastforce
  show ?case
    using Suc lt b by (simp add: Let_def i pack_def del: of_nat_Suc)
qed (simp add: pack_def)

lemma kn_get_bits_err:
  assumes "inv s" and "rang \<le> rng s"
  shows "unat rang < unat base + t \<Longrightarrow> 0 < t \<Longrightarrow>
    \<exists>w. kn_get_bits get rang s base t v = Some (ERR_OVER_ELEMENT_RANG, w)"
proof (induction t arbitrary: v)
  case (Suc t)
  have i: "of_nat (Suc t) + base - 1 = base + of_nat t"
    by simp
  show ?case
  proof (cases "base + of_nat t < rang")
    case True
    then obtain b where b: "get s (base + of_nat t) = Some b"
      using get_ok [OF assms(1), of "base + of_nat t"] assms(2) by fastforce
    have "unat base + t \<noteq> unat (base + of_nat t)"
      using True Suc.prems by (simp add: word_less_nat_alt)
    then have "65536 \<le> unat base + t"
      using unat_add_of_nat [of base t] by linarith
    then have "unat rang < unat base + t" "0 < t"
      using unat_lt_16 [of rang] unat_lt_16 [of base] by linarith+
    then show ?thesis
      using Suc.IH True b by (simp add: Let_def i del: of_nat_Suc)
  qed (simp add: Let_def i del: of_nat_Suc)
qed simp

text \<open>Groups within the range are read as values of their bits.\<close>

lemma kn_get_pass:
  fixes vs :: "'w::len word list"
  assumes "inv s" and "rang \<le> rng s"
  shows "get_run get rang s (kn_base start off kn) (n * (4 * unat kn)) =
      Some (pdPASS, concat (map (\<lambda>v. bits_of v (4 * unat kn)) vs)) \<Longrightarrow> length vs = n \<Longrightarrow>
    kn_get get rang s start kn off n = Some (pdPASS, map (take_bit (4 * unat kn)) vs)"
proof (induction n arbitrary: off vs)
  case (Suc n)
  let ?b = "kn_base start off kn" and ?m = "4 * unat kn"
  obtain v vs' where vs: "vs = v # vs'" "length vs' = n"
    using Suc.prems(2) by (cases vs) auto
  then obtain b bs where run: "get_run get rang s ?b ?m = Some (pdPASS, b)"
      "get_run get rang s (kn_base start (off + 1) kn) (n * ?m) = Some (pdPASS, bs)"
    and eq: "b @ bs = bits_of v ?m @ concat (map (\<lambda>v. bits_of v ?m) vs')"
    using Suc.prems(1) by (auto simp: get_run_append kn_base_step opt_simps split: if_splits)
  then have bits: "get_run get rang s ?b ?m = Some (pdPASS, bits_of v ?m)"
    and rest: "get_run get rang s (kn_base start (off + 1) kn) (n * ?m) =
      Some (pdPASS, concat (map (\<lambda>v. bits_of v ?m) vs'))"
    using get_run_length [OF run(1)] by (simp_all add: append_eq_append_conv)
  have "kn_get_bits get rang s ?b ?m 0 = Some (pdPASS, take_bit ?m v)"
  proof (cases "?m = 0")
    case False
    then have "unat ?b + ?m \<le> unat rang"
      using bits run_ret_pass [of rang ?b ?m] by (simp add: get_run_spec [OF assms])
    moreover have "in_range rang ?b ?m = ?m"
      using bits by (simp add: get_run_spec [OF assms] run_ret_def split: if_splits)
    ultimately show ?thesis
      using bits by (simp add: kn_get_bits_pass [OF assms] get_run_spec [OF assms] pack_bits_of)
  qed simp
  then show ?case
    using Suc.IH [OF rest vs(2)] by (simp add: vs)
qed simp

lemma kn_save_get:
  assumes inv: "inv s" and rang: "rang \<le> rng s" and len: "n \<le> length vs"
    and save: "kn_save put rang s start kn off n vs = Some (pdPASS, s', ws)"
  shows "kn_get get rang s' start kn off n = Some (pdPASS, map (take_bit (4 * unat kn)) (take n vs))"
proof -
  let ?bs = "concat (map (\<lambda>v. bits_of v (4 * unat kn)) (take n vs))"
  have lens: "length ?bs = n * (4 * unat kn)"
    using len by (simp add: length_concat comp_def sum_list_triv)
  have norm: "map bit_norm ?bs = ?bs"
    using bits_of_bits by (intro map_idI) (fastforce simp: bit_norm_def)
  have run: "save_run put rang s (kn_base start off kn) (n * (4 * unat kn)) ?bs = Some (pdPASS, s')"
    using kn_save_run [OF len, of put rang s start kn off] save by simp
  have "get_run get rang s' (kn_base start off kn) (n * (4 * unat kn)) = Some (pdPASS, ?bs)"
    using save_get_run [OF inv rang _ run] by (simp add: lens norm)
  moreover have "inv s'" "rang \<le> rng s'"
    using save_run_spec [OF inv rang, of "kn_base start off kn" "n * (4 * unat kn)" ?bs] run rang
    by (auto simp: lens in_range_def)
  ultimately show ?thesis
    using kn_get_pass [of s' rang start off kn n "take n vs"] len by simp
qed

lemma kn_get_total:
  assumes "inv s" and "rang \<le> rng s"
  shows "\<exists>r vs. kn_get get rang s start kn off n = Some (r, vs :: 'w::len word list)"
proof (induction n arbitrary: off)
  case (Suc n)
  have "\<exists>r v. kn_get_bits get rang s (kn_base start off kn) (4 * unat kn) (0 :: 'w word) = Some (r, v)"
    using kn_get_bits_pass [OF assms, of "kn_base start off kn" "4 * unat kn"]
      kn_get_bits_err [OF assms, of "kn_base start off kn" "4 * unat kn"]
    by (cases "unat kn = 0"; cases "unat (kn_base start off kn) + 4 * unat kn \<le> unat rang") fastforce+
  then show ?case
    using Suc [of "off + 1"] by auto
qed simp

lemma kn_save_total:
  assumes "inv s" and "rang \<le> rng s" and "n \<le> length vs"
  shows "\<exists>r s' ws. kn_save put rang s start kn off n vs = Some (r, s', ws) \<and> inv s'"
proof -
  have "\<exists>r s'. save_run put rang s (kn_base start off kn) (n * (4 * unat kn))
      (concat (map (\<lambda>v. bits_of v (4 * unat kn)) (take n vs))) = Some (r, s') \<and> inv s'"
    using assms by (intro save_run_total) (simp_all add: length_concat comp_def sum_list_triv)
  then show ?thesis
    using kn_save_run [OF assms(3), of put rang s start kn off] by auto
qed

end

interpretation bits: bit_bank "get_bit_elem a" "set_bit_elem a" "bit_elem_rang a" wf_state
  for a
  by unfold_locales (auto simp: get_bit_elem_def get_bit_alt split: if_splits)

interpretation lm: bit_bank "get_lm_elem layer" "set_lm_elem layer" lm_elem_rang "\<lambda>s. wf_state s \<and> layer < 8"
  for layer
  by unfold_locales (auto simp: get_lm_elem_def get_lm_alt Let_def split: if_splits)

end
