(* ===== verification/PLC_ParseAddr.thy ===== *)
theory PLC_ParseAddr
  imports PLC_Access
begin

text \<open>
  Operand access of \<open>source/plc/executer/src/plc_parseaddr.c\<close> for bit operands: the operand types
  of \<open>plc_parseaddr.h\<close>, the address computation (direct, indexed by a Z element) and the
  functions \<open>get_char\<close>, \<open>save_char\<close>, \<open>get_char_in_simpleIns\<close>, \<open>save_char_in_simpleIns\<close>.  The
  \<open>switch\<close> over the operand type is a table from types to the bank the case accesses and the
  bound of its range check; the loop each case runs is the one of \<open>PLC_Access\<close>.
\<close>

section \<open>Operand types\<close>

datatype addr_type =
    ADDR_CONST | ADDR_X | ADDR_Y | ADDR_bC | ADDR_bT | ADDR_SM | ADDR_M | ADDR_S | ADDR_LM | ADDR_DX_Y
  | ADDR_D | ADDR_Z | ADDR_SD | ADDR_C | ADDR_T | ADDR_V | ADDR_R
  | ADDR_KnX | ADDR_KnY | ADDR_KnM | ADDR_KnS | ADDR_KnLM | ADDR_KnSM
  | ADDR_RZ | ADDR_DZ | ADDR_CZ | ADDR_TZ | ADDR_VZ
  | ADDR_XZ | ADDR_YZ | ADDR_MZ | ADDR_SZ | ADDR_LMZ | ADDR_bTZ | ADDR_bCZ
  | ADDR_KnXZ | ADDR_KnYZ | ADDR_KnMZ | ADDR_KnSZ | ADDR_KnLMZ
  | ADDR_STR

primrec addr_code :: "addr_type \<Rightarrow> u8" where
  "addr_code ADDR_CONST = 0xFF"
| "addr_code ADDR_X = 0x00"
| "addr_code ADDR_Y = 0x01"
| "addr_code ADDR_bC = 0x02"
| "addr_code ADDR_bT = 0x03"
| "addr_code ADDR_SM = 0x04"
| "addr_code ADDR_M = 0x05"
| "addr_code ADDR_S = 0x06"
| "addr_code ADDR_LM = 0x07"
| "addr_code ADDR_DX_Y = 0x09"
| "addr_code ADDR_D = 0x11"
| "addr_code ADDR_Z = 0x12"
| "addr_code ADDR_SD = 0x13"
| "addr_code ADDR_C = 0x14"
| "addr_code ADDR_T = 0x15"
| "addr_code ADDR_V = 0x16"
| "addr_code ADDR_R = 0x1A"
| "addr_code ADDR_KnX = 0x0C"
| "addr_code ADDR_KnY = 0x0D"
| "addr_code ADDR_KnM = 0x0E"
| "addr_code ADDR_KnS = 0x0F"
| "addr_code ADDR_KnLM = 0x10"
| "addr_code ADDR_KnSM = 0x17"
| "addr_code ADDR_RZ = 0x31"
| "addr_code ADDR_DZ = 0x32"
| "addr_code ADDR_CZ = 0x33"
| "addr_code ADDR_TZ = 0x34"
| "addr_code ADDR_VZ = 0x3C"
| "addr_code ADDR_XZ = 0x35"
| "addr_code ADDR_YZ = 0x36"
| "addr_code ADDR_MZ = 0x37"
| "addr_code ADDR_SZ = 0x38"
| "addr_code ADDR_LMZ = 0x39"
| "addr_code ADDR_bTZ = 0x3A"
| "addr_code ADDR_bCZ = 0x3B"
| "addr_code ADDR_KnXZ = 0x46"
| "addr_code ADDR_KnYZ = 0x50"
| "addr_code ADDR_KnMZ = 0x5A"
| "addr_code ADDR_KnSZ = 0x64"
| "addr_code ADDR_KnLMZ = 0x6E"
| "addr_code ADDR_STR = 0x82"

definition addr_types :: "addr_type list" where
  "addr_types = [ADDR_CONST, ADDR_X, ADDR_Y, ADDR_bC, ADDR_bT, ADDR_SM, ADDR_M, ADDR_S, ADDR_LM, ADDR_DX_Y,
     ADDR_D, ADDR_Z, ADDR_SD, ADDR_C, ADDR_T, ADDR_V, ADDR_R,
     ADDR_KnX, ADDR_KnY, ADDR_KnM, ADDR_KnS, ADDR_KnLM, ADDR_KnSM,
     ADDR_RZ, ADDR_DZ, ADDR_CZ, ADDR_TZ, ADDR_VZ,
     ADDR_XZ, ADDR_YZ, ADDR_MZ, ADDR_SZ, ADDR_LMZ, ADDR_bTZ, ADDR_bCZ,
     ADDR_KnXZ, ADDR_KnYZ, ADDR_KnMZ, ADDR_KnSZ, ADDR_KnLMZ, ADDR_STR]"

text \<open>The type a \<open>switch\<close> label stands for; \<open>None\<close> takes the \<open>default\<close> branch everywhere.\<close>

definition addr_of :: "u8 \<Rightarrow> addr_type option" where
  "addr_of t = find (\<lambda>a. addr_code a = t) addr_types"

section \<open>Selection of a bank of bit elements\<close>

datatype bit_sel = Bits bit_area | LMs u8

primrec get_bsel :: "bit_sel \<Rightarrow> plc_state \<Rightarrow> u16 \<Rightarrow> u8 option" where
  "get_bsel (Bits a) = get_bit_elem a"
| "get_bsel (LMs layer) = get_lm_elem layer"

primrec put_bsel :: "bit_sel \<Rightarrow> plc_state \<Rightarrow> u16 \<Rightarrow> u8 \<Rightarrow> plc_state option" where
  "put_bsel (Bits a) = set_bit_elem a"
| "put_bsel (LMs layer) = set_lm_elem layer"

primrec rang_bsel :: "bit_sel \<Rightarrow> plc_state \<Rightarrow> u16" where
  "rang_bsel (Bits a) = bit_elem_rang a"
| "rang_bsel (LMs layer) = lm_elem_rang"

primrec inv_bsel :: "bit_sel \<Rightarrow> plc_state \<Rightarrow> bool" where
  "inv_bsel (Bits a) = wf_state"
| "inv_bsel (LMs layer) = (\<lambda>s. wf_state s \<and> layer < 8)"

section \<open>Element numbers\<close>

text \<open>\<open>GET_PU16_DATA(addr+2) + lsv_Offset\<close>\<close>

definition direct_index :: "plc_state \<Rightarrow> nat \<Rightarrow> u16 \<Rightarrow> u16 option" where
  "direct_index s addr off = do { w \<leftarrow> GET_PU16_DATA (ucode s) (addr + 2); Some (w + off) }"

text \<open>\<open>GET_Z_ELEMENT_VALUE(*addr) + GET_PU16_DATA(addr+2) + lsv_Offset\<close>, the Z number not
  checked.\<close>

definition z_index :: "plc_state \<Rightarrow> nat \<Rightarrow> u16 \<Rightarrow> u16 option" where
  "z_index s addr off =
     do { k \<leftarrow> GET_PU8_DATA (ucode s) addr;
          z \<leftarrow> get_word_elem Z_AREA s (ucast k);
          w \<leftarrow> GET_PU16_DATA (ucode s) (addr + 2);
          Some (z + w + off) }"

text \<open>
  The operand at \<open>addr\<close>: its bank and the number of its first element, by the tables of the
  directly addressed and of the indexed operand types, or \<open>None\<close> for a type in neither.
\<close>

definition resolve :: "(addr_type \<Rightarrow> 'b option) \<Rightarrow> (addr_type \<Rightarrow> 'b option) \<Rightarrow> plc_state \<Rightarrow> nat \<Rightarrow> u16 \<Rightarrow>
    ('b \<times> u16) option option" where
  "resolve direct indexed s addr off =
     do { t \<leftarrow> GET_PU8_DATA (ucode s) (addr + 1);
          case Option.bind (addr_of t) direct of
            Some b \<Rightarrow> do { i \<leftarrow> direct_index s addr off; Some (Some (b, i)) }
          | None \<Rightarrow>
            (case Option.bind (addr_of t) indexed of
               Some b \<Rightarrow> do { i \<leftarrow> z_index s addr off; Some (Some (b, i)) }
             | None \<Rightarrow> Some None) }"

section \<open>Bit operands\<close>

definition get_char_direct :: "plc_state \<Rightarrow> addr_type \<Rightarrow> bit_sel option" where
  "get_char_direct s a = (case a of
       ADDR_X \<Rightarrow> Some (Bits X_ELEMENT)
     | ADDR_Y \<Rightarrow> Some (Bits Y_ELEMENT)
     | ADDR_bC \<Rightarrow> Some (Bits C_ELEMENT)
     | ADDR_bT \<Rightarrow> Some (Bits T_ELEMENT)
     | ADDR_SM \<Rightarrow> Some (Bits SM_ELEMENT)
     | ADDR_M \<Rightarrow> Some (Bits M_ELEMENT)
     | ADDR_S \<Rightarrow> Some (Bits S_ELEMENT)
     | ADDR_LM \<Rightarrow> Some (LMs (ucast (nested s + 1)))
     | _ \<Rightarrow> None)"

definition get_char_indexed :: "plc_state \<Rightarrow> addr_type \<Rightarrow> bit_sel option" where
  "get_char_indexed s a = (case a of
       ADDR_XZ \<Rightarrow> Some (Bits X_ELEMENT)
     | ADDR_YZ \<Rightarrow> Some (Bits Y_ELEMENT)
     | ADDR_MZ \<Rightarrow> Some (Bits M_ELEMENT)
     | ADDR_SZ \<Rightarrow> Some (Bits S_ELEMENT)
     | ADDR_LMZ \<Rightarrow> Some (LMs (ucast (nested s + 1)))
     | ADDR_bTZ \<Rightarrow> Some (Bits T_ELEMENT)
     | ADDR_bCZ \<Rightarrow> Some (Bits C_ELEMENT)
     | _ \<Rightarrow> None)"

definition get_char :: "plc_state \<Rightarrow> nat \<Rightarrow> u16 \<Rightarrow> u16 \<Rightarrow> (plc_ret \<times> u8 list) option" where
  "get_char s addr off cnt =
     do { p \<leftarrow> resolve (get_char_direct s) (get_char_indexed s) s addr off;
          case p of
            Some (b, i) \<Rightarrow> get_run (get_bsel b) (rang_bsel b s) s i (unat cnt)
          | None \<Rightarrow> Some (ERR_ELEMENT_TYPE, []) }"

definition get_char_default :: "plc_state \<Rightarrow> nat \<Rightarrow> (plc_ret \<times> u8 list) option" where
  "get_char_default s addr = get_char s addr 0 1"

definition save_char_direct :: "plc_state \<Rightarrow> addr_type \<Rightarrow> bit_sel option" where
  "save_char_direct s a = (case a of
       ADDR_Y \<Rightarrow> Some (Bits Y_ELEMENT)
     | ADDR_C \<Rightarrow> Some (Bits C_ELEMENT)
     | ADDR_T \<Rightarrow> Some (Bits T_ELEMENT)
     | ADDR_SM \<Rightarrow> Some (Bits SM_ELEMENT)
     | ADDR_M \<Rightarrow> Some (Bits M_ELEMENT)
     | ADDR_S \<Rightarrow> Some (Bits S_ELEMENT)
     | ADDR_LM \<Rightarrow> Some (LMs (ucast (nested s + 1)))
     | _ \<Rightarrow> None)"

definition save_char_indexed :: "plc_state \<Rightarrow> addr_type \<Rightarrow> bit_sel option" where
  "save_char_indexed s a = (case a of
       ADDR_YZ \<Rightarrow> Some (Bits Y_ELEMENT)
     | ADDR_MZ \<Rightarrow> Some (Bits M_ELEMENT)
     | ADDR_SZ \<Rightarrow> Some (Bits S_ELEMENT)
     | ADDR_LMZ \<Rightarrow> Some (LMs (ucast (nested s + 1)))
     | ADDR_TZ \<Rightarrow> Some (Bits T_ELEMENT)
     | ADDR_CZ \<Rightarrow> Some (Bits C_ELEMENT)
     | _ \<Rightarrow> None)"

definition save_char :: "plc_state \<Rightarrow> nat \<Rightarrow> u8 list \<Rightarrow> u16 \<Rightarrow> u16 \<Rightarrow> (plc_ret \<times> plc_state) option" where
  "save_char s addr vs off cnt =
     do { p \<leftarrow> resolve (save_char_direct s) (save_char_indexed s) s addr off;
          case p of
            Some (b, i) \<Rightarrow> save_run (put_bsel b) (rang_bsel b s) s i (unat cnt) vs
          | None \<Rightarrow> Some (ERR_ELEMENT_TYPE, s) }"

definition save_char_default :: "plc_state \<Rightarrow> nat \<Rightarrow> u8 list \<Rightarrow> (plc_ret \<times> plc_state) option" where
  "save_char_default s addr vs = save_char s addr vs 0 1"

text \<open>
  The variants for the edge instructions: the type is the first byte of the operand and the
  element number is not checked.  The value is \<open>None\<close> when the code returns an error without
  storing one.
\<close>

definition get_char_in_simpleIns :: "plc_state \<Rightarrow> nat \<Rightarrow> (plc_ret \<times> u8 option) option" where
  "get_char_in_simpleIns s addr =
     do { t \<leftarrow> GET_PU8_DATA (ucode s) addr;
          case Option.bind (addr_of t) (get_char_direct s) of
            Some b \<Rightarrow> do { i \<leftarrow> GET_PU16_DATA (ucode s) (addr + 2);
                          v \<leftarrow> get_bsel b s i;
                          Some (pdPASS, Some v) }
          | None \<Rightarrow> Some (ERR_ELEMENT_TYPE, None) }"

definition save_char_in_simpleIns :: "plc_state \<Rightarrow> nat \<Rightarrow> u8 \<Rightarrow> (plc_ret \<times> plc_state) option" where
  "save_char_in_simpleIns s addr v =
     do { t \<leftarrow> GET_PU8_DATA (ucode s) addr;
          case Option.bind (addr_of t) (get_char_direct s) of
            Some b \<Rightarrow> do { i \<leftarrow> GET_PU16_DATA (ucode s) (addr + 2);
                          s' \<leftarrow> put_bsel b s i v;
                          Some (pdPASS, s') }
          | None \<Rightarrow> Some (ERR_ELEMENT_TYPE, s) }"

section \<open>Lemmas\<close>

lemma addr_of_code [simp]: "addr_of (addr_code a) = Some a"
  by (cases a) (simp_all add: addr_of_def addr_types_def)

lemma addr_of_eq: "addr_of t = Some a \<longleftrightarrow> t = addr_code a"
  by (auto simp: addr_of_def dest!: find_Some_iff [THEN iffD1] intro: addr_of_code [unfolded addr_of_def])

interpretation bb: bit_bank "get_bsel b" "put_bsel b" "rang_bsel b" "inv_bsel b"
  for b
proof (cases b)
  case (Bits a)
  then show "bit_bank (get_bsel b) (put_bsel b) (rang_bsel b) (inv_bsel b)"
    using bits.bit_bank_axioms [of a] by (simp add: fun_eq_iff)
next
  case (LMs layer)
  then show "bit_bank (get_bsel b) (put_bsel b) (rang_bsel b) (inv_bsel b)"
    using lm.bit_bank_axioms [of layer] by simp
qed

text \<open>Two states that differ in the soft elements only, and in the bit elements only.\<close>

definition elements_only :: "plc_state \<Rightarrow> plc_state \<Rightarrow> bool" where
  "elements_only s s' \<longleftrightarrow> s' = s\<lparr>gtv_PlcElement := gtv_PlcElement s'\<rparr>"

definition same_words :: "plc_element_st \<Rightarrow> plc_element_st \<Rightarrow> bool" where
  "same_words e e' \<longleftrightarrow> (\<forall>w. word_base e' w = word_base e w) \<and> msp_VElement e' = msp_VElement e \<and>
     c_32BitValue (mtv_CElement e') = c_32BitValue (mtv_CElement e) \<and>
     c_StatusInfo (mtv_CElement e') = c_StatusInfo (mtv_CElement e) \<and>
     t_DestValue (mtv_TElement e') = t_DestValue (mtv_TElement e) \<and>
     t_StartValue (mtv_TElement e') = t_StartValue (mtv_TElement e) \<and>
     t_StatusInfo (mtv_TElement e') = t_StatusInfo (mtv_TElement e)"

definition bits_only :: "plc_state \<Rightarrow> plc_state \<Rightarrow> bool" where
  "bits_only s s' \<longleftrightarrow> elements_only s s' \<and> same_words (gtv_PlcElement s) (gtv_PlcElement s')"

lemma elements_only_refl [simp]: "elements_only s s"
  by (simp add: elements_only_def)

lemma elements_only_trans: "elements_only a b \<Longrightarrow> elements_only b c \<Longrightarrow> elements_only a c"
  unfolding elements_only_def by (erule ssubst, erule ssubst) simp

lemma elements_only_upd [simp]: "elements_only s (s\<lparr>gtv_PlcElement := e\<rparr>)"
  by (simp add: elements_only_def)

lemma elements_only_eq:
  assumes "elements_only s s'"
  shows "gtp_PlcElementInfo s' = gtp_PlcElementInfo s" "gtp_EuEd s' = gtp_EuEd s"
    "gtp_CallInsInfoPtr s' = gtp_CallInsInfoPtr s" "ucode s' = ucode s" "xTickCount s' = xTickCount s"
    "gtv_PlcRunStatus s' = gtv_PlcRunStatus s" "gtp_ForNextIns s' = gtp_ForNextIns s" "gtp_SfcStatus s' = gtp_SfcStatus s"
    "gtp_SbrListPtr s' = gtp_SbrListPtr s" "gtp_StlListPtr s' = gtp_StlListPtr s"
    "gtv_McMcrBlockInfo s' = gtv_McMcrBlockInfo s"
  by (subst assms [unfolded elements_only_def], simp)+

lemma bits_only_refl [simp]: "bits_only s s"
  by (simp add: bits_only_def same_words_def)

lemma bits_only_trans: "bits_only a b \<Longrightarrow> bits_only b c \<Longrightarrow> bits_only a c"
  by (auto simp: bits_only_def same_words_def intro: elements_only_trans)

lemma same_words_upd_bit: "same_words e (upd_bit_base a b e)"
  by (simp add: same_words_def) (cases a; simp)

lemma put_bsel_bits_only: "put_bsel b s i v = Some s' \<Longrightarrow> bits_only s s'"
  by (cases b) (auto simp: set_bit_elem_def set_lm_elem_def set_lm_alt opt_simps Let_def bits_only_def
      same_words_upd_bit same_words_def [of e "e\<lparr>msp_LMElement := x\<rparr>" for e x] split: if_splits)

lemma bits_only_eq:
  assumes "bits_only s s'"
  shows "gtp_PlcElementInfo s' = gtp_PlcElementInfo s" "gtp_EuEd s' = gtp_EuEd s"
    "gtp_CallInsInfoPtr s' = gtp_CallInsInfoPtr s" "ucode s' = ucode s"
    "get_word_elem w s' = get_word_elem w s"
  using assms elements_only_eq [of s s']
  by (auto simp: bits_only_def same_words_def get_word_elem_def fun_eq_iff)

lemma save_run_bits_only: "save_run (put_bsel b) rang s i n vs = Some (r, s') \<Longrightarrow> bits_only s s'"
  by (erule run_pres) (auto intro: put_bsel_bits_only bits_only_trans)

lemma save_char_bits_only: "save_char s addr vs off cnt = Some (r, s') \<Longrightarrow> bits_only s s'"
  by (auto simp: save_char_def opt_simps split: option.split_asm dest: save_run_bits_only)

lemma resolve_bits_only:
  assumes "bits_only s s'"
  shows "resolve d x s' addr off = resolve d x s addr off"
  unfolding resolve_def direct_index_def z_index_def bits_only_eq [OF assms] by (rule refl)

lemma rang_bits_only: "bits_only s s' \<Longrightarrow> rang_bsel b s' = rang_bsel b s"
  by (cases b) (simp_all add: bits_only_eq)

lemma tables_bits_only:
  assumes "bits_only s s'"
  shows "get_char_direct s' = get_char_direct s" "get_char_indexed s' = get_char_indexed s"
  using bits_only_eq(3) [OF assms] unfolding get_char_direct_def get_char_indexed_def by simp_all


text \<open>
  The operand lies in the program, and its Z number, where its type has one, names a Z element.
\<close>

definition indexed_type :: "addr_type \<Rightarrow> bool" where
  "indexed_type a \<longleftrightarrow> a \<in> {ADDR_RZ, ADDR_DZ, ADDR_CZ, ADDR_TZ, ADDR_VZ, ADDR_XZ, ADDR_YZ, ADDR_MZ, ADDR_SZ,
     ADDR_LMZ, ADDR_bTZ, ADDR_bCZ}"

definition kn_indexed_type :: "addr_type \<Rightarrow> bool" where
  "kn_indexed_type a \<longleftrightarrow> a \<in> {ADDR_KnXZ, ADDR_KnYZ, ADDR_KnMZ, ADDR_KnSZ, ADDR_KnLMZ}"

definition operand_ok :: "plc_state \<Rightarrow> nat \<Rightarrow> bool" where
  "operand_ok s addr \<longleftrightarrow> addr + 4 \<le> length (ucode s) \<and>
     (case addr_of (ucode s ! (addr + 1)) of
        None \<Rightarrow> True
      | Some a \<Rightarrow>
        (indexed_type a \<longrightarrow> ucast (ucode s ! addr) < word_elem_rang Z_AREA s) \<and>
        (kn_indexed_type a \<longrightarrow> ucast (ucode s ! addr AND 0x0F) < word_elem_rang Z_AREA s))"

lemma resolve_total:
  assumes wf: "wf_state s" and ok: "operand_ok s addr"
    and tbl: "\<And>a b. x a = Some b \<Longrightarrow> indexed_type a"
  shows "\<exists>p. resolve d x s addr off = Some p"
proof -
  have d: "\<exists>i. direct_index s addr off = Some i"
    using ok by (simp add: operand_ok_def direct_index_def GET_PU16_DATA_def mem_simps)
  have z: "\<exists>i. z_index s addr off = Some i" if "addr_of (ucode s ! (addr + 1)) = Some a" "x a = Some b" for a b
    using ok tbl [OF that(2)] that words.get_ok [OF wf, of "ucast (ucode s ! addr)" Z_AREA]
    by (auto simp: operand_ok_def z_index_def GET_PU16_DATA_def GET_PU8_DATA_def mem_simps)
  show ?thesis
    using ok d z by (auto simp: resolve_def GET_PU8_DATA_def operand_ok_def mem_simps opt_simps split: option.splits)
qed

lemma resolve_bank:
  "resolve d x s addr off = Some (Some (b, i)) \<Longrightarrow> \<exists>a. d a = Some b \<or> x a = Some b"
  by (auto simp: resolve_def opt_simps split: option.splits) blast+

lemma get_char_indexed_type: "get_char_indexed s a = Some b \<Longrightarrow> indexed_type a"
  by (cases a) (simp_all add: get_char_indexed_def indexed_type_def)

lemma save_char_indexed_type: "save_char_indexed s a = Some b \<Longrightarrow> indexed_type a"
  by (cases a) (simp_all add: save_char_indexed_def indexed_type_def)

lemma get_char_table_inv:
  assumes "get_char_direct s a = Some b \<or> get_char_indexed s a = Some b" and "wf_state s" and "nested s < 7"
  shows "inv_bsel b s"
proof -
  have "ucast (nested s + 1) < (8 :: u8)"
    using assms(3) by (intro layer_ucast layer_Suc)
  then show ?thesis
    using assms by (cases a) (auto simp: get_char_direct_def get_char_indexed_def)
qed


lemma save_char_table_inv:
  assumes "save_char_direct s a = Some b \<or> save_char_indexed s a = Some b" and "wf_state s" and "nested s < 7"
  shows "inv_bsel b s"
proof -
  have "ucast (nested s + 1) < (8 :: u8)"
    using assms(3) by (intro layer_ucast layer_Suc)
  then show ?thesis
    using assms by (cases a) (auto simp: save_char_direct_def save_char_indexed_def)
qed

text \<open>Reading a bit operand never leaves the element arrays or the program: with a well-formed
  store, an operand inside the program whose Z number exists, and a call depth that leaves an LM
  layer, \<open>get_char\<close> has a result for every offset and count.  The result is pdPASS with one value
  per element when the whole range exists; otherwise it is a type error or a range error, and
  after a range error the values before the end of the bank have been delivered.\<close>

theorem get_char_safe:
  assumes "wf_state s" and "nested s < 7" and "operand_ok s addr"
  shows "\<exists>r vs. get_char s addr off cnt = Some (r, vs) \<and> r \<in> {pdPASS, ERR_ELEMENT_TYPE, ERR_OVER_ELEMENT_RANG} \<and>
    (r = pdPASS \<longrightarrow> length vs = unat cnt) \<and> (r \<noteq> pdPASS \<longrightarrow> length vs < unat cnt \<or> vs = [])"
proof -
  obtain p where p: "resolve (get_char_direct s) (get_char_indexed s) s addr off = Some p"
    using resolve_total [OF assms(1,3), of "get_char_indexed s"] get_char_indexed_type by blast
  show ?thesis
  proof (cases p)
    case None
    then show ?thesis
      using p by (simp add: get_char_def)
  next
    case (Some q)
    then obtain b i where bi: "p = Some (b, i)"
      by (cases q) auto
    then have "inv_bsel b s"
      using resolve_bank [OF p [unfolded bi]] get_char_table_inv [OF _ assms(1,2)] by blast
    then show ?thesis
      using p bb.get_run_spec [of b s "rang_bsel b s" i "unat cnt"]
      by (auto simp: bi get_char_def run_ret_def in_range_def)
  qed
qed

theorem get_char_safe_witness:
  "\<exists>r vs. get_char (boot_state [0, 5, 9, 0]) 0 1 3 = Some (r, vs) \<and>
    r \<in> {pdPASS, ERR_ELEMENT_TYPE, ERR_OVER_ELEMENT_RANG} \<and>
    (r = pdPASS \<longrightarrow> length vs = 3) \<and> (r \<noteq> pdPASS \<longrightarrow> length vs < 3 \<or> vs = [])"
  using get_char_safe [of "boot_state [0, 5, 9, 0]" 0 1 3]
  by (simp add: operand_ok_def addr_of_def addr_types_def indexed_type_def kn_indexed_type_def)

text \<open>Writing a bit operand is safe under the same conditions when the buffer holds the values,
  keeps the store well-formed and changes nothing but bit elements.\<close>

theorem save_char_safe:
  assumes "wf_state s" and "nested s < 7" and "operand_ok s addr" and "unat cnt \<le> length vs"
  shows "\<exists>r s'. save_char s addr vs off cnt = Some (r, s') \<and> wf_state s' \<and> bits_only s s' \<and>
    r \<in> {pdPASS, ERR_ELEMENT_TYPE, ERR_OVER_ELEMENT_RANG}"
proof -
  obtain p where p: "resolve (save_char_direct s) (save_char_indexed s) s addr off = Some p"
    using resolve_total [OF assms(1,3), of "save_char_indexed s"] save_char_indexed_type by blast
  show ?thesis
  proof (cases p)
    case None
    then show ?thesis
      using p assms(1) by (simp add: save_char_def)
  next
    case (Some q)
    then obtain b i where bi: "p = Some (b, i)"
      by (cases q) auto
    then have inv: "inv_bsel b s"
      using resolve_bank [OF p [unfolded bi]] save_char_table_inv [OF _ assms(1,2)] by blast
    obtain s' where s': "save_run (put_bsel b) (rang_bsel b s) s i (unat cnt) vs =
        Some (run_ret (rang_bsel b s) i (unat cnt), s')" "inv_bsel b s'"
      using bb.save_run_spec [OF inv _ in_range_le_n [OF assms(4)], of "rang_bsel b s" i] by auto
    then have "wf_state s'"
      by (cases b) auto
    then show ?thesis
      using p s'(1) save_run_bits_only [OF s'(1)] by (auto simp: bi save_char_def run_ret_def)
  qed
qed

theorem save_char_safe_witness:
  "\<exists>r s'. save_char (boot_state [0, 5, 9, 0]) 0 [1, 0] 0 2 = Some (r, s') \<and> wf_state s' \<and>
    bits_only (boot_state [0, 5, 9, 0]) s' \<and> r \<in> {pdPASS, ERR_ELEMENT_TYPE, ERR_OVER_ELEMENT_RANG}"
  using save_char_safe [of "boot_state [0, 5, 9, 0]" 0 2 "[1, 0]" 0]
  by (simp add: operand_ok_def addr_of_def addr_types_def indexed_type_def kn_indexed_type_def)

text \<open>What \<open>save_char\<close> writes, \<open>get_char\<close> on the same operand reads back, reduced to 0 and 1, for
  every operand type that both functions know as the same bank.\<close>

theorem save_get_char:
  assumes "wf_state s" and "nested s < 7" and "operand_ok s addr" and "unat cnt \<le> length vs"
    and "addr_of (ucode s ! (addr + 1)) \<in> Some ` {ADDR_Y, ADDR_SM, ADDR_M, ADDR_S, ADDR_LM, ADDR_YZ, ADDR_MZ, ADDR_SZ, ADDR_LMZ}"
    and "save_char s addr vs off cnt = Some (pdPASS, s')"
  shows "get_char s' addr off cnt = Some (pdPASS, map bit_norm (take (unat cnt) vs))"
proof -
  have bo: "bits_only s s'"
    by (rule save_char_bits_only [OF assms(6)])
  have same: "resolve (save_char_direct s) (save_char_indexed s) s addr off =
      resolve (get_char_direct s) (get_char_indexed s) s addr off"
    using assms(3,5)
    by (auto simp: resolve_def GET_PU8_DATA_def operand_ok_def mem_simps save_char_direct_def
        save_char_indexed_def get_char_direct_def get_char_indexed_def)
  obtain b i where p: "resolve (get_char_direct s) (get_char_indexed s) s addr off = Some (Some (b, i))"
    and run: "save_run (put_bsel b) (rang_bsel b s) s i (unat cnt) vs = Some (pdPASS, s')"
    using assms(6) by (auto simp: save_char_def same opt_simps split: option.split_asm)
  have "inv_bsel b s"
    using resolve_bank [OF p] get_char_table_inv assms(1,2) by blast
  then show ?thesis
    using p bb.save_get_run [OF _ _ assms(4) run]
    by (simp add: get_char_def resolve_bits_only [OF bo] tables_bits_only [OF bo] rang_bits_only [OF bo])
qed

theorem save_get_char_witness:
  "\<exists>s'. save_char (boot_state [0, 5, 9, 0]) 0 [7, 0] 0 2 = Some (pdPASS, s') \<and>
    get_char s' 0 0 2 = Some (pdPASS, [1, 0])"
proof -
  let ?s = "boot_state [0, 5, 9, 0]"
  obtain s' where s': "save_char ?s 0 [7, 0] 0 2 = Some (pdPASS, s')"
    by (simp add: save_char_def resolve_def GET_PU8_DATA_def GET_PU16_DATA_def direct_index_def rd_def
        addr_of_def addr_types_def save_char_direct_def bytes_u16_def run_numeral set_bit_elem_def set_bit_alt)
  then show ?thesis
    using save_get_char [of ?s 0 2 "[7, 0]" 0 s']
    by (simp add: operand_ok_def addr_of_def addr_types_def indexed_type_def kn_indexed_type_def bit_norm_def)
qed

end
