(* ===== verification/PLC_SimpleIns.thy ===== *)
theory PLC_SimpleIns
  imports PLC_ParseAddr
begin

text \<open>
  The interpreter of simple instructions, \<open>source/plc/executer/src/plc_simpleins.c\<close>: contact and
  coil instructions on bit elements, the block and branch operations on the two power-flow words,
  and the edge instructions.  The locals \<open>llv_InPF\<close> and \<open>lcp_UcodePC\<close> are kept in the environment
  record, into which the code stores them at every exit; the local \<open>lsv_charValue\<close>, which is not
  initialised and survives from one instruction to the next, is an optional value.
\<close>

section \<open>Instruction codes\<close>

text \<open>The operand of a contact or coil: an area, or the LM elements of the current call layer, with
  the element number in the first byte, or an area with a 16-bit extension of the number.\<close>

datatype si_arg = Near bit_area | NearLM | Far bit_area

definition si_contacts :: "si_arg list" where
  "si_contacts = [Near X_ELEMENT, Near Y_ELEMENT, Near C_ELEMENT, Near T_ELEMENT, Near SM_ELEMENT, Near M_ELEMENT,
     Near S_ELEMENT, NearLM, Far X_ELEMENT, Far Y_ELEMENT, Far C_ELEMENT, Far T_ELEMENT, Far SM_ELEMENT,
     Far M_ELEMENT, Far S_ELEMENT]"

definition si_contact :: "u8 \<Rightarrow> si_arg option" where
  "si_contact n = rd si_contacts (unat n)"

text \<open>The operand numbers for which \<open>plc_simpleins.c\<close> has an OUT case, a SET or RST case.\<close>

definition si_out_coil :: "u8 \<Rightarrow> si_arg option" where
  "si_out_coil n = (if n \<in> {0x1, 0x4, 0x5, 0x9, 0xC, 0xD} then si_contact n else None)"

definition si_set_coil :: "u8 \<Rightarrow> si_arg option" where
  "si_set_coil n = (if n \<in> {0x1, 0x4, 0x5, 0x7, 0x9, 0xC, 0xD} then si_contact n else None)"

datatype si_op =
    SI_LD si_arg | SI_LDI si_arg | SI_AND si_arg | SI_ANI si_arg | SI_OR si_arg | SI_ORI si_arg
  | SI_OUT si_arg | SI_SET si_arg | SI_RST si_arg
  | SI_INV | SI_ANB | SI_ORB | SI_MPS | SI_MRD | SI_MPP | SI_NOP | SI_EU | SI_ED
  | SI_LDP | SI_LDF | SI_ANDP | SI_ANDF | SI_ORP | SI_ORF | SI_PLP | SI_PLF

definition decode_si :: "u8 \<Rightarrow> si_op option" where
  "decode_si c =
     (let h = drop_bit 4 c; l = c AND 0x0F in
      if h = 0x1 then map_option SI_LD (si_contact l)
      else if h = 0x2 then map_option SI_LDI (si_contact l)
      else if h = 0x3 then map_option SI_AND (si_contact l)
      else if h = 0x4 then map_option SI_ANI (si_contact l)
      else if h = 0x5 then map_option SI_OR (si_contact l)
      else if h = 0x6 then map_option SI_ORI (si_contact l)
      else if h = 0x7 then map_option SI_OUT (si_out_coil l)
      else if h = 0x8 then map_option SI_SET (si_set_coil l)
      else if h = 0x9 then map_option SI_RST (si_set_coil l)
      else if h = 0xA then rd [SI_INV, SI_ANB, SI_ORB, SI_MPS, SI_MRD, SI_MPP, SI_NOP, SI_EU, SI_ED] (unat l)
      else if h = 0xB then rd [SI_LDP, SI_LDF, SI_ANDP, SI_ANDF, SI_ORP, SI_ORF, SI_PLP, SI_PLF] (unat l)
      else None)"

section \<open>Power flow\<close>

definition GET_POWER_FLOW :: "u32 \<Rightarrow> bool" where
  "GET_POWER_FLOW pf \<longleftrightarrow> pf AND 0x01 \<noteq> 0"

definition SET_POWER_FLOW :: "u32 \<Rightarrow> u32" where
  "SET_POWER_FLOW pf = pf OR 0x01"

definition RST_POWER_FLOW :: "u32 \<Rightarrow> u32" where
  "RST_POWER_FLOW pf = pf AND 0xFFFFFFFE"

definition put_flow :: "bool \<Rightarrow> u32 \<Rightarrow> u32" where
  "put_flow b pf = (if b then SET_POWER_FLOW pf else RST_POWER_FLOW pf)"

section \<open>Operands of contacts and coils\<close>

primrec si_bank :: "plc_state \<Rightarrow> si_arg \<Rightarrow> bit_sel" where
  "si_bank s (Near a) = Bits a"
| "si_bank s NearLM = LMs (ucast (nested s))"
| "si_bank s (Far a) = Bits a"

primrec si_len :: "si_arg \<Rightarrow> nat" where
  "si_len (Near a) = 2"
| "si_len NearLM = 2"
| "si_len (Far a) = 4"

definition si_near :: "plc_state \<Rightarrow> nat \<Rightarrow> u16 option" where
  "si_near s pc = do { b \<leftarrow> GET_PU8_DATA (ucode s) pc; Some (ucast b) }"

text \<open>\<open>(GET_PU16_DATA(pc + 2) << 4) + GET_PU8_DATA(pc)\<close>, truncated to 16 bits.\<close>

definition si_far :: "plc_state \<Rightarrow> nat \<Rightarrow> u16 option" where
  "si_far s pc =
     do { w \<leftarrow> GET_PU16_DATA (ucode s) (pc + 2); b \<leftarrow> GET_PU8_DATA (ucode s) pc; Some (push_bit 4 w + ucast b) }"

primrec si_index :: "plc_state \<Rightarrow> nat \<Rightarrow> si_arg \<Rightarrow> u16 option" where
  "si_index s pc (Near a) = si_near s pc"
| "si_index s pc NearLM = si_near s pc"
| "si_index s pc (Far a) = si_far s pc"

definition si_read :: "plc_state \<Rightarrow> nat \<Rightarrow> si_arg \<Rightarrow> u8 option" where
  "si_read s pc x = do { i \<leftarrow> si_index s pc x; get_bsel (si_bank s x) s i }"

definition si_write :: "plc_state \<Rightarrow> nat \<Rightarrow> si_arg \<Rightarrow> u8 \<Rightarrow> plc_state option" where
  "si_write s pc x v = do { i \<leftarrow> si_index s pc x; put_bsel (si_bank s x) s i v }"

section \<open>Contacts\<close>

type_synonym si_env = plc_run_power_flow_st

definition si_next :: "nat \<Rightarrow> u32 \<Rightarrow> si_env \<Rightarrow> si_env" where
  "si_next n pf e = e\<lparr>mlv_InPF := pf, mcp_PC := mcp_PC e + n\<rparr>"

definition si_ld :: "plc_state \<Rightarrow> si_env \<Rightarrow> si_arg \<Rightarrow> si_env option" where
  "si_ld s e x =
     do { v \<leftarrow> si_read s (mcp_PC e) x;
          Some (si_next (si_len x) (put_flow (v \<noteq> 0) (push_bit 1 (mlv_InPF e))) e) }"

definition si_ldi :: "plc_state \<Rightarrow> si_env \<Rightarrow> si_arg \<Rightarrow> si_env option" where
  "si_ldi s e x =
     do { v \<leftarrow> si_read s (mcp_PC e) x;
          Some (si_next (si_len x) (put_flow (v = 0) (push_bit 1 (mlv_InPF e))) e) }"

definition si_and :: "plc_state \<Rightarrow> si_env \<Rightarrow> si_arg \<Rightarrow> si_env option" where
  "si_and s e x =
     (if GET_POWER_FLOW (mlv_InPF e) then
        do { v \<leftarrow> si_read s (mcp_PC e) x;
             Some (si_next (si_len x) (if v = 0 then RST_POWER_FLOW (mlv_InPF e) else mlv_InPF e) e) }
      else Some (si_next (si_len x) (mlv_InPF e) e))"

definition si_ani :: "plc_state \<Rightarrow> si_env \<Rightarrow> si_arg \<Rightarrow> si_env option" where
  "si_ani s e x =
     (if GET_POWER_FLOW (mlv_InPF e) then
        do { v \<leftarrow> si_read s (mcp_PC e) x;
             Some (si_next (si_len x) (if v \<noteq> 0 then RST_POWER_FLOW (mlv_InPF e) else mlv_InPF e) e) }
      else Some (si_next (si_len x) (mlv_InPF e) e))"

definition si_or :: "plc_state \<Rightarrow> si_env \<Rightarrow> si_arg \<Rightarrow> si_env option" where
  "si_or s e x =
     (if \<not> GET_POWER_FLOW (mlv_InPF e) then
        do { v \<leftarrow> si_read s (mcp_PC e) x;
             Some (si_next (si_len x) (if v \<noteq> 0 then SET_POWER_FLOW (mlv_InPF e) else mlv_InPF e) e) }
      else Some (si_next (si_len x) (mlv_InPF e) e))"

definition si_ori :: "plc_state \<Rightarrow> si_env \<Rightarrow> si_arg \<Rightarrow> si_env option" where
  "si_ori s e x =
     (if \<not> GET_POWER_FLOW (mlv_InPF e) then
        do { v \<leftarrow> si_read s (mcp_PC e) x;
             Some (si_next (si_len x) (if v = 0 then SET_POWER_FLOW (mlv_InPF e) else mlv_InPF e) e) }
      else Some (si_next (si_len x) (mlv_InPF e) e))"

section \<open>Coils\<close>

definition si_out :: "plc_state \<Rightarrow> si_env \<Rightarrow> si_arg \<Rightarrow> (plc_state \<times> si_env) option" where
  "si_out s e x =
     do { s' \<leftarrow> si_write s (mcp_PC e) x (if GET_POWER_FLOW (mlv_InPF e) then 1 else 0);
          Some (s', si_next (si_len x) (mlv_InPF e) e) }"

text \<open>SET (\<open>v = 1\<close>) and RST (\<open>v = 0\<close>); the extended variants read the extension word first.\<close>

definition si_set_rst :: "plc_state \<Rightarrow> si_env \<Rightarrow> u8 \<Rightarrow> si_arg \<Rightarrow> (plc_state \<times> si_env) option" where
  "si_set_rst s e v x =
     do { i \<leftarrow> si_index s (mcp_PC e) x;
          s' \<leftarrow> (if GET_POWER_FLOW (mlv_InPF e) then put_bsel (si_bank s x) s i v else Some s);
          Some (s', si_next (si_len x) (mlv_InPF e) e) }"

section \<open>Operations on the power-flow words\<close>

definition si_inv :: "si_env \<Rightarrow> si_env" where
  "si_inv e = si_next 2 (mlv_InPF e XOR 0x01) e"

definition si_anb :: "si_env \<Rightarrow> si_env" where
  "si_anb e =
     (let pf = (if mlv_InPF e AND 0x03 \<noteq> 0x03 then mlv_InPF e AND 0xFFFFFFFC else mlv_InPF e) in
      si_next 2 (drop_bit 1 pf) e)"

definition si_orb :: "si_env \<Rightarrow> si_env" where
  "si_orb e =
     (let pf = (if mlv_InPF e AND 0x03 \<noteq> 0x00 then mlv_InPF e OR 0x02 else mlv_InPF e) in
      si_next 2 (drop_bit 1 pf) e)"

definition si_mps :: "si_env \<Rightarrow> si_env" where
  "si_mps e = si_next 2 (mlv_InPF e) (e\<lparr>mlv_OutPF := push_bit 1 (mlv_OutPF e) OR (mlv_InPF e AND 0x01)\<rparr>)"

definition si_mrd :: "si_env \<Rightarrow> si_env" where
  "si_mrd e = si_next 2 (put_flow (GET_POWER_FLOW (mlv_OutPF e)) (mlv_InPF e)) e"

definition si_mpp :: "si_env \<Rightarrow> si_env" where
  "si_mpp e =
     si_next 2 (put_flow (GET_POWER_FLOW (mlv_OutPF e)) (mlv_InPF e)) (e\<lparr>mlv_OutPF := drop_bit 1 (mlv_OutPF e)\<rparr>)"

section \<open>Edges\<close>

definition GET_EDGE_INIT_FLAG :: "plc_state \<Rightarrow> u16 \<Rightarrow> bool option" where
  "GET_EDGE_INIT_FLAG s n =
     do { d \<leftarrow> rd (gtp_EuEd s) (unat (drop_bit 4 n));
          Some (msv_IsInit d AND push_bit (unat (n AND 0x0F)) 1 \<noteq> 0) }"

definition RST_EDGE_INIT_FLAG :: "plc_state \<Rightarrow> u16 \<Rightarrow> plc_state option" where
  "RST_EDGE_INIT_FLAG s n =
     (let p = unat (drop_bit 4 n) in
      do { d \<leftarrow> rd (gtp_EuEd s) p;
           l \<leftarrow> wr (gtp_EuEd s) p (d\<lparr>msv_IsInit := bit_write (msv_IsInit d) (unat (n AND 0x0F)) 0\<rparr>);
           Some (s\<lparr>gtp_EuEd := l\<rparr>) })"

definition GET_EDGE_VALUE :: "plc_state \<Rightarrow> u16 \<Rightarrow> bool option" where
  "GET_EDGE_VALUE s n =
     do { d \<leftarrow> rd (gtp_EuEd s) (unat (drop_bit 4 n));
          Some (msv_Value d AND push_bit (unat (n AND 0x0F)) 1 \<noteq> 0) }"

text \<open>\<open>SET_EDGE_VALUE\<close> for \<open>True\<close>, \<open>RST_EDGE_VALUE\<close> for \<open>False\<close>.\<close>

definition PUT_EDGE_VALUE :: "plc_state \<Rightarrow> u16 \<Rightarrow> bool \<Rightarrow> plc_state option" where
  "PUT_EDGE_VALUE s n v =
     (let p = unat (drop_bit 4 n) in
      do { d \<leftarrow> rd (gtp_EuEd s) p;
           l \<leftarrow> wr (gtp_EuEd s) p (d\<lparr>msv_Value := bit_write (msv_Value d) (unat (n AND 0x0F)) (if v then 1 else 0)\<rparr>);
           Some (s\<lparr>gtp_EuEd := l\<rparr>) })"

definition run_eu_ins :: "plc_state \<Rightarrow> si_env \<Rightarrow> (plc_state \<times> si_env) option" where
  "run_eu_ins s e =
     do { n \<leftarrow> GET_PU16_DATA (ucode s) (mcp_PC e);
          first \<leftarrow> GET_EDGE_INIT_FLAG s n;
          let on = GET_POWER_FLOW (mlv_InPF e) in
          if first then
            do { s1 \<leftarrow> RST_EDGE_INIT_FLAG s n;
                 s2 \<leftarrow> PUT_EDGE_VALUE s1 n on;
                 Some (s2, e\<lparr>mlv_InPF := RST_POWER_FLOW (mlv_InPF e)\<rparr>) }
          else if on then
            do { v \<leftarrow> GET_EDGE_VALUE s n;
                 s1 \<leftarrow> PUT_EDGE_VALUE s n True;
                 Some (s1, e\<lparr>mlv_InPF := put_flow (\<not> v) (mlv_InPF e)\<rparr>) }
          else
            do { s1 \<leftarrow> PUT_EDGE_VALUE s n False;
                 Some (s1, e\<lparr>mlv_InPF := RST_POWER_FLOW (mlv_InPF e)\<rparr>) } }"

definition run_ed_ins :: "plc_state \<Rightarrow> si_env \<Rightarrow> (plc_state \<times> si_env) option" where
  "run_ed_ins s e =
     do { n \<leftarrow> GET_PU16_DATA (ucode s) (mcp_PC e);
          first \<leftarrow> GET_EDGE_INIT_FLAG s n;
          let on = GET_POWER_FLOW (mlv_InPF e) in
          if first then
            do { s1 \<leftarrow> RST_EDGE_INIT_FLAG s n;
                 s2 \<leftarrow> PUT_EDGE_VALUE s1 n on;
                 Some (s2, e\<lparr>mlv_InPF := RST_POWER_FLOW (mlv_InPF e)\<rparr>) }
          else if on then
            do { s1 \<leftarrow> PUT_EDGE_VALUE s n True;
                 Some (s1, e\<lparr>mlv_InPF := RST_POWER_FLOW (mlv_InPF e)\<rparr>) }
          else
            do { v \<leftarrow> GET_EDGE_VALUE s n;
                 s1 \<leftarrow> PUT_EDGE_VALUE s n False;
                 Some (s1, e\<lparr>mlv_InPF := put_flow v (mlv_InPF e)\<rparr>) } }"

definition run_eu_p_ins :: "plc_state \<Rightarrow> si_env \<Rightarrow> u8 \<Rightarrow> (plc_state \<times> si_env) option" where
  "run_eu_p_ins s e c =
     do { n \<leftarrow> GET_PU16_DATA (ucode s) (mcp_PC e);
          first \<leftarrow> GET_EDGE_INIT_FLAG s n;
          (s1, e1) \<leftarrow>
            (if first then
               do { s1 \<leftarrow> RST_EDGE_INIT_FLAG s n; Some (s1, e\<lparr>mlv_InPF := RST_POWER_FLOW (mlv_InPF e)\<rparr>) }
             else
               do { v \<leftarrow> GET_EDGE_VALUE s n; Some (s, e\<lparr>mlv_InPF := put_flow (\<not> v \<and> c \<noteq> 0) (mlv_InPF e)\<rparr>) });
          s2 \<leftarrow> PUT_EDGE_VALUE s1 n (c \<noteq> 0);
          Some (s2, e1) }"

definition run_ed_f_ins :: "plc_state \<Rightarrow> si_env \<Rightarrow> u8 \<Rightarrow> (plc_state \<times> si_env) option" where
  "run_ed_f_ins s e c =
     do { n \<leftarrow> GET_PU16_DATA (ucode s) (mcp_PC e);
          first \<leftarrow> GET_EDGE_INIT_FLAG s n;
          (s1, e1) \<leftarrow>
            (if first then
               do { s1 \<leftarrow> RST_EDGE_INIT_FLAG s n; Some (s1, e\<lparr>mlv_InPF := RST_POWER_FLOW (mlv_InPF e)\<rparr>) }
             else
               do { v \<leftarrow> GET_EDGE_VALUE s n; Some (s, e\<lparr>mlv_InPF := put_flow (v \<and> c = 0) (mlv_InPF e)\<rparr>) });
          s2 \<leftarrow> PUT_EDGE_VALUE s1 n (c \<noteq> 0);
          Some (s2, e1) }"

text \<open>\<open>get_char_in_simpleIns(pc, &lsv_charValue)\<close>: an error leaves the local as it was.\<close>

definition si_char :: "plc_state \<Rightarrow> nat \<Rightarrow> u8 option \<Rightarrow> u8 option option" where
  "si_char s pc cv = do { (r, v) \<leftarrow> get_char_in_simpleIns s pc; Some (case v of Some c \<Rightarrow> Some c | None \<Rightarrow> cv) }"

definition si_edge :: "plc_state \<Rightarrow> si_env \<Rightarrow> (plc_state \<Rightarrow> si_env \<Rightarrow> (plc_state \<times> si_env) option) \<Rightarrow> (plc_state \<times> si_env) option" where
  "si_edge s e run =
     do { (s', e') \<leftarrow> run s (e\<lparr>mcp_PC := mcp_PC e + 2\<rparr>); Some (s', e'\<lparr>mcp_PC := mcp_PC e + 4\<rparr>) }"

text \<open>An edge of an element: the sample is read into the local and passed on, a local that was never
  set is undefined.\<close>

definition si_edge_elem :: "plc_state \<Rightarrow> si_env \<Rightarrow> u8 option \<Rightarrow>
    (plc_state \<Rightarrow> si_env \<Rightarrow> u8 \<Rightarrow> (plc_state \<times> si_env) option) \<Rightarrow> u32 \<Rightarrow> (plc_state \<times> si_env \<times> u8 option) option" where
  "si_edge_elem s e cv run pf =
     do { cv' \<leftarrow> si_char s (mcp_PC e) cv;
          c \<leftarrow> cv';
          (s', e') \<leftarrow> run s (e\<lparr>mlv_InPF := pf, mcp_PC := mcp_PC e + 4\<rparr>) c;
          Some (s', e'\<lparr>mcp_PC := mcp_PC e + 6\<rparr>, cv') }"

definition si_pulse :: "plc_state \<Rightarrow> si_env \<Rightarrow> (plc_state \<Rightarrow> si_env \<Rightarrow> (plc_state \<times> si_env) option) \<Rightarrow> (plc_state \<times> si_env) option" where
  "si_pulse s e run =
     do { (s1, e1) \<leftarrow> run s (e\<lparr>mcp_PC := mcp_PC e + 4\<rparr>);
          (r, s2) \<leftarrow> save_char_in_simpleIns s1 (mcp_PC e) (if GET_POWER_FLOW (mlv_InPF e1) then 1 else 0);
          Some (s2, e1\<lparr>mcp_PC := mcp_PC e + 6\<rparr>) }"

section \<open>The interpreter\<close>

text \<open>One case of the \<open>switch\<close>.\<close>

fun exec_si :: "si_op \<Rightarrow> plc_state \<Rightarrow> si_env \<Rightarrow> u8 option \<Rightarrow> (plc_state \<times> si_env \<times> u8 option) option" where
  "exec_si (SI_LD x) s e cv = do { e' \<leftarrow> si_ld s e x; Some (s, e', cv) }"
| "exec_si (SI_LDI x) s e cv = do { e' \<leftarrow> si_ldi s e x; Some (s, e', cv) }"
| "exec_si (SI_AND x) s e cv = do { e' \<leftarrow> si_and s e x; Some (s, e', cv) }"
| "exec_si (SI_ANI x) s e cv = do { e' \<leftarrow> si_ani s e x; Some (s, e', cv) }"
| "exec_si (SI_OR x) s e cv = do { e' \<leftarrow> si_or s e x; Some (s, e', cv) }"
| "exec_si (SI_ORI x) s e cv = do { e' \<leftarrow> si_ori s e x; Some (s, e', cv) }"
| "exec_si (SI_OUT x) s e cv = do { (s', e') \<leftarrow> si_out s e x; Some (s', e', cv) }"
| "exec_si (SI_SET x) s e cv = do { (s', e') \<leftarrow> si_set_rst s e 1 x; Some (s', e', cv) }"
| "exec_si (SI_RST x) s e cv = do { (s', e') \<leftarrow> si_set_rst s e 0 x; Some (s', e', cv) }"
| "exec_si SI_INV s e cv = Some (s, si_inv e, cv)"
| "exec_si SI_ANB s e cv = Some (s, si_anb e, cv)"
| "exec_si SI_ORB s e cv = Some (s, si_orb e, cv)"
| "exec_si SI_MPS s e cv = Some (s, si_mps e, cv)"
| "exec_si SI_MRD s e cv = Some (s, si_mrd e, cv)"
| "exec_si SI_MPP s e cv = Some (s, si_mpp e, cv)"
| "exec_si SI_NOP s e cv = Some (s, si_next 2 (mlv_InPF e) e, cv)"
| "exec_si SI_EU s e cv = do { (s', e') \<leftarrow> si_edge s e run_eu_ins; Some (s', e', cv) }"
| "exec_si SI_ED s e cv = do { (s', e') \<leftarrow> si_edge s e run_ed_ins; Some (s', e', cv) }"
| "exec_si SI_LDP s e cv = si_edge_elem s e cv run_eu_p_ins (push_bit 1 (mlv_InPF e))"
| "exec_si SI_LDF s e cv = si_edge_elem s e cv run_ed_f_ins (push_bit 1 (mlv_InPF e))"
| "exec_si SI_ANDP s e cv =
     (if GET_POWER_FLOW (mlv_InPF e) then si_edge_elem s e cv run_eu_p_ins (mlv_InPF e)
      else Some (s, si_next 6 (mlv_InPF e) e, cv))"
| "exec_si SI_ANDF s e cv =
     (if GET_POWER_FLOW (mlv_InPF e) then si_edge_elem s e cv run_ed_f_ins (mlv_InPF e)
      else Some (s, si_next 6 (mlv_InPF e) e, cv))"
| "exec_si SI_ORP s e cv =
     (if \<not> GET_POWER_FLOW (mlv_InPF e) then si_edge_elem s e cv run_eu_p_ins (mlv_InPF e)
      else Some (s, si_next 6 (mlv_InPF e) e, cv))"
| "exec_si SI_ORF s e cv =
     (if \<not> GET_POWER_FLOW (mlv_InPF e) then si_edge_elem s e cv run_ed_f_ins (mlv_InPF e)
      else Some (s, si_next 6 (mlv_InPF e) e, cv))"
| "exec_si SI_PLP s e cv = do { (s', e') \<leftarrow> si_pulse s e run_eu_ins; Some (s', e', cv) }"
| "exec_si SI_PLF s e cv = do { (s', e') \<leftarrow> si_pulse s e run_ed_ins; Some (s', e', cv) }"

text \<open>The length of an instruction in the program.\<close>

fun si_size :: "si_op \<Rightarrow> nat" where
  "si_size (SI_LD x) = si_len x" | "si_size (SI_LDI x) = si_len x" | "si_size (SI_AND x) = si_len x"
| "si_size (SI_ANI x) = si_len x" | "si_size (SI_OR x) = si_len x" | "si_size (SI_ORI x) = si_len x"
| "si_size (SI_OUT x) = si_len x" | "si_size (SI_SET x) = si_len x" | "si_size (SI_RST x) = si_len x"
| "si_size SI_EU = 4" | "si_size SI_ED = 4"
| "si_size SI_LDP = 6" | "si_size SI_LDF = 6" | "si_size SI_ANDP = 6" | "si_size SI_ANDF = 6"
| "si_size SI_ORP = 6" | "si_size SI_ORF = 6" | "si_size SI_PLP = 6" | "si_size SI_PLF = 6"
| "si_size _ = 2"

section \<open>Progress and frame of a single instruction\<close>

lemma si_next_simps [simp]:
  "mlv_InPF (si_next n pf e) = pf" "mlv_OutPF (si_next n pf e) = mlv_OutPF e"
  "mcp_PC (si_next n pf e) = mcp_PC e + n"
  by (simp_all add: si_next_def)

lemma si_len_pos: "0 < si_len x"
  by (cases x) simp_all

lemma si_size_pos: "0 < si_size i"
  by (cases i) (simp_all add: si_len_pos)

text \<open>Two states between which only bit elements, edge data and the backup PC differ.\<close>

definition si_frame :: "plc_state \<Rightarrow> plc_state \<Rightarrow> bool" where
  "si_frame s s' \<longleftrightarrow>
     s' = s\<lparr>gtv_PlcElement := gtv_PlcElement s', gtp_EuEd := gtp_EuEd s', gcp_BackupUserPc := gcp_BackupUserPc s'\<rparr> \<and>
     same_words (gtv_PlcElement s) (gtv_PlcElement s') \<and> length (gtp_EuEd s') = length (gtp_EuEd s)"

lemma same_words_refl [simp]: "same_words e e"
  by (simp add: same_words_def)

lemma si_frame_refl [simp]: "si_frame s s"
  by (simp add: si_frame_def)

lemma si_frame_trans: "si_frame a b \<Longrightarrow> si_frame b c \<Longrightarrow> si_frame a c"
  unfolding si_frame_def
  by (cases a; cases b; cases c) (auto simp: same_words_def)

lemma si_frame_bits: "bits_only s s' \<Longrightarrow> si_frame s s'"
  by (cases s; cases s') (auto simp: bits_only_def si_frame_def elements_only_def)

lemma si_frame_edge: "length l = length (gtp_EuEd s) \<Longrightarrow> si_frame s (s\<lparr>gtp_EuEd := l\<rparr>)"
  by (simp add: si_frame_def)

lemma si_frame_backup [simp]: "si_frame s (s\<lparr>gcp_BackupUserPc := a\<rparr>)"
  by (simp add: si_frame_def)

lemma si_frame_ucode: "si_frame s s' \<Longrightarrow> ucode s' = ucode s"
  unfolding si_frame_def by (metis plc_state.select_convs(10) plc_state.surjective plc_state.update_convs(2,3,9))

lemma edge_frame:
  "RST_EDGE_INIT_FLAG s n = Some s' \<Longrightarrow> si_frame s s'"
  "PUT_EDGE_VALUE s n v = Some s' \<Longrightarrow> si_frame s s'"
  by (auto simp: RST_EDGE_INIT_FLAG_def PUT_EDGE_VALUE_def Let_def opt_simps intro: si_frame_edge)

lemma run_edge_frame:
  "run_eu_ins s e = Some (s', e') \<Longrightarrow> si_frame s s'"
  "run_ed_ins s e = Some (s', e') \<Longrightarrow> si_frame s s'"
  "run_eu_p_ins s e c = Some (s', e') \<Longrightarrow> si_frame s s'"
  "run_ed_f_ins s e c = Some (s', e') \<Longrightarrow> si_frame s s'"
  by (auto simp: run_eu_ins_def run_ed_ins_def run_eu_p_ins_def run_ed_f_ins_def Let_def opt_simps
      split: if_splits dest!: edge_frame intro: si_frame_trans)

lemma save_char_in_simpleIns_bits: "save_char_in_simpleIns s a v = Some (r, s') \<Longrightarrow> bits_only s s'"
  using put_bsel_bits_only by (auto simp: save_char_in_simpleIns_def opt_simps split: option.split_asm)

lemma exec_si_frame: "exec_si i s e cv = Some (s', e', cv') \<Longrightarrow> si_frame s s'"
  by (cases i)
    (auto simp: si_out_def si_set_rst_def si_write_def si_edge_def si_edge_elem_def si_pulse_def opt_simps
      split: if_splits dest!: run_edge_frame put_bsel_bits_only [THEN si_frame_bits]
        save_char_in_simpleIns_bits [THEN si_frame_bits] intro: si_frame_trans)

lemma exec_si_pc: "exec_si i s e cv = Some (s', e', cv') \<Longrightarrow> mcp_PC e' = mcp_PC e + si_size i"
  by (cases i)
    (auto simp: si_ld_def si_ldi_def si_and_def si_ani_def si_or_def si_ori_def si_out_def si_set_rst_def si_inv_def
      si_anb_def si_orb_def si_mps_def si_mrd_def si_mpp_def si_edge_def si_edge_elem_def si_pulse_def Let_def opt_simps
      split: if_splits)

section \<open>The loop\<close>

text \<open>\<open>while (GET_PU16_DATA(lcp_UcodePC) < 0xE000)\<close>; the program counter grows with every
  instruction and the program is finite, so the loop ends, at the latest by leaving the program.\<close>

function (sequential) exec_simple_loop ::
    "plc_state \<Rightarrow> si_env \<Rightarrow> u8 option \<Rightarrow> (plc_ret \<times> plc_state \<times> si_env) option" where
  "exec_simple_loop s e cv =
     do { w \<leftarrow> GET_PU16_DATA (ucode s) (mcp_PC e);
          if w < 0xE000 then
            do { c \<leftarrow> GET_PU8_DATA (ucode s) (mcp_PC e + 1);
                 case decode_si c of
                   None \<Rightarrow> Some (ERR_ILLEGAL_INSTRCTION, s\<lparr>gcp_BackupUserPc := mcp_PC e\<rparr>, e)
                 | Some i \<Rightarrow>
                   do { (s', e', cv') \<leftarrow> exec_si i (s\<lparr>gcp_BackupUserPc := mcp_PC e\<rparr>) e cv;
                        exec_simple_loop s' e' cv' } }
          else Some (pdPASS, s, e) }"
  by pat_completeness auto
termination
proof (relation "measure (\<lambda>(s, e, cv). length (ucode s) - mcp_PC e)", goal_cases)
  case (2 s e cv w c i p s' q e' cv')
  then have "exec_si i (s\<lparr>gcp_BackupUserPc := mcp_PC e\<rparr>) e cv = Some (s', e', cv')"
    by simp
  then have "ucode s' = ucode s" "mcp_PC e < mcp_PC e'"
    using si_frame_ucode [OF exec_si_frame] exec_si_pc si_size_pos by fastforce+
  moreover have "mcp_PC e < length (ucode s)"
    using 2 by (auto simp: GET_PU16_DATA_def opt_simps)
  ultimately show ?case
    by simp
qed simp

declare exec_simple_loop.simps [simp del]

definition plc_exec_simple_instruction :: "plc_state \<Rightarrow> si_env \<Rightarrow> (plc_ret \<times> plc_state \<times> si_env) option" where
  "plc_exec_simple_instruction s e = exec_simple_loop s e None"


section \<open>Where the loop stops\<close>

lemma exec_simple_loop_stops:
  "exec_simple_loop s e cv = Some (r, s', e') \<Longrightarrow>
   si_frame s s' \<and> mcp_PC e \<le> mcp_PC e' \<and>
   (\<exists>w. GET_PU16_DATA (ucode s) (mcp_PC e') = Some w \<and>
     (r = pdPASS \<and> 0xE000 \<le> w \<or>
      r = ERR_ILLEGAL_INSTRCTION \<and> w < 0xE000 \<and> decode_si (ucode s ! (mcp_PC e' + 1)) = None \<and>
        gcp_BackupUserPc s' = mcp_PC e'))"
proof (induction s e cv arbitrary: r s' e' rule: exec_simple_loop.induct)
  case (1 s e cv)
  obtain w where w: "GET_PU16_DATA (ucode s) (mcp_PC e) = Some w"
    using 1(2) by (subst (asm) exec_simple_loop.simps) (auto simp: opt_simps)
  then have c: "GET_PU8_DATA (ucode s) (mcp_PC e + 1) = Some (ucode s ! (mcp_PC e + 1))"
    by (auto simp: GET_PU16_DATA_def GET_PU8_DATA_def opt_simps mem_simps)
  show ?case
  proof (cases "w < 0xE000")
    case False
    then show ?thesis
      using 1(2) w by (subst (asm) exec_simple_loop.simps) auto
  next
    case lt: True
    show ?thesis
    proof (cases "decode_si (ucode s ! (mcp_PC e + 1))")
      case None
      then show ?thesis
        using 1(2) w lt c by (subst (asm) exec_simple_loop.simps) auto
    next
      case (Some i)
      obtain s1 e1 cv1 where x: "exec_si i (s\<lparr>gcp_BackupUserPc := mcp_PC e\<rparr>) e cv = Some (s1, e1, cv1)"
        and rest: "exec_simple_loop s1 e1 cv1 = Some (r, s', e')"
        using 1(2) w lt c Some by (subst (asm) exec_simple_loop.simps) (auto simp: opt_simps)
      have fr: "si_frame s s1"
        using si_frame_trans [OF si_frame_backup exec_si_frame [OF x]] .
      have "mcp_PC e \<le> mcp_PC e1"
        using exec_si_pc [OF x] by simp
      then show ?thesis
        using 1(1) [OF w lt c Some x refl refl rest] fr si_frame_trans [OF fr] si_frame_ucode [OF fr] by fastforce
    qed
  qed
qed

section \<open>Programs that the interpreter can run\<close>

text \<open>
  The interpreter trusts the program: it checks no element number and no edge number.
  \<open>si_ins_ok\<close> is what an instruction needs of the program and of the sizes of the arrays, and
  \<open>si_prog_ok\<close> asks it of every instruction up to the next complex one.
\<close>

definition edge_ok :: "plc_state \<Rightarrow> nat \<Rightarrow> bool" where
  "edge_ok s a \<longleftrightarrow>
     (case GET_PU16_DATA (ucode s) a of Some n \<Rightarrow> unat (drop_bit 4 n) < length (gtp_EuEd s) | None \<Rightarrow> False)"

definition elem_ok :: "plc_state \<Rightarrow> nat \<Rightarrow> bool" where
  "elem_ok s a \<longleftrightarrow>
     (case Option.bind (GET_PU8_DATA (ucode s) a) (\<lambda>t. Option.bind (addr_of t) (get_char_direct s)) of
        Some b \<Rightarrow> (case GET_PU16_DATA (ucode s) (a + 2) of Some i \<Rightarrow> i < rang_bsel b s | None \<Rightarrow> False)
      | None \<Rightarrow> False)"

definition arg_ok :: "plc_state \<Rightarrow> nat \<Rightarrow> si_arg \<Rightarrow> bool" where
  "arg_ok s pc x \<longleftrightarrow> (case si_index s pc x of Some i \<Rightarrow> i < rang_bsel (si_bank s x) s | None \<Rightarrow> False)"

fun si_ins_ok :: "plc_state \<Rightarrow> nat \<Rightarrow> si_op \<Rightarrow> bool" where
  "si_ins_ok s pc (SI_LD x) = arg_ok s pc x" | "si_ins_ok s pc (SI_LDI x) = arg_ok s pc x"
| "si_ins_ok s pc (SI_AND x) = arg_ok s pc x" | "si_ins_ok s pc (SI_ANI x) = arg_ok s pc x"
| "si_ins_ok s pc (SI_OR x) = arg_ok s pc x" | "si_ins_ok s pc (SI_ORI x) = arg_ok s pc x"
| "si_ins_ok s pc (SI_OUT x) = arg_ok s pc x" | "si_ins_ok s pc (SI_SET x) = arg_ok s pc x"
| "si_ins_ok s pc (SI_RST x) = arg_ok s pc x"
| "si_ins_ok s pc SI_EU = edge_ok s (pc + 2)" | "si_ins_ok s pc SI_ED = edge_ok s (pc + 2)"
| "si_ins_ok s pc SI_INV = True" | "si_ins_ok s pc SI_ANB = True" | "si_ins_ok s pc SI_ORB = True"
| "si_ins_ok s pc SI_MPS = True" | "si_ins_ok s pc SI_MRD = True" | "si_ins_ok s pc SI_MPP = True"
| "si_ins_ok s pc SI_NOP = True"
| "si_ins_ok s pc _ = (elem_ok s pc \<and> edge_ok s (pc + 4))"

inductive si_prog_ok :: "plc_state \<Rightarrow> nat \<Rightarrow> bool" where
  stop: "GET_PU16_DATA (ucode s) pc = Some w \<Longrightarrow> 0xE000 \<le> w \<Longrightarrow> si_prog_ok s pc"
| step: "GET_PU16_DATA (ucode s) pc = Some w \<Longrightarrow> w < 0xE000 \<Longrightarrow> decode_si (ucode s ! (pc + 1)) = Some i \<Longrightarrow>
    si_ins_ok s pc i \<Longrightarrow> si_prog_ok s (pc + si_size i) \<Longrightarrow> si_prog_ok s pc"

lemma si_frame_eq:
  assumes "si_frame s s'"
  shows "gtp_PlcElementInfo s' = gtp_PlcElementInfo s" "gtp_CallInsInfoPtr s' = gtp_CallInsInfoPtr s"
    "ucode s' = ucode s" "length (gtp_EuEd s') = length (gtp_EuEd s)"
proof -
  have eq: "s' = s\<lparr>gtv_PlcElement := gtv_PlcElement s', gtp_EuEd := gtp_EuEd s', gcp_BackupUserPc := gcp_BackupUserPc s'\<rparr>"
    using assms by (simp add: si_frame_def)
  show "gtp_PlcElementInfo s' = gtp_PlcElementInfo s" "gtp_CallInsInfoPtr s' = gtp_CallInsInfoPtr s" "ucode s' = ucode s"
    by (subst eq, simp)+
  show "length (gtp_EuEd s') = length (gtp_EuEd s)"
    using assms by (simp add: si_frame_def)
qed

lemma elem_ok_frame:
  assumes "si_frame s s'"
  shows "elem_ok s' a = elem_ok s a"
proof -
  note eqs = si_frame_eq [OF assms]
  have r: "rang_bsel b s' = rang_bsel b s" for b
    by (cases b) (simp_all add: eqs)
  have "get_char_direct s' = get_char_direct s"
    unfolding get_char_direct_def eqs by (rule refl)
  then show ?thesis
    unfolding elem_ok_def eqs r by simp
qed

lemma si_frame_ok:
  assumes "si_frame s s'"
  shows "si_ins_ok s' pc i = si_ins_ok s pc i"
proof -
  note eqs = si_frame_eq [OF assms]
  have r: "rang_bsel b s' = rang_bsel b s" for b
    by (cases b) (simp_all add: eqs)
  have n: "si_near s' pc = si_near s pc" "si_far s' pc = si_far s pc"
    by (simp_all add: si_near_def si_far_def eqs)
  have x: "si_index s' pc x = si_index s pc x" "si_bank s' x = si_bank s x" for x
    by (cases x; simp add: n eqs)+
  have a: "arg_ok s' pc x = arg_ok s pc x" for x
    unfolding arg_ok_def x r by (rule refl)
  have d: "edge_ok s' a = edge_ok s a" for a
    unfolding edge_ok_def eqs by (rule refl)
  have m: "elem_ok s' a = elem_ok s a" for a
    by (rule elem_ok_frame [OF assms])
  show ?thesis
    by (cases i) (simp_all add: a d m)
qed

lemma si_prog_ok_frame: "si_prog_ok s pc \<Longrightarrow> si_frame s s' \<Longrightarrow> si_prog_ok s' pc"
proof (induction rule: si_prog_ok.induct)
  case (stop s pc w)
  then show ?case
    by (intro si_prog_ok.stop) (simp_all add: si_frame_eq)
next
  case (step s pc w i)
  then show ?case
    using si_frame_ok [OF step.prems] si_frame_eq [OF step.prems]
    by (intro si_prog_ok.step [of s' pc w i]) simp_all
qed

text \<open>Accesses that the checks allow are defined.\<close>

definition edges_only :: "plc_state \<Rightarrow> plc_state \<Rightarrow> bool" where
  "edges_only s s' \<longleftrightarrow> s' = s\<lparr>gtp_EuEd := gtp_EuEd s'\<rparr> \<and> length (gtp_EuEd s') = length (gtp_EuEd s)"

lemma edges_only_trans: "edges_only a b \<Longrightarrow> edges_only b c \<Longrightarrow> edges_only a c"
  by (cases a; cases b; cases c) (simp add: edges_only_def)

lemma edges_only_eq:
  assumes "edges_only s s'"
  shows "gtv_PlcElement s' = gtv_PlcElement s" "gtp_PlcElementInfo s' = gtp_PlcElementInfo s"
    "gtp_CallInsInfoPtr s' = gtp_CallInsInfoPtr s" "ucode s' = ucode s" "length (gtp_EuEd s') = length (gtp_EuEd s)"
proof -
  have eq: "s' = s\<lparr>gtp_EuEd := gtp_EuEd s'\<rparr>"
    using assms by (simp add: edges_only_def)
  show "gtv_PlcElement s' = gtv_PlcElement s" "gtp_PlcElementInfo s' = gtp_PlcElementInfo s"
    "gtp_CallInsInfoPtr s' = gtp_CallInsInfoPtr s" "ucode s' = ucode s"
    by (subst eq, simp)+
  show "length (gtp_EuEd s') = length (gtp_EuEd s)"
    using assms by (simp add: edges_only_def)
qed

lemma edge_defined:
  assumes "unat (drop_bit 4 n) < length (gtp_EuEd s)"
  shows "\<exists>f. GET_EDGE_INIT_FLAG s n = Some f" "\<exists>v. GET_EDGE_VALUE s n = Some v"
    "\<exists>s'. RST_EDGE_INIT_FLAG s n = Some s' \<and> edges_only s s'"
    "\<exists>s'. PUT_EDGE_VALUE s n v = Some s' \<and> edges_only s s'"
  using assms
  by (simp_all add: GET_EDGE_INIT_FLAG_def GET_EDGE_VALUE_def RST_EDGE_INIT_FLAG_def PUT_EDGE_VALUE_def Let_def mem_simps
      edges_only_def del: unat_drop_bit_eq)


lemma run_edge_defined:
  assumes "edge_ok s (mcp_PC e)"
  shows "\<exists>s' e'. run_eu_ins s e = Some (s', e') \<and> edges_only s s'"
    "\<exists>s' e'. run_ed_ins s e = Some (s', e') \<and> edges_only s s'"
    "\<exists>s' e'. run_eu_p_ins s e c = Some (s', e') \<and> edges_only s s'"
    "\<exists>s' e'. run_ed_f_ins s e c = Some (s', e') \<and> edges_only s s'"
proof -
  obtain n where n: "GET_PU16_DATA (ucode s) (mcp_PC e) = Some n" "unat (drop_bit 4 n) < length (gtp_EuEd s)"
    using assms by (auto simp: edge_ok_def split: option.splits)
  obtain f v where fv: "GET_EDGE_INIT_FLAG s n = Some f" "GET_EDGE_VALUE s n = Some v"
    using edge_defined(1,2) [OF n(2)] by blast
  obtain s1 where s1: "RST_EDGE_INIT_FLAG s n = Some s1" "edges_only s s1"
    "unat (drop_bit 4 n) < length (gtp_EuEd s1)"
    using edge_defined(3) [OF n(2)] n(2) edges_only_eq(5) by metis
  have put: "\<exists>s'. PUT_EDGE_VALUE t n b = Some s' \<and> edges_only s s'" if "t = s \<or> t = s1" for t b
    using that edge_defined(4) [OF n(2), of b] edge_defined(4) [OF s1(3), of b] edges_only_trans [OF s1(2)] by blast
  obtain p where p: "\<And>b. PUT_EDGE_VALUE s n b = Some (p b)" "\<And>b. edges_only s (p b)"
    using put [of s] by metis
  obtain q where q: "\<And>b. PUT_EDGE_VALUE s1 n b = Some (q b)" "\<And>b. edges_only s (q b)"
    using put [of s1] by metis
  show "\<exists>s' e'. run_eu_ins s e = Some (s', e') \<and> edges_only s s'"
    by (simp add: run_eu_ins_def Let_def n(1) fv s1 p q)
  show "\<exists>s' e'. run_ed_ins s e = Some (s', e') \<and> edges_only s s'"
    by (simp add: run_ed_ins_def Let_def n(1) fv s1 p q)
  show "\<exists>s' e'. run_eu_p_ins s e c = Some (s', e') \<and> edges_only s s'"
    by (simp add: run_eu_p_ins_def Let_def n(1) fv s1 p q)
  show "\<exists>s' e'. run_ed_f_ins s e c = Some (s', e') \<and> edges_only s s'"
    by (simp add: run_ed_f_ins_def Let_def n(1) fv s1 p q)
qed

lemma si_bank_inv: "wf_state s \<Longrightarrow> nested s < 7 \<Longrightarrow> inv_bsel (si_bank s x) s"
  using layer_ucast [of "nested s"] by (cases x) (auto simp: word_less_nat_alt)

lemma arg_defined:
  assumes "arg_ok s pc x" and "wf_state s" and "nested s < 7"
  shows "\<exists>v. si_read s pc x = Some v" "\<exists>s'. si_write s pc x w = Some s' \<and> wf_state s'" "\<exists>i. si_index s pc x = Some i"
proof -
  obtain i where i: "si_index s pc x = Some i" "i < rang_bsel (si_bank s x) s"
    using assms(1) by (auto simp: arg_ok_def split: option.splits)
  note inv = si_bank_inv [OF assms(2,3), of x]
  obtain s' where s': "put_bsel (si_bank s x) s i w = Some s'"
    using bb.put_ok [OF inv i(2)] by blast
  have "wf_state s'"
    using bb.put_inv [OF inv s'] by (cases "si_bank s x") auto
  then show "\<exists>v. si_read s pc x = Some v" "\<exists>s'. si_write s pc x w = Some s' \<and> wf_state s'" "\<exists>i. si_index s pc x = Some i"
    using i s' bb.get_ok [OF inv i(2)] by (auto simp: si_read_def si_write_def)
qed

lemma set_rst_defined:
  assumes "arg_ok s (mcp_PC e) x" and "wf_state s" and "nested s < 7"
  shows "\<exists>s' e'. si_set_rst s e v x = Some (s', e') \<and> wf_state s'"
  using arg_defined(2) [OF assms, of v] arg_defined(3) [OF assms] assms(2) by (auto simp: si_set_rst_def si_write_def)

lemma elem_defined:
  assumes "elem_ok s pc" and "wf_state s" and "nested s < 7"
  shows "\<exists>c. si_char s pc cv = Some (Some c)"
    "\<exists>s'. save_char_in_simpleIns s pc v = Some (pdPASS, s') \<and> wf_state s'"
proof -
  obtain t a b i where b: "GET_PU8_DATA (ucode s) pc = Some t" "addr_of t = Some a" "get_char_direct s a = Some b"
    "GET_PU16_DATA (ucode s) (pc + 2) = Some i" "i < rang_bsel b s"
    using assms(1) by (auto simp: elem_ok_def opt_simps split: option.splits)
  have inv: "inv_bsel b s"
    using get_char_table_inv [OF _ assms(2,3)] b(3) by blast
  obtain s' where s': "put_bsel b s i v = Some s'"
    using bb.put_ok [OF inv b(5)] by blast
  have "wf_state s'"
    using bb.put_inv [OF inv s'] by (cases b) auto
  then show "\<exists>s'. save_char_in_simpleIns s pc v = Some (pdPASS, s') \<and> wf_state s'"
    using b s' by (simp add: save_char_in_simpleIns_def)
  show "\<exists>c. si_char s pc cv = Some (Some c)"
    using b bb.get_ok [OF inv b(5)] by (auto simp: si_char_def get_char_in_simpleIns_def)
qed


lemma wf_edges_only: "edges_only s s' \<Longrightarrow> wf_state s' = wf_state s"
  by (simp add: edges_only_eq)

lemma si_edge_defined:
  assumes "edge_ok s (mcp_PC e + 2)" and "wf_state s"
  shows "\<exists>s' e'. si_edge s e run_eu_ins = Some (s', e') \<and> wf_state s'"
    "\<exists>s' e'. si_edge s e run_ed_ins = Some (s', e') \<and> wf_state s'"
  using run_edge_defined(1,2) [of s "e\<lparr>mcp_PC := mcp_PC e + 2\<rparr>"] assms wf_edges_only
  by (auto simp: si_edge_def)

lemma si_edge_elem_defined:
  assumes "elem_ok s (mcp_PC e)" and "edge_ok s (mcp_PC e + 4)" and "wf_state s" and "nested s < 7"
  shows "\<exists>s' e' cv'. si_edge_elem s e cv run_eu_p_ins pf = Some (s', e', cv') \<and> wf_state s'"
    "\<exists>s' e' cv'. si_edge_elem s e cv run_ed_f_ins pf = Some (s', e', cv') \<and> wf_state s'"
proof -
  obtain c where "si_char s (mcp_PC e) cv = Some (Some c)"
    using elem_defined(1) [OF assms(1,3,4)] by blast
  then show "\<exists>s' e' cv'. si_edge_elem s e cv run_eu_p_ins pf = Some (s', e', cv') \<and> wf_state s'"
    "\<exists>s' e' cv'. si_edge_elem s e cv run_ed_f_ins pf = Some (s', e', cv') \<and> wf_state s'"
    using run_edge_defined(3,4) [of s "e\<lparr>mlv_InPF := pf, mcp_PC := mcp_PC e + 4\<rparr>" c] assms(2,3) wf_edges_only
    by (auto simp: si_edge_elem_def)
qed

lemma elem_ok_edges_only:
  assumes "edges_only s s'"
  shows "elem_ok s' a = elem_ok s a"
proof -
  have "si_frame s s'"
    using assms by (cases s; cases s') (simp add: si_frame_def edges_only_def)
  then show ?thesis
    by (rule elem_ok_frame)
qed

lemma si_pulse_defined:
  assumes "elem_ok s (mcp_PC e)" and "edge_ok s (mcp_PC e + 4)" and "wf_state s" and "nested s < 7"
  shows "\<exists>s' e'. si_pulse s e run_eu_ins = Some (s', e') \<and> wf_state s'"
    "\<exists>s' e'. si_pulse s e run_ed_ins = Some (s', e') \<and> wf_state s'"
proof -
  have save: "\<exists>s2. save_char_in_simpleIns s1 (mcp_PC e) v = Some (pdPASS, s2) \<and> wf_state s2" if "edges_only s s1" for s1 v
    using that assms(1,3,4) elem_defined(2) [of s1 "mcp_PC e" v] by (simp add: elem_ok_edges_only edges_only_eq)
  obtain s1 e1 where "run_eu_ins s (e\<lparr>mcp_PC := mcp_PC e + 4\<rparr>) = Some (s1, e1)" "edges_only s s1"
    using run_edge_defined(1) [of s "e\<lparr>mcp_PC := mcp_PC e + 4\<rparr>"] assms(2) by auto
  then show "\<exists>s' e'. si_pulse s e run_eu_ins = Some (s', e') \<and> wf_state s'"
    using save [of s1 "if GET_POWER_FLOW (mlv_InPF e1) then 1 else 0"] by (auto simp: si_pulse_def)
  obtain s1 e1 where "run_ed_ins s (e\<lparr>mcp_PC := mcp_PC e + 4\<rparr>) = Some (s1, e1)" "edges_only s s1"
    using run_edge_defined(2) [of s "e\<lparr>mcp_PC := mcp_PC e + 4\<rparr>"] assms(2) by auto
  then show "\<exists>s' e'. si_pulse s e run_ed_ins = Some (s', e') \<and> wf_state s'"
    using save [of s1 "if GET_POWER_FLOW (mlv_InPF e1) then 1 else 0"] by (auto simp: si_pulse_def)
qed

lemma exec_si_defined:
  assumes ok: "si_ins_ok s (mcp_PC e) i" and wf: "wf_state s" and nest: "nested s < 7"
  shows "\<exists>s' e' cv'. exec_si i s e cv = Some (s', e', cv') \<and> wf_state s'"
proof -
  have contact: "\<exists>e'. si_ld s e x = Some e'" "\<exists>e'. si_ldi s e x = Some e'" "\<exists>e'. si_and s e x = Some e'"
    "\<exists>e'. si_ani s e x = Some e'" "\<exists>e'. si_or s e x = Some e'" "\<exists>e'. si_ori s e x = Some e'"
    if "arg_ok s (mcp_PC e) x" for x
    using arg_defined(1) [OF that wf nest]
    by (auto simp: si_ld_def si_ldi_def si_and_def si_ani_def si_or_def si_ori_def)
  have coil: "\<exists>s' e'. si_out s e x = Some (s', e') \<and> wf_state s'" if "arg_ok s (mcp_PC e) x" for x
    using arg_defined(2) [OF that wf nest, of "if GET_POWER_FLOW (mlv_InPF e) then 1 else 0"] by (auto simp: si_out_def)
  show ?thesis
  proof (cases "\<exists>x. i \<in> {SI_LD x, SI_LDI x, SI_AND x, SI_ANI x, SI_OR x, SI_ORI x, SI_OUT x, SI_SET x, SI_RST x}")
    case True
    then obtain x where x: "arg_ok s (mcp_PC e) x"
      "i \<in> {SI_LD x, SI_LDI x, SI_AND x, SI_ANI x, SI_OR x, SI_ORI x, SI_OUT x, SI_SET x, SI_RST x}"
      using ok by auto
    show ?thesis
      using x(2) contact [OF x(1)] coil [OF x(1)] set_rst_defined [OF x(1) wf nest, of 0]
        set_rst_defined [OF x(1) wf nest, of 1] wf by auto
  next
    case plain: False
    show ?thesis
    proof (cases "i \<in> {SI_EU, SI_ED}")
      case True
      then have "edge_ok s (mcp_PC e + 2)"
        using ok by auto
      from si_edge_defined [OF this wf] True show ?thesis
        by auto
    next
      case no_edge: False
      show ?thesis
      proof (cases "i \<in> {SI_LDP, SI_LDF, SI_ANDP, SI_ANDF, SI_ORP, SI_ORF, SI_PLP, SI_PLF}")
        case True
        then have el: "elem_ok s (mcp_PC e)" "edge_ok s (mcp_PC e + 4)"
          using ok by auto
        note d = si_edge_elem_defined [OF el wf nest, of cv "push_bit 1 (mlv_InPF e)"]
          si_edge_elem_defined [OF el wf nest, of cv "mlv_InPF e"] si_pulse_defined [OF el wf nest]
        from True d wf show ?thesis
          by (elim insertE emptyE) (simp; fastforce)+
      next
        case False
        then show ?thesis
          using plain no_edge wf by (cases i) simp_all
      qed
    qed
  qed
qed

section \<open>Programs run to the end of their simple part\<close>

lemma exec_simple_loop_runs:
  "si_prog_ok s pc \<Longrightarrow> si_frame s t \<Longrightarrow> mcp_PC e = pc \<Longrightarrow> wf_state t \<Longrightarrow> nested s < 7 \<Longrightarrow>
   \<exists>s' e'. exec_simple_loop t e cv = Some (pdPASS, s', e') \<and> wf_state s'"
proof (induction s pc arbitrary: t e cv rule: si_prog_ok.induct)
  case (stop s pc w)
  then show ?case
    by (subst exec_simple_loop.simps) (simp add: si_frame_eq(3) [OF stop.prems(1)] linorder_not_less [symmetric])
next
  case (step s pc w i)
  let ?t = "t\<lparr>gcp_BackupUserPc := mcp_PC e\<rparr>"
  note eqs = si_frame_eq [OF step.prems(1)]
  have w: "GET_PU16_DATA (ucode t) (mcp_PC e) = Some w"
    using step.hyps(1) step.prems(2) by (simp add: eqs)
  have c: "GET_PU8_DATA (ucode t) (mcp_PC e + 1) = Some (ucode s ! (pc + 1))"
    using step.hyps(1) step.prems(2) by (auto simp: GET_PU16_DATA_def GET_PU8_DATA_def opt_simps mem_simps eqs)
  have fr: "si_frame s ?t"
    by (rule si_frame_trans [OF step.prems(1) si_frame_backup])
  have "si_ins_ok ?t (mcp_PC e) i"
    using step.hyps(4) step.prems(2) si_frame_ok [OF fr] by simp
  then obtain s1 e1 cv1 where x: "exec_si i ?t e cv = Some (s1, e1, cv1)" and wf: "wf_state s1"
    using exec_si_defined [of ?t e i cv] step.prems(3,4) by (auto simp: eqs)
  have "mcp_PC e1 = pc + si_size i"
    using exec_si_pc [OF x] step.prems(2) by simp
  then obtain s' e' where "exec_simple_loop s1 e1 cv1 = Some (pdPASS, s', e')" "wf_state s'"
    using step.IH [OF si_frame_trans [OF fr exec_si_frame [OF x]] _ wf step.prems(4)] by blast
  then show ?case
    using w c step.hyps(2,3) x by (subst exec_simple_loop.simps) simp
qed

section \<open>Properties\<close>

text \<open>A small program: \<open>LD X0\<close>, \<open>ANI X1\<close>, \<open>OUT Y0\<close>, \<open>LDP M4\<close> on edge 3, \<open>SET M2\<close>, and a complex word.\<close>

definition demo :: "u8 list" where
  "demo = [0x00, 0x10, 0x01, 0x40, 0x00, 0x71, 0x05, 0xB0, 0x04, 0x00, 0x03, 0x00, 0x02, 0x85, 0x00, 0xE0]"

abbreviation env0 :: si_env where
  "env0 \<equiv> \<lparr>mlv_InPF = 1, mlv_OutPF = 0, mcp_PC = 0\<rparr>"

lemma demo_code:
  "GET_PU16_DATA demo 0 = Some 0x1000" "GET_PU16_DATA demo 2 = Some 0x4001" "GET_PU16_DATA demo 4 = Some 0x7100"
  "GET_PU16_DATA demo 6 = Some 0xB005" "GET_PU16_DATA demo 8 = Some 0x0004" "GET_PU16_DATA demo 10 = Some 0x0003"
  "GET_PU16_DATA demo 12 = Some 0x8502" "GET_PU16_DATA demo 14 = Some 0xE000"
  "GET_PU8_DATA demo 0 = Some 0" "GET_PU8_DATA demo 2 = Some 1" "GET_PU8_DATA demo 4 = Some 0" "GET_PU8_DATA demo 6 = Some 5"
  "GET_PU8_DATA demo 12 = Some 2"
  "decode_si (demo ! Suc 0) = Some (SI_LD (Near X_ELEMENT))" "decode_si (demo ! 3) = Some (SI_ANI (Near X_ELEMENT))"
  "decode_si (demo ! 5) = Some (SI_OUT (Near Y_ELEMENT))" "decode_si (demo ! 7) = Some SI_LDP"
  "decode_si (demo ! 13) = Some (SI_SET (Near M_ELEMENT))" "addr_of 5 = Some ADDR_M"
  by code_simp+

lemma demo_ok: "si_prog_ok (boot_state demo) 0"
proof -
  let ?s = "boot_state demo"
  have e: "length (gtp_EuEd ?s) = 512"
    by (simp add: boot_state_def)
  have "si_prog_ok ?s 14"
    by (rule si_prog_ok.stop [where w = "0xE000"]) (simp_all add: demo_code)
  then have "si_prog_ok ?s 12"
    by (intro si_prog_ok.step [where pc = 12 and w = "0x8502" and i = "SI_SET (Near M_ELEMENT)"]) (simp_all add: demo_code arg_ok_def si_near_def)
  then have "si_prog_ok ?s 6"
    by (intro si_prog_ok.step [where pc = 6 and w = "0xB005" and i = "SI_LDP"]) 
      (simp_all add: demo_code elem_ok_def edge_ok_def get_char_direct_def e)
  then have "si_prog_ok ?s 4"
    by (intro si_prog_ok.step [where pc = 4 and w = "0x7100" and i = "SI_OUT (Near Y_ELEMENT)"]) (simp_all add: demo_code arg_ok_def si_near_def)
  then have "si_prog_ok ?s 2"
    by (intro si_prog_ok.step [where pc = 2 and w = "0x4001" and i = "SI_ANI (Near X_ELEMENT)"]) (simp_all add: demo_code arg_ok_def si_near_def)
  from this [unfolded numeral_2_eq_2] show ?thesis
    by (intro si_prog_ok.step [where pc = 0 and w = "0x1000" and i = "SI_LD (Near X_ELEMENT)"]) (simp_all add: demo_code arg_ok_def si_near_def)
qed



text \<open>C8. Whenever \<open>plc_exec_simple_instruction\<close> returns, it returns \<open>pdPASS\<close> at a word from 0xE000 on or
  \<open>ERR_ILLEGAL_INSTRCTION\<close> at a word below it whose opcode has no case, and then
  \<open>gcp_BackupUserPc\<close> points to the offending instruction; words, counters, timers and the program are
  not changed.\<close>
theorem simple_ins_stops:
  assumes "plc_exec_simple_instruction s e = Some (r, s', e')"
  shows "si_frame s s' \<and> mcp_PC e \<le> mcp_PC e' \<and>
   (\<exists>w. GET_PU16_DATA (ucode s) (mcp_PC e') = Some w \<and>
     (r = pdPASS \<and> 0xE000 \<le> w \<or>
      r = ERR_ILLEGAL_INSTRCTION \<and> w < 0xE000 \<and> decode_si (ucode s ! (mcp_PC e' + 1)) = None \<and>
        gcp_BackupUserPc s' = mcp_PC e'))"
  using assms exec_simple_loop_stops unfolding plc_exec_simple_instruction_def by blast

text \<open>\<open>OUT LM0\<close>, an opcode the compiler accepts and the interpreter has no case for.\<close>

definition out_lm :: "u8 list" where
  "out_lm = [0x00, 0x77]"

lemma out_lm_code:
  "GET_PU16_DATA out_lm 0 = Some 0x7700" "GET_PU8_DATA out_lm (Suc 0) = Some 0x77" "decode_si 0x77 = None"
  by code_simp+

theorem simple_ins_stops_witness:
  "\<exists>s'. plc_exec_simple_instruction (boot_state out_lm) env0 = Some (ERR_ILLEGAL_INSTRCTION, s', env0) \<and>
    si_frame (boot_state out_lm) s' \<and> gcp_BackupUserPc s' = mcp_PC env0"
proof -
  let ?s = "(boot_state out_lm)\<lparr>gcp_BackupUserPc := 0\<rparr>"
  have x: "plc_exec_simple_instruction (boot_state out_lm) env0 = Some (ERR_ILLEGAL_INSTRCTION, ?s, env0)"
    unfolding plc_exec_simple_instruction_def
    by (subst exec_simple_loop.simps) (simp add: out_lm_code)
  from simple_ins_stops [OF x] x show ?thesis
    by auto
qed

end
