(* ===== verification/PLC_Edge.thy ===== *)
theory PLC_Edge
  imports PLC_SimpleIns
begin

text \<open>
  Edge detection of \<open>plc_simpleins.c\<close>: the four routines \<open>run_eu_ins\<close>, \<open>run_ed_ins\<close>,
  \<open>run_eu_p_ins\<close> and \<open>run_ed_f_ins\<close> meet one contract, the locale \<open>edge_unit\<close>, from which their
  behaviour over a sequence of scans follows once.  Power-flow bits are described by \<open>bit_put_flow\<close>.
\<close>

section \<open>The memory of an edge\<close>

text \<open>What edge \<open>n\<close> remembers: the first-scan flag and the last sample.\<close>

definition edge_view :: "plc_state \<Rightarrow> u16 \<Rightarrow> (bool \<times> bool) option" where
  "edge_view s n =
     (if unat n div 16 < length (gtp_EuEd s)
      then Some (bit (msv_IsInit (gtp_EuEd s ! (unat n div 16))) (unat n mod 16),
                 bit (msv_Value (gtp_EuEd s ! (unat n div 16))) (unat n mod 16))
      else None)"

lemma edge_bit_test: "w AND push_bit (unat (n AND 0x0F :: u16)) 1 \<noteq> 0 \<longleftrightarrow> bit (w :: u16) (unat n mod 16)"
  by (simp only: unat_and_15 bit_iff_and_push_bit_not_eq_0)

lemma edge_index: "unat n div 16 = unat m div 16 \<Longrightarrow> unat n mod 16 = unat m mod 16 \<Longrightarrow> n = (m :: u16)"
  by (metis div_mult_mod_eq unat_inj)

lemma edge_read:
  assumes "edge_view s n = Some (i, v)"
  shows "GET_EDGE_INIT_FLAG s n = Some i" "GET_EDGE_VALUE s n = Some v"
  using assms unfolding GET_EDGE_INIT_FLAG_def GET_EDGE_VALUE_def edge_bit_test
  by (simp_all add: edge_view_def unat_drop_bit mem_simps del: unat_drop_bit_eq split: if_splits)

lemma edge_write:
  assumes "edge_view s n = Some (i, v)"
  shows "\<exists>s'. RST_EDGE_INIT_FLAG s n = Some s' \<and> edge_view s' n = Some (False, v) \<and>
           (\<forall>m. m \<noteq> n \<longrightarrow> edge_view s' m = edge_view s m) \<and> edges_only s s'"
    and "\<exists>s'. PUT_EDGE_VALUE s n b = Some s' \<and> edge_view s' n = Some (i, b) \<and>
           (\<forall>m. m \<noteq> n \<longrightarrow> edge_view s' m = edge_view s m) \<and> edges_only s s'"
proof -
  let ?p = "unat n div 16" and ?k = "unat n mod 16"
  have p: "?p < length (gtp_EuEd s)" and iv: "i = bit (msv_IsInit (gtp_EuEd s ! ?p)) ?k" "v = bit (msv_Value (gtp_EuEd s ! ?p)) ?k"
    using assms by (simp_all add: edge_view_def split: if_splits)
  let ?s = "\<lambda>d. s\<lparr>gtp_EuEd := (gtp_EuEd s)[?p := d]\<rparr>"
  have other: "edge_view (?s d) m = edge_view s m" if "m \<noteq> n"
    and d: "\<And>j. j \<noteq> ?k \<Longrightarrow> bit (msv_IsInit d) j = bit (msv_IsInit (gtp_EuEd s ! ?p)) j"
      "\<And>j. j \<noteq> ?k \<Longrightarrow> bit (msv_Value d) j = bit (msv_Value (gtp_EuEd s ! ?p)) j" for d m
    using edge_index [of m n] that(1) d [of "unat m mod 16"] p
    by (cases "unat m div 16 = ?p") (simp add: edge_view_def, blast, simp add: edge_view_def)
  have e: "edges_only s (?s d)" for d
    by (simp add: edges_only_def)
  show "\<exists>s'. RST_EDGE_INIT_FLAG s n = Some s' \<and> edge_view s' n = Some (False, v) \<and>
           (\<forall>m. m \<noteq> n \<longrightarrow> edge_view s' m = edge_view s m) \<and> edges_only s s'"
    unfolding RST_EDGE_INIT_FLAG_def Let_def unat_and_15 unat_drop_bit
    using p iv e by (auto simp: mem_simps other bit_bit_write) (simp_all add: edge_view_def bit_bit_write)
  show "\<exists>s'. PUT_EDGE_VALUE s n b = Some s' \<and> edge_view s' n = Some (i, b) \<and>
           (\<forall>m. m \<noteq> n \<longrightarrow> edge_view s' m = edge_view s m) \<and> edges_only s s'"
    unfolding PUT_EDGE_VALUE_def Let_def unat_and_15 unat_drop_bit
    using p iv e by (auto simp: mem_simps other bit_bit_write) (simp_all add: edge_view_def bit_bit_write)
qed

lemma GET_POWER_FLOW_bit: "GET_POWER_FLOW pf = bit pf 0"
  by (simp add: GET_POWER_FLOW_def and_one_eq odd_iff_mod_2_eq_one bit_0)

lemma bit_FFFFFFFE: "bit (0xFFFFFFFE :: u32) n \<longleftrightarrow> n \<noteq> 0 \<and> n < 32"
proof -
  have "(0xFFFFFFFE :: u32) = NOT 1"
    by simp
  then show ?thesis
    by (simp only: bit_not_iff bit_1_iff) auto
qed

lemma bit_put_flow: "bit (put_flow b pf) n \<longleftrightarrow> (if n = 0 then b else bit pf n)"
  using bit_imp_le_length [of pf n] unfolding put_flow_def SET_POWER_FLOW_def RST_POWER_FLOW_def
  by (cases b) (simp_all only: bit_or_iff bit_and_iff bit_FFFFFFFE bit_1_iff simp_thms if_True if_False, auto)

lemma put_flow_GET [simp]: "GET_POWER_FLOW (put_flow b pf) = b"
  by (simp only: GET_POWER_FLOW_bit bit_put_flow simp_thms if_True)

lemma RST_is_put: "RST_POWER_FLOW pf = put_flow False pf"
  by (simp add: put_flow_def)

lemma put_flow_put_flow [simp]: "put_flow a (put_flow b pf) = put_flow a pf"
  by (rule bit_word_eqI) (simp add: bit_put_flow)

text \<open>
  The contract of an edge unit: it samples \<open>b\<close>, answers with the edge between the last sample and
  this one, never on the first scan, remembers the sample, and leaves all other edges alone.
\<close>

locale edge_unit =
  fixes run :: "plc_state \<Rightarrow> si_env \<Rightarrow> bool \<Rightarrow> (plc_state \<times> si_env) option"
    and det :: "bool \<Rightarrow> bool \<Rightarrow> bool"
  assumes run_spec: "GET_PU16_DATA (ucode s) (mcp_PC e) = Some n \<Longrightarrow> edge_view s n = Some (i, v) \<Longrightarrow>
    \<exists>s'. run s e b = Some (s', e\<lparr>mlv_InPF := put_flow (\<not> i \<and> det v b) (mlv_InPF e)\<rparr>) \<and>
      edge_view s' n = Some (False, b) \<and> (\<forall>m. m \<noteq> n \<longrightarrow> edge_view s' m = edge_view s m) \<and> edges_only s s'"

text \<open>One run of the unit per scan, with the given samples; the outputs of the scans.\<close>

fun edge_scans :: "(plc_state \<Rightarrow> si_env \<Rightarrow> bool \<Rightarrow> (plc_state \<times> si_env) option) \<Rightarrow> plc_state \<Rightarrow> si_env \<Rightarrow>
    bool list \<Rightarrow> (bool list \<times> plc_state) option" where
  "edge_scans run s e [] = Some ([], s)"
| "edge_scans run s e (b # bs) =
     do { (s', e') \<leftarrow> run s e b;
          (os, s'') \<leftarrow> edge_scans run s' e bs;
          Some (GET_POWER_FLOW (mlv_InPF e') # os, s'') }"

context edge_unit
begin

lemma scans:
  "GET_PU16_DATA (ucode s) (mcp_PC e) = Some n \<Longrightarrow> edge_view s n = Some (i, v) \<Longrightarrow>
   \<exists>os s'. edge_scans run s e bs = Some (os, s') \<and> length os = length bs \<and>
     (\<forall>k < length bs. os ! k \<longleftrightarrow> \<not> (i \<and> k = 0) \<and> det ((v # bs) ! k) (bs ! k)) \<and>
     (\<forall>m. m \<noteq> n \<longrightarrow> edge_view s' m = edge_view s m) \<and> edges_only s s'"
proof (induction bs arbitrary: s i v)
  case Nil
  then show ?case
    by (simp add: edges_only_def)
next
  case (Cons b bs)
  obtain s1 where s1: "run s e b = Some (s1, e\<lparr>mlv_InPF := put_flow (\<not> i \<and> det v b) (mlv_InPF e)\<rparr>)"
    "edge_view s1 n = Some (False, b)" "\<forall>m. m \<noteq> n \<longrightarrow> edge_view s1 m = edge_view s m" "edges_only s s1"
    using run_spec [OF Cons.prems] by blast
  have "GET_PU16_DATA (ucode s1) (mcp_PC e) = Some n"
    using Cons.prems(1) by (simp add: edges_only_eq [OF s1(4)])
  from Cons.IH [OF this s1(2)] obtain os s' where o: "edge_scans run s1 e bs = Some (os, s')" "length os = length bs"
    "\<forall>k < length bs. os ! k \<longleftrightarrow> det ((b # bs) ! k) (bs ! k)"
    "\<forall>m. m \<noteq> n \<longrightarrow> edge_view s' m = edge_view s1 m" "edges_only s1 s'"
    by auto
  have "\<forall>k < length (b # bs). ((\<not> i \<and> det v b) # os) ! k \<longleftrightarrow> \<not> (i \<and> k = 0) \<and> det ((v # b # bs) ! k) ((b # bs) ! k)"
    using o(3) by (auto simp: less_Suc_eq_0_disj)
  then show ?case
    using s1(1,3) o(1,2,4) edges_only_trans [OF s1(4) o(5)] by simp
qed

end

lemma edge_run_parts:
  assumes "edge_view s n = Some (i, v)"
  obtains s1 s2 s3 where "RST_EDGE_INIT_FLAG s n = Some s1" "PUT_EDGE_VALUE s1 n b = Some s2" "PUT_EDGE_VALUE s n b = Some s3"
    "edge_view s2 n = Some (False, b)" "\<forall>m. m \<noteq> n \<longrightarrow> edge_view s2 m = edge_view s m" "edges_only s s2"
    "edge_view s3 n = Some (i, b)" "\<forall>m. m \<noteq> n \<longrightarrow> edge_view s3 m = edge_view s m" "edges_only s s3"
proof -
  obtain s1 where s1: "RST_EDGE_INIT_FLAG s n = Some s1" "edge_view s1 n = Some (False, v)"
    "\<forall>m. m \<noteq> n \<longrightarrow> edge_view s1 m = edge_view s m" "edges_only s s1"
    using edge_write(1) [OF assms] by blast
  obtain s2 where s2: "PUT_EDGE_VALUE s1 n b = Some s2" "edge_view s2 n = Some (False, b)"
    "\<forall>m. m \<noteq> n \<longrightarrow> edge_view s2 m = edge_view s1 m" "edges_only s1 s2"
    using edge_write(2) [OF s1(2), of b] by blast
  obtain s3 where s3: "PUT_EDGE_VALUE s n b = Some s3" "edge_view s3 n = Some (i, b)"
    "\<forall>m. m \<noteq> n \<longrightarrow> edge_view s3 m = edge_view s m" "edges_only s s3"
    using edge_write(2) [OF assms, of b] by blast
  show ?thesis
    using that [of s1 s2 s3] s1 s2 s3 edges_only_trans [OF s1(4) s2(4)] by simp
qed

text \<open>The four routines as edge units: the first two sample the power flow, the others an element.\<close>

definition eu_flow :: "plc_state \<Rightarrow> si_env \<Rightarrow> bool \<Rightarrow> (plc_state \<times> si_env) option" where
  "eu_flow s e b = run_eu_ins s (e\<lparr>mlv_InPF := put_flow b (mlv_InPF e)\<rparr>)"

definition ed_flow :: "plc_state \<Rightarrow> si_env \<Rightarrow> bool \<Rightarrow> (plc_state \<times> si_env) option" where
  "ed_flow s e b = run_ed_ins s (e\<lparr>mlv_InPF := put_flow b (mlv_InPF e)\<rparr>)"

definition eu_elem :: "plc_state \<Rightarrow> si_env \<Rightarrow> bool \<Rightarrow> (plc_state \<times> si_env) option" where
  "eu_elem s e b = run_eu_p_ins s e (if b then 1 else 0)"

definition ed_elem :: "plc_state \<Rightarrow> si_env \<Rightarrow> bool \<Rightarrow> (plc_state \<times> si_env) option" where
  "ed_elem s e b = run_ed_f_ins s e (if b then 1 else 0)"

lemma edge_unit_runs:
  assumes n: "GET_PU16_DATA (ucode s) (mcp_PC e) = Some n" and view: "edge_view s n = Some (i, v)"
  shows "\<exists>s'. eu_flow s e b = Some (s', e\<lparr>mlv_InPF := put_flow (\<not> i \<and> \<not> v \<and> b) (mlv_InPF e)\<rparr>) \<and>
      edge_view s' n = Some (False, b) \<and> (\<forall>m. m \<noteq> n \<longrightarrow> edge_view s' m = edge_view s m) \<and> edges_only s s'"
    and "\<exists>s'. ed_flow s e b = Some (s', e\<lparr>mlv_InPF := put_flow (\<not> i \<and> v \<and> \<not> b) (mlv_InPF e)\<rparr>) \<and>
      edge_view s' n = Some (False, b) \<and> (\<forall>m. m \<noteq> n \<longrightarrow> edge_view s' m = edge_view s m) \<and> edges_only s s'"
    and "\<exists>s'. eu_elem s e b = Some (s', e\<lparr>mlv_InPF := put_flow (\<not> i \<and> \<not> v \<and> b) (mlv_InPF e)\<rparr>) \<and>
      edge_view s' n = Some (False, b) \<and> (\<forall>m. m \<noteq> n \<longrightarrow> edge_view s' m = edge_view s m) \<and> edges_only s s'"
    and "\<exists>s'. ed_elem s e b = Some (s', e\<lparr>mlv_InPF := put_flow (\<not> i \<and> v \<and> \<not> b) (mlv_InPF e)\<rparr>) \<and>
      edge_view s' n = Some (False, b) \<and> (\<forall>m. m \<noteq> n \<longrightarrow> edge_view s' m = edge_view s m) \<and> edges_only s s'"
proof -
  obtain s1 s2 s3 where r: "RST_EDGE_INIT_FLAG s n = Some s1" "PUT_EDGE_VALUE s1 n b = Some s2" "PUT_EDGE_VALUE s n b = Some s3"
    "edge_view s2 n = Some (False, b)" "\<forall>m. m \<noteq> n \<longrightarrow> edge_view s2 m = edge_view s m" "edges_only s s2"
    "edge_view s3 n = Some (i, b)" "\<forall>m. m \<noteq> n \<longrightarrow> edge_view s3 m = edge_view s m" "edges_only s s3"
    using edge_run_parts [OF view] .
  note facts = r n edge_read [OF view] RST_is_put Let_def
  show "\<exists>s'. eu_flow s e b = Some (s', e\<lparr>mlv_InPF := put_flow (\<not> i \<and> \<not> v \<and> b) (mlv_InPF e)\<rparr>) \<and>
      edge_view s' n = Some (False, b) \<and> (\<forall>m. m \<noteq> n \<longrightarrow> edge_view s' m = edge_view s m) \<and> edges_only s s'"
    using r by (cases i; cases b) (simp_all add: eu_flow_def run_eu_ins_def facts)
  show "\<exists>s'. ed_flow s e b = Some (s', e\<lparr>mlv_InPF := put_flow (\<not> i \<and> v \<and> \<not> b) (mlv_InPF e)\<rparr>) \<and>
      edge_view s' n = Some (False, b) \<and> (\<forall>m. m \<noteq> n \<longrightarrow> edge_view s' m = edge_view s m) \<and> edges_only s s'"
    using r by (cases i; cases b) (simp_all add: ed_flow_def run_ed_ins_def facts)
  show "\<exists>s'. eu_elem s e b = Some (s', e\<lparr>mlv_InPF := put_flow (\<not> i \<and> \<not> v \<and> b) (mlv_InPF e)\<rparr>) \<and>
      edge_view s' n = Some (False, b) \<and> (\<forall>m. m \<noteq> n \<longrightarrow> edge_view s' m = edge_view s m) \<and> edges_only s s'"
    using r by (cases i; cases b) (simp_all add: eu_elem_def run_eu_p_ins_def facts)
  show "\<exists>s'. ed_elem s e b = Some (s', e\<lparr>mlv_InPF := put_flow (\<not> i \<and> v \<and> \<not> b) (mlv_InPF e)\<rparr>) \<and>
      edge_view s' n = Some (False, b) \<and> (\<forall>m. m \<noteq> n \<longrightarrow> edge_view s' m = edge_view s m) \<and> edges_only s s'"
    using r by (cases i; cases b) (simp_all add: ed_elem_def run_ed_f_ins_def facts)
qed

interpretation eu_f: edge_unit eu_flow "\<lambda>v b. \<not> v \<and> b"
  by unfold_locales (rule edge_unit_runs)

interpretation ed_f: edge_unit ed_flow "\<lambda>v b. v \<and> \<not> b"
  by unfold_locales (rule edge_unit_runs)

interpretation eu_e: edge_unit eu_elem "\<lambda>v b. \<not> v \<and> b"
  by unfold_locales (rule edge_unit_runs)

interpretation ed_e: edge_unit ed_elem "\<lambda>v b. v \<and> \<not> b"
  by unfold_locales (rule edge_unit_runs)

section \<open>Properties\<close>

text \<open>C16. A rising-edge instruction, run once per scan, answers in scan \<open>k\<close> exactly when the sampled
  condition is on now and was off in the scan before, and never in the first scan; this holds for the
  edges of the power flow (\<open>run_eu_ins\<close>) and of an element (\<open>run_eu_p_ins\<close>), and no other edge's memory
  is disturbed.\<close>
theorem rising_edge_scans:
  assumes "GET_PU16_DATA (ucode s) (mcp_PC e) = Some n" and "edge_view s n = Some (True, v)" and "run \<in> {eu_flow, eu_elem}"
  shows "\<exists>os s'. edge_scans run s e bs = Some (os, s') \<and> length os = length bs \<and>
     (\<forall>k < length bs. os ! k \<longleftrightarrow> 0 < k \<and> bs ! k \<and> \<not> bs ! (k - 1)) \<and>
     (\<forall>m. m \<noteq> n \<longrightarrow> edge_view s' m = edge_view s m) \<and> edges_only s s'"
proof -
  from assms(3) obtain os s' where o: "edge_scans run s e bs = Some (os, s')" "length os = length bs"
    "\<forall>k < length bs. os ! k \<longleftrightarrow> \<not> (True \<and> k = 0) \<and> \<not> (v # bs) ! k \<and> bs ! k"
    "\<forall>m. m \<noteq> n \<longrightarrow> edge_view s' m = edge_view s m" "edges_only s s'"
    using eu_f.scans [OF assms(1,2), of bs] eu_e.scans [OF assms(1,2), of bs] by blast
  from o(3) have "\<forall>k < length bs. os ! k \<longleftrightarrow> 0 < k \<and> bs ! k \<and> \<not> bs ! (k - 1)"
    by (auto simp: nth_Cons')
  then show ?thesis
    using o by blast
qed

text \<open>A state in which edge 3, the operand at address 10 of the program, is in its first scan.\<close>

definition demo_edges :: plc_state where
  "demo_edges = (boot_state demo)\<lparr>gtp_EuEd := [\<lparr>msv_IsInit = 0xFFFF, msv_Value = 0\<rparr>]\<rparr>"

lemma demo_edges_ok:
  "GET_PU16_DATA (ucode demo_edges) (mcp_PC (env0\<lparr>mcp_PC := 10\<rparr>)) = Some 3" "edge_view demo_edges 3 = Some (True, False)"
  by (simp_all add: demo_edges_def demo_code edge_view_def)

lemma four: "length os = 4 \<Longrightarrow> os = [os ! 0, os ! 1, os ! 2, os ! 3]"
  by (cases os rule: list.exhaust) (auto simp: length_Suc_conv numeral_eq_Suc)

theorem rising_edge_scans_witness:
  "\<exists>os s'. edge_scans eu_flow demo_edges (env0\<lparr>mcp_PC := 10\<rparr>) [True, False, True, True] = Some (os, s') \<and>
     os = [False, False, True, False]"
proof -
  let ?bs = "[True, False, True, True]"
  obtain os s' where o: "edge_scans eu_flow demo_edges (env0\<lparr>mcp_PC := 10\<rparr>) ?bs = Some (os, s')"
    "length os = length ?bs" "\<forall>k < length ?bs. os ! k \<longleftrightarrow> 0 < k \<and> ?bs ! k \<and> \<not> ?bs ! (k - 1)"
    using rising_edge_scans [OF demo_edges_ok, of eu_flow ?bs] by blast
  have "os = [os ! 0, os ! 1, os ! 2, os ! 3]"
    using o(2) by (intro four) simp
  then have "os = [False, False, True, False]"
    using o(3) [rule_format, of 0] o(3) [rule_format, of 1] o(3) [rule_format, of 2] o(3) [rule_format, of 3] by simp
  then show ?thesis
    using o(1) by blast
qed

text \<open>A falling-edge instruction, run once per scan, answers in scan \<open>k\<close> exactly when the sampled
  condition is off now and was on in the scan before, and never in the first scan (\<open>run_ed_ins\<close> for the
  power flow, \<open>run_ed_f_ins\<close> for an element).\<close>
theorem falling_edge_scans:
  assumes "GET_PU16_DATA (ucode s) (mcp_PC e) = Some n" and "edge_view s n = Some (True, v)" and "run \<in> {ed_flow, ed_elem}"
  shows "\<exists>os s'. edge_scans run s e bs = Some (os, s') \<and> length os = length bs \<and>
     (\<forall>k < length bs. os ! k \<longleftrightarrow> 0 < k \<and> \<not> bs ! k \<and> bs ! (k - 1)) \<and>
     (\<forall>m. m \<noteq> n \<longrightarrow> edge_view s' m = edge_view s m) \<and> edges_only s s'"
proof -
  from assms(3) obtain os s' where o: "edge_scans run s e bs = Some (os, s')" "length os = length bs"
    "\<forall>k < length bs. os ! k \<longleftrightarrow> \<not> (True \<and> k = 0) \<and> (v # bs) ! k \<and> \<not> bs ! k"
    "\<forall>m. m \<noteq> n \<longrightarrow> edge_view s' m = edge_view s m" "edges_only s s'"
    using ed_f.scans [OF assms(1,2), of bs] ed_e.scans [OF assms(1,2), of bs] by blast
  from o(3) have "\<forall>k < length bs. os ! k \<longleftrightarrow> 0 < k \<and> \<not> bs ! k \<and> bs ! (k - 1)"
    by (auto simp: nth_Cons')
  then show ?thesis
    using o by blast
qed

theorem falling_edge_scans_witness:
  "\<exists>os s'. edge_scans ed_elem demo_edges (env0\<lparr>mcp_PC := 10\<rparr>) [True, False, True, True] = Some (os, s') \<and>
     os = [False, True, False, False]"
proof -
  let ?bs = "[True, False, True, True]"
  obtain os s' where o: "edge_scans ed_elem demo_edges (env0\<lparr>mcp_PC := 10\<rparr>) ?bs = Some (os, s')"
    "length os = length ?bs" "\<forall>k < length ?bs. os ! k \<longleftrightarrow> 0 < k \<and> \<not> ?bs ! k \<and> ?bs ! (k - 1)"
    using falling_edge_scans [OF demo_edges_ok, of ed_elem ?bs] by blast
  have "os = [os ! 0, os ! 1, os ! 2, os ! 3]"
    using o(2) by (intro four) simp
  then have "os = [False, True, False, False]"
    using o(3) [rule_format, of 0] o(3) [rule_format, of 1] o(3) [rule_format, of 2] o(3) [rule_format, of 3] by simp
  then show ?thesis
    using o(1) by blast
qed

end
