(* ===== verification/PLC_Ladder.thy ===== *)
theory PLC_Ladder
  imports PLC_Edge
begin

text \<open>
  Ladder diagrams as a specification of the simple-instruction interpreter.  A network of series and
  parallel contacts has a meaning (\<open>net_on\<close>) and an instruction list (\<open>net_code\<close>: LD, LDI, AND, ANI,
  OR, ORI, ANB, ORB with the encodings of \<open>plc_instruction.h\<close>); a rung drives a coil with a network.
  The power-flow word \<open>llv_InPF\<close> is described as a stack of bits (\<open>pushed\<close>), and the interpreter is shown
  to compute the meaning of every ladder whose networks need at most 32 of them.
\<close>

section \<open>Networks and their instruction lists\<close>

datatype contact = Contact (negated: bool) (arg: si_arg) (near_byte: u8) (far_word: u16)

datatype net = Load contact | Series net contact | Parallel net contact | SeriesBlock net net | ParallelBlock net net

fun element_no :: "contact \<Rightarrow> u16" where
  "element_no (Contact neg (Far a) b w) = push_bit 4 w + ucast b"
| "element_no (Contact neg x b w) = ucast b"

definition contact_on :: "plc_state \<Rightarrow> contact \<Rightarrow> bool option" where
  "contact_on s c = map_option (\<lambda>v. (v \<noteq> 0) \<noteq> negated c) (get_bsel (si_bank s (arg c)) s (element_no c))"

primrec net_on :: "plc_state \<Rightarrow> net \<Rightarrow> bool option" where
  "net_on s (Load c) = contact_on s c"
| "net_on s (Series n c) = do { a \<leftarrow> net_on s n; b \<leftarrow> contact_on s c; Some (a \<and> b) }"
| "net_on s (Parallel n c) = do { a \<leftarrow> net_on s n; b \<leftarrow> contact_on s c; Some (a \<or> b) }"
| "net_on s (SeriesBlock n m) = do { a \<leftarrow> net_on s n; b \<leftarrow> net_on s m; Some (a \<and> b) }"
| "net_on s (ParallelBlock n m) = do { a \<leftarrow> net_on s n; b \<leftarrow> net_on s m; Some (a \<or> b) }"

text \<open>The number of power-flow bits a network needs.\<close>

primrec net_depth :: "net \<Rightarrow> nat" where
  "net_depth (Load c) = 1"
| "net_depth (Series n c) = net_depth n"
| "net_depth (Parallel n c) = net_depth n"
| "net_depth (SeriesBlock n m) = max (net_depth n) (Suc (net_depth m))"
| "net_depth (ParallelBlock n m) = max (net_depth n) (Suc (net_depth m))"

primrec area_no :: "bit_area \<Rightarrow> u8" where
  "area_no X_ELEMENT = 0" | "area_no Y_ELEMENT = 1" | "area_no C_ELEMENT = 2" | "area_no T_ELEMENT = 3"
| "area_no SM_ELEMENT = 4" | "area_no M_ELEMENT = 5" | "area_no S_ELEMENT = 6"

primrec arg_no :: "si_arg \<Rightarrow> u8" where
  "arg_no (Near a) = area_no a"
| "arg_no NearLM = 7"
| "arg_no (Far a) = area_no a + 8"

fun contact_code :: "u8 \<Rightarrow> contact \<Rightarrow> u8 list" where
  "contact_code h (Contact neg x b w) =
     [b, push_bit 4 (h + (if neg then 1 else 0)) OR arg_no x] @
     (case x of Far a \<Rightarrow> [ucast w, ucast (drop_bit 8 w)] | _ \<Rightarrow> [])"

primrec net_code :: "net \<Rightarrow> u8 list" where
  "net_code (Load c) = contact_code 0x1 c"
| "net_code (Series n c) = net_code n @ contact_code 0x3 c"
| "net_code (Parallel n c) = net_code n @ contact_code 0x5 c"
| "net_code (SeriesBlock n m) = net_code n @ net_code m @ [0x00, 0xA1]"
| "net_code (ParallelBlock n m) = net_code n @ net_code m @ [0x00, 0xA2]"

lemma decode_contact:
  "decode_si (push_bit 4 0x1 OR arg_no x) = Some (SI_LD x)" "decode_si (push_bit 4 0x2 OR arg_no x) = Some (SI_LDI x)"
  "decode_si (push_bit 4 0x3 OR arg_no x) = Some (SI_AND x)" "decode_si (push_bit 4 0x4 OR arg_no x) = Some (SI_ANI x)"
  "decode_si (push_bit 4 0x5 OR arg_no x) = Some (SI_OR x)" "decode_si (push_bit 4 0x6 OR arg_no x) = Some (SI_ORI x)"
proof -
  have all: "list_all (\<lambda>x. decode_si (push_bit 4 0x1 OR arg_no x) = Some (SI_LD x) \<and>
      decode_si (push_bit 4 0x2 OR arg_no x) = Some (SI_LDI x) \<and> decode_si (push_bit 4 0x3 OR arg_no x) = Some (SI_AND x) \<and>
      decode_si (push_bit 4 0x4 OR arg_no x) = Some (SI_ANI x) \<and> decode_si (push_bit 4 0x5 OR arg_no x) = Some (SI_OR x) \<and>
      decode_si (push_bit 4 0x6 OR arg_no x) = Some (SI_ORI x)) si_contacts"
    by code_simp
  have "a \<in> set [X_ELEMENT, Y_ELEMENT, C_ELEMENT, T_ELEMENT, SM_ELEMENT, M_ELEMENT, S_ELEMENT]" for a
    by (cases a) simp_all
  then have "x \<in> set si_contacts"
    by (cases x) (auto simp: si_contacts_def)
  with all show "decode_si (push_bit 4 0x1 OR arg_no x) = Some (SI_LD x)" "decode_si (push_bit 4 0x2 OR arg_no x) = Some (SI_LDI x)"
  "decode_si (push_bit 4 0x3 OR arg_no x) = Some (SI_AND x)" "decode_si (push_bit 4 0x4 OR arg_no x) = Some (SI_ANI x)"
  "decode_si (push_bit 4 0x5 OR arg_no x) = Some (SI_OR x)" "decode_si (push_bit 4 0x6 OR arg_no x) = Some (SI_ORI x)"
    unfolding list_all_iff by blast+
qed

section \<open>Running an instruction list\<close>

lemma decode_si_simple:
  assumes "decode_si c = Some i"
  shows "bytes_u16 b c < 0xE000"
proof -
  have "drop_bit 4 c \<in> {0x1, 0x2, 0x3, 0x4, 0x5, 0x6, 0x7, 0x8, 0x9, 0xA, 0xB}"
    using assms by (auto simp: decode_si_def Let_def split: if_splits)
  then have "unat (drop_bit 4 c) \<le> 11"
    by auto
  then have "unat c < 192"
    unfolding unat_drop_bit by simp
  then have "unat b + 256 * unat c < 57344"
    using unat_lt_8 [of b] by linarith
  then show ?thesis
    by (simp add: word_less_nat_alt unat_bytes_u16)
qed

lemma code_at:
  assumes "m = pre @ x # y # rest"
  shows "GET_PU8_DATA m (length pre) = Some x" "GET_PU8_DATA m (length pre + 1) = Some y"
    "GET_PU16_DATA m (length pre) = Some (bytes_u16 x y)"
  using assms by (simp_all add: GET_PU8_DATA_def GET_PU16_DATA_def rd_def nth_append)

lemma loop_step:
  assumes "ucode s = pre @ b # c # rest" and "mcp_PC e = length pre" and "decode_si c = Some i"
    and "exec_si i (s\<lparr>gcp_BackupUserPc := length pre\<rparr>) e cv = Some (s', e', cv')"
  shows "exec_simple_loop s e cv = exec_simple_loop s' e' cv'"
  using code_at [OF assms(1)] decode_si_simple [OF assms(3), of b] assms(2-4)
  by (subst exec_simple_loop.simps) simp

lemma bytes_u16_split [simp]: "bytes_u16 (ucast w) (ucast (drop_bit 8 w)) = w"
  by (rule bit_word_eqI) (auto simp: bit_bytes_u16 bit_simps)

lemma contact_index:
  assumes "ucode s = pre @ contact_code h c @ rest"
  shows "si_index s (length pre) (arg c) = Some (element_no c)"
proof (cases c)
  case (Contact neg x b w)
  then obtain y ext where m: "ucode s = pre @ b # y # ext @ rest" and ext: "ext = (case x of Far a \<Rightarrow> [ucast w, ucast (drop_bit 8 w)] | _ \<Rightarrow> [])"
    using assms by simp
  note r = code_at [OF m]
  show ?thesis
  proof (cases x)
    case (Far a)
    then have "ucode s = (pre @ [b, y]) @ ucast w # ucast (drop_bit 8 w) # rest"
      using m ext by simp
    from code_at(3) [OF this] r show ?thesis
      by (simp add: Contact Far si_far_def)
  qed (simp_all add: Contact si_near_def r)
qed

lemma contact_code_length: "length (contact_code h c) = si_len (arg c)"
  by (cases c; cases "arg c") simp_all

lemma contact_code_shape:
  obtains rest where "contact_code h c = near_byte c # (push_bit 4 (h + (if negated c then 1 else 0)) OR arg_no (arg c)) # rest"
  by (cases c) simp

text \<open>Only the backup PC has moved.\<close>

definition backup_only :: "plc_state \<Rightarrow> plc_state \<Rightarrow> bool" where
  "backup_only s s' \<longleftrightarrow> (\<exists>a. s' = s\<lparr>gcp_BackupUserPc := a\<rparr>)"

lemma backup_only_refl [simp]: "backup_only s s"
  unfolding backup_only_def by (rule exI [of _ "gcp_BackupUserPc s"]) simp

lemma backup_only_trans: "backup_only a b \<Longrightarrow> backup_only b c \<Longrightarrow> backup_only a c"
  by (auto simp: backup_only_def)

lemma get_bsel_backup [simp]: "get_bsel b (s\<lparr>gcp_BackupUserPc := a\<rparr>) i = get_bsel b s i"
  by (cases b) (simp_all add: get_bit_elem_def get_lm_elem_def)

lemma contact_on_backup: "contact_on (s\<lparr>gcp_BackupUserPc := a\<rparr>) c = contact_on s c"
proof -
  have "si_bank (s\<lparr>gcp_BackupUserPc := a\<rparr>) x = si_bank s x" for x
    by (cases x) simp_all
  then show ?thesis
    by (simp only: contact_on_def get_bsel_backup)
qed

lemma net_on_backup: "backup_only s s' \<Longrightarrow> net_on s' n = net_on s n"
  by (induction n) (auto simp: backup_only_def contact_on_backup)

lemma contact_read:
  assumes "ucode s = pre @ contact_code h c @ rest" and "contact_on s c = Some v"
  shows "\<exists>u. si_read (s\<lparr>gcp_BackupUserPc := a\<rparr>) (length pre) (arg c) = Some u \<and> v = ((u \<noteq> 0) \<noteq> negated c)"
proof -
  have "ucode (s\<lparr>gcp_BackupUserPc := a\<rparr>) = pre @ contact_code h c @ rest"
    using assms(1) by simp
  from contact_index [OF this] assms(2) contact_on_backup [of a s c] show ?thesis
    by (auto simp: si_read_def contact_on_def)
qed

section \<open>The power-flow word as a stack of bits\<close>

text \<open>\<open>pf'\<close> has \<open>v\<close> on top of the lowest \<open>32 - d\<close> bits of \<open>pf\<close>: the stack was pushed once, and \<open>d\<close>
  bits at the far end may be lost.\<close>

definition pushed :: "nat \<Rightarrow> u32 \<Rightarrow> bool \<Rightarrow> u32 \<Rightarrow> bool" where
  "pushed d pf v pf' \<longleftrightarrow> bit pf' 0 = v \<and> (\<forall>k. k + d < 32 \<longrightarrow> bit pf' (Suc k) = bit pf k)"

lemma pushed_load: "pushed 1 pf v (put_flow v (push_bit 1 pf))"
  unfolding pushed_def bit_put_flow bit_push_bit_1 by simp

lemma pushed_top: "pushed d pf v pf' \<Longrightarrow> pushed d pf w (put_flow w pf')"
  unfolding pushed_def bit_put_flow by simp

lemma pushed_flow: "pushed d pf v pf' \<Longrightarrow> GET_POWER_FLOW pf' = v"
  by (simp add: pushed_def GET_POWER_FLOW_bit)

lemma put_flow_id: "GET_POWER_FLOW pf = v \<Longrightarrow> put_flow v pf = pf"
  by (rule bit_word_eqI) (auto simp: GET_POWER_FLOW_bit bit_put_flow)

lemma bit_3: "bit (0x03 :: u32) n \<longleftrightarrow> n = 0 \<or> n = 1"
proof -
  have "(0x03 :: u32) = mask 2"
    by (simp add: mask_eq_exp_minus_1)
  then show ?thesis
    by (simp only: bit_mask_iff) auto
qed

lemma bit_FFFFFFFC: "bit (0xFFFFFFFC :: u32) n \<longleftrightarrow> n < 32 \<and> n \<noteq> 0 \<and> n \<noteq> 1"
proof -
  have "(0xFFFFFFFC :: u32) = NOT 3"
    by simp
  then show ?thesis
    by (simp only: bit_not_iff bit_3) auto
qed

lemma and_3:
  fixes pf :: u32
  shows "pf AND 0x03 = 0x03 \<longleftrightarrow> bit pf 0 \<and> bit pf 1" "pf AND 0x03 = 0x00 \<longleftrightarrow> \<not> bit pf 0 \<and> \<not> bit pf 1"
proof -
  have low: "bit (pf AND 0x03) n \<longleftrightarrow> bit pf n \<and> (n = 0 \<or> n = 1)" for n
    by (simp only: bit_and_iff bit_3)
  show "pf AND 0x03 = 0x03 \<longleftrightarrow> bit pf 0 \<and> bit pf 1"
  proof
    show "bit pf 0 \<and> bit pf 1" if "pf AND 0x03 = 0x03"
      using low [of 0] low [of 1] bit_3 [of 0] bit_3 [of 1] unfolding that by blast
    show "pf AND 0x03 = 0x03" if "bit pf 0 \<and> bit pf 1"
      using that by (intro bit_word_eqI) (auto simp only: low bit_3)
  qed
  show "pf AND 0x03 = 0x00 \<longleftrightarrow> \<not> bit pf 0 \<and> \<not> bit pf 1"
  proof
    show "\<not> bit pf 0 \<and> \<not> bit pf 1" if "pf AND 0x03 = 0x00"
      using low [of 0] low [of 1] unfolding that by simp
    show "pf AND 0x03 = 0x00" if "\<not> bit pf 0 \<and> \<not> bit pf 1"
      using that by (intro bit_word_eqI) (auto simp only: low bit_0_eq)
  qed
qed

lemma bit_si_anb: "bit (mlv_InPF (si_anb e)) n \<longleftrightarrow>
    (if n = 0 then bit (mlv_InPF e) 0 \<and> bit (mlv_InPF e) 1 else bit (mlv_InPF e) (Suc n))"
proof -
  have "bit (mlv_InPF e AND 0xFFFFFFFC) (Suc n) \<longleftrightarrow> bit (mlv_InPF e) (Suc n) \<and> n \<noteq> 0"
    unfolding bit_and_iff bit_FFFFFFFC using bit_imp_le_length [of "mlv_InPF e" "Suc n"] by auto
  then show ?thesis
    by (auto simp: si_anb_def Let_def and_3 bit_drop_bit_eq)
qed

lemma bit_si_orb: "bit (mlv_InPF (si_orb e)) n \<longleftrightarrow>
    (if n = 0 then bit (mlv_InPF e) 0 \<or> bit (mlv_InPF e) 1 else bit (mlv_InPF e) (Suc n))"
proof -
  have "bit (mlv_InPF e OR 0x02) (Suc n) \<longleftrightarrow> bit (mlv_InPF e) (Suc n) \<or> n = 0"
    using bit_or_exp [of "mlv_InPF e" 1 "Suc n"] by simp
  then show ?thesis
    by (auto simp: si_orb_def Let_def and_3 bit_drop_bit_eq)
qed

lemma pushed_anb:
  assumes "pushed d pf a pf1" and "pushed d' pf1 b (mlv_InPF e)" and "d' < 32"
  shows "pushed (max d (Suc d')) pf (a \<and> b) (mlv_InPF (si_anb e))"
  using assms unfolding pushed_def bit_si_anb by auto

lemma pushed_orb:
  assumes "pushed d pf a pf1" and "pushed d' pf1 b (mlv_InPF e)" and "d' < 32"
  shows "pushed (max d (Suc d')) pf (a \<or> b) (mlv_InPF (si_orb e))"
  using assms unfolding pushed_def bit_si_orb by auto

section \<open>Contacts, blocks and networks\<close>

lemma contact_step:
  assumes "contact_on s c = Some v" and "ucode s = pre @ contact_code h c @ rest" and "mcp_PC e = length pre"
    and "decode_si (push_bit 4 (h + (if negated c then 1 else 0)) OR arg_no (arg c)) = Some i"
    and "\<And>t u. si_read t (length pre) (arg c) = Some u \<Longrightarrow> v = ((u \<noteq> 0) \<noteq> negated c) \<Longrightarrow>
      exec_si i t e cv = Some (t, si_next (si_len (arg c)) pf e, cv)"
  shows "exec_simple_loop s e cv =
    exec_simple_loop (s\<lparr>gcp_BackupUserPc := length pre\<rparr>) (si_next (si_len (arg c)) pf e) cv"
proof -
  obtain u where u: "si_read (s\<lparr>gcp_BackupUserPc := length pre\<rparr>) (length pre) (arg c) = Some u" "v = ((u \<noteq> 0) \<noteq> negated c)"
    using contact_read [OF assms(2,1)] by blast
  obtain t where "contact_code h c = near_byte c # (push_bit 4 (h + (if negated c then 1 else 0)) OR arg_no (arg c)) # t"
    using contact_code_shape .
  then have m: "ucode s = pre @ near_byte c # (push_bit 4 (h + (if negated c then 1 else 0)) OR arg_no (arg c)) # (t @ rest)"
    using assms(2) by simp
  show ?thesis
    by (rule loop_step [OF m assms(3,4) assms(5) [OF u]])
qed

lemma load_runs:
  assumes "contact_on s c = Some v" and "ucode s = pre @ contact_code 0x1 c @ rest" and "mcp_PC e = length pre"
  shows "exec_simple_loop s e cv = exec_simple_loop (s\<lparr>gcp_BackupUserPc := length pre\<rparr>)
    (si_next (si_len (arg c)) (put_flow v (push_bit 1 (mlv_InPF e))) e) cv"
proof (cases "negated c")
  case True
  then show ?thesis
    using assms(3) decode_contact(2) [of "arg c"]
    by (intro contact_step [OF assms, of "SI_LDI (arg c)"]) (simp_all add: si_ldi_def)
next
  case False
  then show ?thesis
    using assms(3) decode_contact(1) [of "arg c"]
    by (intro contact_step [OF assms, of "SI_LD (arg c)"]) (simp_all add: si_ld_def)
qed

lemma put_flow_RST: "GET_POWER_FLOW pf \<Longrightarrow> put_flow v pf = (if v then pf else RST_POWER_FLOW pf)"
  using put_flow_id [of pf True] by (simp add: RST_is_put)

lemma put_flow_SET: "\<not> GET_POWER_FLOW pf \<Longrightarrow> put_flow v pf = (if v then SET_POWER_FLOW pf else pf)"
  using put_flow_id [of pf False] by (simp add: put_flow_def)

lemma series_runs:
  assumes "contact_on s c = Some v" and "ucode s = pre @ contact_code 0x3 c @ rest" and "mcp_PC e = length pre"
  shows "exec_simple_loop s e cv = exec_simple_loop (s\<lparr>gcp_BackupUserPc := length pre\<rparr>)
    (si_next (si_len (arg c)) (put_flow (GET_POWER_FLOW (mlv_InPF e) \<and> v) (mlv_InPF e)) e) cv"
proof (cases "negated c")
  case True
  then show ?thesis
    using assms(3) decode_contact(4) [of "arg c"]
    by (intro contact_step [OF assms, of "SI_ANI (arg c)"]) (simp_all add: si_ani_def put_flow_RST put_flow_id)
next
  case False
  then show ?thesis
    using assms(3) decode_contact(3) [of "arg c"]
    by (intro contact_step [OF assms, of "SI_AND (arg c)"]) (simp_all add: si_and_def put_flow_RST put_flow_id)
qed

lemma parallel_runs:
  assumes "contact_on s c = Some v" and "ucode s = pre @ contact_code 0x5 c @ rest" and "mcp_PC e = length pre"
  shows "exec_simple_loop s e cv = exec_simple_loop (s\<lparr>gcp_BackupUserPc := length pre\<rparr>)
    (si_next (si_len (arg c)) (put_flow (GET_POWER_FLOW (mlv_InPF e) \<or> v) (mlv_InPF e)) e) cv"
proof (cases "negated c")
  case True
  then show ?thesis
    using assms(3) decode_contact(6) [of "arg c"]
    by (intro contact_step [OF assms, of "SI_ORI (arg c)"]) (simp_all add: si_ori_def put_flow_SET put_flow_id)
next
  case False
  then show ?thesis
    using assms(3) decode_contact(5) [of "arg c"]
    by (intro contact_step [OF assms, of "SI_OR (arg c)"]) (simp_all add: si_or_def put_flow_SET put_flow_id)
qed

lemma decode_blocks: "decode_si 0xA1 = Some SI_ANB" "decode_si 0xA2 = Some SI_ORB"
  by code_simp+

lemma block_runs:
  assumes "ucode s = pre @ 0x00 # op # rest" and "mcp_PC e = length pre"
  shows "op = 0xA1 \<Longrightarrow> exec_simple_loop s e cv = exec_simple_loop (s\<lparr>gcp_BackupUserPc := length pre\<rparr>) (si_anb e) cv"
    and "op = 0xA2 \<Longrightarrow> exec_simple_loop s e cv = exec_simple_loop (s\<lparr>gcp_BackupUserPc := length pre\<rparr>) (si_orb e) cv"
  using loop_step [OF assms, of SI_ANB cv] loop_step [OF assms, of SI_ORB cv] decode_blocks by simp_all

text \<open>What a run of a network does to the environment.\<close>

definition net_run :: "plc_state \<Rightarrow> si_env \<Rightarrow> u8 option \<Rightarrow> nat \<Rightarrow> nat \<Rightarrow> bool \<Rightarrow> bool" where
  "net_run s e cv len d v \<longleftrightarrow>
     (\<exists>s' pf'. exec_simple_loop s e cv = exec_simple_loop s' (si_next len pf' e) cv \<and>
       backup_only s s' \<and> pushed d (mlv_InPF e) v pf')"

lemma si_next_next: "si_next m pf (si_next n pf' e) = si_next (n + m) pf e"
  by (simp add: si_next_def ac_simps)

lemma backup_only_set [simp]: "backup_only s (s\<lparr>gcp_BackupUserPc := a\<rparr>)"
  by (auto simp: backup_only_def)

lemma backup_only_ucode: "backup_only s s' \<Longrightarrow> ucode s' = ucode s"
  by (auto simp: backup_only_def)

lemma backup_only_contact: "backup_only s s' \<Longrightarrow> contact_on s' c = contact_on s c"
  by (auto simp: backup_only_def contact_on_backup)

text \<open>Appending a contact or a block to a run.\<close>

lemma net_run_contact:
  assumes run: "net_run s e cv len d v" and code: "ucode s = (pre @ n) @ contact_code h c @ rest"
    and pc: "mcp_PC e = length pre" "len = length n" and on: "contact_on s c = Some w"
    and step: "\<And>t e'. contact_on t c = Some w \<Longrightarrow> ucode t = (pre @ n) @ contact_code h c @ rest \<Longrightarrow>
      mcp_PC e' = length (pre @ n) \<Longrightarrow> exec_simple_loop t e' cv = exec_simple_loop (t\<lparr>gcp_BackupUserPc := length (pre @ n)\<rparr>)
        (si_next (si_len (arg c)) (put_flow (f (GET_POWER_FLOW (mlv_InPF e')) w) (mlv_InPF e')) e') cv"
  shows "net_run s e cv (len + length (contact_code h c)) d (f v w)"
proof -
  obtain s1 pf1 where s1: "exec_simple_loop s e cv = exec_simple_loop s1 (si_next len pf1 e) cv" "backup_only s s1"
    "pushed d (mlv_InPF e) v pf1"
    using run by (auto simp: net_run_def)
  have "exec_simple_loop s1 (si_next len pf1 e) cv = exec_simple_loop (s1\<lparr>gcp_BackupUserPc := length (pre @ n)\<rparr>)
      (si_next (len + si_len (arg c)) (put_flow (f v w) pf1) e) cv"
    using step [of s1 "si_next len pf1 e"] on code pc s1(2) pushed_flow [OF s1(3)]
    by (simp add: backup_only_ucode backup_only_contact si_next_next)
  then show ?thesis
    unfolding net_run_def contact_code_length using s1 pushed_top [OF s1(3)] backup_only_trans [OF s1(2) backup_only_set] by metis
qed

lemma si_block_next: "si_anb e = si_next 2 (mlv_InPF (si_anb e)) e" "si_orb e = si_next 2 (mlv_InPF (si_orb e)) e"
  by (simp_all add: si_anb_def si_orb_def Let_def)

lemma net_run_block:
  assumes run: "net_run s e cv la d v"
    and run': "\<And>t e'. backup_only s t \<Longrightarrow> mcp_PC e' = length (pre @ n) \<Longrightarrow> net_run t e' cv lb d' w"
    and code: "ucode s = (pre @ n @ m) @ 0x00 # op # rest" and pc: "mcp_PC e = length pre"
    and len: "la = length n" "lb = length m" and d': "d' < 32"
  shows "op = 0xA1 \<Longrightarrow> net_run s e cv (la + (lb + 2)) (max d (Suc d')) (v \<and> w)"
    and "op = 0xA2 \<Longrightarrow> net_run s e cv (la + (lb + 2)) (max d (Suc d')) (v \<or> w)"
proof -
  obtain s1 pf1 where s1: "exec_simple_loop s e cv = exec_simple_loop s1 (si_next la pf1 e) cv" "backup_only s s1"
    "pushed d (mlv_InPF e) v pf1"
    using run by (auto simp: net_run_def)
  let ?e1 = "si_next la pf1 e"
  obtain s2 pf2 where s2: "exec_simple_loop s1 ?e1 cv = exec_simple_loop s2 (si_next lb pf2 ?e1) cv" "backup_only s1 s2"
    "pushed d' pf1 w pf2"
    using run' [OF s1(2), of ?e1] pc len by (auto simp: net_run_def)
  let ?e2 = "si_next lb pf2 ?e1" and ?s3 = "s2\<lparr>gcp_BackupUserPc := length (pre @ n @ m)\<rparr>"
  have "ucode s2 = (pre @ n @ m) @ 0x00 # op # rest" "mcp_PC ?e2 = length (pre @ n @ m)"
    using code pc len by (simp_all add: backup_only_ucode [OF s2(2)] backup_only_ucode [OF s1(2)])
  note blk = block_runs [OF this, of cv]
  have e3: "si_anb ?e2 = si_next (la + (lb + 2)) (mlv_InPF (si_anb ?e2)) e"
    "si_orb ?e2 = si_next (la + (lb + 2)) (mlv_InPF (si_orb ?e2)) e"
    by (subst si_block_next, simp add: si_next_next)+
  have b: "backup_only s ?s3"
    using backup_only_trans [OF s1(2) backup_only_trans [OF s2(2) backup_only_set]] .
  have p: "pushed (max d (Suc d')) (mlv_InPF e) (v \<and> w) (mlv_InPF (si_anb ?e2))"
    "pushed (max d (Suc d')) (mlv_InPF e) (v \<or> w) (mlv_InPF (si_orb ?e2))"
    using s2(3) by (intro pushed_anb [OF s1(3) _ d'] pushed_orb [OF s1(3) _ d'], simp)+
  show "op = 0xA1 \<Longrightarrow> net_run s e cv (la + (lb + 2)) (max d (Suc d')) (v \<and> w)"
    unfolding net_run_def s1(1) s2(1) using blk(1) e3(1) b p(1) by metis
  show "op = 0xA2 \<Longrightarrow> net_run s e cv (la + (lb + 2)) (max d (Suc d')) (v \<or> w)"
    unfolding net_run_def s1(1) s2(1) using blk(2) e3(2) b p(2) by metis
qed

lemma net_runs:
  "net_on s n = Some v \<Longrightarrow> net_depth n \<le> 32 \<Longrightarrow> ucode s = pre @ net_code n @ rest \<Longrightarrow> mcp_PC e = length pre \<Longrightarrow>
   net_run s e cv (length (net_code n)) (net_depth n) v"
proof (induction n arbitrary: s e pre rest v)
  case (Load c)
  then have "exec_simple_loop s e cv = exec_simple_loop (s\<lparr>gcp_BackupUserPc := length pre\<rparr>)
    (si_next (si_len (arg c)) (put_flow v (push_bit 1 (mlv_InPF e))) e) cv"
    by (intro load_runs [where rest = rest]) simp_all
  moreover note pushed_load [of "mlv_InPF e" v] backup_only_set [of s "length pre"]
  ultimately show ?case
    unfolding net_run_def net_code.simps net_depth.simps contact_code_length by blast
next
  case (Series n c)
  obtain a b where ab: "net_on s n = Some a" "contact_on s c = Some b" "v = (a \<and> b)"
    using Series.prems(1) by (auto simp: opt_simps)
  have "net_run s e cv (length (net_code n)) (net_depth n) a"
    using Series.IH [OF ab(1), of pre "contact_code 3 c @ rest"] Series.prems by simp
  moreover have "ucode s = (pre @ net_code n) @ contact_code 3 c @ rest"
    using Series.prems(3) by simp
  ultimately have "net_run s e cv (length (net_code n) + length (contact_code 3 c)) (net_depth n) (a \<and> b)"
    using Series.prems(4) ab(2) series_runs by (rule net_run_contact [OF _ _ _ refl])
  then show ?case
    by (simp add: ab(3))
next
  case (Parallel n c)
  obtain a b where ab: "net_on s n = Some a" "contact_on s c = Some b" "v = (a \<or> b)"
    using Parallel.prems(1) by (auto simp: opt_simps)
  have "net_run s e cv (length (net_code n)) (net_depth n) a"
    using Parallel.IH [OF ab(1), of pre "contact_code 5 c @ rest"] Parallel.prems by simp
  moreover have "ucode s = (pre @ net_code n) @ contact_code 5 c @ rest"
    using Parallel.prems(3) by simp
  ultimately have "net_run s e cv (length (net_code n) + length (contact_code 5 c)) (net_depth n) (a \<or> b)"
    using Parallel.prems(4) ab(2) parallel_runs by (rule net_run_contact [OF _ _ _ refl])
  then show ?case
    by (simp add: ab(3))
next
  case (SeriesBlock n m)
  obtain a b where ab: "net_on s n = Some a" "net_on s m = Some b" "v = (a \<and> b)"
    using SeriesBlock.prems(1) by (auto simp: opt_simps)
  have one: "net_run s e cv (length (net_code n)) (net_depth n) a"
    using SeriesBlock.IH(1) [OF ab(1), of pre "net_code m @ [0x00, 0xA1] @ rest"] SeriesBlock.prems by simp
  have two: "net_run t e' cv (length (net_code m)) (net_depth m) b" if "backup_only s t" "mcp_PC e' = length (pre @ net_code n)" for t e'
    using SeriesBlock.IH(2) [of t b "pre @ net_code n" "[0x00, 0xA1] @ rest" e'] SeriesBlock.prems that ab(2)
    by (simp add: net_on_backup backup_only_ucode)
  from net_run_block(1) [OF one two, where m = "net_code m" and op = "0xA1" and rest = rest] SeriesBlock.prems(2-4) show ?case
    by (simp add: ab(3))
next
  case (ParallelBlock n m)
  obtain a b where ab: "net_on s n = Some a" "net_on s m = Some b" "v = (a \<or> b)"
    using ParallelBlock.prems(1) by (auto simp: opt_simps)
  have one: "net_run s e cv (length (net_code n)) (net_depth n) a"
    using ParallelBlock.IH(1) [OF ab(1), of pre "net_code m @ [0x00, 0xA2] @ rest"] ParallelBlock.prems by simp
  have two: "net_run t e' cv (length (net_code m)) (net_depth m) b" if "backup_only s t" "mcp_PC e' = length (pre @ net_code n)" for t e'
    using ParallelBlock.IH(2) [of t b "pre @ net_code n" "[0x00, 0xA2] @ rest" e'] ParallelBlock.prems that ab(2)
    by (simp add: net_on_backup backup_only_ucode)
  from net_run_block(2) [OF one two, where m = "net_code m" and op = "0xA2" and rest = rest] ParallelBlock.prems(2-4) show ?case
    by (simp add: ab(3))
qed

section \<open>Rungs\<close>

datatype coil = OutCoil contact | SetCoil contact | RstCoil contact

primrec coil_at :: "coil \<Rightarrow> contact" where
  "coil_at (OutCoil c) = c" | "coil_at (SetCoil c) = c" | "coil_at (RstCoil c) = c"

primrec coil_h :: "coil \<Rightarrow> u8" where
  "coil_h (OutCoil c) = 0x7" | "coil_h (SetCoil c) = 0x8" | "coil_h (RstCoil c) = 0x9"

text \<open>The elements that can be driven: Y, SM and M with either form of the number; LM only by SET and RST.\<close>

primrec coil_ok :: "coil \<Rightarrow> bool" where
  "coil_ok (OutCoil c) \<longleftrightarrow> \<not> negated c \<and>
     arg c \<in> {Near Y_ELEMENT, Near SM_ELEMENT, Near M_ELEMENT, Far Y_ELEMENT, Far SM_ELEMENT, Far M_ELEMENT}"
| "coil_ok (SetCoil c) \<longleftrightarrow> \<not> negated c \<and>
     arg c \<in> {Near Y_ELEMENT, Near SM_ELEMENT, Near M_ELEMENT, NearLM, Far Y_ELEMENT, Far SM_ELEMENT, Far M_ELEMENT}"
| "coil_ok (RstCoil c) \<longleftrightarrow> \<not> negated c \<and>
     arg c \<in> {Near Y_ELEMENT, Near SM_ELEMENT, Near M_ELEMENT, NearLM, Far Y_ELEMENT, Far SM_ELEMENT, Far M_ELEMENT}"

definition put_contact :: "plc_state \<Rightarrow> contact \<Rightarrow> bool \<Rightarrow> plc_state option" where
  "put_contact s c v = put_bsel (si_bank s (arg c)) s (element_no c) (if v then 1 else 0)"

primrec drive :: "plc_state \<Rightarrow> bool \<Rightarrow> coil \<Rightarrow> plc_state option" where
  "drive s v (OutCoil c) = put_contact s c v"
| "drive s v (SetCoil c) = (if v then put_contact s c True else Some s)"
| "drive s v (RstCoil c) = (if v then put_contact s c False else Some s)"

type_synonym rung = "net \<times> coil"

definition rung_code :: "rung \<Rightarrow> u8 list" where
  "rung_code r = net_code (fst r) @ contact_code (coil_h (snd r)) (coil_at (snd r))"

definition rung_ok :: "rung \<Rightarrow> bool" where
  "rung_ok r \<longleftrightarrow> net_depth (fst r) \<le> 32 \<and> coil_ok (snd r)"

text \<open>The meaning of a ladder: rung by rung, each coil driven by the value of its network in the state
  the rungs above have left.\<close>

fun ladder :: "plc_state \<Rightarrow> rung list \<Rightarrow> plc_state option" where
  "ladder s [] = Some s"
| "ladder s (r # rs) = do { v \<leftarrow> net_on s (fst r); s' \<leftarrow> drive s v (snd r); ladder s' rs }"

lemma decode_coil:
  "coil_ok k \<Longrightarrow> decode_si (push_bit 4 (coil_h k) OR arg_no (arg (coil_at k))) =
    Some (case k of OutCoil c \<Rightarrow> SI_OUT (arg c) | SetCoil c \<Rightarrow> SI_SET (arg c) | RstCoil c \<Rightarrow> SI_RST (arg c))"
proof -
  have "list_all (\<lambda>x. decode_si (push_bit 4 0x7 OR arg_no x) = Some (SI_OUT x))
      [Near Y_ELEMENT, Near SM_ELEMENT, Near M_ELEMENT, Far Y_ELEMENT, Far SM_ELEMENT, Far M_ELEMENT]"
    "list_all (\<lambda>x. decode_si (push_bit 4 0x8 OR arg_no x) = Some (SI_SET x) \<and> decode_si (push_bit 4 0x9 OR arg_no x) = Some (SI_RST x))
      [Near Y_ELEMENT, Near SM_ELEMENT, Near M_ELEMENT, NearLM, Far Y_ELEMENT, Far SM_ELEMENT, Far M_ELEMENT]"
    by code_simp+
  then show "coil_ok k \<Longrightarrow> ?thesis"
    by (cases k) (auto simp only: coil_ok.simps coil_h.simps coil_at.simps coil.case list.pred_inject insert_iff empty_iff)
qed

lemma put_bsel_backup: "put_bsel b (s\<lparr>gcp_BackupUserPc := a\<rparr>) i v = map_option (\<lambda>t. t\<lparr>gcp_BackupUserPc := a\<rparr>) (put_bsel b s i v)"
  by (cases b) (simp_all add: set_bit_elem_def set_lm_elem_def map_option_bind split: Option.bind_splits)

lemma drive_backup:
  "drive (s\<lparr>gcp_BackupUserPc := a\<rparr>) v k = map_option (\<lambda>t. t\<lparr>gcp_BackupUserPc := a\<rparr>) (drive s v k)"
proof -
  have "si_bank (s\<lparr>gcp_BackupUserPc := a\<rparr>) x = si_bank s x" for x
    by (cases x) simp_all
  then show ?thesis
    by (cases k) (simp_all add: put_contact_def put_bsel_backup)
qed

lemma drive_exec:
  assumes "si_index s pc (arg (coil_at k)) = Some (element_no (coil_at k))" and "drive s (GET_POWER_FLOW (mlv_InPF e)) k = Some t"
    and "mcp_PC e = pc"
  shows "exec_si (case k of OutCoil c \<Rightarrow> SI_OUT (arg c) | SetCoil c \<Rightarrow> SI_SET (arg c) | RstCoil c \<Rightarrow> SI_RST (arg c)) s e cv =
    Some (t, si_next (si_len (arg (coil_at k))) (mlv_InPF e) e, cv)"
  using assms by (cases k) (simp_all add: put_contact_def si_out_def si_set_rst_def si_write_def split: if_splits)

lemma coil_runs:
  assumes ok: "coil_ok k" and code: "ucode s = pre @ contact_code (coil_h k) (coil_at k) @ rest" and pc: "mcp_PC e = length pre"
    and drive: "drive s (GET_POWER_FLOW (mlv_InPF e)) k = Some t"
  shows "exec_simple_loop s e cv = exec_simple_loop (t\<lparr>gcp_BackupUserPc := length pre\<rparr>)
    (si_next (si_len (arg (coil_at k))) (mlv_InPF e) e) cv"
proof -
  let ?s = "s\<lparr>gcp_BackupUserPc := length pre\<rparr>" and ?c = "coil_at k"
  have neg: "\<not> negated ?c"
    using ok by (cases k) simp_all
  obtain x where "contact_code (coil_h k) ?c = near_byte ?c # (push_bit 4 (coil_h k + (if negated ?c then 1 else 0)) OR arg_no (arg ?c)) # x"
    using contact_code_shape .
  then have m: "ucode s = pre @ near_byte ?c # (push_bit 4 (coil_h k) OR arg_no (arg ?c)) # (x @ rest)"
    using code neg by simp
  have "ucode ?s = pre @ contact_code (coil_h k) ?c @ rest"
    using code by simp
  moreover have "drive ?s (GET_POWER_FLOW (mlv_InPF e)) k = Some (t\<lparr>gcp_BackupUserPc := length pre\<rparr>)"
    using drive by (simp add: drive_backup)
  ultimately show ?thesis
    using loop_step [OF m pc decode_coil [OF ok] drive_exec [OF contact_index _ pc]] by blast
qed

lemma drive_ucode: "drive s v k = Some t \<Longrightarrow> ucode t = ucode s"
proof -
  have "put_contact s c u = Some t \<Longrightarrow> ucode t = ucode s" for c u
    using si_frame_ucode [OF si_frame_bits [OF put_bsel_bits_only]] unfolding put_contact_def by blast
  then show "drive s v k = Some t \<Longrightarrow> ucode t = ucode s"
    by (cases k) (auto split: if_splits)
qed

lemma ladder_runs:
  "ladder s rs = Some t \<Longrightarrow> list_all rung_ok rs \<Longrightarrow> backup_only s s1 \<Longrightarrow>
   ucode s = pre @ concat (map rung_code rs) @ lo # hi # rest \<Longrightarrow> 0xE0 \<le> hi \<Longrightarrow> mcp_PC e = length pre \<Longrightarrow>
   \<exists>t' e'. exec_simple_loop s1 e cv = Some (pdPASS, t', e') \<and> backup_only t t' \<and>
     mcp_PC e' = length pre + length (concat (map rung_code rs))"
proof (induction rs arbitrary: s s1 pre e)
  case Nil
  have u: "ucode s1 = pre @ lo # hi # rest"
    using Nil by (simp add: backup_only_ucode)
  have "0xE000 \<le> bytes_u16 lo hi"
    using Nil.prems(5) unfolding word_le_nat_alt unat_bytes_u16 by simp
  then show ?case
    using Nil code_at(3) [OF u] by (subst exec_simple_loop.simps) (simp add: linorder_not_less [symmetric])
next
  case (Cons r rs)
  obtain v s2 where v: "net_on s (fst r) = Some v" "drive s v (snd r) = Some s2" "ladder s2 rs = Some t"
    using Cons.prems(1) by (auto simp: opt_simps)
  have ok: "net_depth (fst r) \<le> 32" "coil_ok (snd r)"
    using Cons.prems(2) by (simp_all add: rung_ok_def)
  let ?n = "net_code (fst r)" and ?k = "contact_code (coil_h (snd r)) (coil_at (snd r))"
    and ?rest = "concat (map rung_code rs) @ lo # hi # rest"
  have u: "ucode s1 = pre @ ?n @ ?k @ ?rest"
    using Cons.prems(4) by (simp add: backup_only_ucode [OF Cons.prems(3)] rung_code_def [of r])
  obtain s3 pf where s3: "exec_simple_loop s1 e cv = exec_simple_loop s3 (si_next (length ?n) pf e) cv" "backup_only s1 s3"
    "pushed (net_depth (fst r)) (mlv_InPF e) v pf"
    using net_runs [OF _ ok(1) u Cons.prems(6), of v cv] v(1) Cons.prems(3) by (auto simp: net_run_def net_on_backup)
  obtain a where a: "s3 = s\<lparr>gcp_BackupUserPc := a\<rparr>"
    using backup_only_trans [OF Cons.prems(3) s3(2)] by (auto simp: backup_only_def)
  let ?e = "si_next (length ?n) pf e" and ?s4 = "s2\<lparr>gcp_BackupUserPc := a, gcp_BackupUserPc := length (pre @ ?n)\<rparr>"
  have "ucode s3 = (pre @ ?n) @ ?k @ ?rest" "mcp_PC ?e = length (pre @ ?n)"
    using u Cons.prems(6) s3(2) by (simp_all add: backup_only_ucode)
  from coil_runs [OF ok(2) this, of _ cv] have x: "exec_simple_loop s1 e cv = exec_simple_loop ?s4 (si_next (length ?k) pf ?e) cv"
    using v(2) pushed_flow [OF s3(3)] by (simp add: s3(1) a drive_backup contact_code_length)
  have "ucode s2 = (pre @ rung_code r) @ ?rest"
    using drive_ucode [OF v(2)] Cons.prems(4) by simp
  moreover have "backup_only s2 ?s4"
    by simp
  moreover have "mcp_PC (si_next (length ?k) pf ?e) = length (pre @ rung_code r)"
    using Cons.prems(6) by (simp add: rung_code_def [of r])
  ultimately show ?case
    using Cons.IH [OF v(3), of ?s4 "pre @ rung_code r" "si_next (length ?k) pf ?e"] Cons.prems(2,5) unfolding x by (simp add: add.assoc)
qed

section \<open>Ladders on existing elements\<close>

definition contact_ok :: "plc_state \<Rightarrow> contact \<Rightarrow> bool" where
  "contact_ok s c \<longleftrightarrow> element_no c < rang_bsel (si_bank s (arg c)) s"

primrec net_ok :: "plc_state \<Rightarrow> net \<Rightarrow> bool" where
  "net_ok s (Load c) = contact_ok s c"
| "net_ok s (Series n c) = (net_ok s n \<and> contact_ok s c)"
| "net_ok s (Parallel n c) = (net_ok s n \<and> contact_ok s c)"
| "net_ok s (SeriesBlock n m) = (net_ok s n \<and> net_ok s m)"
| "net_ok s (ParallelBlock n m) = (net_ok s n \<and> net_ok s m)"

definition rung_exists :: "plc_state \<Rightarrow> rung \<Rightarrow> bool" where
  "rung_exists s r \<longleftrightarrow> net_ok s (fst r) \<and> contact_ok s (coil_at (snd r))"

lemma contact_defined:
  assumes "contact_ok s c" and "wf_state s" and "nested s < 7"
  shows "\<exists>v. contact_on s c = Some v" "\<exists>t. put_contact s c v = Some t \<and> wf_state t \<and> si_frame s t"
proof -
  note inv = si_bank_inv [OF assms(2,3), of "arg c"] and i = assms(1) [unfolded contact_ok_def]
  show "\<exists>v. contact_on s c = Some v"
    using bb.get_ok [OF inv i] by (auto simp: contact_on_def)
  obtain t where t: "put_contact s c v = Some t"
    using bb.put_ok [OF inv i] unfolding put_contact_def by blast
  have "inv_bsel (si_bank s (arg c)) t"
    using bb.put_inv [OF inv] t unfolding put_contact_def by blast
  then have "wf_state t"
    by (cases "si_bank s (arg c)") auto
  moreover have "si_frame s t"
    using si_frame_bits [OF put_bsel_bits_only] t unfolding put_contact_def by blast
  ultimately show "\<exists>t. put_contact s c v = Some t \<and> wf_state t \<and> si_frame s t"
    using t by blast
qed

lemma net_defined:
  assumes "wf_state s" and "nested s < 7"
  shows "net_ok s n \<Longrightarrow> \<exists>v. net_on s n = Some v"
proof -
  have c: "\<exists>v. contact_on s c = Some v" if "contact_ok s c" for c
    using contact_defined(1) [OF that assms] .
  show "net_ok s n \<Longrightarrow> ?thesis"
  proof (induction n)
    case (Series n c)
    with c [of c] show ?case by auto
  next
    case (Parallel n c)
    with c [of c] show ?case by auto
  qed (use c in auto)
qed

lemma drive_defined:
  assumes "contact_ok s (coil_at k)" and "wf_state s" and "nested s < 7"
  shows "\<exists>t. drive s v k = Some t \<and> wf_state t \<and> si_frame s t"
proof (cases k)
  case (OutCoil c)
  then show ?thesis
    using contact_defined(2) [of s c v] assms by simp
next
  case (SetCoil c)
  then show ?thesis
    using contact_defined(2) [of s c True] assms by simp
next
  case (RstCoil c)
  then show ?thesis
    using contact_defined(2) [of s c False] assms by simp
qed

lemma rung_exists_frame:
  assumes "si_frame s t"
  shows "rung_exists t r = rung_exists s r"
proof -
  note eqs = si_frame_eq [OF assms]
  have "rang_bsel b t = rang_bsel b s" "si_bank t x = si_bank s x" for b x
    by (cases b; simp add: eqs) (cases x; simp add: eqs)
  then have c: "contact_ok t c = contact_ok s c" for c
    by (simp add: contact_ok_def)
  then have "net_ok t n = net_ok s n" for n
    by (induction n) simp_all
  with c show ?thesis
    by (simp add: rung_exists_def)
qed

lemma ladder_defined:
  "list_all (rung_exists s) rs \<Longrightarrow> wf_state s \<Longrightarrow> nested s < 7 \<Longrightarrow> \<exists>t. ladder s rs = Some t \<and> wf_state t"
proof (induction rs arbitrary: s)
  case (Cons r rs)
  obtain v where v: "net_on s (fst r) = Some v"
    using net_defined [OF Cons.prems(2,3)] Cons.prems(1) by (auto simp: rung_exists_def)
  obtain t where t: "drive s v (snd r) = Some t" "wf_state t" "si_frame s t"
    using drive_defined [of s "snd r" v] Cons.prems by (auto simp: rung_exists_def)
  have "list_all (rung_exists t) rs"
    using Cons.prems(1) rung_exists_frame [OF t(3)] by (simp add: list_all_iff)
  moreover have "nested t < 7"
    using Cons.prems(3) by (simp add: si_frame_eq(2) [OF t(3)])
  ultimately show ?case
    using Cons.IH [OF _ t(2)] v t(1) by simp
qed simp

section \<open>Property\<close>

text \<open>C1. The interpreter computes what a ladder diagram means.  For a list of rungs over existing elements,
  each a network of series and parallel contacts of stack depth at most 32 (the width of the power-flow
  word) driving an OUT, SET or RST coil, the instruction list of the ladder followed by a complex word,
  run by \<open>plc_exec_simple_instruction\<close>, returns \<open>pdPASS\<close> at the complex word, and the state it leaves is
  the one the ladder's meaning gives, up to the backup PC.\<close>
theorem ladder_refinement:
  assumes "list_all (rung_exists s) rs" and "list_all rung_ok rs" and "wf_state s" and "nested s < 7"
    and "ucode s = pre @ concat (map rung_code rs) @ lo # hi # rest" and "0xE0 \<le> hi" and "mcp_PC e = length pre"
  shows "\<exists>t t' e'. ladder s rs = Some t \<and> plc_exec_simple_instruction s e = Some (pdPASS, t', e') \<and> backup_only t t' \<and>
     wf_state t \<and> mcp_PC e' = length pre + length (concat (map rung_code rs))"
proof -
  obtain t where t: "ladder s rs = Some t" "wf_state t"
    using ladder_defined [OF assms(1,3,4)] by blast
  from ladder_runs [OF t(1) assms(2) backup_only_refl assms(5-7)] t show ?thesis
    unfolding plc_exec_simple_instruction_def by blast
qed

text \<open>\<open>Y0 = (X0 or not X2) and not M1\<close>, then \<open>SET M300\<close> when Y0 is on.\<close>

definition sample_rungs :: "rung list" where
  "sample_rungs =
     [(SeriesBlock (Parallel (Load (Contact False (Near X_ELEMENT) 0 0)) (Contact True (Near X_ELEMENT) 2 0))
        (Load (Contact True (Near M_ELEMENT) 1 0)), OutCoil (Contact False (Near Y_ELEMENT) 0 0)),
      (Load (Contact False (Near Y_ELEMENT) 0 0), SetCoil (Contact False (Far M_ELEMENT) 0x0C 0x12))]"

abbreviation sample_state :: plc_state where
  "sample_state \<equiv> boot_state (concat (map rung_code sample_rungs) @ [0x00, 0xE0])"

theorem ladder_refinement_witness:
  "\<exists>t t' e'. ladder sample_state sample_rungs = Some t \<and>
     plc_exec_simple_instruction sample_state env0 = Some (pdPASS, t', e') \<and> backup_only t t' \<and>
     wf_state t \<and> mcp_PC e' = length ([] :: u8 list) + length (concat (map rung_code sample_rungs))"
proof (rule ladder_refinement [where lo = 0 and hi = "0xE0" and rest = "[]"])
  have "list_all (\<lambda>c. contact_ok (boot_state code) c)
     [Contact False (Near X_ELEMENT) 0 0, Contact True (Near X_ELEMENT) 2 0, Contact True (Near M_ELEMENT) 1 0,
      Contact False (Near Y_ELEMENT) 0 0, Contact False (Far M_ELEMENT) 0x0C 0x12]" for code
    by (simp add: contact_ok_def)
  then show "list_all (rung_exists sample_state) sample_rungs"
    by (simp add: sample_rungs_def rung_exists_def)
  show "list_all rung_ok sample_rungs"
    by (simp add: sample_rungs_def rung_ok_def)
qed simp_all

end
