(* ===== verification/PLC_ParseWord.thy ===== *)
theory PLC_ParseWord
  imports PLC_ParseAddr
begin

text \<open>
  Operand access of \<open>plc_parseaddr.c\<close> for 16-bit operands: \<open>get_word\<close>, \<open>get_word_addr\<close> and
  \<open>save_word\<close>, with constants, bit groups (Kn), word elements and Z-indexed variants.  Each
  \<open>switch\<close> is given by tables from operand types to banks; a table of \<open>save_word\<close> also carries
  the bound of the range check, which for one type is not that of the bank.
\<close>

section \<open>Selection of a bank of word elements\<close>

datatype word_sel = Words word_area | Vs u32

primrec get_wsel :: "word_sel \<Rightarrow> plc_state \<Rightarrow> u16 \<Rightarrow> u16 option" where
  "get_wsel (Words a) = get_word_elem a"
| "get_wsel (Vs layer) = get_v_elem layer"

primrec put_wsel :: "word_sel \<Rightarrow> plc_state \<Rightarrow> u16 \<Rightarrow> u16 \<Rightarrow> plc_state option" where
  "put_wsel (Words a) = set_word_elem a"
| "put_wsel (Vs layer) = set_v_elem layer"

primrec rang_wsel :: "word_sel \<Rightarrow> plc_state \<Rightarrow> u16" where
  "rang_wsel (Words a) = word_elem_rang a"
| "rang_wsel (Vs layer) = v_elem_rang"

primrec inv_wsel :: "word_sel \<Rightarrow> plc_state \<Rightarrow> bool" where
  "inv_wsel (Words a) = wf_state"
| "inv_wsel (Vs layer) = (\<lambda>s. wf_state s \<and> layer < 8)"

section \<open>Bit groups\<close>

text \<open>
  The number of digits of the group is the first operand byte, or its high nibble when the
  low one names a Z element; it must lie between the bounds.  The result is the bank, the
  number of digits and \<open>lsv_StartIndex\<close>, or the error, or \<open>None\<close> for a type in neither table.
\<close>

definition resolve_kn :: "(addr_type \<Rightarrow> bit_sel option) \<Rightarrow> u8 \<times> u8 \<Rightarrow> (addr_type \<Rightarrow> bit_sel option) \<Rightarrow> u8 \<times> u8 \<Rightarrow>
    plc_state \<Rightarrow> nat \<Rightarrow> (plc_ret + bit_sel \<times> u8 \<times> u16) option option" where
  "resolve_kn direct dlim indexed xlim s addr =
     do { t \<leftarrow> GET_PU8_DATA (ucode s) (addr + 1);
          case Option.bind (addr_of t) direct of
            Some b \<Rightarrow>
              do { kn \<leftarrow> GET_PU8_DATA (ucode s) addr;
                   if kn < fst dlim \<or> snd dlim < kn then Some (Some (Inl ERR_OPERANDS))
                   else do { start \<leftarrow> GET_PU16_DATA (ucode s) (addr + 2); Some (Some (Inr (b, kn, start))) } }
          | None \<Rightarrow>
            (case Option.bind (addr_of t) indexed of
               Some b \<Rightarrow>
                 do { k \<leftarrow> GET_PU8_DATA (ucode s) addr;
                      let kn = drop_bit 4 (k AND 0xF0) in
                      if kn < fst xlim \<or> snd xlim < kn then Some (Some (Inl ERR_OPERANDS))
                      else do { z \<leftarrow> get_word_elem Z_AREA s (ucast (k AND 0x0F));
                                w \<leftarrow> GET_PU16_DATA (ucode s) (addr + 2);
                                Some (Some (Inr (b, kn, z + w))) } }
             | None \<Rightarrow> Some None) }"

section \<open>Reading words\<close>

definition get_word_const :: "plc_state \<Rightarrow> nat \<Rightarrow> (plc_ret \<times> u16 list) option" where
  "get_word_const s addr =
     do { k \<leftarrow> GET_PU8_DATA (ucode s) addr;
          if 2 \<le> k then Some (ERR_ELEMENT_TYPE, [])
          else do { w \<leftarrow> GET_PU16_DATA (ucode s) (addr + 2); Some (pdPASS, [w]) } }"

definition get_word_kn :: "plc_state \<Rightarrow> addr_type \<Rightarrow> bit_sel option" where
  "get_word_kn s a = (case a of
       ADDR_KnX \<Rightarrow> Some (Bits X_ELEMENT)
     | ADDR_KnY \<Rightarrow> Some (Bits Y_ELEMENT)
     | ADDR_KnM \<Rightarrow> Some (Bits M_ELEMENT)
     | ADDR_KnS \<Rightarrow> Some (Bits S_ELEMENT)
     | ADDR_KnLM \<Rightarrow> Some (LMs (ucast (nested s)))
     | ADDR_KnSM \<Rightarrow> Some (Bits SM_ELEMENT)
     | _ \<Rightarrow> None)"

definition get_word_direct :: "plc_state \<Rightarrow> addr_type \<Rightarrow> word_sel option" where
  "get_word_direct s a = (case a of
       ADDR_D \<Rightarrow> Some (Words D_AREA)
     | ADDR_DX_Y \<Rightarrow> Some (Words D_AREA)
     | ADDR_R \<Rightarrow> Some (Words R_AREA)
     | ADDR_Z \<Rightarrow> Some (Words Z_AREA)
     | ADDR_SD \<Rightarrow> Some (Words SD_AREA)
     | ADDR_C \<Rightarrow> Some (Words C16_AREA)
     | ADDR_T \<Rightarrow> Some (Words T_AREA)
     | ADDR_V \<Rightarrow> Some (Vs (nested s))
     | _ \<Rightarrow> None)"

definition get_word_indexed :: "plc_state \<Rightarrow> addr_type \<Rightarrow> word_sel option" where
  "get_word_indexed s a = (case a of
       ADDR_DZ \<Rightarrow> Some (Words D_AREA)
     | ADDR_RZ \<Rightarrow> Some (Words R_AREA)
     | ADDR_CZ \<Rightarrow> Some (Words C16_AREA)
     | ADDR_TZ \<Rightarrow> Some (Words T_AREA)
     | ADDR_VZ \<Rightarrow> Some (Vs (nested s))
     | _ \<Rightarrow> None)"

definition get_word_kn_indexed :: "plc_state \<Rightarrow> addr_type \<Rightarrow> bit_sel option" where
  "get_word_kn_indexed s a = (case a of
       ADDR_KnXZ \<Rightarrow> Some (Bits X_ELEMENT)
     | ADDR_KnYZ \<Rightarrow> Some (Bits Y_ELEMENT)
     | ADDR_KnMZ \<Rightarrow> Some (Bits M_ELEMENT)
     | ADDR_KnSZ \<Rightarrow> Some (Bits S_ELEMENT)
     | ADDR_KnLMZ \<Rightarrow> Some (LMs (ucast (nested s)))
     | _ \<Rightarrow> None)"

definition get_word :: "plc_state \<Rightarrow> nat \<Rightarrow> u16 \<Rightarrow> u16 \<Rightarrow> (plc_ret \<times> u16 list) option" where
  "get_word s addr off cnt =
     do { t \<leftarrow> GET_PU8_DATA (ucode s) (addr + 1);
          if addr_of t = Some ADDR_CONST then get_word_const s addr
          else do {
            q \<leftarrow> resolve_kn (get_word_kn s) (1, 4) (get_word_kn_indexed s) (1, 4) s addr;
            case q of
              Some (Inl r) \<Rightarrow> Some (r, [])
            | Some (Inr (b, kn, start)) \<Rightarrow> kn_get (get_bsel b) (rang_bsel b s) s start kn off (unat cnt)
            | None \<Rightarrow> do {
                p \<leftarrow> resolve (get_word_direct s) (get_word_indexed s) s addr off;
                case p of
                  Some (b, i) \<Rightarrow> get_run (get_wsel b) (rang_wsel b s) s i (unat cnt)
                | None \<Rightarrow> Some (ERR_ELEMENT_TYPE, []) } } }"

definition get_word_default :: "plc_state \<Rightarrow> nat \<Rightarrow> (plc_ret \<times> u16 list) option" where
  "get_word_default s addr = get_word s addr 0 1"

text \<open>
  \<open>get_word_addr\<close> hands out a pointer into the D or R array: the array and the number of the
  first element, when \<open>lsv_Num\<close> elements from there stay below the last one.
\<close>

definition get_word_addr_direct :: "addr_type \<Rightarrow> word_area option" where
  "get_word_addr_direct a = (case a of ADDR_D \<Rightarrow> Some D_AREA | ADDR_R \<Rightarrow> Some R_AREA | _ \<Rightarrow> None)"

definition get_word_addr_indexed :: "addr_type \<Rightarrow> word_area option" where
  "get_word_addr_indexed a = (case a of ADDR_DZ \<Rightarrow> Some D_AREA | ADDR_RZ \<Rightarrow> Some R_AREA | _ \<Rightarrow> None)"

definition get_word_addr :: "plc_state \<Rightarrow> nat \<Rightarrow> u16 \<Rightarrow> (plc_ret \<times> (word_area \<times> u16) option) option" where
  "get_word_addr s addr num =
     do { p \<leftarrow> resolve get_word_addr_direct get_word_addr_indexed s addr 0;
          case p of
            Some (a, i) \<Rightarrow>
              if unat (word_elem_rang a s) \<le> unat i + unat num then Some (ERR_OVER_ELEMENT_RANG, None)
              else Some (pdPASS, Some (a, i))
          | None \<Rightarrow> Some (ERR_ELEMENT_TYPE, None) }"

section \<open>Writing words\<close>

definition save_word_kn :: "plc_state \<Rightarrow> addr_type \<Rightarrow> bit_sel option" where
  "save_word_kn s a = (case a of
       ADDR_KnY \<Rightarrow> Some (Bits Y_ELEMENT)
     | ADDR_KnM \<Rightarrow> Some (Bits M_ELEMENT)
     | ADDR_KnS \<Rightarrow> Some (Bits S_ELEMENT)
     | ADDR_KnLM \<Rightarrow> Some (LMs (ucast (nested s)))
     | _ \<Rightarrow> None)"

text \<open>The range check of \<open>ADDR_RZ\<close> compares with the number of D elements.\<close>

definition save_word_direct :: "plc_state \<Rightarrow> addr_type \<Rightarrow> (word_sel \<times> u16) option" where
  "save_word_direct s a = (case a of
       ADDR_D \<Rightarrow> Some (Words D_AREA, word_elem_rang D_AREA s)
     | ADDR_DX_Y \<Rightarrow> Some (Words D_AREA, word_elem_rang D_AREA s)
     | ADDR_R \<Rightarrow> Some (Words R_AREA, word_elem_rang R_AREA s)
     | ADDR_Z \<Rightarrow> Some (Words Z_AREA, word_elem_rang Z_AREA s)
     | ADDR_SD \<Rightarrow> Some (Words SD_AREA, word_elem_rang SD_AREA s)
     | ADDR_C \<Rightarrow> Some (Words C16_AREA, word_elem_rang C16_AREA s)
     | ADDR_T \<Rightarrow> Some (Words T_AREA, word_elem_rang T_AREA s)
     | ADDR_V \<Rightarrow> Some (Vs (nested s + 1), v_elem_rang s)
     | _ \<Rightarrow> None)"

definition save_word_indexed :: "plc_state \<Rightarrow> addr_type \<Rightarrow> (word_sel \<times> u16) option" where
  "save_word_indexed s a = (case a of
       ADDR_DZ \<Rightarrow> Some (Words D_AREA, word_elem_rang D_AREA s)
     | ADDR_RZ \<Rightarrow> Some (Words R_AREA, word_elem_rang D_AREA s)
     | ADDR_CZ \<Rightarrow> Some (Words C16_AREA, word_elem_rang C16_AREA s)
     | ADDR_TZ \<Rightarrow> Some (Words T_AREA, word_elem_rang T_AREA s)
     | ADDR_VZ \<Rightarrow> Some (Vs (nested s), v_elem_rang s)
     | _ \<Rightarrow> None)"

definition save_word_kn_indexed :: "plc_state \<Rightarrow> addr_type \<Rightarrow> bit_sel option" where
  "save_word_kn_indexed s a = (case a of
       ADDR_KnYZ \<Rightarrow> Some (Bits Y_ELEMENT)
     | ADDR_KnMZ \<Rightarrow> Some (Bits M_ELEMENT)
     | ADDR_KnSZ \<Rightarrow> Some (Bits S_ELEMENT)
     | ADDR_KnLMZ \<Rightarrow> Some (LMs (ucast (nested s)))
     | _ \<Rightarrow> None)"

text \<open>The result has the caller's buffer too: writing a bit group shifts the values in it.\<close>

definition save_word :: "plc_state \<Rightarrow> nat \<Rightarrow> u16 list \<Rightarrow> u16 \<Rightarrow> u16 \<Rightarrow> (plc_ret \<times> plc_state \<times> u16 list) option" where
  "save_word s addr vs off cnt =
     do { q \<leftarrow> resolve_kn (save_word_kn s) (1, 4) (save_word_kn_indexed s) (1, 4) s addr;
          case q of
            Some (Inl r) \<Rightarrow> Some (r, s, vs)
          | Some (Inr (b, kn, start)) \<Rightarrow> kn_save (put_bsel b) (rang_bsel b s) s start kn off (unat cnt) vs
          | None \<Rightarrow> do {
              p \<leftarrow> resolve (save_word_direct s) (save_word_indexed s) s addr off;
              case p of
                Some ((b, rang), i) \<Rightarrow> do { (r, s') \<leftarrow> save_run (put_wsel b) rang s i (unat cnt) vs; Some (r, s', vs) }
              | None \<Rightarrow> Some (ERR_ELEMENT_TYPE, s, vs) } }"

definition save_word_default :: "plc_state \<Rightarrow> nat \<Rightarrow> u16 list \<Rightarrow> (plc_ret \<times> plc_state \<times> u16 list) option" where
  "save_word_default s addr vs = save_word s addr vs 0 1"

section \<open>Lemmas\<close>

interpretation wb: bank "get_wsel b" "put_wsel b" "\<lambda>v. v" "rang_wsel b" "inv_wsel b"
  for b
proof (cases b)
  case (Words a)
  then show "bank (get_wsel b) (put_wsel b) (\<lambda>v. v) (rang_wsel b) (inv_wsel b)"
    using words.bank_axioms [of a] by (simp add: fun_eq_iff)
next
  case (Vs layer)
  then show "bank (get_wsel b) (put_wsel b) (\<lambda>v. v) (rang_wsel b) (inv_wsel b)"
    using vs.bank_axioms [of layer] by simp
qed

lemma resolve_kn_total:
  assumes wf: "wf_state s" and ok: "operand_ok s addr"
    and tbl: "\<And>a b. x a = Some b \<Longrightarrow> kn_indexed_type a"
  shows "\<exists>q. resolve_kn d dl x xl s addr = Some q"
proof -
  have z: "\<exists>v. get_word_elem Z_AREA s (ucast (ucode s ! addr AND 0x0F)) = Some v"
    if "addr_of (ucode s ! (addr + 1)) = Some a" "x a = Some b" for a b
    using ok tbl [OF that(2)] that words.get_ok [OF wf, of "ucast (ucode s ! addr AND 0x0F)" Z_AREA]
    by (auto simp: operand_ok_def)
  show ?thesis
    using ok z
    by (auto simp: resolve_kn_def GET_PU8_DATA_def GET_PU16_DATA_def operand_ok_def mem_simps opt_simps Let_def
        split: option.splits)
qed

lemma resolve_kn_bank:
  "resolve_kn d dl x xl s addr = Some (Some (Inr (b, kn, start))) \<Longrightarrow> \<exists>a. d a = Some b \<or> x a = Some b"
  by (auto simp: resolve_kn_def opt_simps Let_def split: option.splits if_splits)

lemma resolve_kn_err:
  "resolve_kn d dl x xl s addr = Some (Some (Inl r)) \<Longrightarrow> r = ERR_OPERANDS"
  by (auto simp: resolve_kn_def opt_simps Let_def split: option.split_asm if_split_asm)

lemma word_kn_inv:
  assumes "get_word_kn s a = Some b \<or> get_word_kn_indexed s a = Some b \<or> save_word_kn s a = Some b \<or>
      save_word_kn_indexed s a = Some b"
    and "wf_state s" and "nested s < 8"
  shows "inv_bsel b s"
  using assms(1,2) layer_ucast [OF assms(3)]
  by (cases a) (auto simp: get_word_kn_def get_word_kn_indexed_def save_word_kn_def save_word_kn_indexed_def)

lemma get_word_inv:
  assumes "get_word_direct s a = Some b \<or> get_word_indexed s a = Some b" and "wf_state s" and "nested s < 8"
  shows "inv_wsel b s"
  using assms by (cases a) (auto simp: get_word_direct_def get_word_indexed_def)

lemma save_word_inv:
  assumes "save_word_direct s a = Some (b, rang) \<or> save_word_indexed s a = Some (b, rang)" and "wf_state s"
    and "nested s < 8" and "a = ADDR_V \<Longrightarrow> nested s < 7" and "a = ADDR_RZ \<Longrightarrow> word_elem_rang D_AREA s \<le> word_elem_rang R_AREA s"
  shows "inv_wsel b s \<and> rang \<le> rang_wsel b s"
  using assms layer_Suc [OF assms(4)] by (cases a) (auto simp: save_word_direct_def save_word_indexed_def)

lemma word_indexed_types:
  "get_word_kn_indexed s a = Some b \<Longrightarrow> kn_indexed_type a"
  "save_word_kn_indexed s a = Some b \<Longrightarrow> kn_indexed_type a"
  "get_word_indexed s a = Some w \<Longrightarrow> indexed_type a"
  "save_word_indexed s a = Some p \<Longrightarrow> indexed_type a"
  by (cases a; simp add: get_word_kn_indexed_def save_word_kn_indexed_def get_word_indexed_def
      save_word_indexed_def kn_indexed_type_def indexed_type_def)+

text \<open>The loops return pdPASS or a range error.\<close>

lemma kn_get_bits_ret:
  "kn_get_bits get rang s base t v = Some (r, w) \<Longrightarrow> r = pdPASS \<or> r = ERR_OVER_ELEMENT_RANG"
  by (induction t arbitrary: v) (auto simp: Let_def opt_simps split: if_splits)

lemma kn_get_ret: "kn_get get rang s start kn off n = Some (r, vs) \<Longrightarrow> r = pdPASS \<or> r = ERR_OVER_ELEMENT_RANG"
  by (induction n arbitrary: off vs) (auto simp: opt_simps split: if_splits dest: kn_get_bits_ret)

lemma save_run_ret: "save_run put rang s i n vs = Some (r, s') \<Longrightarrow> r = pdPASS \<or> r = ERR_OVER_ELEMENT_RANG"
  by (induction n arbitrary: s i vs) (auto simp: opt_simps split: if_splits list.splits)

lemma kn_save_bits_ret:
  "kn_save_bits put rang s i m v = Some (r, w) \<Longrightarrow> r = pdPASS \<or> r = ERR_OVER_ELEMENT_RANG"
  by (induction m arbitrary: s i v) (auto simp: opt_simps split: if_splits)

lemma kn_save_ret:
  "kn_save put rang s start kn off n vs = Some (r, s') \<Longrightarrow> r = pdPASS \<or> r = ERR_OVER_ELEMENT_RANG"
  by (induction n arbitrary: s off vs s') (auto simp: opt_simps split: if_splits list.splits dest: kn_save_bits_ret)

text \<open>C28. Reading a 16-bit operand stays inside the arrays, given an operand inside the program whose Z number, if it has one, exists, and a call
  depth below the number of layers; the code checks neither.  With these, \<open>get_word\<close> has a result for every operand type, every element
  number, offset and count, and its return code is pdPASS, a type error, a wrong number of digits or a range error.\<close>

theorem get_word_safe:
  assumes "wf_state s" and "nested s < 8" and "operand_ok s addr"
  shows "\<exists>r vs. get_word s addr off cnt = Some (r, vs) \<and>
    r \<in> {pdPASS, ERR_ELEMENT_TYPE, ERR_OPERANDS, ERR_OVER_ELEMENT_RANG}"
proof -
  obtain t where t: "GET_PU8_DATA (ucode s) (addr + 1) = Some t"
    using assms(3) by (auto simp: operand_ok_def GET_PU8_DATA_def mem_simps)
  obtain q where q: "resolve_kn (get_word_kn s) (1, 4) (get_word_kn_indexed s) (1, 4) s addr = Some q"
    using resolve_kn_total [OF assms(1,3), of "get_word_kn_indexed s"] word_indexed_types(1) by blast
  obtain p where p: "resolve (get_word_direct s) (get_word_indexed s) s addr off = Some p"
    using resolve_total [OF assms(1,3), of "get_word_indexed s"] word_indexed_types(3) by blast
  have const: "\<exists>r vs. get_word_const s addr = Some (r, vs) \<and> (r = pdPASS \<or> r = ERR_ELEMENT_TYPE)"
    using assms(3) by (simp add: get_word_const_def operand_ok_def GET_PU8_DATA_def GET_PU16_DATA_def mem_simps)
  have kn: "\<exists>r vs. kn_get (get_bsel b) (rang_bsel b s) s start kn off (unat cnt) = Some (r, vs) \<and>
      (r = pdPASS \<or> r = ERR_OVER_ELEMENT_RANG)"
    if "q = Some (Inr (b, kn, start))" for b kn start
  proof -
    have "inv_bsel b s"
      using resolve_kn_bank [OF q [unfolded that]] word_kn_inv [OF _ assms(1,2)] by blast
    then show ?thesis
      using bb.kn_get_total [of b s "rang_bsel b s" start kn off "unat cnt"] by (auto dest: kn_get_ret)
  qed
  have run: "\<exists>r vs. get_run (get_wsel b) (rang_wsel b s) s i (unat cnt) = Some (r, vs) \<and>
      (r = pdPASS \<or> r = ERR_OVER_ELEMENT_RANG)"
    if "p = Some (b, i)" for b i
  proof -
    have "inv_wsel b s"
      using resolve_bank [OF p [unfolded that]] get_word_inv [OF _ assms(1,2)] by blast
    then show ?thesis
      using wb.get_run_spec [of b s "rang_wsel b s" i "unat cnt"] by (simp add: run_ret_def)
  qed
  show ?thesis
    using t q p const kn run
    by (fastforce simp: get_word_def split: option.splits sum.splits dest: resolve_kn_err)
qed

theorem get_word_safe_witness:
  "\<exists>r vs. get_word (boot_state [0x10, 0x46, 9, 0]) 0 1 3 = Some (r, vs) \<and>
    r \<in> {pdPASS, ERR_ELEMENT_TYPE, ERR_OPERANDS, ERR_OVER_ELEMENT_RANG}"
  using get_word_safe [of "boot_state [0x10, 0x46, 9, 0]" 0 1 3]
  by (simp add: operand_ok_def addr_of_def addr_types_def indexed_type_def kn_indexed_type_def)

lemma put_wsel_elements_only: "put_wsel b s i v = Some s' \<Longrightarrow> elements_only s s'"
  by (cases b) (auto simp: set_word_elem_def set_v_elem_def opt_simps)

lemma save_run_words_only: "save_run (put_wsel b) rang s i n vs = Some (r, s') \<Longrightarrow> elements_only s s'"
  by (erule run_pres) (auto intro: put_wsel_elements_only elements_only_trans)

lemma kn_save_save_run:
  "kn_save put rang s start kn off n vs = Some (r, s', ws) \<Longrightarrow> n \<le> length vs \<Longrightarrow>
   save_run put rang s (kn_base start off kn) (n * (4 * unat kn))
     (concat (map (\<lambda>v. bits_of v (4 * unat kn)) (take n vs))) = Some (r, s')"
  using kn_save_run [of n vs put rang s start kn off] by simp

lemma inv_bsel_wf: "inv_bsel b s \<Longrightarrow> wf_state s"
  by (cases b) auto

lemma inv_wsel_wf: "inv_wsel b s \<Longrightarrow> wf_state s"
  by (cases b) auto

text \<open>Resolution of an operand of a known type.\<close>

lemma operand_type: "operand_ok s addr \<Longrightarrow> GET_PU8_DATA (ucode s) (addr + 1) = Some (ucode s ! (addr + 1))"
  by (simp add: operand_ok_def GET_PU8_DATA_def mem_simps)

abbreviation type_at :: "plc_state \<Rightarrow> nat \<Rightarrow> addr_type option" where
  "type_at s addr \<equiv> addr_of (ucode s ! (addr + 1))"

lemma resolve_bank_type:
  "operand_ok s addr \<Longrightarrow> resolve d x s addr off = Some (Some (b, i)) \<Longrightarrow> \<exists>a. type_at s addr = Some a \<and> (d a = Some b \<or> x a = Some b)"
  using operand_type [of s addr] unfolding resolve_def by (auto simp: opt_simps split: option.splits)

text \<open>C29. Writing a 16-bit operand inside the program whose Z number exists, from a buffer that holds the values, stays inside the arrays, keeps the
  store well-formed and changes nothing but soft elements, for every operand type, offset and count, with two exceptions that the code does not
  exclude: V elements are written to the next call layer and need one, and the range check of the type RZ compares with the
  number of D elements, so that type needs at least as many R elements.\<close>

theorem save_word_safe:
  assumes "wf_state s" and "nested s < 8" and "operand_ok s addr" and "unat cnt \<le> length vs"
    and "type_at s addr = Some ADDR_V \<Longrightarrow> nested s < 7" and "type_at s addr = Some ADDR_RZ \<Longrightarrow> word_elem_rang D_AREA s \<le> word_elem_rang R_AREA s"
  shows "\<exists>r s' vs'. save_word s addr vs off cnt = Some (r, s', vs') \<and> wf_state s' \<and> elements_only s s' \<and>
    r \<in> {pdPASS, ERR_ELEMENT_TYPE, ERR_OPERANDS, ERR_OVER_ELEMENT_RANG}"
proof -
  obtain q where q: "resolve_kn (save_word_kn s) (1, 4) (save_word_kn_indexed s) (1, 4) s addr = Some q"
    using resolve_kn_total [OF assms(1,3), of "save_word_kn_indexed s"] word_indexed_types(2) by blast
  obtain p where p: "resolve (save_word_direct s) (save_word_indexed s) s addr off = Some p"
    using resolve_total [OF assms(1,3), of "save_word_indexed s"] word_indexed_types(4) by blast
  have kn: "\<exists>r s' ws. kn_save (put_bsel b) (rang_bsel b s) s start kn off (unat cnt) vs = Some (r, s', ws) \<and>
      wf_state s' \<and> elements_only s s' \<and> (r = pdPASS \<or> r = ERR_OVER_ELEMENT_RANG)"
    if "q = Some (Inr (b, kn, start))" for b kn start
  proof -
    have "inv_bsel b s"
      using resolve_kn_bank [OF q [unfolded that]] word_kn_inv [OF _ assms(1,2)] by blast
    then obtain r s' ws where s': "kn_save (put_bsel b) (rang_bsel b s) s start kn off (unat cnt) vs = Some (r, s', ws)"
        "inv_bsel b s'"
      using bb.kn_save_total [of b s "rang_bsel b s" "unat cnt" vs start kn off] assms(4) by auto
    then show ?thesis
      using save_run_bits_only [OF kn_save_save_run [OF s'(1) assms(4)]] inv_bsel_wf [OF s'(2)]
        kn_save_ret [OF s'(1)] by (auto simp: bits_only_def)
  qed
  have run: "\<exists>r s'. save_run (put_wsel b) rang s i (unat cnt) vs = Some (r, s') \<and>
      wf_state s' \<and> elements_only s s' \<and> (r = pdPASS \<or> r = ERR_OVER_ELEMENT_RANG)"
    if "p = Some ((b, rang), i)" for b rang i
  proof -
    have "inv_wsel b s \<and> rang \<le> rang_wsel b s"
      using resolve_bank_type [OF assms(3) p [unfolded that]] save_word_inv [OF _ assms(1,2)] assms(5,6) by blast
    then obtain r s' where s': "save_run (put_wsel b) rang s i (unat cnt) vs = Some (r, s')" "inv_wsel b s'"
      using wb.save_run_total [of b s rang "unat cnt" vs i] assms(4) by auto
    then show ?thesis
      using save_run_words_only [OF s'(1)] inv_wsel_wf [OF s'(2)] save_run_ret [OF s'(1)] by auto
  qed
  show ?thesis
    using q p kn run assms(1)
    by (fastforce simp: save_word_def split: option.splits sum.splits dest: resolve_kn_err)
qed

theorem save_word_safe_witness:
  "\<exists>r s' vs'. save_word (boot_state [3, 0x32, 9, 0]) 0 [1, 0] 0 2 = Some (r, s', vs') \<and> wf_state s' \<and>
    elements_only (boot_state [3, 0x32, 9, 0]) s' \<and>
    r \<in> {pdPASS, ERR_ELEMENT_TYPE, ERR_OPERANDS, ERR_OVER_ELEMENT_RANG}"
  using save_word_safe [of "boot_state [3, 0x32, 9, 0]" 0 2 "[1, 0]" 0]
  by (simp add: operand_ok_def addr_of_def addr_types_def indexed_type_def kn_indexed_type_def)

lemma resolve_at:
  assumes "operand_ok s addr" and "type_at s addr = Some a"
  shows "resolve d x s addr off = (case d a of Some b \<Rightarrow> do { i \<leftarrow> direct_index s addr off; Some (Some (b, i)) }
    | None \<Rightarrow> (case x a of Some b \<Rightarrow> do { i \<leftarrow> z_index s addr off; Some (Some (b, i)) } | None \<Rightarrow> Some None))"
  unfolding resolve_def operand_type [OF assms(1)] using assms(2) by (simp cong: option.case_cong)

lemma resolve_kn_none:
  assumes "operand_ok s addr" and "type_at s addr = Some a" and "d a = None" and "x a = None"
  shows "resolve_kn d dl x xl s addr = Some None"
  unfolding resolve_kn_def operand_type [OF assms(1)] using assms(2-) by simp

text \<open>The types for which \<open>get_word\<close> and \<open>save_word\<close> name the same elements.\<close>

definition word_type :: "addr_type \<Rightarrow> bool" where
  "word_type a \<longleftrightarrow> a \<in> {ADDR_D, ADDR_DX_Y, ADDR_R, ADDR_Z, ADDR_SD, ADDR_C, ADDR_T, ADDR_DZ, ADDR_CZ, ADDR_TZ, ADDR_VZ}"

lemma word_type_tables:
  assumes "word_type a"
  shows "save_word_direct s a = map_option (\<lambda>b. (b, rang_wsel b s)) (get_word_direct s a)"
    "save_word_indexed s a = map_option (\<lambda>b. (b, rang_wsel b s)) (get_word_indexed s a)"
    "get_word_kn s a = None" "get_word_kn_indexed s a = None" "save_word_kn s a = None"
    "save_word_kn_indexed s a = None" "a \<noteq> ADDR_CONST" "get_word_indexed s a \<noteq> Some (Words Z_AREA)"
  using assms
  by (cases a; simp add: word_type_def save_word_direct_def get_word_direct_def save_word_indexed_def
      get_word_indexed_def get_word_kn_def get_word_kn_indexed_def save_word_kn_def save_word_kn_indexed_def)+

lemma get_word_at:
  assumes "operand_ok s addr" and "type_at s addr = Some a" and "word_type a"
  shows "get_word s addr off cnt = do { p \<leftarrow> resolve (get_word_direct s) (get_word_indexed s) s addr off;
    case p of Some (b, i) \<Rightarrow> get_run (get_wsel b) (rang_wsel b s) s i (unat cnt)
    | None \<Rightarrow> Some (ERR_ELEMENT_TYPE, []) }"
  unfolding get_word_def operand_type [OF assms(1)]
  using assms(2) word_type_tables [OF assms(3)] resolve_kn_none [OF assms(1,2)] by simp

lemma save_word_at:
  assumes "operand_ok s addr" and "type_at s addr = Some a" and "word_type a"
  shows "save_word s addr vs off cnt = do { p \<leftarrow> resolve (save_word_direct s) (save_word_indexed s) s addr off;
    case p of Some ((b, rang), i) \<Rightarrow> do { (r, s') \<leftarrow> save_run (put_wsel b) rang s i (unat cnt) vs; Some (r, s', vs) }
    | None \<Rightarrow> Some (ERR_ELEMENT_TYPE, s, vs) }"
  unfolding save_word_def using word_type_tables [OF assms(3)] resolve_kn_none [OF assms(1,2)] by simp

lemma put_wsel_other_area:
  "put_wsel b s i v = Some s' \<Longrightarrow> b \<noteq> Words w \<Longrightarrow> get_word_elem w s' = get_word_elem w s"
  by (cases b) (auto simp: get_word_elem_def set_word_elem_def set_v_elem_def opt_simps fun_eq_iff)

lemma save_run_other_area:
  "save_run (put_wsel b) rang s i n vs = Some (r, s') \<Longrightarrow> b \<noteq> Words w \<Longrightarrow>
   get_word_elem w s' = get_word_elem w s"
  by (erule run_pres [where R = "\<lambda>s s'. get_word_elem w s' = get_word_elem w s"])
    (auto intro: put_wsel_other_area)

lemma elements_only_tables:
  assumes "elements_only s s'"
  shows "get_word_direct s' = get_word_direct s" "get_word_indexed s' = get_word_indexed s"
    "get_word_kn s' = get_word_kn s" "get_word_kn_indexed s' = get_word_kn_indexed s"
    "rang_wsel b s' = rang_wsel b s" "rang_bsel c s' = rang_bsel c s"
    "direct_index s' addr off = direct_index s addr off" "operand_ok s' addr = operand_ok s addr"
  using elements_only_eq [OF assms]
  unfolding get_word_direct_def get_word_indexed_def get_word_kn_def get_word_kn_indexed_def
    direct_index_def operand_ok_def
  by (simp_all cong: option.case_cong, cases b, simp_all, cases c, simp_all)

lemma z_index_same:
  "elements_only s s' \<Longrightarrow> get_word_elem Z_AREA s' = get_word_elem Z_AREA s \<Longrightarrow> z_index s' addr off = z_index s addr off"
  by (simp add: z_index_def elements_only_eq)

text \<open>C25. What \<open>save_word\<close> writes to D, R, Z, SD, C and T elements, or to D, C, T and V elements indexed by a Z element, \<open>get_word\<close>
  reads back from the same operand, and the caller's buffer is unchanged.  V elements without index are not read back, since reading takes
  another call layer; R elements indexed by Z have different range checks for reading and writing.\<close>

theorem save_get_word:
  assumes wf: "wf_state s" and nest: "nested s < 8" and ok: "operand_ok s addr" and len: "unat cnt \<le> length vs"
    and ty: "type_at s addr = Some a" "word_type a"
    and save: "save_word s addr vs off cnt = Some (pdPASS, s', vs')"
  shows "get_word s' addr off cnt = Some (pdPASS, take (unat cnt) vs) \<and> vs' = vs"
proof -
  note tbl = word_type_tables [OF ty(2)]
  obtain b i where run: "save_run (put_wsel b) (rang_wsel b s) s i (unat cnt) vs = Some (pdPASS, s')" and vs': "vs' = vs"
    and b: "(get_word_direct s a = Some b \<and> direct_index s addr off = Some i) \<or>
      (get_word_direct s a = None \<and> get_word_indexed s a = Some b \<and> z_index s addr off = Some i)"
    using save by (auto simp: save_word_at [OF ok ty] resolve_at [OF ok ty(1)] tbl opt_simps split: option.split_asm)
  have inv: "inv_wsel b s"
    using b get_word_inv [OF _ wf nest] by blast
  have eo: "elements_only s s'"
    by (rule save_run_words_only [OF run])
  note eqs = elements_only_tables [OF eo] elements_only_eq [OF eo]
  have ok': "operand_ok s' addr" and ty': "type_at s' addr = Some a"
    using ok ty by (simp_all add: eqs)
  have z: "z_index s' addr off = z_index s addr off" if "get_word_indexed s a = Some b"
    using that tbl(8) [of s] by (intro z_index_same [OF eo save_run_other_area [OF run]]) auto
  have "resolve (get_word_direct s') (get_word_indexed s') s' addr off = Some (Some (b, i))"
    using b z by (auto simp: resolve_at [OF ok' ty'] eqs)
  then show ?thesis
    using wb.save_get_run [OF inv _ len run] by (simp add: get_word_at [OF ok' ty' ty(2)] eqs vs')
qed

theorem save_get_word_witness:
  "\<exists>s'. save_word (boot_state [3, 0x32, 9, 0]) 0 [7, 8] 0 2 = Some (pdPASS, s', [7, 8]) \<and>
    get_word s' 0 0 2 = Some (pdPASS, [7, 8])"
proof -
  let ?s = "boot_state [3, 0x32, 9, 0]"
  have ok: "operand_ok ?s 0" "type_at ?s 0 = Some ADDR_DZ" "word_type ADDR_DZ"
    by (simp_all add: operand_ok_def addr_of_def addr_types_def indexed_type_def kn_indexed_type_def word_type_def)
  obtain s' where s': "save_word ?s 0 [7, 8] 0 2 = Some (pdPASS, s', [7, 8])"
    by (simp add: save_word_at [OF ok] resolve_at [OF ok(1,2)] save_word_direct_def save_word_indexed_def
        GET_PU8_DATA_def GET_PU16_DATA_def z_index_def rd_def wr_def get_word_elem_def bytes_u16_def run_numeral
        set_word_elem_def)
  then show ?thesis
    using save_get_word [of ?s 0 2 "[7, 8]" ADDR_DZ 0 s'] ok by simp
qed

text \<open>The bit-group types that both functions know.\<close>

definition kn_type :: "addr_type \<Rightarrow> bool" where
  "kn_type a \<longleftrightarrow> a \<in> {ADDR_KnY, ADDR_KnM, ADDR_KnS, ADDR_KnLM, ADDR_KnYZ, ADDR_KnMZ, ADDR_KnSZ, ADDR_KnLMZ}"

lemma kn_type_tables:
  assumes "kn_type a"
  shows "save_word_kn s a = get_word_kn s a" "save_word_kn_indexed s a = get_word_kn_indexed s a" "a \<noteq> ADDR_CONST"
    "get_word_kn s a \<noteq> None \<or> get_word_kn_indexed s a \<noteq> None"
  using assms
  by (cases a; simp add: kn_type_def save_word_kn_def get_word_kn_def save_word_kn_indexed_def get_word_kn_indexed_def)+

lemma resolve_kn_cong:
  assumes "operand_ok s addr" and "type_at s addr = Some a" and "ucode s' = ucode s"
    and "get_word_elem Z_AREA s' = get_word_elem Z_AREA s" and "d' a = d a" and "x' a = x a"
  shows "resolve_kn d' dl x' xl s' addr = resolve_kn d dl x xl s addr"
  unfolding resolve_kn_def assms(3,4) operand_type [OF assms(1)] using assms(2,5,6) by (simp cong: option.case_cong)

text \<open>The number of digits that the operand selects.\<close>

definition kn_digits :: "plc_state \<Rightarrow> nat \<Rightarrow> u8" where
  "kn_digits s addr = (case type_at s addr of Some a \<Rightarrow>
      if kn_indexed_type a then drop_bit 4 (ucode s ! addr AND 0xF0) else ucode s ! addr | None \<Rightarrow> 0)"

lemma resolve_kn_digits:
  assumes "operand_ok s addr" and "type_at s addr = Some a"
    and "resolve_kn (get_word_kn s) dl (get_word_kn_indexed s) xl s addr = Some (Some (Inr (b, kn, start)))"
  shows "kn = kn_digits s addr"
proof -
  have "get_word_kn s a = Some c \<Longrightarrow> \<not> kn_indexed_type a" for c
    by (cases a) (simp_all add: get_word_kn_def kn_indexed_type_def)
  then show ?thesis
    using assms(2,3) unfolding resolve_kn_def operand_type [OF assms(1)]
    by (auto simp: kn_digits_def Let_def opt_simps GET_PU8_DATA_def word_indexed_types(1)
        split: option.split_asm if_split_asm)
qed

lemma resolve_kn_some:
  assumes "operand_ok s addr" and "type_at s addr = Some a" and "kn_type a"
  shows "resolve_kn (get_word_kn s) dl (get_word_kn_indexed s) xl s addr \<noteq> Some None"
  unfolding resolve_kn_def operand_type [OF assms(1)] using assms(2) kn_type_tables(4) [OF assms(3), of s]
  by (auto simp: Let_def opt_simps split: option.splits if_splits)

text \<open>C26. What \<open>save_word\<close> writes to a bit group, \<open>get_word\<close> reads back from the same operand,
  reduced to the number of bits of the group; for every offset and count.\<close>

theorem save_get_word_kn:
  assumes wf: "wf_state s" and nest: "nested s < 8" and ok: "operand_ok s addr" and len: "unat cnt \<le> length vs"
    and ty: "type_at s addr = Some a" "kn_type a"
    and save: "save_word s addr vs off cnt = Some (pdPASS, s', vs')"
  shows "get_word s' addr off cnt = Some (pdPASS, map (take_bit (4 * unat (kn_digits s addr))) (take (unat cnt) vs))"
proof -
  note tbl = kn_type_tables [OF ty(2)]
  have "resolve_kn (save_word_kn s) (1, 4) (save_word_kn_indexed s) (1, 4) s addr =
      resolve_kn (get_word_kn s) (1, 4) (get_word_kn_indexed s) (1, 4) s addr" (is "_ = ?q")
    using tbl by (intro resolve_kn_cong [OF ok ty(1)]) auto
  note eq = this
  have "?q \<noteq> None"
  proof
    assume "?q = None"
    then show False
      using save by (simp add: save_word_def eq)
  qed
  then obtain q where q: "?q = Some (Some q)"
    using resolve_kn_some [OF ok ty] by (metis option.exhaust)
  with save obtain b kn start where q: "?q = Some (Some (Inr (b, kn, start)))"
    and run: "kn_save (put_bsel b) (rang_bsel b s) s start kn off (unat cnt) vs = Some (pdPASS, s', vs')"
    by (cases q) (auto simp: save_word_def eq dest: resolve_kn_err)
  have kn: "kn = kn_digits s addr"
    by (rule resolve_kn_digits [OF ok ty(1) q])
  have inv: "inv_bsel b s"
    using resolve_kn_bank [OF q] word_kn_inv [OF _ wf nest] by blast
  have bo: "bits_only s s'"
    by (rule save_run_bits_only [OF kn_save_save_run [OF run len]])
  then have eo: "elements_only s s'"
    by (simp add: bits_only_def)
  note eqs = elements_only_tables [OF eo] elements_only_eq [OF eo]
  have "resolve_kn (get_word_kn s') (1, 4) (get_word_kn_indexed s') (1, 4) s' addr = ?q"
    using bits_only_eq [OF bo] eqs by (intro resolve_kn_cong [OF ok ty(1)]) auto
  moreover have "GET_PU8_DATA (ucode s') (addr + 1) = Some (ucode s ! (addr + 1))"
    using operand_type [OF ok] by (simp add: eqs)
  ultimately show ?thesis
    using bb.kn_save_get [OF inv _ len run] ty tbl(3) by (simp add: get_word_def q eqs kn)
qed

theorem save_get_word_kn_witness:
  "\<exists>s' vs'. save_word (boot_state [1, 0x0E, 9, 0]) 0 [0x1B] 0 1 = Some (pdPASS, s', vs') \<and>
    get_word s' 0 0 1 = Some (pdPASS, [0xB])"
proof -
  let ?s = "boot_state [1, 0x0E, 9, 0]"
  have ok: "operand_ok ?s 0" "type_at ?s 0 = Some ADDR_KnM" "kn_type ADDR_KnM" "kn_digits ?s 0 = 1"
    by (simp_all add: operand_ok_def addr_of_def addr_types_def indexed_type_def kn_indexed_type_def kn_type_def
        kn_digits_def)
  have "resolve_kn (save_word_kn ?s) (1, 4) (save_word_kn_indexed ?s) (1, 4) ?s 0 = Some (Some (Inr (Bits M_ELEMENT, 1, 9)))"
    by (simp add: resolve_kn_def GET_PU8_DATA_def GET_PU16_DATA_def rd_def addr_of_def addr_types_def
        save_word_kn_def bytes_u16_def)
  then obtain s' vs' where s': "save_word ?s 0 [0x1B] 0 1 = Some (pdPASS, s', vs')"
    by (simp add: save_word_def kn_base_def run_numeral set_bit_elem_def set_bit_alt)
  then show ?thesis
    using save_get_word_kn [of ?s 0 1 "[0x1B]" ADDR_KnM 0 s' vs'] ok by (simp add: take_bit_eq_mod)
qed

lemma put_v_only: "set_v_elem l s i v = Some s' \<Longrightarrow> elements_only s s'"
  using put_wsel_elements_only [of "Vs l"] by simp

lemma put_v_other_layer:
  assumes "set_v_elem (l + 1) s i v = Some s'" and "j < v_elem_rang s" and "l < 7"
  shows "get_v_elem l s' j = get_v_elem l s j"
proof -
  have "unat (l + 1) = unat l + 1"
    using assms(3) by (simp add: unat_word_ariths word_less_nat_alt)
  then have "v_index (gtp_PlcElementInfo s) l (unat j) \<noteq> v_index (gtp_PlcElementInfo s) (l + 1) (unat i)"
    using assms(2) by (simp add: v_index_def word_less_nat_alt)
  then show ?thesis
    using assms(1) by (auto simp: get_v_elem_def set_v_elem_def opt_simps rd_def)
qed


text \<open>C31. The V elements are written one layer above the one they are read from: whatever
  \<open>save_word\<close> stores through a V operand, \<open>get_word\<close> on that operand returns afterwards exactly
  what it returned before.\<close>

theorem save_word_V_not_read_back:
  assumes "operand_ok s addr" and "type_at s addr = Some ADDR_V" and "nested s < 7"
    and "save_word s addr vs off cnt = Some (r, s', vs')"
  shows "get_word s' addr off' cnt' = get_word s addr off' cnt'"
proof -
  have kn: "resolve_kn (save_word_kn s) (1, 4) (save_word_kn_indexed s) (1, 4) s addr = Some None"
    by (rule resolve_kn_none [OF assms(1,2)]) (simp_all add: save_word_kn_def save_word_kn_indexed_def)
  obtain i where run: "save_run (put_wsel (Vs (nested s + 1))) (v_elem_rang s) s i (unat cnt) vs = Some (r, s')"
    using assms(4)
    by (auto simp: save_word_def kn resolve_at [OF assms(1,2)] save_word_direct_def opt_simps)
  have eo: "elements_only s s'"
    by (rule save_run_words_only [OF run])
  note eqs = elements_only_tables [OF eo] elements_only_eq [OF eo]
  have ok': "operand_ok s' addr" and ty': "type_at s' addr = Some ADDR_V"
    using assms by (simp_all add: eqs)
  have "nested s' = nested s \<and> v_elem_rang s' = v_elem_rang s \<and>
      (\<forall>j < v_elem_rang s. get_v_elem (nested s) s' j = get_v_elem (nested s) s j)"
    using run
    by (rule run_pres [where R = "\<lambda>t t'. nested t' = nested t \<and> v_elem_rang t' = v_elem_rang t \<and>
        (\<forall>j < v_elem_rang t. get_v_elem (nested s) t' j = get_v_elem (nested s) t j)"])
      (auto simp: put_v_other_layer [OF _ _ assms(3)] dest: elements_only_eq [OF put_v_only])
  then have same: "get_run (get_v_elem (nested s)) (v_elem_rang s) s' i n = get_run (get_v_elem (nested s)) (v_elem_rang s) s i n"
    for i n
    by (intro get_run_cong) auto
  have "get_word t addr off' cnt' = do { i \<leftarrow> direct_index t addr off';
      get_run (get_v_elem (nested t)) (v_elem_rang t) t i (unat cnt') }"
    if "operand_ok t addr" "type_at t addr = Some ADDR_V" for t
    using operand_type [OF that(1)] that(2) resolve_kn_none [OF that, of "get_word_kn t" "get_word_kn_indexed t"]
    by (simp add: get_word_def resolve_at [OF that] get_word_direct_def get_word_kn_def get_word_kn_indexed_def)
  then show ?thesis
    using assms(1,2) ok' ty' by (simp add: eqs same)
qed

theorem save_word_V_not_read_back_witness:
  "\<exists>s' vs'. save_word (boot_state [0, 0x16, 9, 0]) 0 [7] 0 1 = Some (pdPASS, s', vs') \<and>
    get_word s' 0 0 1 = get_word (boot_state [0, 0x16, 9, 0]) 0 0 1"
proof -
  let ?s = "boot_state [0, 0x16, 9, 0]"
  have ok: "operand_ok ?s 0" "type_at ?s 0 = Some ADDR_V"
    by (simp_all add: operand_ok_def addr_of_def addr_types_def indexed_type_def kn_indexed_type_def)
  have kn: "resolve_kn (save_word_kn ?s) (1, 4) (save_word_kn_indexed ?s) (1, 4) ?s 0 = Some None"
    by (rule resolve_kn_none [OF ok]) (simp_all add: save_word_kn_def save_word_kn_indexed_def)
  obtain s' vs' where s': "save_word ?s 0 [7] 0 1 = Some (pdPASS, s', vs')"
    by (simp add: save_word_def kn resolve_at [OF ok] save_word_direct_def direct_index_def GET_PU16_DATA_def rd_def
        wr_def bytes_u16_def set_v_elem_def v_index_def)
  then show ?thesis
    using save_word_V_not_read_back [OF ok _ s', of 0 1] by auto
qed

end
