(* ===== verification/PLC_ParseDWord.thy ===== *)
theory PLC_ParseDWord
  imports PLC_ParseWord
begin

text \<open>
  Operand access of \<open>plc_parseaddr.c\<close> for 32-bit operands: \<open>get_dword\<close>, \<open>get_dword_addr\<close>,
  \<open>save_dword\<close>, \<open>get_float\<close> and \<open>save_float\<close>.  A 32-bit value is two consecutive word elements,
  the low half first, or one 32-bit counter.  The float functions move the bit pattern of a
  value, which the model keeps as the 32-bit word.  The theory shows that a loop over 32-bit
  values is the loop over twice as many 16-bit elements, and draws the round trips from that.
\<close>

section \<open>Pairs of word elements\<close>

text \<open>\<open>(element[i+1] << 16) + element[i]\<close>, the two halves possibly from different banks.\<close>

definition pair_get :: "('s \<Rightarrow> u16 \<Rightarrow> u16 option) \<Rightarrow> ('s \<Rightarrow> u16 \<Rightarrow> u16 option) \<Rightarrow> 's \<Rightarrow> u16 \<Rightarrow> u32 option" where
  "pair_get get_lo get_hi s i =
     do { hi \<leftarrow> get_hi s (i + 1); lo \<leftarrow> get_lo s i; Some (words_u32 lo hi) }"

definition pair_put :: "('s \<Rightarrow> u16 \<Rightarrow> u16 \<Rightarrow> 's option) \<Rightarrow> 's \<Rightarrow> u16 \<Rightarrow> u32 \<Rightarrow> 's option" where
  "pair_put put s i v = do { s' \<leftarrow> put s i (lo16 v); put s' (i + 1) (hi16 v) }"

datatype dword_sel = Pairs word_sel word_sel | C32s

primrec get_dsel :: "dword_sel \<Rightarrow> plc_state \<Rightarrow> u16 \<Rightarrow> u32 option" where
  "get_dsel (Pairs lo hi) = pair_get (get_wsel lo) (get_wsel hi)"
| "get_dsel C32s = get_c32_elem"

primrec put_dsel :: "dword_sel \<Rightarrow> plc_state \<Rightarrow> u16 \<Rightarrow> u32 \<Rightarrow> plc_state option" where
  "put_dsel (Pairs lo hi) = pair_put (put_wsel lo)"
| "put_dsel C32s = set_c32_elem"

text \<open>\<open>lsv_ElementIndex += 2\<close>, or \<open>++\<close> for the counters.\<close>

primrec step_dsel :: "dword_sel \<Rightarrow> u16" where
  "step_dsel (Pairs lo hi) = 2"
| "step_dsel C32s = 1"

text \<open>\<open>lsv_ElementIndex < (RANG-1)\<close>, computed in \<open>int\<close>, and \<open>lsv_ElementIndex < RANG\<close>.\<close>

definition below_last :: "u16 \<Rightarrow> u16 \<Rightarrow> bool" where
  "below_last rang i \<longleftrightarrow> int (unat i) < int (unat rang) - 1"

definition below :: "u16 \<Rightarrow> u16 \<Rightarrow> bool" where
  "below rang i \<longleftrightarrow> i < rang"

fun get_drun :: "('s \<Rightarrow> u16 \<Rightarrow> 'v option) \<Rightarrow> (u16 \<Rightarrow> bool) \<Rightarrow> u16 \<Rightarrow> 's \<Rightarrow> u16 \<Rightarrow> nat \<Rightarrow> (plc_ret \<times> 'v list) option" where
  "get_drun get chk d s i 0 = Some (pdPASS, [])"
| "get_drun get chk d s i (Suc n) =
     (if chk i then do { v \<leftarrow> get s i; (r, vs) \<leftarrow> get_drun get chk d s (i + d) n; Some (r, v # vs) }
      else Some (ERR_OVER_ELEMENT_RANG, []))"

fun save_drun :: "('s \<Rightarrow> u16 \<Rightarrow> 'v \<Rightarrow> 's option) \<Rightarrow> (u16 \<Rightarrow> bool) \<Rightarrow> u16 \<Rightarrow> 's \<Rightarrow> u16 \<Rightarrow> nat \<Rightarrow> 'v list \<Rightarrow> (plc_ret \<times> 's) option" where
  "save_drun put chk d s i 0 vs = Some (pdPASS, s)"
| "save_drun put chk d s i (Suc n) vs =
     (if chk i then
        (case vs of [] \<Rightarrow> None
         | v # vs' \<Rightarrow> do { s' \<leftarrow> put s i v; save_drun put chk d s' (i + d) n vs' })
      else Some (ERR_OVER_ELEMENT_RANG, s))"

section \<open>Reading double words\<close>

definition get_dword_const :: "plc_state \<Rightarrow> nat \<Rightarrow> (plc_ret \<times> u32 list) option" where
  "get_dword_const s addr =
     do { k \<leftarrow> GET_PU8_DATA (ucode s) addr;
          if k < 2 \<or> 3 < k then Some (ERR_ELEMENT_TYPE, [])
          else do { v \<leftarrow> GET_PU32_DATA (ucode s) (addr + 2); Some (pdPASS, [v]) } }"

text \<open>
  Tables of \<open>get_dword\<close>: the elements, the bound of the range check.  The high half of a V value
  is taken from the next call layer, and the check of \<open>ADDR_V\<close> uses the number of SD elements.
\<close>

definition get_dword_direct :: "plc_state \<Rightarrow> addr_type \<Rightarrow> (dword_sel \<times> (u16 \<Rightarrow> bool)) option" where
  "get_dword_direct s a = (case a of
       ADDR_D \<Rightarrow> Some (Pairs (Words D_AREA) (Words D_AREA), below_last (word_elem_rang D_AREA s))
     | ADDR_R \<Rightarrow> Some (Pairs (Words R_AREA) (Words R_AREA), below_last (word_elem_rang R_AREA s))
     | ADDR_SD \<Rightarrow> Some (Pairs (Words SD_AREA) (Words SD_AREA), below_last (word_elem_rang SD_AREA s))
     | ADDR_C \<Rightarrow> Some (C32s, below_last (bit_elem_rang C_ELEMENT s))
     | ADDR_V \<Rightarrow> Some (Pairs (Vs (nested s)) (Vs (nested s + 1)), below_last (word_elem_rang SD_AREA s))
     | _ \<Rightarrow> None)"

definition get_dword_indexed :: "plc_state \<Rightarrow> addr_type \<Rightarrow> (dword_sel \<times> (u16 \<Rightarrow> bool)) option" where
  "get_dword_indexed s a = (case a of
       ADDR_DZ \<Rightarrow> Some (Pairs (Words D_AREA) (Words D_AREA), below_last (word_elem_rang D_AREA s))
     | ADDR_RZ \<Rightarrow> Some (Pairs (Words R_AREA) (Words R_AREA), below_last (word_elem_rang R_AREA s))
     | ADDR_CZ \<Rightarrow> Some (C32s, below_last (bit_elem_rang C_ELEMENT s))
     | ADDR_VZ \<Rightarrow> Some (Pairs (Vs (nested s)) (Vs (nested s + 1)), below_last (v_elem_rang s))
     | _ \<Rightarrow> None)"

text \<open>The bit groups are those of \<open>get_word\<close>, of five to eight digits (one to eight when indexed).
  The offset counts values, so word elements start at twice the offset.\<close>

definition get_dword :: "plc_state \<Rightarrow> nat \<Rightarrow> u16 \<Rightarrow> u16 \<Rightarrow> (plc_ret \<times> u32 list) option" where
  "get_dword s addr off cnt =
     do { t \<leftarrow> GET_PU8_DATA (ucode s) (addr + 1);
          if addr_of t = Some ADDR_CONST then get_dword_const s addr
          else do {
            q \<leftarrow> resolve_kn (get_word_kn s) (5, 8) (get_word_kn_indexed s) (1, 8) s addr;
            case q of
              Some (Inl r) \<Rightarrow> Some (r, [])
            | Some (Inr (b, kn, start)) \<Rightarrow> kn_get (get_bsel b) (rang_bsel b s) s start kn off (unat cnt)
            | None \<Rightarrow> do {
                p \<leftarrow> resolve (get_dword_direct s) (get_dword_indexed s) s addr (off * 2);
                case p of
                  Some ((b, chk), i) \<Rightarrow> get_drun (get_dsel b) chk (step_dsel b) s i (unat cnt)
                | None \<Rightarrow> Some (ERR_ELEMENT_TYPE, []) } } }"

text \<open>
  \<open>get_dword_addr\<close>: the indexed cases advance the pointer by one before they read the Z number,
  so that the type byte is used for it.
\<close>

definition z_index_from_type :: "plc_state \<Rightarrow> nat \<Rightarrow> u16 option" where
  "z_index_from_type s addr =
     do { k \<leftarrow> GET_PU8_DATA (ucode s) (addr + 1);
          z \<leftarrow> get_word_elem Z_AREA s (ucast k);
          w \<leftarrow> GET_PU16_DATA (ucode s) (addr + 2);
          Some (z + w) }"

definition get_dword_addr :: "plc_state \<Rightarrow> nat \<Rightarrow> u16 \<Rightarrow> (plc_ret \<times> (word_area \<times> u16) option) option" where
  "get_dword_addr s addr num =
     do { t \<leftarrow> GET_PU8_DATA (ucode s) (addr + 1);
          p \<leftarrow> (case Option.bind (addr_of t) get_word_addr_direct of
                  Some a \<Rightarrow> do { i \<leftarrow> direct_index s addr 0; Some (Some (a, i)) }
                | None \<Rightarrow>
                  (case Option.bind (addr_of t) get_word_addr_indexed of
                     Some a \<Rightarrow> do { i \<leftarrow> z_index_from_type s addr; Some (Some (a, i)) }
                   | None \<Rightarrow> Some None));
          case p of
            Some (a, i) \<Rightarrow>
              if i AND 1 \<noteq> 0 \<or> unat (word_elem_rang a s) < unat i + 2 * unat num
              then Some (ERR_OVER_ELEMENT_RANG, None)
              else Some (pdPASS, Some (a, i))
          | None \<Rightarrow> Some (ERR_ELEMENT_TYPE, None) }"

section \<open>Writing double words\<close>

text \<open>A counter operand takes the plain offset when direct, twice the offset when indexed; the
  table's last component is the factor.\<close>

definition save_dword_direct :: "plc_state \<Rightarrow> addr_type \<Rightarrow> (dword_sel \<times> (u16 \<Rightarrow> bool) \<times> u16) option" where
  "save_dword_direct s a = (case a of
       ADDR_D \<Rightarrow> Some (Pairs (Words D_AREA) (Words D_AREA), below_last (word_elem_rang D_AREA s), 2)
     | ADDR_R \<Rightarrow> Some (Pairs (Words R_AREA) (Words R_AREA), below_last (word_elem_rang R_AREA s), 2)
     | ADDR_SD \<Rightarrow> Some (Pairs (Words SD_AREA) (Words SD_AREA), below_last (word_elem_rang SD_AREA s), 2)
     | ADDR_C \<Rightarrow> Some (C32s, below (bit_elem_rang C_ELEMENT s), 1)
     | ADDR_V \<Rightarrow> Some (Pairs (Vs (nested s)) (Vs (nested s)), below_last (v_elem_rang s), 2)
     | _ \<Rightarrow> None)"

definition save_dword_indexed :: "plc_state \<Rightarrow> addr_type \<Rightarrow> (dword_sel \<times> (u16 \<Rightarrow> bool) \<times> u16) option" where
  "save_dword_indexed s a = (case a of
       ADDR_DZ \<Rightarrow> Some (Pairs (Words D_AREA) (Words D_AREA), below_last (word_elem_rang D_AREA s), 2)
     | ADDR_RZ \<Rightarrow> Some (Pairs (Words R_AREA) (Words R_AREA), below_last (word_elem_rang R_AREA s), 2)
     | ADDR_CZ \<Rightarrow> Some (C32s, below (bit_elem_rang C_ELEMENT s), 2)
     | ADDR_VZ \<Rightarrow> Some (Pairs (Vs (nested s)) (Vs (nested s)), below_last (v_elem_rang s), 2)
     | _ \<Rightarrow> None)"

definition save_dword :: "plc_state \<Rightarrow> nat \<Rightarrow> u32 list \<Rightarrow> u16 \<Rightarrow> u16 \<Rightarrow> (plc_ret \<times> plc_state \<times> u32 list) option" where
  "save_dword s addr vs off cnt =
     do { q \<leftarrow> resolve_kn (save_word_kn s) (5, 8) (save_word_kn_indexed s) (5, 8) s addr;
          case q of
            Some (Inl r) \<Rightarrow> Some (r, s, vs)
          | Some (Inr (b, kn, start)) \<Rightarrow> kn_save (put_bsel b) (rang_bsel b s) s start kn off (unat cnt) vs
          | None \<Rightarrow> do {
              p \<leftarrow> resolve (save_dword_direct s) (save_dword_indexed s) s addr 0;
              case p of
                Some ((b, chk, f), i) \<Rightarrow>
                  do { (r, s') \<leftarrow> save_drun (put_dsel b) chk (step_dsel b) s (i + off * f) (unat cnt) vs;
                       Some (r, s', vs) }
              | None \<Rightarrow> Some (ERR_ELEMENT_TYPE, s, vs) } }"

section \<open>Floating-point operands\<close>

definition get_float_const :: "plc_state \<Rightarrow> nat \<Rightarrow> (plc_ret \<times> u32 list) option" where
  "get_float_const s addr =
     do { k \<leftarrow> GET_PU8_DATA (ucode s) addr;
          if k \<noteq> 4 then Some (ERR_ELEMENT_TYPE, [])
          else do { v \<leftarrow> GET_PU32_DATA (ucode s) (addr + 2); Some (pdPASS, [v]) } }"

definition float_direct :: "plc_state \<Rightarrow> addr_type \<Rightarrow> word_sel option" where
  "float_direct s a = (case a of
       ADDR_D \<Rightarrow> Some (Words D_AREA)
     | ADDR_R \<Rightarrow> Some (Words R_AREA)
     | ADDR_V \<Rightarrow> Some (Vs (nested s))
     | _ \<Rightarrow> None)"

definition float_indexed :: "plc_state \<Rightarrow> addr_type \<Rightarrow> word_sel option" where
  "float_indexed s a = (case a of
       ADDR_DZ \<Rightarrow> Some (Words D_AREA)
     | ADDR_RZ \<Rightarrow> Some (Words R_AREA)
     | ADDR_VZ \<Rightarrow> Some (Vs (nested s))
     | _ \<Rightarrow> None)"

definition get_float :: "plc_state \<Rightarrow> nat \<Rightarrow> u16 \<Rightarrow> u16 \<Rightarrow> (plc_ret \<times> u32 list) option" where
  "get_float s addr off cnt =
     do { t \<leftarrow> GET_PU8_DATA (ucode s) (addr + 1);
          if addr_of t = Some ADDR_CONST then get_float_const s addr
          else do {
            p \<leftarrow> resolve (float_direct s) (float_indexed s) s addr (off * 2);
            case p of
              Some (b, i) \<Rightarrow>
                get_drun (get_dsel (Pairs b b)) (below_last (rang_wsel b s)) 2 s i (unat cnt)
            | None \<Rightarrow> Some (ERR_ELEMENT_TYPE, []) } }"

definition save_float :: "plc_state \<Rightarrow> nat \<Rightarrow> u32 list \<Rightarrow> u16 \<Rightarrow> u16 \<Rightarrow> (plc_ret \<times> plc_state) option" where
  "save_float s addr vs off cnt =
     do { p \<leftarrow> resolve (float_direct s) (float_indexed s) s addr (off * 2);
          case p of
            Some (b, i) \<Rightarrow>
              save_drun (put_dsel (Pairs b b)) (below_last (rang_wsel b s)) 2 s i (unat cnt) vs
          | None \<Rightarrow> Some (ERR_ELEMENT_TYPE, s) }"

section \<open>A run of double words is a run of words\<close>

fun halves :: "u32 list \<Rightarrow> u16 list" where
  "halves [] = []"
| "halves (v # vs) = lo16 v # hi16 v # halves vs"

fun join :: "u16 list \<Rightarrow> u32 list" where
  "join (lo # hi # ws) = words_u32 lo hi # join ws"
| "join ws = []"

lemma join_halves [simp]: "join (halves vs) = vs"
  by (induction vs) simp_all

lemma length_halves [simp]: "length (halves vs) = 2 * length vs"
  by (induction vs) simp_all

lemma take_halves: "take (2 * n) (halves vs) = halves (take n vs)"
proof (induction vs arbitrary: n)
  case (Cons v vs)
  then show ?case
    by (cases n) simp_all
qed simp

lemma below_last_nat: "below_last rang i \<longleftrightarrow> unat i + 1 < unat rang"
  unfolding below_last_def by linarith

lemma below_last_run: "unat i + 2 * Suc n \<le> unat rang \<Longrightarrow>
   below_last rang i \<and> i < rang \<and> i + 1 < rang \<and> unat (i + 2) = unat i + 2"
  using unat_add_of_nat [of i 1] unat_add_of_nat [of i 2] unat_lt_16 [of rang]
  by (simp add: below_last_nat word_less_nat_alt)

lemma get_drun_words:
  "unat i + 2 * n \<le> unat rang \<Longrightarrow>
   get_drun (pair_get get get) (below_last rang) 2 s i n =
     map_option (\<lambda>(r, ws). (r, join ws)) (get_run get rang s i (2 * n))"
proof (induction n arbitrary: i)
  case (Suc n)
  note b = below_last_run [OF Suc.prems]
  show ?case
    using Suc b by (auto simp: pair_get_def add.commute [of 2 i] split: Option.bind_splits)
qed simp

lemma save_drun_words:
  "unat i + 2 * n \<le> unat rang \<Longrightarrow> n \<le> length vs \<Longrightarrow>
   save_drun (pair_put put) (below_last rang) 2 s i n vs = save_run put rang s i (2 * n) (halves vs)"
proof (induction n arbitrary: i s vs)
  case (Suc n)
  note b = below_last_run [OF Suc.prems(1)]
  obtain v vs' where "vs = v # vs'"
    using Suc.prems(2) by (cases vs) auto
  then show ?case
    using Suc b by (auto simp: pair_put_def add.commute [of 2 i] split: Option.bind_splits)
qed simp

text \<open>A run that passes lies below the bound.\<close>

lemma save_drun_pass:
  "save_drun put (below_last rang) 2 s i n vs = Some (pdPASS, s') \<Longrightarrow> n = 0 \<or> unat i + 2 * n \<le> unat rang"
proof (induction n arbitrary: i s vs)
  case (Suc n)
  then obtain v vs' s1 where "below_last rang i" "save_drun put (below_last rang) 2 s1 (i + 2) n vs' = Some (pdPASS, s')"
    by (auto simp: opt_simps split: if_splits list.splits)
  moreover from this have "unat (i + 2) = unat i + 2"
    using unat_add_of_nat [of i 2] unat_lt_16 [of rang] by (simp add: below_last_nat)
  ultimately show ?case
    using Suc.IH by (fastforce simp: below_last_nat)
qed simp

lemma pair_round_trip:
  assumes inv: "inv_wsel b s" and len: "n \<le> length vs"
    and save: "save_drun (pair_put (put_wsel b)) (below_last (rang_wsel b s)) 2 s i n vs = Some (pdPASS, s')"
  shows "get_run (get_wsel b) (rang_wsel b s) s' i (2 * n) = Some (pdPASS, halves (take n vs))"
    and "get_drun (pair_get (get_wsel b) (get_wsel b)) (below_last (rang_wsel b s)) 2 s' i n = Some (pdPASS, take n vs)"
    and "elements_only s s'"
    and "b \<noteq> Words w \<Longrightarrow> get_word_elem w s' = get_word_elem w s"
proof -
  have "n = 0 \<or> unat i + 2 * n \<le> unat (rang_wsel b s)"
    by (rule save_drun_pass [OF save])
  then show run: "get_run (get_wsel b) (rang_wsel b s) s' i (2 * n) = Some (pdPASS, halves (take n vs))"
    using wb.save_get_run [OF inv, of "rang_wsel b s" "2 * n" "halves vs" i s'] save len
    by (cases "n = 0") (auto simp: save_drun_words take_halves)
  show "get_drun (pair_get (get_wsel b) (get_wsel b)) (below_last (rang_wsel b s)) 2 s' i n = Some (pdPASS, take n vs)"
    using run save_drun_pass [OF save] by (cases "n = 0") (auto simp: get_drun_words)
  have "n \<noteq> 0 \<Longrightarrow> save_run (put_wsel b) (rang_wsel b s) s i (2 * n) (halves vs) = Some (pdPASS, s')"
    using save save_drun_pass [OF save] len by (simp add: save_drun_words)
  then show "elements_only s s'" "b \<noteq> Words w \<Longrightarrow> get_word_elem w s' = get_word_elem w s"
    using save by (cases "n = 0"; auto intro: save_run_words_only save_run_other_area)+
qed

lemma index_offset:
  "direct_index s addr off = map_option (\<lambda>i. i + off) (direct_index s addr 0)"
  "z_index s addr off = map_option (\<lambda>i. i + off) (z_index s addr 0)"
  by (simp_all add: direct_index_def z_index_def map_conv_bind_option comp_def)

text \<open>The types whose double words are pairs of D, R or SD elements in both directions.\<close>

definition pair_direct :: "addr_type \<Rightarrow> word_sel option" where
  "pair_direct a = (case a of ADDR_D \<Rightarrow> Some (Words D_AREA) | ADDR_R \<Rightarrow> Some (Words R_AREA)
     | ADDR_SD \<Rightarrow> Some (Words SD_AREA) | _ \<Rightarrow> None)"

definition pair_indexed :: "addr_type \<Rightarrow> word_sel option" where
  "pair_indexed a = (case a of ADDR_DZ \<Rightarrow> Some (Words D_AREA) | ADDR_RZ \<Rightarrow> Some (Words R_AREA) | _ \<Rightarrow> None)"

definition pair_type :: "addr_type \<Rightarrow> bool" where
  "pair_type a \<longleftrightarrow> pair_direct a \<noteq> None \<or> pair_indexed a \<noteq> None"

lemma pair_type_tables:
  assumes "pair_type a"
  shows "save_dword_direct s a = map_option (\<lambda>b. (Pairs b b, below_last (rang_wsel b s), 2)) (pair_direct a)"
    "save_dword_indexed s a = map_option (\<lambda>b. (Pairs b b, below_last (rang_wsel b s), 2)) (pair_indexed a)"
    "get_dword_direct s a = map_option (\<lambda>b. (Pairs b b, below_last (rang_wsel b s))) (pair_direct a)"
    "get_dword_indexed s a = map_option (\<lambda>b. (Pairs b b, below_last (rang_wsel b s))) (pair_indexed a)"
    "get_word_direct s a = pair_direct a" "get_word_indexed s a = pair_indexed a"
    "get_word_kn s a = None" "get_word_kn_indexed s a = None" "save_word_kn s a = None"
    "save_word_kn_indexed s a = None" "a \<noteq> ADDR_CONST" "pair_indexed a \<noteq> Some (Words Z_AREA)"
    "pair_direct a = Some b \<or> pair_indexed a = Some b \<Longrightarrow> \<exists>w. b = Words w"
  using assms
  by (cases a; auto simp: pair_type_def pair_direct_def pair_indexed_def save_dword_direct_def save_dword_indexed_def
      get_dword_direct_def get_dword_indexed_def get_word_direct_def get_word_indexed_def get_word_kn_def
      get_word_kn_indexed_def save_word_kn_def save_word_kn_indexed_def)+

text \<open>A successful \<open>save_dword\<close> of such a type is a successful run of pairs.\<close>

lemma save_dword_pairs:
  assumes ok: "operand_ok s addr" and ty: "type_at s addr = Some a" "pair_type a"
    and save: "save_dword s addr vs off cnt = Some (pdPASS, s', vs')"
  obtains b i where "save_drun (pair_put (put_wsel b)) (below_last (rang_wsel b s)) 2 s i (unat cnt) vs = Some (pdPASS, s')"
    "vs' = vs" "\<exists>w. b = Words w"
    "(pair_direct a = Some b \<and> direct_index s addr (off * 2) = Some i) \<or>
     (pair_direct a = None \<and> pair_indexed a = Some b \<and> b \<noteq> Words Z_AREA \<and> z_index s addr (off * 2) = Some i)"
proof -
  note tbl = pair_type_tables [OF ty(2)]
  have kn: "resolve_kn (save_word_kn s) (5, 8) (save_word_kn_indexed s) (5, 8) s addr = Some None"
    by (rule resolve_kn_none [OF ok ty(1)]) (simp_all add: tbl(7-10))
  obtain b i where b: "(pair_direct a = Some b \<and> direct_index s addr 0 = Some i) \<or>
      (pair_direct a = None \<and> pair_indexed a = Some b \<and> z_index s addr 0 = Some i)"
    and r: "resolve (save_dword_direct s) (save_dword_indexed s) s addr 0 = Some (Some ((Pairs b b, below_last (rang_wsel b s), 2), i))"
  proof (cases "pair_direct a")
    case (Some b)
    then obtain i where "direct_index s addr 0 = Some i"
      using save by (cases "direct_index s addr 0") (simp_all add: save_dword_def kn resolve_at [OF ok ty(1)] tbl(1,2))
    then show ?thesis
      using that [of b i] Some by (simp add: resolve_at [OF ok ty(1)] tbl(1,2))
  next
    case None
    then obtain b where b: "pair_indexed a = Some b"
      using ty(2) by (auto simp: pair_type_def)
    then obtain i where "z_index s addr 0 = Some i"
      using save None by (cases "z_index s addr 0") (simp_all add: save_dword_def kn resolve_at [OF ok ty(1)] tbl(1,2))
    then show ?thesis
      using that [of b i] b None by (simp add: resolve_at [OF ok ty(1)] tbl(1,2))
  qed
  have run: "save_drun (pair_put (put_wsel b)) (below_last (rang_wsel b s)) 2 s (i + off * 2) (unat cnt) vs =
      Some (pdPASS, s')" "vs' = vs"
    using save by (auto simp: save_dword_def kn r opt_simps)
  have "\<exists>w. b = Words w"
    using b tbl(13) by blast
  moreover have "pair_indexed a = Some b \<Longrightarrow> b \<noteq> Words Z_AREA"
    using tbl(12) by auto
  ultimately show ?thesis
    using b by (intro that [OF run]) (auto simp: index_offset [of s addr "off * 2"])
qed

lemma resolve_pairs:
  assumes ok: "operand_ok s addr" and ty: "type_at s addr = Some a" and eo: "elements_only s s'"
    and "(pd a = Some b \<and> direct_index s addr off = Some i) \<or>
     (pd a = None \<and> pi a = Some b \<and> get_word_elem Z_AREA s' = get_word_elem Z_AREA s \<and> z_index s addr off = Some i)"
    and "d a = map_option f (pd a)" and "x a = map_option f (pi a)"
  shows "resolve d x s' addr off = Some (Some (f b, i))"
proof -
  note eqs = elements_only_tables [OF eo] elements_only_eq [OF eo]
  have ok': "operand_ok s' addr" and ty': "type_at s' addr = Some a"
    using ok ty by (simp_all add: eqs)
  show ?thesis
    using assms(4-) z_index_same [OF eo] by (auto simp: resolve_at [OF ok' ty'] eqs)
qed

text \<open>C27. What \<open>save_dword\<close> writes to D, R or SD elements, direct or indexed by a Z element,
  \<open>get_dword\<close> reads back from the same operand, for every offset and count.\<close>

theorem save_get_dword:
  assumes wf: "wf_state s" and ok: "operand_ok s addr" and len: "unat cnt \<le> length vs"
    and ty: "type_at s addr = Some a" "pair_type a"
    and save: "save_dword s addr vs off cnt = Some (pdPASS, s', vs')"
  shows "get_dword s' addr off cnt = Some (pdPASS, take (unat cnt) vs)"
proof -
  note tbl = pair_type_tables [OF ty(2)]
  obtain b i where run: "save_drun (pair_put (put_wsel b)) (below_last (rang_wsel b s)) 2 s i (unat cnt) vs = Some (pdPASS, s')"
    and w: "\<exists>w. b = Words w" and b: "(pair_direct a = Some b \<and> direct_index s addr (off * 2) = Some i) \<or>
     (pair_direct a = None \<and> pair_indexed a = Some b \<and> b \<noteq> Words Z_AREA \<and> z_index s addr (off * 2) = Some i)"
    using save_dword_pairs [OF ok ty save] by metis
  have "inv_wsel b s"
    using w wf by auto
  note rt = pair_round_trip [OF this len run]
  note eqs = elements_only_tables [OF rt(3)] elements_only_eq [OF rt(3)]
  have ok': "operand_ok s' addr" and ty': "type_at s' addr = Some a"
    using ok ty by (simp_all add: eqs)
  have "resolve_kn (get_word_kn s') (5, 8) (get_word_kn_indexed s') (1, 8) s' addr = Some None"
    by (rule resolve_kn_none [OF ok' ty']) (simp_all add: tbl(7-10))
  moreover have "resolve (get_dword_direct s') (get_dword_indexed s') s' addr (off * 2) =
      Some (Some ((Pairs b b, below_last (rang_wsel b s')), i))"
    using b rt(4) by (intro resolve_pairs [OF ok ty(1) rt(3), where pd = pair_direct and pi = pair_indexed]) (auto simp: tbl(3,4))
  ultimately show ?thesis
    using rt(2) operand_type [OF ok'] ty' tbl(11) by (simp add: get_dword_def eqs)
qed

theorem save_get_dword_witness:
  "\<exists>s' vs'. save_dword (boot_state [3, 0x32, 9, 0]) 0 [0x12345678] 2 1 = Some (pdPASS, s', vs') \<and>
    get_dword s' 0 2 1 = Some (pdPASS, [0x12345678])"
proof -
  let ?s = "boot_state [3, 0x32, 9, 0]"
  have ok: "operand_ok ?s 0" "type_at ?s 0 = Some ADDR_DZ" "pair_type ADDR_DZ"
    by (simp_all add: operand_ok_def addr_of_def addr_types_def indexed_type_def kn_indexed_type_def pair_type_def
        pair_direct_def pair_indexed_def)
  have kn: "resolve_kn (save_word_kn ?s) (5, 8) (save_word_kn_indexed ?s) (5, 8) ?s 0 = Some None"
    by (rule resolve_kn_none [OF ok(1,2)]) (simp_all add: save_word_kn_def save_word_kn_indexed_def)
  obtain s' vs' where s': "save_dword ?s 0 [0x12345678] 2 1 = Some (pdPASS, s', vs')"
    by (simp add: save_dword_def kn resolve_at [OF ok(1,2)] save_dword_direct_def save_dword_indexed_def
        GET_PU8_DATA_def GET_PU16_DATA_def direct_index_def z_index_def rd_def wr_def get_word_elem_def bytes_u16_def run_numeral
        pair_put_def below_last_nat set_word_elem_def)
  then show ?thesis
    using save_get_dword [OF _ ok(1) _ ok(2,3) s'] by auto
qed

text \<open>The layout of double words in word elements: after a successful \<open>save_dword\<close> to D, R or SD
  elements, reading twice as many 16-bit values from twice the offset with \<open>get_word\<close> gives the low
  and high halves of the values in turn.\<close>

theorem save_dword_get_word:
  assumes wf: "wf_state s" and ok: "operand_ok s addr" and len: "unat cnt \<le> length vs" and cnt: "unat cnt < 32768"
    and ty: "type_at s addr = Some a" "pair_type a"
    and save: "save_dword s addr vs off cnt = Some (pdPASS, s', vs')"
  shows "get_word s' addr (off * 2) (cnt * 2) = Some (pdPASS, halves (take (unat cnt) vs))"
proof -
  note tbl = pair_type_tables [OF ty(2)]
  obtain b i where run: "save_drun (pair_put (put_wsel b)) (below_last (rang_wsel b s)) 2 s i (unat cnt) vs = Some (pdPASS, s')"
    and w: "\<exists>w. b = Words w" and b: "(pair_direct a = Some b \<and> direct_index s addr (off * 2) = Some i) \<or>
     (pair_direct a = None \<and> pair_indexed a = Some b \<and> b \<noteq> Words Z_AREA \<and> z_index s addr (off * 2) = Some i)"
    using save_dword_pairs [OF ok ty save] by metis
  have "inv_wsel b s"
    using w wf by auto
  note rt = pair_round_trip [OF this len run]
  note eqs = elements_only_tables [OF rt(3)] elements_only_eq [OF rt(3)]
  have ok': "operand_ok s' addr" and ty': "type_at s' addr = Some a"
    using ok ty by (simp_all add: eqs)
  have "resolve_kn (get_word_kn s') (1, 4) (get_word_kn_indexed s') (1, 4) s' addr = Some None"
    by (rule resolve_kn_none [OF ok' ty']) (simp_all add: tbl(7-10))
  moreover have "resolve (get_word_direct s') (get_word_indexed s') s' addr (off * 2) = Some (Some (b, i))"
    using b rt(4) resolve_pairs [OF ok ty(1) rt(3), where pd = pair_direct and pi = pair_indexed and f = "\<lambda>b. b" and b = b]
    by (auto simp: tbl(5,6) option.map_ident)
  moreover have "unat (cnt * 2) = 2 * unat cnt"
    using cnt by (simp add: unat_word_ariths)
  ultimately show ?thesis
    using rt(1) operand_type [OF ok'] ty' tbl(11) by (simp add: get_word_def eqs)
qed

theorem save_dword_get_word_witness:
  "\<exists>s' vs'. save_dword (boot_state [0, 0x11, 9, 0]) 0 [0x12345678] 2 1 = Some (pdPASS, s', vs') \<and>
    get_word s' 0 4 2 = Some (pdPASS, [0x5678, 0x1234])"
proof -
  let ?s = "boot_state [0, 0x11, 9, 0]"
  have ok: "operand_ok ?s 0" "type_at ?s 0 = Some ADDR_D" "pair_type ADDR_D"
    by (simp_all add: operand_ok_def addr_of_def addr_types_def indexed_type_def kn_indexed_type_def pair_type_def
        pair_direct_def pair_indexed_def)
  have kn: "resolve_kn (save_word_kn ?s) (5, 8) (save_word_kn_indexed ?s) (5, 8) ?s 0 = Some None"
    by (rule resolve_kn_none [OF ok(1,2)]) (simp_all add: save_word_kn_def save_word_kn_indexed_def)
  obtain s' vs' where s': "save_dword ?s 0 [0x12345678] 2 1 = Some (pdPASS, s', vs')"
    by (simp add: save_dword_def kn resolve_at [OF ok(1,2)] save_dword_direct_def
        GET_PU8_DATA_def GET_PU16_DATA_def direct_index_def z_index_def rd_def wr_def get_word_elem_def bytes_u16_def run_numeral
        pair_put_def below_last_nat set_word_elem_def)
  have "lo16 0x12345678 = 0x5678" "hi16 0x12345678 = 0x1234"
    by (simp_all add: lo16_def hi16_def drop_bit_eq_div)
  then show ?thesis
    using save_dword_get_word [OF _ ok(1) _ _ ok(2,3) s'] s' by auto
qed

text \<open>What \<open>save_float\<close> writes, \<open>get_float\<close> reads back bit for bit from the same operand, for
  every operand type that \<open>save_float\<close> accepts.\<close>

theorem save_get_float:
  assumes wf: "wf_state s" and nest: "nested s < 8" and ok: "operand_ok s addr" and len: "unat cnt \<le> length vs"
    and ty: "type_at s addr = Some a"
    and save: "save_float s addr vs off cnt = Some (pdPASS, s')"
  shows "get_float s' addr off cnt = Some (pdPASS, take (unat cnt) vs)"
proof -
  obtain b i where b: "(float_direct s a = Some b \<and> direct_index s addr (off * 2) = Some i) \<or>
      (float_direct s a = None \<and> float_indexed s a = Some b \<and> z_index s addr (off * 2) = Some i)"
    and run: "save_drun (pair_put (put_wsel b)) (below_last (rang_wsel b s)) 2 s i (unat cnt) vs = Some (pdPASS, s')"
    using save by (auto simp: save_float_def resolve_at [OF ok ty] opt_simps split: option.split_asm)
  have "inv_wsel b s" and z: "b \<noteq> Words Z_AREA" and "a \<noteq> ADDR_CONST"
    using b wf nest by (cases a; auto simp: float_direct_def float_indexed_def)+
  note rt = pair_round_trip [OF this(1) len run]
  note eqs = elements_only_tables [OF rt(3)] elements_only_eq [OF rt(3)]
  have tbl: "float_direct s' = float_direct s" "float_indexed s' = float_indexed s"
    unfolding float_direct_def float_indexed_def eqs by (rule refl)+
  have ok': "operand_ok s' addr" and ty': "type_at s' addr = Some a"
    using ok ty by (simp_all add: eqs)
  have "resolve (float_direct s') (float_indexed s') s' addr (off * 2) = Some (Some (b, i))"
    using b z_index_same [OF rt(3) rt(4) [OF z]] by (auto simp: resolve_at [OF ok' ty'] eqs tbl)
  then show ?thesis
    using rt(2) operand_type [OF ok'] ty' \<open>a \<noteq> ADDR_CONST\<close> by (simp add: get_float_def eqs)
qed

theorem save_get_float_witness:
  "\<exists>s'. save_float (boot_state [0, 0x11, 9, 0]) 0 [0x3F800000] 0 1 = Some (pdPASS, s') \<and>
    get_float s' 0 0 1 = Some (pdPASS, [0x3F800000])"
proof -
  let ?s = "boot_state [0, 0x11, 9, 0]"
  have ok: "operand_ok ?s 0" "type_at ?s 0 = Some ADDR_D"
    by (simp_all add: operand_ok_def addr_of_def addr_types_def indexed_type_def kn_indexed_type_def)
  obtain s' where s': "save_float ?s 0 [0x3F800000] 0 1 = Some (pdPASS, s')"
    by (simp add: save_float_def resolve_at [OF ok] float_direct_def
        GET_PU8_DATA_def GET_PU16_DATA_def direct_index_def z_index_def rd_def wr_def get_word_elem_def bytes_u16_def run_numeral
        pair_put_def below_last_nat set_word_elem_def)
  then show ?thesis
    using save_get_float [OF _ _ ok(1) _ ok(2) s'] by auto
qed

text \<open>Reading a counter as a double word with an element number below the number of 16-bit
  counters passes the range check and then indexes the array of 32-bit counters below its start.\<close>

theorem get_dword_C16_undefined:
  assumes ok: "operand_ok s addr" and ty: "type_at s addr = Some ADDR_C"
    and i: "direct_index s addr (off * 2) = Some i" "i < c_16bitCnt (msv_CElement (gtp_PlcElementInfo s))"
      "unat i + 1 < unat (c_ElementCnt (msv_CElement (gtp_PlcElementInfo s)))" and cnt: "cnt \<noteq> 0"
  shows "get_dword s addr off cnt = None"
proof -
  have kn: "resolve_kn (get_word_kn s) (5, 8) (get_word_kn_indexed s) (1, 8) s addr = Some None"
    by (rule resolve_kn_none [OF ok ty]) (simp_all add: get_word_kn_def get_word_kn_indexed_def)
  obtain n where n: "unat cnt = Suc n"
    using cnt by (cases "unat cnt") (auto simp: unat_eq_0)
  show ?thesis
    using i operand_type [OF ok] ty
    by (simp add: get_dword_def kn resolve_at [OF ok ty] get_dword_direct_def n below_last_nat get_c32_elem_def)
qed

theorem get_dword_C16_undefined_witness:
  "get_dword (boot_state [0, 0x14, 9, 0]) 0 0 1 = None"
proof -
  let ?s = "boot_state [0, 0x14, 9, 0]"
  have ok: "operand_ok ?s 0" "type_at ?s 0 = Some ADDR_C"
    by (simp_all add: operand_ok_def addr_of_def addr_types_def indexed_type_def kn_indexed_type_def)
  have "direct_index ?s 0 (0 * 2) = Some 9"
    by (simp add: direct_index_def GET_PU16_DATA_def rd_def bytes_u16_def)
  then show ?thesis
    by (rule get_dword_C16_undefined [OF ok]) simp_all
qed

text \<open>\<open>get_dword_addr\<close> on an operand indexed by a Z element takes the operand's type byte for the
  number of the Z element, which lies outside the Z elements.\<close>

theorem get_dword_addr_indexed_undefined:
  assumes ok: "operand_ok s addr" and ty: "type_at s addr = Some a" "a = ADDR_DZ \<or> a = ADDR_RZ"
    and z: "length (msp_ZElement (gtv_PlcElement s)) \<le> 0x31"
  shows "get_dword_addr s addr num = None"
proof -
  have "ucode s ! (addr + 1) = addr_code a"
    using ty(1) by (simp add: addr_of_eq)
  then have "z_index_from_type s addr = None"
    using operand_type [OF ok] z ty(2) by (auto simp: z_index_from_type_def get_word_elem_def rd_def)
  then show ?thesis
    using operand_type [OF ok] ty by (auto simp: get_dword_addr_def get_word_addr_direct_def get_word_addr_indexed_def)
qed

theorem get_dword_addr_indexed_undefined_witness:
  "get_dword_addr (boot_state [3, 0x32, 9, 0]) 0 4 = None"
proof -
  let ?s = "boot_state [3, 0x32, 9, 0]"
  have "operand_ok ?s 0" "type_at ?s 0 = Some ADDR_DZ"
    by (simp_all add: operand_ok_def addr_of_def addr_types_def indexed_type_def kn_indexed_type_def)
  then show ?thesis
    by (rule get_dword_addr_indexed_undefined) simp_all
qed

section \<open>Writes change soft elements only\<close>

lemma save_drun_pres:
  assumes "save_drun put chk d s i n vs = Some (r, s')"
    and step: "\<And>s i v s'. put s i v = Some s' \<Longrightarrow> R s s'"
    and refl: "\<And>s. R s s" and trans: "\<And>a b c. R a b \<Longrightarrow> R b c \<Longrightarrow> R a c"
  shows "R s s'"
  using assms(1)
proof (induction n arbitrary: s i vs)
  case (Suc n)
  then show ?case
    using step trans refl by (fastforce simp: opt_simps split: if_splits list.splits)
qed (simp add: refl)

lemma kn_save_pres:
  assumes "kn_save put rang s start kn off n (vs :: 'w::len word list) = Some (r, s', ws)"
    and step: "\<And>s i v s'. put s i v = Some s' \<Longrightarrow> R s s'"
    and refl: "\<And>s. R s s" and trans: "\<And>a b c. R a b \<Longrightarrow> R b c \<Longrightarrow> R a c"
  shows "R s s'"
proof -
  have bits: "R s s'" if "kn_save_bits put rang s i m (v :: 'w word) = Some (r, s', v')" for s s' i m v r v'
    using that
  proof (induction m arbitrary: s i v)
    case (Suc m)
    then show ?case
      using step trans refl by (fastforce simp: opt_simps split: if_splits)
  qed (simp add: refl)
  show ?thesis
    using assms(1)
  proof (induction n arbitrary: s off vs ws)
    case (Suc n)
    obtain v vs' where vs: "vs = v # vs'"
      using Suc.prems by (cases vs) auto
    obtain r1 s1 v1 where 1: "kn_save_bits put rang s (kn_base start off kn) (4 * unat kn) v = Some (r1, s1, v1)"
      using Suc.prems vs by (auto simp: opt_simps)
    show ?case
    proof (cases "r1 = pdPASS")
      case True
      then obtain ws' where "kn_save put rang s1 start kn (off + 1) n vs' = Some (r, s', ws')"
        using Suc.prems vs 1 by (auto simp: opt_simps)
      then show ?thesis
        using Suc.IH bits [OF 1] trans by blast
    next
      case False
      then show ?thesis
        using Suc.prems vs 1 bits [OF 1] by auto
    qed
  qed (simp add: refl)
qed

lemma put_bsel_elements_only: "put_bsel b s i v = Some s' \<Longrightarrow> elements_only s s'"
  by (cases b) (auto simp: set_bit_elem_def set_lm_elem_def opt_simps)

lemma put_dsel_elements_only: "put_dsel b s i v = Some s' \<Longrightarrow> elements_only s s'"
  by (cases b) (auto simp: pair_put_def set_c32_elem_def opt_simps Let_def split: if_splits
      intro: elements_only_trans put_wsel_elements_only)

lemma save_char_only: "save_char s a vs off cnt = Some (r, s') \<Longrightarrow> elements_only s s'"
  using save_char_bits_only bits_only_def by blast

lemma save_word_only:
  assumes "save_word s a vs off cnt = Some (r, s', vs')"
  shows "elements_only s s'"
proof -
  have "elements_only s s'" if "kn_save (put_bsel b) rang s st kn off n vs = Some (r, s', vs')" for b rang st kn n
    by (rule kn_save_pres [OF that put_bsel_elements_only elements_only_refl elements_only_trans])
  moreover obtain q where q: "resolve_kn (save_word_kn s) (1, 4) (save_word_kn_indexed s) (1, 4) s a = Some q"
    using assms by (auto simp: save_word_def opt_simps)
  ultimately show ?thesis
    using assms save_run_words_only
    by (cases q; cases "the q")
      (auto simp: save_word_def opt_simps split: option.split_asm)
qed

lemma save_drun_only: "save_drun (put_dsel b) chk d s i n vs = Some (r, s') \<Longrightarrow> elements_only s s'"
  by (rule save_drun_pres [OF _ put_dsel_elements_only elements_only_refl elements_only_trans])

lemma save_dword_only:
  assumes "save_dword s a vs off cnt = Some (r, s', vs')"
  shows "elements_only s s'"
proof -
  have "elements_only s s'" if "kn_save (put_bsel b) rang s st kn off n vs = Some (r, s', vs')" for b rang st kn n
    by (rule kn_save_pres [OF that put_bsel_elements_only elements_only_refl elements_only_trans])
  moreover obtain q where q: "resolve_kn (save_word_kn s) (5, 8) (save_word_kn_indexed s) (5, 8) s a = Some q"
    using assms by (auto simp: save_dword_def opt_simps)
  ultimately show ?thesis
    using assms save_drun_only
    by (cases q; cases "the q")
      (auto simp: save_dword_def opt_simps split: option.split_asm)
qed

lemma save_float_only: "save_float s a vs off cnt = Some (r, s') \<Longrightarrow> elements_only s s'"
  using save_drun_only [of "Pairs b b" for b] by (auto simp: save_float_def opt_simps split: option.split_asm)

lemmas write_only = save_char_only save_word_only save_dword_only save_float_only

end
