(* ===== verification/PLC_Counter.thy ===== *)
theory PLC_Counter
  imports PLC_ParseDWord PLC_Edge
begin

text \<open>
  Counter instructions, \<open>source/plc/executer/src/plc_counterins.c\<close>: the 16-bit up counter CTU, the 16-bit
  cyclic counter CTR, the 32-bit up/down counter DCNT and the reset of a counter.  A counter is seen as
  its value, the power flow of the last scan and its contact (\<open>cview\<close>); each instruction is shown to be one
  step of a function on that triple, and the count over a sequence of scans follows from the steps.
  The 32-bit counters are C \<open>long\<close>s: they are kept as 32-bit words that wrap around, compared as
  signed numbers.
\<close>

section \<open>Instructions\<close>

definition get_c_flow :: "plc_state \<Rightarrow> u16 \<Rightarrow> bool option" where
  "get_c_flow s n = do { st \<leftarrow> rd (c_StatusInfo (mtv_CElement (gtv_PlcElement s))) (unat n); Some (c_PowerFlow st) }"

definition put_c_flow :: "plc_state \<Rightarrow> u16 \<Rightarrow> bool \<Rightarrow> plc_state option" where
  "put_c_flow s n b =
     (let e = gtv_PlcElement s; c = mtv_CElement e in
      do { st \<leftarrow> rd (c_StatusInfo c) (unat n);
           l \<leftarrow> wr (c_StatusInfo c) (unat n) (st\<lparr>c_PowerFlow := b\<rparr>);
           Some (s\<lparr>gtv_PlcElement := e\<lparr>mtv_CElement := c\<lparr>c_StatusInfo := l\<rparr>\<rparr>\<rparr>) })"

definition plc_reset_one_counter :: "plc_state \<Rightarrow> u16 \<Rightarrow> plc_state option" where
  "plc_reset_one_counter s n =
     do { s1 \<leftarrow> (if n < word_elem_rang C16_AREA s then set_word_elem C16_AREA s n 0 else set_c32_elem s n 0);
          set_bit_elem C_ELEMENT s1 n 0 }"

text \<open>\<open>lsv_DestValue\<close> is read only after \<open>get_word\<close> has returned \<open>pdPASS\<close>, which delivers one value.\<close>

definition run_ci_ctu_ins :: "plc_state \<Rightarrow> si_env \<Rightarrow> (plc_ret \<times> plc_state) option" where
  "run_ci_ctu_ins s e =
     do { n \<leftarrow> GET_PU16_DATA (ucode s) (mcp_PC e + 4);
          if GET_POWER_FLOW (mlv_InPF e) then
            do { f \<leftarrow> get_c_flow s n;
                 if \<not> f then
                   do { s1 \<leftarrow> put_c_flow s n True;
                        v \<leftarrow> get_word_elem C16_AREA s1 n;
                        s2 \<leftarrow> (if v \<noteq> 0x7FFF then set_word_elem C16_AREA s1 n (v + 1) else Some s1);
                        (r, ws) \<leftarrow> get_word s2 (mcp_PC e + 6) 0 1;
                        if r \<noteq> pdPASS then Some (r, s2)
                        else do { d \<leftarrow> rd ws 0;
                                  v' \<leftarrow> get_word_elem C16_AREA s2 n;
                                  s3 \<leftarrow> (if d \<le> v' then set_bit_elem C_ELEMENT s2 n 1 else Some s2);
                                  Some (pdPASS, s3) } }
                 else Some (pdPASS, s) }
          else do { s1 \<leftarrow> put_c_flow s n False; Some (pdPASS, s1) } }"

definition run_ci_ctr_ins :: "plc_state \<Rightarrow> si_env \<Rightarrow> (plc_ret \<times> plc_state) option" where
  "run_ci_ctr_ins s e =
     do { n \<leftarrow> GET_PU16_DATA (ucode s) (mcp_PC e + 4);
          if GET_POWER_FLOW (mlv_InPF e) then
            do { f \<leftarrow> get_c_flow s n;
                 if \<not> f then
                   do { s1 \<leftarrow> put_c_flow s n True;
                        (r, ws) \<leftarrow> get_word s1 (mcp_PC e + 6) 0 1;
                        if r \<noteq> pdPASS then Some (r, s1)
                        else do {
                          d \<leftarrow> rd ws 0;
                          v \<leftarrow> get_word_elem C16_AREA s1 n;
                          if v = d then
                            do { s2 \<leftarrow> set_word_elem C16_AREA s1 n 1;
                                 s3 \<leftarrow> set_bit_elem C_ELEMENT s2 n 0;
                                 Some (pdPASS, s3) }
                          else
                            do { s2 \<leftarrow> set_word_elem C16_AREA s1 n (v + 1);
                                 v' \<leftarrow> get_word_elem C16_AREA s2 n;
                                 s3 \<leftarrow> (if d \<le> v' then set_bit_elem C_ELEMENT s2 n 1 else Some s2);
                                 Some (pdPASS, s3) } } }
                 else Some (pdPASS, s) }
          else do { s1 \<leftarrow> put_c_flow s n False; Some (pdPASS, s1) } }"

text \<open>The direction is the SM element with the counter's number.\<close>

definition run_ci_dcnt_ins :: "plc_state \<Rightarrow> si_env \<Rightarrow> (plc_ret \<times> plc_state) option" where
  "run_ci_dcnt_ins s e =
     do { n \<leftarrow> GET_PU16_DATA (ucode s) (mcp_PC e + 4);
          if GET_POWER_FLOW (mlv_InPF e) then
            do { f \<leftarrow> get_c_flow s n;
                 if \<not> f then
                   do { s1 \<leftarrow> put_c_flow s n True;
                        (r, ds) \<leftarrow> get_dword s1 (mcp_PC e + 8) 0 1;
                        if r \<noteq> pdPASS then Some (r, s1)
                        else do {
                          d \<leftarrow> rd ds 0;
                          down \<leftarrow> get_bit_elem SM_ELEMENT s1 n;
                          v \<leftarrow> get_c32_elem s1 n;
                          s2 \<leftarrow> set_c32_elem s1 n (if down = 0 then v + 1 else v - 1);
                          v' \<leftarrow> get_c32_elem s2 n;
                          s3 \<leftarrow> set_bit_elem C_ELEMENT s2 n
                            (if down = 0 then (if sint d \<le> sint v' then 1 else 0) else (if sint v' \<le> sint d then 1 else 0));
                          Some (pdPASS, s3) } }
                 else Some (pdPASS, s) }
          else do { s1 \<leftarrow> put_c_flow s n False; Some (pdPASS, s1) } }"

definition run_ci_rst_c_ins :: "plc_state \<Rightarrow> si_env \<Rightarrow> (plc_ret \<times> plc_state) option" where
  "run_ci_rst_c_ins s e =
     (if GET_POWER_FLOW (mlv_InPF e) then
        do { n \<leftarrow> GET_PU16_DATA (ucode s) (mcp_PC e + 4);
             s1 \<leftarrow> plc_reset_one_counter s n;
             Some (pdPASS, s1) }
      else Some (pdPASS, s))"

section \<open>A counter as a value, a flow and a contact\<close>

definition cview :: "(plc_state \<Rightarrow> u16 \<Rightarrow> 'v option) \<Rightarrow> plc_state \<Rightarrow> u16 \<Rightarrow> ('v \<times> bool \<times> bool) option" where
  "cview getv s n =
     do { v \<leftarrow> getv s n; f \<leftarrow> get_c_flow s n; b \<leftarrow> get_bit_elem C_ELEMENT s n; Some (v, f, b \<noteq> 0) }"

text \<open>What the values of a kind of counter promise: a write is seen by the next read and touches no other
  counter, no flow and no contact, and writes of flows and contacts touch no value.\<close>

locale counter_values =
  fixes getv :: "plc_state \<Rightarrow> u16 \<Rightarrow> 'v option" and putv :: "plc_state \<Rightarrow> u16 \<Rightarrow> 'v \<Rightarrow> plc_state option"
  assumes put_value: "getv s n = Some v \<Longrightarrow> \<exists>s'. putv s n w = Some s' \<and> getv s' n = Some w \<and>
      (\<forall>m. m \<noteq> n \<longrightarrow> getv s' m = getv s m) \<and> get_c_flow s' = get_c_flow s \<and>
      get_bit_elem C_ELEMENT s' = get_bit_elem C_ELEMENT s \<and> elements_only s s'"
    and flow_value: "put_c_flow s n b = Some s' \<Longrightarrow> getv s' m = getv s m"
    and bit_value: "set_bit_elem C_ELEMENT s n c = Some s' \<Longrightarrow> getv s' m = getv s m"

lemma put_c_flow_spec:
  assumes "get_c_flow s n = Some f"
  shows "\<exists>s'. put_c_flow s n b = Some s' \<and> get_c_flow s' n = Some b \<and> (\<forall>m. m \<noteq> n \<longrightarrow> get_c_flow s' m = get_c_flow s m) \<and>
    get_bit_elem a s' = get_bit_elem a s \<and> elements_only s s'"
proof -
  have n: "unat n < length (c_StatusInfo (mtv_CElement (gtv_PlcElement s)))"
    using assms by (auto simp: get_c_flow_def opt_simps)
  have "bit_base (e\<lparr>mtv_CElement := (mtv_CElement e)\<lparr>c_StatusInfo := l\<rparr>\<rparr>) a = bit_base e a" for e l
    by (cases a) simp_all
  then show ?thesis
    using n by (auto simp: put_c_flow_def get_c_flow_def Let_def mem_simps rd_def fun_eq_iff get_bit_elem_def nth_list_update)
qed

lemma set_c_bit_spec:
  assumes "get_bit_elem C_ELEMENT s n = Some c"
  shows "\<exists>s'. set_bit_elem C_ELEMENT s n v = Some s' \<and> get_bit_elem C_ELEMENT s' n = Some (bit_norm v) \<and>
    (\<forall>m. m \<noteq> n \<longrightarrow> get_bit_elem C_ELEMENT s' m = get_bit_elem C_ELEMENT s m) \<and> get_c_flow s' = get_c_flow s \<and> elements_only s s'"
proof -
  obtain b where b: "plc_set_bit_element_value (bit_base (gtv_PlcElement s) C_ELEMENT) n v = Some b"
    using assms by (auto simp: get_bit_elem_def get_bit_alt set_bit_alt split: if_splits)
  let ?s = "s\<lparr>gtv_PlcElement := upd_bit_base C_ELEMENT b (gtv_PlcElement s)\<rparr>"
  have s: "set_bit_elem C_ELEMENT s n v = Some ?s"
    using b by (simp add: set_bit_elem_def)
  have "get_c_flow ?s = get_c_flow s"
    by (simp add: fun_eq_iff get_c_flow_def)
  then show ?thesis
    using s bits.get_put_same [OF s] bits.get_put_other [OF s] by auto
qed

context counter_values
begin

lemma view_put:
  assumes "cview getv s n = Some (v, f, b)"
  shows "\<exists>s'. putv s n w = Some s' \<and> cview getv s' n = Some (w, f, b) \<and>
    (\<forall>m. m \<noteq> n \<longrightarrow> cview getv s' m = cview getv s m) \<and> elements_only s s'"
proof -
  have "getv s n = Some v"
    using assms by (auto simp: cview_def opt_simps)
  from put_value [OF this, of w] obtain s' where s': "putv s n w = Some s'" "getv s' n = Some w"
    "\<forall>m. m \<noteq> n \<longrightarrow> getv s' m = getv s m" "get_c_flow s' = get_c_flow s"
    "get_bit_elem C_ELEMENT s' = get_bit_elem C_ELEMENT s" "elements_only s s'"
    by blast
  then show ?thesis
    using assms by (auto simp: cview_def opt_simps)
qed

lemma view_flow:
  assumes "cview getv s n = Some (v, f, b)"
  shows "\<exists>s'. put_c_flow s n f' = Some s' \<and> cview getv s' n = Some (v, f', b) \<and>
    (\<forall>m. m \<noteq> n \<longrightarrow> cview getv s' m = cview getv s m) \<and> get_bit_elem a s' = get_bit_elem a s \<and> elements_only s s'"
proof -
  have "get_c_flow s n = Some f"
    using assms by (auto simp: cview_def opt_simps)
  from put_c_flow_spec [OF this, of f' C_ELEMENT] put_c_flow_spec [OF this, of f' a]
  obtain s' where s': "put_c_flow s n f' = Some s'" "get_c_flow s' n = Some f'"
    "\<forall>m. m \<noteq> n \<longrightarrow> get_c_flow s' m = get_c_flow s m" "get_bit_elem C_ELEMENT s' = get_bit_elem C_ELEMENT s"
    "get_bit_elem a s' = get_bit_elem a s" "elements_only s s'"
    by auto
  then show ?thesis
    using assms flow_value [OF s'(1)] by (auto simp: cview_def opt_simps)
qed

lemma view_bit:
  assumes "cview getv s n = Some (v, f, b)"
  shows "\<exists>s'. set_bit_elem C_ELEMENT s n c = Some s' \<and> cview getv s' n = Some (v, f, c \<noteq> 0) \<and>
    (\<forall>m. m \<noteq> n \<longrightarrow> cview getv s' m = cview getv s m) \<and> elements_only s s'"
proof -
  obtain c0 where "get_bit_elem C_ELEMENT s n = Some c0"
    using assms by (auto simp: cview_def opt_simps)
  from set_c_bit_spec [OF this, of c] obtain s' where s': "set_bit_elem C_ELEMENT s n c = Some s'"
    "get_bit_elem C_ELEMENT s' n = Some (bit_norm c)"
    "\<forall>m. m \<noteq> n \<longrightarrow> get_bit_elem C_ELEMENT s' m = get_bit_elem C_ELEMENT s m"
    "get_c_flow s' = get_c_flow s" "elements_only s s'"
    by blast
  then show ?thesis
    using assms bit_value [OF s'(1)] by (auto simp: cview_def opt_simps bit_norm_def)
qed

text \<open>A scan without a rising edge of the power flow only remembers the flow.\<close>

lemma view_idle:
  assumes "cview getv s n = Some (v, f, b)" and "on \<longrightarrow> f"
  shows "\<exists>s'. (if on then Some s else put_c_flow s n False) = Some s' \<and> cview getv s' n = Some (v, on, b) \<and>
    (\<forall>m. m \<noteq> n \<longrightarrow> cview getv s' m = cview getv s m) \<and> elements_only s s'"
  using view_flow [OF assms(1), of False] assms by (cases on) auto

end

interpretation c16: counter_values "get_word_elem C16_AREA" "set_word_elem C16_AREA"
proof (unfold_locales, goal_cases)
  case (1 s n v w)
  then obtain s' where s': "set_word_elem C16_AREA s n w = Some s'"
    by (auto simp: get_word_elem_def set_word_elem_def mem_simps)
  then have "get_c_flow s' = get_c_flow s" "get_bit_elem C_ELEMENT s' = get_bit_elem C_ELEMENT s" "elements_only s s'"
    by (auto simp: set_word_elem_def get_c_flow_def get_bit_elem_def opt_simps fun_eq_iff)
  then show ?case
    using s' words.get_put_same [OF s'] words.get_put_other [OF s'] by auto
next
  case (2 s n b s' m)
  then show ?case
    by (auto simp: put_c_flow_def Let_def opt_simps get_word_elem_def)
next
  case (3 s n c s' m)
  then show ?case
    by (auto simp: set_bit_elem_def opt_simps get_word_elem_def)
qed

interpretation c32: counter_values get_c32_elem set_c32_elem
proof (unfold_locales, goal_cases)
  case (1 s n v w)
  let ?k = "c_16bitCnt (msv_CElement (gtp_PlcElementInfo s))"
  let ?e = "gtv_PlcElement s"
  let ?l = "(c_32BitValue (mtv_CElement ?e))[unat n - unat ?k := w]"
  let ?s = "s\<lparr>gtv_PlcElement := ?e\<lparr>mtv_CElement := (mtv_CElement ?e)\<lparr>c_32BitValue := ?l\<rparr>\<rparr>\<rparr>"
  have n: "\<not> n < ?k" "unat n - unat ?k < length (c_32BitValue (mtv_CElement ?e))"
    using 1 by (auto simp: get_c32_elem_def Let_def split: if_splits)
  have inj: "unat m - unat ?k \<noteq> unat n - unat ?k" if "m \<noteq> n" "\<not> m < ?k" for m
    using that n(1) by (metis eq_diff_iff linorder_not_le unat_inj word_less_nat_alt)
  have "get_c32_elem ?s m = get_c32_elem s m" if "m \<noteq> n" for m
    using inj [OF that] by (auto simp: get_c32_elem_def Let_def rd_def)
  moreover have "set_c32_elem s n w = Some ?s" "get_c32_elem ?s n = Some w"
    using n by (simp_all add: set_c32_elem_def get_c32_elem_def Let_def mem_simps)
  moreover have "get_c_flow ?s = get_c_flow s" "get_bit_elem C_ELEMENT ?s = get_bit_elem C_ELEMENT s"
    by (simp_all add: fun_eq_iff get_c_flow_def get_bit_elem_def)
  ultimately show ?case
    by simp
next
  case (2 s n b s' m)
  then show ?case
    by (auto simp: put_c_flow_def Let_def opt_simps get_c32_elem_def)
next
  case (3 s n c s' m)
  then show ?case
    by (auto simp: set_bit_elem_def opt_simps get_c32_elem_def Let_def)
qed

section \<open>One scan of a counter\<close>

text \<open>A constant operand: type byte 0xFF, the kind below 2 for a word and 2 or 3 for a double word.\<close>

definition const_word :: "u8 list \<Rightarrow> nat \<Rightarrow> u16 \<Rightarrow> bool" where
  "const_word m a d \<longleftrightarrow> GET_PU8_DATA m (a + 1) = Some 0xFF \<and> (\<exists>k < 2. GET_PU8_DATA m a = Some k) \<and>
     GET_PU16_DATA m (a + 2) = Some d"

definition const_dword :: "u8 list \<Rightarrow> nat \<Rightarrow> u32 \<Rightarrow> bool" where
  "const_dword m a d \<longleftrightarrow> GET_PU8_DATA m (a + 1) = Some 0xFF \<and> (\<exists>k \<in> {2, 3}. GET_PU8_DATA m a = Some k) \<and>
     GET_PU32_DATA m (a + 2) = Some d"

lemma addr_of_const: "addr_of 0xFF = Some ADDR_CONST"
  using addr_of_code [of ADDR_CONST] by simp

lemma get_word_constant: "const_word (ucode s) a d \<Longrightarrow> get_word s a off cnt = Some (pdPASS, [d])"
  by (auto simp: const_word_def get_word_def get_word_const_def addr_of_const linorder_not_less [symmetric])

lemma get_dword_constant: "const_dword (ucode s) a d \<Longrightarrow> get_dword s a off cnt = Some (pdPASS, [d])"
  by (auto simp: const_dword_def get_dword_def get_dword_const_def addr_of_const)

text \<open>The steps of the counters on (value, flow of the last scan, contact).\<close>

fun ctu_step :: "u16 \<Rightarrow> bool \<Rightarrow> u16 \<times> bool \<times> bool \<Rightarrow> u16 \<times> bool \<times> bool" where
  "ctu_step d on (v, f, b) =
     (if on \<and> \<not> f then let v' = (if v \<noteq> 0x7FFF then v + 1 else v) in (v', True, b \<or> d \<le> v') else (v, on, b))"

fun ctr_step :: "u16 \<Rightarrow> bool \<Rightarrow> u16 \<times> bool \<times> bool \<Rightarrow> u16 \<times> bool \<times> bool" where
  "ctr_step d on (v, f, b) =
     (if on \<and> \<not> f then (if v = d then (1, True, False) else (v + 1, True, b \<or> d \<le> v + 1)) else (v, on, b))"

fun dcnt_step :: "u32 \<Rightarrow> bool \<Rightarrow> bool \<Rightarrow> u32 \<times> bool \<times> bool \<Rightarrow> u32 \<times> bool \<times> bool" where
  "dcnt_step d down on (v, f, b) =
     (if on \<and> \<not> f then
        (if down then (v - 1, True, sint (v - 1) \<le> sint d) else (v + 1, True, sint d \<le> sint (v + 1)))
      else (v, on, b))"

abbreviation "view16 \<equiv> cview (get_word_elem C16_AREA)"
abbreviation "view32 \<equiv> cview get_c32_elem"

lemma cview_parts: "cview getv s n = Some (v, f, b) \<Longrightarrow> getv s n = Some v \<and> get_c_flow s n = Some f"
  by (auto simp: cview_def opt_simps)

lemma elements_only_ucode: "elements_only s s' \<Longrightarrow> ucode s' = ucode s"
  by (simp add: elements_only_eq)

lemma run_idle:
  assumes "GET_PU16_DATA (ucode s) (mcp_PC e + 4) = Some n" and "get_c_flow s n = Some f" and "GET_POWER_FLOW (mlv_InPF e) \<longrightarrow> f"
    and "(if GET_POWER_FLOW (mlv_InPF e) then Some s else put_c_flow s n False) = Some s'"
  shows "run_ci_ctu_ins s e = Some (pdPASS, s')" "run_ci_ctr_ins s e = Some (pdPASS, s')" "run_ci_dcnt_ins s e = Some (pdPASS, s')"
  using assms by (auto simp: run_ci_ctu_ins_def run_ci_ctr_ins_def run_ci_dcnt_ins_def split: if_splits)

lemma ctu_scan:
  assumes n: "GET_PU16_DATA (ucode s) (mcp_PC e + 4) = Some n" and d: "const_word (ucode s) (mcp_PC e + 6) d"
    and v: "view16 s n = Some (v, f, b)"
  shows "\<exists>s'. run_ci_ctu_ins s e = Some (pdPASS, s') \<and>
    view16 s' n = Some (ctu_step d (GET_POWER_FLOW (mlv_InPF e)) (v, f, b)) \<and>
    (\<forall>m. m \<noteq> n \<longrightarrow> view16 s' m = view16 s m) \<and> elements_only s s'"
proof (cases "GET_POWER_FLOW (mlv_InPF e) \<and> \<not> f")
  case True
  obtain s1 where s1: "put_c_flow s n True = Some s1" "view16 s1 n = Some (v, True, b)"
    "\<forall>m. m \<noteq> n \<longrightarrow> view16 s1 m = view16 s m" "elements_only s s1"
    using c16.view_flow [OF v, of True] by blast
  let ?v = "if v \<noteq> 0x7FFF then v + 1 else v"
  obtain s2 where s2: "(if v \<noteq> 0x7FFF then set_word_elem C16_AREA s1 n (v + 1) else Some s1) = Some s2"
    "view16 s2 n = Some (?v, True, b)" "\<forall>m. m \<noteq> n \<longrightarrow> view16 s2 m = view16 s1 m" "elements_only s1 s2"
    using c16.view_put [OF s1(2), of "v + 1"] s1(2) by (cases "v = 0x7FFF") auto
  obtain s3 where s3: "(if d \<le> ?v then set_bit_elem C_ELEMENT s2 n 1 else Some s2) = Some s3"
    "view16 s3 n = Some (?v, True, b \<or> d \<le> ?v)" "\<forall>m. m \<noteq> n \<longrightarrow> view16 s3 m = view16 s2 m" "elements_only s2 s3"
    using c16.view_bit [OF s2(2), of 1] s2(2) by (cases "d \<le> ?v") auto
  have o: "elements_only s s2" "elements_only s s3"
    using s1(4) s2(4) s3(4) elements_only_trans by blast+
  have "get_word s2 (mcp_PC e + 6) 0 1 = Some (pdPASS, [d])"
    using d by (intro get_word_constant) (simp add: elements_only_ucode [OF o(1)])
  then have "run_ci_ctu_ins s e = Some (pdPASS, s3)"
    using True n s1(1) s2(1) s3(1) cview_parts [OF v] cview_parts [OF s1(2)] cview_parts [OF s2(2)]
    by (simp add: run_ci_ctu_ins_def mem_simps)
  then show ?thesis
    using True s3(2,3) s2(3) s1(3) o(2) by (simp add: Let_def)
next
  case False
  then show ?thesis
    using c16.view_idle [OF v, of "GET_POWER_FLOW (mlv_InPF e)"] run_idle(1) [OF n] cview_parts [OF v] by auto
qed

lemma ctr_scan:
  assumes n: "GET_PU16_DATA (ucode s) (mcp_PC e + 4) = Some n" and d: "const_word (ucode s) (mcp_PC e + 6) d"
    and v: "view16 s n = Some (v, f, b)"
  shows "\<exists>s'. run_ci_ctr_ins s e = Some (pdPASS, s') \<and>
    view16 s' n = Some (ctr_step d (GET_POWER_FLOW (mlv_InPF e)) (v, f, b)) \<and>
    (\<forall>m. m \<noteq> n \<longrightarrow> view16 s' m = view16 s m) \<and> elements_only s s'"
proof (cases "GET_POWER_FLOW (mlv_InPF e) \<and> \<not> f")
  case True
  obtain s1 where s1: "put_c_flow s n True = Some s1" "view16 s1 n = Some (v, True, b)"
    "\<forall>m. m \<noteq> n \<longrightarrow> view16 s1 m = view16 s m" "elements_only s s1"
    using c16.view_flow [OF v, of True] by blast
  let ?v = "if v = d then 1 else v + 1" and ?b = "if v = d then False else b \<or> d \<le> v + 1"
  obtain s2 where s2: "set_word_elem C16_AREA s1 n ?v = Some s2"
    "view16 s2 n = Some (?v, True, b)" "\<forall>m. m \<noteq> n \<longrightarrow> view16 s2 m = view16 s1 m" "elements_only s1 s2"
    using c16.view_put [OF s1(2), of ?v] by blast
  obtain s3 where s3: "(if v = d then set_bit_elem C_ELEMENT s2 n 0 else if d \<le> ?v then set_bit_elem C_ELEMENT s2 n 1 else Some s2) = Some s3"
    "view16 s3 n = Some (?v, True, ?b)" "\<forall>m. m \<noteq> n \<longrightarrow> view16 s3 m = view16 s2 m" "elements_only s2 s3"
    using c16.view_bit [OF s2(2), of 1] c16.view_bit [OF s2(2), of 0] s2(2) by (cases "v = d"; cases "d \<le> v + 1") auto
  have o: "elements_only s s3"
    using s1(4) s2(4) s3(4) elements_only_trans by blast
  have "get_word s1 (mcp_PC e + 6) 0 1 = Some (pdPASS, [d])"
    using d by (intro get_word_constant) (simp add: elements_only_ucode [OF s1(4)])
  then have "run_ci_ctr_ins s e = Some (pdPASS, s3)"
    using True n s1(1) s2(1) s3(1) cview_parts [OF v] cview_parts [OF s1(2)] cview_parts [OF s2(2)]
    by (auto simp: run_ci_ctr_ins_def mem_simps split: if_splits)
  then show ?thesis
    using True s3(2,3) s2(3) s1(3) o by auto
next
  case False
  then show ?thesis
    using c16.view_idle [OF v, of "GET_POWER_FLOW (mlv_InPF e)"] run_idle(2) [OF n] cview_parts [OF v] by auto
qed

lemma dcnt_scan:
  assumes n: "GET_PU16_DATA (ucode s) (mcp_PC e + 4) = Some n" and d: "const_dword (ucode s) (mcp_PC e + 8) d"
    and v: "view32 s n = Some (v, f, b)" and dir: "get_bit_elem SM_ELEMENT s n = Some down"
  shows "\<exists>s'. run_ci_dcnt_ins s e = Some (pdPASS, s') \<and>
    view32 s' n = Some (dcnt_step d (down \<noteq> 0) (GET_POWER_FLOW (mlv_InPF e)) (v, f, b)) \<and>
    (\<forall>m. m \<noteq> n \<longrightarrow> view32 s' m = view32 s m) \<and> elements_only s s'"
proof (cases "GET_POWER_FLOW (mlv_InPF e) \<and> \<not> f")
  case True
  obtain s1 where s1: "put_c_flow s n True = Some s1" "view32 s1 n = Some (v, True, b)"
    "\<forall>m. m \<noteq> n \<longrightarrow> view32 s1 m = view32 s m" "get_bit_elem SM_ELEMENT s1 = get_bit_elem SM_ELEMENT s" "elements_only s s1"
    using c32.view_flow [OF v, of True SM_ELEMENT] by blast
  let ?v = "if down = 0 then v + 1 else v - 1"
  let ?b = "if down = 0 then (if sint d \<le> sint ?v then 1 else 0) else (if sint ?v \<le> sint d then 1 else 0) :: u8"
  obtain s2 where s2: "set_c32_elem s1 n ?v = Some s2"
    "view32 s2 n = Some (?v, True, b)" "\<forall>m. m \<noteq> n \<longrightarrow> view32 s2 m = view32 s1 m" "elements_only s1 s2"
    using c32.view_put [OF s1(2), of ?v] by blast
  obtain s3 where s3: "set_bit_elem C_ELEMENT s2 n ?b = Some s3"
    "view32 s3 n = Some (?v, True, ?b \<noteq> 0)" "\<forall>m. m \<noteq> n \<longrightarrow> view32 s3 m = view32 s2 m" "elements_only s2 s3"
    using c32.view_bit [OF s2(2), of ?b] by blast
  have o: "elements_only s s3"
    using s1(5) s2(4) s3(4) elements_only_trans by blast
  have "get_dword s1 (mcp_PC e + 8) 0 1 = Some (pdPASS, [d])"
    using d by (intro get_dword_constant) (simp add: elements_only_ucode [OF s1(5)])
  then have "run_ci_dcnt_ins s e = Some (pdPASS, s3)"
    using True n s1(1,4) s2(1) s3(1) dir cview_parts [OF v] cview_parts [OF s1(2)] cview_parts [OF s2(2)]
    by (simp add: run_ci_dcnt_ins_def mem_simps)
  moreover have "(?v, True, ?b \<noteq> 0) = dcnt_step d (down \<noteq> 0) True (v, f, b)"
    using True by simp
  ultimately show ?thesis
    using True s3(2,3) s2(3) s1(3) o by auto
next
  case False
  then show ?thesis
    using c32.view_idle [OF v, of "GET_POWER_FLOW (mlv_InPF e)"] run_idle(3) [OF n] cview_parts [OF v] by auto
qed

section \<open>Sequences of scans\<close>

text \<open>One run of the instruction per scan, with the given power flows.\<close>

fun counter_scans :: "(plc_state \<Rightarrow> si_env \<Rightarrow> (plc_ret \<times> plc_state) option) \<Rightarrow> plc_state \<Rightarrow> si_env \<Rightarrow> bool list \<Rightarrow> plc_state option" where
  "counter_scans run s e [] = Some s"
| "counter_scans run s e (b # bs) =
     do { (r, s') \<leftarrow> run s (e\<lparr>mlv_InPF := put_flow b (mlv_InPF e)\<rparr>);
          if r = pdPASS then counter_scans run s' e bs else None }"

locale scanned_counter =
  fixes run :: "plc_state \<Rightarrow> si_env \<Rightarrow> (plc_ret \<times> plc_state) option" and view :: "plc_state \<Rightarrow> u16 \<Rightarrow> 'x option"
    and step :: "bool \<Rightarrow> 'x \<Rightarrow> 'x" and ok :: "u8 list \<Rightarrow> nat \<Rightarrow> bool" and n :: u16
  assumes one_scan: "ok (ucode s) (mcp_PC e) \<Longrightarrow> view s n = Some x \<Longrightarrow>
    \<exists>s'. run s e = Some (pdPASS, s') \<and> view s' n = Some (step (GET_POWER_FLOW (mlv_InPF e)) x) \<and>
      (\<forall>m. m \<noteq> n \<longrightarrow> view s' m = view s m) \<and> elements_only s s'"
begin

lemma scans:
  "ok (ucode s) (mcp_PC e) \<Longrightarrow> view s n = Some x \<Longrightarrow>
   \<exists>s'. counter_scans run s e bs = Some s' \<and> view s' n = Some (fold step bs x) \<and>
     (\<forall>m. m \<noteq> n \<longrightarrow> view s' m = view s m) \<and> elements_only s s'"
proof (induction bs arbitrary: s x)
  case Nil
  then show ?case
    by simp
next
  case (Cons b bs)
  let ?e = "e\<lparr>mlv_InPF := put_flow b (mlv_InPF e)\<rparr>"
  obtain s1 where s1: "run s ?e = Some (pdPASS, s1)" "view s1 n = Some (step b x)"
    "\<forall>m. m \<noteq> n \<longrightarrow> view s1 m = view s m" "elements_only s s1"
    using one_scan [of s ?e x] Cons.prems by auto
  have "ok (ucode s1) (mcp_PC e)"
    using Cons.prems(1) by (simp add: elements_only_ucode [OF s1(4)])
  from Cons.IH [OF this s1(2)] obtain s' where "counter_scans run s1 e bs = Some s'"
    "view s' n = Some (fold step bs (step b x))" "\<forall>m. m \<noteq> n \<longrightarrow> view s' m = view s1 m" "elements_only s1 s'"
    by blast
  then show ?case
    using s1 elements_only_trans [OF s1(4)] by simp
qed

end

definition counter_ins :: "u16 \<Rightarrow> u16 \<Rightarrow> u8 list \<Rightarrow> nat \<Rightarrow> bool" where
  "counter_ins n d m pc \<longleftrightarrow> GET_PU16_DATA m (pc + 4) = Some n \<and> const_word m (pc + 6) d"

interpretation ctu: scanned_counter run_ci_ctu_ins view16 "ctu_step d" "counter_ins n d" n for d n
proof (unfold_locales, goal_cases)
  case (1 s e x)
  then show ?case
    using ctu_scan [of s e n d] by (cases x) (simp add: counter_ins_def del: ctu_step.simps)
qed

interpretation ctr: scanned_counter run_ci_ctr_ins view16 "ctr_step d" "counter_ins n d" n for d n
proof (unfold_locales, goal_cases)
  case (1 s e x)
  then show ?case
    using ctr_scan [of s e n d] by (cases x) (simp add: counter_ins_def del: ctr_step.simps)
qed

text \<open>The number of rising edges in a sequence that follows the flow \<open>f\<close>.\<close>

fun rises :: "bool \<Rightarrow> bool list \<Rightarrow> nat" where
  "rises f [] = 0"
| "rises f (b # bs) = (if b \<and> \<not> f then 1 else 0) + rises b bs"

lemma unat_Suc_16: "unat (v :: u16) < 0xFFFF \<Longrightarrow> unat (v + 1) = unat v + 1"
  using unat_add_of_nat [of v 1] by simp

lemma ctu_fold:
  "unat v \<le> 0x7FFF \<Longrightarrow> fold (ctu_step d) bs (v, f, b) = (w, f', b') \<Longrightarrow>
   unat w = min 0x7FFF (unat v + rises f bs) \<and> (b' \<longleftrightarrow> b \<or> 0 < rises f bs \<and> d \<le> w)"
proof (induction bs arbitrary: v f b)
  case Nil
  then show ?case
    by simp
next
  case (Cons a bs)
  show ?case
  proof (cases "a \<and> \<not> f")
    case False
    then have "ctu_step d a (v, f, b) = (v, a, b)" "rises f (a # bs) = rises a bs"
      by auto
    then show ?thesis
      using Cons.IH [OF Cons.prems(1), of a b] Cons.prems(2) by (simp del: ctu_step.simps rises.simps)
  next
    case True
    let ?v = "if v \<noteq> 0x7FFF then v + 1 else v"
    have ne: "unat v \<noteq> 0x7FFF" if "v \<noteq> 0x7FFF"
      using that unat_inj [of v "0x7FFF"] by auto
    have v: "unat ?v = min 0x7FFF (unat v + 1)"
      using ne Cons.prems(1) by (cases "v = 0x7FFF") (auto simp: unat_Suc_16)
    have "ctu_step d a (v, f, b) = (?v, True, b \<or> d \<le> ?v)"
      using True by (simp only: ctu_step.simps Let_def simp_thms if_True)
    then have "fold (ctu_step d) bs (?v, True, b \<or> d \<le> ?v) = (w, f', b')"
      using Cons.prems(2) by (simp del: ctu_step.simps)
    then have x: "unat w = min 0x7FFF (unat ?v + rises True bs)" "b' \<longleftrightarrow> (b \<or> d \<le> ?v) \<or> 0 < rises True bs \<and> d \<le> w"
      using Cons.IH [of ?v True "b \<or> d \<le> ?v"] v by linarith+
    have "?v \<le> w" "rises True bs = 0 \<Longrightarrow> w = ?v"
      using x(1) v by (simp_all add: word_le_nat_alt flip: unat_inj)
    then have "b' \<longleftrightarrow> b \<or> d \<le> w"
      using x(2) by (cases "rises True bs = 0") auto
    moreover have "unat w = min 0x7FFF (unat v + rises f (a # bs))"
      using x(1) v True by simp
    ultimately show ?thesis
      using True by simp
  qed
qed

text \<open>The value of a cyclic counter after \<open>k\<close> counts.\<close>

definition ctr_value :: "u16 \<Rightarrow> nat \<Rightarrow> u16" where
  "ctr_value d k = (if k = 0 then 0 else of_nat ((k - 1) mod unat d + 1))"

lemma unat_ctr_value:
  assumes "1 \<le> unat d"
  shows "unat (ctr_value d k) = (if k = 0 then 0 else (k - 1) mod unat d + 1)" "unat (ctr_value d k) \<le> unat d"
proof -
  let ?m = "(k - 1) mod unat d + 1"
  have le: "?m \<le> unat d"
    using assms by (simp add: Suc_le_eq)
  then have "?m < 65536"
    using unat_lt_16 [of d] by linarith
  moreover have "unat (of_nat m :: u16) = m" if "m < 65536" for m
    using that by (simp add: unat_of_nat)
  ultimately have "unat (of_nat ?m :: u16) = ?m"
    by blast
  then show "unat (ctr_value d k) = (if k = 0 then 0 else ?m)"
    unfolding ctr_value_def by (cases "k = 0") (simp_all only: if_True if_False simp_thms unat_0)
  then show "unat (ctr_value d k) \<le> unat d"
    using le by (cases "k = 0") (simp_all only: if_True if_False simp_thms le0)
qed

lemma ctr_value_Suc:
  assumes d: "1 \<le> unat d"
  shows "ctr_value d (Suc k) = (if ctr_value d k = d then 1 else ctr_value d k + 1)"
proof -
  note u = unat_ctr_value [OF d]
  have S: "unat (ctr_value d (Suc k)) = k mod unat d + 1"
    using u(1) [of "Suc k"] by simp
  show ?thesis
  proof (cases "ctr_value d k = d")
    case True
    then have "k \<noteq> 0" "(k - 1) mod unat d + 1 = unat d"
      using u(1) [of k] d by (auto split: if_splits)
    then have "k mod unat d = 0"
      by (cases k) (auto simp: mod_Suc)
    then have "unat (ctr_value d (Suc k)) = unat (1 :: u16)"
      using S by simp
    then show ?thesis
      using True unfolding unat_inj by simp
  next
    case False
    then have lt: "unat (ctr_value d k) < unat d"
      using u(2) [of k] by (simp add: le_less)
    then have "unat (ctr_value d k + 1) = unat (ctr_value d k) + 1"
      using unat_lt_16 [of d] by (intro unat_Suc_16) linarith
    moreover have "k mod unat d + 1 = unat (ctr_value d k) + 1"
      using lt u(1) [of k] by (cases k) (auto simp: mod_Suc)
    ultimately have "unat (ctr_value d (Suc k)) = unat (ctr_value d k + 1)"
      using S by linarith
    then show ?thesis
      using False by simp
  qed
qed

text \<open>Its contact: a count at the value \<open>d\<close> switches it off, also when the new value 1 is \<open>d\<close>.\<close>

definition ctr_on :: "u16 \<Rightarrow> nat \<Rightarrow> bool" where
  "ctr_on d k \<longleftrightarrow> ctr_value d k = d \<and> (2 \<le> unat d \<or> k = 1)"

lemma ctr_step_rise:
  assumes "1 \<le> unat d"
  shows "ctr_step d True (ctr_value d k, False, ctr_on d k) = (ctr_value d (Suc k), True, ctr_on d (Suc k))"
proof (cases "ctr_value d k = d")
  case True
  then have k: "k \<noteq> 0"
    using assms by (cases k) (auto simp: ctr_value_def)
  have "\<not> ctr_on d (Suc k)"
    using ctr_value_Suc [OF assms, of k] True k by (auto simp: ctr_on_def)
  then show ?thesis
    using ctr_value_Suc [OF assms, of k] True by simp
next
  case False
  have one: "k = 0" if "unat d < 2" "ctr_value d (Suc k) = d"
  proof (rule ccontr)
    assume "k \<noteq> 0"
    moreover have "unat d = 1"
      using that(1) assms by linarith
    ultimately have "unat (ctr_value d k) = unat d"
      using unat_ctr_value(1) [OF assms, of k] by simp
    then show False
      using False by simp
  qed
  have le: "ctr_value d (Suc k) = d" if "d \<le> ctr_value d (Suc k)"
  proof (rule antisym)
    show "ctr_value d (Suc k) \<le> d"
      unfolding word_le_nat_alt by (rule unat_ctr_value(2) [OF assms])
  qed (rule that)
  have "ctr_on d (Suc k)" if "d \<le> ctr_value d (Suc k)"
    using one le [OF that] unfolding ctr_on_def by (cases "unat d < 2") (simp_all only: not_less simp_thms One_nat_def)
  then have "d \<le> ctr_value d (Suc k) \<longleftrightarrow> ctr_on d (Suc k)" "\<not> ctr_on d k"
    using False unfolding ctr_on_def by (auto simp only: order_refl)
  then show ?thesis
    using ctr_value_Suc [OF assms, of k] False by simp
qed

lemma ctr_fold:
  "1 \<le> unat d \<Longrightarrow> \<exists>f'. fold (ctr_step d) bs (ctr_value d k, f, ctr_on d k) =
     (ctr_value d (k + rises f bs), f', ctr_on d (k + rises f bs))"
proof (induction bs arbitrary: k f)
  case (Cons a bs)
  show ?case
  proof (cases "a \<and> \<not> f")
    case False
    then have "ctr_step d a (ctr_value d k, f, ctr_on d k) = (ctr_value d k, a, ctr_on d k)" "rises f (a # bs) = rises a bs"
      by auto
    then show ?thesis
      using Cons.IH [OF Cons.prems, of k a] by (simp del: ctr_step.simps rises.simps)
  next
    case True
    then show ?thesis
      using Cons.IH [OF Cons.prems, of "Suc k" True] ctr_step_rise [OF Cons.prems, of k] by (simp del: ctr_step.simps)
  qed
qed simp

section \<open>Properties\<close>

text \<open>C19. A 16-bit up counter counts the rising edges of its power flow and saturates at 0x7FFF.  Run once
  per scan with a constant set point \<open>d\<close>, \<open>run_ci_ctu_ins\<close> always returns \<open>pdPASS\<close>; after the scans the
  value is \<open>min 0x7FFF (start + edges)\<close>, the contact is on if it was on before, or if at least one edge was
  counted and the value has reached \<open>d\<close>; no other counter changes.\<close>
theorem ctu_counts:
  assumes "counter_ins n d (ucode s) (mcp_PC e)" and "view16 s n = Some (v, f, b)" and "unat v \<le> 0x7FFF"
  shows "\<exists>s' w f' b'. counter_scans run_ci_ctu_ins s e bs = Some s' \<and> view16 s' n = Some (w, f', b') \<and>
    unat w = min 0x7FFF (unat v + rises f bs) \<and> (b' \<longleftrightarrow> b \<or> 0 < rises f bs \<and> d \<le> w) \<and>
    (\<forall>m. m \<noteq> n \<longrightarrow> view16 s' m = view16 s m) \<and> elements_only s s'"
proof -
  obtain w f' b' where w: "fold (ctu_step d) bs (v, f, b) = (w, f', b')"
    by (cases "fold (ctu_step d) bs (v, f, b)") auto
  show ?thesis
    using ctu.scans [OF assms(1,2), of bs] ctu_fold [OF assms(3) w] unfolding w by blast
qed

text \<open>A counter instruction at address 0 on counter 5 with the constant set point 3.\<close>

abbreviation counter_code :: "u8 list" where
  "counter_code \<equiv> [0, 0, 0, 0, 5, 0, 0, 0xFF, 3, 0]"

lemma counter_code_reads:
  "GET_PU16_DATA counter_code 4 = Some 5" "GET_PU8_DATA counter_code 7 = Some 0xFF" "GET_PU8_DATA counter_code 6 = Some 0"
  "GET_PU16_DATA counter_code 8 = Some 3"
  by code_simp+

lemma boot_status: "c_StatusInfo (mtv_CElement static_elements) = replicate 512 \<lparr>c_PowerFlow = False, c_Started = False, c_Reserved = 0\<rparr>"
  by (simp add: static_elements_def)

lemma counter_code_ok:
  "counter_ins 5 3 (ucode (boot_state counter_code)) (mcp_PC env0)"
  "view16 (boot_state counter_code) 5 = Some (0, False, False)"
  by (simp add: counter_ins_def const_word_def counter_code_reads)
    (simp add: cview_def get_word_elem_def get_c_flow_def get_bit_elem_def get_bit_alt boot_status rd_def)

theorem ctu_counts_witness:
  "\<exists>s' w f' b'. counter_scans run_ci_ctu_ins (boot_state counter_code) env0 [True, True, False, True, False, True] = Some s' \<and>
    view16 s' 5 = Some (w, f', b') \<and> unat w = 3 \<and> b'"
proof -
  obtain s' w f' b' where x: "counter_scans run_ci_ctu_ins (boot_state counter_code) env0 [True, True, False, True, False, True] = Some s'"
    "view16 s' 5 = Some (w, f', b')" "unat w = 3" "b' \<longleftrightarrow> 3 \<le> w"
    using ctu_counts [OF counter_code_ok, of "[True, True, False, True, False, True]"] by auto
  then show ?thesis
    by (auto simp: word_le_nat_alt)
qed

text \<open>C20. A cyclic counter with a set point \<open>d > 0\<close> runs through 1, 2, .. d, 1, 2, ..: after \<open>k\<close> rising edges from a fresh counter its value is
  \<open>(k - 1) mod d + 1\<close>.  For \<open>d\<close> of at least 2 its contact is on exactly while the value is \<open>d\<close>; for \<open>d = 1\<close> it is on after the first edge
  only and off for good from the second on, although the value stays 1.\<close>
theorem ctr_cycles:
  assumes "counter_ins n d (ucode s) (mcp_PC e)" and "view16 s n = Some (0, False, False)" and "1 \<le> unat d"
    and "k = rises False bs"
  shows "\<exists>s' w f'. counter_scans run_ci_ctr_ins s e bs = Some s' \<and> view16 s' n = Some (w, f', w = d \<and> (2 \<le> unat d \<or> k = 1)) \<and>
    unat w = (if k = 0 then 0 else (k - 1) mod unat d + 1) \<and>
    (\<forall>m. m \<noteq> n \<longrightarrow> view16 s' m = view16 s m) \<and> elements_only s s'"
proof -
  have "ctr_value d 0 = 0" "\<not> ctr_on d 0"
    using assms(3) by (auto simp: ctr_on_def ctr_value_def)
  then obtain f' where w: "fold (ctr_step d) bs (0, False, False) = (ctr_value d k, f', ctr_on d k)"
    using ctr_fold [OF assms(3), of bs 0 False] assms(4) by auto
  show ?thesis
    using ctr.scans [OF assms(1,2), of bs] unat_ctr_value(1) [OF assms(3), of k] unfolding w ctr_on_def by blast
qed

theorem ctr_cycles_witness:
  "\<exists>s' w f'. counter_scans run_ci_ctr_ins (boot_state counter_code) env0 [True, False, True, False, True, False, True] = Some s' \<and>
    view16 s' 5 = Some (w, f', w = 3) \<and> unat w = 1"
  using ctr_cycles [OF counter_code_ok, of "rises False [True, False, True, False, True, False, True]" "[True, False, True, False, True, False, True]"]
  by auto

text \<open>C21. A scan of a 32-bit counter with a constant set point \<open>d\<close>: on a rising edge it moves by one, up or
  down by the SM element of the counter's number, wrapping around at 32 bits, and its contact then says
  whether the signed value has passed \<open>d\<close> in that direction; without an edge only the flow is remembered.\<close>
theorem dcnt_counts:
  assumes "GET_PU16_DATA (ucode s) (mcp_PC e + 4) = Some n" and "const_dword (ucode s) (mcp_PC e + 8) d"
    and "view32 s n = Some (v, f, b)" and "get_bit_elem SM_ELEMENT s n = Some down"
    and "on = GET_POWER_FLOW (mlv_InPF e)"
  shows "\<exists>s' w b'. run_ci_dcnt_ins s e = Some (pdPASS, s') \<and> view32 s' n = Some (w, on, b') \<and>
    w = (if on \<and> \<not> f then if down = 0 then v + 1 else v - 1 else v) \<and>
    (b' \<longleftrightarrow> (if on \<and> \<not> f then if down = 0 then sint d \<le> sint w else sint w \<le> sint d else b)) \<and>
    (\<forall>m. m \<noteq> n \<longrightarrow> view32 s' m = view32 s m) \<and> elements_only s s'"
proof -
  obtain s' where s': "run_ci_dcnt_ins s e = Some (pdPASS, s')" "view32 s' n = Some (dcnt_step d (down \<noteq> 0) on (v, f, b))"
    "\<forall>m. m \<noteq> n \<longrightarrow> view32 s' m = view32 s m" "elements_only s s'"
    using dcnt_scan [OF assms(1-4)] assms(5) by blast
  then show ?thesis
    by (cases "on \<and> \<not> f"; cases "down = 0") auto
qed

text \<open>A DCNT instruction at address 0 on counter 200 with the set point -2.\<close>

abbreviation dcnt_code :: "u8 list" where
  "dcnt_code \<equiv> [0, 0, 0, 0, 200, 0, 0, 0, 2, 0xFF, 0xFE, 0xFF, 0xFF, 0xFF]"

lemma dcnt_code_reads:
  "GET_PU16_DATA dcnt_code 4 = Some 200" "const_dword dcnt_code 8 0xFFFFFFFE"
  by (code_simp, simp add: const_dword_def, code_simp)

lemma dcnt_code_ok: "view32 (boot_state dcnt_code) 200 = Some (0, False, False)" "get_bit_elem SM_ELEMENT (boot_state dcnt_code) 200 = Some 0"
  by (simp_all add: cview_def get_c32_elem_def get_c_flow_def get_bit_elem_def get_bit_alt boot_status rd_def Let_def)

theorem dcnt_counts_witness:
  "\<exists>s'. run_ci_dcnt_ins (boot_state dcnt_code) env0 = Some (pdPASS, s') \<and> view32 s' 200 = Some (1, True, True)"
proof -
  have "GET_POWER_FLOW (mlv_InPF env0)" "sint (0xFFFFFFFE :: u32) \<le> sint (1 :: u32)"
    by code_simp+
  then show ?thesis
    using dcnt_counts [of "boot_state dcnt_code" env0 200 "0xFFFFFFFE" 0 False False 0 True] dcnt_code_reads dcnt_code_ok
    by auto
qed

text \<open>The reset of a counter clears its value and its contact, keeps the remembered flow and every other
  counter, and changes nothing without power flow; for 16-bit and 32-bit counters alike.\<close>
theorem rst_c_resets:
  assumes "GET_PU16_DATA (ucode s) (mcp_PC e + 4) = Some n" and "GET_POWER_FLOW (mlv_InPF e)"
    and "if n < word_elem_rang C16_AREA s then view16 s n = Some (v, f, b) else view32 s n = Some (v', f, b)"
  shows "\<exists>s'. run_ci_rst_c_ins s e = Some (pdPASS, s') \<and> elements_only s s' \<and>
    (if n < word_elem_rang C16_AREA s
     then view16 s' n = Some (0, f, False) \<and> (\<forall>m. m \<noteq> n \<longrightarrow> view16 s' m = view16 s m)
     else view32 s' n = Some (0, f, False) \<and> (\<forall>m. m \<noteq> n \<longrightarrow> view32 s' m = view32 s m))"
proof (cases "n < word_elem_rang C16_AREA s")
  case True
  obtain s1 where s1: "set_word_elem C16_AREA s n 0 = Some s1" "view16 s1 n = Some (0, f, b)"
    "\<forall>m. m \<noteq> n \<longrightarrow> view16 s1 m = view16 s m" "elements_only s s1"
    using c16.view_put [of s n v f b 0] assms(3) True by auto
  obtain s2 where "set_bit_elem C_ELEMENT s1 n 0 = Some s2" "view16 s2 n = Some (0, f, False)"
    "\<forall>m. m \<noteq> n \<longrightarrow> view16 s2 m = view16 s1 m" "elements_only s1 s2"
    using c16.view_bit [OF s1(2), of 0] by auto
  then show ?thesis
    using True assms(1,2) s1 elements_only_trans [OF s1(4)] by (simp add: run_ci_rst_c_ins_def plc_reset_one_counter_def)
next
  case False
  obtain s1 where s1: "set_c32_elem s n 0 = Some s1" "view32 s1 n = Some (0, f, b)"
    "\<forall>m. m \<noteq> n \<longrightarrow> view32 s1 m = view32 s m" "elements_only s s1"
    using c32.view_put [of s n v' f b 0] assms(3) False by auto
  obtain s2 where "set_bit_elem C_ELEMENT s1 n 0 = Some s2" "view32 s2 n = Some (0, f, False)"
    "\<forall>m. m \<noteq> n \<longrightarrow> view32 s2 m = view32 s1 m" "elements_only s1 s2"
    using c32.view_bit [OF s1(2), of 0] by auto
  then show ?thesis
    using False assms(1,2) s1 elements_only_trans [OF s1(4)] by (simp add: run_ci_rst_c_ins_def plc_reset_one_counter_def)
qed

theorem rst_c_resets_witness:
  "\<exists>s'. run_ci_rst_c_ins (boot_state counter_code) env0 = Some (pdPASS, s') \<and> view16 s' 5 = Some (0, False, False)"
  using rst_c_resets [of "boot_state counter_code" env0 5 0 False False 0] counter_code_ok
  by (auto simp: counter_ins_def GET_POWER_FLOW_def)

end
