(* ===== verification/PLC_CommonFunc.thy ===== *)
theory PLC_CommonFunc
  imports PLC_Element
begin

text \<open>
  \<open>source/plc/common/src/plc_commonfunc.c\<close>: the length field of a user file, the error flags and the error
  history in SD20 to SD24, the record of execution errors, and the two-node ring buffer of the serial
  ports.  The theory shows what the history and the record hold after any sequence of errors.
\<close>

section \<open>Length of a user file\<close>

text \<open>\<open>base\<close> is the address of the file in memory; the code takes another path for an unaligned pointer.\<close>

definition plc_get_file_length :: "nat \<Rightarrow> u8 list \<Rightarrow> nat \<Rightarrow> u16 \<Rightarrow> u32 option" where
  "plc_get_file_length base m a flag =
     (if flag = 1 then do { b \<leftarrow> GET_PU8_DATA m a; Some (ucast b) }
      else if flag = 2 then
        (if (base + a) mod 2 \<noteq> 0 then
           do { b0 \<leftarrow> GET_PU8_DATA m a; b1 \<leftarrow> GET_PU8_DATA m (a + 1); Some (ucast b0 + push_bit 8 (ucast b1)) }
         else do { w \<leftarrow> GET_PU16_DATA m a; Some (ucast w) })
      else if flag = 4 then
        (if (base + a) mod 4 \<noteq> 0 then
           do { b0 \<leftarrow> GET_PU8_DATA m a; b1 \<leftarrow> GET_PU8_DATA m (a + 1);
                b2 \<leftarrow> GET_PU8_DATA m (a + 2); b3 \<leftarrow> GET_PU8_DATA m (a + 3);
                Some (ucast b0 + push_bit 8 (ucast b1) + push_bit 16 (ucast b2) + push_bit 24 (ucast b3)) }
         else GET_PU32_DATA m a)
      else Some 0)"

section \<open>Error flags and history\<close>

definition set_flag :: "'w::len word \<Rightarrow> nat \<Rightarrow> 'w word" where
  "set_flag w k = w OR push_bit k 1"

definition clear_flag :: "'w::len word \<Rightarrow> nat \<Rightarrow> 'w word" where
  "clear_flag w k = w AND NOT (push_bit k 1)"

definition stop_err :: "nat \<Rightarrow> plc_state \<Rightarrow> plc_state" where
  "stop_err k s = s\<lparr>guv_StopError := set_flag (guv_StopError s) k\<rparr>"

definition non_stop_err :: "nat \<Rightarrow> plc_state \<Rightarrow> plc_state" where
  "non_stop_err k s = s\<lparr>guv_NonStopError := set_flag (guv_NonStopError s) k\<rparr>"

definition run_stop_flag :: "nat \<Rightarrow> plc_state \<Rightarrow> plc_state" where
  "run_stop_flag k s =
     s\<lparr>gtv_PlcRunStatus := (gtv_PlcRunStatus s)\<lparr>mtv_PlcRunStopFlag := set_flag (mtv_PlcRunStopFlag (gtv_PlcRunStatus s)) k\<rparr>\<rparr>"

text \<open>The \<open>switch\<close> over the error code; its first group of codes stops the PLC.\<close>

definition stop_code :: "u8 \<Rightarrow> bool" where
  "stop_code c \<longleftrightarrow> c \<in> ret_code ` {ERR_COMPILER, ERR_ILLEGAL_INSTRCTION, ERR_ELEMENT_TYPE, ERR_EXEC_OVER_TIME}"

definition error_flags :: "plc_state \<Rightarrow> u8 \<Rightarrow> plc_state option" where
  "error_flags s c =
     (if stop_code c then
        Some (run_stop_flag error_status_stop (stop_err stop_exec_err s))
      else if c \<in> ret_code ` {ERR_OPERANDS, ERR_MDTCP_EXCEEDMAXCONN} then
        do { s' \<leftarrow> set_bit_elem SM_ELEMENT s 22 1; Some (non_stop_err nonstop_operands_err s') }
      else if c = ret_code ERR_OVER_ELEMENT_RANG then
        do { s' \<leftarrow> set_bit_elem SM_ELEMENT s 21 1; Some (non_stop_err nonstop_operands_err s') }
      else if c \<in> ret_code ` {ERR_MODBUS_TBL, ERR_MODBUSTCP_TBL, ERR_NET_CONFIG} then
        Some (stop_err stop_exec_err (non_stop_err nonstop_netconfig_err s))
      else if c = ret_code ERR_USER_PROGRAM then Some (stop_err stop_exec_err (non_stop_err nonstop_ucode_err s))
      else if c = ret_code ERR_DATA_BLOCK then Some (stop_err stop_exec_err (non_stop_err nonstop_datablock_err s))
      else if c = ret_code ERR_SYSTEM_BLOCK then Some (stop_err stop_exec_err (non_stop_err nonstop_sysblock_err s))
      else if c \<in> ret_code ` {ERR_EXTEND_ERR, ERR_SLAVE_ERR} then Some (non_stop_err nonstop_extend_bus_err s)
      else if c \<in> ret_code ` {ERR_ECAT_SLAVE_NUM_ERR, ERR_ECAT_WKC_ERR, ERR_EXPANSION_MODULE, ERR_ECAT_NOT_OPMODE} then
        Some (non_stop_err nonstop_ecat_err s)
      else if c \<in> ret_code ` {ERR_NULL_UCODE, ERR_NULL_DATA_BLOCK, ERR_NULL_POU_INFO, ERR_NULL_SYSTEM_BLOCK,
          ERR_NULL_NET_CONFIG, ERR_NULL_GVT} then Some s
      else Some (non_stop_err nonstop_operands_err s))"

text \<open>\<open>for(i=24; i>20; i--) SD[i] = SD[i-1]\<close>\<close>

fun shift_history :: "plc_state \<Rightarrow> nat \<Rightarrow> plc_state option" where
  "shift_history s i =
     (if 20 < i then
        do { v \<leftarrow> get_word_elem SD_AREA s (of_nat (i - 1));
             s' \<leftarrow> set_word_elem SD_AREA s (of_nat i) v;
             shift_history s' (i - 1) }
      else Some s)"

declare shift_history.simps [simp del]

definition plc_refresh_error_msg :: "plc_state \<Rightarrow> u8 \<Rightarrow> plc_state option" where
  "plc_refresh_error_msg s c =
     do { s1 \<leftarrow> set_bit_elem SM_ELEMENT s 20 1;
          s2 \<leftarrow> error_flags s1 c;
          v \<leftarrow> get_word_elem SD_AREA s2 20;
          if v \<noteq> ucast c then do { s3 \<leftarrow> shift_history s2 24; set_word_elem SD_AREA s3 20 (ucast c) }
          else Some s2 }"

section \<open>Record of execution errors\<close>

text \<open>The search loop: the index of the first record of the address, or the number of records.\<close>

function find_record :: "plc_exec_error_record_st \<Rightarrow> u32 \<Rightarrow> nat \<Rightarrow> nat option" where
  "find_record r off i =
     (if i < unat (mcv_ErrorCnt r) then
        do { a \<leftarrow> rd (msv_ErrorAddr r) i; if a = off then Some i else find_record r off (i + 1) }
      else Some i)"
  by auto
termination
  by (relation "measure (\<lambda>(r, off, i). unat (mcv_ErrorCnt r) - i)") auto

text \<open>The loop that drops the oldest record.\<close>

function shift_record :: "plc_exec_error_record_st \<Rightarrow> nat \<Rightarrow> plc_exec_error_record_st option" where
  "shift_record r i =
     (if i < MAX_EXEC_ERROR_RECORD_CNT - 1 then
        do { m \<leftarrow> rd (msv_ErrorMsg r) (i + 1);
             ms \<leftarrow> wr (msv_ErrorMsg r) i m;
             a \<leftarrow> rd (msv_ErrorAddr r) (i + 1);
             as \<leftarrow> wr (msv_ErrorAddr r) i a;
             shift_record (r\<lparr>msv_ErrorMsg := ms, msv_ErrorAddr := as\<rparr>) (i + 1) }
      else Some r)"
  by auto
termination
  by (relation "measure (\<lambda>(r, i). MAX_EXEC_ERROR_RECORD_CNT - 1 - i)") auto

declare find_record.simps [simp del] shift_record.simps [simp del]

definition put_record :: "plc_exec_error_record_st \<Rightarrow> nat \<Rightarrow> u8 \<Rightarrow> u32 \<Rightarrow> plc_exec_error_record_st option" where
  "put_record r i c off =
     do { ms \<leftarrow> wr (msv_ErrorMsg r) i (ucast c); as \<leftarrow> wr (msv_ErrorAddr r) i off;
          Some (r\<lparr>msv_ErrorMsg := ms, msv_ErrorAddr := as\<rparr>) }"

text \<open>\<open>lcp_Ucode - UCodePtr\<close> is the program offset itself.\<close>

definition plc_refresh_exec_error_record :: "plc_state \<Rightarrow> u8 \<Rightarrow> nat \<Rightarrow> plc_state option" where
  "plc_refresh_exec_error_record s c pc =
     (let r = gtv_PlcExecErrorRecord s; off = of_nat pc; n = unat (mcv_ErrorCnt r) in
      do { i \<leftarrow> find_record r off 0;
           if n \<le> i then
             if MAX_EXEC_ERROR_RECORD_CNT \<le> n then
               do { r1 \<leftarrow> shift_record r 0;
                    r2 \<leftarrow> put_record r1 (MAX_EXEC_ERROR_RECORD_CNT - 1) c off;
                    Some (s\<lparr>gtv_PlcExecErrorRecord := r2\<rparr>) }
             else
               do { r1 \<leftarrow> put_record r n c off;
                    Some (s\<lparr>gtv_PlcExecErrorRecord := r1\<lparr>mcv_ErrorCnt := mcv_ErrorCnt r + 1\<rparr>\<rparr>) }
           else Some s })"

section \<open>Ring buffer\<close>

text \<open>The six static buffers of the serial ports.\<close>

datatype ring_mem = gRing1 | gRing2 | gRing3 | gRing4 | gRing5 | gRing6

definition RING_BUFFER_NODE_NUM :: nat where
  "RING_BUFFER_NODE_NUM = 2"

record ring_buffer_st =
  mcp_Buff :: "ring_mem option list"
  mcv_Index :: u8

definition ring_buffer_get_write_mem :: "ring_buffer_st \<Rightarrow> ring_mem option option" where
  "ring_buffer_get_write_mem b = rd (mcp_Buff b) (unat (mcv_Index b))"

definition ring_buffer_switch_write_mem :: "ring_buffer_st \<Rightarrow> ring_buffer_st" where
  "ring_buffer_switch_write_mem b =
     (if unat (mcv_Index b) + 1 < RING_BUFFER_NODE_NUM then b\<lparr>mcv_Index := mcv_Index b + 1\<rparr> else b\<lparr>mcv_Index := 0\<rparr>)"

definition ring_buffer_init :: "ring_buffer_st \<Rightarrow> u8 \<Rightarrow> ring_buffer_st option" where
  "ring_buffer_init b port =
     do { l \<leftarrow> (if port = 0 then Option.bind (wr (mcp_Buff b) 0 (Some gRing1)) (\<lambda>l. wr l 1 (Some gRing2))
               else if port = 1 then Option.bind (wr (mcp_Buff b) 0 (Some gRing3)) (\<lambda>l. wr l 1 (Some gRing4))
               else if port = 2 then Option.bind (wr (mcp_Buff b) 0 (Some gRing5)) (\<lambda>l. wr l 1 (Some gRing6))
               else Some (mcp_Buff b));
          Some (b\<lparr>mcp_Buff := l, mcv_Index := 0\<rparr>) }"

section \<open>Lemmas\<close>

lemma bit_set_flag: "bit (set_flag (w :: 'w::len word) k) n \<longleftrightarrow> bit w n \<or> (n = k \<and> k < LENGTH('w))"
  by (simp add: set_flag_def bit_or_exp)

lemma bit_clear_flag: "bit (clear_flag (w :: 'w::len word) k) n \<longleftrightarrow> bit w n \<and> n \<noteq> k"
  by (simp add: clear_flag_def bit_and_not_exp)

text \<open>The error history: SD20 to SD24, the latest error first.\<close>

definition error_history :: "plc_state \<Rightarrow> u16 list" where
  "error_history s = take 5 (drop 20 (msp_SDElement (gtv_PlcElement s)))"

lemma five_at_20: "25 \<le> length xs \<Longrightarrow> take 5 (drop 20 xs) = [xs ! 20, xs ! 21, xs ! 22, xs ! 23, xs ! 24]"
  by (rule nth_equalityI) (auto simp: less_Suc_eq numeral_eq_Suc nth_Cons')

lemma sd_access:
  "get_word_elem SD_AREA s i = rd (msp_SDElement (gtv_PlcElement s)) (unat i)"
  "set_word_elem SD_AREA s i v =
     (if unat i < length (msp_SDElement (gtv_PlcElement s))
      then Some (s\<lparr>gtv_PlcElement := (gtv_PlcElement s)\<lparr>msp_SDElement := (msp_SDElement (gtv_PlcElement s))[unat i := v]\<rparr>\<rparr>)
      else None)"
  by (simp_all add: get_word_elem_def set_word_elem_def wr_def)

lemma shift_history_ok:
  fixes s :: plc_state
  defines "sd \<equiv> msp_SDElement (gtv_PlcElement s)"
  assumes "25 \<le> length sd"
  shows "shift_history s 24 = Some (s\<lparr>gtv_PlcElement := (gtv_PlcElement s)\<lparr>msp_SDElement :=
     sd[24 := sd ! 23, 23 := sd ! 22, 22 := sd ! 21, 21 := sd ! 20]\<rparr>\<rparr>)"
  using assms(2) unfolding sd_def
  by (simp add: shift_history.simps [of _ "24"] shift_history.simps [of _ "23"] shift_history.simps [of _ "22"]
      shift_history.simps [of _ "21"] shift_history.simps [of _ "20"] sd_access mem_simps)

text \<open>What the flag updates keep, and whether they ask for a stop.\<close>

definition flagged :: "bool \<Rightarrow> plc_state \<Rightarrow> plc_state \<Rightarrow> bool" where
  "flagged stop s s' \<longleftrightarrow> wf_elements (gtp_PlcElementInfo s) (gtv_PlcElement s') \<and> gtp_PlcElementInfo s' = gtp_PlcElementInfo s \<and>
     msp_SDElement (gtv_PlcElement s') = msp_SDElement (gtv_PlcElement s) \<and>
     get_bit_elem SM_ELEMENT s' 20 = get_bit_elem SM_ELEMENT s 20 \<and>
     (bit (mtv_PlcRunStopFlag (gtv_PlcRunStatus s')) error_status_stop \<longleftrightarrow>
       bit (mtv_PlcRunStopFlag (gtv_PlcRunStatus s)) error_status_stop \<or> stop)"

lemma flagged_refl: "wf_state s \<Longrightarrow> flagged False s s"
  by (simp add: flagged_def)

lemma flagged_err:
  "flagged b s t \<Longrightarrow> flagged b s (non_stop_err k t)"
  "flagged b s t \<Longrightarrow> flagged b s (stop_err k t)"
  "flagged b s t \<Longrightarrow> flagged True s (run_stop_flag error_status_stop t)"
  by (simp_all add: flagged_def non_stop_err_def stop_err_def run_stop_flag_def get_bit_elem_def bit_set_flag)

lemma flagged_sm:
  assumes wf: "wf_state s" and sm: "23 \<le> unat (bit_rang (gtp_PlcElementInfo s) SM_ELEMENT)" and i: "i = 21 \<or> i = 22"
  obtains s' where "set_bit_elem SM_ELEMENT s i 1 = Some s'" "flagged False s s'"
proof -
  have "i < bit_elem_rang SM_ELEMENT s" "i \<noteq> 20"
    using i sm by (auto simp: word_less_nat_alt)
  then obtain s' where s': "set_bit_elem SM_ELEMENT s i 1 = Some s'"
    using bits.put_ok [OF wf] by blast
  moreover have "gtp_PlcElementInfo s' = gtp_PlcElementInfo s" "gtv_PlcRunStatus s' = gtv_PlcRunStatus s"
    "msp_SDElement (gtv_PlcElement s') = msp_SDElement (gtv_PlcElement s)"
    using s' by (auto simp: set_bit_elem_def opt_simps)
  ultimately show ?thesis
    using that [OF s'] bits.put_inv [OF wf s'] bits.get_put_other [OF s' \<open>i \<noteq> 20\<close>] by (simp add: flagged_def)
qed

lemma error_flags_ok:
  assumes sm: "23 \<le> unat (bit_rang (gtp_PlcElementInfo s) SM_ELEMENT)" and wf: "wf_state s"
  shows "\<exists>s'. error_flags s c = Some s' \<and> flagged (stop_code c) s s'"
proof (cases "stop_code c")
  case True
  then show ?thesis
    using flagged_err [OF flagged_err(2) [OF flagged_refl [OF wf]]] by (simp add: error_flags_def)
next
  case False
  obtain s1 where s1: "set_bit_elem SM_ELEMENT s 22 1 = Some s1" "flagged False s s1"
    using flagged_sm [OF wf sm] by blast
  obtain s2 where s2: "set_bit_elem SM_ELEMENT s 21 1 = Some s2" "flagged False s s2"
    using flagged_sm [OF wf sm] by blast
  have "flagged False s (stop_err k (non_stop_err k' s))" "flagged False s (non_stop_err k s)" "flagged False s s"
    "flagged False s (non_stop_err k s1)" "flagged False s (non_stop_err k s2)" for k k'
    by (intro flagged_err(1,2) flagged_refl wf s1(2) s2(2))+
  then show ?thesis
    unfolding error_flags_def by (simp only: False s1(1) s2(1) if_False bind.bind_lunit) (simp split: if_split)
qed

lemma refresh_error_msg_ok:
  assumes sm: "23 \<le> unat (bit_rang (gtp_PlcElementInfo s) SM_ELEMENT)" and wf: "wf_state s"
    and sd: "25 \<le> length (msp_SDElement (gtv_PlcElement s))"
  shows "\<exists>s'. plc_refresh_error_msg s c = Some s' \<and> wf_state s' \<and> gtp_PlcElementInfo s' = gtp_PlcElementInfo s \<and>
    length (msp_SDElement (gtv_PlcElement s')) = length (msp_SDElement (gtv_PlcElement s)) \<and>
    error_history s' = (if hd (error_history s) = ucast c then error_history s else ucast c # take 4 (error_history s)) \<and>
    get_bit_elem SM_ELEMENT s' 20 = Some 1 \<and>
    (bit (mtv_PlcRunStopFlag (gtv_PlcRunStatus s')) error_status_stop \<longleftrightarrow>
       bit (mtv_PlcRunStopFlag (gtv_PlcRunStatus s)) error_status_stop \<or>
       stop_code c)"
proof -
  have "(20 :: u16) < bit_elem_rang SM_ELEMENT s"
    using sm by (simp add: word_less_nat_alt)
  then obtain s1 where s1: "set_bit_elem SM_ELEMENT s 20 1 = Some s1"
    using bits.put_ok [OF wf] by blast
  have e1: "gtp_PlcElementInfo s1 = gtp_PlcElementInfo s" "gtv_PlcRunStatus s1 = gtv_PlcRunStatus s"
    "msp_SDElement (gtv_PlcElement s1) = msp_SDElement (gtv_PlcElement s)"
    using s1 by (auto simp: set_bit_elem_def opt_simps)
  have "wf_state s1" and on: "get_bit_elem SM_ELEMENT s1 20 = Some 1"
    using bits.put_inv [OF wf s1] bits.get_put_same [OF s1] by (simp_all add: bit_norm_def)
  then obtain s2 where flags: "error_flags s1 c = Some s2" "flagged (stop_code c) s1 s2"
    using error_flags_ok [of s1 c] sm unfolding e1 by blast
  note s2 = flags(1) flags(2) [unfolded flagged_def e1 on]
  let ?sd = "msp_SDElement (gtv_PlcElement s)"
  have hd: "hd (error_history s) = ?sd ! 20"
    using sd by (simp add: error_history_def five_at_20)
  show ?thesis
  proof (cases "?sd ! 20 = ucast c")
    case True
    then have "plc_refresh_error_msg s c = Some s2"
      using s1 s2 sd by (simp add: plc_refresh_error_msg_def sd_access mem_simps)
    then show ?thesis
      using s2 True by (simp add: hd) (simp add: error_history_def)
  next
    case False
    let ?l = "?sd[24 := ?sd ! 23, 23 := ?sd ! 22, 22 := ?sd ! 21, 21 := ?sd ! 20, 20 := ucast c]"
    let ?s = "s2\<lparr>gtv_PlcElement := (gtv_PlcElement s2)\<lparr>msp_SDElement := ?l\<rparr>\<rparr>"
    have "plc_refresh_error_msg s c = Some ?s"
      using s1 s2 sd False shift_history_ok [of s2] by (simp add: plc_refresh_error_msg_def sd_access mem_simps)
    moreover have "wf_state ?s"
      using s2(2) wf_upd_word [of _ "gtv_PlcElement s2" ?l SD_AREA] by simp
    moreover have "error_history ?s = ucast c # take 4 (error_history s)"
      using sd by (simp add: error_history_def five_at_20)
    moreover have "get_bit_elem SM_ELEMENT ?s 20 = Some 1"
      using s2(2) by (simp add: get_bit_elem_def)
    ultimately show ?thesis
      using s2(2) False by (simp add: hd)
  qed
qed

fun refresh_all :: "plc_state \<Rightarrow> u8 list \<Rightarrow> plc_state option" where
  "refresh_all s [] = Some s"
| "refresh_all s (c # cs) = do { s' \<leftarrow> plc_refresh_error_msg s c; refresh_all s' cs }"

definition push_error :: "u16 \<Rightarrow> u16 list \<Rightarrow> u16 list" where
  "push_error c h = (if hd h = c then h else c # take 4 h)"

lemma hd_push_error: "length h = 5 \<Longrightarrow> hd (push_error c h) = c"
  by (auto simp: push_error_def)

lemma length_push_error: "length h = 5 \<Longrightarrow> length (push_error c h) = 5"
  by (auto simp: push_error_def)

lemma remdups_adj_Cons_ne: "xs \<noteq> [] \<Longrightarrow> remdups_adj (x # xs) = (if x = hd xs then remdups_adj xs else x # remdups_adj xs)"
  by (cases xs) auto

lemma hd_take_append: "xs \<noteq> [] \<Longrightarrow> hd (take (Suc n) (xs @ ys)) = hd xs"
  by (cases xs) auto

lemma fold_push_error:
  assumes "length h = 5"
  shows "fold push_error cs h = take 5 (remdups_adj (rev cs @ [hd h]) @ tl h)"
proof (induction cs rule: rev_induct)
  case Nil
  then show ?case
    using assms by (cases h) auto
next
  case (snoc c cs)
  let ?l = "rev cs @ [hd h]"
  have hd: "hd (take 5 (remdups_adj ?l @ tl h)) = hd ?l"
    using hd_take_append [of "remdups_adj ?l" 4 "tl h"] by (simp add: eval_nat_numeral)
  show ?case
  proof (cases "hd ?l = c")
    case True
    then have "remdups_adj (c # ?l) = remdups_adj ?l"
      by (simp add: remdups_adj_Cons_ne)
    then show ?thesis
      using snoc hd True by (simp add: push_error_def)
  next
    case False
    then have "remdups_adj (c # ?l) = c # remdups_adj ?l"
      by (auto simp: remdups_adj_Cons_ne)
    moreover have "min n 5 = n \<or> 4 - min n 5 = 4 - n" for n :: nat
      by auto
    ultimately show ?thesis
      using snoc hd False by (auto simp: push_error_def min_def)
  qed
qed

section \<open>The record of execution errors as a log\<close>

definition error_log :: "plc_exec_error_record_st \<Rightarrow> (u32 \<times> u16) list" where
  "error_log r = take (unat (mcv_ErrorCnt r)) (zip (msv_ErrorAddr r) (msv_ErrorMsg r))"

definition record_ok :: "plc_exec_error_record_st \<Rightarrow> bool" where
  "record_ok r \<longleftrightarrow> length (msv_ErrorAddr r) = 5 \<and> length (msv_ErrorMsg r) = 5 \<and> unat (mcv_ErrorCnt r) \<le> 5 \<and>
     distinct (take (unat (mcv_ErrorCnt r)) (msv_ErrorAddr r))"

lemma find_record_spec:
  assumes "unat (mcv_ErrorCnt r) \<le> length (msv_ErrorAddr r)" and "i \<le> unat (mcv_ErrorCnt r)"
  shows "\<exists>j. find_record r off i = Some j \<and> i \<le> j \<and> j \<le> unat (mcv_ErrorCnt r) \<and>
    (j < unat (mcv_ErrorCnt r) \<longleftrightarrow> (\<exists>k. i \<le> k \<and> k < unat (mcv_ErrorCnt r) \<and> msv_ErrorAddr r ! k = off))"
  using assms
proof (induction r off i rule: find_record.induct)
  case (1 r off i)
  show ?case
  proof (cases "i < unat (mcv_ErrorCnt r) \<and> msv_ErrorAddr r ! i \<noteq> off")
    case True
    then have r: "rd (msv_ErrorAddr r) i = Some (msv_ErrorAddr r ! i)"
      using 1(2) by simp
    obtain j where j: "find_record r off (i + 1) = Some j" "i + 1 \<le> j" "j \<le> unat (mcv_ErrorCnt r)"
      "j < unat (mcv_ErrorCnt r) \<longleftrightarrow> (\<exists>k. i + 1 \<le> k \<and> k < unat (mcv_ErrorCnt r) \<and> msv_ErrorAddr r ! k = off)"
      using 1(1) [OF _ r] 1(2) True by auto
    have split: "i \<le> k \<longleftrightarrow> k = i \<or> i + 1 \<le> k" for k
      by auto
    have "find_record r off i = Some j"
      using True r j(1) by (subst find_record.simps) (simp add: mem_simps)
    moreover have "j < unat (mcv_ErrorCnt r) \<longleftrightarrow> (\<exists>k. i \<le> k \<and> k < unat (mcv_ErrorCnt r) \<and> msv_ErrorAddr r ! k = off)"
      unfolding j(4) split using True by blast
    ultimately show ?thesis
      using j(2,3) by auto
  next
    case False
    then show ?thesis
      using 1(2,3) by (subst find_record.simps) (auto simp: mem_simps)
  qed
qed

lemma five_list: "length xs = 5 \<Longrightarrow> \<exists>a b c d e. xs = [a, b, c, d, e]"
  by (auto simp: eval_nat_numeral length_Suc_conv)

lemma shift_record_spec:
  assumes "length (msv_ErrorAddr r) = 5" and "length (msv_ErrorMsg r) = 5"
  shows "shift_record r 0 = Some (r\<lparr>msv_ErrorMsg := tl (msv_ErrorMsg r) @ [last (msv_ErrorMsg r)],
    msv_ErrorAddr := tl (msv_ErrorAddr r) @ [last (msv_ErrorAddr r)]\<rparr>)"
proof -
  obtain a0 a1 a2 a3 a4 where a: "msv_ErrorAddr r = [a0, a1, a2, a3, a4]"
    using five_list [OF assms(1)] by blast
  obtain m0 m1 m2 m3 m4 where m: "msv_ErrorMsg r = [m0, m1, m2, m3, m4]"
    using five_list [OF assms(2)] by blast
  have "MAX_EXEC_ERROR_RECORD_CNT - 1 = 4"
    by (simp add: MAX_EXEC_ERROR_RECORD_CNT_def)
  then show ?thesis
    by (simp add: shift_record.simps a m rd_def wr_def eval_nat_numeral)
qed

lemma unat_Suc_8: "unat (n :: u8) < 255 \<Longrightarrow> unat (n + 1) = unat n + 1"
  by (simp add: unat_word_ariths(1))

lemma set_error_log: "record_ok r \<Longrightarrow> fst ` set (error_log r) = set (take (unat (mcv_ErrorCnt r)) (msv_ErrorAddr r))"
  by (simp add: error_log_def record_ok_def take_zip flip: set_map)

lemma tl_zip: "length xs = length ys \<Longrightarrow> tl (zip xs ys) = zip (tl xs) (tl ys)"
  by (cases xs; cases ys) auto

lemma append_update: "n < length xs \<Longrightarrow> take (Suc n) (xs[n := v]) = take n xs @ [v]"
  by (simp add: take_Suc_conv_app_nth)

lemma exec_error_record_ok:
  assumes ok: "record_ok (gtv_PlcExecErrorRecord s)"
  shows "\<exists>r'. plc_refresh_exec_error_record s c pc = Some (s\<lparr>gtv_PlcExecErrorRecord := r'\<rparr>) \<and> record_ok r' \<and>
    error_log r' =
      (let l = error_log (gtv_PlcExecErrorRecord s) in
       if of_nat pc \<in> fst ` set l then l
       else (if length l = 5 then tl l else l) @ [(of_nat pc, ucast c)])"
proof -
  let ?r = "gtv_PlcExecErrorRecord s"
  let ?n = "unat (mcv_ErrorCnt ?r)" and ?off = "of_nat pc :: u32"
  note r = ok [unfolded record_ok_def]
  have len: "length (error_log ?r) = ?n"
    using r by (simp add: error_log_def)
  have mem: "?off \<in> fst ` set (error_log ?r) \<longleftrightarrow> (\<exists>k < ?n. msv_ErrorAddr ?r ! k = ?off)"
    unfolding set_error_log [OF ok] using r by (auto simp: in_set_conv_nth)
  obtain j where j: "find_record ?r ?off 0 = Some j" "j \<le> ?n" "j < ?n \<longleftrightarrow> ?off \<in> fst ` set (error_log ?r)"
    using find_record_spec [of ?r 0 ?off] r unfolding mem by auto
  consider (old) "?off \<in> fst ` set (error_log ?r)" | (full) "?off \<notin> fst ` set (error_log ?r)" "?n = 5"
    | (room) "?off \<notin> fst ` set (error_log ?r)" "?n < 5"
    using r by linarith
  then show ?thesis
  proof cases
    case old
    then have "plc_refresh_exec_error_record s c pc = Some (s\<lparr>gtv_PlcExecErrorRecord := ?r\<rparr>)"
      using j by (simp add: plc_refresh_exec_error_record_def Let_def)
    then show ?thesis
      using old ok by (intro exI [of _ ?r]) (simp add: Let_def)
  next
    case full
    let ?r' = "?r\<lparr>msv_ErrorMsg := tl (msv_ErrorMsg ?r) @ [ucast c], msv_ErrorAddr := tl (msv_ErrorAddr ?r) @ [?off]\<rparr>"
    have "(tl (msv_ErrorAddr ?r) @ [x])[4 := y] = tl (msv_ErrorAddr ?r) @ [y]" "(tl (msv_ErrorMsg ?r) @ [x'])[4 := y'] = tl (msv_ErrorMsg ?r) @ [y']" for x y x' y'
      using r by (simp_all add: list_update_append)
    then have "plc_refresh_exec_error_record s c pc = Some (s\<lparr>gtv_PlcExecErrorRecord := ?r'\<rparr>)"
      using j full r shift_record_spec [of ?r]
      by (simp add: plc_refresh_exec_error_record_def Let_def put_record_def MAX_EXEC_ERROR_RECORD_CNT_def wr_def)
    moreover have "record_ok ?r'"
      using r full unfolding set_error_log [OF ok] record_ok_def by (auto simp: distinct_tl dest: list.set_sel(2) [rotated])
    moreover have "error_log ?r' = tl (error_log ?r) @ [(?off, ucast c)]"
      using r full by (simp add: error_log_def zip_append tl_zip)
    ultimately show ?thesis
      using full len by (auto simp: Let_def)
  next
    case room
    let ?r' = "?r\<lparr>msv_ErrorMsg := (msv_ErrorMsg ?r)[?n := ucast c], msv_ErrorAddr := (msv_ErrorAddr ?r)[?n := ?off], mcv_ErrorCnt := mcv_ErrorCnt ?r + 1\<rparr>"
    have n: "unat (mcv_ErrorCnt ?r + 1) = Suc ?n"
      using room unat_Suc_8 [of "mcv_ErrorCnt ?r"] by simp
    have "plc_refresh_exec_error_record s c pc = Some (s\<lparr>gtv_PlcExecErrorRecord := ?r'\<rparr>)"
      using j room r
      by (simp add: plc_refresh_exec_error_record_def Let_def put_record_def MAX_EXEC_ERROR_RECORD_CNT_def wr_def)
    moreover have "record_ok ?r'"
      using r room unfolding set_error_log [OF ok] record_ok_def by (simp add: n append_update)
    moreover have "error_log ?r' = error_log ?r @ [(?off, ucast c)]"
      using r room by (simp add: error_log_def n take_zip append_update zip_append)
    ultimately show ?thesis
      using room len by (auto simp: Let_def)
  qed
qed

section \<open>Properties\<close>

lemma refresh_all_history:
  "23 \<le> unat (bit_rang (gtp_PlcElementInfo s) SM_ELEMENT) \<Longrightarrow> wf_state s \<Longrightarrow> 25 \<le> length (msp_SDElement (gtv_PlcElement s)) \<Longrightarrow>
   \<exists>s'. refresh_all s cs = Some s' \<and> wf_state s' \<and> error_history s' = fold push_error (map ucast cs) (error_history s) \<and>
     (bit (mtv_PlcRunStopFlag (gtv_PlcRunStatus s')) error_status_stop \<longleftrightarrow>
       bit (mtv_PlcRunStopFlag (gtv_PlcRunStatus s)) error_status_stop \<or> (\<exists>c \<in> set cs. stop_code c))"
proof (induction cs arbitrary: s)
  case (Cons c cs)
  obtain s1 where s1: "plc_refresh_error_msg s c = Some s1" "wf_state s1" "gtp_PlcElementInfo s1 = gtp_PlcElementInfo s"
    "length (msp_SDElement (gtv_PlcElement s1)) = length (msp_SDElement (gtv_PlcElement s))"
    "error_history s1 = push_error (ucast c) (error_history s)"
    "bit (mtv_PlcRunStopFlag (gtv_PlcRunStatus s1)) error_status_stop \<longleftrightarrow>
       bit (mtv_PlcRunStopFlag (gtv_PlcRunStatus s)) error_status_stop \<or> stop_code c"
    using refresh_error_msg_ok [OF Cons.prems, of c] unfolding push_error_def by blast
  obtain s' where s': "refresh_all s1 cs = Some s'" "wf_state s'" "error_history s' = fold push_error (map ucast cs) (error_history s1)"
    "bit (mtv_PlcRunStopFlag (gtv_PlcRunStatus s')) error_status_stop \<longleftrightarrow>
       bit (mtv_PlcRunStopFlag (gtv_PlcRunStatus s1)) error_status_stop \<or> (\<exists>c \<in> set cs. stop_code c)"
    using Cons.IH [of s1] Cons.prems s1 by auto
  show ?case
    using s1(1,5,6) s' by auto
qed auto

text \<open>C23. The error history.  After any sequence of reported errors, SD20 to SD24 hold the last five of
  them, the latest first, with immediate repetitions counted once; the stop flag is raised exactly when it
  was raised before or one of the errors is a compile error, an illegal instruction, an illegal element
  type or a scan overrun; \<open>plc_refresh_error_msg\<close> never leaves the element arrays.\<close>
theorem error_history_of_sequence:
  assumes "23 \<le> unat (bit_rang (gtp_PlcElementInfo s) SM_ELEMENT)" and "wf_state s"
    and "25 \<le> length (msp_SDElement (gtv_PlcElement s))"
  shows "\<exists>s'. refresh_all s cs = Some s' \<and> wf_state s' \<and>
    error_history s' = take 5 (remdups_adj (rev (map ucast cs) @ [hd (error_history s)]) @ tl (error_history s)) \<and>
    (bit (mtv_PlcRunStopFlag (gtv_PlcRunStatus s')) error_status_stop \<longleftrightarrow>
      bit (mtv_PlcRunStopFlag (gtv_PlcRunStatus s)) error_status_stop \<or> (\<exists>c \<in> set cs. stop_code c))"
proof -
  have "length (error_history s) = 5"
    using assms(3) by (simp add: error_history_def)
  then show ?thesis
    using refresh_all_history [OF assms, of cs] by (simp add: fold_push_error)
qed

theorem error_history_of_sequence_witness:
  "\<exists>s'. refresh_all (boot_state []) [64, 64, 62, 65] = Some s' \<and> error_history s' = [65, 62, 64, 0, 0] \<and>
    bit (mtv_PlcRunStopFlag (gtv_PlcRunStatus s')) error_status_stop"
proof -
  have h: "error_history (boot_state []) = [0, 0, 0, 0, 0]"
    by (simp add: error_history_def five_at_20)
  have "stop_code 62"
    by (simp add: stop_code_def)
  then show ?thesis
    using error_history_of_sequence [of "boot_state []" "[64, 64, 62, 65]"] by (auto simp: h)
qed

text \<open>C24. The record of execution errors is a log of at most five errors with different program addresses:
  \<open>plc_refresh_exec_error_record\<close> leaves the log alone when the address is in it, else it appends the error,
  dropping the oldest one when five are held; it changes nothing else and makes no access outside the arrays.\<close>
theorem exec_error_record_log:
  assumes "record_ok (gtv_PlcExecErrorRecord s)"
  shows "\<exists>r'. plc_refresh_exec_error_record s c pc = Some (s\<lparr>gtv_PlcExecErrorRecord := r'\<rparr>) \<and> record_ok r' \<and>
    error_log r' =
      (let l = error_log (gtv_PlcExecErrorRecord s) in
       if of_nat pc \<in> fst ` set l then l
       else (if length l = 5 then tl l else l) @ [(of_nat pc, ucast c)])"
  using exec_error_record_ok [OF assms] .

lemma boot_record: "record_ok (gtv_PlcExecErrorRecord (boot_state code))" "error_log (gtv_PlcExecErrorRecord (boot_state code)) = []"
  by (simp_all add: boot_state_def record_ok_def error_log_def)

theorem exec_error_record_log_witness:
  "\<exists>r'. plc_refresh_exec_error_record (boot_state []) 64 40 = Some ((boot_state [])\<lparr>gtv_PlcExecErrorRecord := r'\<rparr>) \<and>
    error_log r' = [(40, 64)]"
  using exec_error_record_log [OF boot_record(1), of "[]" 64 40] by (auto simp: boot_record)

text \<open>The two buffers of a serial port are used in turn: after \<open>ring_buffer_init\<close> on port 0, 1 or 2 the
  buffer to write after \<open>k\<close> switches is the first for even and the second for odd \<open>k\<close>, so the buffer filled
  last is never the one being written, and different ports never share a buffer.\<close>
theorem ring_buffer_alternates:
  assumes "length (mcp_Buff b) = 2" and "port < 3"
  shows "\<exists>b' x y. ring_buffer_init b port = Some b' \<and> x \<noteq> y \<and>
    {x, y} = (if port = 0 then {gRing1, gRing2} else if port = 1 then {gRing3, gRing4} else {gRing5, gRing6}) \<and>
    (\<forall>k. ring_buffer_get_write_mem ((ring_buffer_switch_write_mem ^^ k) b') = Some (Some (if even k then x else y)))"
proof -
  have ports: "port = 0 \<or> port = 1 \<or> port = 2"
  proof -
    have "unat port = unat (0 :: u8) \<or> unat port = unat (1 :: u8) \<or> unat port = unat (2 :: u8)"
      using assms(2) by (auto simp: word_less_nat_alt)
    then show ?thesis
      by (simp only: unat_inj)
  qed
  have run: "(ring_buffer_switch_write_mem ^^ k) \<lparr>mcp_Buff = [x, y], mcv_Index = 0\<rparr> =
      \<lparr>mcp_Buff = [x, y], mcv_Index = (if even k then 0 else 1)\<rparr>" for k x y
    by (induction k) (auto simp: ring_buffer_switch_write_mem_def RING_BUFFER_NODE_NUM_def)
  obtain p q where pq: "mcp_Buff b = [p, q]"
    using assms(1) by (auto simp: length_Suc_conv numeral_2_eq_2)
  define x where "x = (if port = 0 then gRing1 else if port = 1 then gRing3 else gRing5)"
  define y where "y = (if port = 0 then gRing2 else if port = 1 then gRing4 else gRing6)"
  have "ring_buffer_init b port = Some \<lparr>mcp_Buff = [Some x, Some y], mcv_Index = 0\<rparr>"
    using ports pq by (cases b) (auto simp: ring_buffer_init_def wr_def x_def y_def)
  moreover have "ring_buffer_get_write_mem \<lparr>mcp_Buff = [Some x, Some y], mcv_Index = (if even k then 0 else 1)\<rparr> =
      Some (Some (if even k then x else y))" for k :: nat
    by (auto simp: ring_buffer_get_write_mem_def rd_def)
  ultimately show ?thesis
    using run ports by (intro exI [of _ "\<lparr>mcp_Buff = [Some x, Some y], mcv_Index = 0\<rparr>"] exI [of _ x] exI [of _ y])
      (auto simp: x_def y_def)
qed

theorem ring_buffer_alternates_witness:
  "\<exists>b' x y. ring_buffer_init \<lparr>mcp_Buff = [None, None], mcv_Index = 7\<rparr> 1 = Some b' \<and> x \<noteq> y \<and> {x, y} = {gRing3, gRing4} \<and>
    (\<forall>k. ring_buffer_get_write_mem ((ring_buffer_switch_write_mem ^^ k) b') = Some (Some (if even k then x else y)))"
  using ring_buffer_alternates [of "\<lparr>mcp_Buff = [None, None], mcv_Index = 7\<rparr>" 1] by simp

lemma unat_byte_shift: "unat (push_bit k (ucast (b :: u8)) :: u32) = 2 ^ k * unat b" if "k \<le> 24"
proof -
  have "2 ^ k * unat b < 2 ^ k * 256"
    by (rule mult_strict_left_mono) simp_all
  also have "\<dots> \<le> 2 ^ 24 * 256"
    using that by (intro mult_right_mono power_increasing) simp_all
  finally have "2 ^ k * unat b < 2 ^ LENGTH(32)"
    by simp
  moreover have "push_bit k (ucast b) = (of_nat (2 ^ k * unat b) :: u32)"
    by (simp add: push_bit_eq_mult mult.commute)
  ultimately show ?thesis
    by (simp only: unat_of_nat mod_less)
qed

lemma unat_add_u32: "unat (x :: u32) + unat y < 4294967296 \<Longrightarrow> unat (x + y) = unat x + unat y"
  by (simp add: unat_word_ariths(1))

lemma bytes_sum: "unat (ucast b0 + push_bit 8 (ucast b1) + push_bit 16 (ucast b2) + push_bit 24 (ucast b3) :: u32) =
   unat (b0 :: u8) + 256 * unat (b1 :: u8) + 65536 * unat (b2 :: u8) + 16777216 * unat (b3 :: u8)"
proof -
  have b: "unat (ucast b0 :: u32) = unat b0" "unat (push_bit 8 (ucast b1) :: u32) = 256 * unat b1"
    "unat (push_bit 16 (ucast b2) :: u32) = 65536 * unat b2" "unat (push_bit 24 (ucast b3) :: u32) = 16777216 * unat b3"
    using unat_byte_shift [of 0 b0] unat_byte_shift [of 8 b1] unat_byte_shift [of 16 b2] unat_byte_shift [of 24 b3] by simp_all
  note l = unat_lt_8 [of b0] unat_lt_8 [of b1] unat_lt_8 [of b2] unat_lt_8 [of b3]
  have 1: "unat (ucast b0 + push_bit 8 (ucast b1) :: u32) = unat b0 + 256 * unat b1"
    by (subst unat_add_u32; unfold b; use l in linarith)
  have 2: "unat (ucast b0 + push_bit 8 (ucast b1) + push_bit 16 (ucast b2) :: u32) = unat b0 + 256 * unat b1 + 65536 * unat b2"
    by (subst unat_add_u32; unfold b 1; use l in linarith)
  show ?thesis
    by (subst unat_add_u32; unfold b 2; use l in linarith)
qed

lemma unat_ucast_u32 [simp]: "unat (ucast (w :: u16) :: u32) = unat w" "unat (ucast (b :: u8) :: u32) = unat b"
proof -
  have "unat w < 4294967296" "unat b < 4294967296"
    using unat_lt_16 [of w] unat_lt_8 [of b] by linarith+
  then show "unat (ucast (w :: u16) :: u32) = unat w" "unat (ucast (b :: u8) :: u32) = unat b"
    by (simp_all add: unsigned_ucast_eq take_bit_eq_mod)
qed

lemma unat_words_u32: "unat (words_u32 lo hi) = unat lo + 65536 * unat hi"
proof -
  have "2 ^ 16 * unat hi < 2 ^ LENGTH(32)"
    using unat_lt_16 [of hi] by simp
  moreover have "push_bit 16 (ucast hi) = (of_nat (2 ^ 16 * unat hi) :: u32)"
    by (simp add: push_bit_eq_mult mult.commute)
  ultimately have "unat (push_bit 16 (ucast hi) :: u32) = 2 ^ 16 * unat hi"
    by (simp only: unat_of_nat mod_less)
  moreover have "2 ^ 16 * unat hi + unat lo < 4294967296"
    using unat_lt_16 [of hi] unat_lt_16 [of lo] by (simp del: unat_lt_16)
  ultimately show ?thesis
    unfolding words_u32_def by (subst unat_add_u32) simp_all
qed

lemma sum_bytes:
  fixes f :: "nat \<Rightarrow> nat"
  shows "(\<Sum>k<2. 256 ^ k * f k) = f 0 + 256 * f 1" "(\<Sum>k<4. 256 ^ k * f k) = f 0 + 256 * f 1 + 65536 * f 2 + 16777216 * f 3"
proof -
  have "{..<2} = {0, 1 :: nat}" "{..<4} = {0, 1, 2, 3 :: nat}"
    by auto
  then show "(\<Sum>k<2. 256 ^ k * f k) = f 0 + 256 * f 1" "(\<Sum>k<4. 256 ^ k * f k) = f 0 + 256 * f 1 + 65536 * f 2 + 16777216 * f 3"
    by simp_all
qed

text \<open>The length field of a user file is read as a little-endian number, whatever the alignment of the
  file in memory: one, two or four bytes inside the file give the sum of the bytes weighted by powers of 256.\<close>
theorem file_length_little_endian:
  assumes "a + n \<le> length m" and "n \<in> {1, 2, 4}"
  shows "\<exists>v. plc_get_file_length base m a (of_nat n) = Some v \<and> unat v = (\<Sum>k<n. 256 ^ k * unat (m ! (a + k)))"
proof -
  consider (1) "n = 1" "a < length m" | (2) "n = 2" "a + 1 < length m" | (4) "n = 4" "a + 3 < length m"
    using assms by auto
  then show ?thesis
  proof cases
    case 1
    then show ?thesis
      by (simp add: plc_get_file_length_def GET_PU8_DATA_def mem_simps)
  next
    case 2
    have "unat (ucast (bytes_u16 (m ! a) (m ! (a + 1))) :: u32) = unat (m ! a) + 256 * unat (m ! (a + 1))"
      by (simp add: unat_bytes_u16)
    moreover have "unat (ucast (m ! a) + push_bit 8 (ucast (m ! (a + 1))) :: u32) = unat (m ! a) + 256 * unat (m ! (a + 1))"
      using bytes_sum [of "m ! a" "m ! (a + 1)" 0 0] by simp
    ultimately show ?thesis
      using 2 by (simp add: plc_get_file_length_def GET_PU8_DATA_def GET_PU16_DATA_def mem_simps sum_bytes)
  next
    case 4
    let ?u = "ucast (m ! a) + push_bit 8 (ucast (m ! (a + 1))) + push_bit 16 (ucast (m ! (a + 2))) + push_bit 24 (ucast (m ! (a + 3))) :: u32"
    let ?w = "words_u32 (bytes_u16 (m ! a) (m ! (a + 1))) (bytes_u16 (m ! (a + 2)) (m ! (a + 3)))"
    let ?s = "unat (m ! a) + 256 * unat (m ! (a + 1)) + 65536 * unat (m ! (a + 2)) + 16777216 * unat (m ! (a + 3))"
    have "unat ?w = ?s" "unat ?u = ?s"
      by (simp add: unat_words_u32 unat_bytes_u16, rule bytes_sum)
    moreover have "plc_get_file_length base m a 4 = Some (if (base + a) mod 4 \<noteq> 0 then ?u else ?w)"
      using 4 by (simp add: plc_get_file_length_def GET_PU8_DATA_def GET_PU16_DATA_def GET_PU32_DATA_def mem_simps numeral_3_eq_3)
    moreover have "(\<Sum>k<n. 256 ^ k * unat (m ! (a + k))) = ?s"
      using 4 by (simp only: sum_bytes) simp
    ultimately show ?thesis
      using 4 by auto
  qed
qed

theorem file_length_little_endian_witness:
  "\<exists>v. plc_get_file_length 1 [9, 0x10, 0x20, 0x03, 0x00] 1 (of_nat 4) = Some v \<and>
    unat v = (\<Sum>k<4. 256 ^ k * unat ([9, 0x10, 0x20, 0x03, 0x00 :: u8] ! (1 + k)))"
  by (rule file_length_little_endian) simp_all

end
