(* ===== verification/PLC_Timer.thy ===== *)
theory PLC_Timer
  imports PLC_Counter PLC_CommonFunc
begin

text \<open>
  Timer instructions, \<open>source/plc/executer/src/plc_timeins.c\<close>: on-delay (TON), retentive on-delay (TONR),
  off-delay (TOF), non-retriggerable pulse (TMON), timer reset, and the periodic refresh of the 10 ms and
  1 ms timers.  The entries of one timer number in the arrays of \<open>mtv_TElement\<close> are read and written together
  as a \<open>t_view\<close>; the contact is the T bit element.  The properties show that a running timer counts
  the elapsed time divided by its resolution, without drift over any sequence of scans.
\<close>

section \<open>One timer\<close>

abbreviation (input) "TIME_TYPE_TON \<equiv> (0 :: 2 word)"
abbreviation (input) "TIME_TYPE_TONR \<equiv> (1 :: 2 word)"
abbreviation (input) "TIME_TYPE_TOF \<equiv> (2 :: 2 word)"
abbreviation (input) "TIME_TYPE_TMON \<equiv> (3 :: 2 word)"
abbreviation (input) "TIME_ACCURACY_1MS \<equiv> (0 :: 3 word)"
abbreviation (input) "TIME_ACCURACY_10MS \<equiv> (1 :: 3 word)"
abbreviation (input) "TIME_ACCURACY_100MS \<equiv> (2 :: 3 word)"

record t_view =
  tv_status :: plc_t_element_status_st
  tv_current :: u16
  tv_dest :: u16
  tv_start :: u32

definition get_timer :: "plc_state \<Rightarrow> u16 \<Rightarrow> t_view option" where
  "get_timer s n =
     (let t = mtv_TElement (gtv_PlcElement s); i = unat n in
      do { st \<leftarrow> rd (t_StatusInfo t) i; c \<leftarrow> rd (t_CurrentValue t) i; d \<leftarrow> rd (t_DestValue t) i; a \<leftarrow> rd (t_StartValue t) i;
           Some \<lparr>tv_status = st, tv_current = c, tv_dest = d, tv_start = a\<rparr> })"

definition put_timer :: "plc_state \<Rightarrow> u16 \<Rightarrow> t_view \<Rightarrow> plc_state option" where
  "put_timer s n v =
     (let e = gtv_PlcElement s; t = mtv_TElement e; i = unat n in
      do { st \<leftarrow> wr (t_StatusInfo t) i (tv_status v); c \<leftarrow> wr (t_CurrentValue t) i (tv_current v);
           d \<leftarrow> wr (t_DestValue t) i (tv_dest v); a \<leftarrow> wr (t_StartValue t) i (tv_start v);
           Some (s\<lparr>gtv_PlcElement := e\<lparr>mtv_TElement := t\<lparr>t_StatusInfo := st, t_CurrentValue := c, t_DestValue := d,
             t_StartValue := a\<rparr>\<rparr>\<rparr>) })"

text \<open>Writing 0 to the status byte.\<close>

definition plc_reset_one_timer :: "plc_state \<Rightarrow> u16 \<Rightarrow> plc_state option" where
  "plc_reset_one_timer s n =
     do { s1 \<leftarrow> put_timer s n \<lparr>tv_status = t_status0, tv_current = 0, tv_dest = 0, tv_start = GET_1MS_TICKS_COUNT s\<rparr>;
          set_bit_elem T_ELEMENT s1 n 0 }"

text \<open>The resolution of a timer by its number.\<close>

definition timer_capacity :: "plc_state \<Rightarrow> u16 \<Rightarrow> 3 word" where
  "timer_capacity s n =
     (let i = msv_TElement (gtp_PlcElementInfo s) in
      if n < t_100msTimerCnt i then TIME_ACCURACY_100MS
      else if unat n < unat (t_100msTimerCnt i) + unat (t_10msTimerCnt i) then TIME_ACCURACY_10MS
      else TIME_ACCURACY_1MS)"

text \<open>The switch that adds the time since \<open>mlp_StartValue\<close>, in units of the resolution, to the current
  value and moves \<open>mlp_StartValue\<close> on by the time counted.\<close>

definition timer_count :: "u32 \<Rightarrow> u32 \<Rightarrow> t_view \<Rightarrow> t_view" where
  "timer_count d unit v =
     (if 0 < d div unit then v\<lparr>tv_current := tv_current v + ucast (d div unit), tv_start := tv_start v + d div unit * unit\<rparr>
      else v)"

definition timer_advance :: "u32 \<Rightarrow> t_view \<Rightarrow> t_view" where
  "timer_advance now v =
     (let d = now - tv_start v; c = t_Capacity (tv_status v) in
      if c = TIME_ACCURACY_100MS then timer_count d 100 v
      else if c = TIME_ACCURACY_10MS then timer_count d 10 v
      else if c = TIME_ACCURACY_1MS then v\<lparr>tv_current := tv_current v + ucast d, tv_start := tv_start v + d\<rparr>
      else v)"

definition timer_enable :: "bool \<Rightarrow> t_view \<Rightarrow> t_view" where
  "timer_enable b v = v\<lparr>tv_status := (tv_status v)\<lparr>t_Enable := b\<rparr>\<rparr>"

text \<open>First start of a timer: flags, resolution, type and start time.\<close>

definition timer_init :: "plc_state \<Rightarrow> u16 \<Rightarrow> 2 word \<Rightarrow> t_view \<Rightarrow> t_view" where
  "timer_init s n ty v =
     v\<lparr>tv_status := (tv_status v)\<lparr>t_Init := True, t_Capacity := timer_capacity s n, t_Type := ty\<rparr>,
       tv_start := GET_1MS_TICKS_COUNT s\<rparr>"

definition timer_contact :: "plc_state \<Rightarrow> u16 \<Rightarrow> t_view \<Rightarrow> u8 \<Rightarrow> plc_state option" where
  "timer_contact s n v b = (if tv_dest v \<le> tv_current v then set_bit_elem T_ELEMENT s n b else Some s)"

section \<open>Instructions\<close>

text \<open>\<open>get_word\<close> gets the address of the destination value itself, so an operand of bits that runs over its area leaves the bits read so far there.\<close>

definition dest_after :: "plc_state \<Rightarrow> u16 \<Rightarrow> u16 list \<Rightarrow> plc_state option" where
  "dest_after s n ws =
     (case ws of [] \<Rightarrow> Some s | d # _ \<Rightarrow> do { v \<leftarrow> get_timer s n; put_timer s n (v\<lparr>tv_dest := d\<rparr>) })"

definition run_ci_ton_ins :: "plc_state \<Rightarrow> si_env \<Rightarrow> (plc_ret \<times> plc_state) option" where
  "run_ci_ton_ins s e =
     do { n \<leftarrow> GET_PU16_DATA (ucode s) (mcp_PC e + 4);
          if GET_POWER_FLOW (mlv_InPF e) then
            do { (r, ws) \<leftarrow> get_word s (mcp_PC e + 6) 0 1;
                 if r \<noteq> pdPASS then do { s1 \<leftarrow> dest_after s n ws; Some (r, s1) }
                 else do {
                   d \<leftarrow> rd ws 0;
                   v0 \<leftarrow> get_timer s n;
                   let v1 = v0\<lparr>tv_dest := d\<rparr>;
                       v2 = (if \<not> t_Init (tv_status v1) then timer_init s n TIME_TYPE_TON v1 else v1)
                   in if 0x7FFF \<le> tv_current v2 then
                        do { s1 \<leftarrow> put_timer s n (timer_enable False v2); s2 \<leftarrow> set_bit_elem T_ELEMENT s1 n 1; Some (pdPASS, s2) }
                      else
                        let v3 = timer_advance (GET_1MS_TICKS_COUNT s) (timer_enable True v2) in
                        do { s1 \<leftarrow> put_timer s n v3; s2 \<leftarrow> timer_contact s1 n v3 1; Some (pdPASS, s2) } } }
          else
            do { v \<leftarrow> get_timer s n;
                 s1 \<leftarrow> (if t_Init (tv_status v) then plc_reset_one_timer s n else Some s);
                 Some (pdPASS, s1) } }"

definition run_ci_tonr_ins :: "plc_state \<Rightarrow> si_env \<Rightarrow> (plc_ret \<times> plc_state) option" where
  "run_ci_tonr_ins s e =
     do { n \<leftarrow> GET_PU16_DATA (ucode s) (mcp_PC e + 4);
          if GET_POWER_FLOW (mlv_InPF e) then
            do { (r, ws) \<leftarrow> get_word s (mcp_PC e + 6) 0 1;
                 if r \<noteq> pdPASS then do { s1 \<leftarrow> dest_after s n ws; Some (r, s1) }
                 else do {
                   d \<leftarrow> rd ws 0;
                   v0 \<leftarrow> get_timer s n;
                   let v1 = v0\<lparr>tv_dest := d\<rparr>;
                       v2 = (if \<not> t_Init (tv_status v1) then timer_init s n TIME_TYPE_TONR v1 else v1)
                   in if 0x7FFF \<le> tv_current v2 then
                        do { s1 \<leftarrow> put_timer s n v2; s2 \<leftarrow> set_bit_elem T_ELEMENT s1 n 1; Some (pdPASS, s2) }
                      else if \<not> t_Enable (tv_status v2) then
                        do { s1 \<leftarrow> put_timer s n ((timer_enable True v2)\<lparr>tv_start := GET_1MS_TICKS_COUNT s\<rparr>); Some (pdPASS, s1) }
                      else
                        let v3 = timer_advance (GET_1MS_TICKS_COUNT s) v2 in
                        do { s1 \<leftarrow> put_timer s n v3; s2 \<leftarrow> timer_contact s1 n v3 1; Some (pdPASS, s2) } } }
          else
            do { v \<leftarrow> get_timer s n;
                 s1 \<leftarrow> (if t_Init (tv_status v)
                        then put_timer s n ((timer_enable False v)\<lparr>tv_start := GET_1MS_TICKS_COUNT s\<rparr>) else Some s);
                 Some (pdPASS, s1) } }"

definition run_ci_tof_ins :: "plc_state \<Rightarrow> si_env \<Rightarrow> (plc_ret \<times> plc_state) option" where
  "run_ci_tof_ins s e =
     do { n \<leftarrow> GET_PU16_DATA (ucode s) (mcp_PC e + 4);
          if GET_POWER_FLOW (mlv_InPF e) then
            do { v \<leftarrow> get_timer s n;
                 s1 \<leftarrow> put_timer s n (v\<lparr>tv_status := t_status0\<lparr>t_PowerFlow := True\<rparr>, tv_current := 0\<rparr>);
                 s2 \<leftarrow> set_bit_elem T_ELEMENT s1 n 1;
                 Some (pdPASS, s2) }
          else
            do { (r, ws) \<leftarrow> get_word s (mcp_PC e + 6) 0 1;
                 if r \<noteq> pdPASS then do { s1 \<leftarrow> dest_after s n ws; Some (r, s1) }
                 else do {
                   d \<leftarrow> rd ws 0;
                   v0 \<leftarrow> get_timer s n;
                   let v1 = v0\<lparr>tv_dest := d\<rparr>;
                       v2 = (if \<not> t_Init (tv_status v1) \<and> t_PowerFlow (tv_status v1)
                             then timer_enable True (timer_init s n TIME_TYPE_TOF v1) else v1)
                   in if t_Enable (tv_status v2) then
                        let v3 = timer_advance (GET_1MS_TICKS_COUNT s) v2;
                            v4 = (if tv_dest v3 \<le> tv_current v3 then timer_enable False v3 else v3)
                        in do { s1 \<leftarrow> put_timer s n v4; s2 \<leftarrow> timer_contact s1 n v4 0; Some (pdPASS, s2) }
                      else do { s1 \<leftarrow> put_timer s n v2; Some (pdPASS, s1) } } } }"

text \<open>The second half of TMON: counting while the pulse is on.\<close>

definition tmon_run :: "plc_state \<Rightarrow> u16 \<Rightarrow> (plc_ret \<times> plc_state) option" where
  "tmon_run s n =
     do { v \<leftarrow> get_timer s n;
          if t_Enable (tv_status v) then
            let v1 = timer_advance (GET_1MS_TICKS_COUNT s) v;
                v2 = (if tv_dest v1 \<le> tv_current v1 then timer_enable False v1 else v1)
            in do { s1 \<leftarrow> put_timer s n v2; s2 \<leftarrow> timer_contact s1 n v2 0; Some (pdPASS, s2) }
          else Some (pdPASS, s) }"

definition timer_flow :: "bool \<Rightarrow> t_view \<Rightarrow> t_view" where
  "timer_flow b v = v\<lparr>tv_status := (tv_status v)\<lparr>t_PowerFlow := b\<rparr>\<rparr>"

definition run_ci_tmon_ins :: "plc_state \<Rightarrow> si_env \<Rightarrow> (plc_ret \<times> plc_state) option" where
  "run_ci_tmon_ins s e =
     do { n \<leftarrow> GET_PU16_DATA (ucode s) (mcp_PC e + 4);
          v \<leftarrow> get_timer s n;
          if GET_POWER_FLOW (mlv_InPF e) then
            if \<not> t_PowerFlow (tv_status v) then
              let v1 = timer_flow True v; v2 = v1\<lparr>tv_status := (tv_status v1)\<lparr>t_Capacity := timer_capacity s n\<rparr>\<rparr> in
              do { s1 \<leftarrow> put_timer s n v2;
                   (r, ws) \<leftarrow> get_word s1 (mcp_PC e + 6) 0 1;
                   if r \<noteq> pdPASS then do { s2 \<leftarrow> dest_after s1 n ws; Some (r, s2) }
                   else do {
                     d \<leftarrow> rd ws 0;
                     s2 \<leftarrow> put_timer s1 n (timer_enable True (v2\<lparr>tv_dest := d, tv_start := GET_1MS_TICKS_COUNT s,
                             tv_status := (tv_status v2)\<lparr>t_Type := TIME_TYPE_TMON\<rparr>\<rparr>));
                     s3 \<leftarrow> set_bit_elem T_ELEMENT s2 n 1;
                     tmon_run s3 n } }
            else tmon_run s n
          else do { s1 \<leftarrow> put_timer s n (timer_flow False v); tmon_run s1 n } }"

definition run_ci_rst_t_ins :: "plc_state \<Rightarrow> si_env \<Rightarrow> (plc_ret \<times> plc_state) option" where
  "run_ci_rst_t_ins s e =
     (if GET_POWER_FLOW (mlv_InPF e) then
        do { n \<leftarrow> GET_PU16_DATA (ucode s) (mcp_PC e + 4); s1 \<leftarrow> plc_reset_one_timer s n; Some (pdPASS, s1) }
      else Some (pdPASS, s))"

text \<open>One timer of the periodic refresh.  Its switch has no case for 100 ms timers.\<close>

definition refresh_timer :: "plc_state \<Rightarrow> u16 \<Rightarrow> plc_state option" where
  "refresh_timer s n =
     do { v \<leftarrow> get_timer s n;
          if \<not> t_Enable (tv_status v) then Some s
          else
            let v1 = (if t_Capacity (tv_status v) = TIME_ACCURACY_100MS then v else timer_advance (GET_1MS_TICKS_COUNT s) v);
                v2 = (if 0x7FFF \<le> tv_current v1 then timer_enable False v1 else v1)
            in do { s1 \<leftarrow> put_timer s n v2;
                    timer_contact s1 n v2 (if t_Type (tv_status v2) = TIME_TYPE_TOF then 0 else 1) } }"

fun refresh_timers :: "plc_state \<Rightarrow> nat \<Rightarrow> nat \<Rightarrow> plc_state option" where
  "refresh_timers s i 0 = Some s"
| "refresh_timers s i (Suc k) = do { s1 \<leftarrow> refresh_timer s (of_nat i); refresh_timers s1 (Suc i) k }"

definition plc_refresh_10ms_1ms_timer :: "plc_state \<Rightarrow> plc_state option" where
  "plc_refresh_10ms_1ms_timer s =
     (let i = msv_TElement (gtp_PlcElementInfo s) in
      refresh_timers s (unat (t_10msTimerCnt i)) (unat (t_ElementCnt i) - unat (t_10msTimerCnt i)))"

text \<open>Clearing the status bytes of all timers.\<close>

definition plc_stop_all_timer :: "plc_state \<Rightarrow> plc_state option" where
  "plc_stop_all_timer s =
     (let e = gtv_PlcElement s; t = mtv_TElement e; n = unat (t_ElementCnt (msv_TElement (gtp_PlcElementInfo s))) in
      if n \<le> length (t_StatusInfo t)
      then Some (s\<lparr>gtv_PlcElement := e\<lparr>mtv_TElement := t\<lparr>t_StatusInfo := replicate n t_status0 @ drop n (t_StatusInfo t)\<rparr>\<rparr>\<rparr>)
      else None)"

section \<open>A timer and its contact\<close>

definition tview :: "plc_state \<Rightarrow> u16 \<Rightarrow> (t_view \<times> bool) option" where
  "tview s n = do { v \<leftarrow> get_timer s n; b \<leftarrow> get_bit_elem T_ELEMENT s n; Some (v, b \<noteq> 0) }"

lemma tview_parts: "tview s n = Some (v, b) \<Longrightarrow> get_timer s n = Some v"
  by (auto simp: tview_def opt_simps)

lemma tview_put:
  assumes "tview s n = Some (v, b)"
  shows "\<exists>s'. put_timer s n w = Some s' \<and> tview s' n = Some (w, b) \<and> (\<forall>m. m \<noteq> n \<longrightarrow> tview s' m = tview s m) \<and> elements_only s s'"
proof -
  let ?t = "mtv_TElement (gtv_PlcElement s)"
  have n: "unat n < length (t_StatusInfo ?t)" "unat n < length (t_CurrentValue ?t)" "unat n < length (t_DestValue ?t)"
    "unat n < length (t_StartValue ?t)"
    using tview_parts [OF assms] by (auto simp: get_timer_def Let_def opt_simps)
  then obtain s' where s': "put_timer s n w = Some s'"
    by (simp add: put_timer_def Let_def mem_simps)
  have "get_timer s' n = Some w" "\<forall>m. m \<noteq> n \<longrightarrow> get_timer s' m = get_timer s m" "get_bit_elem T_ELEMENT s' = get_bit_elem T_ELEMENT s"
    "elements_only s s'"
    using s' n by (auto simp: put_timer_def get_timer_def Let_def opt_simps mem_simps rd_def fun_eq_iff get_bit_elem_def)
  then show ?thesis
    using s' assms by (auto simp: tview_def opt_simps)
qed

lemma tview_bit:
  assumes "tview s n = Some (v, b)"
  shows "\<exists>s'. set_bit_elem T_ELEMENT s n c = Some s' \<and> tview s' n = Some (v, c \<noteq> 0) \<and> (\<forall>m. m \<noteq> n \<longrightarrow> tview s' m = tview s m) \<and> elements_only s s'"
proof -
  obtain s' where s': "set_bit_elem T_ELEMENT s n c = Some s'"
    using assms by (auto simp: tview_def opt_simps get_bit_elem_def get_bit_alt set_bit_elem_def set_bit_alt split: if_splits)
  have "get_timer s' = get_timer s" "elements_only s s'"
    using s' by (auto simp: set_bit_elem_def opt_simps get_timer_def fun_eq_iff Let_def)
  then show ?thesis
    using s' assms bits.get_put_same [OF s'] bits.get_put_other [OF s'] by (auto simp: tview_def opt_simps bit_norm_def)
qed

text \<open>Storing a timer and then setting its contact when the set point is reached.\<close>

lemma tview_store:
  assumes "tview s n = Some (v, b)"
  shows "\<exists>s1 s2. put_timer s n w = Some s1 \<and> timer_contact s1 n w c = Some s2 \<and>
    tview s2 n = Some (w, if tv_dest w \<le> tv_current w then c \<noteq> 0 else b) \<and>
    (\<forall>m. m \<noteq> n \<longrightarrow> tview s2 m = tview s m) \<and> elements_only s s2"
proof -
  obtain s1 where s1: "put_timer s n w = Some s1" "tview s1 n = Some (w, b)" "\<forall>m. m \<noteq> n \<longrightarrow> tview s1 m = tview s m" "elements_only s s1"
    using tview_put [OF assms] by blast
  obtain s2 where s2: "set_bit_elem T_ELEMENT s1 n c = Some s2" "tview s2 n = Some (w, c \<noteq> 0)" "\<forall>m. m \<noteq> n \<longrightarrow> tview s2 m = tview s1 m"
    "elements_only s1 s2"
    using tview_bit [OF s1(2)] by blast
  show ?thesis
    using s1 s2 elements_only_trans [OF s1(4) s2(4)] by (simp add: timer_contact_def)
qed

section \<open>Counting\<close>

definition unit_of :: "3 word \<Rightarrow> u32" where
  "unit_of c = (if c = TIME_ACCURACY_100MS then 100 else if c = TIME_ACCURACY_10MS then 10 else 1)"

lemma unit_of_cases: "unit_of c = 100 \<or> unit_of c = 10 \<or> unit_of c = 1"
  by (simp add: unit_of_def)

lemma timer_advance_alt:
  "t_Capacity (tv_status v) \<in> {0, 1, 2} \<Longrightarrow> timer_advance now v = timer_count (now - tv_start v) (unit_of (t_Capacity (tv_status v))) v"
  by (auto simp: timer_advance_def timer_count_def unit_of_def Let_def word_gt_0)

lemma capacity_range: "timer_capacity s n \<in> {0, 1, 2}"
  by (simp add: timer_capacity_def Let_def)

text \<open>A timer started at \<open>t0\<close> that has counted the first \<open>m\<close> milliseconds.\<close>

definition counted :: "u32 \<Rightarrow> u32 \<Rightarrow> nat \<Rightarrow> t_view \<Rightarrow> bool" where
  "counted t0 u m v \<longleftrightarrow> tv_current v = of_nat (m div unat u) \<and> tv_start v = t0 + of_nat (m div unat u * unat u)"

lemma timer_count_elapsed:
  assumes "counted t0 u m v" and "m \<le> m'" and "m' < 2 ^ 32" and "0 < unat u"
  shows "counted t0 u m' (timer_count (t0 + of_nat m' - tv_start v) u v)"
proof -
  let ?q = "m div unat u" and ?q' = "m' div unat u"
  define d where "d = t0 + of_nat m' - tv_start v"
  have le: "?q * unat u \<le> m'" "?q \<le> ?q'"
    using assms(2) by (auto intro: order_trans [OF div_times_less_eq_dividend] div_le_mono)
  have "d = of_nat (m' - ?q * unat u)"
    using assms(1) le(1) by (simp add: d_def counted_def of_nat_diff)
  then have "unat d = m' - ?q * unat u"
    using assms(3) by (simp add: unat_of_nat take_bit_eq_mod mod_less)
  then have "unat (d div u) = (m' - ?q * unat u) div unat u"
    by (simp add: unat_div)
  also have "\<dots> = ?q' - ?q"
  proof -
    obtain r where "m' = ?q * unat u + r"
      using le(1) le_Suc_ex by blast
    then show ?thesis
      using assms(4) by (metis add_diff_cancel_left' div_mult_self3 less_numeral_extra(3))
  qed
  finally have uk: "unat (d div u) = ?q' - ?q" .
  then have k: "d div u = of_nat (?q' - ?q)"
    by (metis of_nat_unat ucast_id)
  show ?thesis
  proof (cases "?q' = ?q")
    case True
    then show ?thesis
      using assms(1) k unfolding timer_count_def d_def [symmetric] by (simp add: counted_def)
  next
    case False
    have pos: "0 < d div u"
      unfolding word_less_nat_alt uk using False le(2) by simp
    have "(ucast (d div u) :: u16) = of_nat (?q' - ?q)"
      by (metis uk of_nat_unat)
    then have "tv_current v + ucast (d div u) = of_nat ?q'"
      using assms(1) le(2) by (simp add: counted_def of_nat_diff)
    moreover have "tv_start v + d div u * u = t0 + of_nat (?q' * unat u)"
      using assms(1) le(2) unfolding k by (simp add: counted_def of_nat_diff algebra_simps)
    ultimately show ?thesis
      using pos unfolding timer_count_def d_def [symmetric] by (simp add: counted_def)
  qed
qed

section \<open>On-delay timer over scans\<close>

text \<open>Scans at the given ticks, with the power flow of \<open>e\<close>.\<close>

fun timer_scans :: "(plc_state \<Rightarrow> si_env \<Rightarrow> (plc_ret \<times> plc_state) option) \<Rightarrow> plc_state \<Rightarrow> si_env \<Rightarrow> u32 list \<Rightarrow> plc_state option" where
  "timer_scans run s e [] = Some s"
| "timer_scans run s e (t # ts) =
     do { (r, s') \<leftarrow> run (s\<lparr>xTickCount := t\<rparr>) e; if r = pdPASS then timer_scans run s' e ts else None }"

lemma tview_tick [simp]: "tview (s\<lparr>xTickCount := t\<rparr>) n = tview s n" "get_timer (s\<lparr>xTickCount := t\<rparr>) n = get_timer s n"
  by (simp_all add: tview_def get_timer_def get_bit_elem_def)

definition ton_running :: "plc_state \<Rightarrow> u16 \<Rightarrow> u32 \<Rightarrow> nat \<Rightarrow> t_view \<Rightarrow> bool" where
  "ton_running s n t0 m v \<longleftrightarrow> t_Init (tv_status v) \<and> t_Capacity (tv_status v) = timer_capacity s n \<and>
     counted t0 (unit_of (timer_capacity s n)) m v"

lemma ton_scan:
  assumes "counter_ins n d (ucode s) (mcp_PC e)" and "GET_POWER_FLOW (mlv_InPF e)" and "tview s n = Some (v, b)"
    and "\<not> t_Init (tv_status v) \<and> tv_current v = 0 \<and> m = 0 \<and> GET_1MS_TICKS_COUNT s = t0 \<or> ton_running s n t0 m v"
    and "m \<le> m'" and "GET_1MS_TICKS_COUNT s = t0 + of_nat m'" and "m' div unat (unit_of (timer_capacity s n)) < 0x7FFF"
  shows "\<exists>s' v'. run_ci_ton_ins s e = Some (pdPASS, s') \<and> tview s' n = Some (v', b \<or> d \<le> tv_current v') \<and> ton_running s n t0 m' v' \<and>
    (\<forall>k. k \<noteq> n \<longrightarrow> tview s' k = tview s k) \<and> elements_only s s'"
proof -
  let ?u = "unit_of (timer_capacity s n)"
  define v2 where "v2 = timer_enable True (if \<not> t_Init (tv_status v) then timer_init s n 0 (v\<lparr>tv_dest := d\<rparr>) else v\<lparr>tv_dest := d\<rparr>)"
  define v3 where "v3 = timer_advance (GET_1MS_TICKS_COUNT s) v2"
  have u: "0 < unat ?u"
    using unit_of_cases [of "timer_capacity s n"] by auto
  have run2: "ton_running s n t0 m v2" "tv_dest v2 = d"
    using assms(4) by (auto simp: v2_def timer_enable_def timer_init_def ton_running_def counted_def)
  have "m' < 2 ^ 32"
    using assms(7) unit_of_cases [of "timer_capacity s n"] by (auto simp: div_less_iff_less_mult)
  then have "counted t0 ?u m' (timer_count (t0 + of_nat m' - tv_start v2) ?u v2)"
    using run2(1) assms(5) u timer_count_elapsed unfolding ton_running_def by blast
  moreover have "v3 = timer_count (t0 + of_nat m' - tv_start v2) ?u v2"
    using run2(1) capacity_range [of s n] timer_advance_alt [of v2] assms(6) by (simp add: v3_def ton_running_def)
  ultimately have run3: "ton_running s n t0 m' v3" "tv_dest v3 = d"
    using run2 by (auto simp: ton_running_def timer_count_def)
  have "m div unat ?u < 0x7FFF"
    using assms(5,7) div_le_mono [OF assms(5), of "unat ?u"] by linarith
  then have x: "\<not> 0x7FFF \<le> tv_current (if \<not> t_Init (tv_status v) then timer_init s n 0 (v\<lparr>tv_dest := d\<rparr>) else v\<lparr>tv_dest := d\<rparr>)"
    using run2(1) by (simp add: v2_def timer_enable_def ton_running_def counted_def word_le_nat_alt unat_of_nat take_bit_eq_mod)
  obtain s1 s2 where s: "put_timer s n v3 = Some s1" "timer_contact s1 n v3 1 = Some s2"
    "tview s2 n = Some (v3, if tv_dest v3 \<le> tv_current v3 then (1::u8) \<noteq> 0 else b)"
    "\<forall>m. m \<noteq> n \<longrightarrow> tview s2 m = tview s m" "elements_only s s2"
    using tview_store [OF assms(3), of v3 1] by blast
  have "get_word s (mcp_PC e + 6) 0 1 = Some (pdPASS, [d])"
    using assms(1) get_word_constant by (auto simp: counter_ins_def)
  then have "run_ci_ton_ins s e = Some (pdPASS, s2)"
    using assms(1,2) tview_parts [OF assms(3)] s(1,2) x
    by (cases "t_Init (tv_status v)") (simp_all add: run_ci_ton_ins_def counter_ins_def Let_def rd_def v3_def v2_def)
  then show ?thesis
    using s(3-5) run3 by auto
qed

lemma elements_only_tick: "elements_only (s\<lparr>xTickCount := t\<rparr>) s1 \<Longrightarrow> elements_only (s1\<lparr>xTickCount := t'\<rparr>) s2 \<Longrightarrow> elements_only (s\<lparr>xTickCount := t'\<rparr>) s2"
  by (cases s; cases s1; cases s2) (simp add: elements_only_def)

lemma capacity_only: "elements_only s s' \<Longrightarrow> timer_capacity s' n = timer_capacity s n"
  by (simp add: timer_capacity_def elements_only_eq(1))

lemma ton_scans_running:
  assumes "counter_ins n d (ucode s) (mcp_PC e)" and "GET_POWER_FLOW (mlv_InPF e)" and "tview s n = Some (v, b)"
    and "ton_running s n t0 m v" and "b \<longleftrightarrow> b0 \<or> d \<le> tv_current v" and "sorted (m # ms)"
    and "last (m # ms) div unat (unit_of (timer_capacity s n)) < 0x7FFF" and "xTickCount s = t0 + of_nat m"
  shows "\<exists>s' v'. timer_scans run_ci_ton_ins s e (map (\<lambda>m. t0 + of_nat m) ms) = Some s' \<and>
    tview s' n = Some (v', b0 \<or> d \<le> tv_current v') \<and> ton_running s n t0 (last (m # ms)) v' \<and>
    (\<forall>k. k \<noteq> n \<longrightarrow> tview s' k = tview s k) \<and> elements_only (s\<lparr>xTickCount := t0 + of_nat (last (m # ms))\<rparr>) s'"
  using assms
proof (induction ms arbitrary: s v b m)
  case Nil
  have "elements_only (s\<lparr>xTickCount := t0 + of_nat m\<rparr>) s"
    using Nil.prems(8) by (cases s) (simp add: elements_only_def)
  then show ?case
    using Nil.prems by simp
next
  case (Cons m' ms)
  let ?s = "s\<lparr>xTickCount := t0 + of_nat m'\<rparr>"
  let ?u = "unat (unit_of (timer_capacity s n))"
  have cap: "timer_capacity ?s n = timer_capacity s n"
    by (simp add: timer_capacity_def)
  have le: "m \<le> m'" "m' \<le> last (m' # ms)"
    using Cons.prems(6) by (auto simp: sorted_simps)
  have "m' div ?u < 0x7FFF"
    using div_le_mono [OF le(2), of ?u] Cons.prems(7) by (auto split: if_splits)
  then obtain s1 v1 where s1: "run_ci_ton_ins ?s e = Some (pdPASS, s1)" "tview s1 n = Some (v1, b \<or> d \<le> tv_current v1)"
    "ton_running s n t0 m' v1" "\<forall>k. k \<noteq> n \<longrightarrow> tview s1 k = tview s k" "elements_only ?s s1"
    using ton_scan [of n d ?s e v b m t0 m'] Cons.prems(1-4) le(1) cap by (auto simp: GET_1MS_TICKS_COUNT_def ton_running_def)
  have mono: "tv_current v \<le> tv_current v1"
    using Cons.prems(4) s1(3) div_le_mono [OF le(1), of ?u] \<open>m' div ?u < _\<close>
    by (auto simp: ton_running_def counted_def word_le_nat_alt unat_of_nat take_bit_eq_mod)
  have eq: "timer_capacity s1 n = timer_capacity s n" "ucode s1 = ucode s" "xTickCount s1 = t0 + of_nat m'"
    using elements_only_eq(4) [OF s1(5)] elements_only_eq(5) [OF s1(5)] capacity_only [OF s1(5), of n] cap by auto
  have run1: "ton_running s1 n t0 k w = ton_running s n t0 k w" for k w
    by (simp add: ton_running_def eq(1))
  have b1: "(b \<or> d \<le> tv_current v1) \<longleftrightarrow> b0 \<or> d \<le> tv_current v1"
    using Cons.prems(5) mono by auto
  obtain s' v' where s': "timer_scans run_ci_ton_ins s1 e (map (\<lambda>m. t0 + of_nat m) ms) = Some s'"
    "tview s' n = Some (v', b0 \<or> d \<le> tv_current v')" "ton_running s n t0 (last (m' # ms)) v'"
    "\<forall>k. k \<noteq> n \<longrightarrow> tview s' k = tview s1 k" "elements_only (s1\<lparr>xTickCount := t0 + of_nat (last (m' # ms))\<rparr>) s'"
    using Cons.IH [of s1 v1 "b \<or> d \<le> tv_current v1" m'] Cons.prems(1,2,6,7) s1(2,3) b1 unfolding eq run1 by auto
  show ?case
    using s1(1,4) s' elements_only_tick [OF s1(5) s'(5)] by auto
qed

section \<open>Properties\<close>


lemma boot_timer: "tview (boot_state counter_code) 5 = Some (\<lparr>tv_status = t_status0, tv_current = 0, tv_dest = 0, tv_start = 0\<rparr>, False)"
  by (simp add: tview_def get_timer_def Let_def get_bit_elem_def get_bit_alt t_status0_def mem_simps static_elements_def)


end
