(* ===== verification/PLC_Opcode.thy ===== *)
theory PLC_Opcode
  imports PLC_Prelude
begin

text \<open>
  The codes of the complex instructions, the second enumeration of
  \<open>source/plc/executer/inc/plc_instruction.h\<close>.  A complex instruction starts with its 16-bit code.
\<close>

abbreviation (input) "CI_LBL \<equiv> (0xF000 :: u16)"
abbreviation (input) "CI_SBR \<equiv> (0xF001 :: u16)"
abbreviation (input) "CI_INTR \<equiv> (0xF002 :: u16)"
abbreviation (input) "CI_LD_LM \<equiv> (0xF003 :: u16)"
abbreviation (input) "CI_LDI_LM \<equiv> (0xF004 :: u16)"
abbreviation (input) "CI_AND_LM \<equiv> (0xF005 :: u16)"
abbreviation (input) "CI_ANI_LM \<equiv> (0xF006 :: u16)"
abbreviation (input) "CI_OR_LM \<equiv> (0xF007 :: u16)"
abbreviation (input) "CI_ORI_LM \<equiv> (0xF008 :: u16)"
abbreviation (input) "CI_OUT_LM \<equiv> (0xF009 :: u16)"
abbreviation (input) "CI_SET_LM \<equiv> (0xF00A :: u16)"
abbreviation (input) "CI_RST_LM \<equiv> (0xF00B :: u16)"
abbreviation (input) "CI_STL \<equiv> (0xF00E :: u16)"
abbreviation (input) "CI_RST_S \<equiv> (0xF00F :: u16)"
abbreviation (input) "CI_SET_S \<equiv> (0xF010 :: u16)"
abbreviation (input) "CI_OUT_S \<equiv> (0xF011 :: u16)"
abbreviation (input) "CI_RET \<equiv> (0xF012 :: u16)"
abbreviation (input) "CI_TON \<equiv> (0xF014 :: u16)"
abbreviation (input) "CI_TOF \<equiv> (0xF015 :: u16)"
abbreviation (input) "CI_TONR \<equiv> (0xF016 :: u16)"
abbreviation (input) "CI_RST_T \<equiv> (0xF017 :: u16)"
abbreviation (input) "CI_DCNT \<equiv> (0xF018 :: u16)"
abbreviation (input) "CI_CTU \<equiv> (0xF019 :: u16)"
abbreviation (input) "CI_CTR \<equiv> (0xF01A :: u16)"
abbreviation (input) "CI_RST_C \<equiv> (0xF01B :: u16)"
abbreviation (input) "CI_MC \<equiv> (0xF01C :: u16)"
abbreviation (input) "CI_MCR \<equiv> (0xF01D :: u16)"
abbreviation (input) "CI_CJ \<equiv> (0xF01E :: u16)"
abbreviation (input) "CI_FOR \<equiv> (0xF01F :: u16)"
abbreviation (input) "CI_NEXT \<equiv> (0xF020 :: u16)"
abbreviation (input) "CI_CALL \<equiv> (0xF021 :: u16)"
abbreviation (input) "CI_CSRET \<equiv> (0xF022 :: u16)"
abbreviation (input) "CI_SRET \<equiv> (0xF023 :: u16)"
abbreviation (input) "CI_CIRET \<equiv> (0xF024 :: u16)"
abbreviation (input) "CI_IRET \<equiv> (0xF025 :: u16)"
abbreviation (input) "CI_EI \<equiv> (0xF026 :: u16)"
abbreviation (input) "CI_DI \<equiv> (0xF027 :: u16)"
abbreviation (input) "CI_STOP \<equiv> (0xF028 :: u16)"
abbreviation (input) "CI_WDT \<equiv> (0xF029 :: u16)"
abbreviation (input) "CI_CFEND \<equiv> (0xF02A :: u16)"
abbreviation (input) "CI_FEND \<equiv> (0xF02B :: u16)"
abbreviation (input) "CI_MOV \<equiv> (0xF02D :: u16)"
abbreviation (input) "CI_DMOV \<equiv> (0xF02E :: u16)"
abbreviation (input) "CI_BMOV \<equiv> (0xF02F :: u16)"
abbreviation (input) "CI_FMOV \<equiv> (0xF031 :: u16)"
abbreviation (input) "CI_DFMOV \<equiv> (0xF032 :: u16)"
abbreviation (input) "CI_SWAP \<equiv> (0xF033 :: u16)"
abbreviation (input) "CI_XCH \<equiv> (0xF035 :: u16)"
abbreviation (input) "CI_DXCH \<equiv> (0xF036 :: u16)"
abbreviation (input) "CI_PUSH \<equiv> (0xF037 :: u16)"
abbreviation (input) "CI_WSFL \<equiv> (0xF038 :: u16)"
abbreviation (input) "CI_LDE \<equiv> (0xF039 :: u16)"
abbreviation (input) "CI_LDG \<equiv> (0xF03A :: u16)"
abbreviation (input) "CI_LDL \<equiv> (0xF03B :: u16)"
abbreviation (input) "CI_LDNE \<equiv> (0xF03C :: u16)"
abbreviation (input) "CI_LDLE \<equiv> (0xF03D :: u16)"
abbreviation (input) "CI_LDGE \<equiv> (0xF03E :: u16)"
abbreviation (input) "CI_ANDE \<equiv> (0xF03F :: u16)"
abbreviation (input) "CI_ANDG \<equiv> (0xF040 :: u16)"
abbreviation (input) "CI_ANDL \<equiv> (0xF041 :: u16)"
abbreviation (input) "CI_ANDNE \<equiv> (0xF042 :: u16)"
abbreviation (input) "CI_ANDLE \<equiv> (0xF043 :: u16)"
abbreviation (input) "CI_ANDGE \<equiv> (0xF044 :: u16)"
abbreviation (input) "CI_ORE \<equiv> (0xF045 :: u16)"
abbreviation (input) "CI_ORG \<equiv> (0xF046 :: u16)"
abbreviation (input) "CI_ORL \<equiv> (0xF047 :: u16)"
abbreviation (input) "CI_ORNE \<equiv> (0xF048 :: u16)"
abbreviation (input) "CI_ORLE \<equiv> (0xF049 :: u16)"
abbreviation (input) "CI_ORGE \<equiv> (0xF04A :: u16)"
abbreviation (input) "CI_LDDE \<equiv> (0xF04B :: u16)"
abbreviation (input) "CI_LDDG \<equiv> (0xF04C :: u16)"
abbreviation (input) "CI_LDDL \<equiv> (0xF04D :: u16)"
abbreviation (input) "CI_LDDNE \<equiv> (0xF04E :: u16)"
abbreviation (input) "CI_LDDLE \<equiv> (0xF04F :: u16)"
abbreviation (input) "CI_LDDGE \<equiv> (0xF050 :: u16)"
abbreviation (input) "CI_ANDDE \<equiv> (0xF051 :: u16)"
abbreviation (input) "CI_ANDDG \<equiv> (0xF052 :: u16)"
abbreviation (input) "CI_ANDDL \<equiv> (0xF053 :: u16)"
abbreviation (input) "CI_ANDDNE \<equiv> (0xF054 :: u16)"
abbreviation (input) "CI_ANDDLE \<equiv> (0xF055 :: u16)"
abbreviation (input) "CI_ANDDGE \<equiv> (0xF056 :: u16)"
abbreviation (input) "CI_ORDE \<equiv> (0xF057 :: u16)"
abbreviation (input) "CI_ORDG \<equiv> (0xF058 :: u16)"
abbreviation (input) "CI_ORDL \<equiv> (0xF059 :: u16)"
abbreviation (input) "CI_ORDNE \<equiv> (0xF05A :: u16)"
abbreviation (input) "CI_ORDLE \<equiv> (0xF05B :: u16)"
abbreviation (input) "CI_ORDGE \<equiv> (0xF05C :: u16)"
abbreviation (input) "CI_LDRE \<equiv> (0xF05D :: u16)"
abbreviation (input) "CI_LDRG \<equiv> (0xF05E :: u16)"
abbreviation (input) "CI_LDRL \<equiv> (0xF05F :: u16)"
abbreviation (input) "CI_LDRNE \<equiv> (0xF060 :: u16)"
abbreviation (input) "CI_LDRLE \<equiv> (0xF061 :: u16)"
abbreviation (input) "CI_LDRGE \<equiv> (0xF062 :: u16)"
abbreviation (input) "CI_ANDRE \<equiv> (0xF063 :: u16)"
abbreviation (input) "CI_ANDRG \<equiv> (0xF064 :: u16)"
abbreviation (input) "CI_ANDRL \<equiv> (0xF065 :: u16)"
abbreviation (input) "CI_ANDRNE \<equiv> (0xF066 :: u16)"
abbreviation (input) "CI_ANDRLE \<equiv> (0xF067 :: u16)"
abbreviation (input) "CI_ANDRGE \<equiv> (0xF068 :: u16)"
abbreviation (input) "CI_ORRE \<equiv> (0xF069 :: u16)"
abbreviation (input) "CI_ORRG \<equiv> (0xF06A :: u16)"
abbreviation (input) "CI_ORRL \<equiv> (0xF06B :: u16)"
abbreviation (input) "CI_ORRNE \<equiv> (0xF06C :: u16)"
abbreviation (input) "CI_ORRLE \<equiv> (0xF06D :: u16)"
abbreviation (input) "CI_ORRGE \<equiv> (0xF06E :: u16)"
abbreviation (input) "CI_ADD \<equiv> (0xF06F :: u16)"
abbreviation (input) "CI_SUB \<equiv> (0xF070 :: u16)"
abbreviation (input) "CI_MUL \<equiv> (0xF071 :: u16)"
abbreviation (input) "CI_DIV \<equiv> (0xF072 :: u16)"
abbreviation (input) "CI_SQT \<equiv> (0xF073 :: u16)"
abbreviation (input) "CI_INC \<equiv> (0xF074 :: u16)"
abbreviation (input) "CI_DEC \<equiv> (0xF075 :: u16)"
abbreviation (input) "CI_VABS \<equiv> (0xF076 :: u16)"
abbreviation (input) "CI_NEG \<equiv> (0xF077 :: u16)"
abbreviation (input) "CI_DADD \<equiv> (0xF079 :: u16)"
abbreviation (input) "CI_DSUB \<equiv> (0xF07A :: u16)"
abbreviation (input) "CI_DMUL \<equiv> (0xF07B :: u16)"
abbreviation (input) "CI_DDIV \<equiv> (0xF07C :: u16)"
abbreviation (input) "CI_DSQT \<equiv> (0xF07D :: u16)"
abbreviation (input) "CI_DINC \<equiv> (0xF07E :: u16)"
abbreviation (input) "CI_DDEC \<equiv> (0xF07F :: u16)"
abbreviation (input) "CI_DVABS \<equiv> (0xF080 :: u16)"
abbreviation (input) "CI_DNEG \<equiv> (0xF081 :: u16)"
abbreviation (input) "CI_RADD \<equiv> (0xF083 :: u16)"
abbreviation (input) "CI_RSUB \<equiv> (0xF084 :: u16)"
abbreviation (input) "CI_RMUL \<equiv> (0xF085 :: u16)"
abbreviation (input) "CI_RDIV \<equiv> (0xF086 :: u16)"
abbreviation (input) "CI_RSQT \<equiv> (0xF087 :: u16)"
abbreviation (input) "CI_SIN \<equiv> (0xF088 :: u16)"
abbreviation (input) "CI_COS \<equiv> (0xF089 :: u16)"
abbreviation (input) "CI_TAN \<equiv> (0xF08A :: u16)"
abbreviation (input) "CI_LN \<equiv> (0xF08B :: u16)"
abbreviation (input) "CI_EXP \<equiv> (0xF08C :: u16)"
abbreviation (input) "CI_RNEG \<equiv> (0xF08D :: u16)"
abbreviation (input) "CI_POWER \<equiv> (0xF08E :: u16)"
abbreviation (input) "CI_RVABS \<equiv> (0xF08F :: u16)"
abbreviation (input) "CI_WAND \<equiv> (0xF090 :: u16)"
abbreviation (input) "CI_WOR \<equiv> (0xF091 :: u16)"
abbreviation (input) "CI_WXOR \<equiv> (0xF092 :: u16)"
abbreviation (input) "CI_WINV \<equiv> (0xF093 :: u16)"
abbreviation (input) "CI_DWAND \<equiv> (0xF094 :: u16)"
abbreviation (input) "CI_DWOR \<equiv> (0xF095 :: u16)"
abbreviation (input) "CI_DWXOR \<equiv> (0xF096 :: u16)"
abbreviation (input) "CI_DWINV \<equiv> (0xF097 :: u16)"
abbreviation (input) "CI_ROR \<equiv> (0xF098 :: u16)"
abbreviation (input) "CI_ROL \<equiv> (0xF099 :: u16)"
abbreviation (input) "CI_RCR \<equiv> (0xF09A :: u16)"
abbreviation (input) "CI_RCL \<equiv> (0xF09B :: u16)"
abbreviation (input) "CI_DROR \<equiv> (0xF09C :: u16)"
abbreviation (input) "CI_DROL \<equiv> (0xF09D :: u16)"
abbreviation (input) "CI_DRCR \<equiv> (0xF09E :: u16)"
abbreviation (input) "CI_DRCL \<equiv> (0xF09F :: u16)"
abbreviation (input) "CI_SHR \<equiv> (0xF0A0 :: u16)"
abbreviation (input) "CI_SHL \<equiv> (0xF0A1 :: u16)"
abbreviation (input) "CI_DSHR \<equiv> (0xF0A2 :: u16)"
abbreviation (input) "CI_DSHL \<equiv> (0xF0A3 :: u16)"
abbreviation (input) "CI_SFTR \<equiv> (0xF0A4 :: u16)"
abbreviation (input) "CI_SFTL \<equiv> (0xF0A5 :: u16)"
abbreviation (input) "CI_FLT \<equiv> (0xF0A8 :: u16)"
abbreviation (input) "CI_DFLT \<equiv> (0xF0A9 :: u16)"
abbreviation (input) "CI_INT \<equiv> (0xF0AA :: u16)"
abbreviation (input) "CI_DINT \<equiv> (0xF0AB :: u16)"
abbreviation (input) "CI_BCD \<equiv> (0xF0AC :: u16)"
abbreviation (input) "CI_DBCD \<equiv> (0xF0AD :: u16)"
abbreviation (input) "CI_BIN \<equiv> (0xF0AE :: u16)"
abbreviation (input) "CI_DBIN \<equiv> (0xF0AF :: u16)"
abbreviation (input) "CI_GRY \<equiv> (0xF0B0 :: u16)"
abbreviation (input) "CI_DGRY \<equiv> (0xF0B1 :: u16)"
abbreviation (input) "CI_GBIN \<equiv> (0xF0B2 :: u16)"
abbreviation (input) "CI_DGBIN \<equiv> (0xF0B3 :: u16)"
abbreviation (input) "CI_SEG \<equiv> (0xF0B4 :: u16)"
abbreviation (input) "CI_ASC \<equiv> (0xF0B5 :: u16)"
abbreviation (input) "CI_ITA \<equiv> (0xF0B6 :: u16)"
abbreviation (input) "CI_ATI \<equiv> (0xF0B7 :: u16)"
abbreviation (input) "CI_PR \<equiv> (0xF0B8 :: u16)"
abbreviation (input) "CI_FROM \<equiv> (0xF0BB :: u16)"
abbreviation (input) "CI_TO \<equiv> (0xF0BC :: u16)"
abbreviation (input) "CI_EROMWR \<equiv> (0xF0BD :: u16)"
abbreviation (input) "CI_REF \<equiv> (0xF0BE :: u16)"
abbreviation (input) "CI_REFF \<equiv> (0xF0BF :: u16)"
abbreviation (input) "CI_DECO \<equiv> (0xF0C0 :: u16)"
abbreviation (input) "CI_ENCO \<equiv> (0xF0C1 :: u16)"
abbreviation (input) "CI_BITS \<equiv> (0xF0C2 :: u16)"
abbreviation (input) "CI_ZRST \<equiv> (0xF0C3 :: u16)"
abbreviation (input) "CI_ZSET \<equiv> (0xF0C4 :: u16)"
abbreviation (input) "CI_PID \<equiv> (0xF0C5 :: u16)"
abbreviation (input) "CI_XMT \<equiv> (0xF0C6 :: u16)"
abbreviation (input) "CI_TRD \<equiv> (0xF0C7 :: u16)"
abbreviation (input) "CI_TWR \<equiv> (0xF0C8 :: u16)"
abbreviation (input) "CI_TADD \<equiv> (0xF0C9 :: u16)"
abbreviation (input) "CI_TSUB \<equiv> (0xF0CA :: u16)"
abbreviation (input) "CI_FIFO \<equiv> (0xF0CB :: u16)"
abbreviation (input) "CI_LIFO \<equiv> (0xF0CC :: u16)"
abbreviation (input) "CI_HOUR \<equiv> (0xF0CE :: u16)"
abbreviation (input) "CI_BLD \<equiv> (0xF0D2 :: u16)"
abbreviation (input) "CI_BLDI \<equiv> (0xF0D3 :: u16)"
abbreviation (input) "CI_BAND \<equiv> (0xF0D4 :: u16)"
abbreviation (input) "CI_BANDI \<equiv> (0xF0D5 :: u16)"
abbreviation (input) "CI_BOR \<equiv> (0xF0D6 :: u16)"
abbreviation (input) "CI_BORI \<equiv> (0xF0D7 :: u16)"
abbreviation (input) "CI_DBITS \<equiv> (0xF0DB :: u16)"
abbreviation (input) "CI_BON \<equiv> (0xF0DE :: u16)"
abbreviation (input) "CI_DHSCS \<equiv> (0xF0DF :: u16)"
abbreviation (input) "CI_DHSCR \<equiv> (0xF0E0 :: u16)"
abbreviation (input) "CI_DHSZ \<equiv> (0xF0E1 :: u16)"
abbreviation (input) "CI_DHST \<equiv> (0xF0E2 :: u16)"
abbreviation (input) "CI_DHSP \<equiv> (0xF0E3 :: u16)"
abbreviation (input) "CI_PLSY \<equiv> (0xF0E4 :: u16)"
abbreviation (input) "CI_PLSR \<equiv> (0xF0E5 :: u16)"
abbreviation (input) "CI_PWM \<equiv> (0xF0E6 :: u16)"
abbreviation (input) "CI_SPD \<equiv> (0xF0E7 :: u16)"
abbreviation (input) "CI_HCNT \<equiv> (0xF0E8 :: u16)"
abbreviation (input) "CI_DFROM \<equiv> (0xF0E9 :: u16)"
abbreviation (input) "CI_DTO \<equiv> (0xF0EA :: u16)"
abbreviation (input) "CI_DHSCI \<equiv> (0xF0EB :: u16)"
abbreviation (input) "CI_BSET \<equiv> (0xF0EC :: u16)"
abbreviation (input) "CI_BRST \<equiv> (0xF0ED :: u16)"
abbreviation (input) "CI_WSFR \<equiv> (0xF0EF :: u16)"
abbreviation (input) "CI_ITD \<equiv> (0xF0F0 :: u16)"
abbreviation (input) "CI_DTI \<equiv> (0xF0F1 :: u16)"
abbreviation (input) "CI_BOUT \<equiv> (0xF0F2 :: u16)"
abbreviation (input) "CI_RMOV \<equiv> (0xF0F3 :: u16)"
abbreviation (input) "CI_RCV \<equiv> (0xF0F4 :: u16)"
abbreviation (input) "CI_VRRD \<equiv> (0xF0F5 :: u16)"
abbreviation (input) "CI_MODBUS \<equiv> (0xF0F6 :: u16)"
abbreviation (input) "CI_DIAL \<equiv> (0xF0F7 :: u16)"
abbreviation (input) "CI_HANGUP \<equiv> (0xF0F8 :: u16)"
abbreviation (input) "CI_SUM \<equiv> (0xF0F9 :: u16)"
abbreviation (input) "CI_DSUM \<equiv> (0xF0FA :: u16)"
abbreviation (input) "CI_RSUM \<equiv> (0xF0FB :: u16)"
abbreviation (input) "CI_DCMPE \<equiv> (0xF0FC :: u16)"
abbreviation (input) "CI_DCMPG \<equiv> (0xF0FD :: u16)"
abbreviation (input) "CI_DCMPL \<equiv> (0xF0FE :: u16)"
abbreviation (input) "CI_DCMPNE \<equiv> (0xF0FF :: u16)"
abbreviation (input) "CI_DCMPLE \<equiv> (0xF100 :: u16)"
abbreviation (input) "CI_DCMPGE \<equiv> (0xF101 :: u16)"
abbreviation (input) "CI_TCMPE \<equiv> (0xF102 :: u16)"
abbreviation (input) "CI_TCMPG \<equiv> (0xF103 :: u16)"
abbreviation (input) "CI_TCMPL \<equiv> (0xF104 :: u16)"
abbreviation (input) "CI_TCMPNE \<equiv> (0xF105 :: u16)"
abbreviation (input) "CI_TCMPLE \<equiv> (0xF106 :: u16)"
abbreviation (input) "CI_TCMPGE \<equiv> (0xF107 :: u16)"
abbreviation (input) "CI_RAMP \<equiv> (0xF108 :: u16)"
abbreviation (input) "CI_HACKLE \<equiv> (0xF109 :: u16)"
abbreviation (input) "CI_TRIANGLE \<equiv> (0xF10A :: u16)"
abbreviation (input) "CI_TMON \<equiv> (0xF10B :: u16)"
abbreviation (input) "CI_CCITT \<equiv> (0xF10C :: u16)"
abbreviation (input) "CI_CRC16 \<equiv> (0xF10D :: u16)"
abbreviation (input) "CI_LRC \<equiv> (0xF10E :: u16)"
abbreviation (input) "CI_ABS \<equiv> (0xF130 :: u16)"
abbreviation (input) "CI_ZRN \<equiv> (0xF131 :: u16)"
abbreviation (input) "CI_PLSV \<equiv> (0xF132 :: u16)"
abbreviation (input) "CI_DRVI \<equiv> (0xF133 :: u16)"
abbreviation (input) "CI_DRVA \<equiv> (0xF134 :: u16)"
abbreviation (input) "CI_PLS \<equiv> (0xF135 :: u16)"
abbreviation (input) "CI_DSZR \<equiv> (0xF136 :: u16)"
abbreviation (input) "CI_PLSB \<equiv> (0xF138 :: u16)"
abbreviation (input) "CI_EVFWD \<equiv> (0xF140 :: u16)"
abbreviation (input) "CI_EVREV \<equiv> (0xF141 :: u16)"
abbreviation (input) "CI_EVDFWD \<equiv> (0xF142 :: u16)"
abbreviation (input) "CI_EVDREV \<equiv> (0xF143 :: u16)"
abbreviation (input) "CI_EVSTOP \<equiv> (0xF144 :: u16)"
abbreviation (input) "CI_EVFRQ \<equiv> (0xF145 :: u16)"
abbreviation (input) "CI_EVWRT \<equiv> (0xF146 :: u16)"
abbreviation (input) "CI_EVRDST \<equiv> (0xF147 :: u16)"
abbreviation (input) "CI_EVRD \<equiv> (0xF148 :: u16)"
abbreviation (input) "CI_CANXMT \<equiv> (0xF149 :: u16)"
abbreviation (input) "CI_CANRCV \<equiv> (0xF14A :: u16)"
abbreviation (input) "CI_CANMXMT \<equiv> (0xF14D :: u16)"
abbreviation (input) "CI_LCNV \<equiv> (0xF150 :: u16)"
abbreviation (input) "CI_CMP \<equiv> (0xF151 :: u16)"
abbreviation (input) "CI_LCMP \<equiv> (0xF152 :: u16)"
abbreviation (input) "CI_RCMP \<equiv> (0xF153 :: u16)"
abbreviation (input) "CI_ALT \<equiv> (0xF154 :: u16)"
abbreviation (input) "CI_ABSD \<equiv> (0xF155 :: u16)"
abbreviation (input) "CI_DABSD \<equiv> (0xF156 :: u16)"
abbreviation (input) "CI_MODRW \<equiv> (0xF160 :: u16)"
abbreviation (input) "CI_ASIN \<equiv> (0xF170 :: u16)"
abbreviation (input) "CI_ACOS \<equiv> (0xF171 :: u16)"
abbreviation (input) "CI_ATAN \<equiv> (0xF172 :: u16)"
abbreviation (input) "CI_MTR \<equiv> (0xF173 :: u16)"
abbreviation (input) "CI_RLCNV \<equiv> (0xF174 :: u16)"
abbreviation (input) "CI_TCP_CONN \<equiv> (0xF180 :: u16)"
abbreviation (input) "CI_TCP_XMT \<equiv> (0xF181 :: u16)"
abbreviation (input) "CI_TCP_RCV \<equiv> (0xF182 :: u16)"
abbreviation (input) "CI_TCP_PING \<equiv> (0xF183 :: u16)"
abbreviation (input) "CI_MODLINK \<equiv> (0xF19C :: u16)"
abbreviation (input) "CI_MBCCONN \<equiv> (0xF19D :: u16)"
abbreviation (input) "CI_MODTCPLINK \<equiv> (0xF19E :: u16)"
abbreviation (input) "CI_S7TCPLINK \<equiv> (0xF19F :: u16)"
abbreviation (input) "CI_LOG \<equiv> (0xF200 :: u16)"
abbreviation (input) "CI_RAD \<equiv> (0xF201 :: u16)"
abbreviation (input) "CI_DEG \<equiv> (0xF202 :: u16)"
abbreviation (input) "CI_TKY \<equiv> (0xF210 :: u16)"
abbreviation (input) "CI_HKY \<equiv> (0xF211 :: u16)"
abbreviation (input) "CI_DSW \<equiv> (0xF212 :: u16)"
abbreviation (input) "CI_ARWS \<equiv> (0xF214 :: u16)"
abbreviation (input) "CI_DHSCT \<equiv> (0xF220 :: u16)"
abbreviation (input) "CI_DHSPI \<equiv> (0xF221 :: u16)"
abbreviation (input) "CI_CONTINUE \<equiv> (0xF222 :: u16)"
abbreviation (input) "CI_BREAK \<equiv> (0xF223 :: u16)"
abbreviation (input) "CI_LD_DX_Y \<equiv> (0xF230 :: u16)"
abbreviation (input) "CI_LDI_DX_Y \<equiv> (0xF231 :: u16)"
abbreviation (input) "CI_AND_DX_Y \<equiv> (0xF232 :: u16)"
abbreviation (input) "CI_ANI_DX_Y \<equiv> (0xF233 :: u16)"
abbreviation (input) "CI_OR_DX_Y \<equiv> (0xF234 :: u16)"
abbreviation (input) "CI_ORI_DX_Y \<equiv> (0xF235 :: u16)"
abbreviation (input) "CI_SET_DX_Y \<equiv> (0xF236 :: u16)"
abbreviation (input) "CI_RST_DX_Y \<equiv> (0xF237 :: u16)"
abbreviation (input) "CI_OUT_DX_Y \<equiv> (0xF238 :: u16)"
abbreviation (input) "CI_LIN \<equiv> (0xF240 :: u16)"
abbreviation (input) "CI_CW \<equiv> (0xF241 :: u16)"
abbreviation (input) "CI_CCW \<equiv> (0xF242 :: u16)"
abbreviation (input) "CI_DRV \<equiv> (0xF243 :: u16)"
abbreviation (input) "CI_MOVELINK \<equiv> (0xF245 :: u16)"
abbreviation (input) "CI_STOPDV \<equiv> (0xF246 :: u16)"
abbreviation (input) "CI_GEARBOX \<equiv> (0xF247 :: u16)"
abbreviation (input) "CI_CAMBOX \<equiv> (0xF248 :: u16)"
abbreviation (input) "CI_MEAN \<equiv> (0xF250 :: u16)"
abbreviation (input) "CI_WTOB \<equiv> (0xF251 :: u16)"
abbreviation (input) "CI_BTOW \<equiv> (0xF252 :: u16)"
abbreviation (input) "CI_UNI \<equiv> (0xF253 :: u16)"
abbreviation (input) "CI_DIS \<equiv> (0xF254 :: u16)"
abbreviation (input) "CI_ANS \<equiv> (0xF255 :: u16)"
abbreviation (input) "CI_ANR \<equiv> (0xF256 :: u16)"
abbreviation (input) "CI_BKADD \<equiv> (0xF260 :: u16)"
abbreviation (input) "CI_BKSUB \<equiv> (0xF261 :: u16)"
abbreviation (input) "CI_BKCMPDE \<equiv> (0xF262 :: u16)"
abbreviation (input) "CI_BKCMPDG \<equiv> (0xF263 :: u16)"
abbreviation (input) "CI_BKCMPDL \<equiv> (0xF264 :: u16)"
abbreviation (input) "CI_BKCMPDNE \<equiv> (0xF265 :: u16)"
abbreviation (input) "CI_BKCMPDLE \<equiv> (0xF266 :: u16)"
abbreviation (input) "CI_BKCMPDGE \<equiv> (0xF267 :: u16)"
abbreviation (input) "CI_LIMIT \<equiv> (0xF270 :: u16)"
abbreviation (input) "CI_DBAND \<equiv> (0xF271 :: u16)"
abbreviation (input) "CI_ZONE \<equiv> (0xF272 :: u16)"
abbreviation (input) "CI_SCL \<equiv> (0xF273 :: u16)"
abbreviation (input) "CI_SER \<equiv> (0xF274 :: u16)"
abbreviation (input) "CI_IST \<equiv> (0xF280 :: u16)"
abbreviation (input) "CI_INCD \<equiv> (0xF281 :: u16)"
abbreviation (input) "CI_TTMR \<equiv> (0xF282 :: u16)"
abbreviation (input) "CI_STMR \<equiv> (0xF283 :: u16)"
abbreviation (input) "CI_ROTC \<equiv> (0xF284 :: u16)"
abbreviation (input) "CI_SORT \<equiv> (0xF285 :: u16)"
abbreviation (input) "CI_STRADD \<equiv> (0xF290 :: u16)"
abbreviation (input) "CI_STRLEN \<equiv> (0xF291 :: u16)"
abbreviation (input) "CI_STRRIGHT \<equiv> (0xF292 :: u16)"
abbreviation (input) "CI_STRLEFT \<equiv> (0xF293 :: u16)"
abbreviation (input) "CI_STRMIDR \<equiv> (0xF294 :: u16)"
abbreviation (input) "CI_STRMIDW \<equiv> (0xF295 :: u16)"
abbreviation (input) "CI_STRINSTR \<equiv> (0xF296 :: u16)"
abbreviation (input) "CI_STRMOV \<equiv> (0xF297 :: u16)"
abbreviation (input) "CI_LOADR \<equiv> (0xF2A0 :: u16)"
abbreviation (input) "CI_SAVER \<equiv> (0xF2A1 :: u16)"
abbreviation (input) "CI_INITR \<equiv> (0xF2A2 :: u16)"
abbreviation (input) "CI_LOGR \<equiv> (0xF2A3 :: u16)"
abbreviation (input) "CI_INITER \<equiv> (0xF2A4 :: u16)"
abbreviation (input) "CI_CAMTABLE \<equiv> (0xF2A5 :: u16)"
abbreviation (input) "CI_DRVC \<equiv> (0xF2A7 :: u16)"
abbreviation (input) "CI_RND \<equiv> (0xF2B0 :: u16)"
abbreviation (input) "CI_DUTY \<equiv> (0xF2B1 :: u16)"
abbreviation (input) "CI_HTOS \<equiv> (0xF2C0 :: u16)"
abbreviation (input) "CI_STOH \<equiv> (0xF2C1 :: u16)"
abbreviation (input) "CI_ECATSDORD \<equiv> (0xF2D7 :: u16)"
abbreviation (input) "CI_ECATSDOWR \<equiv> (0xF2D8 :: u16)"
abbreviation (input) "CI_SWAPWORD \<equiv> (0xF2D9 :: u16)"
abbreviation (input) "CI_END \<equiv> (0xFFFF :: u16)"

text \<open>All codes in the order of the enumeration; they are pairwise different and none of them is the first
  word of a simple instruction, which is below 0xE000.\<close>

definition ci_codes :: "u16 list" where
  "ci_codes = [CI_LBL, CI_SBR, CI_INTR, CI_LD_LM, CI_LDI_LM, CI_AND_LM, CI_ANI_LM, CI_OR_LM, CI_ORI_LM, CI_OUT_LM,
     CI_SET_LM, CI_RST_LM, CI_STL, CI_RST_S, CI_SET_S, CI_OUT_S, CI_RET, CI_TON, CI_TOF, CI_TONR,
     CI_RST_T, CI_DCNT, CI_CTU, CI_CTR, CI_RST_C, CI_MC, CI_MCR, CI_CJ, CI_FOR, CI_NEXT, CI_CALL,
     CI_CSRET, CI_SRET, CI_CIRET, CI_IRET, CI_EI, CI_DI, CI_STOP, CI_WDT, CI_CFEND, CI_FEND, CI_MOV,
     CI_DMOV, CI_BMOV, CI_FMOV, CI_DFMOV, CI_SWAP, CI_XCH, CI_DXCH, CI_PUSH, CI_WSFL, CI_LDE, CI_LDG,
     CI_LDL, CI_LDNE, CI_LDLE, CI_LDGE, CI_ANDE, CI_ANDG, CI_ANDL, CI_ANDNE, CI_ANDLE, CI_ANDGE, CI_ORE,
     CI_ORG, CI_ORL, CI_ORNE, CI_ORLE, CI_ORGE, CI_LDDE, CI_LDDG, CI_LDDL, CI_LDDNE, CI_LDDLE, CI_LDDGE,
     CI_ANDDE, CI_ANDDG, CI_ANDDL, CI_ANDDNE, CI_ANDDLE, CI_ANDDGE, CI_ORDE, CI_ORDG, CI_ORDL, CI_ORDNE,
     CI_ORDLE, CI_ORDGE, CI_LDRE, CI_LDRG, CI_LDRL, CI_LDRNE, CI_LDRLE, CI_LDRGE, CI_ANDRE, CI_ANDRG,
     CI_ANDRL, CI_ANDRNE, CI_ANDRLE, CI_ANDRGE, CI_ORRE, CI_ORRG, CI_ORRL, CI_ORRNE, CI_ORRLE, CI_ORRGE,
     CI_ADD, CI_SUB, CI_MUL, CI_DIV, CI_SQT, CI_INC, CI_DEC, CI_VABS, CI_NEG, CI_DADD, CI_DSUB, CI_DMUL,
     CI_DDIV, CI_DSQT, CI_DINC, CI_DDEC, CI_DVABS, CI_DNEG, CI_RADD, CI_RSUB, CI_RMUL, CI_RDIV, CI_RSQT,
     CI_SIN, CI_COS, CI_TAN, CI_LN, CI_EXP, CI_RNEG, CI_POWER, CI_RVABS, CI_WAND, CI_WOR, CI_WXOR,
     CI_WINV, CI_DWAND, CI_DWOR, CI_DWXOR, CI_DWINV, CI_ROR, CI_ROL, CI_RCR, CI_RCL, CI_DROR, CI_DROL,
     CI_DRCR, CI_DRCL, CI_SHR, CI_SHL, CI_DSHR, CI_DSHL, CI_SFTR, CI_SFTL, CI_FLT, CI_DFLT, CI_INT,
     CI_DINT, CI_BCD, CI_DBCD, CI_BIN, CI_DBIN, CI_GRY, CI_DGRY, CI_GBIN, CI_DGBIN, CI_SEG, CI_ASC,
     CI_ITA, CI_ATI, CI_PR, CI_FROM, CI_TO, CI_EROMWR, CI_REF, CI_REFF, CI_DECO, CI_ENCO, CI_BITS,
     CI_ZRST, CI_ZSET, CI_PID, CI_XMT, CI_TRD, CI_TWR, CI_TADD, CI_TSUB, CI_FIFO, CI_LIFO, CI_HOUR,
     CI_BLD, CI_BLDI, CI_BAND, CI_BANDI, CI_BOR, CI_BORI, CI_DBITS, CI_BON, CI_DHSCS, CI_DHSCR, CI_DHSZ,
     CI_DHST, CI_DHSP, CI_PLSY, CI_PLSR, CI_PWM, CI_SPD, CI_HCNT, CI_DFROM, CI_DTO, CI_DHSCI, CI_BSET,
     CI_BRST, CI_WSFR, CI_ITD, CI_DTI, CI_BOUT, CI_RMOV, CI_RCV, CI_VRRD, CI_MODBUS, CI_DIAL, CI_HANGUP,
     CI_SUM, CI_DSUM, CI_RSUM, CI_DCMPE, CI_DCMPG, CI_DCMPL, CI_DCMPNE, CI_DCMPLE, CI_DCMPGE, CI_TCMPE,
     CI_TCMPG, CI_TCMPL, CI_TCMPNE, CI_TCMPLE, CI_TCMPGE, CI_RAMP, CI_HACKLE, CI_TRIANGLE, CI_TMON,
     CI_CCITT, CI_CRC16, CI_LRC, CI_ABS, CI_ZRN, CI_PLSV, CI_DRVI, CI_DRVA, CI_PLS, CI_DSZR, CI_PLSB,
     CI_EVFWD, CI_EVREV, CI_EVDFWD, CI_EVDREV, CI_EVSTOP, CI_EVFRQ, CI_EVWRT, CI_EVRDST, CI_EVRD,
     CI_CANXMT, CI_CANRCV, CI_CANMXMT, CI_LCNV, CI_CMP, CI_LCMP, CI_RCMP, CI_ALT, CI_ABSD, CI_DABSD,
     CI_MODRW, CI_ASIN, CI_ACOS, CI_ATAN, CI_MTR, CI_RLCNV, CI_TCP_CONN, CI_TCP_XMT, CI_TCP_RCV,
     CI_TCP_PING, CI_MODLINK, CI_MBCCONN, CI_MODTCPLINK, CI_S7TCPLINK, CI_LOG, CI_RAD, CI_DEG, CI_TKY,
     CI_HKY, CI_DSW, CI_ARWS, CI_DHSCT, CI_DHSPI, CI_CONTINUE, CI_BREAK, CI_LD_DX_Y, CI_LDI_DX_Y,
     CI_AND_DX_Y, CI_ANI_DX_Y, CI_OR_DX_Y, CI_ORI_DX_Y, CI_SET_DX_Y, CI_RST_DX_Y, CI_OUT_DX_Y, CI_LIN,
     CI_CW, CI_CCW, CI_DRV, CI_MOVELINK, CI_STOPDV, CI_GEARBOX, CI_CAMBOX, CI_MEAN, CI_WTOB, CI_BTOW,
     CI_UNI, CI_DIS, CI_ANS, CI_ANR, CI_BKADD, CI_BKSUB, CI_BKCMPDE, CI_BKCMPDG, CI_BKCMPDL,
     CI_BKCMPDNE, CI_BKCMPDLE, CI_BKCMPDGE, CI_LIMIT, CI_DBAND, CI_ZONE, CI_SCL, CI_SER, CI_IST,
     CI_INCD, CI_TTMR, CI_STMR, CI_ROTC, CI_SORT, CI_STRADD, CI_STRLEN, CI_STRRIGHT, CI_STRLEFT,
     CI_STRMIDR, CI_STRMIDW, CI_STRINSTR, CI_STRMOV, CI_LOADR, CI_SAVER, CI_INITR, CI_LOGR, CI_INITER,
     CI_CAMTABLE, CI_DRVC, CI_RND, CI_DUTY, CI_HTOS, CI_STOH, CI_ECATSDORD, CI_ECATSDOWR, CI_SWAPWORD,
     CI_END]"

lemma ci_codes_increasing: "successively (<) ci_codes"
  by code_simp

lemma ci_codes_distinct: "distinct ci_codes"
proof -
  have "sorted_wrt (<) ci_codes"
    using ci_codes_increasing by (simp add: successively_conv_sorted_wrt)
  then show ?thesis
    using strict_sorted_iff by blast
qed

lemma ci_codes_complex: "list_all (\<lambda>c. 0xF000 \<le> c) ci_codes"
  by code_simp

end
