(* ===== verification/PLC_BitIns.thy ===== *)
theory PLC_BitIns
  imports PLC_Timer PLC_Opcode
begin

text \<open>
  Contacts and coils among the complex instructions, \<open>source/plc/executer/src/plc_dataprocessing.c\<close>: the
  comparison contacts on 16-bit and 32-bit integers, the contacts and coils on a bit of a word (BLD and its
  family with the bit number as an operand, the Dx.y family with an immediate number), those on LM elements,
  the three-way comparisons, batch set and reset, encoding, decoding and bit counting.
  The theory begins with the idioms that all instruction functions share: reading an operand and returning
  its error, writing one, and doing nothing without power flow.
\<close>

section \<open>Idioms of the instruction functions\<close>

type_synonym ci_res = "(plc_ret \<times> plc_state \<times> si_env) option"

text \<open>\<open>lcv_Ret = get_word(mcp_PC + k, &w, off, 1); if(lcv_Ret != pdPASS) return lcv_Ret;\<close>\<close>

definition read_word_at :: "u16 \<Rightarrow> plc_state \<Rightarrow> si_env \<Rightarrow> nat \<Rightarrow> (u16 \<Rightarrow> ci_res) \<Rightarrow> ci_res" where
  "read_word_at off s e k f =
     do { (r, ws) \<leftarrow> get_word s (mcp_PC e + k) off 1;
          if r \<noteq> pdPASS then Some (r, s, e) else do { w \<leftarrow> rd ws 0; f w } }"

abbreviation read_word :: "plc_state \<Rightarrow> si_env \<Rightarrow> nat \<Rightarrow> (u16 \<Rightarrow> ci_res) \<Rightarrow> ci_res" where
  "read_word \<equiv> read_word_at 0"

definition read_dword :: "plc_state \<Rightarrow> si_env \<Rightarrow> nat \<Rightarrow> (u32 \<Rightarrow> ci_res) \<Rightarrow> ci_res" where
  "read_dword s e k f =
     do { (r, ws) \<leftarrow> get_dword s (mcp_PC e + k) 0 1;
          if r \<noteq> pdPASS then Some (r, s, e) else do { w \<leftarrow> rd ws 0; f w } }"

text \<open>\<open>lcv_Ret = save_word(mcp_PC + k, &w, off, 1); return lcv_Ret;\<close>\<close>

definition write_word_at :: "u16 \<Rightarrow> plc_state \<Rightarrow> si_env \<Rightarrow> nat \<Rightarrow> u16 \<Rightarrow> ci_res" where
  "write_word_at off s e k w = do { (r, s', _) \<leftarrow> save_word s (mcp_PC e + k) [w] off 1; Some (r, s', e) }"

abbreviation write_word :: "plc_state \<Rightarrow> si_env \<Rightarrow> nat \<Rightarrow> u16 \<Rightarrow> ci_res" where
  "write_word \<equiv> write_word_at 0"

definition write_dword_at :: "u16 \<Rightarrow> plc_state \<Rightarrow> si_env \<Rightarrow> nat \<Rightarrow> u32 \<Rightarrow> ci_res" where
  "write_dword_at off s e k w = do { (r, s', _) \<leftarrow> save_dword s (mcp_PC e + k) [w] off 1; Some (r, s', e) }"

abbreviation write_dword :: "plc_state \<Rightarrow> si_env \<Rightarrow> nat \<Rightarrow> u32 \<Rightarrow> ci_res" where
  "write_dword \<equiv> write_dword_at 0"

definition write_chars :: "plc_state \<Rightarrow> si_env \<Rightarrow> nat \<Rightarrow> u8 list \<Rightarrow> ci_res" where
  "write_chars s e k cs = do { (r, s') \<leftarrow> save_char s (mcp_PC e + k) cs 0 (of_nat (length cs)); Some (r, s', e) }"

definition ci_ok :: "plc_state \<Rightarrow> si_env \<Rightarrow> ci_res" where
  "ci_ok s e = Some (pdPASS, s, e)"

definition ci_err :: "plc_ret \<Rightarrow> plc_state \<Rightarrow> si_env \<Rightarrow> ci_res" where
  "ci_err r s e = Some (r, s, e)"

text \<open>\<open>if(!GET_POWER_FLOW(ltp_RunEnv)) return pdPASS;\<close>\<close>

definition when_flow :: "plc_state \<Rightarrow> si_env \<Rightarrow> ci_res \<Rightarrow> ci_res" where
  "when_flow s e r = (if GET_POWER_FLOW (mlv_InPF e) then r else ci_ok s e)"

definition unless_flow :: "plc_state \<Rightarrow> si_env \<Rightarrow> ci_res \<Rightarrow> ci_res" where
  "unless_flow s e r = (if GET_POWER_FLOW (mlv_InPF e) then ci_ok s e else r)"

text \<open>The three ways in which a contact with value \<open>b\<close> changes the power flow: a new block, in series with
  a flow that is on, in parallel with a flow that is off.\<close>

definition flow_ld :: "bool \<Rightarrow> si_env \<Rightarrow> si_env" where
  "flow_ld b e = e\<lparr>mlv_InPF := put_flow b (push_bit 1 (mlv_InPF e))\<rparr>"

definition flow_and :: "bool \<Rightarrow> si_env \<Rightarrow> si_env" where
  "flow_and b e = (if \<not> b then e\<lparr>mlv_InPF := RST_POWER_FLOW (mlv_InPF e)\<rparr> else e)"

definition flow_or :: "bool \<Rightarrow> si_env \<Rightarrow> si_env" where
  "flow_or b e = (if b then e\<lparr>mlv_InPF := SET_POWER_FLOW (mlv_InPF e)\<rparr> else e)"

section \<open>Comparison contacts\<close>

text \<open>The switch over the six codes of a family: equal, greater, less, not equal, less or equal, greater or
  equal.\<close>

definition cmp_switch :: "u16 list \<Rightarrow> u16 \<Rightarrow> int \<Rightarrow> int \<Rightarrow> bool option" where
  "cmp_switch cs w a b = map_of (zip cs [a = b, a > b, a < b, a \<noteq> b, a \<le> b, a \<ge> b]) w"

text \<open>The operands of a comparison as signed numbers.\<close>

definition words_operands :: "plc_state \<Rightarrow> si_env \<Rightarrow> (int \<Rightarrow> int \<Rightarrow> ci_res) \<Rightarrow> ci_res" where
  "words_operands s e f = read_word s e 2 (\<lambda>a. read_word s e 6 (\<lambda>b. f (sint a) (sint b)))"

definition dwords_operands :: "plc_state \<Rightarrow> si_env \<Rightarrow> (int \<Rightarrow> int \<Rightarrow> ci_res) \<Rightarrow> ci_res" where
  "dwords_operands s e f = read_dword s e 2 (\<lambda>a. read_dword s e 8 (\<lambda>b. f (sint a) (sint b)))"

definition ld_compare :: "u16 list \<Rightarrow> plc_state \<Rightarrow> si_env \<Rightarrow> int \<Rightarrow> int \<Rightarrow> ci_res" where
  "ld_compare cs s e a b =
     do { w \<leftarrow> GET_PU16_DATA (ucode s) (mcp_PC e);
          case cmp_switch cs w a b of
            Some c \<Rightarrow> ci_ok s (flow_ld c e)
          | None \<Rightarrow> ci_err ERR_ILLEGAL_INSTRCTION s (e\<lparr>mlv_InPF := drop_bit 1 (push_bit 1 (mlv_InPF e))\<rparr>) }"

definition and_compare :: "u16 list \<Rightarrow> plc_state \<Rightarrow> si_env \<Rightarrow> int \<Rightarrow> int \<Rightarrow> ci_res" where
  "and_compare cs s e a b =
     do { w \<leftarrow> GET_PU16_DATA (ucode s) (mcp_PC e);
          case cmp_switch cs w a b of Some c \<Rightarrow> ci_ok s (flow_and c e) | None \<Rightarrow> ci_err ERR_ILLEGAL_INSTRCTION s e }"

definition or_compare :: "u16 list \<Rightarrow> plc_state \<Rightarrow> si_env \<Rightarrow> int \<Rightarrow> int \<Rightarrow> ci_res" where
  "or_compare cs s e a b =
     do { w \<leftarrow> GET_PU16_DATA (ucode s) (mcp_PC e);
          case cmp_switch cs w a b of Some c \<Rightarrow> ci_ok s (flow_or c e) | None \<Rightarrow> ci_err ERR_ILLEGAL_INSTRCTION s e }"

definition run_ld_compare_ins :: "plc_state \<Rightarrow> si_env \<Rightarrow> ci_res" where
  "run_ld_compare_ins s e =
     words_operands s e (ld_compare [CI_LDE, CI_LDG, CI_LDL, CI_LDNE, CI_LDLE, CI_LDGE] s e)"

definition run_and_compare_ins :: "plc_state \<Rightarrow> si_env \<Rightarrow> ci_res" where
  "run_and_compare_ins s e =
     words_operands s e (and_compare [CI_ANDE, CI_ANDG, CI_ANDL, CI_ANDNE, CI_ANDLE, CI_ANDGE] s e)"

definition run_or_compare_ins :: "plc_state \<Rightarrow> si_env \<Rightarrow> ci_res" where
  "run_or_compare_ins s e =
     words_operands s e (or_compare [CI_ORE, CI_ORG, CI_ORL, CI_ORNE, CI_ORLE, CI_ORGE] s e)"

definition run_ldd_compare_ins :: "plc_state \<Rightarrow> si_env \<Rightarrow> ci_res" where
  "run_ldd_compare_ins s e =
     dwords_operands s e (ld_compare [CI_LDDE, CI_LDDG, CI_LDDL, CI_LDDNE, CI_LDDLE, CI_LDDGE] s e)"

definition run_andd_compare_ins :: "plc_state \<Rightarrow> si_env \<Rightarrow> ci_res" where
  "run_andd_compare_ins s e =
     dwords_operands s e (and_compare [CI_ANDDE, CI_ANDDG, CI_ANDDL, CI_ANDDNE, CI_ANDDLE, CI_ANDDGE] s e)"

definition run_ord_compare_ins :: "plc_state \<Rightarrow> si_env \<Rightarrow> ci_res" where
  "run_ord_compare_ins s e =
     dwords_operands s e (or_compare [CI_ORDE, CI_ORDG, CI_ORDL, CI_ORDNE, CI_ORDLE, CI_ORDGE] s e)"

text \<open>CMP and LCMP write three bits: less, equal, greater.\<close>

definition cmp_result :: "int \<Rightarrow> int \<Rightarrow> u8 list" where
  "cmp_result a b = (if a < b then [1, 0, 0] else if a > b then [0, 0, 1] else [0, 1, 0])"

definition run_ci_cmp_ins :: "plc_state \<Rightarrow> si_env \<Rightarrow> ci_res" where
  "run_ci_cmp_ins s e = when_flow s e (words_operands s e (\<lambda>a b. write_chars s e 10 (cmp_result a b)))"

definition run_ci_lcmp_ins :: "plc_state \<Rightarrow> si_env \<Rightarrow> ci_res" where
  "run_ci_lcmp_ins s e = when_flow s e (dwords_operands s e (\<lambda>a b. write_chars s e 14 (cmp_result a b)))"

section \<open>Bits of words\<close>

text \<open>A bit number \<open>short s2\<close> that must lie in 0..15.\<close>

definition bit_index :: "plc_state \<Rightarrow> si_env \<Rightarrow> u16 \<Rightarrow> (nat \<Rightarrow> ci_res) \<Rightarrow> ci_res" where
  "bit_index s e k f = (if sint k < 0 \<or> sint k > 15 then ci_err ERR_OPERANDS s e else f (nat (sint k)))"

definition read_index :: "plc_state \<Rightarrow> si_env \<Rightarrow> (nat \<Rightarrow> ci_res) \<Rightarrow> ci_res" where
  "read_index s e f = read_word s e 6 (\<lambda>k. bit_index s e k f)"

definition imm_index :: "plc_state \<Rightarrow> si_env \<Rightarrow> (nat \<Rightarrow> ci_res) \<Rightarrow> ci_res" where
  "imm_index s e f = do { k \<leftarrow> GET_PU16_DATA (ucode s) (mcp_PC e + 6); bit_index s e k f }"

type_synonym index_reader = "plc_state \<Rightarrow> si_env \<Rightarrow> (nat \<Rightarrow> ci_res) \<Rightarrow> ci_res"

definition bit_operand :: "index_reader \<Rightarrow> plc_state \<Rightarrow> si_env \<Rightarrow> (u16 \<Rightarrow> nat \<Rightarrow> ci_res) \<Rightarrow> ci_res" where
  "bit_operand ix s e f = read_word s e 2 (\<lambda>w. ix s e (\<lambda>k. f w k))"

text \<open>The contact and coil bodies, with the reader of the bit number and the value of the bit that counts as on.\<close>

definition bit_ld :: "index_reader \<Rightarrow> bool \<Rightarrow> plc_state \<Rightarrow> si_env \<Rightarrow> ci_res" where
  "bit_ld ix on s e = bit_operand ix s e (\<lambda>w k. ci_ok s (flow_ld (bit w k = on) e))"

definition bit_and :: "index_reader \<Rightarrow> bool \<Rightarrow> plc_state \<Rightarrow> si_env \<Rightarrow> ci_res" where
  "bit_and ix on s e = when_flow s e (bit_operand ix s e (\<lambda>w k. ci_ok s (flow_and (bit w k = on) e)))"

definition bit_or :: "index_reader \<Rightarrow> bool \<Rightarrow> plc_state \<Rightarrow> si_env \<Rightarrow> ci_res" where
  "bit_or ix on s e = unless_flow s e (bit_operand ix s e (\<lambda>w k. ci_ok s (flow_or (bit w k = on) e)))"

definition bit_coil :: "index_reader \<Rightarrow> bool \<Rightarrow> plc_state \<Rightarrow> si_env \<Rightarrow> ci_res" where
  "bit_coil ix v s e = bit_operand ix s e (\<lambda>w k. write_word s e 2 (bit_write w k (if v then 1 else 0)))"

definition run_ci_bld_ins :: "plc_state \<Rightarrow> si_env \<Rightarrow> ci_res" where
  "run_ci_bld_ins = bit_ld read_index True"

definition run_ci_bldi_ins :: "plc_state \<Rightarrow> si_env \<Rightarrow> ci_res" where
  "run_ci_bldi_ins = bit_ld read_index False"

definition run_ci_band_ins :: "plc_state \<Rightarrow> si_env \<Rightarrow> ci_res" where
  "run_ci_band_ins = bit_and read_index True"

definition run_ci_bandi_ins :: "plc_state \<Rightarrow> si_env \<Rightarrow> ci_res" where
  "run_ci_bandi_ins = bit_and read_index False"

definition run_ci_bor_ins :: "plc_state \<Rightarrow> si_env \<Rightarrow> ci_res" where
  "run_ci_bor_ins = bit_or read_index True"

definition run_ci_bori_ins :: "plc_state \<Rightarrow> si_env \<Rightarrow> ci_res" where
  "run_ci_bori_ins = bit_or read_index False"

definition run_ci_bset_ins :: "plc_state \<Rightarrow> si_env \<Rightarrow> ci_res" where
  "run_ci_bset_ins s e = when_flow s e (bit_coil read_index True s e)"

definition run_ci_brst_ins :: "plc_state \<Rightarrow> si_env \<Rightarrow> ci_res" where
  "run_ci_brst_ins s e = when_flow s e (bit_coil read_index False s e)"

text \<open>BOUT, like BSET and BRST, returns at once without power flow, before it tests the flow again.\<close>

definition run_ci_bout_ins :: "plc_state \<Rightarrow> si_env \<Rightarrow> ci_res" where
  "run_ci_bout_ins s e = when_flow s e (bit_coil read_index (GET_POWER_FLOW (mlv_InPF e)) s e)"

definition run_ci_ld_dx_y_ins :: "plc_state \<Rightarrow> si_env \<Rightarrow> ci_res" where
  "run_ci_ld_dx_y_ins = bit_ld imm_index True"

definition run_ci_ldi_dx_y_ins :: "plc_state \<Rightarrow> si_env \<Rightarrow> ci_res" where
  "run_ci_ldi_dx_y_ins = bit_ld imm_index False"

definition run_ci_and_dx_y_ins :: "plc_state \<Rightarrow> si_env \<Rightarrow> ci_res" where
  "run_ci_and_dx_y_ins = bit_and imm_index True"

definition run_ci_ani_dx_y_ins :: "plc_state \<Rightarrow> si_env \<Rightarrow> ci_res" where
  "run_ci_ani_dx_y_ins = bit_and imm_index False"

definition run_ci_or_dx_y_ins :: "plc_state \<Rightarrow> si_env \<Rightarrow> ci_res" where
  "run_ci_or_dx_y_ins = bit_or imm_index True"

definition run_ci_ori_dx_y_ins :: "plc_state \<Rightarrow> si_env \<Rightarrow> ci_res" where
  "run_ci_ori_dx_y_ins = bit_or imm_index False"

definition run_ci_set_dx_y_ins :: "plc_state \<Rightarrow> si_env \<Rightarrow> ci_res" where
  "run_ci_set_dx_y_ins s e = when_flow s e (bit_coil imm_index True s e)"

definition run_ci_rst_dx_y_ins :: "plc_state \<Rightarrow> si_env \<Rightarrow> ci_res" where
  "run_ci_rst_dx_y_ins s e = when_flow s e (bit_coil imm_index False s e)"

definition run_ci_out_dx_y_ins :: "plc_state \<Rightarrow> si_env \<Rightarrow> ci_res" where
  "run_ci_out_dx_y_ins s e = bit_coil imm_index (GET_POWER_FLOW (mlv_InPF e)) s e"

section \<open>LM contacts and coils\<close>

text \<open>The LM element of the current call layer with the number at \<open>mcp_PC + 4\<close>.\<close>

definition lm_contact :: "plc_state \<Rightarrow> si_env \<Rightarrow> (bool \<Rightarrow> ci_res) \<Rightarrow> ci_res" where
  "lm_contact s e f =
     do { i \<leftarrow> GET_PU16_DATA (ucode s) (mcp_PC e + 4); v \<leftarrow> get_lm_elem (ucast (nested s)) s i; f (v \<noteq> 0) }"

definition lm_coil :: "plc_state \<Rightarrow> si_env \<Rightarrow> u8 \<Rightarrow> ci_res" where
  "lm_coil s e v =
     do { i \<leftarrow> GET_PU16_DATA (ucode s) (mcp_PC e + 4); s' \<leftarrow> set_lm_elem (ucast (nested s)) s i v; ci_ok s' e }"

definition run_ci_ld_lm_ins :: "plc_state \<Rightarrow> si_env \<Rightarrow> ci_res" where
  "run_ci_ld_lm_ins s e = lm_contact s e (\<lambda>b. ci_ok s (flow_ld b e))"

definition run_ci_ldi_lm_ins :: "plc_state \<Rightarrow> si_env \<Rightarrow> ci_res" where
  "run_ci_ldi_lm_ins s e = lm_contact s e (\<lambda>b. ci_ok s (flow_ld (\<not> b) e))"

definition run_ci_and_lm_ins :: "plc_state \<Rightarrow> si_env \<Rightarrow> ci_res" where
  "run_ci_and_lm_ins s e = when_flow s e (lm_contact s e (\<lambda>b. ci_ok s (flow_and b e)))"

definition run_ci_ani_lm_ins :: "plc_state \<Rightarrow> si_env \<Rightarrow> ci_res" where
  "run_ci_ani_lm_ins s e = when_flow s e (lm_contact s e (\<lambda>b. ci_ok s (flow_and (\<not> b) e)))"

definition run_ci_or_lm_ins :: "plc_state \<Rightarrow> si_env \<Rightarrow> ci_res" where
  "run_ci_or_lm_ins s e = unless_flow s e (lm_contact s e (\<lambda>b. ci_ok s (flow_or b e)))"

definition run_ci_ori_lm_ins :: "plc_state \<Rightarrow> si_env \<Rightarrow> ci_res" where
  "run_ci_ori_lm_ins s e = unless_flow s e (lm_contact s e (\<lambda>b. ci_ok s (flow_or (\<not> b) e)))"

definition run_ci_set_lm_ins :: "plc_state \<Rightarrow> si_env \<Rightarrow> ci_res" where
  "run_ci_set_lm_ins s e = when_flow s e (lm_coil s e 1)"

definition run_ci_out_lm_ins :: "plc_state \<Rightarrow> si_env \<Rightarrow> ci_res" where
  "run_ci_out_lm_ins s e = lm_coil s e (if GET_POWER_FLOW (mlv_InPF e) then 1 else 0)"

definition run_ci_rst_lm_ins :: "plc_state \<Rightarrow> si_env \<Rightarrow> ci_res" where
  "run_ci_rst_lm_ins s e = when_flow s e (lm_coil s e 0)"

section \<open>Batch set and reset\<close>

text \<open>The operand types that ZRST and ZSET take as direct and, from \<open>ADDR_XZ\<close> on, as indexed: \<open>ADDR_CZ\<close>
  and \<open>ADDR_TZ\<close> have smaller codes than \<open>ADDR_XZ\<close> and are taken as direct.\<close>

definition z_direct :: "plc_state \<Rightarrow> addr_type \<Rightarrow> bit_sel option" where
  "z_direct s a = (case a of
       ADDR_X \<Rightarrow> Some (Bits X_ELEMENT)
     | ADDR_Y \<Rightarrow> Some (Bits Y_ELEMENT)
     | ADDR_C \<Rightarrow> Some (Bits C_ELEMENT)
     | ADDR_CZ \<Rightarrow> Some (Bits C_ELEMENT)
     | ADDR_T \<Rightarrow> Some (Bits T_ELEMENT)
     | ADDR_TZ \<Rightarrow> Some (Bits T_ELEMENT)
     | ADDR_M \<Rightarrow> Some (Bits M_ELEMENT)
     | ADDR_S \<Rightarrow> Some (Bits S_ELEMENT)
     | ADDR_LM \<Rightarrow> Some (LMs (ucast (nested s)))
     | _ \<Rightarrow> None)"

definition z_indexed :: "plc_state \<Rightarrow> addr_type \<Rightarrow> bit_sel option" where
  "z_indexed s a = (case a of
       ADDR_XZ \<Rightarrow> Some (Bits X_ELEMENT)
     | ADDR_YZ \<Rightarrow> Some (Bits Y_ELEMENT)
     | ADDR_MZ \<Rightarrow> Some (Bits M_ELEMENT)
     | ADDR_SZ \<Rightarrow> Some (Bits S_ELEMENT)
     | ADDR_LMZ \<Rightarrow> Some (LMs (ucast (nested s)))
     | _ \<Rightarrow> None)"

text \<open>The loop over \<open>n\<close> elements from number \<open>k\<close> on; the check lets the number \<open>rang\<close> itself pass.\<close>

fun z_loop :: "(plc_state \<Rightarrow> u16 \<Rightarrow> plc_state option) \<Rightarrow> u16 \<Rightarrow> plc_state \<Rightarrow> nat \<Rightarrow> nat \<Rightarrow> (plc_ret \<times> plc_state) option" where
  "z_loop f rang s k 0 = Some (pdPASS, s)"
| "z_loop f rang s k (Suc n) =
     (if unat rang < k then Some (ERR_OVER_ELEMENT_RANG, s) else do { s' \<leftarrow> f s (of_nat k); z_loop f rang s' (Suc k) n })"

definition z_batch :: "(bit_sel \<Rightarrow> plc_state \<Rightarrow> u16 \<Rightarrow> plc_state option) \<Rightarrow> plc_state \<Rightarrow> si_env \<Rightarrow> ci_res" where
  "z_batch f s e =
     when_flow s e (read_word s e 6 (\<lambda>c.
       if sint c < 0 then ci_err ERR_OPERANDS s e
       else do { p \<leftarrow> resolve (z_direct s) (z_indexed s) s (mcp_PC e + 2) 0;
                 case p of
                   Some (b, i) \<Rightarrow> do { (r, s') \<leftarrow> z_loop (f b) (rang_bsel b s) s (unat i) (nat (sint c)); Some (r, s', e) }
                 | None \<Rightarrow> ci_err ERR_OPERANDS s e }))"

definition zrst_one :: "bit_sel \<Rightarrow> plc_state \<Rightarrow> u16 \<Rightarrow> plc_state option" where
  "zrst_one b s i =
     (if b = Bits C_ELEMENT then plc_reset_one_counter s i
      else if b = Bits T_ELEMENT then plc_reset_one_timer s i
      else put_bsel b s i 0)"

definition run_ci_zrst_ins :: "plc_state \<Rightarrow> si_env \<Rightarrow> ci_res" where
  "run_ci_zrst_ins = z_batch zrst_one"

definition run_ci_zset_ins :: "plc_state \<Rightarrow> si_env \<Rightarrow> ci_res" where
  "run_ci_zset_ins = z_batch (\<lambda>b s i. put_bsel b s i 1)"

section \<open>Encoding and counting bits\<close>

definition run_ci_deco_ins :: "plc_state \<Rightarrow> si_env \<Rightarrow> ci_res" where
  "run_ci_deco_ins s e = when_flow s e (read_word s e 2 (\<lambda>k. bit_index s e k (\<lambda>k. write_word s e 6 (push_bit k 1))))"

text \<open>The loops over the bit numbers \<open>i\<close>, \<open>i + 1\<close>, ..: the first bit that is on, and the number of such bits.\<close>

fun first_bit :: "'w::len word \<Rightarrow> nat \<Rightarrow> nat \<Rightarrow> nat option" where
  "first_bit w i 0 = None"
| "first_bit w i (Suc n) = (if drop_bit i w AND 1 \<noteq> 0 then Some i else first_bit w (Suc i) n)"

fun count_bits :: "'w::len word \<Rightarrow> nat \<Rightarrow> nat \<Rightarrow> u16 \<Rightarrow> u16" where
  "count_bits w i 0 c = c"
| "count_bits w i (Suc n) c = count_bits w (Suc i) n (if drop_bit i w AND 1 \<noteq> 0 then c + 1 else c)"

definition run_ci_enco_ins :: "plc_state \<Rightarrow> si_env \<Rightarrow> ci_res" where
  "run_ci_enco_ins s e =
     when_flow s e (read_word s e 2 (\<lambda>w.
       if w = 0 then ci_ok s e else do { i \<leftarrow> first_bit w 0 16; write_word s e 6 (of_nat i) }))"

definition run_ci_bits_ins :: "plc_state \<Rightarrow> si_env \<Rightarrow> ci_res" where
  "run_ci_bits_ins s e =
     when_flow s e (read_word s e 2 (\<lambda>w. if w = 0 then ci_ok s e else write_word s e 6 (count_bits w 0 16 0)))"

definition run_ci_dbits_ins :: "plc_state \<Rightarrow> si_env \<Rightarrow> ci_res" where
  "run_ci_dbits_ins s e =
     when_flow s e (read_dword s e 2 (\<lambda>w. if w = 0 then ci_ok s e else write_word s e 8 (count_bits w 0 32 0)))"

text \<open>BON has no test of the power flow and no range check of the element it writes.\<close>

definition bon_direct :: "addr_type \<Rightarrow> bit_area option" where
  "bon_direct a = (case a of ADDR_Y \<Rightarrow> Some Y_ELEMENT | ADDR_M \<Rightarrow> Some M_ELEMENT | ADDR_S \<Rightarrow> Some S_ELEMENT | _ \<Rightarrow> None)"

definition bon_indexed :: "addr_type \<Rightarrow> bit_area option" where
  "bon_indexed a = (case a of ADDR_YZ \<Rightarrow> Some Y_ELEMENT | ADDR_MZ \<Rightarrow> Some M_ELEMENT | ADDR_SZ \<Rightarrow> Some S_ELEMENT | _ \<Rightarrow> None)"

definition run_ci_bon_ins :: "plc_state \<Rightarrow> si_env \<Rightarrow> ci_res" where
  "run_ci_bon_ins s e =
     read_word s e 2 (\<lambda>w.
       do { p \<leftarrow> resolve bon_direct bon_indexed s (mcp_PC e + 6) 0;
            case p of
              Some (a, i) \<Rightarrow>
                read_word s e 10 (\<lambda>k. bit_index s e k (\<lambda>k.
                  do { s' \<leftarrow> set_bit_elem a s i (ucast (drop_bit k w AND 1)); ci_ok s' e }))
            | None \<Rightarrow> ci_err ERR_ELEMENT_TYPE s e })"

section \<open>Operands in D elements\<close>

text \<open>An operand of type \<open>ADDR_D\<close> with element number \<open>i\<close>, and a constant or D operand of 16 bits.\<close>

definition d_operand :: "u8 list \<Rightarrow> nat \<Rightarrow> u16 \<Rightarrow> bool" where
  "d_operand m a i \<longleftrightarrow> GET_PU8_DATA m (a + 1) = Some 0x11 \<and> GET_PU16_DATA m (a + 2) = Some i"

lemma addr_of_D: "addr_of 0x11 = Some ADDR_D"
  using addr_of_code [of ADDR_D] by simp

lemma d_operand_resolve:
  assumes "d_operand (ucode s) a i"
  shows "resolve d x s a off = (case d ADDR_D of Some b \<Rightarrow> Some (Some (b, i + off))
      | None \<Rightarrow> (case x ADDR_D of Some b \<Rightarrow> do { j \<leftarrow> z_index s a off; Some (Some (b, j)) } | None \<Rightarrow> Some None))"
    "dk ADDR_D = None \<Longrightarrow> xk ADDR_D = None \<Longrightarrow> resolve_kn dk dl xk xl s a = Some None"
  using assms by (auto simp: d_operand_def resolve_def resolve_kn_def addr_of_D direct_index_def split: option.splits)

lemma get_word_D:
  assumes "d_operand (ucode s) a i"
  shows "get_word s a off cnt = get_run (get_word_elem D_AREA) (word_elem_rang D_AREA s) s (i + off) (unat cnt)"
proof -
  have "GET_PU8_DATA (ucode s) (a + 1) = Some 0x11"
    using assms by (simp add: d_operand_def)
  then show ?thesis
    by (simp add: d_operand_resolve [OF assms] get_word_def addr_of_D get_word_kn_def get_word_kn_indexed_def get_word_direct_def)
qed

lemma save_word_D:
  assumes "d_operand (ucode s) a i"
  shows "save_word s a vs off cnt =
    do { (r, s') \<leftarrow> save_run (set_word_elem D_AREA) (word_elem_rang D_AREA s) s (i + off) (unat cnt) vs; Some (r, s', vs) }"
  by (simp add: d_operand_resolve [OF assms] save_word_def save_word_kn_def save_word_kn_indexed_def save_word_direct_def)

lemma read_word_D:
  assumes "d_operand (ucode s) (mcp_PC e + k) i" and "i < word_elem_rang D_AREA s" and "get_word_elem D_AREA s i = Some w"
  shows "read_word s e k f = f w"
  using assms get_word_D [OF assms(1), of 0 1] by (simp add: read_word_at_def rd_def)

lemma read_word_const: "const_word (ucode s) (mcp_PC e + k) d \<Longrightarrow> read_word s e k f = f d"
  using get_word_constant [of s "mcp_PC e + k" d 0 1] by (simp add: read_word_at_def rd_def)

lemma write_word_D:
  assumes "d_operand (ucode s) (mcp_PC e + k) i" and "i < word_elem_rang D_AREA s" and "get_word_elem D_AREA s i = Some w"
  shows "\<exists>s'. write_word s e k v = Some (pdPASS, s', e) \<and> set_word_elem D_AREA s i v = Some s' \<and> elements_only s s' \<and>
    get_word_elem D_AREA s' i = Some v \<and> (\<forall>j. j \<noteq> i \<longrightarrow> get_word_elem D_AREA s' j = get_word_elem D_AREA s j)"
proof -
  obtain s' where s': "set_word_elem D_AREA s i v = Some s'"
    using assms(3) by (auto simp: set_word_elem_def get_word_elem_def opt_simps mem_simps)
  have "elements_only s s'"
    using s' by (auto simp: set_word_elem_def opt_simps)
  then show ?thesis
    using s' assms(1,2) save_word_D [OF assms(1), of "[v]" 0 1] words.get_put_same [OF s'] words.get_put_other [OF s']
    by (auto simp: write_word_at_def)
qed

section \<open>Coils on a bit of a word over scans\<close>

text \<open>Scans of one coil instruction with the given power flows.\<close>

fun coil_scans :: "(plc_state \<Rightarrow> si_env \<Rightarrow> ci_res) \<Rightarrow> plc_state \<Rightarrow> si_env \<Rightarrow> bool list \<Rightarrow> plc_state option" where
  "coil_scans run s e [] = Some s"
| "coil_scans run s e (b # bs) =
     do { (r, s', _) \<leftarrow> run s (e\<lparr>mlv_InPF := put_flow b (mlv_InPF e)\<rparr>); if r = pdPASS then coil_scans run s' e bs else None }"

definition d_bit :: "plc_state \<Rightarrow> u16 \<Rightarrow> nat \<Rightarrow> bool option" where
  "d_bit s i k = map_option (\<lambda>w. bit w k) (get_word_elem D_AREA s i)"

lemma wr_word_bit:
  assumes "d_operand (ucode s) (mcp_PC e + 2) i" and "i < word_elem_rang D_AREA s" and "d_bit s i k = Some b" and "k < 16"
    and ix: "\<And>f. ix s e f = f k"
  shows "\<exists>s'. bit_coil ix v s e = Some (pdPASS, s', e) \<and> elements_only s s' \<and>
    (\<forall>j l. d_bit s' j l = (if j = i \<and> l = k then Some v else d_bit s j l))"
proof -
  obtain w where w: "get_word_elem D_AREA s i = Some w"
    using assms(3) by (auto simp: d_bit_def)
  obtain s' where s': "write_word s e 2 (bit_write w k (if v then 1 else 0)) = Some (pdPASS, s', e)" "elements_only s s'"
    "get_word_elem D_AREA s' i = Some (bit_write w k (if v then 1 else 0))"
    "\<forall>j. j \<noteq> i \<longrightarrow> get_word_elem D_AREA s' j = get_word_elem D_AREA s j"
    using write_word_D [OF assms(1,2) w] by blast
  have "bit_coil ix v s e = Some (pdPASS, s', e)"
    using s'(1) by (simp add: bit_coil_def bit_operand_def read_word_D [OF assms(1,2) w] ix)
  moreover have "d_bit s' j l = (if j = i \<and> l = k then Some v else d_bit s j l)" for j l
    using s'(3,4) w by (cases "j = i") (auto simp: d_bit_def bit_bit_write [OF assms(4)])
  ultimately show ?thesis
    using s'(2) by blast
qed

lemma index_readers:
  assumes "k < 16"
  shows "const_word (ucode s) (mcp_PC e + 6) (of_nat k) \<Longrightarrow> read_index s e f = f k"
    "GET_PU16_DATA (ucode s) (mcp_PC e + 6) = Some (of_nat k) \<Longrightarrow> imm_index s e f = f k"
proof -
  have "sint (of_nat k :: u16) = int k"
    using assms by (simp add: signed_of_nat signed_take_bit_int_eq_self)
  then have "bit_index s e (of_nat k) f = f k"
    using assms by (simp add: bit_index_def)
  then show "const_word (ucode s) (mcp_PC e + 6) (of_nat k) \<Longrightarrow> read_index s e f = f k"
    "GET_PU16_DATA (ucode s) (mcp_PC e + 6) = Some (of_nat k) \<Longrightarrow> imm_index s e f = f k"
    by (simp_all add: read_index_def read_word_const imm_index_def)
qed

lemma const_word_imm: "const_word m a d \<Longrightarrow> GET_PU16_DATA m (a + 2) = Some d"
  by (simp add: const_word_def)

text \<open>A coil instruction whose result depends on the flow and the old value of its bit only.\<close>

locale word_coil =
  fixes run :: "plc_state \<Rightarrow> si_env \<Rightarrow> ci_res" and step :: "bool \<Rightarrow> bool \<Rightarrow> bool" and at :: "u8 list \<Rightarrow> nat \<Rightarrow> bool"
    and i :: u16 and k :: nat
  assumes scan: "at (ucode s) (mcp_PC e) \<Longrightarrow> i < word_elem_rang D_AREA s \<Longrightarrow> d_bit s i k = Some b \<Longrightarrow>
    \<exists>s'. run s e = Some (pdPASS, s', e) \<and> elements_only s s' \<and>
      (\<forall>j l. d_bit s' j l = (if j = i \<and> l = k then Some (step b (GET_POWER_FLOW (mlv_InPF e))) else d_bit s j l))"
begin

lemma scans:
  assumes "at (ucode s) (mcp_PC e)" and "i < word_elem_rang D_AREA s" and "d_bit s i k = Some b"
  shows "\<exists>s'. coil_scans run s e fs = Some s' \<and> elements_only s s' \<and>
    (\<forall>j l. d_bit s' j l = (if j = i \<and> l = k then Some (foldl step b fs) else d_bit s j l))"
  using assms
proof (induction fs arbitrary: s b)
  case Nil
  then show ?case
    by auto
next
  case (Cons f fs)
  let ?e = "e\<lparr>mlv_InPF := put_flow f (mlv_InPF e)\<rparr>"
  obtain s1 where s1: "run s ?e = Some (pdPASS, s1, ?e)" "elements_only s s1"
    "\<forall>j l. d_bit s1 j l = (if j = i \<and> l = k then Some (step b f) else d_bit s j l)"
    using scan [of s ?e b] Cons.prems by auto
  have "at (ucode s1) (mcp_PC e)" "i < word_elem_rang D_AREA s1" "d_bit s1 i k = Some (step b f)"
    using Cons.prems s1(3) by (simp_all add: elements_only_eq [OF s1(2)])
  then obtain s' where "coil_scans run s1 e fs = Some s'" "elements_only s1 s'"
    "\<forall>j l. d_bit s' j l = (if j = i \<and> l = k then Some (foldl step (step b f) fs) else d_bit s1 j l)"
    using Cons.IH by blast
  then show ?case
    using s1 elements_only_trans [OF s1(2)] by auto
qed

end

definition coil_ins :: "u16 \<Rightarrow> nat \<Rightarrow> u8 list \<Rightarrow> nat \<Rightarrow> bool" where
  "coil_ins i k m pc \<longleftrightarrow> k < 16 \<and> d_operand m (pc + 2) i \<and> GET_PU16_DATA m (pc + 6) = Some (of_nat k)"

definition bcoil_ins :: "u16 \<Rightarrow> nat \<Rightarrow> u8 list \<Rightarrow> nat \<Rightarrow> bool" where
  "bcoil_ins i k m pc \<longleftrightarrow> k < 16 \<and> d_operand m (pc + 2) i \<and> const_word m (pc + 6) (of_nat k)"

interpretation out_dx_y: word_coil run_ci_out_dx_y_ins "\<lambda>b f. f" "coil_ins i k" i k for i k
proof (unfold_locales, goal_cases)
  case (1 s e b)
  then show ?case
    using wr_word_bit [of s e i k b imm_index "GET_POWER_FLOW (mlv_InPF e)"] index_readers(2) [of k s e]
    by (simp add: coil_ins_def run_ci_out_dx_y_ins_def)
qed

interpretation bout: word_coil run_ci_bout_ins "\<lambda>b f. b \<or> f" "bcoil_ins i k" i k for i k
proof (unfold_locales, goal_cases)
  case (1 s e b)
  then show ?case
    using wr_word_bit [of s e i k b read_index True] index_readers(1) [of k s e]
    by (auto simp: bcoil_ins_def run_ci_bout_ins_def when_flow_def ci_ok_def)
qed

lemma foldl_last: "foldl (\<lambda>b f. f) b fs = last (b # fs)"
  by (induction fs arbitrary: b) auto

lemma foldl_or: "foldl (\<or>) b fs \<longleftrightarrow> b \<or> True \<in> set fs"
  by (induction fs arbitrary: b) auto

section \<open>Properties\<close>

text \<open>C32. The coil OUT on a bit of a D element is a coil: after any sequence of scans the bit is the power flow
  of the last scan, and no other bit of any D element has changed.\<close>
theorem out_dx_y_follows_flow:
  assumes "coil_ins i k (ucode s) (mcp_PC e)" and "i < word_elem_rang D_AREA s" and "d_bit s i k = Some b"
  shows "\<exists>s'. coil_scans run_ci_out_dx_y_ins s e fs = Some s' \<and> elements_only s s' \<and>
    (\<forall>j l. d_bit s' j l = (if j = i \<and> l = k then Some (last (b # fs)) else d_bit s j l))"
  using out_dx_y.scans [OF assms, of fs] unfolding foldl_last .

lemma boot_d_bit: "i < 8000 \<Longrightarrow> d_bit (boot_state m) i k = Some False"
  by (simp add: d_bit_def get_word_elem_def mem_simps word_less_nat_alt)

theorem out_dx_y_follows_flow_witness:
  "\<exists>s'. coil_scans run_ci_out_dx_y_ins (boot_state [0, 0, 0, 0x11, 7, 0, 3, 0]) env0 [True, False, True] = Some s' \<and> d_bit s' 7 3 = Some True"
proof -
  have "coil_ins 7 3 (ucode (boot_state [0, 0, 0, 0x11, 7, 0, 3, 0])) (mcp_PC env0)"
    by (simp add: coil_ins_def d_operand_def) code_simp
  then show ?thesis
    using out_dx_y_follows_flow [of 7 3 "boot_state [0, 0, 0, 0x11, 7, 0, 3, 0]" env0 False "[True, False, True]"] boot_d_bit [of 7 _ 3]
    by auto
qed

text \<open>C33. The coil BOUT never clears its bit, although it is meant to write the power flow: it returns before the
  test of the flow when the flow is off, so after any sequence of scans the bit is on if it was on before or
  the flow was on in any scan.\<close>
theorem bout_never_clears:
  assumes "bcoil_ins i k (ucode s) (mcp_PC e)" and "i < word_elem_rang D_AREA s" and "d_bit s i k = Some b"
  shows "\<exists>s'. coil_scans run_ci_bout_ins s e fs = Some s' \<and> elements_only s s' \<and>
    (\<forall>j l. d_bit s' j l = (if j = i \<and> l = k then Some (b \<or> True \<in> set fs) else d_bit s j l))"
  using bout.scans [OF assms, of fs] unfolding foldl_or .

abbreviation bout_code :: "u8 list" where
  "bout_code \<equiv> [0, 0, 0, 0x11, 7, 0, 0, 0xFF, 3, 0]"

lemma bout_code_ok: "bcoil_ins 7 3 bout_code 0"
proof -
  have "GET_PU8_DATA bout_code 3 = Some 0x11" "GET_PU16_DATA bout_code 4 = Some 7" "GET_PU8_DATA bout_code 7 = Some 0xFF"
    "GET_PU8_DATA bout_code 6 = Some 0" "GET_PU16_DATA bout_code 8 = Some 3"
    by code_simp+
  then show ?thesis
    by (auto simp: bcoil_ins_def d_operand_def const_word_def eval_nat_numeral intro!: exI [of _ "0 :: u8"])
qed

theorem bout_never_clears_witness:
  "\<exists>s'. coil_scans run_ci_bout_ins (boot_state bout_code) env0 [True, False, False] = Some s' \<and> d_bit s' 7 3 = Some True"
  using bout_never_clears [of 7 3 "boot_state bout_code" env0 False "[True, False, False]"] boot_d_bit [of 7 _ 3] bout_code_ok
  by auto

end
