(* ===== verification/PLC_FlowCtrl.thy ===== *)
theory PLC_FlowCtrl
  imports PLC_BitIns
begin

text \<open>
  Flow control, \<open>source/plc/executer/src/plc_flowctrlins.c\<close>: FOR-NEXT loops, jumps, the conditional and
  unconditional ends of programs, subroutine calls with their parameters, master-control blocks and step
  sequences (SFC).  An instruction here moves the program counter itself; \<open>run_ci_call_ins\<close> takes the function
  that runs a program, \<open>plc_run_user_program\<close>, as an argument, since the two call each other.
  Program addresses are offsets, so a jump to before the program has no value.
\<close>

section \<open>FOR-NEXT\<close>

definition get_for :: "plc_state \<Rightarrow> plc_for_next_ins_st option" where
  "get_for s = rd (gtp_ForNextIns s) (unat (nested s))"

definition put_for :: "plc_state \<Rightarrow> plc_for_next_ins_st \<Rightarrow> plc_state option" where
  "put_for s f = do { l \<leftarrow> wr (gtp_ForNextIns s) (unat (nested s)) f; Some (s\<lparr>gtp_ForNextIns := l\<rparr>) }"

text \<open>The program counter after an instruction.\<close>

definition at_pc :: "nat \<Rightarrow> si_env \<Rightarrow> si_env" where
  "at_pc pc e = e\<lparr>mcp_PC := pc\<rparr>"

definition run_ci_for_ins :: "plc_state \<Rightarrow> si_env \<Rightarrow> ci_res" where
  "run_ci_for_ins s e =
     do { (r, ws) \<leftarrow> get_word s (mcp_PC e + 2) 0 1;
          if r \<noteq> pdPASS then ci_err r s (at_pc (mcp_PC e + 10) e)
          else do {
            c \<leftarrow> rd ws 0;
            lo \<leftarrow> GET_PU16_DATA (ucode s) (mcp_PC e + 6);
            hi \<leftarrow> GET_PU16_DATA (ucode s) (mcp_PC e + 8);
            f \<leftarrow> get_for s;
            let n = unat (msv_NestedNum f); next = mcp_PC e + unat (words_u32 lo hi) in do {
            st \<leftarrow> wr (msp_StartUcodeAddr f) n (mcp_PC e);
            en \<leftarrow> wr (msp_EndUcodeAddr f) n next;
            if GET_POWER_FLOW (mlv_InPF e) \<and> 0 < c then
              do { lc \<leftarrow> wr (msa_LoopCnt f) n c;
                   s' \<leftarrow> put_for s (f\<lparr>msp_StartUcodeAddr := st, msp_EndUcodeAddr := en, msa_LoopCnt := lc,
                     msv_NestedNum := msv_NestedNum f + 1\<rparr>);
                   ci_ok s' (at_pc (mcp_PC e + 10) e) }
            else
              do { s' \<leftarrow> put_for s (f\<lparr>msp_StartUcodeAddr := st, msp_EndUcodeAddr := en\<rparr>); ci_ok s' (at_pc next e) } } } }"

text \<open>The cases 1 and \<open>default\<close> of the switch over the count of the innermost loop, which the code has twice:
  leave the loop, or go back to its first instruction.\<close>

definition next_top :: "plc_for_next_ins_st \<Rightarrow> nat \<Rightarrow> (plc_for_next_ins_st \<times> nat) option" where
  "next_top f pc =
     (let k = unat (msv_NestedNum f) - 1 in
      do { c \<leftarrow> rd (msa_LoopCnt f) k;
           if c = 1 then
             do { lc \<leftarrow> wr (msa_LoopCnt f) k 0; Some (f\<lparr>msa_LoopCnt := lc\<rparr>, pc + 2) }
           else
             do { lc \<leftarrow> wr (msa_LoopCnt f) k (c - 1); st \<leftarrow> rd (msp_StartUcodeAddr f) k;
                  Some (f\<lparr>msa_LoopCnt := lc\<rparr>, st + 10) } })"

definition run_ci_next_ins :: "plc_state \<Rightarrow> si_env \<Rightarrow> ci_res" where
  "run_ci_next_ins s e =
     do { f \<leftarrow> get_for s;
          if 0 < msv_NestedNum f then
            do { c \<leftarrow> rd (msa_LoopCnt f) (unat (msv_NestedNum f) - 1);
                 (f', pc) \<leftarrow>
                   (if c = 0 then
                      let f1 = f\<lparr>msv_NestedNum := msv_NestedNum f - 1\<rparr> in
                      if msv_NestedNum f1 \<noteq> 0 then next_top f1 (mcp_PC e) else Some (f1, mcp_PC e + 2)
                    else next_top f (mcp_PC e));
                 s' \<leftarrow> put_for s f';
                 ci_ok s' (at_pc pc e) }
          else ci_ok s (at_pc (mcp_PC e + 2) e) }"

text \<open>CONTINUE and BREAK are empty; they do not even move the program counter.\<close>

definition run_ci_continue_ins :: "plc_state \<Rightarrow> si_env \<Rightarrow> ci_res" where
  "run_ci_continue_ins s e = ci_ok s e"

definition run_ci_break_ins :: "plc_state \<Rightarrow> si_env \<Rightarrow> ci_res" where
  "run_ci_break_ins s e = ci_ok s e"

section \<open>Jumps and ends\<close>

definition run_ci_lbl_ins :: "plc_state \<Rightarrow> si_env \<Rightarrow> ci_res" where
  "run_ci_lbl_ins s e = ci_ok s e"

text \<open>\<open>mcp_PC += GET_PS32_DATA(mcp_PC + 6)\<close>\<close>

definition jump_by :: "nat \<Rightarrow> u32 \<Rightarrow> nat option" where
  "jump_by pc d = (let t = int pc + sint d in if 0 \<le> t then Some (nat t) else None)"

text \<open>The loop over the open FOR-NEXT blocks, from the innermost one outwards: a block that contains the jump
  but not its destination is left.\<close>

fun cj_leave :: "plc_for_next_ins_st \<Rightarrow> nat \<Rightarrow> nat \<Rightarrow> nat \<Rightarrow> plc_for_next_ins_st option" where
  "cj_leave f from to 0 = Some f"
| "cj_leave f from to (Suc i) =
     do { st \<leftarrow> rd (msp_StartUcodeAddr f) i;
          en \<leftarrow> rd (msp_EndUcodeAddr f) i;
          if st < from \<and> from < en \<and> (to < st \<or> en < to)
          then cj_leave (f\<lparr>msv_NestedNum := msv_NestedNum f - 1\<rparr>) from to i
          else Some f }"

definition run_ci_cj_ins :: "plc_state \<Rightarrow> si_env \<Rightarrow> ci_res" where
  "run_ci_cj_ins s e =
     (if \<not> GET_POWER_FLOW (mlv_InPF e) then ci_ok s (at_pc (mcp_PC e + 10) e)
      else do {
        d \<leftarrow> GET_PU32_DATA (ucode s) (mcp_PC e + 6);
        to \<leftarrow> jump_by (mcp_PC e) d;
        f \<leftarrow> get_for s;
        f' \<leftarrow> cj_leave f (mcp_PC e) to (unat (msv_NestedNum f));
        s' \<leftarrow> put_for s f';
        ci_ok s' (at_pc to e) })"

definition run_ci_fend_ins :: "plc_state \<Rightarrow> si_env \<Rightarrow> ci_res" where
  "run_ci_fend_ins s e = ci_err EXEC_FLAG_FEND s e"

definition run_ci_cfend_ins :: "plc_state \<Rightarrow> si_env \<Rightarrow> ci_res" where
  "run_ci_cfend_ins s e = (if GET_POWER_FLOW (mlv_InPF e) then ci_err EXEC_FLAG_FEND s e else ci_ok s e)"

text \<open>Restarting the scan-time watchdog; the hardware watchdog that is fed as well is outside the model.\<close>

definition run_ci_wdt_ins :: "plc_state \<Rightarrow> si_env \<Rightarrow> ci_res" where
  "run_ci_wdt_ins s e =
     when_flow s e (ci_ok (s\<lparr>gtv_PlcRunStatus := (gtv_PlcRunStatus s)\<lparr>mlv_WatchDogTime := GET_1MS_TICKS_COUNT s\<rparr>\<rparr>) e)"

definition plc_user_interrupt_enable :: "u8 \<Rightarrow> plc_state \<Rightarrow> plc_state" where
  "plc_user_interrupt_enable v s = s\<lparr>gtp_InterruptInfo := (gtp_InterruptInfo s)\<lparr>mcv_IntEnable := v\<rparr>\<rparr>"

definition run_ci_ei_ins :: "plc_state \<Rightarrow> si_env \<Rightarrow> ci_res" where
  "run_ci_ei_ins s e = when_flow s e (ci_ok (plc_user_interrupt_enable 1 s) e)"

definition run_ci_di_ins :: "plc_state \<Rightarrow> si_env \<Rightarrow> ci_res" where
  "run_ci_di_ins s e = when_flow s e (ci_ok (plc_user_interrupt_enable 0 s) e)"

definition run_ci_iret_ins :: "plc_state \<Rightarrow> si_env \<Rightarrow> ci_res" where
  "run_ci_iret_ins s e = ci_err EXEC_FLAG_IRET s e"

definition run_ci_ciret_ins :: "plc_state \<Rightarrow> si_env \<Rightarrow> ci_res" where
  "run_ci_ciret_ins s e = (if GET_POWER_FLOW (mlv_InPF e) then ci_err EXEC_FLAG_IRET s e else ci_ok s e)"

definition run_ci_stop_ins :: "plc_state \<Rightarrow> si_env \<Rightarrow> ci_res" where
  "run_ci_stop_ins s e = when_flow s e (ci_err EXEC_FLAG_STOP (run_stop_flag cmd_stop s) e)"

definition run_ci_csret_ins :: "plc_state \<Rightarrow> si_env \<Rightarrow> ci_res" where
  "run_ci_csret_ins s e =
     (if GET_POWER_FLOW (mlv_InPF e) then ci_err EXEC_FLAG_SRET s e else ci_ok s (at_pc (mcp_PC e + 2) e))"

definition run_ci_sret_ins :: "plc_state \<Rightarrow> si_env \<Rightarrow> ci_res" where
  "run_ci_sret_ins s e = ci_err EXEC_FLAG_SRET s e"

definition run_ci_sbr_ins :: "plc_state \<Rightarrow> si_env \<Rightarrow> ci_res" where
  "run_ci_sbr_ins s e = ci_ok s e"

section \<open>Clearing the outputs of a block that is left\<close>

definition rst_edge :: "plc_state \<Rightarrow> nat \<Rightarrow> plc_state option" where
  "rst_edge s a = do { n \<leftarrow> GET_PU16_DATA (ucode s) a; s1 \<leftarrow> PUT_EDGE_VALUE s n False; RST_EDGE_INIT_FLAG s1 n }"

text \<open>A simple instruction: its edge memory, and with \<open>outs\<close> (steps and master-control blocks) its coil.\<close>

definition clean_simple :: "bool \<Rightarrow> plc_state \<Rightarrow> nat \<Rightarrow> plc_state option" where
  "clean_simple outs s pc =
     do { c \<leftarrow> GET_PU8_DATA (ucode s) (pc + 1);
          if c = 0x77 then (if outs then do { i \<leftarrow> si_near s pc; set_lm_elem (ucast (nested s)) s i 0 } else Some s)
          else case decode_si c of
            Some (SI_OUT x) \<Rightarrow> if outs then si_write s pc x 0 else Some s
          | Some SI_EU \<Rightarrow> rst_edge s (pc + 2)
          | Some SI_ED \<Rightarrow> rst_edge s (pc + 2)
          | Some op \<Rightarrow> if op \<in> {SI_LDP, SI_LDF, SI_ANDP, SI_ANDF, SI_ORP, SI_ORF, SI_PLP, SI_PLF} then rst_edge s (pc + 4) else Some s
          | None \<Rightarrow> Some s }"

fun clean_simples :: "bool \<Rightarrow> plc_state \<Rightarrow> nat list \<Rightarrow> plc_state option" where
  "clean_simples outs s [] = Some s"
| "clean_simples outs s (pc # pcs) = do { s' \<leftarrow> clean_simple outs s pc; clean_simples outs s' pcs }"

text \<open>The number of a CALL instruction: its place in the table of CALL addresses.\<close>

function find_call :: "plc_call_ins_info_st \<Rightarrow> nat \<Rightarrow> nat \<Rightarrow> nat option option" where
  "find_call c pc i =
     (if i < unat (msv_UseNum c) then
        do { a \<leftarrow> rd (mlv_UCodeAddr c) i; if a = pc then Some (Some i) else find_call c pc (Suc i) }
      else Some None)"
  by auto
termination
  by (relation "measure (\<lambda>(c, pc, i). unat (msv_UseNum c) - i)") auto

declare find_call.simps [simp del]

definition plc_get_call_ins_id :: "plc_state \<Rightarrow> nat \<Rightarrow> (plc_ret + nat) option" where
  "plc_get_call_ins_id s pc =
     do { r \<leftarrow> find_call (gtp_CallInsInfoPtr s) pc 0;
          Some (case r of Some i \<Rightarrow> Inr i | None \<Rightarrow> Inl ERR_NO_DEFINE_SBR_INTR) }"

definition set_exec :: "nat \<Rightarrow> u8 \<Rightarrow> plc_state \<Rightarrow> plc_state option" where
  "set_exec i v s =
     do { l \<leftarrow> wr (mcv_IsExec (gtp_CallInsInfoPtr s)) i v;
          Some (s\<lparr>gtp_CallInsInfoPtr := (gtp_CallInsInfoPtr s)\<lparr>mcv_IsExec := l\<rparr>\<rparr>) }"

definition set_nested :: "u32 \<Rightarrow> plc_state \<Rightarrow> plc_state" where
  "set_nested n s = s\<lparr>gtp_CallInsInfoPtr := (gtp_CallInsInfoPtr s)\<lparr>msv_SbrNestedNum := n\<rparr>\<rparr>"

type_synonym sbr_cleaner = "plc_state \<Rightarrow> u16 \<Rightarrow> (plc_ret \<times> plc_state) option"

text \<open>A CALL inside the block: the subroutine it called is cleared one call layer further down.\<close>

definition clean_call :: "sbr_cleaner \<Rightarrow> plc_state \<Rightarrow> nat \<Rightarrow> (plc_ret \<times> plc_state) option" where
  "clean_call sbr s pc =
     do { w \<leftarrow> GET_PU16_DATA (ucode s) (pc + 2);
          q \<leftarrow> plc_get_call_ins_id s pc;
          case q of
            Inl r \<Rightarrow> Some (r, s)
          | Inr i \<Rightarrow>
              if MAX_SBR_NESTED_LAYER \<le> unat (nested s) then Some (ERR_OVER_SBR_STACK, s)
              else do {
                x \<leftarrow> rd (mcv_IsExec (gtp_CallInsInfoPtr s)) i;
                if x \<noteq> 0 then
                  do { s1 \<leftarrow> set_exec i 0 s;
                       (r, s2) \<leftarrow> sbr (set_nested (nested s1 + 1) s1) (w AND 0xFF);
                       Some (r, set_nested (nested s2 - 1) s2) }
                else Some (pdPASS, s) } }"

definition clean_complex :: "sbr_cleaner \<Rightarrow> plc_state \<Rightarrow> nat \<Rightarrow> (plc_ret \<times> plc_state) option" where
  "clean_complex sbr s pc =
     do { w \<leftarrow> GET_PU16_DATA (ucode s) pc;
          if w = CI_TON \<or> w = CI_TOF then
            do { n \<leftarrow> GET_PU16_DATA (ucode s) (pc + 4); s' \<leftarrow> plc_reset_one_timer s n; Some (pdPASS, s') }
          else if w = CI_TONR then
            do { n \<leftarrow> GET_PU16_DATA (ucode s) (pc + 4); v \<leftarrow> get_timer s n;
                 s' \<leftarrow> put_timer s n (timer_enable False v); Some (pdPASS, s') }
          else if w = CI_OUT_LM then
            do { n \<leftarrow> GET_PU16_DATA (ucode s) (pc + 4); s' \<leftarrow> set_lm_elem (ucast (nested s)) s n 0; Some (pdPASS, s') }
          else if w = CI_BOUT then
            do { (_, s', _) \<leftarrow> run_ci_bout_ins s \<lparr>mlv_InPF = 0, mlv_OutPF = 0, mcp_PC = pc\<rparr>; Some (pdPASS, s') }
          else if w = CI_CALL then clean_call sbr s pc
          else Some (pdPASS, s) }"

fun clean_complexes :: "sbr_cleaner \<Rightarrow> plc_state \<Rightarrow> nat list \<Rightarrow> (plc_ret \<times> plc_state) option" where
  "clean_complexes sbr s [] = Some (pdPASS, s)"
| "clean_complexes sbr s (pc # pcs) =
     do { (r, s') \<leftarrow> clean_complex sbr s pc; if r = pdPASS then clean_complexes sbr s' pcs else Some (r, s') }"

text \<open>The body of \<open>plc_call_ins_clean_element\<close> over its recursive call, and the recursion itself, which is
  bounded by the number of call layers that are left.\<close>

definition call_clean_body :: "sbr_cleaner \<Rightarrow> sbr_cleaner" where
  "call_clean_body sbr s i =
     (if MAX_SBR_COUNT < unat i then Some (ERR_OVER_SBR_STACK, s)
      else do { h \<leftarrow> rd (gtp_SbrListPtr s) (unat i);
                s1 \<leftarrow> clean_simples False s (mtv_SimpInsHead h);
                clean_complexes sbr s1 (mtv_CompInsHead h) })"

primrec call_clean :: "nat \<Rightarrow> sbr_cleaner" where
  "call_clean 0 = call_clean_body (\<lambda>s i. None)"
| "call_clean (Suc d) = call_clean_body (call_clean d)"

definition plc_call_ins_clean_element :: sbr_cleaner where
  "plc_call_ins_clean_element s i = call_clean (MAX_SBR_NESTED_LAYER - unat (nested s)) s i"

section \<open>Master control\<close>

definition plc_mc_ins_clean_element :: "plc_state \<Rightarrow> si_env \<Rightarrow> (plc_ret \<times> plc_state) option" where
  "plc_mc_ins_clean_element s e =
     (case find (\<lambda>b. mcp_McUCodePc b = mcp_PC e) (mtv_McMcrHead (gtv_McMcrBlockInfo s)) of
        Some b \<Rightarrow>
          do { s1 \<leftarrow> clean_simples True s (mc_SimpInsHead b);
               clean_complexes plc_call_ins_clean_element s1 (mc_CompInsHead b) }
      | None \<Rightarrow> Some (pdPASS, s))"

definition run_ci_mc_ins :: "plc_state \<Rightarrow> si_env \<Rightarrow> ci_res" where
  "run_ci_mc_ins s e =
     do { n \<leftarrow> GET_PU16_DATA (ucode s) (mcp_PC e + 6);
          if GET_POWER_FLOW (mlv_InPF e) then
            do { s1 \<leftarrow> PUT_EDGE_VALUE s n True; ci_ok s1 (at_pc (mcp_PC e + 10) e) }
          else do {
            v \<leftarrow> GET_EDGE_VALUE s n;
            s1 \<leftarrow> PUT_EDGE_VALUE s n False;
            (r, s2) \<leftarrow> (if v then plc_mc_ins_clean_element s1 e else Some (pdPASS, s1));
            if r \<noteq> pdPASS then ci_err r s2 e
            else do { w \<leftarrow> GET_PU16_DATA (ucode s2) (mcp_PC e + 8); ci_ok s2 (at_pc (mcp_PC e + unat w) e) } } }"

definition run_ci_mcr_ins :: "plc_state \<Rightarrow> si_env \<Rightarrow> ci_res" where
  "run_ci_mcr_ins s e = ci_ok s (at_pc (mcp_PC e + 6) e)"

section \<open>Step sequences\<close>

definition set_sfc :: "(plc_sfc_run_status_info_st \<Rightarrow> plc_sfc_run_status_info_st) \<Rightarrow> plc_state \<Rightarrow> plc_state" where
  "set_sfc g s = s\<lparr>gtp_SfcStatus := g (gtp_SfcStatus s)\<rparr>"

definition put_stl :: "nat \<Rightarrow> u16 \<Rightarrow> u8 \<Rightarrow> plc_state \<Rightarrow> plc_state option" where
  "put_stl i n c s =
     do { l \<leftarrow> wr (msv_StlNum (gtp_SfcStatus s)) i n;
          Some (set_sfc (\<lambda>t. t\<lparr>msv_StlNum := l, mcv_SeriesSTLCnt := c\<rparr>) s) }"

text \<open>The loop over the STL instructions that follow the first one: the count is set to 2 whatever their number.\<close>

fun stl_series :: "plc_state \<Rightarrow> nat \<Rightarrow> nat \<Rightarrow> nat \<Rightarrow> plc_state option" where
  "stl_series s pc i 0 = Some s"
| "stl_series s pc i (Suc n) =
     do { w \<leftarrow> GET_PU16_DATA (ucode s) (pc + 10);
          if w = CI_STL then
            do { k \<leftarrow> GET_PU16_DATA (ucode s) (pc + 14); s' \<leftarrow> put_stl i k 2 s; stl_series s' (pc + 10) (Suc i) n }
          else Some s }"

definition plc_stl_bus_meet_analyse :: "plc_state \<Rightarrow> si_env \<Rightarrow> (bool \<times> plc_state) option" where
  "plc_stl_bus_meet_analyse s e =
     do { k \<leftarrow> GET_PU16_DATA (ucode s) (mcp_PC e + 4);
          s1 \<leftarrow> put_stl 0 k (mcv_SeriesSTLCnt (gtp_SfcStatus s)) s;
          w \<leftarrow> GET_PU16_DATA (ucode s) (mcp_PC e + 10);
          if w \<noteq> CI_STL then Some (False, set_sfc (\<lambda>t. t\<lparr>mcv_SeriesSTLCnt := 1\<rparr>) s1)
          else do { s2 \<leftarrow> stl_series s1 (mcp_PC e) 1 (MAX_SFC_SERIES_STL_NUM - 1); Some (True, s2) } }"

fun stl_all_on :: "plc_state \<Rightarrow> nat \<Rightarrow> nat \<Rightarrow> bool option" where
  "stl_all_on s i 0 = Some True"
| "stl_all_on s i (Suc n) =
     do { k \<leftarrow> rd (msv_StlNum (gtp_SfcStatus s)) i; v \<leftarrow> get_bit_elem S_ELEMENT s k;
          if v = 0 then Some False else stl_all_on s (Suc i) n }"

definition plc_stl_is_all_on :: "plc_state \<Rightarrow> bool option" where
  "plc_stl_is_all_on s = stl_all_on s 0 (unat (mcv_SeriesSTLCnt (gtp_SfcStatus s)))"

text \<open>The bound lets the number of S elements itself pass.\<close>

definition plc_stl_ins_clean_element :: "plc_state \<Rightarrow> nat \<Rightarrow> (plc_ret \<times> plc_state) option" where
  "plc_stl_ins_clean_element s k =
     (if unat (bit_elem_rang S_ELEMENT s) < k then Some (ERR_OVER_ELEMENT_RANG, s)
      else do { h \<leftarrow> rd (gtp_StlListPtr s) k;
                s1 \<leftarrow> clean_simples True s (mtv_SimpInsHead h);
                clean_complexes plc_call_ins_clean_element s1 (mtv_CompInsHead h) })"

text \<open>\<open>lcv_StlNum\<close> is an \<open>unsigned char\<close>: the step number is cut to eight bits where it is tested and cleared.\<close>

definition run_ci_stl_ins :: "plc_state \<Rightarrow> si_env \<Rightarrow> ci_res" where
  "run_ci_stl_ins s e =
     do { w \<leftarrow> GET_PU16_DATA (ucode s) (mcp_PC e + 4);
          let k = ucast (ucast w :: u8) :: u16; s0 = set_sfc (\<lambda>t. t\<lparr>mcv_SeriesSTLCnt := 0, mcv_sfcEnable := 1\<rparr>) s in do {
          (meet, s1) \<leftarrow> plc_stl_bus_meet_analyse s0 e;
          if \<not> meet then
            do { n \<leftarrow> GET_PU16_DATA (ucode s1) (mcp_PC e + 6);
                 b \<leftarrow> get_bit_elem S_ELEMENT s1 k;
                 if b \<noteq> 0 then
                   do { first \<leftarrow> GET_EDGE_INIT_FLAG s1 n;
                        s2 \<leftarrow> (if first then
                                 do { s2 \<leftarrow> RST_EDGE_INIT_FLAG s1 n;
                                      (_, s3) \<leftarrow> plc_stl_ins_clean_element s2 (unat k);
                                      Some s3 }
                               else Some s1);
                        s3 \<leftarrow> PUT_EDGE_VALUE s2 n True;
                        ci_ok s3 (at_pc (mcp_PC e + 10) (e\<lparr>mlv_InPF := SET_POWER_FLOW (mlv_InPF e)\<rparr>)) }
                 else
                   do { v \<leftarrow> GET_EDGE_VALUE s1 n;
                        s2 \<leftarrow> (if v then
                                 do { s2 \<leftarrow> PUT_EDGE_VALUE s1 n False;
                                      (_, s3) \<leftarrow> plc_stl_ins_clean_element s2 (unat k);
                                      Some s3 }
                               else Some s1);
                        d \<leftarrow> GET_PU16_DATA (ucode s2) (mcp_PC e + 8);
                        ci_ok s2 (at_pc (mcp_PC e + unat d) e) } }
          else
            do { on \<leftarrow> plc_stl_is_all_on s1;
                 let pc = mcp_PC e + 10 * unat (mcv_SeriesSTLCnt (gtp_SfcStatus s1)) in
                 if on then ci_ok s1 (at_pc pc (e\<lparr>mlv_InPF := SET_POWER_FLOW (mlv_InPF e)\<rparr>))
                 else do { d \<leftarrow> GET_PU16_DATA (ucode s1) (pc + 8); ci_ok s1 (at_pc (pc + unat d) e) } } } }"

text \<open>The loop that resets the steps of the current STL.\<close>

fun rst_steps :: "plc_state \<Rightarrow> nat \<Rightarrow> nat \<Rightarrow> plc_state option" where
  "rst_steps s i 0 = Some s"
| "rst_steps s i (Suc n) =
     do { k \<leftarrow> rd (msv_StlNum (gtp_SfcStatus s)) i; s' \<leftarrow> set_bit_elem S_ELEMENT s k 0; rst_steps s' (Suc i) n }"

definition leave_steps :: "plc_state \<Rightarrow> plc_state option" where
  "leave_steps s =
     (if mcv_sfcEnable (gtp_SfcStatus s) \<noteq> 0 then rst_steps s 0 (unat (mcv_SeriesSTLCnt (gtp_SfcStatus s))) else Some s)"

definition run_ci_set_s_ins :: "plc_state \<Rightarrow> si_env \<Rightarrow> ci_res" where
  "run_ci_set_s_ins s e =
     when_flow s e (do { n \<leftarrow> GET_PU16_DATA (ucode s) (mcp_PC e + 4); s1 \<leftarrow> leave_steps s;
                         s2 \<leftarrow> set_bit_elem S_ELEMENT s1 n 1; ci_ok s2 e })"

definition run_ci_out_s_ins :: "plc_state \<Rightarrow> si_env \<Rightarrow> ci_res" where
  "run_ci_out_s_ins s e =
     do { n \<leftarrow> GET_PU16_DATA (ucode s) (mcp_PC e + 4);
          if GET_POWER_FLOW (mlv_InPF e) then
            do { s1 \<leftarrow> leave_steps s; s2 \<leftarrow> set_bit_elem S_ELEMENT s1 n 1; ci_ok s2 e }
          else if mcv_sfcEnable (gtp_SfcStatus s) = 0 then
            do { s1 \<leftarrow> set_bit_elem S_ELEMENT s n 0; ci_ok s1 e }
          else ci_ok s e }"

definition run_ci_rst_s_ins :: "plc_state \<Rightarrow> si_env \<Rightarrow> ci_res" where
  "run_ci_rst_s_ins s e =
     when_flow s e (do { n \<leftarrow> GET_PU16_DATA (ucode s) (mcp_PC e + 4); s1 \<leftarrow> leave_steps s;
                         s2 \<leftarrow> set_bit_elem S_ELEMENT s1 n 0; ci_ok s2 e })"

definition run_ci_ret_ins :: "plc_state \<Rightarrow> si_env \<Rightarrow> ci_res" where
  "run_ci_ret_ins s e = ci_ok (set_sfc (\<lambda>t. t\<lparr>mcv_sfcEnable := 0\<rparr>) s) e"

section \<open>Subroutine calls\<close>

abbreviation (input) "PARA_BOOL \<equiv> (0x01 :: u16)"
abbreviation (input) "PARA_WORD \<equiv> (0x02 :: u16)"
abbreviation (input) "PARA_INT \<equiv> (0x04 :: u16)"
abbreviation (input) "PARA_DWORD \<equiv> (0x08 :: u16)"
abbreviation (input) "PARA_DINT \<equiv> (0x10 :: u16)"
abbreviation (input) "PARA_REAL \<equiv> (0x20 :: u16)"

definition plc_call_instruction_length :: "plc_state \<Rightarrow> nat \<Rightarrow> u16 option" where
  "plc_call_instruction_length s pc =
     do { a \<leftarrow> GET_PU16_DATA (ucode s) (pc + 4); b \<leftarrow> GET_PU16_DATA (ucode s) (pc + 6);
          c \<leftarrow> GET_PU16_DATA (ucode s) (pc + 8); Some (10 + a + b + c) }"

text \<open>The loop that clears the LM and V elements of the layer to be called; it runs to the number of LM elements
  for both.\<close>

fun clear_params :: "plc_state \<Rightarrow> nat \<Rightarrow> nat \<Rightarrow> plc_state option" where
  "clear_params s i 0 = Some s"
| "clear_params s i (Suc n) =
     do { s1 \<leftarrow> set_lm_elem (ucast (nested s + 1)) s (of_nat i) 0;
          s2 \<leftarrow> set_v_elem (nested s1 + 1) s1 (of_nat i) 0;
          clear_params s2 (Suc i) n }"

text \<open>A 32-bit value in two neighbouring V elements of the layer to be called.\<close>

definition put_v_pair :: "plc_state \<Rightarrow> u8 \<Rightarrow> u32 \<Rightarrow> plc_state option" where
  "put_v_pair s k v =
     do { s1 \<leftarrow> set_v_elem (nested s + 1) s (ucast k) (lo16 v); set_v_elem (nested s1 + 1) s1 (ucast k + 1) (hi16 v) }"

definition get_v_pair :: "plc_state \<Rightarrow> u8 \<Rightarrow> u32 option" where
  "get_v_pair s k =
     do { lo \<leftarrow> get_v_elem (nested s + 1) s (ucast k); hi \<leftarrow> get_v_elem (nested s + 1) s (ucast k + 1); Some (words_u32 lo hi) }"

text \<open>The state of the parameter loops: the position, the bytes of parameters done, the next LM and V element,
  and the local \<open>lcv_Temp\<close>, which has no value before the first bit parameter.\<close>

record para_st =
  lcp_ParaPtr :: nat
  lsv_TempCnt :: u16
  lcv_BitCnt :: u8
  lcv_WordCnt :: u8
  lcv_Temp :: "u8 option"

definition para_next :: "nat \<Rightarrow> u8 \<Rightarrow> u8 \<Rightarrow> para_st \<Rightarrow> para_st" where
  "para_next len bits words p =
     p\<lparr>lcp_ParaPtr := lcp_ParaPtr p + len, lsv_TempCnt := lsv_TempCnt p + of_nat len, lcv_BitCnt := lcv_BitCnt p + bits,
       lcv_WordCnt := lcv_WordCnt p + words\<rparr>"

text \<open>The V element itself is the destination of a read, which on a range error leaves the bits read so far.\<close>

definition put_read :: "('v \<Rightarrow> plc_state option) \<Rightarrow> plc_state \<Rightarrow> 'v list \<Rightarrow> plc_state option" where
  "put_read f s vs = (case vs of [] \<Rightarrow> Some s | v # _ \<Rightarrow> f v)"

text \<open>One IN or IN-OUT parameter.\<close>

definition in_param :: "plc_state \<Rightarrow> para_st \<Rightarrow> (plc_ret \<times> plc_state \<times> para_st) option" where
  "in_param s p =
     do { t \<leftarrow> GET_PU16_DATA (ucode s) (lcp_ParaPtr p);
          if t = PARA_BOOL then
            do { (r, cs) \<leftarrow> get_char s (lcp_ParaPtr p + 2) 0 1;
                 v \<leftarrow> (if r = pdPASS then rd cs 0 else lcv_Temp p);
                 s' \<leftarrow> set_lm_elem (ucast (nested s + 1)) s (ucast (lcv_BitCnt p)) v;
                 Some (r, s', (para_next 6 1 0 p)\<lparr>lcv_Temp := Some v\<rparr>) }
          else if t = PARA_WORD \<or> t = PARA_INT then
            do { (r, ws) \<leftarrow> get_word s (lcp_ParaPtr p + 2) 0 1;
                 s' \<leftarrow> put_read (set_v_elem (nested s + 1) s (ucast (lcv_WordCnt p))) s ws;
                 Some (r, s', para_next 6 0 1 p) }
          else if t = PARA_DWORD \<or> t = PARA_DINT then
            do { (r, ws) \<leftarrow> get_dword s (lcp_ParaPtr p + 2) 0 1;
                 s' \<leftarrow> put_read (put_v_pair s (lcv_WordCnt p)) s ws;
                 Some (r, s', para_next 8 0 2 p) }
          else if t = PARA_REAL then
            do { (r, ws) \<leftarrow> get_float s (lcp_ParaPtr p + 2) 0 1;
                 s' \<leftarrow> put_read (put_v_pair s (lcv_WordCnt p)) s ws;
                 Some (r, s', para_next 8 0 2 p) }
          else Some (ERR_OPERANDS, s, p) }"

lemma para_ucode:
  "set_lm_elem l s i v = Some s' \<Longrightarrow> ucode s' = ucode s" "set_v_elem n s i w = Some s' \<Longrightarrow> ucode s' = ucode s"
  "put_v_pair s k d = Some s' \<Longrightarrow> ucode s' = ucode s"
  by (auto simp: set_lm_elem_def set_v_elem_def put_v_pair_def opt_simps)

lemma put_read_ucode:
  "put_read (set_v_elem n s i) s ws = Some s' \<Longrightarrow> ucode s' = ucode s" "put_read (put_v_pair s k) s ds = Some s' \<Longrightarrow> ucode s' = ucode s"
  by (auto simp: put_read_def para_ucode split: list.split_asm)

lemma in_param_advances:
  assumes "in_param s p = Some (pdPASS, s', p')"
  shows "lcp_ParaPtr p < length (ucode s) \<and> lcp_ParaPtr p < lcp_ParaPtr p' \<and> ucode s' = ucode s"
  using assms para_ucode put_read_ucode
  by (auto simp: in_param_def opt_simps para_next_def GET_PU16_DATA_def split: if_splits)

text \<open>The loop over the parameters; \<open>out\<close> is what has been stored to \<open>*lcp_BitCnt\<close> and \<open>*lcp_WordCnt\<close>.\<close>

function in_params :: "u16 \<Rightarrow> u16 \<Rightarrow> plc_state \<Rightarrow> para_st \<Rightarrow> u8 \<times> u8 \<Rightarrow> (plc_ret \<times> plc_state \<times> u8 \<times> u8) option" where
  "in_params incnt cnt s p out =
     (if lsv_TempCnt p < cnt then
        (case in_param s p of
           None \<Rightarrow> None
         | Some (r, s', p') \<Rightarrow>
             let out' = (if lsv_TempCnt p' = incnt then (lcv_BitCnt p', lcv_WordCnt p') else out) in
             if r = pdPASS then in_params incnt cnt s' p' out' else Some (r, s', out'))
      else Some (pdPASS, s, out))"
  by auto
termination
  by (relation "measure (\<lambda>(incnt, cnt, s, p, out). length (ucode s) - lcp_ParaPtr p)") (auto dest!: in_param_advances)

declare in_params.simps [simp del]

definition plc_call_ins_in_parameter_parse :: "plc_state \<Rightarrow> nat \<Rightarrow> (plc_ret \<times> plc_state \<times> u8 \<times> u8) option" where
  "plc_call_ins_in_parameter_parse s pc =
     do { s1 \<leftarrow> clear_params s 0 (unat (lm_elem_rang s));
          a \<leftarrow> GET_PU16_DATA (ucode s1) (pc + 4);
          b \<leftarrow> GET_PU16_DATA (ucode s1) (pc + 6);
          in_params a (a + b) s1 \<lparr>lcp_ParaPtr = pc + 10, lsv_TempCnt = 0, lcv_BitCnt = 0, lcv_WordCnt = 0, lcv_Temp = None\<rparr> (0, 0) }"

text \<open>One OUT or IN-OUT parameter.  \<open>save_word\<close> and \<open>save_dword\<close> get the address of the V element itself and
  shift it out when the operand is a group of bits; an operand that overlaps its own source is not covered.\<close>

definition out_param :: "plc_state \<Rightarrow> para_st \<Rightarrow> (plc_ret \<times> plc_state \<times> para_st) option" where
  "out_param s p =
     (let a = lcp_ParaPtr p + 2; k = lcv_WordCnt p in
      do { t \<leftarrow> GET_PU16_DATA (ucode s) (lcp_ParaPtr p);
           if t = PARA_BOOL then
             do { v \<leftarrow> get_lm_elem (ucast (nested s + 1)) s (ucast (lcv_BitCnt p));
                  (r, s') \<leftarrow> save_char s a [v] 0 1;
                  Some (r, s', (para_next 6 1 0 p)\<lparr>lcv_Temp := Some v\<rparr>) }
           else if t = PARA_WORD \<or> t = PARA_INT then
             do { v \<leftarrow> get_v_elem (nested s + 1) s (ucast k);
                  (r, s1, vs) \<leftarrow> save_word s a [v] 0 1;
                  s2 \<leftarrow> set_v_elem (nested s1 + 1) s1 (ucast k) (hd vs);
                  Some (r, s2, para_next 6 0 1 p) }
           else if t = PARA_DWORD \<or> t = PARA_DINT then
             do { v \<leftarrow> get_v_pair s k;
                  (r, s1, vs) \<leftarrow> save_dword s a [v] 0 1;
                  s2 \<leftarrow> put_v_pair s1 k (hd vs);
                  Some (r, s2, para_next 8 0 2 p) }
           else if t = PARA_REAL then
             do { v \<leftarrow> get_v_pair s k; (r, s1) \<leftarrow> save_float s a [v] 0 1; Some (r, s1, para_next 8 0 2 p) }
           else Some (ERR_OPERANDS, s, p) })"

lemma out_param_advances:
  assumes "out_param s p = Some (pdPASS, s', p')"
  shows "lcp_ParaPtr p < length (ucode s) \<and> lcp_ParaPtr p < lcp_ParaPtr p' \<and> ucode s' = ucode s"
  using assms para_ucode write_only [THEN elements_only_eq(4)]
  by (auto simp: out_param_def Let_def opt_simps para_next_def GET_PU16_DATA_def split: if_splits)

function out_params :: "u16 \<Rightarrow> plc_state \<Rightarrow> para_st \<Rightarrow> (plc_ret \<times> plc_state) option" where
  "out_params cnt s p =
     (if lsv_TempCnt p < cnt then
        (case out_param s p of
           None \<Rightarrow> None
         | Some (r, s', p') \<Rightarrow> if r = pdPASS then out_params cnt s' p' else Some (r, s'))
      else Some (pdPASS, s))"
  by auto
termination
  by (relation "measure (\<lambda>(cnt, s, p). length (ucode s) - lcp_ParaPtr p)") (auto dest!: out_param_advances)

declare out_params.simps [simp del]

definition plc_call_ins_out_parameter_parse :: "plc_state \<Rightarrow> u8 \<Rightarrow> u8 \<Rightarrow> nat \<Rightarrow> (plc_ret \<times> plc_state) option" where
  "plc_call_ins_out_parameter_parse s bits words pc =
     do { a \<leftarrow> GET_PU16_DATA (ucode s) (pc + 4);
          b \<leftarrow> GET_PU16_DATA (ucode s) (pc + 6);
          c \<leftarrow> GET_PU16_DATA (ucode s) (pc + 8);
          out_params (b + c) s
            \<lparr>lcp_ParaPtr = pc + 10 + unat a, lsv_TempCnt = 0, lcv_BitCnt = bits, lcv_WordCnt = words, lcv_Temp = None\<rparr> }"

text \<open>\<open>run\<close> is \<open>plc_run_user_program\<close>.  When the subroutine ends other than by its return, neither the
  nesting depth nor the program counter is restored.\<close>

type_synonym program_runner = "plc_state \<Rightarrow> nat \<Rightarrow> (plc_ret \<times> plc_state) option"

definition call_flow :: "program_runner \<Rightarrow> plc_state \<Rightarrow> si_env \<Rightarrow> nat \<Rightarrow> u16 \<Rightarrow> si_env \<Rightarrow> ci_res" where
  "call_flow run s e i sbr after =
     do { s0 \<leftarrow> set_exec i 1 s;
          p \<leftarrow> rd (mcp_SbrPc (gtp_CallInsInfoPtr s0)) (unat sbr);
          spc \<leftarrow> p;
          w \<leftarrow> GET_PU16_DATA (ucode s0) spc;
          if w \<noteq> CI_SBR then ci_err ERR_NO_DEFINE_SBR_INTR s0 after
          else do {
            (r, s1, bits, words) \<leftarrow> plc_call_ins_in_parameter_parse s0 (mcp_PC e);
            if r \<noteq> pdPASS then ci_err r s1 after
            else do {
              l \<leftarrow> wr (mcp_RetPc (gtp_CallInsInfoPtr s1)) (unat (nested s1)) (mcp_PC e);
              let s2 = s1\<lparr>gtp_CallInsInfoPtr := (gtp_CallInsInfoPtr s1)\<lparr>mcp_RetPc := l\<rparr>\<rparr> in do {
              (r, s3) \<leftarrow> run (set_nested (nested s2 + 1) s2) spc;
              if r \<noteq> EXEC_FLAG_SRET then ci_err r s3 e
              else do {
                (r, s4) \<leftarrow> plc_call_ins_out_parameter_parse (set_nested (nested s3 - 1) s3) bits words (mcp_PC e);
                ci_err r s4 after } } } } }"

definition run_ci_call_ins :: "program_runner \<Rightarrow> plc_state \<Rightarrow> si_env \<Rightarrow> ci_res" where
  "run_ci_call_ins run s e =
     do { q \<leftarrow> plc_get_call_ins_id s (mcp_PC e);
          case q of
            Inl r \<Rightarrow> ci_err r s e
          | Inr i \<Rightarrow> do {
              len \<leftarrow> plc_call_instruction_length s (mcp_PC e);
              let after = at_pc (mcp_PC e + unat len) e in
              if MAX_SBR_NESTED_LAYER \<le> unat (nested s) then ci_err ERR_OVER_SBR_STACK s after
              else do {
                w \<leftarrow> GET_PU16_DATA (ucode s) (mcp_PC e + 2);
                if GET_POWER_FLOW (mlv_InPF e) then call_flow run s e i (w AND 0xFF) after
                else do {
                  x \<leftarrow> rd (mcv_IsExec (gtp_CallInsInfoPtr s)) i;
                  if x \<noteq> 0 then
                    do { s1 \<leftarrow> set_exec i 0 s;
                         (r, s2) \<leftarrow> plc_call_ins_clean_element s1 (w AND 0xFF);
                         if r \<noteq> pdPASS then ci_err ERR_NO_DEFINE_SBR_INTR s2 after else ci_ok s2 after }
                  else ci_ok s after } } } }"

section \<open>Loops\<close>

definition with_for :: "plc_for_next_ins_st \<Rightarrow> plc_state \<Rightarrow> plc_state" where
  "with_for f s = s\<lparr>gtp_ForNextIns := (gtp_ForNextIns s)[unat (nested s) := f]\<rparr>"

text \<open>The arrays of a layer have their declared size.\<close>

definition for_ok :: "plc_for_next_ins_st \<Rightarrow> bool" where
  "for_ok f \<longleftrightarrow> length (msa_LoopCnt f) = MAX_FOR_NEXT_NESTED_NUM \<and> length (msp_StartUcodeAddr f) = MAX_FOR_NEXT_NESTED_NUM \<and>
     length (msp_EndUcodeAddr f) = MAX_FOR_NEXT_NESTED_NUM"

lemma put_for_eq: "get_for s = Some f \<Longrightarrow> put_for s f' = Some (with_for f' s)"
  by (auto simp: get_for_def put_for_def with_for_def mem_simps)

lemma get_with_for [simp]: "get_for s = Some f \<Longrightarrow> get_for (with_for f' s) = Some f'"
  by (auto simp: get_for_def with_for_def)

lemma with_with_for [simp]: "with_for f (with_for f' s) = with_for f s"
  by (simp add: with_for_def)

lemma with_for_same: "get_for s = Some f \<Longrightarrow> with_for f s = s"
  by (auto simp: with_for_def get_for_def)

lemma with_for_simps [simp]: "ucode (with_for f s) = ucode s" "gtp_PlcElementInfo (with_for f s) = gtp_PlcElementInfo s"
  "gtv_PlcElement (with_for f s) = gtv_PlcElement s" "gtp_CallInsInfoPtr (with_for f s) = gtp_CallInsInfoPtr s"
  by (simp_all add: with_for_def)

lemma for_ins_enters:
  assumes "get_for s = Some f" and "for_ok f" and "unat (msv_NestedNum f) < 8" and "GET_POWER_FLOW (mlv_InPF e)"
    and "get_word s (mcp_PC e + 2) 0 1 = Some (pdPASS, [c])" and "0 < c"
    and "GET_PU32_DATA (ucode s) (mcp_PC e + 6) = Some d"
  shows "run_ci_for_ins s e = Some (pdPASS, with_for (f\<lparr>msp_StartUcodeAddr := (msp_StartUcodeAddr f)[unat (msv_NestedNum f) := mcp_PC e],
      msp_EndUcodeAddr := (msp_EndUcodeAddr f)[unat (msv_NestedNum f) := mcp_PC e + unat d],
      msa_LoopCnt := (msa_LoopCnt f)[unat (msv_NestedNum f) := c], msv_NestedNum := msv_NestedNum f + 1\<rparr>) s, at_pc (mcp_PC e + 10) e)"
proof -
  obtain lo hi where w: "GET_PU16_DATA (ucode s) (mcp_PC e + 6) = Some lo" "GET_PU16_DATA (ucode s) (mcp_PC e + 8) = Some hi" "d = words_u32 lo hi"
    using assms(7) by (auto simp: GET_PU32_DATA_def opt_simps numeral_eq_Suc)
  show ?thesis
    using assms(1-6) w put_for_eq [OF assms(1)]
    by (simp add: run_ci_for_ins_def rd_def for_ok_def MAX_FOR_NEXT_NESTED_NUM_def mem_simps ci_ok_def Let_def)
qed

lemma next_ins_top:
  assumes "get_for s = Some f" and "for_ok f" and "unat (msv_NestedNum f) = Suc k" and "k < 8" and "msa_LoopCnt f ! k \<noteq> 0"
  shows "run_ci_next_ins s e =
    (if msa_LoopCnt f ! k = 1
     then Some (pdPASS, with_for (f\<lparr>msa_LoopCnt := (msa_LoopCnt f)[k := 0]\<rparr>) s, at_pc (mcp_PC e + 2) e)
     else Some (pdPASS, with_for (f\<lparr>msa_LoopCnt := (msa_LoopCnt f)[k := msa_LoopCnt f ! k - 1]\<rparr>) s, at_pc (msp_StartUcodeAddr f ! k + 10) e))"
  using assms put_for_eq [OF assms(1)]
  by (simp add: run_ci_next_ins_def next_top_def for_ok_def MAX_FOR_NEXT_NESTED_NUM_def mem_simps ci_ok_def Let_def word_less_nat_alt)

text \<open>A FOR-NEXT block: run the body, execute the NEXT at \<open>pcN\<close>, and repeat while it goes back to the
  instruction after the FOR at \<open>pc0\<close>.  The result counts the executions of the body.\<close>

fun for_loop :: "nat \<Rightarrow> (plc_state \<Rightarrow> plc_state) \<Rightarrow> nat \<Rightarrow> nat \<Rightarrow> plc_state \<Rightarrow> si_env \<Rightarrow> (nat \<times> plc_state \<times> si_env) option" where
  "for_loop 0 body pc0 pcN s e = None"
| "for_loop (Suc n) body pc0 pcN s e =
     do { (r, s', e') \<leftarrow> run_ci_next_ins (body s) (at_pc pcN e);
          if mcp_PC e' = pc0 + 10
          then do { (k, s2, e2) \<leftarrow> for_loop n body pc0 pcN s' e'; Some (Suc k, s2, e2) }
          else Some (1, s', e') }"

text \<open>A body that neither reads nor writes the loop records and returns to its call layer.\<close>

definition loop_body :: "(plc_state \<Rightarrow> plc_state) \<Rightarrow> bool" where
  "loop_body body \<longleftrightarrow> (\<forall>s l. body (s\<lparr>gtp_ForNextIns := l\<rparr>) = (body s)\<lparr>gtp_ForNextIns := l\<rparr>) \<and> (\<forall>s. nested (body s) = nested s)"

lemma loop_body_for: "loop_body body \<Longrightarrow> gtp_ForNextIns (body s) = gtp_ForNextIns s"
proof -
  assume "loop_body body"
  then have "body (s\<lparr>gtp_ForNextIns := gtp_ForNextIns s\<rparr>) = (body s)\<lparr>gtp_ForNextIns := gtp_ForNextIns s\<rparr>"
    by (simp only: loop_body_def)
  then have "body s = (body s)\<lparr>gtp_ForNextIns := gtp_ForNextIns s\<rparr>"
    by simp
  then have "gtp_ForNextIns (body s) = gtp_ForNextIns ((body s)\<lparr>gtp_ForNextIns := gtp_ForNextIns s\<rparr>)"
    by (rule arg_cong)
  then show ?thesis
    by simp
qed

lemma loop_body_with_for: "loop_body body \<Longrightarrow> body (with_for f s) = with_for f (body s)"
  using loop_body_for [of body s] by (simp add: with_for_def loop_body_def)

lemma loop_body_get: "loop_body body \<Longrightarrow> get_for (body s) = get_for s"
  using loop_body_for [of body s] by (simp add: get_for_def loop_body_def)

lemma loop_body_power: "loop_body body \<Longrightarrow> (body ^^ n) (with_for f s) = with_for f ((body ^^ n) s)"
  by (induction n) (simp_all add: loop_body_with_for)

lemma for_loop_counts:
  assumes "loop_body body" and "pc0 + 10 \<le> pcN"
    and "get_for s = Some f" and "for_ok f" and "unat (msv_NestedNum f) = Suc k" and "k < 8"
    and "msp_StartUcodeAddr f ! k = pc0" and "msa_LoopCnt f ! k = c" and "c \<noteq> 0" and "unat c \<le> n"
  shows "for_loop n body pc0 pcN s e =
    Some (unat c, with_for (f\<lparr>msa_LoopCnt := (msa_LoopCnt f)[k := 0]\<rparr>) ((body ^^ unat c) s), at_pc (pcN + 2) e)"
  using assms(3-)
proof (induction n arbitrary: s f c e)
  case (Suc n)
  have g: "get_for (body s) = Some f"
    using Suc.prems loop_body_get [OF assms(1)] by simp
  show ?case
  proof (cases "c = 1")
    case True
    then show ?thesis
      using next_ins_top [OF g Suc.prems(2-4), of "at_pc pcN e"] Suc.prems assms(2) by (simp add: at_pc_def)
  next
    case False
    let ?f = "f\<lparr>msa_LoopCnt := (msa_LoopCnt f)[k := c - 1]\<rparr>"
    let ?s = "with_for ?f (body s)"
    have c: "unat (c - 1) = unat c - 1" "c - 1 \<noteq> 0" "unat c = Suc (unat c - 1)"
      using False Suc.prems(7) by (auto simp: unat_minus_one unat_gt_0)
    have len: "k < length (msa_LoopCnt f)"
      using Suc.prems(2,4) by (simp add: for_ok_def MAX_FOR_NEXT_NESTED_NUM_def)
    have step: "run_ci_next_ins (body s) (at_pc pcN e) = Some (pdPASS, ?s, at_pc (pc0 + 10) (at_pc pcN e))"
      using next_ins_top [OF g Suc.prems(2-4), of "at_pc pcN e"] Suc.prems False by simp
    have "for_loop n body pc0 pcN ?s (at_pc (pc0 + 10) (at_pc pcN e)) =
      Some (unat (c - 1), with_for (?f\<lparr>msa_LoopCnt := (msa_LoopCnt ?f)[k := 0]\<rparr>) ((body ^^ unat (c - 1)) ?s), at_pc (pcN + 2) (at_pc (pc0 + 10) (at_pc pcN e)))"
      using Suc.prems g len c by (intro Suc.IH) (auto simp: for_ok_def)
    moreover have "(body ^^ unat (c - 1)) ?s = with_for ?f ((body ^^ unat c) s)"
      unfolding loop_body_power [OF assms(1)] c(1) by (subst (2) c(3)) (simp add: funpow_swap1)
    ultimately show ?thesis
      using step c(1,3) by (simp add: at_pc_def)
  qed
qed (simp add: unat_eq_zero)

text \<open>A FOR at \<open>pc\<close> with power flow, a loop count operand that yields \<open>c > 0\<close>, and a readable length.\<close>

definition for_at :: "plc_state \<Rightarrow> si_env \<Rightarrow> u16 \<Rightarrow> bool" where
  "for_at s e c \<longleftrightarrow> GET_POWER_FLOW (mlv_InPF e) \<and> get_word s (mcp_PC e + 2) 0 1 = Some (pdPASS, [c]) \<and> 0 < c \<and>
     GET_PU32_DATA (ucode s) (mcp_PC e + 6) \<noteq> None"

lemma Suc_nested: "unat (n :: u16) < 8 \<Longrightarrow> unat (n + 1) = Suc (unat n)"
  by (simp add: unat_word_ariths)

text \<open>The record after a FOR and the whole loop it starts.\<close>

definition entered :: "plc_for_next_ins_st \<Rightarrow> nat \<Rightarrow> nat \<Rightarrow> u16 \<Rightarrow> plc_for_next_ins_st" where
  "entered f pc nx c =
     (let k = unat (msv_NestedNum f) in
      f\<lparr>msp_StartUcodeAddr := (msp_StartUcodeAddr f)[k := pc], msp_EndUcodeAddr := (msp_EndUcodeAddr f)[k := nx],
        msa_LoopCnt := (msa_LoopCnt f)[k := c], msv_NestedNum := msv_NestedNum f + 1\<rparr>)"

lemma entered_ok: "for_ok f \<Longrightarrow> for_ok (entered f pc nx c)"
  by (simp add: for_ok_def entered_def Let_def)

lemma loop_runs:
  assumes "loop_body body" and "get_for s = Some f" and "for_ok f" and "unat (msv_NestedNum f) < 8" and "for_at s e c"
    and "mcp_PC e + 10 \<le> pcN" and "unat c \<le> n"
  shows "\<exists>nx. run_ci_for_ins s e = Some (pdPASS, with_for (entered f (mcp_PC e) nx c) s, at_pc (mcp_PC e + 10) e) \<and>
    for_loop n body (mcp_PC e) pcN (with_for (entered f (mcp_PC e) nx c) s) (at_pc (mcp_PC e + 10) e) =
      Some (unat c, with_for (entered f (mcp_PC e) nx 0) ((body ^^ unat c) s), at_pc (pcN + 2) e)"
proof -
  obtain d where d: "GET_PU32_DATA (ucode s) (mcp_PC e + 6) = Some d"
    using assms(5) by (auto simp: for_at_def)
  let ?nx = "mcp_PC e + unat d" and ?k = "unat (msv_NestedNum f)"
  let ?f = "entered f (mcp_PC e) ?nx c"
  have for_: "run_ci_for_ins s e = Some (pdPASS, with_for ?f s, at_pc (mcp_PC e + 10) e)"
    using for_ins_enters [OF assms(2-4) _ _ _ d] assms(5) by (simp add: for_at_def entered_def Let_def)
  have f: "get_for (with_for ?f s) = Some ?f" "for_ok ?f" "unat (msv_NestedNum ?f) = Suc ?k" "msp_StartUcodeAddr ?f ! ?k = mcp_PC e"
    "msa_LoopCnt ?f ! ?k = c" "c \<noteq> 0" "?f\<lparr>msa_LoopCnt := (msa_LoopCnt ?f)[?k := 0]\<rparr> = entered f (mcp_PC e) ?nx 0"
    using assms(2-5) entered_ok Suc_nested
    by (auto simp: entered_def Let_def for_ok_def MAX_FOR_NEXT_NESTED_NUM_def for_at_def)
  show ?thesis
    using for_ for_loop_counts [OF assms(1,6) f(1-3) assms(4) f(4-6) assms(7), of "at_pc (mcp_PC e + 10) e"]
    unfolding f(7) loop_body_power [OF assms(1)] with_with_for by (auto simp: at_pc_def)
qed

text \<open>A FOR with power flow, a loop count \<open>c > 0\<close> and a free record, with a body that leaves the loop records alone (no FOR or NEXT inside), executes
  its body exactly \<open>c\<close> times: the NEXT that closes the block goes back to the instruction after the FOR \<open>c - 1\<close> times, then continues behind
  itself, and the soft elements at the end are those after \<open>c\<close> executions of the body.\<close>

theorem for_next_repeats:
  assumes "loop_body body" and "get_for s = Some f" and "for_ok f" and "unat (msv_NestedNum f) < 8" and "for_at s e c"
    and "mcp_PC e + 10 \<le> pcN"
  shows "\<exists>s1 e1 s2 e2. run_ci_for_ins s e = Some (pdPASS, s1, e1) \<and> mcp_PC e1 = mcp_PC e + 10 \<and>
    for_loop (unat c) body (mcp_PC e) pcN s1 e1 = Some (unat c, s2, e2) \<and> mcp_PC e2 = pcN + 2 \<and>
    gtv_PlcElement s2 = gtv_PlcElement ((body ^^ unat c) s)"
  using loop_runs [OF assms order_refl] by (auto simp: at_pc_def)

abbreviation for_code :: "u8 list" where
  "for_code \<equiv> [0, 0, 0, 0xFF, 3, 0, 20, 0, 0, 0]"

abbreviation env_on :: si_env where
  "env_on \<equiv> \<lparr>mlv_InPF = 1, mlv_OutPF = 1, mcp_PC = 0\<rparr>"

lemma boot_for: "get_for (boot_state m) =
    Some \<lparr>msa_LoopCnt = replicate 8 0, msp_StartUcodeAddr = replicate 8 0, msp_EndUcodeAddr = replicate 8 0, msv_NestedNum = 0\<rparr>"
  by (simp add: get_for_def rd_def boot_state_def)

lemma for_code_const: "const_word for_code 2 3" "GET_PU32_DATA for_code 6 = Some 20"
proof -
  have "GET_PU8_DATA for_code 3 = Some 0xFF" "GET_PU8_DATA for_code 2 = Some 0" "GET_PU16_DATA for_code 4 = Some 3"
    "GET_PU32_DATA for_code 6 = Some 20"
    by code_simp+
  then show "const_word for_code 2 3" "GET_PU32_DATA for_code 6 = Some 20"
    by (auto simp: const_word_def eval_nat_numeral intro!: exI [of _ "0 :: u8"])
qed

lemma for_code_at: "for_at (boot_state for_code) env_on 3"
  using get_word_constant [of "boot_state for_code" 2 3 0 1] for_code_const
  by (simp add: for_at_def GET_POWER_FLOW_def flip: numeral_2_eq_2)

definition touch_d :: "plc_state \<Rightarrow> plc_state" where
  "touch_d s = s\<lparr>gtv_PlcElement := (gtv_PlcElement s)\<lparr>msp_DElement := 7 # msp_DElement (gtv_PlcElement s)\<rparr>\<rparr>"

lemma touch_d_3: "take 3 (msp_DElement (gtv_PlcElement ((touch_d ^^ 3) s))) = [7, 7, 7]"
  by (simp add: touch_d_def numeral_3_eq_3)

theorem for_next_repeats_witness:
  "\<exists>s1 e1 s2 e2. run_ci_for_ins (boot_state for_code) env_on = Some (pdPASS, s1, e1) \<and>
    for_loop 3 touch_d 0 18 s1 e1 = Some (3, s2, e2) \<and> mcp_PC e2 = 20 \<and>
    take 3 (msp_DElement (gtv_PlcElement s2)) = [7, 7, 7]"
proof -
  have "loop_body touch_d"
    by (simp add: loop_body_def touch_d_def)
  then show ?thesis
    using for_next_repeats [OF _ boot_for _ _ for_code_at, of touch_d 18] touch_d_3
    by (auto simp: for_ok_def MAX_FOR_NEXT_NESTED_NUM_def)
qed

text \<open>Loops that follow one another, each with a constant loop count.\<close>

definition const_for :: "u8 list \<Rightarrow> si_env \<Rightarrow> u16 \<Rightarrow> bool" where
  "const_for m e c \<longleftrightarrow> GET_POWER_FLOW (mlv_InPF e) \<and> const_word m (mcp_PC e + 2) c \<and> 0 < c \<and> GET_PU32_DATA m (mcp_PC e + 6) \<noteq> None"

lemma const_for_at: "const_for (ucode s) e c \<Longrightarrow> for_at s e c"
  using get_word_constant [of s "mcp_PC e + 2" c 0 1] by (simp add: const_for_def for_at_def)

fun seq_loops :: "(plc_state \<Rightarrow> plc_state) \<Rightarrow> (si_env \<times> nat \<times> u16) list \<Rightarrow> plc_state \<Rightarrow> plc_state option" where
  "seq_loops body [] s = Some s"
| "seq_loops body ((e, pcN, c) # ls) s =
     do { (r, s1, e1) \<leftarrow> run_ci_for_ins s e;
          (k, s2, e2) \<leftarrow> for_loop (unat c) body (mcp_PC e) pcN s1 e1;
          seq_loops body ls s2 }"

lemma for_full: "get_for s = Some f \<Longrightarrow> for_ok f \<Longrightarrow> unat (msv_NestedNum f) = 8 \<Longrightarrow> for_at s e c \<Longrightarrow> run_ci_for_ins s e = None"
  by (auto simp: run_ci_for_ins_def for_ok_def MAX_FOR_NEXT_NESTED_NUM_def for_at_def mem_simps rd_def Let_def GET_PU32_DATA_def opt_simps
      split: option.splits)

lemma loop_power_keeps:
  assumes "loop_body body" and "\<forall>s. ucode (body s) = ucode s"
  shows "ucode ((body ^^ n) s) = ucode s" "get_for ((body ^^ n) s) = get_for s"
  using assms by (induction n) (simp_all add: loop_body_get)

text \<open>C34. Leaving a loop keeps its record: \<open>msv_NestedNum\<close> is only reduced by a NEXT that finds a finished record on
  top.  So loops that follow one another in a program, not nested at all, use up the eight records of the layer:
  with eight or fewer the program is fine, and the ninth FOR writes outside the arrays.\<close>

theorem sequential_for_overflow:
  assumes "loop_body body" and "\<forall>s. ucode (body s) = ucode s"
    and "get_for s = Some f" and "for_ok f" and "unat (msv_NestedNum f) = 0"
    and "\<forall>(e, pcN, c) \<in> set ls. const_for (ucode s) e c \<and> mcp_PC e + 10 \<le> pcN"
  shows "seq_loops body ls s \<noteq> None \<longleftrightarrow> length ls \<le> 8"
proof -
  have "seq_loops body ls s \<noteq> None \<longleftrightarrow> length ls + unat (msv_NestedNum f) \<le> 8"
    if "get_for s = Some f" "for_ok f" "unat (msv_NestedNum f) \<le> 8"
      "\<forall>(e, pcN, c) \<in> set ls. const_for (ucode s) e c \<and> mcp_PC e + 10 \<le> pcN" for s f
    using that
  proof (induction ls arbitrary: s f)
    case (Cons l ls)
    obtain e pcN c where l: "l = (e, pcN, c)"
      by (cases l)
    have at: "for_at s e c" and pc: "mcp_PC e + 10 \<le> pcN"
      using Cons.prems(4) const_for_at by (auto simp: l)
    show ?case
    proof (cases "unat (msv_NestedNum f) = 8")
      case True
      then show ?thesis
        using for_full [OF Cons.prems(1,2) True at] by (simp add: l)
    next
      case False
      then have n: "unat (msv_NestedNum f) < 8"
        using Cons.prems(3) by simp
      obtain nx where r: "run_ci_for_ins s e = Some (pdPASS, with_for (entered f (mcp_PC e) nx c) s, at_pc (mcp_PC e + 10) e)"
        "for_loop (unat c) body (mcp_PC e) pcN (with_for (entered f (mcp_PC e) nx c) s) (at_pc (mcp_PC e + 10) e) =
          Some (unat c, with_for (entered f (mcp_PC e) nx 0) ((body ^^ unat c) s), at_pc (pcN + 2) e)"
        using loop_runs [OF assms(1) Cons.prems(1,2) n at pc order_refl] by blast
      let ?s = "with_for (entered f (mcp_PC e) nx 0) ((body ^^ unat c) s)"
      have "get_for ?s = Some (entered f (mcp_PC e) nx 0)" "ucode ?s = ucode s" "unat (msv_NestedNum (entered f (mcp_PC e) nx 0)) = Suc (unat (msv_NestedNum f))"
        using Cons.prems(1) loop_power_keeps [OF assms(1,2)] Suc_nested [OF n] by (simp_all add: entered_def Let_def)
      then show ?thesis
        using Cons.IH [of ?s "entered f (mcp_PC e) nx 0"] entered_ok [OF Cons.prems(2)] Cons.prems(4) n r by (simp add: l)
    qed
  qed simp
  then show ?thesis
    using assms(3-6) by simp
qed

theorem sequential_for_overflow_witness:
  "seq_loops touch_d (replicate 8 (env_on, 18, 3)) (boot_state for_code) \<noteq> None \<and>
   seq_loops touch_d (replicate 9 (env_on, 18, 3)) (boot_state for_code) = None"
proof -
  have h: "loop_body touch_d" "\<forall>s. ucode (touch_d s) = ucode s" "const_for for_code env_on 3"
    using for_code_const by (simp_all add: loop_body_def touch_d_def const_for_def GET_POWER_FLOW_def flip: numeral_2_eq_2)
  show ?thesis
    using sequential_for_overflow [OF h(1,2) boot_for, of "replicate 8 (env_on, 18, 3)" for_code]
      sequential_for_overflow [OF h(1,2) boot_for, of "replicate 9 (env_on, 18, 3)" for_code] h(3)
    by (simp add: for_ok_def MAX_FOR_NEXT_NESTED_NUM_def)
qed

end
