(* ===== verification/PLC_Arith.thy ===== *)
theory PLC_Arith
  imports PLC_BitIns "HOL-Library.Signed_Division"
begin

text \<open>
  Integer arithmetic and conversions, \<open>source/plc/executer/src/plc_dataprocessing.c\<close>: addition, subtraction,
  multiplication, division, increment, absolute value and negation on 16-bit and 32-bit integers, sums of
  blocks, and the conversions between integers, BCD and Gray codes.  Signed C arithmetic is two's complement
  at the width of the variable, as on the target; the zero, carry and borrow flags are SM180, SM181 and SM182.
\<close>

section \<open>Instruction shapes\<close>

definition word_un :: "(u16 \<Rightarrow> u16) \<Rightarrow> plc_state \<Rightarrow> si_env \<Rightarrow> ci_res" where
  "word_un f s e = when_flow s e (read_word s e 2 (\<lambda>x. write_word s e 6 (f x)))"

definition word_bin :: "(u16 \<Rightarrow> u16 \<Rightarrow> u16) \<Rightarrow> plc_state \<Rightarrow> si_env \<Rightarrow> ci_res" where
  "word_bin f s e = when_flow s e (read_word s e 2 (\<lambda>x. read_word s e 6 (\<lambda>y. write_word s e 10 (f x y))))"

definition dword_un :: "(u32 \<Rightarrow> u32) \<Rightarrow> plc_state \<Rightarrow> si_env \<Rightarrow> ci_res" where
  "dword_un f s e = when_flow s e (read_dword s e 2 (\<lambda>x. write_dword s e 8 (f x)))"

definition dword_bin :: "(u32 \<Rightarrow> u32 \<Rightarrow> u32) \<Rightarrow> plc_state \<Rightarrow> si_env \<Rightarrow> ci_res" where
  "dword_bin f s e = when_flow s e (read_dword s e 2 (\<lambda>x. read_dword s e 8 (\<lambda>y. write_dword s e 14 (f x y))))"

text \<open>The flags.\<close>

definition raise_flag :: "u16 \<Rightarrow> plc_state \<Rightarrow> plc_state option" where
  "raise_flag n s = set_bit_elem SM_ELEMENT s n 1"

definition clear_flags :: "plc_state \<Rightarrow> plc_state option" where
  "clear_flags s =
     do { s1 \<leftarrow> set_bit_elem SM_ELEMENT s 180 0; s2 \<leftarrow> set_bit_elem SM_ELEMENT s1 181 0; set_bit_elem SM_ELEMENT s2 182 0 }"

section \<open>16-bit arithmetic\<close>

text \<open>Addition and subtraction compute \<open>z\<close> in 32 bits and store its low half.\<close>

definition add_flags :: "int \<Rightarrow> plc_state \<Rightarrow> plc_state option" where
  "add_flags z s =
     (if 32767 < z then raise_flag 181 s
      else if z < - 32768 then raise_flag 182 s
      else if z = 0 then raise_flag 180 s
      else Some s)"

definition add_words :: "(int \<Rightarrow> int \<Rightarrow> int) \<Rightarrow> plc_state \<Rightarrow> si_env \<Rightarrow> ci_res" where
  "add_words f s e =
     when_flow s e (read_word s e 2 (\<lambda>x. read_word s e 6 (\<lambda>y.
       do { s1 \<leftarrow> clear_flags s;
            s2 \<leftarrow> add_flags (f (sint x) (sint y)) s1;
            write_word s2 e 10 (word_of_int (f (sint x) (sint y))) })))"

definition run_ci_add_ins :: "plc_state \<Rightarrow> si_env \<Rightarrow> ci_res" where
  "run_ci_add_ins = add_words (+)"

definition run_ci_sub_ins :: "plc_state \<Rightarrow> si_env \<Rightarrow> ci_res" where
  "run_ci_sub_ins = add_words (-)"

definition run_ci_mul_ins :: "plc_state \<Rightarrow> si_env \<Rightarrow> ci_res" where
  "run_ci_mul_ins s e =
     when_flow s e (read_word s e 2 (\<lambda>x. read_word s e 6 (\<lambda>y. write_dword s e 10 (word_of_int (sint x * sint y)))))"

text \<open>A write whose error ends the instruction: \<open>if(lcv_Ret != pdPASS) return lcv_Ret;\<close>\<close>

definition then_ins :: "ci_res \<Rightarrow> (plc_state \<Rightarrow> ci_res) \<Rightarrow> ci_res" where
  "then_ins r f = do { (c, s, e) \<leftarrow> r; if c \<noteq> pdPASS then Some (c, s, e) else f s }"

definition run_ci_div_ins :: "plc_state \<Rightarrow> si_env \<Rightarrow> ci_res" where
  "run_ci_div_ins s e =
     when_flow s e (read_word s e 2 (\<lambda>x. read_word s e 6 (\<lambda>y.
       if y = 0 then ci_err ERR_DIV_ZERO s e
       else then_ins (write_word s e 10 (word_of_int (sint x sdiv sint y)))
              (\<lambda>s1. write_word_at 1 s1 e 10 (word_of_int (sint x smod sint y))))))"

definition run_ci_inc_ins :: "plc_state \<Rightarrow> si_env \<Rightarrow> ci_res" where
  "run_ci_inc_ins s e = when_flow s e (read_word s e 2 (\<lambda>x. write_word s e 2 (x + 1)))"

definition run_ci_dec_ins :: "plc_state \<Rightarrow> si_env \<Rightarrow> ci_res" where
  "run_ci_dec_ins s e = when_flow s e (read_word s e 2 (\<lambda>x. write_word s e 2 (x - 1)))"

definition run_ci_vabs_ins :: "plc_state \<Rightarrow> si_env \<Rightarrow> ci_res" where
  "run_ci_vabs_ins s e =
     when_flow s e (read_word s e 2 (\<lambda>x.
       if sint x = - 32768 then ci_err ERR_OPERANDS s e else write_word s e 6 (if sint x < 0 then - x else x)))"

definition run_ci_neg_ins :: "plc_state \<Rightarrow> si_env \<Rightarrow> ci_res" where
  "run_ci_neg_ins s e =
     when_flow s e (read_word s e 2 (\<lambda>x. if sint x = - 32768 then ci_err ERR_OPERANDS s e else write_word s e 6 (- x)))"

section \<open>32-bit arithmetic\<close>

text \<open>Here the overflow is guessed from the signs of operands and result.\<close>

definition dadd_flags :: "u32 \<Rightarrow> u32 \<Rightarrow> u32 \<Rightarrow> plc_state \<Rightarrow> plc_state option" where
  "dadd_flags x y z s =
     do { s1 \<leftarrow> (if 0 < sint x \<and> 0 < sint y \<and> sint z < 0 then raise_flag 181 s
                 else if sint x \<le> 0 \<and> sint y < 0 \<and> 0 < sint z then raise_flag 182 s
                 else Some s);
          if z = 0 then raise_flag 180 s1 else Some s1 }"

definition dsub_flags :: "u32 \<Rightarrow> u32 \<Rightarrow> u32 \<Rightarrow> plc_state \<Rightarrow> plc_state option" where
  "dsub_flags x y z s =
     do { s1 \<leftarrow> (if 0 < sint x \<and> sint y < 0 \<and> sint z < 0 then raise_flag 181 s
                 else if sint x < 0 \<and> 0 < sint y \<and> 0 < sint z then raise_flag 182 s
                 else Some s);
          if z = 0 then raise_flag 180 s1 else Some s1 }"

definition run_ci_dadd_ins :: "plc_state \<Rightarrow> si_env \<Rightarrow> ci_res" where
  "run_ci_dadd_ins s e =
     when_flow s e (read_dword s e 2 (\<lambda>x. read_dword s e 8 (\<lambda>y.
       do { s1 \<leftarrow> clear_flags s; s2 \<leftarrow> dadd_flags x y (x + y) s1; write_dword s2 e 14 (x + y) })))"

definition run_ci_dsub_ins :: "plc_state \<Rightarrow> si_env \<Rightarrow> ci_res" where
  "run_ci_dsub_ins s e =
     when_flow s e (read_dword s e 2 (\<lambda>x. read_dword s e 8 (\<lambda>y.
       do { s1 \<leftarrow> clear_flags s; s2 \<leftarrow> dsub_flags x y (x - y) s1; write_dword s2 e 14 (x - y) })))"

definition run_ci_dmul_ins :: "plc_state \<Rightarrow> si_env \<Rightarrow> ci_res" where
  "run_ci_dmul_ins = dword_bin (*)"

definition run_ci_ddiv_ins :: "plc_state \<Rightarrow> si_env \<Rightarrow> ci_res" where
  "run_ci_ddiv_ins s e =
     when_flow s e (read_dword s e 2 (\<lambda>x. read_dword s e 8 (\<lambda>y.
       if y = 0 then ci_err ERR_DIV_ZERO s e
       else then_ins (write_dword s e 14 (word_of_int (sint x sdiv sint y)))
              (\<lambda>s1. write_dword_at 1 s1 e 14 (word_of_int (sint x smod sint y))))))"

definition run_ci_dinc_ins :: "plc_state \<Rightarrow> si_env \<Rightarrow> ci_res" where
  "run_ci_dinc_ins s e = when_flow s e (read_dword s e 2 (\<lambda>x. write_dword s e 2 (x + 1)))"

definition run_ci_ddec_ins :: "plc_state \<Rightarrow> si_env \<Rightarrow> ci_res" where
  "run_ci_ddec_ins s e = when_flow s e (read_dword s e 2 (\<lambda>x. write_dword s e 2 (x - 1)))"

definition run_ci_dvabs_ins :: "plc_state \<Rightarrow> si_env \<Rightarrow> ci_res" where
  "run_ci_dvabs_ins s e =
     when_flow s e (read_dword s e 2 (\<lambda>x.
       if sint x = - 2147483647 then ci_err ERR_OPERANDS s e else write_dword s e 8 (if sint x < 0 then - x else x)))"

definition run_ci_dneg_ins :: "plc_state \<Rightarrow> si_env \<Rightarrow> ci_res" where
  "run_ci_dneg_ins s e =
     when_flow s e (read_dword s e 2 (\<lambda>x.
       if sint x = - 2147483647 then ci_err ERR_OPERANDS s e else write_dword s e 8 (- x)))"

section \<open>Sums of blocks\<close>

fun sum_words :: "plc_state \<Rightarrow> si_env \<Rightarrow> nat \<Rightarrow> nat \<Rightarrow> u32 \<Rightarrow> (plc_ret \<times> u32) option" where
  "sum_words s e i 0 acc = Some (pdPASS, acc)"
| "sum_words s e i (Suc n) acc =
     do { (r, ws) \<leftarrow> get_word s (mcp_PC e + 2) (of_nat i) 1;
          if r \<noteq> pdPASS then Some (r, acc) else do { w \<leftarrow> rd ws 0; sum_words s e (Suc i) n (acc + scast w) } }"

text \<open>When the sum is 0 the zero flag, already cleared, is cleared once more.\<close>

definition run_ci_sum_ins :: "plc_state \<Rightarrow> si_env \<Rightarrow> ci_res" where
  "run_ci_sum_ins s e =
     when_flow s e (read_word s e 6 (\<lambda>c.
       if sint c < 0 \<or> 255 < sint c then ci_err ERR_OPERANDS s e
       else do { s1 \<leftarrow> clear_flags s;
                 (r, z) \<leftarrow> sum_words s1 e 0 (unat c) 0;
                 if r \<noteq> pdPASS then ci_err r s1 e
                 else do { s2 \<leftarrow> (if z = 0 then set_bit_elem SM_ELEMENT s1 180 0 else Some s1); write_dword s2 e 10 z } }))"

fun sum_dwords :: "plc_state \<Rightarrow> si_env \<Rightarrow> nat \<Rightarrow> nat \<Rightarrow> u32 \<Rightarrow> (plc_ret \<times> plc_state \<times> u32) option" where
  "sum_dwords s e i 0 acc = Some (pdPASS, s, acc)"
| "sum_dwords s e i (Suc n) acc =
     do { (r, ws) \<leftarrow> get_dword s (mcp_PC e + 2) (of_nat i) 1;
          if r \<noteq> pdPASS then Some (r, s, acc)
          else do {
            w \<leftarrow> rd ws 0;
            let z = acc + w in do {
            s1 \<leftarrow> (if 0 < sint acc \<and> 0 < sint w \<and> sint z < 0 then raise_flag 181 s
                   else if sint acc \<le> 0 \<and> sint w < 0 \<and> 0 < sint z then raise_flag 182 s
                   else Some s);
            sum_dwords s1 e (Suc i) n z } } }"

definition run_ci_dsum_ins :: "plc_state \<Rightarrow> si_env \<Rightarrow> ci_res" where
  "run_ci_dsum_ins s e =
     when_flow s e (read_word s e 8 (\<lambda>c.
       if sint c < 0 \<or> 255 < sint c then ci_err ERR_OPERANDS s e
       else do { s1 \<leftarrow> clear_flags s;
                 (r, s2, z) \<leftarrow> sum_dwords s1 e 0 (unat c) 0;
                 if r \<noteq> pdPASS then ci_err r s2 e
                 else do { s3 \<leftarrow> (if z = 0 then raise_flag 180 s2 else Some s2); write_dword s3 e 12 z } }))"

section \<open>Conversions\<close>

definition run_ci_dti_ins :: "plc_state \<Rightarrow> si_env \<Rightarrow> ci_res" where
  "run_ci_dti_ins s e =
     when_flow s e (read_dword s e 2 (\<lambda>x.
       if 32767 < sint x \<or> sint x < - 32768 then ci_err ERR_OPERANDS s e else write_word s e 8 (ucast x)))"

definition run_ci_itd_ins :: "plc_state \<Rightarrow> si_env \<Rightarrow> ci_res" where
  "run_ci_itd_ins s e = when_flow s e (read_word s e 2 (\<lambda>x. write_dword s e 6 (scast x)))"

definition bcd :: "u16 \<Rightarrow> u16" where
  "bcd d = 0x1000 * (d div 1000) + 0x100 * (d mod 1000 div 100) + 0x10 * (d mod 100 div 10) + d mod 10"

definition run_ci_bcd_ins :: "plc_state \<Rightarrow> si_env \<Rightarrow> ci_res" where
  "run_ci_bcd_ins s e =
     when_flow s e (read_word s e 2 (\<lambda>d. if 9999 < d then ci_err ERR_OPERANDS s e else write_word s e 6 (bcd d)))"

definition dbcd :: "u32 \<Rightarrow> u32" where
  "dbcd d = 0x10000000 * (d div 100000000) + 0x1000000 * (d mod 10000000 div 1000000) +
     0x100000 * (d mod 1000000 div 100000) + 0x10000 * (d mod 100000 div 10000) + 0x1000 * (d mod 10000 div 1000) +
     0x100 * (d mod 1000 div 100) + 0x10 * (d mod 100 div 10) + d mod 10"

definition run_ci_dbcd_ins :: "plc_state \<Rightarrow> si_env \<Rightarrow> ci_res" where
  "run_ci_dbcd_ins s e =
     when_flow s e (read_dword s e 2 (\<lambda>d. if 99999999 < d then ci_err ERR_OPERANDS s e else write_dword s e 8 (dbcd d)))"

text \<open>Digit \<open>k\<close> of a BCD number.\<close>

definition digit :: "'a::len word \<Rightarrow> nat \<Rightarrow> 'a word" where
  "digit d k = drop_bit (4 * k) (d AND push_bit (4 * k) 0xF)"

definition bin :: "u16 \<Rightarrow> u16" where
  "bin d = digit d 3 * 1000 + digit d 2 * 100 + digit d 1 * 10 + digit d 0"

definition run_ci_bin_ins :: "plc_state \<Rightarrow> si_env \<Rightarrow> ci_res" where
  "run_ci_bin_ins s e =
     when_flow s e (read_word s e 2 (\<lambda>d.
       if list_ex (\<lambda>k. 9 < digit d k) [3, 2, 1, 0] then ci_err ERR_OPERANDS s e else write_word s e 6 (bin d)))"

definition dbin :: "u32 \<Rightarrow> u32" where
  "dbin d = digit d 7 * 10000000 + digit d 6 * 1000000 + digit d 5 * 100000 + digit d 4 * 10000 +
     digit d 3 * 1000 + digit d 2 * 100 + digit d 1 * 10 + digit d 0"

definition run_ci_dbin_ins :: "plc_state \<Rightarrow> si_env \<Rightarrow> ci_res" where
  "run_ci_dbin_ins s e =
     when_flow s e (read_dword s e 2 (\<lambda>d.
       if list_ex (\<lambda>k. 9 < digit d k) [7, 6, 5, 4, 3, 2, 1, 0] then ci_err ERR_OPERANDS s e else write_dword s e 8 (dbin d)))"

definition gry :: "'a::len word \<Rightarrow> 'a word" where
  "gry d = d XOR drop_bit 1 d"

definition run_ci_gry_ins :: "plc_state \<Rightarrow> si_env \<Rightarrow> ci_res" where
  "run_ci_gry_ins = word_un gry"

definition run_ci_dgry_ins :: "plc_state \<Rightarrow> si_env \<Rightarrow> ci_res" where
  "run_ci_dgry_ins = dword_un gry"

text \<open>The loop over \<open>i\<close> with \<open>1 << i\<close> below the width.\<close>

fun gbin_loop :: "nat \<Rightarrow> nat \<Rightarrow> 'a::len word \<Rightarrow> 'a word" where
  "gbin_loop i 0 d = d"
| "gbin_loop i (Suc n) d = gbin_loop (Suc i) n (d XOR drop_bit (2 ^ i) d)"

definition run_ci_gbin_ins :: "plc_state \<Rightarrow> si_env \<Rightarrow> ci_res" where
  "run_ci_gbin_ins = word_un (gbin_loop 0 4)"

definition run_ci_dgbin_ins :: "plc_state \<Rightarrow> si_env \<Rightarrow> ci_res" where
  "run_ci_dgbin_ins = dword_un (gbin_loop 0 5)"

definition seg_codes :: "u8 list" where
  "seg_codes = [0x3F, 0x06, 0x5B, 0x4F, 0x66, 0x6D, 0x7D, 0x07, 0x7F, 0x6F, 0x77, 0x7C, 0x39, 0x5E, 0x79, 0x71,
     0x73, 0x3E, 0x31, 0x6E, 0x76, 0x38, 0x00]"

definition run_ci_seg_ins :: "plc_state \<Rightarrow> si_env \<Rightarrow> ci_res" where
  "run_ci_seg_ins s e =
     when_flow s e (read_word s e 2 (\<lambda>d.
       if 15 < d then ci_err ERR_OPERANDS s e else do { c \<leftarrow> rd seg_codes (unat d); write_word s e 6 (ucast c) }))"

text \<open>ASC takes eight operands and packs two characters into a word unless SM186 is on.\<close>

fun asc_words :: "plc_state \<Rightarrow> si_env \<Rightarrow> nat \<Rightarrow> nat \<Rightarrow> (plc_ret \<times> u16 list) option" where
  "asc_words s e a 0 = Some (pdPASS, [])"
| "asc_words s e a (Suc n) =
     do { (r, ws) \<leftarrow> get_word s a 0 1;
          if r \<noteq> pdPASS then Some (r, [])
          else do { w \<leftarrow> rd ws 0; (r', ws') \<leftarrow> asc_words s e (a + 4) n; Some (r', w # ws') } }"

fun pack_chars :: "u16 list \<Rightarrow> u16 list" where
  "pack_chars (a # b # ws) = ((a AND 0xFF) + push_bit 8 (b AND 0xFF)) # pack_chars ws"
| "pack_chars ws = []"

definition run_ci_asc_ins :: "plc_state \<Rightarrow> si_env \<Rightarrow> ci_res" where
  "run_ci_asc_ins s e =
     when_flow s e (do {
       wide \<leftarrow> get_bit_elem SM_ELEMENT s 186;
       (r, ws) \<leftarrow> asc_words s e (mcp_PC e + 2) 8;
       if r \<noteq> pdPASS then ci_err r s e
       else do {
         let res = (if wide \<noteq> 0 then ws else pack_chars ws) in
         do { (r, s', _) \<leftarrow> save_word s (mcp_PC e + 34) res 0 (of_nat (length res)); Some (r, s', e) } } })"

section \<open>The flags of an addition\<close>

text \<open>Setting an SM element.\<close>

lemma set_sm:
  assumes "wf_state s" and "n < bit_elem_rang SM_ELEMENT s"
  shows "\<exists>s'. set_bit_elem SM_ELEMENT s n v = Some s' \<and> wf_state s' \<and> elements_only s s' \<and> get_bit_elem SM_ELEMENT s' n = Some (bit_norm v) \<and>
    (\<forall>m. m \<noteq> n \<longrightarrow> get_bit_elem SM_ELEMENT s' m = get_bit_elem SM_ELEMENT s m)"
proof -
  obtain s' where s': "set_bit_elem SM_ELEMENT s n v = Some s'"
    using bits.put_ok [OF assms] by blast
  have "elements_only s s'"
    using s' by (auto simp: set_bit_elem_def opt_simps)
  then show ?thesis
    using s' bits.put_inv [OF assms(1) s'] bits.get_put_same [OF s'] by (auto simp: bits.get_put_other [OF s'])
qed

definition flags_are :: "plc_state \<Rightarrow> bool \<Rightarrow> bool \<Rightarrow> bool \<Rightarrow> bool" where
  "flags_are s z c b \<longleftrightarrow> get_bit_elem SM_ELEMENT s 180 = Some (of_bool z) \<and> get_bit_elem SM_ELEMENT s 181 = Some (of_bool c) \<and>
     get_bit_elem SM_ELEMENT s 182 = Some (of_bool b)"

lemma sm_rang_eq: "elements_only s s' \<Longrightarrow> bit_elem_rang SM_ELEMENT s' = bit_elem_rang SM_ELEMENT s"
  by (simp add: elements_only_eq [of s s'])

lemma clear_flags_ok:
  assumes "wf_state s" and "182 < bit_elem_rang SM_ELEMENT s"
  shows "\<exists>s'. clear_flags s = Some s' \<and> wf_state s' \<and> elements_only s s' \<and> flags_are s' False False False"
proof -
  have r: "180 < bit_elem_rang SM_ELEMENT s" "181 < bit_elem_rang SM_ELEMENT s"
    using assms(2) by (simp_all add: word_less_nat_alt)
  obtain s1 where s1: "set_bit_elem SM_ELEMENT s 180 0 = Some s1" "wf_state s1" "elements_only s s1"
    "get_bit_elem SM_ELEMENT s1 180 = Some (bit_norm 0)"
    using set_sm [OF assms(1) r(1)] by blast
  obtain s2 where s2: "set_bit_elem SM_ELEMENT s1 181 0 = Some s2" "wf_state s2" "elements_only s1 s2"
    "get_bit_elem SM_ELEMENT s2 181 = Some (bit_norm 0)" "\<forall>m. m \<noteq> 181 \<longrightarrow> get_bit_elem SM_ELEMENT s2 m = get_bit_elem SM_ELEMENT s1 m"
    using set_sm [OF s1(2), of 181 0] r(2) sm_rang_eq [OF s1(3)] by auto
  obtain s3 where s3: "set_bit_elem SM_ELEMENT s2 182 0 = Some s3" "wf_state s3" "elements_only s2 s3"
    "get_bit_elem SM_ELEMENT s3 182 = Some (bit_norm 0)" "\<forall>m. m \<noteq> 182 \<longrightarrow> get_bit_elem SM_ELEMENT s3 m = get_bit_elem SM_ELEMENT s2 m"
    using set_sm [OF s2(2), of 182 0] assms(2) sm_rang_eq [OF s1(3)] sm_rang_eq [OF s2(3)] by auto
  show ?thesis
    using s1 s2 s3 elements_only_trans [OF elements_only_trans [OF s1(3) s2(3)] s3(3)] by (simp add: clear_flags_def flags_are_def bit_norm_def)
qed

lemma raise_flag_ok:
  assumes "wf_state s" and "182 < bit_elem_rang SM_ELEMENT s" and "flags_are s z c b"
  shows "\<exists>s'. raise_flag 180 s = Some s' \<and> wf_state s' \<and> elements_only s s' \<and> flags_are s' True c b"
    "\<exists>s'. raise_flag 181 s = Some s' \<and> wf_state s' \<and> elements_only s s' \<and> flags_are s' z True b"
    "\<exists>s'. raise_flag 182 s = Some s' \<and> wf_state s' \<and> elements_only s s' \<and> flags_are s' z c True"
proof -
  have r: "180 < bit_elem_rang SM_ELEMENT s" "181 < bit_elem_rang SM_ELEMENT s"
    using assms(2) by (simp_all add: word_less_nat_alt)
  show "\<exists>s'. raise_flag 180 s = Some s' \<and> wf_state s' \<and> elements_only s s' \<and> flags_are s' True c b"
    using set_sm [OF assms(1) r(1), of 1] assms(3) by (auto simp: raise_flag_def flags_are_def bit_norm_def)
  show "\<exists>s'. raise_flag 181 s = Some s' \<and> wf_state s' \<and> elements_only s s' \<and> flags_are s' z True b"
    using set_sm [OF assms(1) r(2), of 1] assms(3) by (auto simp: raise_flag_def flags_are_def bit_norm_def)
  show "\<exists>s'. raise_flag 182 s = Some s' \<and> wf_state s' \<and> elements_only s s' \<and> flags_are s' z c True"
    using set_sm [OF assms(1,2), of 1] assms(3) by (auto simp: raise_flag_def flags_are_def bit_norm_def)
qed

text \<open>Signed addition of 32-bit words.\<close>

lemma sint_bounds: "- (2 ^ 31) \<le> sint (x :: u32)" "sint x < 2 ^ 31"
  using sint_greater_eq [of x] sint_lt [of x] by simp_all

lemma sint_add_cases:
  fixes x y :: u32
  shows "sint (x + y) = sint x + sint y - (if 2 ^ 31 \<le> sint x + sint y then 2 ^ 32 else if sint x + sint y < - (2 ^ 31) then - (2 ^ 32) else 0)"
proof -
  have "sint (x + y) = signed_take_bit 31 (sint x + sint y)"
    using sint_word_ariths(1) [of x y] by simp
  also have "\<dots> = (sint x + sint y + 2 ^ 31) mod 2 ^ 32 - 2 ^ 31"
    by (simp add: signed_take_bit_eq_take_bit_shift take_bit_eq_mod)
  finally have e: "sint (x + y) = (sint x + sint y + 2 ^ 31) mod 2 ^ 32 - 2 ^ 31" .
  have m: "a mod 2 ^ 32 = (if a < 0 then a + 2 ^ 32 else if a < 2 ^ 32 then a else a - 2 ^ 32)" if a: "- (2 ^ 32) \<le> a" "a < 2 ^ 33" for a :: int
  proof -
    consider "a < 0" | "0 \<le> a" "a < 2 ^ 32" | "2 ^ 32 \<le> a"
      by linarith
    then show ?thesis
    proof cases
      case 1
      then have "(a + 2 ^ 32) mod 2 ^ 32 = a + 2 ^ 32"
        using a by (intro mod_pos_pos_trivial) auto
      then show ?thesis
        using 1 by simp
    next
      case 3
      then have "(a - 2 ^ 32) mod 2 ^ 32 = a - 2 ^ 32"
        using a by (intro mod_pos_pos_trivial) auto
      then show ?thesis
        using 3 by simp
    qed simp
  qed
  show ?thesis
    unfolding e using sint_bounds [of x] sint_bounds [of y] by (subst m) auto
qed

definition dadd_carry :: "u32 \<Rightarrow> u32 \<Rightarrow> bool" where
  "dadd_carry x y \<longleftrightarrow> 2 ^ 31 \<le> sint x + sint y"

definition dadd_borrow :: "u32 \<Rightarrow> u32 \<Rightarrow> bool" where
  "dadd_borrow x y \<longleftrightarrow> sint x + sint y < - (2 ^ 31)"

lemma dadd_signs:
  fixes x y :: u32
  shows "(0 < sint x \<and> 0 < sint y \<and> sint (x + y) < 0) = dadd_carry x y"
    "(sint x \<le> 0 \<and> sint y < 0 \<and> 0 < sint (x + y)) = (dadd_borrow x y \<and> \<not> (sint x = - (2 ^ 31) \<and> sint y = - (2 ^ 31)))"
    "x + y = 0 \<longleftrightarrow> sint x + sint y = 0 \<or> (sint x = - (2 ^ 31) \<and> sint y = - (2 ^ 31))"
proof -
  have z: "x + y = 0 \<longleftrightarrow> sint (x + y) = 0"
    by (metis sint_0 signed_word_eqI)
  show "(0 < sint x \<and> 0 < sint y \<and> sint (x + y) < 0) = dadd_carry x y"
    "(sint x \<le> 0 \<and> sint y < 0 \<and> 0 < sint (x + y)) = (dadd_borrow x y \<and> \<not> (sint x = - (2 ^ 31) \<and> sint y = - (2 ^ 31)))"
    "x + y = 0 \<longleftrightarrow> sint x + sint y = 0 \<or> (sint x = - (2 ^ 31) \<and> sint y = - (2 ^ 31))"
    unfolding z using sint_bounds [of x] sint_bounds [of y] sint_add_cases [of x y]
    by (auto simp: dadd_carry_def dadd_borrow_def split: if_splits)
qed

text \<open>C37. DADD stores the sum modulo \<open>2 ^ 32\<close> and reports it in its flags: the carry flag is on exactly when the
  signed sum exceeds the range; the borrow flag is on exactly when it falls below the range, but for one pair of
  operands: the smallest integer added to itself gives 0 with the zero flag and no borrow.\<close>

theorem dadd_reports_overflow:
  assumes "wf_state s" and "182 < bit_elem_rang SM_ELEMENT s" and "GET_POWER_FLOW (mlv_InPF e)"
    and "get_dword s (mcp_PC e + 2) 0 1 = Some (pdPASS, [x])" and "get_dword s (mcp_PC e + 8) 0 1 = Some (pdPASS, [y])"
  shows "\<exists>s'. elements_only s s' \<and> wf_state s' \<and> run_ci_dadd_ins s e = write_dword s' e 14 (x + y) \<and>
    flags_are s' (sint x + sint y = 0 \<or> (sint x = - (2 ^ 31) \<and> sint y = - (2 ^ 31))) (2 ^ 31 \<le> sint x + sint y)
      (sint x + sint y < - (2 ^ 31) \<and> \<not> (sint x = - (2 ^ 31) \<and> sint y = - (2 ^ 31)))"
proof -
  obtain s1 where s1: "clear_flags s = Some s1" "wf_state s1" "elements_only s s1" "flags_are s1 False False False"
    using clear_flags_ok [OF assms(1,2)] by blast
  have r1: "182 < bit_elem_rang SM_ELEMENT s1"
    using assms(2) sm_rang_eq [OF s1(3)] by simp
  obtain s2 where s2: "(if dadd_carry x y then raise_flag 181 s1
      else if dadd_borrow x y \<and> \<not> (sint x = - (2 ^ 31) \<and> sint y = - (2 ^ 31)) then raise_flag 182 s1 else Some s1) = Some s2"
    "wf_state s2" "elements_only s s2"
    "flags_are s2 False (dadd_carry x y) (dadd_borrow x y \<and> \<not> (sint x = - (2 ^ 31) \<and> sint y = - (2 ^ 31)))"
    using raise_flag_ok [OF s1(2) r1 s1(4)] s1 elements_only_trans [OF s1(3)]
    by (cases "dadd_carry x y"; cases "dadd_borrow x y \<and> \<not> (sint x = - (2 ^ 31) \<and> sint y = - (2 ^ 31))")
      (auto simp: dadd_carry_def dadd_borrow_def)
  have r2: "182 < bit_elem_rang SM_ELEMENT s2"
    using assms(2) sm_rang_eq [OF s2(3)] by simp
  obtain s3 where s3: "(if x + y = 0 then raise_flag 180 s2 else Some s2) = Some s3" "wf_state s3" "elements_only s s3"
    "flags_are s3 (x + y = 0) (dadd_carry x y) (dadd_borrow x y \<and> \<not> (sint x = - (2 ^ 31) \<and> sint y = - (2 ^ 31)))"
    using raise_flag_ok(1) [OF s2(2) r2 s2(4)] s2 elements_only_trans [OF s2(3)] by (cases "x + y = 0") auto
  have "dadd_flags x y (x + y) s1 = Some s3"
    using s2(1) s3(1) unfolding dadd_flags_def dadd_signs(1,2) by simp
  then have "run_ci_dadd_ins s e = write_dword s3 e 14 (x + y)"
    using assms(3-5) s1(1) by (simp add: run_ci_dadd_ins_def when_flow_def read_dword_def rd_def)
  then show ?thesis
    using s3 unfolding dadd_signs(3) dadd_carry_def dadd_borrow_def by blast
qed

abbreviation dadd_code :: "u8 list" where
  "dadd_code \<equiv> [0, 0, 2, 0xFF, 0, 0, 0, 0x80, 2, 0xFF, 0, 0, 0, 0x80]"

lemma dadd_code_const: "const_dword dadd_code 2 0x80000000" "const_dword dadd_code 8 0x80000000"
  by (simp_all add: const_dword_def) code_simp+

theorem dadd_reports_overflow_witness:
  "\<exists>s'. run_ci_dadd_ins (boot_state dadd_code) env0 = write_dword s' env0 14 0 \<and> flags_are s' True False False"
proof -
  have "GET_POWER_FLOW (mlv_InPF env0)" "sint (0x80000000 :: u32) = - (2 ^ 31)" and z: "(4294967296 :: u32) = 0"
    by code_simp+
  then show ?thesis
    using dadd_reports_overflow [of "boot_state dadd_code" env0 "0x80000000" "0x80000000"] dadd_code_const
      get_dword_constant [of "boot_state dadd_code" 2 "0x80000000" 0 1] get_dword_constant [of "boot_state dadd_code" 8 "0x80000000" 0 1]
    by (auto simp: z simp flip: numeral_2_eq_2)
qed

section \<open>Gray code\<close>

lemma gry_twice: "(d XOR drop_bit k d) XOR drop_bit k (d XOR drop_bit k d) = d XOR drop_bit (k + k) d" for d :: "'a::len word"
  by (rule bit_word_eqI) (auto simp: bit_xor_iff bit_drop_bit_eq ac_simps)

lemma gbin_loop_gry_step: "gbin_loop i n (d XOR drop_bit (2 ^ i) d) = d XOR drop_bit (2 ^ (i + n)) d"
  for d :: "'a::len word"
proof (induction n arbitrary: i d)
  case (Suc n)
  show ?case
    unfolding gbin_loop.simps gry_twice using Suc.IH [of "Suc i" d] by (simp flip: mult_2)
qed simp

lemma drop_all: "LENGTH('a) \<le> k \<Longrightarrow> drop_bit k d = 0" for d :: "'a::len word"
  by (rule bit_word_eqI) (auto simp: bit_drop_bit_eq dest: bit_imp_le_length)

lemma gbin_gry: "LENGTH('a) \<le> 2 ^ n \<Longrightarrow> gbin_loop 0 n (gry d) = d" for d :: "'a::len word"
  using gbin_loop_gry_step [of 0 n d] by (simp add: gry_def drop_all)

lemma gry_gbin_loop: "gry (gbin_loop i n d) = gbin_loop i n (gry d)" for d :: "'a::len word"
  by (induction n arbitrary: i d) (simp_all add: gry_def ac_simps)

text \<open>The Gray code conversions are inverse to each other on 16-bit and on 32-bit words.\<close>

theorem gray_round_trip:
  "gbin_loop 0 4 (gry w) = w \<and> gry (gbin_loop 0 4 w) = w \<and> gbin_loop 0 5 (gry d) = d \<and> gry (gbin_loop 0 5 d) = d"
  for w :: u16 and d :: u32
  by (simp add: gry_gbin_loop gbin_gry)

section \<open>BCD\<close>

lemma digit_take: "digit d k = take_bit 4 (drop_bit (4 * k) d)"
proof -
  have m: "(0xF :: 'a::len word) = mask 4"
    by (simp add: mask_eq_exp_minus_1)
  show ?thesis
    unfolding digit_def m
    by (rule bit_word_eqI)
      (auto simp: bit_drop_bit_eq bit_and_iff bit_push_bit_iff bit_mask_iff bit_take_bit_iff simp del: mask_numeral dest: bit_imp_le_length)
qed

lemma digit_nat: "unat (digit d k) = unat d div 16 ^ k mod 16"
  unfolding digit_take unsigned_take_bit_eq unsigned_drop_bit_eq by (simp add: take_bit_eq_mod drop_bit_eq_div power_mult)

text \<open>A number by its digits, the lowest first.\<close>

fun of_digits :: "nat \<Rightarrow> nat list \<Rightarrow> nat" where
  "of_digits b [] = 0"
| "of_digits b (d # ds) = d + b * of_digits b ds"

lemma of_digits_nth: "\<forall>d \<in> set ds. d < b \<Longrightarrow> k < length ds \<Longrightarrow> of_digits b ds div b ^ k mod b = ds ! k"
proof (induction ds arbitrary: k)
  case (Cons d ds)
  then have "(d + b * of_digits b ds) div b = of_digits b ds"
    by simp
  then show ?case
    using Cons by (cases k) (simp_all add: div_mult2_eq)
qed simp

lemma digit_of_digits:
  "unat w = of_digits 16 ds \<Longrightarrow> \<forall>d \<in> set ds. d < 10 \<Longrightarrow> k < length ds \<Longrightarrow> unat (digit w k) = ds ! k"
  using of_digits_nth [of ds 16 k] by (fastforce simp: digit_nat)

definition bcd_digits :: "nat \<Rightarrow> nat list" where
  "bcd_digits n = [n mod 10, n mod 100 div 10, n mod 1000 div 100, n div 1000]"

definition dbcd_digits :: "nat \<Rightarrow> nat list" where
  "dbcd_digits n = [n mod 10, n mod 100 div 10, n mod 1000 div 100, n mod 10000 div 1000, n mod 100000 div 10000,
     n mod 1000000 div 100000, n mod 10000000 div 1000000, n div 100000000]"

lemma bcd_of_digits: "w \<le> 9999 \<Longrightarrow> unat (bcd w) = of_digits 16 (bcd_digits (unat w)) \<and> (\<forall>d \<in> set (bcd_digits (unat w)). d < 10)"
  by (auto simp: bcd_def bcd_digits_def unat_word_ariths unat_div unat_mod word_le_nat_alt less_mult_imp_div_less)

lemma of_digits8: "of_digits 16 [a, b, c, d, e, f, g, h] = 268435456 * h + 16777216 * g + 1048576 * f + 65536 * e + 4096 * d + 256 * c + 16 * b + a"
  by simp

lemma of_digits8_bound:
  "a < 10 \<Longrightarrow> b < 10 \<Longrightarrow> c < 10 \<Longrightarrow> d < 10 \<Longrightarrow> e < 10 \<Longrightarrow> f < 10 \<Longrightarrow> g < 10 \<Longrightarrow> h < 10 \<Longrightarrow>
   of_digits 16 [a, b, c, d, e, f, g, h] < 2 ^ 32"
  by simp

lemma digits_length [simp]: "length (bcd_digits n) = 4" "length (dbcd_digits n) = 8"
  by (simp_all add: bcd_digits_def dbcd_digits_def)

lemma dbcd_digits_small: "n \<le> 99999999 \<Longrightarrow> \<forall>d \<in> set (dbcd_digits n). d < 10"
  by (simp add: dbcd_digits_def less_mult_imp_div_less)

lemma dbcd_nat: "unat (dbcd w) = of_digits 16 (dbcd_digits (unat w)) mod 2 ^ 32"
  unfolding dbcd_digits_def of_digits8 by (simp add: dbcd_def unat_word_ariths unat_div unat_mod mod_simps)

lemma dbcd_of_digits:
  assumes "w \<le> 99999999"
  shows "unat (dbcd w) = of_digits 16 (dbcd_digits (unat w)) \<and> (\<forall>d \<in> set (dbcd_digits (unat w)). d < 10)"
proof -
  have l: "\<forall>d \<in> set (dbcd_digits (unat w)). d < 10"
    using assms by (intro dbcd_digits_small) (simp add: word_le_nat_alt)
  moreover have "of_digits 16 (dbcd_digits (unat w)) < 2 ^ 32"
    using l unfolding dbcd_digits_def by (intro of_digits8_bound) simp_all
  ultimately show ?thesis
    unfolding dbcd_nat by simp
qed

lemma bin_nat: "unat (bin w) = (unat (digit w 3) * 1000 + unat (digit w 2) * 100 + unat (digit w 1) * 10 + unat (digit w 0)) mod 2 ^ 16"
  by (simp add: bin_def unat_word_ariths mod_simps)

lemma dbin_nat: "unat (dbin w) = (unat (digit w 7) * 10000000 + unat (digit w 6) * 1000000 + unat (digit w 5) * 100000 + unat (digit w 4) * 10000 +
   unat (digit w 3) * 1000 + unat (digit w 2) * 100 + unat (digit w 1) * 10 + unat (digit w 0)) mod 2 ^ 32"
  by (simp add: dbin_def unat_word_ariths mod_simps)

text \<open>A number by its decimal digits.\<close>

lemma mod_split: "n mod M = n mod M div m * m + n mod m" if "m dvd M" for n m M :: nat
  using div_mult_mod_eq [of "n mod M" m] mod_mod_cancel [OF that, of n] by simp

lemma mod_splits:
  fixes n :: nat
  shows "n mod 100 = n mod 100 div 10 * 10 + n mod 10" "n mod 1000 = n mod 1000 div 100 * 100 + n mod 100"
    "n mod 10000 = n mod 10000 div 1000 * 1000 + n mod 1000" "n mod 100000 = n mod 100000 div 10000 * 10000 + n mod 10000"
    "n mod 1000000 = n mod 1000000 div 100000 * 100000 + n mod 100000"
    "n mod 10000000 = n mod 10000000 div 1000000 * 1000000 + n mod 1000000"
  by (rule mod_split, simp)+

lemma dec_digits4: "n div 1000 * 1000 + n mod 1000 div 100 * 100 + n mod 100 div 10 * 10 + n mod 10 = n" for n :: nat
  using mod_splits(1,2) [of n] div_mult_mod_eq [of n 1000] by linarith

lemma dec_digits7: "n mod 10000000 div 1000000 * 1000000 + n mod 1000000 div 100000 * 100000 + n mod 100000 div 10000 * 10000 +
    n mod 10000 div 1000 * 1000 + n mod 1000 div 100 * 100 + n mod 100 div 10 * 10 + n mod 10 = n mod 10000000" for n :: nat
  using mod_splits [of n] by linarith

text \<open>C35. BIN undoes BCD on every number that BCD accepts, and the digits BCD produces pass the check of BIN.\<close>

theorem bcd_round_trip:
  assumes "w \<le> 9999"
  shows "bin (bcd w) = w \<and> \<not> list_ex (\<lambda>k. 9 < digit (bcd w) k) [3, 2, 1, 0]"
proof -
  have d: "unat (digit (bcd w) k) = bcd_digits (unat w) ! k" if "k < 4" for k
    using digit_of_digits [of "bcd w" "bcd_digits (unat w)" k] bcd_of_digits [OF assms] that by simp
  have e: "bcd_digits n ! 3 = n div 1000" "bcd_digits n ! 2 = n mod 1000 div 100" "bcd_digits n ! 1 = n mod 100 div 10"
    "bcd_digits n ! 0 = n mod 10" for n
    by (simp_all add: bcd_digits_def)
  have "unat (bin (bcd w)) = unat w mod 2 ^ 16"
    unfolding bin_nat using d [of 3] d [of 2] d [of 1] d [of 0] unfolding e by (simp only: dec_digits4)
  then have "bin (bcd w) = w"
    unfolding word_unat_eq_iff by simp
  moreover have "unat (digit (bcd w) k) \<le> 9" if "k < 4" for k
  proof -
    have "bcd_digits (unat w) ! k \<in> set (bcd_digits (unat w))"
      using that by (intro nth_mem) simp
    then have "bcd_digits (unat w) ! k < 10"
      using bcd_of_digits [OF assms] by blast
    then show ?thesis
      using d [OF that] by simp
  qed
  ultimately show ?thesis
    by (simp add: word_less_nat_alt not_less)
qed

theorem bcd_round_trip_witness: "bcd 1234 = 0x1234 \<and> bin (bcd 1234) = 1234"
  using bcd_round_trip [of 1234] by (simp add: bcd_def)

text \<open>C36. DBCD divides by 100000000 where the highest digit needs 10000000, so that digit is lost: converting back
  with DBIN gives the number modulo 10000000.\<close>

theorem dbcd_drops_top_digit:
  assumes "w \<le> 99999999"
  shows "unat (dbin (dbcd w)) = unat w mod 10000000"
proof -
  have w: "unat w div 100000000 = 0"
    using assms by (simp add: word_le_nat_alt)
  have d: "unat (digit (dbcd w) k) = dbcd_digits (unat w) ! k" if "k < 8" for k
    using digit_of_digits [of "dbcd w" "dbcd_digits (unat w)" k] dbcd_of_digits [OF assms] that by simp
  have e: "dbcd_digits n ! 7 = n div 100000000" "dbcd_digits n ! 6 = n mod 10000000 div 1000000" "dbcd_digits n ! 5 = n mod 1000000 div 100000"
    "dbcd_digits n ! 4 = n mod 100000 div 10000" "dbcd_digits n ! 3 = n mod 10000 div 1000" "dbcd_digits n ! 2 = n mod 1000 div 100"
    "dbcd_digits n ! 1 = n mod 100 div 10" "dbcd_digits n ! 0 = n mod 10" for n
    by (simp_all add: dbcd_digits_def)
  have "unat (dbin (dbcd w)) = unat w mod 10000000 mod 2 ^ 32"
    unfolding dbin_nat using d [of 7] d [of 6] d [of 5] d [of 4] d [of 3] d [of 2] d [of 1] d [of 0]
    unfolding e w by (simp only: dec_digits7 mult_0 add_0)
  then show ?thesis
    by simp
qed

theorem dbcd_drops_top_digit_witness: "unat (dbin (dbcd 12345678)) = 2345678"
  using dbcd_drops_top_digit [of 12345678] by simp

end
