(* ===== verification/PLC_Logic.thy ===== *)
theory PLC_Logic
  imports PLC_Arith
begin

text \<open>
  Logic, rotation and shift instructions, \<open>source/plc/executer/src/plc_dataprocessing.c\<close>.  The rotations with
  carry turn the word together with SM181.  A shift by the width of the register or more gives 0, as on the
  target.
\<close>

section \<open>Logic\<close>

definition run_ci_wand_ins :: "plc_state \<Rightarrow> si_env \<Rightarrow> ci_res" where
  "run_ci_wand_ins = word_bin (AND)"

definition run_ci_wor_ins :: "plc_state \<Rightarrow> si_env \<Rightarrow> ci_res" where
  "run_ci_wor_ins = word_bin (OR)"

definition run_ci_wxor_ins :: "plc_state \<Rightarrow> si_env \<Rightarrow> ci_res" where
  "run_ci_wxor_ins = word_bin (XOR)"

definition run_ci_winv_ins :: "plc_state \<Rightarrow> si_env \<Rightarrow> ci_res" where
  "run_ci_winv_ins = word_un NOT"

definition run_ci_dwand_ins :: "plc_state \<Rightarrow> si_env \<Rightarrow> ci_res" where
  "run_ci_dwand_ins = dword_bin (AND)"

definition run_ci_dwor_ins :: "plc_state \<Rightarrow> si_env \<Rightarrow> ci_res" where
  "run_ci_dwor_ins = dword_bin (OR)"

definition run_ci_dwxor_ins :: "plc_state \<Rightarrow> si_env \<Rightarrow> ci_res" where
  "run_ci_dwxor_ins = dword_bin (XOR)"

definition run_ci_dwinv_ins :: "plc_state \<Rightarrow> si_env \<Rightarrow> ci_res" where
  "run_ci_dwinv_ins = dword_un NOT"

section \<open>Rotations and shifts\<close>

text \<open>The frame of the 16-bit instructions: operand at 2, count at 10, result to 6; and of the 32-bit ones with the
  places of count and result.\<close>

definition sh_word :: "(plc_state \<Rightarrow> u16 \<Rightarrow> nat \<Rightarrow> (u16 \<times> plc_state) option) \<Rightarrow> plc_state \<Rightarrow> si_env \<Rightarrow> ci_res" where
  "sh_word f s e =
     when_flow s e (read_word s e 2 (\<lambda>x. read_word s e 10 (\<lambda>y.
       if sint y < 0 then ci_err ERR_OPERANDS s e
       else do { (z, s') \<leftarrow> f s x (unat y); write_word s' e 6 z })))"

definition sh_dword :: "nat \<Rightarrow> nat \<Rightarrow> (plc_state \<Rightarrow> u32 \<Rightarrow> nat \<Rightarrow> (u32 \<times> plc_state) option) \<Rightarrow> plc_state \<Rightarrow> si_env \<Rightarrow> ci_res" where
  "sh_dword kcnt kdst f s e =
     when_flow s e (read_dword s e 2 (\<lambda>x. read_word s e kcnt (\<lambda>y.
       if sint y < 0 then ci_err ERR_OPERANDS s e
       else do { (z, s') \<leftarrow> f s x (unat y); write_dword s' e kdst z })))"

text \<open>Rotation to the right and to the left; the last bit moved around goes to SM181.\<close>

definition ror :: "plc_state \<Rightarrow> 'a::len word \<Rightarrow> nat \<Rightarrow> ('a word \<times> plc_state) option" where
  "ror s x y =
     (if y = 0 then Some (x, s)
      else let k = y mod LENGTH('a); z = drop_bit k x OR push_bit (LENGTH('a) - k) x in
        do { s' \<leftarrow> set_bit_elem SM_ELEMENT s 181 (ucast (drop_bit (LENGTH('a) - 1) z)); Some (z, s') })"

definition rol :: "plc_state \<Rightarrow> 'a::len word \<Rightarrow> nat \<Rightarrow> ('a word \<times> plc_state) option" where
  "rol s x y =
     (if y = 0 then Some (x, s)
      else let k = y mod LENGTH('a); z = push_bit k x OR drop_bit (LENGTH('a) - k) x in
        do { s' \<leftarrow> set_bit_elem SM_ELEMENT s 181 (ucast (z AND 1)); Some (z, s') })"

definition rcr :: "plc_state \<Rightarrow> 'a::len word \<Rightarrow> nat \<Rightarrow> ('a word \<times> plc_state) option" where
  "rcr s x n =
     (let w = LENGTH('a); y = n mod (w + 1) in
      if y = 0 then Some (x, s)
      else do { c \<leftarrow> get_bit_elem SM_ELEMENT s 181;
                s' \<leftarrow> set_bit_elem SM_ELEMENT s 181 (ucast (drop_bit (y - 1) x AND 1));
                Some (drop_bit y x OR (push_bit (w + 1 - y) x + push_bit (w - y) (ucast c)), s') })"

definition rcl :: "plc_state \<Rightarrow> 'a::len word \<Rightarrow> nat \<Rightarrow> ('a word \<times> plc_state) option" where
  "rcl s x n =
     (let w = LENGTH('a); y = n mod (w + 1) in
      if y = 0 then Some (x, s)
      else do { c \<leftarrow> get_bit_elem SM_ELEMENT s 181;
                s' \<leftarrow> set_bit_elem SM_ELEMENT s 181 (ucast (drop_bit (w - y) x AND 1));
                Some (push_bit y x OR (drop_bit (w + 1 - y) x + push_bit (y - 1) (ucast c)), s') })"

definition shr :: "plc_state \<Rightarrow> 'a::len word \<Rightarrow> nat \<Rightarrow> ('a word \<times> plc_state) option" where
  "shr s x y = Some (if LENGTH('a) \<le> y then 0 else drop_bit y x, s)"

definition shl :: "plc_state \<Rightarrow> 'a::len word \<Rightarrow> nat \<Rightarrow> ('a word \<times> plc_state) option" where
  "shl s x y = Some (if LENGTH('a) \<le> y then 0 else push_bit y x, s)"

definition run_ci_ror_ins :: "plc_state \<Rightarrow> si_env \<Rightarrow> ci_res" where
  "run_ci_ror_ins = sh_word ror"

definition run_ci_rol_ins :: "plc_state \<Rightarrow> si_env \<Rightarrow> ci_res" where
  "run_ci_rol_ins = sh_word rol"

definition run_ci_rcr_ins :: "plc_state \<Rightarrow> si_env \<Rightarrow> ci_res" where
  "run_ci_rcr_ins = sh_word rcr"

definition run_ci_rcl_ins :: "plc_state \<Rightarrow> si_env \<Rightarrow> ci_res" where
  "run_ci_rcl_ins = sh_word rcl"

definition run_ci_dror_ins :: "plc_state \<Rightarrow> si_env \<Rightarrow> ci_res" where
  "run_ci_dror_ins = sh_dword 14 8 ror"

definition run_ci_drol_ins :: "plc_state \<Rightarrow> si_env \<Rightarrow> ci_res" where
  "run_ci_drol_ins = sh_dword 14 8 rol"

definition run_ci_drcr_ins :: "plc_state \<Rightarrow> si_env \<Rightarrow> ci_res" where
  "run_ci_drcr_ins = sh_dword 14 8 rcr"

definition run_ci_drcl_ins :: "plc_state \<Rightarrow> si_env \<Rightarrow> ci_res" where
  "run_ci_drcl_ins = sh_dword 14 8 rcl"

definition run_ci_shr_ins :: "plc_state \<Rightarrow> si_env \<Rightarrow> ci_res" where
  "run_ci_shr_ins = sh_word shr"

definition run_ci_shl_ins :: "plc_state \<Rightarrow> si_env \<Rightarrow> ci_res" where
  "run_ci_shl_ins = sh_word shl"

definition run_ci_dshr_ins :: "plc_state \<Rightarrow> si_env \<Rightarrow> ci_res" where
  "run_ci_dshr_ins = sh_dword 14 8 shr"

text \<open>DSHL reads its count at 10 and writes its result to 6, inside the operands of the other 32-bit shifts.\<close>

definition run_ci_dshl_ins :: "plc_state \<Rightarrow> si_env \<Rightarrow> ci_res" where
  "run_ci_dshl_ins = sh_dword 10 6 shl"

section \<open>Bit strings\<close>

text \<open>One step of the copy loops: a bit from one place to another, the error of either access ends the loop.\<close>

definition copy_bit :: "plc_state \<Rightarrow> nat \<Rightarrow> u16 \<Rightarrow> nat \<Rightarrow> u16 \<Rightarrow> (plc_ret \<times> plc_state) option" where
  "copy_bit s src i dst j =
     do { (r, cs) \<leftarrow> get_char s src i 1;
          if r \<noteq> pdPASS then Some (r, s) else do { c \<leftarrow> rd cs 0; save_char s dst [c] j 1 } }"

fun copy_bits :: "plc_state \<Rightarrow> nat \<Rightarrow> nat \<Rightarrow> (u16 \<times> u16) list \<Rightarrow> (plc_ret \<times> plc_state) option" where
  "copy_bits s src dst [] = Some (pdPASS, s)"
| "copy_bits s src dst ((i, j) # ps) =
     do { (r, s') \<leftarrow> copy_bit s src i dst j; if r \<noteq> pdPASS then Some (r, s') else copy_bits s' src dst ps }"

text \<open>The overlap test on the operand words: equal type words and the source inside the destination.\<close>

definition sft_overlap :: "plc_state \<Rightarrow> si_env \<Rightarrow> int \<Rightarrow> int \<Rightarrow> bool option" where
  "sft_overlap s e s1 s2 =
     do { ts \<leftarrow> GET_PU16_DATA (ucode s) (mcp_PC e + 2); td \<leftarrow> GET_PU16_DATA (ucode s) (mcp_PC e + 6);
          if ts = td then
            do { a \<leftarrow> GET_PU16_DATA (ucode s) (mcp_PC e + 4); d \<leftarrow> GET_PU16_DATA (ucode s) (mcp_PC e + 8);
                 Some ((uint d \<le> uint a \<and> uint a < uint d + s1) \<or> (uint d \<le> uint a + s2 \<and> uint a + s2 < uint d + s1)) }
          else Some False }"

definition sft :: "(nat \<Rightarrow> nat \<Rightarrow> (u16 \<times> u16) list) \<Rightarrow> (nat \<Rightarrow> nat \<Rightarrow> (u16 \<times> u16) list) \<Rightarrow> plc_state \<Rightarrow> si_env \<Rightarrow> ci_res" where
  "sft moves fills s e =
     when_flow s e (read_word s e 10 (\<lambda>s1. read_word s e 14 (\<lambda>s2.
       if sint s1 < 0 \<or> sint s2 < 0 \<or> sint s1 < sint s2 \<or> 1024 < sint s1 then ci_err ERR_OPERANDS s e
       else do {
         ov \<leftarrow> sft_overlap s e (sint s1) (sint s2);
         if ov then ci_err ERR_OPERANDS s e
         else do {
           (r, s') \<leftarrow> copy_bits s (mcp_PC e + 6) (mcp_PC e + 6) (moves (unat s1) (unat s2));
           if r \<noteq> pdPASS then ci_err r s' e
           else do { (r, s'') \<leftarrow> copy_bits s' (mcp_PC e + 2) (mcp_PC e + 6) (fills (unat s1) (unat s2)); ci_err r s'' e } } })))"

definition run_ci_sftr_ins :: "plc_state \<Rightarrow> si_env \<Rightarrow> ci_res" where
  "run_ci_sftr_ins =
     sft (\<lambda>n k. map (\<lambda>i. (of_nat (k + i), of_nat i)) [0..<n - k]) (\<lambda>n k. map (\<lambda>i. (of_nat i, of_nat (n - k + i))) [0..<k])"

definition run_ci_sftl_ins :: "plc_state \<Rightarrow> si_env \<Rightarrow> ci_res" where
  "run_ci_sftl_ins =
     sft (\<lambda>n k. map (\<lambda>i. (of_nat (n - k - 1 - i), of_nat (n - 1 - i))) [0..<n - k]) (\<lambda>n k. map (\<lambda>i. (of_nat i, of_nat i)) [0..<k])"

section \<open>Rotation through the carry\<close>

text \<open>Bit \<open>i\<close> of the word \<open>x\<close> extended by the carry \<open>c\<close> above its highest bit.\<close>

definition cbit :: "'a::len word \<Rightarrow> bool \<Rightarrow> nat \<Rightarrow> bool" where
  "cbit x c i = (if i = LENGTH('a) then c else bit x i)"

lemma bit_plus: "\<forall>n. \<not> (bit a n \<and> bit b n) \<Longrightarrow> bit (a + b) i = (bit a i \<or> bit b i)" for a b :: "'a::len word"
  using disjunctive_add [of a b] by (auto simp: bit_or_iff)

lemma bit_carry: "bit (push_bit q (ucast (of_bool c :: u8)) :: 'a::len word) i = (i = q \<and> c \<and> i < LENGTH('a))"
  by (cases c) (auto simp: bit_exp_iff)

lemma carry_sum:
  fixes x :: "'a::len word"
  assumes "q < p"
  shows "bit (push_bit p x + push_bit q (ucast (of_bool c :: u8))) i = ((p \<le> i \<and> i < LENGTH('a) \<and> bit x (i - p)) \<or> (i = q \<and> c \<and> i < LENGTH('a)))"
proof -
  have "\<forall>n. \<not> (bit (push_bit p x) n \<and> bit (push_bit q (ucast (of_bool c :: u8)) :: 'a word) n)"
    unfolding bit_carry using assms by (auto simp: bit_push_bit_iff)
  from bit_plus [OF this] show ?thesis
    unfolding bit_carry by (auto simp: bit_push_bit_iff)
qed

lemma carry_sum2:
  fixes x :: "'a::len word"
  assumes "LENGTH('a) \<le> p + q"
  shows "bit (drop_bit p x + push_bit q (ucast (of_bool c :: u8))) i = (bit x (p + i) \<or> (i = q \<and> c \<and> i < LENGTH('a)))"
proof -
  have "\<forall>n. \<not> (bit (drop_bit p x) n \<and> bit (push_bit q (ucast (of_bool c :: u8)) :: 'a word) n)"
    unfolding bit_carry bit_drop_bit_eq using assms by (auto dest: bit_imp_le_length)
  from bit_plus [OF this] show ?thesis
    unfolding bit_carry by (simp add: bit_drop_bit_eq)
qed

lemma mod_turn: "i \<le> w \<Longrightarrow> y \<le> w \<Longrightarrow> (i + y) mod (w + 1) = (if i + y \<le> w then i + y else i + y - (w + 1))" for i w y :: nat
  by (simp add: mod_if)

lemma rcr_word:
  fixes x :: "'a::len word"
  assumes "0 < y" and "p + y = LENGTH('a) + 1" and "q + y = LENGTH('a)" and "i \<le> LENGTH('a)"
  shows "cbit (drop_bit y x OR (push_bit p x + push_bit q (ucast (of_bool c :: u8)))) (bit x (y - 1)) i =
    cbit x c ((i + y) mod (LENGTH('a) + 1))"
proof -
  have "(i + y) mod (LENGTH('a) + 1) = (if i + y \<le> LENGTH('a) then i + y else i + y - (LENGTH('a) + 1))"
    using assms by (intro mod_turn) auto
  moreover have "i - p = i + y - (LENGTH('a) + 1)" "q < p"
    using assms by auto
  ultimately show ?thesis
    using assms by (auto simp: cbit_def bit_or_iff carry_sum bit_drop_bit_eq add.commute dest: bit_imp_le_length)
qed

lemma rcl_word:
  fixes x :: "'a::len word"
  assumes "0 < y" and "p + y = LENGTH('a) + 1" and "q + y = LENGTH('a)" and "i \<le> LENGTH('a)"
  shows "cbit (push_bit y x OR (drop_bit p x + push_bit (y - 1) (ucast (of_bool c :: u8)))) (bit x q) i =
    cbit x c ((i + p) mod (LENGTH('a) + 1))"
proof -
  have "(i + p) mod (LENGTH('a) + 1) = (if i + p \<le> LENGTH('a) then i + p else i + p - (LENGTH('a) + 1))"
    using assms by (intro mod_turn) auto
  moreover have "i + p - (LENGTH('a) + 1) = i - y" "LENGTH('a) \<le> p + (y - 1)" "LENGTH('a) - y = q"
    using assms by auto
  ultimately show ?thesis
    using assms by (auto simp: cbit_def bit_or_iff carry_sum2 bit_push_bit_iff add.commute dest: bit_imp_le_length)
qed

lemma sm_flag:
  assumes "wf_state s" and "181 < bit_elem_rang SM_ELEMENT s"
  shows "\<exists>s'. set_bit_elem SM_ELEMENT s 181 (ucast (drop_bit k (x :: 'a::len word) AND 1)) = Some s' \<and> wf_state s' \<and> elements_only s s' \<and>
    get_bit_elem SM_ELEMENT s' 181 = Some (of_bool (bit x k))"
proof -
  have "(ucast (drop_bit k x AND 1) :: u8) = of_bool (bit x k)"
    by (cases "bit x k") (simp_all add: and_one_eq bit_iff_odd_drop_bit odd_iff_mod_2_eq_one)
  then show ?thesis
    using set_sm [OF assms, of "ucast (drop_bit k x AND 1)"] by (auto simp: bit_norm_def)
qed

text \<open>The rotations with carry turn the word and SM181 together, as one register with one bit more than the
  word: RCR moves the bit at position \<open>i + n\<close> (modulo that width) to position \<open>i\<close>, RCL moves it back.\<close>

theorem rotate_through_carry:
  fixes x :: "'a::len word"
  assumes "wf_state s" and "181 < bit_elem_rang SM_ELEMENT s" and "get_bit_elem SM_ELEMENT s 181 = Some (of_bool c)"
  shows "(\<exists>z s' c'. rcr s x n = Some (z, s') \<and> get_bit_elem SM_ELEMENT s' 181 = Some (of_bool c') \<and>
      (\<forall>i \<le> LENGTH('a). cbit z c' i = cbit x c ((i + n) mod (LENGTH('a) + 1)))) \<and>
    (\<exists>z s' c'. rcl s x n = Some (z, s') \<and> get_bit_elem SM_ELEMENT s' 181 = Some (of_bool c') \<and>
      (\<forall>i \<le> LENGTH('a). cbit x c i = cbit z c' ((i + n) mod (LENGTH('a) + 1))))"
proof -
  let ?w = "LENGTH('a)"
  let ?y = "n mod (?w + 1)"
  have y: "?y \<le> ?w" and t: "(i + ?y) mod (?w + 1) = (i + n) mod (?w + 1)" for i
    by (simp_all add: less_Suc_eq_le [symmetric] mod_add_right_eq del: less_Suc_eq_le)
  show ?thesis
  proof (cases "?y = 0")
    case True
    have "(i + n) mod (?w + 1) = i" if "i \<le> ?w" for i
      using t [of i] that unfolding True by simp
    then show ?thesis
      using True assms(3) by (auto simp: rcr_def rcl_def Let_def)
  next
    case False
    let ?p = "?w + 1 - ?y" and ?q = "?w - ?y"
    have pq: "0 < ?y" "?p + ?y = ?w + 1" "?q + ?y = ?w"
      using False y by auto
    obtain s1 where s1: "set_bit_elem SM_ELEMENT s 181 (ucast (drop_bit (?y - 1) x AND 1)) = Some s1"
      "get_bit_elem SM_ELEMENT s1 181 = Some (of_bool (bit x (?y - 1)))"
      using sm_flag [OF assms(1,2)] by blast
    obtain s2 where s2: "set_bit_elem SM_ELEMENT s 181 (ucast (drop_bit ?q x AND 1)) = Some s2"
      "get_bit_elem SM_ELEMENT s2 181 = Some (of_bool (bit x ?q))"
      using sm_flag [OF assms(1,2)] by blast
    let ?zr = "drop_bit ?y x OR (push_bit ?p x + push_bit ?q (ucast (of_bool c :: u8)))"
    let ?zl = "push_bit ?y x OR (drop_bit ?p x + push_bit (?y - 1) (ucast (of_bool c :: u8)))"
    have "rcr s x n = Some (?zr, s1)" "rcl s x n = Some (?zl, s2)"
      using s1(1) s2(1) False assms(3) unfolding rcr_def rcl_def Let_def by auto
    moreover have "\<forall>i \<le> ?w. cbit ?zr (bit x (?y - 1)) i = cbit x c ((i + n) mod (?w + 1))"
      using rcr_word [OF pq] unfolding t by blast
    moreover have "\<forall>i \<le> ?w. cbit x c i = cbit ?zl (bit x ?q) ((i + n) mod (?w + 1))"
    proof (intro allI impI)
      fix i assume i: "i \<le> ?w"
      let ?j = "(i + n) mod (?w + 1)"
      have "?j \<le> ?w"
        by (simp add: less_Suc_eq_le [symmetric] del: less_Suc_eq_le)
      moreover have "(?j + ?p) mod (?w + 1) = i"
      proof -
        have "(?j + ?p) mod (?w + 1) = ((i + ?y) mod (?w + 1) + ?p) mod (?w + 1)"
          by (simp only: t)
        also have "\<dots> = (i + ?y + ?p) mod (?w + 1)"
          by (rule mod_add_left_eq)
        also have "\<dots> = (i + (?p + ?y)) mod (?w + 1)"
          by (simp only: ac_simps)
        also have "\<dots> = i"
          using i unfolding pq(2) mod_add_self2 by (intro mod_less) simp
        finally show ?thesis .
      qed
      ultimately show "cbit x c i = cbit ?zl (bit x ?q) ?j"
        using rcl_word [OF pq, of ?j] by simp
    qed
    ultimately show ?thesis
      using s1(2) s2(2) by blast
  qed
qed

theorem rotate_through_carry_witness:
  "\<exists>z s' c'. rcr (boot_state []) (0x8001 :: u16) 1 = Some (z, s') \<and> get_bit_elem SM_ELEMENT s' 181 = Some (of_bool c') \<and>
    (\<forall>i \<le> 16. cbit z c' i = cbit (0x8001 :: u16) False ((i + 1) mod 17))"
proof -
  have "get_bit_elem SM_ELEMENT (boot_state []) 181 = Some (of_bool False)"
    by (simp add: get_bit_elem_def get_bit_alt rd_def)
  then show ?thesis
    using rotate_through_carry [of "boot_state []" False "0x8001 :: u16" 1] by auto
qed

end
