(* ===== verification/PLC_Move.thy ===== *)
theory PLC_Move
  imports PLC_Logic
begin

text \<open>
  Moves, blocks and tables of words, \<open>source/plc/executer/src/plc_dataprocessing.c\<close>: single and block moves,
  exchange, the stack and queue instructions PUSH, LIFO and FIFO, word shifts, splitting and joining of bytes and
  nibbles, limits, averages, search and block arithmetic.  The scratch buffers that some instructions take from the
  heap are lists; the allocation is asserted to succeed in the code.
\<close>

section \<open>Moves\<close>

definition run_ci_mov_ins :: "plc_state \<Rightarrow> si_env \<Rightarrow> ci_res" where
  "run_ci_mov_ins = word_un (\<lambda>x. x)"

definition run_ci_rmov_ins :: "plc_state \<Rightarrow> si_env \<Rightarrow> ci_res" where
  "run_ci_rmov_ins s e =
     when_flow s e (do {
       (r, ws) \<leftarrow> get_float s (mcp_PC e + 2) 0 1;
       if r \<noteq> pdPASS then ci_err r s e
       else do { w \<leftarrow> rd ws 0; (r, s') \<leftarrow> save_float s (mcp_PC e + 8) [w] 0 1; ci_err r s' e } })"

definition run_ci_dmov_ins :: "plc_state \<Rightarrow> si_env \<Rightarrow> ci_res" where
  "run_ci_dmov_ins = dword_un (\<lambda>x. x)"

text \<open>A word from one place to another, and a loop of such copies that the error of an access ends.\<close>

definition copy_word :: "plc_state \<Rightarrow> nat \<Rightarrow> u16 \<Rightarrow> nat \<Rightarrow> u16 \<Rightarrow> (plc_ret \<times> plc_state) option" where
  "copy_word s src i dst j =
     do { (r, ws) \<leftarrow> get_word s src i 1;
          if r \<noteq> pdPASS then Some (r, s)
          else do { w \<leftarrow> rd ws 0; (r, s', _) \<leftarrow> save_word s dst [w] j 1; Some (r, s') } }"

fun copy_words :: "plc_state \<Rightarrow> nat \<Rightarrow> nat \<Rightarrow> (u16 \<times> u16) list \<Rightarrow> (plc_ret \<times> plc_state) option" where
  "copy_words s src dst [] = Some (pdPASS, s)"
| "copy_words s src dst ((i, j) # ps) =
     do { (r, s') \<leftarrow> copy_word s src i dst j; if r \<noteq> pdPASS then Some (r, s') else copy_words s' src dst ps }"

definition at_env :: "si_env \<Rightarrow> (plc_ret \<times> plc_state) option \<Rightarrow> ci_res" where
  "at_env e x = do { (r, s) \<leftarrow> x; Some (r, s, e) }"

definition run_ci_bmov_ins :: "plc_state \<Rightarrow> si_env \<Rightarrow> ci_res" where
  "run_ci_bmov_ins s e =
     when_flow s e (read_word s e 10 (\<lambda>c.
       if sint c \<le> 0 then ci_err ERR_OPERANDS s e
       else at_env e (copy_words s (mcp_PC e + 2) (mcp_PC e + 6) (map (\<lambda>i. (of_nat i, of_nat i)) [0..<unat c]))))"

fun fill_words :: "plc_state \<Rightarrow> nat \<Rightarrow> u16 \<Rightarrow> nat \<Rightarrow> nat \<Rightarrow> (plc_ret \<times> plc_state) option" where
  "fill_words s a w i 0 = Some (pdPASS, s)"
| "fill_words s a w i (Suc n) =
     do { (r, s', _) \<leftarrow> save_word s a [w] (of_nat i) 1; if r \<noteq> pdPASS then Some (r, s') else fill_words s' a w (Suc i) n }"

definition run_ci_fmov_ins :: "plc_state \<Rightarrow> si_env \<Rightarrow> ci_res" where
  "run_ci_fmov_ins s e =
     when_flow s e (read_word s e 10 (\<lambda>c.
       if sint c \<le> 0 then ci_err ERR_OPERANDS s e
       else read_word s e 2 (\<lambda>w. at_env e (fill_words s (mcp_PC e + 6) w 0 (unat c)))))"

fun fill_dwords :: "plc_state \<Rightarrow> nat \<Rightarrow> u32 \<Rightarrow> nat \<Rightarrow> nat \<Rightarrow> (plc_ret \<times> plc_state) option" where
  "fill_dwords s a w i 0 = Some (pdPASS, s)"
| "fill_dwords s a w i (Suc n) =
     do { (r, s', _) \<leftarrow> save_dword s a [w] (of_nat i) 1; if r \<noteq> pdPASS then Some (r, s') else fill_dwords s' a w (Suc i) n }"

definition run_ci_dfmov_ins :: "plc_state \<Rightarrow> si_env \<Rightarrow> ci_res" where
  "run_ci_dfmov_ins s e =
     when_flow s e (read_word s e 14 (\<lambda>c.
       if sint c \<le> 0 then ci_err ERR_OPERANDS s e
       else read_dword s e 2 (\<lambda>w. at_env e (fill_dwords s (mcp_PC e + 8) w 0 (unat c)))))"

definition swap_bytes :: "u16 \<Rightarrow> u16" where
  "swap_bytes w = push_bit 8 (w AND 0xFF) OR (drop_bit 8 w AND 0xFF)"

definition run_ci_swap_ins :: "plc_state \<Rightarrow> si_env \<Rightarrow> ci_res" where
  "run_ci_swap_ins s e = when_flow s e (read_word s e 2 (\<lambda>w. write_word s e 2 (swap_bytes w)))"

text \<open>SWAPWORD works on pointers into the element arrays; each pair is written one half after the other, so a
  destination that is the source reads its own result.\<close>

fun swap_words :: "plc_state \<Rightarrow> word_area \<Rightarrow> u16 \<Rightarrow> word_area \<Rightarrow> u16 \<Rightarrow> nat \<Rightarrow> nat \<Rightarrow> plc_state option" where
  "swap_words s a i b j k 0 = Some s"
| "swap_words s a i b j k (Suc n) =
     do { hi \<leftarrow> get_word_elem a s (i + of_nat (2 * k + 1));
          s1 \<leftarrow> set_word_elem b s (j + of_nat (2 * k)) hi;
          lo \<leftarrow> get_word_elem a s1 (i + of_nat (2 * k));
          s2 \<leftarrow> set_word_elem b s1 (j + of_nat (2 * k + 1)) lo;
          swap_words s2 a i b j (Suc k) n }"

definition run_ci_swapword_ins :: "plc_state \<Rightarrow> si_env \<Rightarrow> ci_res" where
  "run_ci_swapword_ins s e =
     when_flow s e (read_word s e 14 (\<lambda>c.
       if c = 0 then ci_ok s e
       else let c2 = push_bit 1 c in do {
         (r, p) \<leftarrow> get_word_addr s (mcp_PC e + 2) c2;
         if r \<noteq> pdPASS then ci_err r s e
         else do {
           (r, q) \<leftarrow> get_word_addr s (mcp_PC e + 8) c2;
           if r \<noteq> pdPASS then ci_err r s e
           else do { (a, i) \<leftarrow> p; (b, j) \<leftarrow> q; s' \<leftarrow> swap_words s a i b j 0 (unat (drop_bit 1 c2)); ci_ok s' e } } }))"

definition run_ci_xch_ins :: "plc_state \<Rightarrow> si_env \<Rightarrow> ci_res" where
  "run_ci_xch_ins s e =
     when_flow s e (read_word s e 2 (\<lambda>x. read_word s e 6 (\<lambda>y.
       then_ins (write_word s e 2 y) (\<lambda>s1. write_word s1 e 6 x))))"

definition run_ci_dxch_ins :: "plc_state \<Rightarrow> si_env \<Rightarrow> ci_res" where
  "run_ci_dxch_ins s e =
     when_flow s e (read_dword s e 2 (\<lambda>x. read_dword s e 8 (\<lambda>y.
       then_ins (write_dword s e 2 y) (\<lambda>s1. write_dword s1 e 8 x))))"

section \<open>Stack and queue\<close>

text \<open>A table is a count followed by its entries.\<close>

definition run_ci_push_ins :: "plc_state \<Rightarrow> si_env \<Rightarrow> ci_res" where
  "run_ci_push_ins s e =
     when_flow s e (read_word s e 10 (\<lambda>n.
       if sint n \<le> 0 then ci_err ERR_STACK_DEFINE s e
       else read_word s e 6 (\<lambda>k.
         if sint k < 0 then ci_err ERR_STACK_DEFINE s e
         else if sint n < sint k then do { s1 \<leftarrow> raise_flag 181 s; ci_err ERR_STACK_DEFINE s1 e }
         else do {
           s1 \<leftarrow> set_bit_elem SM_ELEMENT s 181 0;
           if k = n then do { s2 \<leftarrow> raise_flag 181 s1; ci_ok s2 e }
           else read_word s1 e 2 (\<lambda>w.
             then_ins (write_word_at (k + 1) s1 e 6 w) (\<lambda>s2. write_word s2 e 6 (k + 1))) })))"

text \<open>The common beginning of FIFO and LIFO: table at 2, size at 10; an empty table sets the zero flag.\<close>

definition pop_table :: "plc_state \<Rightarrow> si_env \<Rightarrow> (plc_state \<Rightarrow> u16 \<Rightarrow> ci_res) \<Rightarrow> ci_res" where
  "pop_table s e f =
     when_flow s e (read_word s e 10 (\<lambda>n.
       if sint n \<le> 0 then ci_err ERR_STACK_DEFINE s e
       else read_word s e 2 (\<lambda>k.
         if sint k < 0 \<or> sint n < sint k then ci_err ERR_STACK_DEFINE s e
         else do {
           s1 \<leftarrow> set_bit_elem SM_ELEMENT s 180 0;
           if k = 0 then do { s2 \<leftarrow> raise_flag 180 s1; ci_ok s2 e } else f s1 k })))"

definition run_ci_fifo_ins :: "plc_state \<Rightarrow> si_env \<Rightarrow> ci_res" where
  "run_ci_fifo_ins s e =
     pop_table s e (\<lambda>s1 k. read_word_at 1 s1 e 2 (\<lambda>w. then_ins (write_word s1 e 6 w) (\<lambda>s2.
       then_ins (at_env e (copy_words s2 (mcp_PC e + 2) (mcp_PC e + 2) (map (\<lambda>i. (of_nat i + 1, of_nat i)) [1..<unat k])))
         (\<lambda>s3. write_word s3 e 2 (k - 1)))))"

definition run_ci_lifo_ins :: "plc_state \<Rightarrow> si_env \<Rightarrow> ci_res" where
  "run_ci_lifo_ins s e =
     pop_table s e (\<lambda>s1 k. read_word_at k s1 e 2 (\<lambda>w. then_ins (write_word s1 e 6 w) (\<lambda>s2. write_word s2 e 2 (k - 1))))"

section \<open>Word shifts\<close>

definition wsf :: "(nat \<Rightarrow> nat \<Rightarrow> (u16 \<times> u16) list) \<Rightarrow> (nat \<Rightarrow> nat \<Rightarrow> (u16 \<times> u16) list) \<Rightarrow> plc_state \<Rightarrow> si_env \<Rightarrow> ci_res" where
  "wsf moves fills s e =
     when_flow s e (read_word s e 10 (\<lambda>n. read_word s e 14 (\<lambda>k.
       if sint n < 0 \<or> sint k < 0 \<or> sint n < sint k then ci_err ERR_OPERANDS s e
       else then_ins (at_env e (copy_words s (mcp_PC e + 6) (mcp_PC e + 6) (moves (unat n) (unat k))))
         (\<lambda>s1. at_env e (copy_words s1 (mcp_PC e + 2) (mcp_PC e + 6) (fills (unat n) (unat k)))))))"

definition run_ci_wsfr_ins :: "plc_state \<Rightarrow> si_env \<Rightarrow> ci_res" where
  "run_ci_wsfr_ins =
     wsf (\<lambda>n k. map (\<lambda>i. (of_nat (i + k), of_nat i)) [0..<n - k]) (\<lambda>n k. map (\<lambda>i. (of_nat i, of_nat (i + (n - k)))) [0..<k])"

text \<open>The loop of WSFL counts upwards from the length of the destination, until its 16-bit counter wraps to 0.\<close>

definition run_ci_wsfl_ins :: "plc_state \<Rightarrow> si_env \<Rightarrow> ci_res" where
  "run_ci_wsfl_ins =
     wsf (\<lambda>n k. if k < n then map (\<lambda>i. (of_nat (i - k - 1), of_nat (i - 1))) [n..<65536] else [])
       (\<lambda>n k. map (\<lambda>i. (of_nat i, of_nat i)) [0..<k])"

section \<open>Bytes and nibbles\<close>

fun wtob_loop :: "plc_state \<Rightarrow> si_env \<Rightarrow> nat \<Rightarrow> nat \<Rightarrow> (plc_ret \<times> plc_state) option" where
  "wtob_loop s e i 0 = Some (pdPASS, s)"
| "wtob_loop s e i (Suc n) =
     do { (r, ws) \<leftarrow> get_word s (mcp_PC e + 2) (of_nat i) 1;
          if r \<noteq> pdPASS then Some (r, s)
          else do {
            w \<leftarrow> rd ws 0;
            (r, s', _) \<leftarrow> save_word s (mcp_PC e + 6) [drop_bit 8 w AND 0xFF, w AND 0xFF] (of_nat (i * 2)) 2;
            if r \<noteq> pdPASS then Some (r, s') else wtob_loop s' e (Suc i) n } }"

definition run_ci_wtob_ins :: "plc_state \<Rightarrow> si_env \<Rightarrow> ci_res" where
  "run_ci_wtob_ins s e =
     when_flow s e (read_word s e 10 (\<lambda>c.
       if sint c < 0 then ci_err ERR_OPERANDS s e
       else let h = unat c div 2 in
         then_ins (at_env e (wtob_loop s e 0 h)) (\<lambda>s1.
           if odd (unat c) then
             read_word_at (of_nat h) s1 e 2 (\<lambda>w. write_word_at (of_nat (h * 2)) s1 e 6 (drop_bit 8 w AND 0xFF))
           else ci_ok s1 e)))"

fun btow_loop :: "plc_state \<Rightarrow> si_env \<Rightarrow> nat \<Rightarrow> nat \<Rightarrow> (plc_ret \<times> plc_state) option" where
  "btow_loop s e i 0 = Some (pdPASS, s)"
| "btow_loop s e i (Suc n) =
     do { (r, ws) \<leftarrow> get_word s (mcp_PC e + 2) (of_nat (i * 2)) 2;
          if r \<noteq> pdPASS then Some (r, s)
          else do {
            a \<leftarrow> rd ws 0; b \<leftarrow> rd ws 1;
            (r, s', _) \<leftarrow> save_word s (mcp_PC e + 6) [push_bit 8 (a AND 0xFF) OR (b AND 0xFF)] (of_nat i) 1;
            if r \<noteq> pdPASS then Some (r, s') else btow_loop s' e (Suc i) n } }"

definition run_ci_btow_ins :: "plc_state \<Rightarrow> si_env \<Rightarrow> ci_res" where
  "run_ci_btow_ins s e =
     when_flow s e (read_word s e 10 (\<lambda>c.
       if sint c < 0 then ci_err ERR_OPERANDS s e
       else let h = unat c div 2 in
         then_ins (at_env e (btow_loop s e 0 h)) (\<lambda>s1.
           if odd (unat c) then
             read_word_at (of_nat (2 * h)) s1 e 2 (\<lambda>w. write_word_at (of_nat h) s1 e 6 (push_bit 8 (w AND 0xFF)))
           else ci_ok s1 e)))"

text \<open>Reading \<open>c\<close> words at once.\<close>

definition read_words :: "plc_state \<Rightarrow> si_env \<Rightarrow> nat \<Rightarrow> u16 \<Rightarrow> (u16 list \<Rightarrow> ci_res) \<Rightarrow> ci_res" where
  "read_words s e k c f =
     do { (r, ws) \<leftarrow> get_word s (mcp_PC e + k) 0 c; if r \<noteq> pdPASS then ci_err r s e else f ws }"

definition write_words :: "plc_state \<Rightarrow> si_env \<Rightarrow> nat \<Rightarrow> u16 list \<Rightarrow> ci_res" where
  "write_words s e k ws = do { (r, s', _) \<leftarrow> save_word s (mcp_PC e + k) ws 0 (of_nat (length ws)); Some (r, s', e) }"

text \<open>A constant operand fills only the first place of the buffer; the others keep their initial 0.\<close>

definition pad4 :: "u16 list \<Rightarrow> u16 list" where
  "pad4 ws = take 4 (ws @ [0, 0, 0, 0])"

definition run_ci_uni_ins :: "plc_state \<Rightarrow> si_env \<Rightarrow> ci_res" where
  "run_ci_uni_ins s e =
     when_flow s e (read_word s e 10 (\<lambda>c.
       if sint c < 1 \<or> 4 < sint c then ci_err ERR_OPERANDS s e
       else read_words s e 2 c (\<lambda>ws.
         write_word s e 6 (case pad4 ws of
           [a, b, c, d] \<Rightarrow> push_bit 12 (a AND 0xF) OR push_bit 8 (b AND 0xF) OR push_bit 4 (c AND 0xF) OR (d AND 0xF)
         | _ \<Rightarrow> 0))))"

definition run_ci_dis_ins :: "plc_state \<Rightarrow> si_env \<Rightarrow> ci_res" where
  "run_ci_dis_ins s e =
     when_flow s e (read_word s e 10 (\<lambda>c.
       if sint c < 1 \<or> 4 < sint c then ci_err ERR_OPERANDS s e
       else read_word s e 2 (\<lambda>w. write_words s e 6 (map (\<lambda>i. drop_bit ((3 - i) * 4) w AND 0xF) [0..<unat c]))))"

definition run_ci_alt_ins :: "plc_state \<Rightarrow> si_env \<Rightarrow> ci_res" where
  "run_ci_alt_ins s e =
     when_flow s e (do {
       (r, cs) \<leftarrow> get_char s (mcp_PC e + 2) 0 1;
       if r \<noteq> pdPASS then ci_err r s e else do { c \<leftarrow> rd cs 0; write_chars s e 2 [1 - (c AND 1)] } })"

section \<open>Limits\<close>

definition three_words :: "(int \<Rightarrow> int \<Rightarrow> int \<Rightarrow> int) \<Rightarrow> plc_state \<Rightarrow> si_env \<Rightarrow> ci_res" where
  "three_words f s e =
     when_flow s e (read_word s e 2 (\<lambda>lo. read_word s e 6 (\<lambda>up.
       if sint up < sint lo then ci_err ERR_OPERANDS s e
       else read_word s e 10 (\<lambda>d. write_word s e 14 (word_of_int (f (sint lo) (sint up) (sint d)))))))"

definition run_ci_dband_ins :: "plc_state \<Rightarrow> si_env \<Rightarrow> ci_res" where
  "run_ci_dband_ins = three_words (\<lambda>lo up d. if d < lo then d - lo else if up < d then d - up else 0)"

definition run_ci_limit_ins :: "plc_state \<Rightarrow> si_env \<Rightarrow> ci_res" where
  "run_ci_limit_ins = three_words (\<lambda>lo up d. if d < lo then lo else if up < d then up else d)"

definition run_ci_zone_ins :: "plc_state \<Rightarrow> si_env \<Rightarrow> ci_res" where
  "run_ci_zone_ins = three_words (\<lambda>lo up d. if d < 0 then d + lo else if 0 < d then d + up else 0)"

section \<open>Averages and search\<close>

text \<open>A constant operand fills one place of a buffer whose other places have no value, so the sum has none.\<close>

definition run_ci_mean_ins :: "plc_state \<Rightarrow> si_env \<Rightarrow> ci_res" where
  "run_ci_mean_ins s e =
     when_flow s e (read_word s e 10 (\<lambda>c.
       if sint c < 1 \<or> 64 < sint c then ci_err ERR_OPERANDS s e
       else do {
         s1 \<leftarrow> clear_flags s;
         read_words s1 e 2 c (\<lambda>ws.
           if length ws < unat c then None
           else let avg = word_of_int (sum_list (map sint ws) sdiv sint c) :: u16 in
             do { s2 \<leftarrow> (if avg = 0 then raise_flag 180 s1 else Some s1); write_word s2 e 6 avg }) }))"

text \<open>The results of SER: number of hits, place of the first and of the last hit, place of the minimum and of the
  maximum.  \<open>lsv_Min\<close> and \<open>lsv_Max\<close> have no value before the first hit; comparing with them then is undefined.\<close>

record ser_st =
  ser_cnt :: u16
  ser_first :: u16
  ser_last :: u16
  ser_minpos :: u16
  ser_maxpos :: u16
  ser_mm :: "(int \<times> int) option"

definition ser_step :: "u16 \<Rightarrow> u16 \<Rightarrow> nat \<Rightarrow> ser_st \<Rightarrow> ser_st option" where
  "ser_step c w i r =
     (let r1 = (if w = c then
                  if ser_cnt r = 0 then r\<lparr>ser_cnt := 1, ser_first := of_nat i, ser_mm := Some (sint w, sint w)\<rparr>
                  else r\<lparr>ser_cnt := ser_cnt r + 1, ser_last := of_nat i\<rparr>
                else r)
      in case ser_mm r1 of
           None \<Rightarrow> None
         | Some (mn, mx) \<Rightarrow>
             let r2 = (if sint w < mn then r1\<lparr>ser_minpos := of_nat i, ser_mm := Some (sint w, mx)\<rparr> else r1);
                 mn2 = min mn (sint w)
             in Some (if mx < sint w then r2\<lparr>ser_maxpos := of_nat i, ser_mm := Some (mn2, sint w)\<rparr> else r2))"

fun ser_loop :: "u16 \<Rightarrow> u16 list \<Rightarrow> nat \<Rightarrow> ser_st \<Rightarrow> ser_st option" where
  "ser_loop c [] i r = Some r"
| "ser_loop c (w # ws) i r = do { r' \<leftarrow> ser_step c w i r; ser_loop c ws (Suc i) r' }"

definition run_ci_ser_ins :: "plc_state \<Rightarrow> si_env \<Rightarrow> ci_res" where
  "run_ci_ser_ins s e =
     when_flow s e (read_word s e 14 (\<lambda>n.
       if sint n < 1 \<or> 256 < sint n then ci_err ERR_OPERANDS s e
       else read_word s e 6 (\<lambda>c. read_words s e 2 n (\<lambda>ws.
         if length ws < unat n then None
         else do {
           r \<leftarrow> ser_loop c ws 0 \<lparr>ser_cnt = 0, ser_first = 0, ser_last = 0, ser_minpos = 0, ser_maxpos = 0, ser_mm = None\<rparr>;
           write_words s e 10 [ser_cnt r, ser_first r, ser_last r, ser_minpos r, ser_maxpos r] }))))"

section \<open>Block arithmetic\<close>

fun bk_const :: "(u16 \<Rightarrow> u16 \<Rightarrow> u16) \<Rightarrow> plc_state \<Rightarrow> si_env \<Rightarrow> u16 \<Rightarrow> nat \<Rightarrow> nat \<Rightarrow> (plc_ret \<times> u16 list) option" where
  "bk_const f s e c i 0 = Some (pdPASS, [])"
| "bk_const f s e c i (Suc n) =
     do { (r, ws) \<leftarrow> get_word s (mcp_PC e + 2) (of_nat i) 1;
          if r \<noteq> pdPASS then Some (r, [])
          else do { w \<leftarrow> rd ws 0; (r, zs) \<leftarrow> bk_const f s e c (Suc i) n; Some (r, f w c # zs) } }"

fun bk_both :: "(u16 \<Rightarrow> u16 \<Rightarrow> u16) \<Rightarrow> plc_state \<Rightarrow> si_env \<Rightarrow> nat \<Rightarrow> nat \<Rightarrow> (plc_ret \<times> u16 list) option" where
  "bk_both f s e i 0 = Some (pdPASS, [])"
| "bk_both f s e i (Suc n) =
     do { (r, ws) \<leftarrow> get_word s (mcp_PC e + 2) (of_nat i) 1;
          if r \<noteq> pdPASS then Some (r, [])
          else do {
            (r, vs) \<leftarrow> get_word s (mcp_PC e + 6) (of_nat i) 1;
            if r \<noteq> pdPASS then Some (r, [])
            else do { w \<leftarrow> rd ws 0; v \<leftarrow> rd vs 0; (r, zs) \<leftarrow> bk_both f s e (Suc i) n; Some (r, f w v # zs) } } }"

definition bk_op :: "(u16 \<Rightarrow> u16 \<Rightarrow> u16) \<Rightarrow> plc_state \<Rightarrow> si_env \<Rightarrow> ci_res" where
  "bk_op f s e =
     when_flow s e (read_word s e 14 (\<lambda>n.
       if sint n \<le> 0 then ci_err ERR_OPERANDS s e
       else do {
         t \<leftarrow> GET_PU16_DATA (ucode s) (mcp_PC e + 6);
         if drop_bit 8 t AND 0xFF = 0xFF then
           read_word s e 6 (\<lambda>c. do {
             (r, zs) \<leftarrow> bk_const f s e c 0 (unat n);
             if r \<noteq> pdPASS then ci_err r s e else write_words s e 10 zs })
         else do {
           (r, zs) \<leftarrow> bk_both f s e 0 (unat n);
           if r \<noteq> pdPASS then ci_err r s e else write_words s e 10 zs } }))"

definition run_ci_bkadd_ins :: "plc_state \<Rightarrow> si_env \<Rightarrow> ci_res" where
  "run_ci_bkadd_ins = bk_op (+)"

definition run_ci_bksub_ins :: "plc_state \<Rightarrow> si_env \<Rightarrow> ci_res" where
  "run_ci_bksub_ins = bk_op (-)"

text \<open>Block comparison; with a constant first operand the second one is read from the same place.\<close>

definition bk_cmp :: "u16 \<Rightarrow> u16 \<Rightarrow> u16 \<Rightarrow> bool option" where
  "bk_cmp op a b =
     (if op = CI_BKCMPDE then Some (a = b)
      else if op = CI_BKCMPDG then Some (sint b < sint a)
      else if op = CI_BKCMPDL then Some (sint a < sint b)
      else if op = CI_BKCMPDNE then Some (a \<noteq> b)
      else if op = CI_BKCMPDLE then Some (sint a \<le> sint b)
      else if op = CI_BKCMPDGE then Some (sint b \<le> sint a)
      else None)"

fun bkcmp_loop :: "u16 option \<Rightarrow> nat \<Rightarrow> plc_state \<Rightarrow> si_env \<Rightarrow> nat \<Rightarrow> nat \<Rightarrow> (plc_ret \<times> plc_state \<times> u8 list) option" where
  "bkcmp_loop c k2 s e i 0 = Some (pdPASS, s, [])"
| "bkcmp_loop c k2 s e i (Suc n) =
     do { (r, as) \<leftarrow> (case c of Some a \<Rightarrow> Some (pdPASS, [a]) | None \<Rightarrow> get_word s (mcp_PC e + 2) (of_nat i) 1);
          if r \<noteq> pdPASS then Some (r, s, [])
          else do {
            (r, bs) \<leftarrow> get_word s (mcp_PC e + k2) (of_nat i) 1;
            if r \<noteq> pdPASS then Some (r, s, [])
            else do {
              a \<leftarrow> rd as 0; b \<leftarrow> rd bs 0;
              op \<leftarrow> GET_PU16_DATA (ucode s) (mcp_PC e);
              t \<leftarrow> bk_cmp op a b;
              s1 \<leftarrow> (if t then Some s else set_bit_elem SM_ELEMENT s 188 0);
              (r, s2, ts) \<leftarrow> bkcmp_loop c k2 s1 e (Suc i) n;
              Some (r, s2, of_bool t # ts) } } }"

definition bkcmp_end :: "si_env \<Rightarrow> (plc_ret \<times> plc_state \<times> u8 list) option \<Rightarrow> ci_res" where
  "bkcmp_end e x =
     do { (r, s, ts) \<leftarrow> x;
          if r \<noteq> pdPASS then do { s1 \<leftarrow> set_bit_elem SM_ELEMENT s 188 0; ci_err r s1 e } else write_chars s e 10 ts }"

definition run_ci_bkcmp_ins :: "plc_state \<Rightarrow> si_env \<Rightarrow> ci_res" where
  "run_ci_bkcmp_ins s e =
     when_flow s e (read_word s e 14 (\<lambda>n.
       if sint n \<le> 0 then ci_err ERR_OPERANDS s e
       else do {
         s1 \<leftarrow> set_bit_elem SM_ELEMENT s 188 1;
         t \<leftarrow> GET_PU16_DATA (ucode s1) (mcp_PC e + 2);
         if drop_bit 8 t AND 0xFF = 0xFF then
           do { (r, as) \<leftarrow> get_word s1 (mcp_PC e + 2) 0 1;
                if r \<noteq> pdPASS then do { s2 \<leftarrow> set_bit_elem SM_ELEMENT s1 188 0; ci_err r s2 e }
                else do { a \<leftarrow> rd as 0; bkcmp_end e (bkcmp_loop (Some a) 2 s1 e 0 (unat n)) } }
         else bkcmp_end e (bkcmp_loop None 6 s1 e 0 (unat n)) }))"

section \<open>Reading and writing D elements at an offset\<close>

lemma read_word_at_D:
  assumes "d_operand (ucode s) (mcp_PC e + k) i" and "i + off < word_elem_rang D_AREA s" and "get_word_elem D_AREA s (i + off) = Some w"
  shows "read_word_at off s e k f = f w"
  using assms get_word_D [OF assms(1), of off 1] by (simp add: read_word_at_def rd_def)

lemma save_word_one_D:
  assumes "d_operand (ucode s) a i" and "wf_state s" and "i + off < word_elem_rang D_AREA s"
  shows "\<exists>s'. save_word s a [v] off 1 = Some (pdPASS, s', [v]) \<and> wf_state s' \<and> elements_only s s' \<and>
    get_word_elem D_AREA s' = (get_word_elem D_AREA s)(i + off := Some v) \<and> get_bit_elem SM_ELEMENT s' = get_bit_elem SM_ELEMENT s"
proof -
  obtain s' where s': "set_word_elem D_AREA s (i + off) v = Some s'"
    using words.put_ok [OF assms(2,3)] by blast
  have "elements_only s s'" "get_bit_elem SM_ELEMENT s' = get_bit_elem SM_ELEMENT s"
    using s' by (auto simp: set_word_elem_def get_bit_elem_def opt_simps fun_eq_iff)
  moreover have "get_word_elem D_AREA s' = (get_word_elem D_AREA s)(i + off := Some v)"
    using words.get_put_same [OF s'] words.get_put_other [OF s'] by (auto simp: fun_eq_iff)
  ultimately show ?thesis
    using s' assms(3) save_word_D [OF assms(1), of "[v]" off 1] words.put_inv [OF assms(2) s'] by auto
qed

lemma write_word_at_D:
  assumes "d_operand (ucode s) (mcp_PC e + k) i" and "wf_state s" and "i + off < word_elem_rang D_AREA s"
  shows "\<exists>s'. write_word_at off s e k v = Some (pdPASS, s', e) \<and> wf_state s' \<and> elements_only s s' \<and>
    get_word_elem D_AREA s' = (get_word_elem D_AREA s)(i + off := Some v) \<and> get_bit_elem SM_ELEMENT s' = get_bit_elem SM_ELEMENT s"
  using save_word_one_D [OF assms, of v] by (auto simp: write_word_at_def)

lemma sm_keeps_D: "set_bit_elem SM_ELEMENT s n v = Some s' \<Longrightarrow> get_word_elem D_AREA s' = get_word_elem D_AREA s"
  by (auto simp: set_bit_elem_def get_word_elem_def opt_simps fun_eq_iff)

lemma eo_info: "elements_only s s' \<Longrightarrow> gtp_PlcElementInfo s' = gtp_PlcElementInfo s" "elements_only s s' \<Longrightarrow> ucode s' = ucode s"
  by (simp_all add: elements_only_eq [of s s'])

section \<open>Tables\<close>

text \<open>The table of D elements at \<open>j\<close> holds the words \<open>xs\<close>: their number, then the words.\<close>

definition table_at :: "(u16 \<Rightarrow> u16 option) \<Rightarrow> u16 \<Rightarrow> u16 list \<Rightarrow> bool" where
  "table_at m j xs \<longleftrightarrow> m j = Some (of_nat (length xs)) \<and> (\<forall>i < length xs. m (j + of_nat (Suc i)) = Some (xs ! i))"

text \<open>A table of at most \<open>n\<close> words at \<open>j\<close> and an element \<open>d\<close> outside of it, all inside the D elements.\<close>

definition table_fits :: "plc_state \<Rightarrow> u16 \<Rightarrow> nat \<Rightarrow> u16 \<Rightarrow> bool" where
  "table_fits s j n d \<longleftrightarrow> wf_state s \<and> 182 < bit_elem_rang SM_ELEMENT s \<and> 0 < n \<and> n < 32768 \<and>
     unat j + n < unat (word_elem_rang D_AREA s) \<and> d < word_elem_rang D_AREA s \<and> (unat d < unat j \<or> unat j + n < unat d)"

lemma unat_off: "unat j + n < 65536 \<Longrightarrow> i \<le> n \<Longrightarrow> unat (j + of_nat i :: u16) = unat j + i"
  by (simp add: unat_word_ariths unat_of_nat)

lemma table_fits_off:
  assumes "table_fits s j n d" and "i \<le> n"
  shows "j + of_nat i < word_elem_rang D_AREA s" "d \<noteq> j + of_nat i" "unat (j + of_nat i) = unat j + i"
proof -
  have "unat j + n < 65536"
    using assms(1) by (intro order.strict_trans [OF _ unat_lt_16 [of "word_elem_rang D_AREA s"]]) (simp add: table_fits_def)
  then show "unat (j + of_nat i) = unat j + i"
    using unat_off assms(2) by blast
  then show "j + of_nat i < word_elem_rang D_AREA s" "d \<noteq> j + of_nat i"
    using assms by (auto simp: table_fits_def word_less_nat_alt)
qed

lemma table_fits_inj:
  assumes "table_fits s j n d" and "i \<le> n" and "k \<le> n"
  shows "j + of_nat i = j + of_nat k \<longleftrightarrow> i = k"
  using table_fits_off(3) [OF assms(1,2)] table_fits_off(3) [OF assms(1,3)] by (metis add_left_cancel)

lemma table_fits_eo: "table_fits s j n d \<Longrightarrow> elements_only s s' \<Longrightarrow> wf_state s' \<Longrightarrow> table_fits s' j n d"
  by (simp add: table_fits_def eo_info [of s s'])

lemma small_word: "k < 32768 \<Longrightarrow> sint (of_nat k :: u16) = int k" "k < 32768 \<Longrightarrow> unat (of_nat k :: u16) = k"
  by (simp_all add: signed_of_nat signed_take_bit_int_eq_self unat_of_nat)

text \<open>An instruction with a table operand at \<open>kt\<close>, a D operand at \<open>kd\<close> and the constant size at 10.\<close>

definition table_ins :: "u8 list \<Rightarrow> si_env \<Rightarrow> nat \<Rightarrow> u16 \<Rightarrow> nat \<Rightarrow> u16 \<Rightarrow> nat \<Rightarrow> bool" where
  "table_ins m e kt j kd d n \<longleftrightarrow> GET_POWER_FLOW (mlv_InPF e) \<and> d_operand m (mcp_PC e + kt) j \<and> d_operand m (mcp_PC e + kd) d \<and>
     const_word m (mcp_PC e + 10) (of_nat n)"

text \<open>What a table instruction may change: the table and the element \<open>d\<close>.\<close>

definition table_step :: "plc_state \<Rightarrow> plc_state \<Rightarrow> u16 \<Rightarrow> u16 list \<Rightarrow> bool" where
  "table_step s s' j xs \<longleftrightarrow> wf_state s' \<and> elements_only s s' \<and> table_at (get_word_elem D_AREA s') j xs"

lemma sm_step:
  assumes "table_fits s j n d" and "m = 180 \<or> m = 181"
  shows "\<exists>s'. set_bit_elem SM_ELEMENT s m v = Some s' \<and> wf_state s' \<and> elements_only s s' \<and> get_word_elem D_AREA s' = get_word_elem D_AREA s"
proof -
  have "m < bit_elem_rang SM_ELEMENT s" "wf_state s"
    using assms by (auto simp: table_fits_def word_less_nat_alt)
  then show ?thesis
    using set_sm [of s m v] sm_keeps_D by blast
qed

lemma push_ok:
  assumes fits: "table_fits s j n d" and ins: "table_ins (ucode s) e 6 j 2 d n"
    and tab: "table_at (get_word_elem D_AREA s) j xs" and len: "length xs \<le> n" and v: "get_word_elem D_AREA s d = Some v"
  shows "\<exists>s'. run_ci_push_ins s e = Some (pdPASS, s', e) \<and> table_step s s' j (if length xs < n then xs @ [v] else xs)"
proof -
  let ?k = "of_nat (length xs) :: u16"
  have n: "n < 32768" "0 < n" "length xs < 32768"
    using fits len by (auto simp: table_fits_def)
  have i: "GET_POWER_FLOW (mlv_InPF e)" "d_operand (ucode s) (mcp_PC e + 6) j" "d_operand (ucode s) (mcp_PC e + 2) d"
    "const_word (ucode s) (mcp_PC e + 10) (of_nat n)"
    using ins by (auto simp: table_ins_def)
  have off: "j + of_nat i < word_elem_rang D_AREA s" if "i \<le> n" for i
    using table_fits_off(1) [OF fits that] .
  have d: "d < word_elem_rang D_AREA s"
    using fits by (simp add: table_fits_def)
  obtain s1 where s1: "set_bit_elem SM_ELEMENT s 181 0 = Some s1" "wf_state s1" "elements_only s s1" "get_word_elem D_AREA s1 = get_word_elem D_AREA s"
    using sm_step [OF fits] by blast
  have k: "read_word s e 6 f = f ?k" for f
    using read_word_at_D [OF i(2), of 0 ?k f] off [of 0] tab by (simp add: table_at_def)
  have run: "run_ci_push_ins s e = (if length xs = n then do { s2 \<leftarrow> raise_flag 181 s1; ci_ok s2 e }
      else read_word s1 e 2 (\<lambda>w. then_ins (write_word_at (?k + 1) s1 e 6 w) (\<lambda>s2. write_word s2 e 6 (?k + 1))))"
    using n len s1(1) small_word [OF n(1)] small_word [OF n(3)]
    by (auto simp: run_ci_push_ins_def when_flow_def i(1) read_word_const [OF i(4)] k word_unat_eq_iff)
  show ?thesis
  proof (cases "length xs = n")
    case True
    obtain s2 where "set_bit_elem SM_ELEMENT s1 181 1 = Some s2" "wf_state s2" "elements_only s1 s2" "get_word_elem D_AREA s2 = get_word_elem D_AREA s1"
      using sm_step [OF table_fits_eo [OF fits s1(3,2)]] by blast
    then show ?thesis
      using run True tab s1(3,4) elements_only_trans [OF s1(3)] by (auto simp: raise_flag_def ci_ok_def table_step_def)
  next
    case False
    note e1 = eo_info [OF s1(3)]
    have lt: "length xs < n"
      using False len by simp
    have v1: "read_word s1 e 2 f = f v" for f
      using read_word_at_D [of s1 e 2 d 0 v f] i(3) d v s1(4) by (simp add: e1)
    obtain s2 where s2: "write_word_at (?k + 1) s1 e 6 v = Some (pdPASS, s2, e)" "wf_state s2" "elements_only s1 s2"
      "get_word_elem D_AREA s2 = (get_word_elem D_AREA s1)(j + (?k + 1) := Some v)"
      using write_word_at_D [of s1 e 6 j "?k + 1" v] i(2) s1(2) off [of "Suc (length xs)"] lt by (auto simp: e1 add.commute)
    obtain s3 where s3: "write_word s2 e 6 (?k + 1) = Some (pdPASS, s3, e)" "wf_state s3" "elements_only s2 s3"
      "get_word_elem D_AREA s3 = (get_word_elem D_AREA s2)(j := Some (?k + 1))"
      using write_word_at_D [of s2 e 6 j 0 "?k + 1"] i(2) s2(2) off [of 0] by (auto simp: e1 eo_info [OF s2(3)])
    have eq: "j + of_nat i = j + of_nat i' \<longleftrightarrow> i = i'" if "i \<le> n" "i' \<le> n" for i i'
      using table_fits_inj [OF fits that] .
    have j: "?k + 1 = of_nat (Suc (length xs))"
      by simp
    have "table_at (get_word_elem D_AREA s3) j (xs @ [v])"
      using tab lt eq [of _ 0] eq [of _ "Suc (length xs)"] unfolding table_at_def s3(4) s2(4) s1(4) j
      by (auto simp: nth_append less_Suc_eq simp del: of_nat_Suc)
    then show ?thesis
      using run False lt v1 s2(1) s3(1-3) elements_only_trans [OF elements_only_trans [OF s1(3) s2(3)] s3(3)]
      by (auto simp: then_ins_def table_step_def)
  qed
qed

text \<open>The common part of FIFO and LIFO.\<close>

lemma pop_ok:
  assumes fits: "table_fits s j n d" and ins: "table_ins (ucode s) e 2 j 6 d n"
    and tab: "table_at (get_word_elem D_AREA s) j xs" and len: "length xs \<le> n"
  shows "\<exists>s1. wf_state s1 \<and> elements_only s s1 \<and> get_word_elem D_AREA s1 = get_word_elem D_AREA s \<and>
    (\<forall>f. pop_table s e f = (if xs = [] then Some (pdPASS, s1, e) else f s1 (of_nat (length xs))))"
proof -
  have n: "n < 32768" "0 < n" "length xs < 32768"
    using fits len by (auto simp: table_fits_def)
  have i: "GET_POWER_FLOW (mlv_InPF e)" "d_operand (ucode s) (mcp_PC e + 2) j" "const_word (ucode s) (mcp_PC e + 10) (of_nat n)"
    using ins by (auto simp: table_ins_def)
  obtain s1 where s1: "set_bit_elem SM_ELEMENT s 180 0 = Some s1" "wf_state s1" "elements_only s s1" "get_word_elem D_AREA s1 = get_word_elem D_AREA s"
    using sm_step [OF fits] by blast
  obtain s2 where s2: "set_bit_elem SM_ELEMENT s1 180 1 = Some s2" "wf_state s2" "elements_only s1 s2" "get_word_elem D_AREA s2 = get_word_elem D_AREA s1"
    using sm_step [OF table_fits_eo [OF fits s1(3,2)]] by blast
  have k: "read_word s e 2 g = g (of_nat (length xs))" for g
    using read_word_at_D [OF i(2), of 0 "of_nat (length xs)" g] table_fits_off(1) [OF fits, of 0] tab by (simp add: table_at_def)
  have "pop_table s e f = (if xs = [] then Some (pdPASS, s2, e) else f s1 (of_nat (length xs)))" for f
    using n len s1(1) s2(1) small_word [OF n(1)] small_word [OF n(3)]
    by (auto simp: pop_table_def when_flow_def i(1) read_word_const [OF i(3)] k raise_flag_def ci_ok_def word_unat_eq_iff)
  then show ?thesis
    using s1 s2 elements_only_trans [OF s1(3) s2(3)] by (cases "xs = []") auto
qed

lemma lifo_ok:
  assumes fits: "table_fits s j n d" and ins: "table_ins (ucode s) e 2 j 6 d n"
    and tab: "table_at (get_word_elem D_AREA s) j xs" and len: "length xs \<le> n" and ne: "xs \<noteq> []"
  shows "\<exists>s'. run_ci_lifo_ins s e = Some (pdPASS, s', e) \<and> table_step s s' j (butlast xs) \<and> get_word_elem D_AREA s' d = Some (last xs)"
proof -
  let ?k = "of_nat (length xs) :: u16"
  obtain s1 where s1: "wf_state s1" "elements_only s s1" "get_word_elem D_AREA s1 = get_word_elem D_AREA s"
    "\<forall>f. pop_table s e f = (if xs = [] then Some (pdPASS, s1, e) else f s1 ?k)"
    using pop_ok [OF fits ins tab len] by blast
  have run: "run_ci_lifo_ins s e = read_word_at ?k s1 e 2 (\<lambda>w. then_ins (write_word s1 e 6 w) (\<lambda>s2. write_word s2 e 2 (?k - 1)))"
    using s1(4) ne by (simp add: run_ci_lifo_ins_def)
  note e1 = eo_info [OF s1(2)]
  have i: "d_operand (ucode s) (mcp_PC e + 2) j" "d_operand (ucode s) (mcp_PC e + 6) d"
    using ins by (auto simp: table_ins_def)
  have d: "d < word_elem_rang D_AREA s"
    using fits by (simp add: table_fits_def)
  have l: "length xs = Suc (length xs - 1)" "Suc (length xs - 1) \<le> n"
    using ne len by (cases xs; simp)+
  have "get_word_elem D_AREA s (j + of_nat (Suc (length xs - 1))) = Some (xs ! (length xs - 1))"
    using tab l(1) ne unfolding table_at_def by (metis length_greater_0_conv diff_less zero_less_one)
  then have w: "read_word_at ?k s1 e 2 g = g (last xs)" for g
    using read_word_at_D [of s1 e 2 j ?k "last xs" g] i(1) table_fits_off(1) [OF fits len] s1(3) l(1) ne by (simp add: e1 last_conv_nth)
  obtain s2 where s2: "write_word s1 e 6 (last xs) = Some (pdPASS, s2, e)" "wf_state s2" "elements_only s1 s2"
    "get_word_elem D_AREA s2 = (get_word_elem D_AREA s1)(d := Some (last xs))"
    using write_word_at_D [of s1 e 6 d 0 "last xs"] i(2) s1(1) d by (auto simp: e1)
  obtain s3 where s3: "write_word s2 e 2 (?k - 1) = Some (pdPASS, s3, e)" "wf_state s3" "elements_only s2 s3"
    "get_word_elem D_AREA s3 = (get_word_elem D_AREA s2)(j := Some (?k - 1))"
    using write_word_at_D [of s2 e 2 j 0 "?k - 1"] i(1) s2(2) table_fits_off(1) [OF fits, of 0] by (auto simp: e1 eo_info [OF s2(3)])
  have keep: "get_word_elem D_AREA s3 (j + of_nat (Suc i)) = get_word_elem D_AREA s (j + of_nat (Suc i))" if "Suc i \<le> n" for i
    using table_fits_off(2) [OF fits that] table_fits_inj [OF fits that, of 0] unfolding s3(4) s2(4) s1(3) by (auto simp del: of_nat_Suc)
  have "?k - 1 = of_nat (length (butlast xs))"
    using ne by (cases xs) simp_all
  then have "get_word_elem D_AREA s3 j = Some (of_nat (length (butlast xs)))"
    by (simp only: s3(4) fun_upd_same)
  then have "table_at (get_word_elem D_AREA s3) j (butlast xs)"
    using tab len keep unfolding table_at_def by (auto simp: nth_butlast simp del: of_nat_Suc)
  moreover have "get_word_elem D_AREA s3 d = Some (last xs)"
    using table_fits_off(2) [OF fits, of 0] unfolding s3(4) s2(4) by simp
  ultimately show ?thesis
    using run w s2(1) s3(1-3) elements_only_trans [OF elements_only_trans [OF s1(2) s2(3)] s3(3)]
    by (auto simp: then_ins_def table_step_def)
qed

lemma shift_ok:
  assumes "table_fits s j n d" and "d_operand (ucode s) a j" and "k \<le> n"
  shows "\<exists>s'. copy_words s a a (map (\<lambda>i. (of_nat i + 1, of_nat i)) [m..<k]) = Some (pdPASS, s') \<and> wf_state s' \<and> elements_only s s' \<and>
    get_word_elem D_AREA s' d = get_word_elem D_AREA s d \<and>
    (\<forall>i \<le> n. get_word_elem D_AREA s' (j + of_nat i) = get_word_elem D_AREA s (j + of_nat (if m \<le> i \<and> i < k then Suc i else i)))"
  using assms
proof (induction "k - m" arbitrary: m s)
  case 0
  then show ?case
    by (auto simp: table_fits_def)
next
  case (Suc l)
  then have m: "m < k" "Suc m \<le> n" "m \<le> n" and fits: "table_fits s j n d" and wf: "wf_state s"
    by (auto simp: table_fits_def)
  obtain w where w: "get_word_elem D_AREA s (j + of_nat (Suc m)) = Some w"
    using words.get_ok [OF wf table_fits_off(1) [OF fits m(2)]] by blast
  obtain s1 where s1: "save_word s a [w] (of_nat m) 1 = Some (pdPASS, s1, [w])" "wf_state s1" "elements_only s s1"
    "get_word_elem D_AREA s1 = (get_word_elem D_AREA s)(j + of_nat m := Some w)"
    using save_word_one_D [OF Suc.prems(2) wf table_fits_off(1) [OF fits m(3)]] by blast
  have c: "copy_word s a (of_nat m + 1) a (of_nat m) = Some (pdPASS, s1)"
    using get_word_D [OF Suc.prems(2), of "of_nat m + 1" 1] table_fits_off(1) [OF fits m(2)] w s1(1)
    by (simp add: copy_word_def rd_def add.commute)
  have l: "l = k - Suc m" and op: "d_operand (ucode s1) a j"
    using Suc.hyps(2) Suc.prems(2) by (simp_all add: eo_info [OF s1(3)])
  have up: "[m..<k] = m # [Suc m..<k]"
    using m(1) by (rule upt_conv_Cons)
  obtain s' where s': "copy_words s1 a a (map (\<lambda>i. (of_nat i + 1, of_nat i)) [Suc m..<k]) = Some (pdPASS, s')" "wf_state s'" "elements_only s1 s'"
    "get_word_elem D_AREA s' d = get_word_elem D_AREA s1 d"
    "\<forall>i \<le> n. get_word_elem D_AREA s' (j + of_nat i) = get_word_elem D_AREA s1 (j + of_nat (if Suc m \<le> i \<and> i < k then Suc i else i))"
    using Suc.hyps(1) [OF l table_fits_eo [OF fits s1(3,2)] op Suc.prems(3)] by blast
  have "get_word_elem D_AREA s' (j + of_nat i) = get_word_elem D_AREA s (j + of_nat (if m \<le> i \<and> i < k then Suc i else i))" if "i \<le> n" for i
    using s'(5) that table_fits_inj [OF fits, of _ m] m Suc.prems(3) w unfolding s1(4) by (auto simp: Suc_le_eq simp del: of_nat_Suc)
  moreover have "get_word_elem D_AREA s' d = get_word_elem D_AREA s d"
    using s'(4) table_fits_off(2) [OF fits m(3)] unfolding s1(4) by simp
  ultimately show ?case
    using c s'(1-3) elements_only_trans [OF s1(3) s'(3)] unfolding up by auto
qed

lemma fifo_ok:
  assumes fits: "table_fits s j n d" and ins: "table_ins (ucode s) e 2 j 6 d n"
    and tab: "table_at (get_word_elem D_AREA s) j xs" and len: "length xs \<le> n" and ne: "xs \<noteq> []"
  shows "\<exists>s'. run_ci_fifo_ins s e = Some (pdPASS, s', e) \<and> table_step s s' j (tl xs) \<and> get_word_elem D_AREA s' d = Some (hd xs)"
proof -
  let ?k = "of_nat (length xs) :: u16"
  obtain s1 where s1: "wf_state s1" "elements_only s s1" "get_word_elem D_AREA s1 = get_word_elem D_AREA s"
    "\<forall>f. pop_table s e f = (if xs = [] then Some (pdPASS, s1, e) else f s1 ?k)"
    using pop_ok [OF fits ins tab len] by blast
  note e1 = eo_info [OF s1(2)]
  have i: "d_operand (ucode s) (mcp_PC e + 2) j" "d_operand (ucode s) (mcp_PC e + 6) d"
    using ins by (auto simp: table_ins_def)
  have d: "d < word_elem_rang D_AREA s" and n: "n < 32768" "1 \<le> n"
    using fits by (auto simp: table_fits_def)
  have "get_word_elem D_AREA s (j + of_nat (Suc 0)) = Some (hd xs)"
    using tab ne unfolding table_at_def by (auto simp: hd_conv_nth)
  then have w: "read_word_at 1 s1 e 2 g = g (hd xs)" for g
    using read_word_at_D [of s1 e 2 j 1 "hd xs" g] i(1) table_fits_off(1) [OF fits n(2)] s1(3) by (simp add: e1)
  obtain s2 where s2: "write_word s1 e 6 (hd xs) = Some (pdPASS, s2, e)" "wf_state s2" "elements_only s1 s2"
    "get_word_elem D_AREA s2 = (get_word_elem D_AREA s1)(d := Some (hd xs))"
    using write_word_at_D [of s1 e 6 d 0 "hd xs"] i(2) s1(1) d by (auto simp: e1)
  have eo2: "elements_only s s2"
    by (rule elements_only_trans [OF s1(2) s2(3)])
  have op2: "d_operand (ucode s2) (mcp_PC e + 2) j"
    using i(1) by (simp add: eo_info [OF eo2])
  obtain s3 where s3: "copy_words s2 (mcp_PC e + 2) (mcp_PC e + 2) (map (\<lambda>i. (of_nat i + 1, of_nat i)) [1..<length xs]) = Some (pdPASS, s3)"
    "wf_state s3" "elements_only s2 s3" "get_word_elem D_AREA s3 d = get_word_elem D_AREA s2 d"
    "\<forall>i \<le> n. get_word_elem D_AREA s3 (j + of_nat i) = get_word_elem D_AREA s2 (j + of_nat (if 1 \<le> i \<and> i < length xs then Suc i else i))"
    using shift_ok [OF table_fits_eo [OF fits eo2 s2(2)] op2 len] by blast
  note eo3 = elements_only_trans [OF eo2 s3(3)]
  obtain s4 where s4: "write_word s3 e 2 (?k - 1) = Some (pdPASS, s4, e)" "wf_state s4" "elements_only s3 s4"
    "get_word_elem D_AREA s4 = (get_word_elem D_AREA s3)(j := Some (?k - 1))"
    using write_word_at_D [of s3 e 2 j 0 "?k - 1"] i(1) s3(2) table_fits_off(1) [OF fits, of 0] by (auto simp: eo_info [OF eo3])
  have run: "run_ci_fifo_ins s e = Some (pdPASS, s4, e)"
    using s1(4) ne w s2(1) s3(1) s4(1) small_word(2) [of "length xs"] len n(1)
    by (simp add: run_ci_fifo_ins_def then_ins_def at_env_def)
  have "get_word_elem D_AREA s4 (j + of_nat (Suc i)) = Some (tl xs ! i)" if "i < length (tl xs)" for i
  proof -
    have lt: "Suc i < length xs" "Suc (Suc i) \<le> n" "Suc i \<le> n"
      using that len by auto
    have "get_word_elem D_AREA s4 (j + of_nat (Suc i)) = get_word_elem D_AREA s (j + of_nat (Suc (Suc i)))"
      using s3(5) lt table_fits_inj [OF fits lt(3), of 0] table_fits_off(2) [OF fits lt(2)] unfolding s4(4) s2(4) s1(3)
      by (auto simp del: of_nat_Suc)
    then show ?thesis
      using tab lt(1) unfolding table_at_def by (simp add: nth_tl del: of_nat_Suc)
  qed
  moreover have "?k - 1 = of_nat (length (tl xs))"
    using ne by (cases xs) simp_all
  ultimately have "table_at (get_word_elem D_AREA s4) j (tl xs)"
    unfolding table_at_def by (simp add: s4(4) del: of_nat_Suc)
  moreover have "get_word_elem D_AREA s4 d = Some (hd xs)"
    using table_fits_off(2) [OF fits, of 0] s3(4) unfolding s4(4) s2(4) by simp
  ultimately show ?thesis
    using run s4(2) elements_only_trans [OF eo3 s4(3)] by (auto simp: table_step_def)
qed

section \<open>A queue and a stack\<close>

text \<open>What a table promises: PUSH appends a word unless the table is full, the pop instruction takes one out.\<close>

datatype table_op = Push u16 | Pop

locale table_pop =
  fixes pop :: "plc_state \<Rightarrow> si_env \<Rightarrow> ci_res" and out :: "u16 list \<Rightarrow> u16" and rest :: "u16 list \<Rightarrow> u16 list"
  assumes pop_some: "table_fits s j n d \<Longrightarrow> table_ins (ucode s) e 2 j 6 d n \<Longrightarrow> table_at (get_word_elem D_AREA s) j xs \<Longrightarrow>
      length xs \<le> n \<Longrightarrow> xs \<noteq> [] \<Longrightarrow>
      \<exists>s'. pop s e = Some (pdPASS, s', e) \<and> table_step s s' j (rest xs) \<and> get_word_elem D_AREA s' d = Some (out xs)"
    and pop_none: "table_fits s j n d \<Longrightarrow> table_ins (ucode s) e 2 j 6 d n \<Longrightarrow> table_at (get_word_elem D_AREA s) j [] \<Longrightarrow>
      \<exists>s'. pop s e = Some (pdPASS, s', e) \<and> table_step s s' j []"
    and rest_len: "xs \<noteq> [] \<Longrightarrow> length (rest xs) < length xs"

text \<open>A sequence of table instructions: a push takes its word from the element \<open>a\<close>, a pop delivers it in \<open>d\<close>.  The result
  lists the words delivered.\<close>

fun table_run :: "(plc_state \<Rightarrow> si_env \<Rightarrow> ci_res) \<Rightarrow> si_env \<Rightarrow> si_env \<Rightarrow> u16 \<Rightarrow> u16 \<Rightarrow> u16 \<Rightarrow> plc_state \<Rightarrow> table_op list \<Rightarrow>
    (u16 list \<times> plc_state) option" where
  "table_run pop ep eo j a d s [] = Some ([], s)"
| "table_run pop ep eo j a d s (Push v # ops) =
     do { s1 \<leftarrow> set_word_elem D_AREA s a v;
          (r, s2, _) \<leftarrow> run_ci_push_ins s1 ep;
          if r = pdPASS then table_run pop ep eo j a d s2 ops else None }"
| "table_run pop ep eo j a d s (Pop # ops) =
     do { k \<leftarrow> get_word_elem D_AREA s j;
          (r, s1, _) \<leftarrow> pop s eo;
          if r \<noteq> pdPASS then None
          else if k = 0 then table_run pop ep eo j a d s1 ops
          else do { w \<leftarrow> get_word_elem D_AREA s1 d; (ws, s2) \<leftarrow> table_run pop ep eo j a d s1 ops; Some (w # ws, s2) } }"

text \<open>The same on lists of words.\<close>

fun table_spec :: "(u16 list \<Rightarrow> u16) \<Rightarrow> (u16 list \<Rightarrow> u16 list) \<Rightarrow> nat \<Rightarrow> u16 list \<Rightarrow> table_op list \<Rightarrow> u16 list \<times> u16 list" where
  "table_spec out rest n xs [] = ([], xs)"
| "table_spec out rest n xs (Push v # ops) = table_spec out rest n (if length xs < n then xs @ [v] else xs) ops"
| "table_spec out rest n xs (Pop # ops) =
     (if xs = [] then table_spec out rest n [] ops
      else let (ws, ys) = table_spec out rest n (rest xs) ops in (out xs # ws, ys))"

lemma put_outside:
  assumes "table_fits s j n a" and "table_at (get_word_elem D_AREA s) j xs" and "length xs \<le> n"
  shows "\<exists>s1. set_word_elem D_AREA s a v = Some s1 \<and> wf_state s1 \<and> elements_only s s1 \<and> get_word_elem D_AREA s1 a = Some v \<and>
    table_at (get_word_elem D_AREA s1) j xs"
proof -
  have a: "a < word_elem_rang D_AREA s" "wf_state s"
    using assms(1) by (auto simp: table_fits_def)
  obtain s1 where s1: "set_word_elem D_AREA s a v = Some s1"
    using words.put_ok [OF a(2,1)] by blast
  have eo: "elements_only s s1"
    using s1 by (auto simp: set_word_elem_def opt_simps)
  have keep: "get_word_elem D_AREA s1 (j + of_nat i) = get_word_elem D_AREA s (j + of_nat i)" if "i \<le> n" for i
    using words.get_put_other [OF s1] table_fits_off(2) [OF assms(1) that] by blast
  have "table_at (get_word_elem D_AREA s1) j xs"
    using keep keep [of 0] assms(2,3) unfolding table_at_def by (auto simp del: of_nat_Suc)
  then show ?thesis
    using s1 eo words.put_inv [OF a(2) s1] words.get_put_same [OF s1] by blast
qed

context table_pop
begin

lemma table_refines:
  assumes "table_fits s j n a" and "table_fits s j n d" and "table_ins (ucode s) ep 6 j 2 a n" and "table_ins (ucode s) eo 2 j 6 d n"
    and "table_at (get_word_elem D_AREA s) j xs" and "length xs \<le> n"
  shows "\<exists>s'. table_run pop ep eo j a d s ops = Some (fst (table_spec out rest n xs ops), s') \<and> elements_only s s' \<and>
    table_at (get_word_elem D_AREA s') j (snd (table_spec out rest n xs ops))"
  using assms
proof (induction ops arbitrary: s xs)
  case (Cons op ops)
  show ?case
  proof (cases op)
    case (Push v)
    let ?ys = "if length xs < n then xs @ [v] else xs"
    obtain s1 where s1: "set_word_elem D_AREA s a v = Some s1" "wf_state s1" "elements_only s s1" "get_word_elem D_AREA s1 a = Some v"
      "table_at (get_word_elem D_AREA s1) j xs"
      using put_outside [OF Cons.prems(1,5,6)] by blast
    have ins: "table_ins (ucode s1) ep 6 j 2 a n"
      using Cons.prems(3) by (simp add: eo_info [OF s1(3)])
    obtain s2 where s2: "run_ci_push_ins s1 ep = Some (pdPASS, s2, ep)" "table_step s1 s2 j ?ys"
      using push_ok [OF table_fits_eo [OF Cons.prems(1) s1(3,2)] ins s1(5) Cons.prems(6) s1(4)] by blast
    have eo: "elements_only s s2" "wf_state s2" "table_at (get_word_elem D_AREA s2) j ?ys"
      using s2(2) elements_only_trans [OF s1(3)] by (auto simp: table_step_def)
    have "length ?ys \<le> n"
      using Cons.prems(6) by simp
    then show ?thesis
      using Cons.IH [OF table_fits_eo [OF Cons.prems(1) eo(1,2)] table_fits_eo [OF Cons.prems(2) eo(1,2)] _ _ eo(3)] Cons.prems(3,4) s1(1) s2(1)
        elements_only_trans [OF eo(1)] by (auto simp: Push eo_info [OF eo(1)])
  next
    case Pop
    have k: "get_word_elem D_AREA s j = Some (of_nat (length xs))" "of_nat (length xs) = (0 :: u16) \<longleftrightarrow> xs = []"
      using Cons.prems(1,5,6) small_word(2) [of "length xs"] by (auto simp: table_at_def table_fits_def)
    obtain s1 where s1: "pop s eo = Some (pdPASS, s1, eo)" "table_step s s1 j (if xs = [] then [] else rest xs)"
      "xs \<noteq> [] \<longrightarrow> get_word_elem D_AREA s1 d = Some (out xs)"
      using pop_none [OF Cons.prems(2,4)] pop_some [OF Cons.prems(2,4,5,6)] Cons.prems(5) by (cases "xs = []") auto
    have eo: "elements_only s s1" "wf_state s1" "table_at (get_word_elem D_AREA s1) j (if xs = [] then [] else rest xs)"
      using s1(2) by (auto simp: table_step_def)
    have "length (if xs = [] then [] else rest xs) \<le> n"
      using Cons.prems(6) rest_len [of xs] by auto
    then show ?thesis
      using Cons.IH [OF table_fits_eo [OF Cons.prems(1) eo(1,2)] table_fits_eo [OF Cons.prems(2) eo(1,2)] _ _ eo(3)] Cons.prems(3,4) s1(1,3) k
        elements_only_trans [OF eo(1)] by (cases "xs = []") (auto simp: Pop eo_info [OF eo(1)] split_beta)
  qed
qed simp

end

lemma pop_empty:
  assumes "table_fits s j n d" and "table_ins (ucode s) e 2 j 6 d n" and "table_at (get_word_elem D_AREA s) j []"
  shows "\<exists>s'. pop_table s e f = Some (pdPASS, s', e) \<and> table_step s s' j []"
  using pop_ok [OF assms] assms(3) by (auto simp: table_step_def)

interpretation fifo: table_pop run_ci_fifo_ins hd tl
proof
  fix s j n d e assume a: "table_fits s j n d" "table_ins (ucode s) e 2 j 6 d n" "table_at (get_word_elem D_AREA s) j []"
  show "\<exists>s'. run_ci_fifo_ins s e = Some (pdPASS, s', e) \<and> table_step s s' j []"
    unfolding run_ci_fifo_ins_def by (rule pop_empty [OF a])
qed (fact fifo_ok, simp)

interpretation lifo: table_pop run_ci_lifo_ins last butlast
proof
  fix s j n d e assume a: "table_fits s j n d" "table_ins (ucode s) e 2 j 6 d n" "table_at (get_word_elem D_AREA s) j []"
  show "\<exists>s'. run_ci_lifo_ins s e = Some (pdPASS, s', e) \<and> table_step s s' j []"
    unfolding run_ci_lifo_ins_def by (rule pop_empty [OF a])
qed (fact lifo_ok, simp)

text \<open>C14. PUSH and FIFO on a table of D elements implement a bounded queue, PUSH and LIFO a bounded stack: every
  sequence of instructions delivers the words the list operations deliver, and the table holds the remaining list.\<close>

theorem table_refinement:
  assumes "table_fits s j n a" and "table_fits s j n d" and "table_ins (ucode s) ep 6 j 2 a n" and "table_ins (ucode s) eo 2 j 6 d n"
    and "table_at (get_word_elem D_AREA s) j xs" and "length xs \<le> n"
  shows "(\<exists>s'. table_run run_ci_fifo_ins ep eo j a d s ops = Some (fst (table_spec hd tl n xs ops), s') \<and>
      table_at (get_word_elem D_AREA s') j (snd (table_spec hd tl n xs ops))) \<and>
    (\<exists>s'. table_run run_ci_lifo_ins ep eo j a d s ops = Some (fst (table_spec last butlast n xs ops), s') \<and>
      table_at (get_word_elem D_AREA s') j (snd (table_spec last butlast n xs ops)))"
  using fifo.table_refines [OF assms] lifo.table_refines [OF assms] by blast

text \<open>PUSH of D1 to the table at D10 of size 3, and FIFO or LIFO from it to D2.\<close>

abbreviation table_code :: "u8 list" where
  "table_code \<equiv> [0, 0, 0, 0x11, 1, 0, 0, 0x11, 10, 0, 0, 0xFF, 3, 0, 0, 0, 0, 0x11, 10, 0, 0, 0x11, 2, 0, 0, 0xFF, 3, 0]"

lemma table_code_reads:
  "GET_PU8_DATA table_code 3 = Some 0x11" "GET_PU16_DATA table_code 4 = Some 1" "GET_PU8_DATA table_code 7 = Some 0x11"
  "GET_PU16_DATA table_code 8 = Some 10" "GET_PU8_DATA table_code 10 = Some 0" "GET_PU8_DATA table_code 11 = Some 0xFF"
  "GET_PU16_DATA table_code 12 = Some 3" "GET_PU8_DATA table_code 17 = Some 0x11" "GET_PU16_DATA table_code 18 = Some 10"
  "GET_PU8_DATA table_code 21 = Some 0x11" "GET_PU16_DATA table_code 22 = Some 2" "GET_PU8_DATA table_code 24 = Some 0"
  "GET_PU8_DATA table_code 25 = Some 0xFF" "GET_PU16_DATA table_code 26 = Some 3"
  by code_simp+

lemma table_code_ins: "table_ins table_code env0 6 10 2 1 3" "table_ins table_code (env0\<lparr>mcp_PC := 14\<rparr>) 2 10 6 2 3"
  using table_code_reads by (auto simp: table_ins_def d_operand_def const_word_def GET_POWER_FLOW_def eval_nat_numeral intro!: exI [of _ "0 :: u8"])

theorem table_refinement_witness:
  "\<exists>s'. table_run run_ci_fifo_ins env0 (env0\<lparr>mcp_PC := 14\<rparr>) 10 1 2 (boot_state table_code) [Push 7, Push 8, Pop, Push 9, Pop] = Some ([7, 8], s') \<and>
    table_at (get_word_elem D_AREA s') 10 [9]"
proof -
  have "table_fits (boot_state table_code) 10 3 1" "table_fits (boot_state table_code) 10 3 2"
    "table_at (get_word_elem D_AREA (boot_state table_code)) 10 []"
    by (simp_all add: table_fits_def table_at_def get_word_elem_def rd_def)
  then show ?thesis
    using table_refinement [of "boot_state table_code" 10 3 1 2 env0 "env0\<lparr>mcp_PC := 14\<rparr>" "[]" "[Push 7, Push 8, Pop, Push 9, Pop]"] table_code_ins
    by simp
qed

end
