(* ===== verification/PLC_Verify.thy ===== *)
theory PLC_Verify
  imports PLC_Move
begin

text \<open>
  Checksums, \<open>source/common/src/verify_func.c\<close>: the CRC of CCITT, CRC-32 and the CRC-16 of Modbus, each computed with
  a table of 256 entries.  The reference is the division by the polynomial bit by bit; the property shows that the
  tables and the loops over them compute it for every message.  The instructions CCITT, CRC16 and LRC of
  \<open>source/plc/executer/src/plc_verifyins.c\<close> follow.
\<close>

section \<open>The code\<close>

definition gsv_CcittCrcTbl :: "u16 list" where
  "gsv_CcittCrcTbl =
    [0x0000, 0x1021, 0x2042, 0x3063, 0x4084, 0x50A5, 0x60C6, 0x70E7, 0x8108, 0x9129, 0xA14A, 0xB16B,
     0xC18C, 0xD1AD, 0xE1CE, 0xF1EF, 0x1231, 0x0210, 0x3273, 0x2252, 0x52B5, 0x4294, 0x72F7, 0x62D6,
     0x9339, 0x8318, 0xB37B, 0xA35A, 0xD3BD, 0xC39C, 0xF3FF, 0xE3DE, 0x2462, 0x3443, 0x0420, 0x1401,
     0x64E6, 0x74C7, 0x44A4, 0x5485, 0xA56A, 0xB54B, 0x8528, 0x9509, 0xE5EE, 0xF5CF, 0xC5AC, 0xD58D,
     0x3653, 0x2672, 0x1611, 0x0630, 0x76D7, 0x66F6, 0x5695, 0x46B4, 0xB75B, 0xA77A, 0x9719, 0x8738,
     0xF7DF, 0xE7FE, 0xD79D, 0xC7BC, 0x48C4, 0x58E5, 0x6886, 0x78A7, 0x0840, 0x1861, 0x2802, 0x3823,
     0xC9CC, 0xD9ED, 0xE98E, 0xF9AF, 0x8948, 0x9969, 0xA90A, 0xB92B, 0x5AF5, 0x4AD4, 0x7AB7, 0x6A96,
     0x1A71, 0x0A50, 0x3A33, 0x2A12, 0xDBFD, 0xCBDC, 0xFBBF, 0xEB9E, 0x9B79, 0x8B58, 0xBB3B, 0xAB1A,
     0x6CA6, 0x7C87, 0x4CE4, 0x5CC5, 0x2C22, 0x3C03, 0x0C60, 0x1C41, 0xEDAE, 0xFD8F, 0xCDEC, 0xDDCD,
     0xAD2A, 0xBD0B, 0x8D68, 0x9D49, 0x7E97, 0x6EB6, 0x5ED5, 0x4EF4, 0x3E13, 0x2E32, 0x1E51, 0x0E70,
     0xFF9F, 0xEFBE, 0xDFDD, 0xCFFC, 0xBF1B, 0xAF3A, 0x9F59, 0x8F78, 0x9188, 0x81A9, 0xB1CA, 0xA1EB,
     0xD10C, 0xC12D, 0xF14E, 0xE16F, 0x1080, 0x00A1, 0x30C2, 0x20E3, 0x5004, 0x4025, 0x7046, 0x6067,
     0x83B9, 0x9398, 0xA3FB, 0xB3DA, 0xC33D, 0xD31C, 0xE37F, 0xF35E, 0x02B1, 0x1290, 0x22F3, 0x32D2,
     0x4235, 0x5214, 0x6277, 0x7256, 0xB5EA, 0xA5CB, 0x95A8, 0x8589, 0xF56E, 0xE54F, 0xD52C, 0xC50D,
     0x34E2, 0x24C3, 0x14A0, 0x0481, 0x7466, 0x6447, 0x5424, 0x4405, 0xA7DB, 0xB7FA, 0x8799, 0x97B8,
     0xE75F, 0xF77E, 0xC71D, 0xD73C, 0x26D3, 0x36F2, 0x0691, 0x16B0, 0x6657, 0x7676, 0x4615, 0x5634,
     0xD94C, 0xC96D, 0xF90E, 0xE92F, 0x99C8, 0x89E9, 0xB98A, 0xA9AB, 0x5844, 0x4865, 0x7806, 0x6827,
     0x18C0, 0x08E1, 0x3882, 0x28A3, 0xCB7D, 0xDB5C, 0xEB3F, 0xFB1E, 0x8BF9, 0x9BD8, 0xABBB, 0xBB9A,
     0x4A75, 0x5A54, 0x6A37, 0x7A16, 0x0AF1, 0x1AD0, 0x2AB3, 0x3A92, 0xFD2E, 0xED0F, 0xDD6C, 0xCD4D,
     0xBDAA, 0xAD8B, 0x9DE8, 0x8DC9, 0x7C26, 0x6C07, 0x5C64, 0x4C45, 0x3CA2, 0x2C83, 0x1CE0, 0x0CC1,
     0xEF1F, 0xFF3E, 0xCF5D, 0xDF7C, 0xAF9B, 0xBFBA, 0x8FD9, 0x9FF8, 0x6E17, 0x7E36, 0x4E55, 0x5E74,
     0x2E93, 0x3EB2, 0x0ED1, 0x1EF0]"

text \<open>One byte of \<open>calc_ccitt\<close>.\<close>

definition ccitt_byte :: "u16 \<Rightarrow> u8 \<Rightarrow> u16 option" where
  "ccitt_byte crc b =
     do { t \<leftarrow> rd gsv_CcittCrcTbl (unat (ucast (drop_bit 8 crc) XOR b)); Some (push_bit 8 crc XOR t) }"

fun ccitt_loop :: "u16 \<Rightarrow> u8 list \<Rightarrow> u16 option" where
  "ccitt_loop crc [] = Some crc"
| "ccitt_loop crc (b # bs) = do { crc' \<leftarrow> ccitt_byte crc b; ccitt_loop crc' bs }"

definition calc_ccitt :: "u8 list \<Rightarrow> u16 option" where
  "calc_ccitt bs = ccitt_loop 0 bs"

definition llv_Crc32Table :: "u32 list" where
  "llv_Crc32Table =
    [0x00000000, 0x77073096, 0xEE0E612C, 0x990951BA, 0x076DC419, 0x706AF48F, 0xE963A535, 0x9E6495A3,
     0x0EDB8832, 0x79DCB8A4, 0xE0D5E91E, 0x97D2D988, 0x09B64C2B, 0x7EB17CBD, 0xE7B82D07, 0x90BF1D91,
     0x1DB71064, 0x6AB020F2, 0xF3B97148, 0x84BE41DE, 0x1ADAD47D, 0x6DDDE4EB, 0xF4D4B551, 0x83D385C7,
     0x136C9856, 0x646BA8C0, 0xFD62F97A, 0x8A65C9EC, 0x14015C4F, 0x63066CD9, 0xFA0F3D63, 0x8D080DF5,
     0x3B6E20C8, 0x4C69105E, 0xD56041E4, 0xA2677172, 0x3C03E4D1, 0x4B04D447, 0xD20D85FD, 0xA50AB56B,
     0x35B5A8FA, 0x42B2986C, 0xDBBBC9D6, 0xACBCF940, 0x32D86CE3, 0x45DF5C75, 0xDCD60DCF, 0xABD13D59,
     0x26D930AC, 0x51DE003A, 0xC8D75180, 0xBFD06116, 0x21B4F4B5, 0x56B3C423, 0xCFBA9599, 0xB8BDA50F,
     0x2802B89E, 0x5F058808, 0xC60CD9B2, 0xB10BE924, 0x2F6F7C87, 0x58684C11, 0xC1611DAB, 0xB6662D3D,
     0x76DC4190, 0x01DB7106, 0x98D220BC, 0xEFD5102A, 0x71B18589, 0x06B6B51F, 0x9FBFE4A5, 0xE8B8D433,
     0x7807C9A2, 0x0F00F934, 0x9609A88E, 0xE10E9818, 0x7F6A0DBB, 0x086D3D2D, 0x91646C97, 0xE6635C01,
     0x6B6B51F4, 0x1C6C6162, 0x856530D8, 0xF262004E, 0x6C0695ED, 0x1B01A57B, 0x8208F4C1, 0xF50FC457,
     0x65B0D9C6, 0x12B7E950, 0x8BBEB8EA, 0xFCB9887C, 0x62DD1DDF, 0x15DA2D49, 0x8CD37CF3, 0xFBD44C65,
     0x4DB26158, 0x3AB551CE, 0xA3BC0074, 0xD4BB30E2, 0x4ADFA541, 0x3DD895D7, 0xA4D1C46D, 0xD3D6F4FB,
     0x4369E96A, 0x346ED9FC, 0xAD678846, 0xDA60B8D0, 0x44042D73, 0x33031DE5, 0xAA0A4C5F, 0xDD0D7CC9,
     0x5005713C, 0x270241AA, 0xBE0B1010, 0xC90C2086, 0x5768B525, 0x206F85B3, 0xB966D409, 0xCE61E49F,
     0x5EDEF90E, 0x29D9C998, 0xB0D09822, 0xC7D7A8B4, 0x59B33D17, 0x2EB40D81, 0xB7BD5C3B, 0xC0BA6CAD,
     0xEDB88320, 0x9ABFB3B6, 0x03B6E20C, 0x74B1D29A, 0xEAD54739, 0x9DD277AF, 0x04DB2615, 0x73DC1683,
     0xE3630B12, 0x94643B84, 0x0D6D6A3E, 0x7A6A5AA8, 0xE40ECF0B, 0x9309FF9D, 0x0A00AE27, 0x7D079EB1,
     0xF00F9344, 0x8708A3D2, 0x1E01F268, 0x6906C2FE, 0xF762575D, 0x806567CB, 0x196C3671, 0x6E6B06E7,
     0xFED41B76, 0x89D32BE0, 0x10DA7A5A, 0x67DD4ACC, 0xF9B9DF6F, 0x8EBEEFF9, 0x17B7BE43, 0x60B08ED5,
     0xD6D6A3E8, 0xA1D1937E, 0x38D8C2C4, 0x4FDFF252, 0xD1BB67F1, 0xA6BC5767, 0x3FB506DD, 0x48B2364B,
     0xD80D2BDA, 0xAF0A1B4C, 0x36034AF6, 0x41047A60, 0xDF60EFC3, 0xA867DF55, 0x316E8EEF, 0x4669BE79,
     0xCB61B38C, 0xBC66831A, 0x256FD2A0, 0x5268E236, 0xCC0C7795, 0xBB0B4703, 0x220216B9, 0x5505262F,
     0xC5BA3BBE, 0xB2BD0B28, 0x2BB45A92, 0x5CB36A04, 0xC2D7FFA7, 0xB5D0CF31, 0x2CD99E8B, 0x5BDEAE1D,
     0x9B64C2B0, 0xEC63F226, 0x756AA39C, 0x026D930A, 0x9C0906A9, 0xEB0E363F, 0x72076785, 0x05005713,
     0x95BF4A82, 0xE2B87A14, 0x7BB12BAE, 0x0CB61B38, 0x92D28E9B, 0xE5D5BE0D, 0x7CDCEFB7, 0x0BDBDF21,
     0x86D3D2D4, 0xF1D4E242, 0x68DDB3F8, 0x1FDA836E, 0x81BE16CD, 0xF6B9265B, 0x6FB077E1, 0x18B74777,
     0x88085AE6, 0xFF0F6A70, 0x66063BCA, 0x11010B5C, 0x8F659EFF, 0xF862AE69, 0x616BFFD3, 0x166CCF45,
     0xA00AE278, 0xD70DD2EE, 0x4E048354, 0x3903B3C2, 0xA7672661, 0xD06016F7, 0x4969474D, 0x3E6E77DB,
     0xAED16A4A, 0xD9D65ADC, 0x40DF0B66, 0x37D83BF0, 0xA9BCAE53, 0xDEBB9EC5, 0x47B2CF7F, 0x30B5FFE9,
     0xBDBDF21C, 0xCABAC28A, 0x53B39330, 0x24B4A3A6, 0xBAD03605, 0xCDD70693, 0x54DE5729, 0x23D967BF,
     0xB3667A2E, 0xC4614AB8, 0x5D681B02, 0x2A6F2B94, 0xB40BBE37, 0xC30C8EA1, 0x5A05DF1B, 0x2D02EF8D]"

definition crc32_byte :: "u32 \<Rightarrow> u8 \<Rightarrow> u32 option" where
  "crc32_byte crc b = do { t \<leftarrow> rd llv_Crc32Table (unat ((crc XOR ucast b) AND 0xFF)); Some (t XOR drop_bit 8 crc) }"

fun crc32_loop :: "u32 \<Rightarrow> u8 list \<Rightarrow> u32 option" where
  "crc32_loop crc [] = Some crc"
| "crc32_loop crc (b # bs) = do { crc' \<leftarrow> crc32_byte crc b; crc32_loop crc' bs }"

definition calc_crc32 :: "u8 list \<Rightarrow> u32 option" where
  "calc_crc32 bs = do { crc \<leftarrow> crc32_loop 0xFFFFFFFF bs; Some (crc XOR 0xFFFFFFFF) }"

definition gcv_CRCHi :: "u8 list" where
  "gcv_CRCHi =
    [0x00, 0xC1, 0x81, 0x40, 0x01, 0xC0, 0x80, 0x41, 0x01, 0xC0, 0x80, 0x41, 0x00, 0xC1, 0x81, 0x40,
     0x01, 0xC0, 0x80, 0x41, 0x00, 0xC1, 0x81, 0x40, 0x00, 0xC1, 0x81, 0x40, 0x01, 0xC0, 0x80, 0x41,
     0x01, 0xC0, 0x80, 0x41, 0x00, 0xC1, 0x81, 0x40, 0x00, 0xC1, 0x81, 0x40, 0x01, 0xC0, 0x80, 0x41,
     0x00, 0xC1, 0x81, 0x40, 0x01, 0xC0, 0x80, 0x41, 0x01, 0xC0, 0x80, 0x41, 0x00, 0xC1, 0x81, 0x40,
     0x01, 0xC0, 0x80, 0x41, 0x00, 0xC1, 0x81, 0x40, 0x00, 0xC1, 0x81, 0x40, 0x01, 0xC0, 0x80, 0x41,
     0x00, 0xC1, 0x81, 0x40, 0x01, 0xC0, 0x80, 0x41, 0x01, 0xC0, 0x80, 0x41, 0x00, 0xC1, 0x81, 0x40,
     0x00, 0xC1, 0x81, 0x40, 0x01, 0xC0, 0x80, 0x41, 0x01, 0xC0, 0x80, 0x41, 0x00, 0xC1, 0x81, 0x40,
     0x01, 0xC0, 0x80, 0x41, 0x00, 0xC1, 0x81, 0x40, 0x00, 0xC1, 0x81, 0x40, 0x01, 0xC0, 0x80, 0x41,
     0x01, 0xC0, 0x80, 0x41, 0x00, 0xC1, 0x81, 0x40, 0x00, 0xC1, 0x81, 0x40, 0x01, 0xC0, 0x80, 0x41,
     0x00, 0xC1, 0x81, 0x40, 0x01, 0xC0, 0x80, 0x41, 0x01, 0xC0, 0x80, 0x41, 0x00, 0xC1, 0x81, 0x40,
     0x00, 0xC1, 0x81, 0x40, 0x01, 0xC0, 0x80, 0x41, 0x01, 0xC0, 0x80, 0x41, 0x00, 0xC1, 0x81, 0x40,
     0x01, 0xC0, 0x80, 0x41, 0x00, 0xC1, 0x81, 0x40, 0x00, 0xC1, 0x81, 0x40, 0x01, 0xC0, 0x80, 0x41,
     0x00, 0xC1, 0x81, 0x40, 0x01, 0xC0, 0x80, 0x41, 0x01, 0xC0, 0x80, 0x41, 0x00, 0xC1, 0x81, 0x40,
     0x01, 0xC0, 0x80, 0x41, 0x00, 0xC1, 0x81, 0x40, 0x00, 0xC1, 0x81, 0x40, 0x01, 0xC0, 0x80, 0x41,
     0x01, 0xC0, 0x80, 0x41, 0x00, 0xC1, 0x81, 0x40, 0x00, 0xC1, 0x81, 0x40, 0x01, 0xC0, 0x80, 0x41,
     0x00, 0xC1, 0x81, 0x40, 0x01, 0xC0, 0x80, 0x41, 0x01, 0xC0, 0x80, 0x41, 0x00, 0xC1, 0x81, 0x40]"

definition gcv_CRCLo :: "u8 list" where
  "gcv_CRCLo =
    [0x00, 0xC0, 0xC1, 0x01, 0xC3, 0x03, 0x02, 0xC2, 0xC6, 0x06, 0x07, 0xC7, 0x05, 0xC5, 0xC4, 0x04,
     0xCC, 0x0C, 0x0D, 0xCD, 0x0F, 0xCF, 0xCE, 0x0E, 0x0A, 0xCA, 0xCB, 0x0B, 0xC9, 0x09, 0x08, 0xC8,
     0xD8, 0x18, 0x19, 0xD9, 0x1B, 0xDB, 0xDA, 0x1A, 0x1E, 0xDE, 0xDF, 0x1F, 0xDD, 0x1D, 0x1C, 0xDC,
     0x14, 0xD4, 0xD5, 0x15, 0xD7, 0x17, 0x16, 0xD6, 0xD2, 0x12, 0x13, 0xD3, 0x11, 0xD1, 0xD0, 0x10,
     0xF0, 0x30, 0x31, 0xF1, 0x33, 0xF3, 0xF2, 0x32, 0x36, 0xF6, 0xF7, 0x37, 0xF5, 0x35, 0x34, 0xF4,
     0x3C, 0xFC, 0xFD, 0x3D, 0xFF, 0x3F, 0x3E, 0xFE, 0xFA, 0x3A, 0x3B, 0xFB, 0x39, 0xF9, 0xF8, 0x38,
     0x28, 0xE8, 0xE9, 0x29, 0xEB, 0x2B, 0x2A, 0xEA, 0xEE, 0x2E, 0x2F, 0xEF, 0x2D, 0xED, 0xEC, 0x2C,
     0xE4, 0x24, 0x25, 0xE5, 0x27, 0xE7, 0xE6, 0x26, 0x22, 0xE2, 0xE3, 0x23, 0xE1, 0x21, 0x20, 0xE0,
     0xA0, 0x60, 0x61, 0xA1, 0x63, 0xA3, 0xA2, 0x62, 0x66, 0xA6, 0xA7, 0x67, 0xA5, 0x65, 0x64, 0xA4,
     0x6C, 0xAC, 0xAD, 0x6D, 0xAF, 0x6F, 0x6E, 0xAE, 0xAA, 0x6A, 0x6B, 0xAB, 0x69, 0xA9, 0xA8, 0x68,
     0x78, 0xB8, 0xB9, 0x79, 0xBB, 0x7B, 0x7A, 0xBA, 0xBE, 0x7E, 0x7F, 0xBF, 0x7D, 0xBD, 0xBC, 0x7C,
     0xB4, 0x74, 0x75, 0xB5, 0x77, 0xB7, 0xB6, 0x76, 0x72, 0xB2, 0xB3, 0x73, 0xB1, 0x71, 0x70, 0xB0,
     0x50, 0x90, 0x91, 0x51, 0x93, 0x53, 0x52, 0x92, 0x96, 0x56, 0x57, 0x97, 0x55, 0x95, 0x94, 0x54,
     0x9C, 0x5C, 0x5D, 0x9D, 0x5F, 0x9F, 0x9E, 0x5E, 0x5A, 0x9A, 0x9B, 0x5B, 0x99, 0x59, 0x58, 0x98,
     0x88, 0x48, 0x49, 0x89, 0x4B, 0x8B, 0x8A, 0x4A, 0x4E, 0x8E, 0x8F, 0x4F, 0x8D, 0x4D, 0x4C, 0x8C,
     0x44, 0x84, 0x85, 0x45, 0x87, 0x47, 0x46, 0x86, 0x82, 0x42, 0x43, 0x83, 0x41, 0x81, 0x80, 0x40]"

text \<open>One byte of \<open>calc_crc16\<close> on the two halves of the CRC, high and low.\<close>

definition crc16_byte :: "u8 \<times> u8 \<Rightarrow> u8 \<Rightarrow> (u8 \<times> u8) option" where
  "crc16_byte c b =
     (case c of (hi, lo) \<Rightarrow>
        let i = unat (lo XOR b) in
        do { h \<leftarrow> rd gcv_CRCHi i; l \<leftarrow> rd gcv_CRCLo i; Some (l, hi XOR h) })"

fun crc16_loop :: "u8 \<times> u8 \<Rightarrow> u8 list \<Rightarrow> (u8 \<times> u8) option" where
  "crc16_loop c [] = Some c"
| "crc16_loop c (b # bs) = do { c' \<leftarrow> crc16_byte c b; crc16_loop c' bs }"

definition calc_crc16 :: "u8 list \<Rightarrow> u16 option" where
  "calc_crc16 bs = do { (hi, lo) \<leftarrow> crc16_loop (0xFF, 0xFF) bs; Some (push_bit 8 (ucast hi) OR ucast lo) }"

section \<open>Division bit by bit\<close>

text \<open>One bit of the division, with the lowest power at the high end (reflected) and at the low end.\<close>

definition rstep :: "'a::len word \<Rightarrow> 'a word \<Rightarrow> 'a word" where
  "rstep p c = (if bit c 0 then drop_bit 1 c XOR p else drop_bit 1 c)"

definition lstep :: "'a::len word \<Rightarrow> 'a word \<Rightarrow> 'a word" where
  "lstep p c = (if bit c (LENGTH('a) - 1) then push_bit 1 c XOR p else push_bit 1 c)"

text \<open>The CRC of a message: add a byte, divide eight bits.\<close>

definition rcrc :: "'a::len word \<Rightarrow> 'a word \<Rightarrow> u8 list \<Rightarrow> 'a word" where
  "rcrc p = foldl (\<lambda>c b. (rstep p ^^ 8) (c XOR ucast b))"

definition lcrc :: "'a::len word \<Rightarrow> 'a word \<Rightarrow> u8 list \<Rightarrow> 'a word" where
  "lcrc p = foldl (\<lambda>c b. (lstep p ^^ 8) (c XOR push_bit (LENGTH('a) - 8) (ucast b)))"

section \<open>The tables\<close>

text \<open>A table of a function that is linear over XOR follows from its values at the powers of two.\<close>

fun span :: "'a::len word list \<Rightarrow> 'a word list" where
  "span [] = [0]"
| "span (b # bs) = (let t = span bs in t @ map (\<lambda>x. x XOR b) t)"

definition linear :: "('a::len word \<Rightarrow> 'a word) \<Rightarrow> bool" where
  "linear f \<longleftrightarrow> f 0 = 0 \<and> (\<forall>a b. f (a XOR b) = f a XOR f b)"

lemma bit_of_small: "i < 2 ^ k \<Longrightarrow> bit (of_nat i :: 'a::len word) n \<Longrightarrow> n < k"
  using take_bit_nat_eq_self [of i k] by (metis bit_of_nat_iff bit_take_bit_iff)

lemma of_nat_xor: "i < 2 ^ k \<Longrightarrow> (of_nat (2 ^ k + i) :: 'a::len word) = of_nat i XOR of_nat (2 ^ k)"
proof -
  assume i: "i < 2 ^ k"
  have d: "\<not> (bit (of_nat i :: 'a word) n \<and> bit (of_nat (2 ^ k) :: 'a word) n)" for n
    using bit_of_small [OF i, of n] by (auto simp: bit_exp_iff)
  have "(of_nat (2 ^ k + i) :: 'a word) = of_nat i + of_nat (2 ^ k)"
    by simp
  also have "\<dots> = of_nat i OR of_nat (2 ^ k)"
    using d by (intro disjunctive_add) blast
  also have "\<dots> = of_nat i XOR of_nat (2 ^ k)"
    using d by (intro bit_word_eqI) (auto simp: bit_or_iff bit_xor_iff)
  finally show ?thesis .
qed

lemma linear_span:
  assumes "linear f"
  shows "map (\<lambda>i. f (of_nat i)) [0..<2 ^ k] = span (rev (map (\<lambda>j. f (of_nat (2 ^ j))) [0..<k]))"
proof (induction k)
  case 0
  then show ?case
    using assms by (simp add: linear_def)
next
  case (Suc k)
  have "[0..<2 ^ Suc k] = [0..<2 ^ k] @ map (\<lambda>i. 2 ^ k + i) [0..<2 ^ k]"
    using upt_add_eq_append [of 0 "2 ^ k" "2 ^ k"] map_add_upt [of "2 ^ k" "2 ^ k"] by (simp add: mult_2 add.commute)
  moreover have "map (\<lambda>i. f (of_nat (2 ^ k + i))) [0..<2 ^ k] = map (\<lambda>i. f (of_nat i) XOR f (of_nat (2 ^ k))) [0..<2 ^ k]"
    using assms by (intro map_cong) (auto simp: of_nat_xor linear_def simp del: of_nat_add)
  ultimately have "map (\<lambda>i. f (of_nat i)) [0..<2 ^ Suc k] =
      map (\<lambda>i. f (of_nat i)) [0..<2 ^ k] @ map (\<lambda>x. x XOR f (of_nat (2 ^ k))) (map (\<lambda>i. f (of_nat i)) [0..<2 ^ k])"
    by (simp only: map_append map_map comp_def)
  then show ?case
    unfolding Suc.IH by (simp add: Let_def del: of_nat_power)
qed

lemma linear_comp: "linear f \<Longrightarrow> linear (f ^^ n)"
  by (induction n) (simp_all add: linear_def)

lemma linear_rstep: "linear (rstep p)"
  unfolding linear_def rstep_def by (auto simp: bit_xor_iff ac_simps)

lemma linear_lstep: "linear (lstep p)"
  unfolding linear_def lstep_def by (auto simp: bit_xor_iff push_bit_xor ac_simps)

lemma upto8: "[0..<8] = [0, 1, 2, 3, 4, 5, 6, 7]"
  by (simp add: upt_rec)

lemma linear_span8:
  assumes "linear f"
  shows "map (\<lambda>i. f (of_nat i)) [0..<256] = span (map (\<lambda>j. f (of_nat (2 ^ j))) [7, 6, 5, 4, 3, 2, 1, 0])"
proof -
  have "(256 :: nat) = 2 ^ 8" "[7, 6, 5, 4, 3, 2, 1, 0 :: nat] = rev [0..<8]"
    unfolding upto8 by simp_all
  then show ?thesis
    using linear_span [OF assms, of 8] by (simp only: rev_map)
qed

definition rtable :: "'a::len word \<Rightarrow> 'a word list" where
  "rtable p = map (\<lambda>i. (rstep p ^^ 8) (of_nat i)) [0..<256]"

lemma rtable_span: "rtable p = span (map (\<lambda>j. (rstep p ^^ 8) (of_nat (2 ^ j))) [7, 6, 5, 4, 3, 2, 1, 0])"
  unfolding rtable_def by (rule linear_span8 [OF linear_comp [OF linear_rstep]])

lemma crc32_table: "llv_Crc32Table = rtable 0xEDB88320"
proof -
  have "map (\<lambda>j. (rstep 0xEDB88320 ^^ 8) (of_nat (2 ^ j))) [7, 6, 5, 4, 3, 2, 1, 0] =
      [0xEDB88320, 0x76DC4190, 0x3B6E20C8, 0x1DB71064, 0x0EDB8832, 0x076DC419, 0xEE0E612C, 0x77073096 :: u32]"
    by code_simp
  then show ?thesis
    unfolding rtable_span by (simp add: llv_Crc32Table_def)
qed

lemma crc16_table: "map2 (\<lambda>l h. push_bit 8 (ucast l) OR ucast h) gcv_CRCLo gcv_CRCHi = rtable (0xA001 :: u16)"
proof -
  have "map (\<lambda>j. (rstep 0xA001 ^^ 8) (of_nat (2 ^ j))) [7, 6, 5, 4, 3, 2, 1, 0] =
      [0xA001, 0xF001, 0xD801, 0xCC01, 0xC601, 0xC301, 0xC181, 0xC0C1 :: u16]"
    by code_simp
  then show ?thesis
    unfolding rtable_span by (simp add: gcv_CRCLo_def gcv_CRCHi_def)
qed

lemma ccitt_table: "gsv_CcittCrcTbl = map (\<lambda>i. (lstep 0x1021 ^^ 8) (push_bit 8 (of_nat i))) [0..<256]"
proof -
  have "linear (\<lambda>c. (lstep 0x1021 ^^ 8) (push_bit 8 c) :: u16)"
    using linear_comp [OF linear_lstep, of 8 "0x1021 :: u16"] by (simp add: linear_def push_bit_xor)
  note linear_span8 [OF this]
  moreover have "map (\<lambda>j. (lstep 0x1021 ^^ 8) (push_bit 8 (of_nat (2 ^ j)))) [7, 6, 5, 4, 3, 2, 1, 0] =
      [0x9188, 0x48C4, 0x2462, 0x1231, 0x8108, 0x4084, 0x2042, 0x1021 :: u16]"
    by code_simp
  ultimately show ?thesis
    by (simp add: gsv_CcittCrcTbl_def)
qed

section \<open>Eight bits at once\<close>

lemma rstep_low_zero: "take_bit n c = 0 \<Longrightarrow> (rstep p ^^ n) c = drop_bit n c"
proof (induction n arbitrary: c)
  case (Suc n)
  have b: "\<not> bit c i" if "i < Suc n" for i
    using Suc.prems that by (metis bit_take_bit_iff bit_0_eq bot_apply bot_bool_def)
  have r: "rstep p c = drop_bit 1 c"
    using b [of 0] by (simp add: rstep_def)
  have t: "take_bit n (drop_bit 1 c) = 0"
    using b by (intro bit_word_eqI) (simp add: bit_take_bit_iff bit_drop_bit_eq)
  show ?case
    unfolding funpow_Suc_right comp_apply r Suc.IH [OF t] by (simp add: drop_bit_drop_bit)
qed simp

lemma lstep_high_zero:
  fixes c :: "'a::len word"
  assumes "drop_bit (LENGTH('a) - n) c = 0" "n \<le> LENGTH('a)"
  shows "(lstep p ^^ n) c = push_bit n c"
  using assms
proof (induction n arbitrary: c)
  case (Suc n)
  have b: "\<not> bit c i" if "LENGTH('a) - Suc n \<le> i" for i
    using Suc.prems(1) that bit_drop_bit_eq [of "LENGTH('a) - Suc n" c, THEN fun_cong, of "i - (LENGTH('a) - Suc n)"] by simp
  have l: "lstep p c = push_bit 1 c"
    using b [of "LENGTH('a) - 1"] by (simp add: lstep_def)
  have t: "drop_bit (LENGTH('a) - n) (push_bit 1 c) = 0"
  proof (rule bit_word_eqI)
    fix i
    show "bit (drop_bit (LENGTH('a) - n) (push_bit 1 c)) i \<longleftrightarrow> bit (0 :: 'a word) i"
      unfolding bit_drop_bit_eq bit_push_bit_iff comp_apply using b [of "LENGTH('a) - n + i - 1"] by simp
  qed
  show ?case
    unfolding funpow_Suc_right comp_apply l Suc.IH [OF t Suc_leD [OF Suc.prems(2)]] by (simp add: push_bit_push_bit)
qed simp

lemma rstep_table: "(rstep p ^^ n) c = drop_bit n c XOR (rstep p ^^ n) (take_bit n c)"
proof -
  let ?h = "push_bit n (drop_bit n c)"
  have c: "c = ?h XOR take_bit n c"
    by (rule bit_word_eqI) (auto simp: bit_xor_iff bit_push_bit_iff bit_drop_bit_eq bit_take_bit_iff)
  have "take_bit n ?h = 0" "drop_bit n ?h = drop_bit n c"
    by (auto intro!: bit_word_eqI simp: bit_take_bit_iff bit_drop_bit_eq bit_push_bit_iff dest: bit_imp_le_length)
  with linear_comp [OF linear_rstep, of n p] show ?thesis
    by (subst c) (simp add: linear_def rstep_low_zero)
qed

lemma lstep_table:
  fixes c :: "'a::len word"
  assumes "n \<le> LENGTH('a)"
  shows "(lstep p ^^ n) c = push_bit n c XOR (lstep p ^^ n) (push_bit (LENGTH('a) - n) (drop_bit (LENGTH('a) - n) c))"
proof -
  let ?m = "LENGTH('a) - n"
  let ?h = "push_bit ?m (drop_bit ?m c)"
  have c: "c = take_bit ?m c XOR ?h"
    by (rule bit_word_eqI) (auto simp: bit_xor_iff bit_push_bit_iff bit_drop_bit_eq bit_take_bit_iff)
  have "drop_bit ?m (take_bit ?m c) = 0" "push_bit n (take_bit ?m c) = push_bit n c"
    using assms by (auto intro!: bit_word_eqI simp: bit_take_bit_iff bit_drop_bit_eq bit_push_bit_iff)
  with linear_comp [OF linear_lstep, of n p] lstep_high_zero [of n "take_bit ?m c" p] assms show ?thesis
    by (subst c) (simp add: linear_def)
qed


lemma low_byte_index:
  fixes c :: "'a::len word"
  assumes "8 \<le> LENGTH('a)"
  shows "unat (take_bit 8 c) < 256" "(of_nat (unat (take_bit 8 c)) :: 'a word) = take_bit 8 c"
  using assms take_bit_nat_less_exp [of 8 "unat c"] by (simp add: unsigned_take_bit_eq, simp del: unsigned_take_bit_eq)

lemma rtable_nth: "8 \<le> LENGTH('a::len) \<Longrightarrow> rd (rtable p) (unat (take_bit 8 (c :: 'a word))) = Some ((rstep p ^^ 8) (take_bit 8 c))"
  using low_byte_index [of c] by (simp add: rtable_def)

lemma byte_high_bit: "\<not> bit (b :: u8) (8 + n)"
  using bit_imp_le_length [of b "8 + n"] by auto

lemma drop_ucast_byte: "drop_bit 8 (ucast (b :: u8) :: 'a::len word) = 0"
  by (rule bit_word_eqI) (auto simp: bit_drop_bit_eq bit_unsigned_iff dest: bit_imp_le_length)

lemma crc32_byte_eq: "crc32_byte c b = Some ((rstep 0xEDB88320 ^^ 8) (c XOR ucast b))"
proof -
  let ?d = "c XOR ucast b"
  have m: "?d AND 0xFF = take_bit 8 ?d"
    by (simp only: take_bit_eq_mask) (simp add: mask_eq_exp_minus_1)
  have r: "rd (rtable 0xEDB88320) (unat (take_bit 8 ?d)) = Some ((rstep 0xEDB88320 ^^ 8) (take_bit 8 ?d))"
    by (rule rtable_nth) simp
  have d: "drop_bit 8 ?d = drop_bit 8 c"
    by (simp add: drop_ucast_byte)
  show ?thesis
    unfolding crc32_byte_def m crc32_table r rstep_table [of 8 _ ?d] d by (simp add: xor.commute del: take_bit_xor)
qed

lemma crc32_loop_eq: "crc32_loop c bs = Some (rcrc 0xEDB88320 c bs)"
  by (induction bs arbitrary: c) (simp_all add: rcrc_def crc32_byte_eq)

lemma ccitt_byte_eq: "ccitt_byte c b = Some ((lstep 0x1021 ^^ 8) (c XOR push_bit 8 (ucast b)))"
proof -
  let ?i = "ucast (drop_bit 8 c) XOR b :: u8"
  have t: "rd gsv_CcittCrcTbl (unat ?i) = Some ((lstep 0x1021 ^^ 8) (push_bit 8 (ucast ?i)))"
    using unsigned_less [of ?i, where 'a = nat] by (simp add: ccitt_table)
  have "push_bit 8 (drop_bit 8 (c XOR push_bit 8 (ucast b))) = push_bit 8 (ucast ?i :: u16)"
    by (rule bit_word_eqI) (auto simp: bit_push_bit_iff bit_drop_bit_eq bit_xor_iff bit_unsigned_iff dest: bit_imp_le_length)
  moreover have "push_bit 8 (c XOR push_bit 8 (ucast b)) = push_bit 8 c"
    by (rule bit_word_eqI) (auto simp: bit_push_bit_iff bit_xor_iff bit_unsigned_iff dest: bit_imp_le_length)
  ultimately show ?thesis
    unfolding ccitt_byte_def t using lstep_table [of 8 "0x1021" "c XOR push_bit 8 (ucast b)"] by simp
qed

lemma ccitt_loop_eq: "ccitt_loop c bs = Some (lcrc 0x1021 c bs)"
  by (induction bs arbitrary: c) (simp_all add: lcrc_def ccitt_byte_eq)

definition join16 :: "u8 \<times> u8 \<Rightarrow> u16" where
  "join16 c = push_bit 8 (ucast (fst c)) OR ucast (snd c)"

lemma join16_low: "take_bit 8 (join16 c XOR ucast b) = ucast (snd c XOR b)"
  by (rule bit_word_eqI)
    (auto simp: join16_def bit_take_bit_iff bit_xor_iff bit_or_iff bit_push_bit_iff bit_unsigned_iff dest: bit_imp_le_length)

lemma join16_high: "drop_bit 8 (join16 c XOR ucast (b :: u8)) = ucast (fst c)"
  by (rule bit_word_eqI)
    (auto simp: join16_def byte_high_bit bit_drop_bit_eq bit_xor_iff bit_or_iff bit_push_bit_iff bit_unsigned_iff dest: bit_imp_le_length)

lemma crc16_byte_eq: "map_option join16 (crc16_byte c b) = Some ((rstep 0xA001 ^^ 8) (join16 c XOR ucast b))"
proof -
  let ?i = "unat (snd c XOR b)"
  have l: "length gcv_CRCHi = 256" "length gcv_CRCLo = 256"
    by (simp_all add: gcv_CRCHi_def gcv_CRCLo_def)
  have i: "?i < 256"
    using unsigned_less [of "snd c XOR b", where 'a = nat] by simp
  have "(rstep 0xA001 ^^ 8) (ucast (snd c XOR b) :: u16) = rtable 0xA001 ! ?i"
    using i by (simp add: rtable_def)
  also have "\<dots> = push_bit 8 (ucast (gcv_CRCLo ! ?i)) OR ucast (gcv_CRCHi ! ?i)"
    unfolding crc16_table [symmetric] using i l by simp
  finally have t: "(rstep 0xA001 ^^ 8) (ucast (snd c XOR b) :: u16) = push_bit 8 (ucast (gcv_CRCLo ! ?i)) OR ucast (gcv_CRCHi ! ?i)" .
  have j: "ucast h XOR (push_bit 8 (ucast l) OR ucast k) = join16 (l, h XOR k)" for h k l :: u8
    unfolding join16_def
    by (rule bit_word_eqI) (auto simp: bit_xor_iff bit_or_iff bit_push_bit_iff bit_unsigned_iff dest: bit_imp_le_length)
  have "crc16_byte c b = Some (gcv_CRCLo ! ?i, fst c XOR gcv_CRCHi ! ?i)"
    using i l by (simp add: crc16_byte_def rd_in Let_def split_beta)
  then show ?thesis
    unfolding rstep_table [of 8 _ "join16 c XOR ucast b"] join16_low join16_high t j by simp
qed

lemma crc16_loop_eq: "map_option join16 (crc16_loop c bs) = Some (rcrc 0xA001 (join16 c) bs)"
proof (induction bs arbitrary: c)
  case (Cons b bs)
  from crc16_byte_eq [of c b] obtain c' where "crc16_byte c b = Some c'" "join16 c' = (rstep 0xA001 ^^ 8) (join16 c XOR ucast b)"
    by auto
  with Cons.IH [of c'] show ?case
    by (simp add: rcrc_def)
qed (simp add: rcrc_def)

text \<open>C15. The tables of \<open>verify_func.c\<close> are right and the loops over them divide by the polynomial: for every message
  the CCITT checksum is the division by 0x1021 from 0, the CRC-32 is the reflected division by 0xEDB88320 from and
  masked with 0xFFFFFFFF, and the CRC-16 of Modbus the reflected division by 0xA001 from 0xFFFF.  No table access
  leaves its table.\<close>

theorem checksums_divide:
  "calc_ccitt bs = Some (lcrc 0x1021 0 bs) \<and>
   calc_crc32 bs = Some (rcrc 0xEDB88320 0xFFFFFFFF bs XOR 0xFFFFFFFF) \<and>
   calc_crc16 bs = Some (rcrc 0xA001 0xFFFF bs)"
proof -
  have "join16 (0xFF, 0xFF) = 0xFFFF"
    by (simp add: join16_def)
  then have "calc_crc16 bs = Some (rcrc 0xA001 0xFFFF bs)"
    using crc16_loop_eq [of "(0xFF, 0xFF)" bs] by (auto simp: calc_crc16_def join16_def)
  then show ?thesis
    by (simp add: calc_ccitt_def calc_crc32_def ccitt_loop_eq crc32_loop_eq)
qed

section \<open>The instructions\<close>

text \<open>\<open>source/plc/executer/src/plc_verifyins.c\<close>: the count of the words at 6; their low bytes are the message, and the
  word at 10 holds the value before and after.\<close>

definition check_count :: "plc_state \<Rightarrow> si_env \<Rightarrow> (u16 \<Rightarrow> ci_res) \<Rightarrow> ci_res" where
  "check_count s e f =
     when_flow s e (read_word s e 6 (\<lambda>n.
       if sint n < 0 then ci_err ERR_OPERANDS s e else if n = 0 then ci_ok s e else f n))"

text \<open>A constant operand gives one word only; the rest of the buffer has no value.\<close>

definition check_bytes :: "plc_state \<Rightarrow> si_env \<Rightarrow> u16 \<Rightarrow> (u8 list \<Rightarrow> ci_res) \<Rightarrow> ci_res" where
  "check_bytes s e n f = read_words s e 2 n (\<lambda>ws. if length ws < unat n then None else f (map ucast ws))"

definition run_ci_ccitt_ins :: "plc_state \<Rightarrow> si_env \<Rightarrow> ci_res" where
  "run_ci_ccitt_ins s e =
     check_count s e (\<lambda>n. check_bytes s e n (\<lambda>bs.
       read_word s e 10 (\<lambda>c. do { c' \<leftarrow> ccitt_loop c bs; write_word s e 10 c' })))"

definition crc16_word :: "u16 \<Rightarrow> u8 \<Rightarrow> u16 option" where
  "crc16_word c b =
     (let lo = c AND 0xFF; hi = drop_bit 8 c; i = unat (lo XOR ucast b) in
      do { l \<leftarrow> rd gcv_CRCLo i; h \<leftarrow> rd gcv_CRCHi i;
           Some (push_bit 8 (ucast l) + ucast (ucast (hi XOR ucast h) :: u8)) })"

fun crc16_words :: "u16 \<Rightarrow> u8 list \<Rightarrow> u16 option" where
  "crc16_words c [] = Some c"
| "crc16_words c (b # bs) = do { c' \<leftarrow> crc16_word c b; crc16_words c' bs }"

definition run_ci_crc16_ins :: "plc_state \<Rightarrow> si_env \<Rightarrow> ci_res" where
  "run_ci_crc16_ins s e =
     check_count s e (\<lambda>n. check_bytes s e n (\<lambda>bs.
       read_word s e 10 (\<lambda>c. do { c' \<leftarrow> crc16_words c bs; write_word s e 10 c' })))"

definition run_ci_lrc_ins :: "plc_state \<Rightarrow> si_env \<Rightarrow> ci_res" where
  "run_ci_lrc_ins s e =
     check_count s e (\<lambda>n. read_word s e 10 (\<lambda>t.
       check_bytes s e n (\<lambda>bs. write_word s e 10 (ucast (- foldl (+) (ucast t) bs)))))"

lemma join16_split: "join16 (ucast (drop_bit 8 c), ucast c) = c"
  by (rule bit_word_eqI)
    (auto simp: join16_def bit_or_iff bit_push_bit_iff bit_unsigned_iff bit_drop_bit_eq dest: bit_imp_le_length)

lemma u8_small: "unat (b :: u8) < 2 ^ 16"
  using unsigned_less [of b, where 'a = nat] by (rule less_trans) simp

lemma crc16_word_eq: "crc16_word c b = map_option join16 (crc16_byte (ucast (drop_bit 8 c), ucast c) b)"
proof -
  have i: "unat (c AND 0xFF XOR ucast b) = unat (ucast c XOR b)"
  proof -
    have "c AND 0xFF = take_bit 8 c"
      by (simp only: take_bit_eq_mask) (simp add: mask_eq_exp_minus_1)
    moreover have "take_bit 8 c XOR ucast b = (ucast (ucast c XOR b) :: u16)"
      by (rule bit_word_eqI) (auto simp: bit_take_bit_iff bit_xor_iff bit_unsigned_iff dest: bit_imp_le_length)
    ultimately have "c AND 0xFF XOR ucast b = ucast (ucast c XOR b)"
      by (simp only:)
    then show ?thesis
      using take_bit_nat_eq_self [OF u8_small, of "ucast c XOR b"] by (simp add: unsigned_ucast_eq)
  qed
  have "push_bit 8 (ucast l) + (ucast k :: u16) = join16 (l, k)" for l k :: u8
    unfolding join16_def
    by (simp, intro disjunctive_add) (auto simp: bit_push_bit_iff bit_unsigned_iff dest: bit_imp_le_length)
  moreover have "ucast (drop_bit 8 c XOR ucast h) = (ucast (drop_bit 8 c) XOR h :: u8)" for h :: u8
    by (rule bit_word_eqI) (auto simp: bit_xor_iff bit_unsigned_iff)
  ultimately show ?thesis
    unfolding crc16_word_def crc16_byte_def Let_def i
    by (simp add: rd_def)
qed

text \<open>The instruction continues the checksum from the value in its last operand.\<close>

lemma crc16_words_eq: "crc16_words c bs = Some (rcrc 0xA001 c bs)"
proof (induction bs arbitrary: c)
  case (Cons b bs)
  then show ?case
    unfolding crc16_words.simps crc16_word_eq crc16_byte_eq join16_split by (simp add: rcrc_def)
qed (simp add: rcrc_def)

end
