(* ===== verification/PLC_Clock.thy ===== *)
theory PLC_Clock
  imports PLC_Timer PLC_Move
begin

text \<open>
  Clock instructions, the second half of \<open>source/plc/executer/src/plc_timeins.c\<close>: the alarm elements S900 to S999,
  reading and setting the real-time clock, sums and differences of times of day, the hour meters, comparisons of
  dates and times and the conversion between hours and seconds.
\<close>

section \<open>Alarms\<close>

definition plc_reset_signal_alarm_element :: "plc_state \<Rightarrow> plc_state" where
  "plc_reset_signal_alarm_element s = s\<lparr>ssv_MinAlarmSElement := 999\<rparr>"

text \<open>The time of an alarm has run out: its S element, and with SM100 the report in SM401 and SD401.\<close>

definition raise_alarm :: "u16 \<Rightarrow> plc_state \<Rightarrow> plc_state option" where
  "raise_alarm a s =
     do { s1 \<leftarrow> set_bit_elem S_ELEMENT s a 1;
          b \<leftarrow> get_bit_elem SM_ELEMENT s1 100;
          if b = 0 then Some s1
          else do {
            s2 \<leftarrow> set_bit_elem SM_ELEMENT s1 401 1;
            if a < ssv_MinAlarmSElement s2 then set_word_elem SD_AREA (s2\<lparr>ssv_MinAlarmSElement := a\<rparr>) 401 a else Some s2 } }"

text \<open>The timer of an alarm with power flow.\<close>

definition ans_timer :: "u32 \<Rightarrow> t_view \<Rightarrow> t_view" where
  "ans_timer now v =
     (if 0x7FFF \<le> tv_current v then timer_enable False v
      else let v' = timer_enable True v in timer_count (now - tv_start v') 100 v')"

definition run_ci_ans_ins :: "plc_state \<Rightarrow> si_env \<Rightarrow> (plc_ret \<times> plc_state) option" where
  "run_ci_ans_ins s e =
     do { n \<leftarrow> GET_PU16_DATA (ucode s) (mcp_PC e + 4);
          if t_10msTimerCnt (msv_TElement (gtp_PlcElementInfo s)) \<le> n then Some (ERR_OVER_ELEMENT_RANG, s)
          else do {
            v0 \<leftarrow> get_timer s n;
            let v1 = v0\<lparr>tv_status := (tv_status v0)\<lparr>t_Capacity := TIME_ACCURACY_100MS, t_Type := TIME_TYPE_TON\<rparr>\<rparr>;
            (r, ws) \<leftarrow> get_word s (mcp_PC e + 6) 0 1;
            if r \<noteq> pdPASS then do { s1 \<leftarrow> put_timer s n v1; s2 \<leftarrow> dest_after s1 n ws; Some (r, s2) }
            else do {
              d \<leftarrow> rd ws 0;
              let v2 = v1\<lparr>tv_dest := d\<rparr>;
              a \<leftarrow> GET_PU16_DATA (ucode s) (mcp_PC e + 12);
              if a < 900 \<or> 999 < a then do { s1 \<leftarrow> put_timer s n v2; Some (ERR_OVER_ELEMENT_RANG, s1) }
              else
                let now = GET_1MS_TICKS_COUNT s;
                    v3 = (if \<not> t_Enable (tv_status v2) then v2\<lparr>tv_start := now\<rparr> else v2) in
                if GET_POWER_FLOW (mlv_InPF e) then
                  let v4 = ans_timer now v3 in
                  do { s1 \<leftarrow> put_timer s n v4;
                       s2 \<leftarrow> (if tv_dest v4 \<le> tv_current v4 then raise_alarm a s1 else Some s1);
                       Some (pdPASS, s2) }
                else
                  do { s1 \<leftarrow> put_timer s n ((timer_enable False v3)\<lparr>tv_current := 0, tv_start := now\<rparr>); Some (pdPASS, s1) } } } }"

text \<open>The first alarm that is on is switched off; the result is its number, or 1000.\<close>

fun clear_alarm :: "u16 list \<Rightarrow> plc_state \<Rightarrow> (u16 \<times> plc_state) option" where
  "clear_alarm [] s = Some (1000, s)"
| "clear_alarm (i # is) s =
     do { b \<leftarrow> get_bit_elem S_ELEMENT s i;
          if b \<noteq> 0 then do { s' \<leftarrow> set_bit_elem S_ELEMENT s i 0; Some (i, s') } else clear_alarm is s }"

text \<open>The search for the next alarm stops at the alarm just switched off, whether or not it is on.\<close>

definition run_ci_anr_ins :: "plc_state \<Rightarrow> si_env \<Rightarrow> ci_res" where
  "run_ci_anr_ins s e =
     when_flow s e (do {
       (i, s1) \<leftarrow> clear_alarm (map of_nat [900..<1000]) s;
       b \<leftarrow> get_bit_elem SM_ELEMENT s1 400;
       if b = 0 then ci_ok s1 e
       else if i \<le> 999 then do {
         c \<leftarrow> get_bit_elem S_ELEMENT s1 i;
         s2 \<leftarrow> (if c \<noteq> 0 then set_word_elem SD_AREA s1 401 i else Some s1);
         ci_ok s2 e }
       else do {
         s2 \<leftarrow> set_bit_elem SM_ELEMENT s1 401 0;
         s3 \<leftarrow> set_word_elem SD_AREA s2 401 0;
         ci_ok (s3\<lparr>ssv_MinAlarmSElement := 999\<rparr>) e } })"

section \<open>Real-time clock\<close>

text \<open>SD100 to SD106 hold the date and the time of day.  The buffer that TRD passes to \<open>save_word\<close> is the SD area
  itself: a destination in that area changes the words still to be read, and a destination of bit elements
  shifts the words out.\<close>

fun trd_loop :: "plc_state \<Rightarrow> nat \<Rightarrow> nat list \<Rightarrow> (plc_ret \<times> plc_state) option" where
  "trd_loop s a [] = Some (pdPASS, s)"
| "trd_loop s a (j # js) =
     do { w \<leftarrow> get_word_elem SD_AREA s (100 + of_nat j);
          (r, s1, ws) \<leftarrow> save_word s a [w] (of_nat j) 1;
          w' \<leftarrow> rd ws 0;
          s2 \<leftarrow> set_word_elem SD_AREA s1 (100 + of_nat j) w';
          if r \<noteq> pdPASS then Some (r, s2) else trd_loop s2 a js }"

definition run_ci_trd_ins :: "plc_state \<Rightarrow> si_env \<Rightarrow> ci_res" where
  "run_ci_trd_ins s e = when_flow s e (at_env e (trd_loop s (mcp_PC e + 2) [0..<7]))"

text \<open>A block of words; with a constant operand only the first word of the buffer has a value.\<close>

definition read_block :: "plc_state \<Rightarrow> si_env \<Rightarrow> nat \<Rightarrow> nat \<Rightarrow> (u16 list \<Rightarrow> ci_res) \<Rightarrow> ci_res" where
  "read_block s e k n f = read_words s e k (of_nat n) (\<lambda>ws. if length ws < n then None else f ws)"

definition run_ci_twr_ins :: "plc_state \<Rightarrow> si_env \<Rightarrow> ci_res" where
  "run_ci_twr_ins s e =
     when_flow s e (read_block s e 2 7 (\<lambda>ws.
       if ws ! 0 < 2000 \<or> 12 < ws ! 1 \<or> 31 < ws ! 2 \<or> 24 < ws ! 3 \<or> 60 < ws ! 4 \<or> 60 < ws ! 5 \<or> 7 < ws ! 6
       then ci_err ERR_OPERANDS s e
       else ci_ok (s\<lparr>srtc_datetime := take 6 ws\<rparr>) e))"

section \<open>Times of day\<close>

text \<open>The pair of hours, minutes or seconds at place \<open>i\<close> of the two operands, refused above \<open>m\<close>.\<close>

definition time_pair :: "u16 \<Rightarrow> u16 \<Rightarrow> plc_state \<Rightarrow> si_env \<Rightarrow> (u16 \<Rightarrow> u16 \<Rightarrow> ci_res) \<Rightarrow> ci_res" where
  "time_pair i m s e f =
     read_word_at i s e 2 (\<lambda>x. read_word_at i s e 6 (\<lambda>y. if m < x \<or> m < y then ci_err ERR_OPERANDS s e else f x y))"

definition zero_if :: "bool \<Rightarrow> plc_state \<Rightarrow> plc_state option" where
  "zero_if b s = (if b then raise_flag 180 s else Some s)"

definition time_sum :: "u16 \<Rightarrow> u16 \<Rightarrow> u16 \<times> u16" where
  "time_sum c z = (let t = c + z in if 60 < t then (1, t - 60) else (0, t))"

definition run_ci_tadd_ins :: "plc_state \<Rightarrow> si_env \<Rightarrow> ci_res" where
  "run_ci_tadd_ins s e =
     when_flow s e (do {
       s0 \<leftarrow> set_bit_elem SM_ELEMENT s 180 0;
       s1 \<leftarrow> set_bit_elem SM_ELEMENT s0 181 0;
       time_pair 2 60 s1 e (\<lambda>a b.
         case time_sum 0 (a + b) of (c1, sec) \<Rightarrow>
         time_pair 1 60 s1 e (\<lambda>a b.
           case time_sum c1 (a + b) of (c2, mi) \<Rightarrow>
           time_pair 0 23 s1 e (\<lambda>a b.
             let h = c2 + (a + b) in do {
               s2 \<leftarrow> (if 23 < h then raise_flag 181 s1 else Some s1);
               let h' = (if 23 < h then h - 24 else h);
               s3 \<leftarrow> zero_if (\<not> (h' \<noteq> 0 \<and> mi \<noteq> 0 \<and> sec \<noteq> 0)) s2;
               write_words s3 e 10 [h', mi, sec] }))) })"

text \<open>The borrow of the minutes is taken whenever the difference is below 60.\<close>

definition time_diff :: "int \<Rightarrow> int \<Rightarrow> int \<Rightarrow> int \<times> int" where
  "time_diff lim c d = (let t = c + d in if t < lim then (- 1, t + 60) else (0, t))"

definition run_ci_tsub_ins :: "plc_state \<Rightarrow> si_env \<Rightarrow> ci_res" where
  "run_ci_tsub_ins s e =
     when_flow s e (do {
       s0 \<leftarrow> set_bit_elem SM_ELEMENT s 180 0;
       s1 \<leftarrow> set_bit_elem SM_ELEMENT s0 182 0;
       time_pair 2 60 s1 e (\<lambda>a b.
         case time_diff 0 0 (uint a - uint b) of (c1, sec) \<Rightarrow>
         time_pair 1 60 s1 e (\<lambda>a b.
           case time_diff 60 c1 (uint a - uint b) of (c2, mi) \<Rightarrow>
           time_pair 0 23 s1 e (\<lambda>a b.
             let h = c2 + (uint a - uint b) in do {
               s2 \<leftarrow> (if h < 0 then raise_flag 182 s1 else Some s1);
               let h' = (if h < 0 then h + 24 else h);
               s3 \<leftarrow> zero_if (\<not> (h' \<noteq> 0 \<and> mi \<noteq> 0 \<and> sec \<noteq> 0)) s2;
               write_words s3 e 10 [word_of_int h', word_of_int mi, word_of_int sec] }))) })"

definition run_ci_htos_ins :: "plc_state \<Rightarrow> si_env \<Rightarrow> ci_res" where
  "run_ci_htos_ins s e =
     when_flow s e (read_block s e 2 3 (\<lambda>ws.
       if 23 < ws ! 0 \<or> 59 < ws ! 1 \<or> 59 < ws ! 2 then ci_err ERR_OPERANDS s e
       else write_word s e 6 (ws ! 0 * 60 * 60 + ws ! 1 * 60 + ws ! 2)))"

definition run_ci_stoh_ins :: "plc_state \<Rightarrow> si_env \<Rightarrow> ci_res" where
  "run_ci_stoh_ins s e =
     when_flow s e (read_word s e 2 (\<lambda>t. write_words s e 6 [t div 3600, (t mod 3600) div 60, t mod 60]))"

section \<open>Hour meters\<close>

definition plc_hour_ins_data_init :: "plc_state \<Rightarrow> plc_state" where
  "plc_hour_ins_data_init s = s\<lparr>gtp_HourInsSt := replicate 256 \<lparr>mcv_LastPFStatus = 0, mlv_LastTime = 0\<rparr>\<rparr>"

definition put_hour :: "u16 \<Rightarrow> plc_hour_ins_st \<Rightarrow> plc_state \<Rightarrow> plc_state option" where
  "put_hour n h s = do { hs \<leftarrow> wr (gtp_HourInsSt s) (unat n) h; Some (s\<lparr>gtp_HourInsSt := hs\<rparr>) }"

text \<open>Hours and seconds after \<open>d\<close> milliseconds.\<close>

definition hour_count :: "u32 \<Rightarrow> u16 \<Rightarrow> u16 \<Rightarrow> u16 \<times> u16" where
  "hour_count d h sec =
     (let t = ucast (ucast sec + d div 1000) in if 3600 < t then (h + 1, t - 3600) else (h, t))"

definition run_ci_hour_ins :: "plc_state \<Rightarrow> si_env \<Rightarrow> ci_res" where
  "run_ci_hour_ins s e =
     do { n \<leftarrow> GET_PU16_DATA (ucode s) (mcp_PC e + 14);
          if 255 < n then ci_err ERR_OPERANDS s e
          else do {
            h \<leftarrow> rd (gtp_HourInsSt s) (unat n);
            let now = GET_1MS_TICKS_COUNT s;
            if \<not> GET_POWER_FLOW (mlv_InPF e) then do { s1 \<leftarrow> put_hour n (h\<lparr>mcv_LastPFStatus := 0\<rparr>) s; ci_ok s1 e }
            else if mcv_LastPFStatus h = 0 then
              do { s1 \<leftarrow> put_hour n \<lparr>mcv_LastPFStatus = 1, mlv_LastTime = now\<rparr> s; ci_ok s1 e }
            else read_word s e 2 (\<lambda>dest. read_word s e 6 (\<lambda>t0. read_word_at 1 s e 6 (\<lambda>t1.
              let d = now - mlv_LastTime h in
              case hour_count d (if 32767 < t0 then 0 else t0) t1 of (h0, h1) \<Rightarrow>
              do { s1 \<leftarrow> put_hour n (h\<lparr>mlv_LastTime := now - d mod 1000\<rparr>) s;
                   then_ins (if dest \<le> h0 then write_chars s1 e 10 [1] else ci_ok s1 e) (\<lambda>s2. write_words s2 e 6 [h0, h1]) }))) } }"

section \<open>Comparisons\<close>

text \<open>The greatest day of a month.  The condition of a leap year asks for a multiple of 400 that is no multiple
  of 100.\<close>

definition month_days :: "int \<Rightarrow> int \<Rightarrow> int" where
  "month_days y m =
     (if m \<in> {1, 3, 5, 7, 8, 10, 12} then 31
      else if m \<in> {4, 6, 9, 11} then 30
      else if y smod 4 = 0 \<and> y smod 100 \<noteq> 0 \<and> y smod 400 = 0 then 29 else 28)"

definition good_date :: "u16 list \<Rightarrow> bool" where
  "good_date d \<longleftrightarrow> 1 \<le> sint (d ! 2) \<and> sint (d ! 2) \<le> month_days (sint (d ! 0)) (sint (d ! 1))"

text \<open>Lexicographic comparison of three signed words: \<open>- 1\<close>, \<open>0\<close> or \<open>1\<close>.\<close>

definition cmp3 :: "u16 list \<Rightarrow> u16 list \<Rightarrow> int" where
  "cmp3 x y =
     (if sint (x ! 0) < sint (y ! 0) then - 1 else if sint (x ! 0) > sint (y ! 0) then 1
      else if sint (x ! 1) < sint (y ! 1) then - 1 else if sint (x ! 1) > sint (y ! 1) then 1
      else if sint (x ! 2) < sint (y ! 2) then - 1 else if sint (x ! 2) > sint (y ! 2) then 1
      else 0)"

text \<open>The switch over the six codes; without a matching case the stored value is undefined.\<close>

definition store_cmp :: "u16 list \<Rightarrow> plc_state \<Rightarrow> si_env \<Rightarrow> int \<Rightarrow> ci_res" where
  "store_cmp cs s e r =
     do { w \<leftarrow> GET_PU16_DATA (ucode s) (mcp_PC e); b \<leftarrow> cmp_switch cs w r 0; write_chars s e 10 [of_bool b] }"

definition run_ci_dcmp_ins :: "plc_state \<Rightarrow> si_env \<Rightarrow> ci_res" where
  "run_ci_dcmp_ins s e =
     when_flow s e (read_block s e 2 3 (\<lambda>x. read_block s e 6 3 (\<lambda>y.
       if sint (x ! 1) < 1 \<or> 12 < sint (x ! 1) \<or> sint (y ! 1) < 1 \<or> 12 < sint (y ! 1) then ci_err ERR_OPERANDS s e
       else if \<not> good_date x \<or> \<not> good_date y then ci_err ERR_OPERANDS s e
       else store_cmp [CI_DCMPE, CI_DCMPG, CI_DCMPL, CI_DCMPNE, CI_DCMPLE, CI_DCMPGE] s e (cmp3 x y))))"

definition good_time :: "u16 list \<Rightarrow> bool" where
  "good_time t \<longleftrightarrow> sint (t ! 0) \<in> {0..23} \<and> sint (t ! 1) \<in> {0..59} \<and> sint (t ! 2) \<in> {0..59}"

definition run_ci_tcmp_ins :: "plc_state \<Rightarrow> si_env \<Rightarrow> ci_res" where
  "run_ci_tcmp_ins s e =
     when_flow s e (read_block s e 2 3 (\<lambda>x. read_block s e 6 3 (\<lambda>y.
       if \<not> good_time x \<or> \<not> good_time y then ci_err ERR_OPERANDS s e
       else store_cmp [CI_TCMPE, CI_TCMPG, CI_TCMPL, CI_TCMPNE, CI_TCMPLE, CI_TCMPGE] s e (cmp3 x y))))"

end
