(* ===== verification/PLC_Complex.thy ===== *)
theory PLC_Complex
  imports PLC_FlowCtrl PLC_Verify PLC_Clock
begin

text \<open>
  The interpreter of complex instructions, \<open>source/plc/executer/src/plc_complexins.c\<close>: the dispatch over the
  instruction codes, the length by which every case moves the program counter, and the loop that goes on while
  the next word is a complex instruction.  Instructions whose functions are not modelled (floating point,
  strings, communication, high-speed inputs and pulse outputs) are given by the argument \<open>ext\<close>, one function per
  code.
\<close>

section \<open>Cases\<close>

type_synonym instruction = "plc_state \<Rightarrow> si_env \<Rightarrow> ci_res"

type_synonym ext_ins = "u16 \<Rightarrow> instruction"

definition skip :: "nat \<Rightarrow> si_env \<Rightarrow> si_env" where
  "skip n e = e\<lparr>mcp_PC := mcp_PC e + n\<rparr>"

text \<open>The instruction runs, whatever it returns, and the counter moves on.\<close>

definition adv :: "nat \<Rightarrow> instruction \<Rightarrow> instruction" where
  "adv n f s e = do { (r, s', e') \<leftarrow> f s e; Some (r, s', skip n e') }"

text \<open>The compare contacts return at once on an error.  A series contact is evaluated only with power flow, a parallel
  contact only without.\<close>

definition adv_pass :: "nat \<Rightarrow> instruction \<Rightarrow> instruction" where
  "adv_pass n f s e = do { (r, s', e') \<leftarrow> f s e; Some (r, s', if r = pdPASS then skip n e' else e') }"

definition and_contact :: "nat \<Rightarrow> instruction \<Rightarrow> instruction" where
  "and_contact n f s e = (if GET_POWER_FLOW (mlv_InPF e) then adv_pass n f s e else Some (pdPASS, s, skip n e))"

definition or_contact :: "nat \<Rightarrow> instruction \<Rightarrow> instruction" where
  "or_contact n f s e = (if GET_POWER_FLOW (mlv_InPF e) then Some (pdPASS, s, skip n e) else adv_pass n f s e)"

definition illegal :: "nat \<Rightarrow> instruction" where
  "illegal n s e = Some (ERR_ILLEGAL_INSTRCTION, s, skip n e)"

text \<open>Timers and counters do not change the power flow.\<close>

definition in_env :: "(plc_state \<Rightarrow> si_env \<Rightarrow> (plc_ret \<times> plc_state) option) \<Rightarrow> instruction" where
  "in_env f s e = at_env e (f s e)"

text \<open>The length of a string literal is in the byte before its type.\<close>

definition str_len :: "plc_state \<Rightarrow> nat \<Rightarrow> nat \<Rightarrow> nat \<Rightarrow> nat option" where
  "str_len s a m n =
     do { t \<leftarrow> GET_PU8_DATA (ucode s) (a + 1);
          if t = addr_code ADDR_STR then do { l \<leftarrow> GET_PU8_DATA (ucode s) a; Some (unat l + m) } else Some n }"

definition adv_str :: "nat \<Rightarrow> nat \<Rightarrow> instruction \<Rightarrow> instruction" where
  "adv_str m n f s e =
     do { (r, s', e') \<leftarrow> f s e; k \<leftarrow> str_len s' (mcp_PC e' + 2) m n; Some (r, s', skip k e') }"

definition adv_str2 :: "instruction \<Rightarrow> instruction" where
  "adv_str2 f s e =
     do { (r, s', e') \<leftarrow> f s e;
          k \<leftarrow> str_len s' (mcp_PC e' + 2) 4 6;
          m \<leftarrow> str_len s' (mcp_PC e' + k) 6 8;
          Some (r, s', skip (k + m) e') }"

definition ci_cases_1 :: "program_runner \<Rightarrow> ext_ins \<Rightarrow> (u16 \<times> instruction) list" where
  "ci_cases_1 run ext =
     [(CI_LBL, adv 6 run_ci_lbl_ins), (CI_SBR, adv 4 run_ci_sbr_ins), (CI_INTR, adv 4 ci_ok),
      (CI_LD_LM, adv 6 run_ci_ld_lm_ins), (CI_LDI_LM, adv 6 run_ci_ldi_lm_ins), (CI_AND_LM, adv 6 run_ci_and_lm_ins),
      (CI_ANI_LM, adv 6 run_ci_ani_lm_ins), (CI_OR_LM, adv 6 run_ci_or_lm_ins), (CI_ORI_LM, adv 6 run_ci_ori_lm_ins),
      (CI_OUT_LM, adv 6 run_ci_out_lm_ins), (CI_SET_LM, adv 6 run_ci_set_lm_ins),
      (CI_RST_LM, adv 6 run_ci_rst_lm_ins), (CI_STL, run_ci_stl_ins), (CI_RST_S, adv 6 run_ci_rst_s_ins),
      (CI_SET_S, adv 6 run_ci_set_s_ins), (CI_OUT_S, adv 6 run_ci_out_s_ins), (CI_RET, adv 2 run_ci_ret_ins),
      (CI_TON, adv 10 (in_env run_ci_ton_ins)), (CI_TOF, adv 10 (in_env run_ci_tof_ins)),
      (CI_TONR, adv 10 (in_env run_ci_tonr_ins)), (CI_RST_T, adv 6 (in_env run_ci_rst_t_ins)),
      (CI_DCNT, adv 14 (in_env run_ci_dcnt_ins)), (CI_CTU, adv 10 (in_env run_ci_ctu_ins)),
      (CI_CTR, adv 10 (in_env run_ci_ctr_ins)), (CI_RST_C, adv 6 (in_env run_ci_rst_c_ins)), (CI_MC, run_ci_mc_ins),
      (CI_MCR, run_ci_mcr_ins), (CI_CJ, run_ci_cj_ins), (CI_FOR, run_ci_for_ins), (CI_NEXT, run_ci_next_ins),
      (CI_CONTINUE, run_ci_continue_ins)]"

definition ci_cases_2 :: "program_runner \<Rightarrow> ext_ins \<Rightarrow> (u16 \<times> instruction) list" where
  "ci_cases_2 run ext =
     [(CI_BREAK, run_ci_break_ins), (CI_CALL, run_ci_call_ins run), (CI_CSRET, run_ci_csret_ins),
      (CI_SRET, run_ci_sret_ins), (CI_CIRET, adv 2 run_ci_ciret_ins), (CI_IRET, run_ci_iret_ins),
      (CI_EI, adv 2 run_ci_ei_ins), (CI_DI, adv 2 run_ci_di_ins), (CI_STOP, adv 2 run_ci_stop_ins),
      (CI_WDT, adv 2 run_ci_wdt_ins), (CI_CFEND, adv 2 run_ci_cfend_ins), (CI_FEND, adv 10 run_ci_fend_ins),
      (CI_MOV, adv 10 run_ci_mov_ins), (CI_DMOV, adv 14 run_ci_dmov_ins), (CI_BMOV, adv 14 run_ci_bmov_ins),
      (CI_FMOV, adv 14 run_ci_fmov_ins), (CI_DFMOV, adv 18 run_ci_dfmov_ins), (CI_SWAP, adv 6 run_ci_swap_ins),
      (CI_XCH, adv 10 run_ci_xch_ins), (CI_DXCH, adv 14 run_ci_dxch_ins), (CI_PUSH, adv 14 run_ci_push_ins),
      (CI_WSFL, adv 18 run_ci_wsfl_ins), (CI_LDE, adv_pass 10 run_ld_compare_ins),
      (CI_LDG, adv_pass 10 run_ld_compare_ins), (CI_LDL, adv_pass 10 run_ld_compare_ins),
      (CI_LDNE, adv_pass 10 run_ld_compare_ins), (CI_LDLE, adv_pass 10 run_ld_compare_ins),
      (CI_LDGE, adv_pass 10 run_ld_compare_ins), (CI_ANDE, and_contact 10 run_and_compare_ins),
      (CI_ANDG, and_contact 10 run_and_compare_ins), (CI_ANDL, and_contact 10 run_and_compare_ins),
      (CI_ANDNE, and_contact 10 run_and_compare_ins), (CI_ANDLE, and_contact 10 run_and_compare_ins),
      (CI_ANDGE, and_contact 10 run_and_compare_ins)]"

definition ci_cases_3 :: "program_runner \<Rightarrow> ext_ins \<Rightarrow> (u16 \<times> instruction) list" where
  "ci_cases_3 run ext =
     [(CI_ORE, or_contact 10 run_or_compare_ins), (CI_ORG, or_contact 10 run_or_compare_ins),
      (CI_ORL, or_contact 10 run_or_compare_ins), (CI_ORNE, or_contact 10 run_or_compare_ins),
      (CI_ORLE, or_contact 10 run_or_compare_ins), (CI_ORGE, or_contact 10 run_or_compare_ins),
      (CI_LDDE, adv_pass 14 run_ldd_compare_ins), (CI_LDDG, adv_pass 14 run_ldd_compare_ins),
      (CI_LDDL, adv_pass 14 run_ldd_compare_ins), (CI_LDDNE, adv_pass 14 run_ldd_compare_ins),
      (CI_LDDLE, adv_pass 14 run_ldd_compare_ins), (CI_LDDGE, adv_pass 14 run_ldd_compare_ins),
      (CI_ANDDE, and_contact 14 run_andd_compare_ins), (CI_ANDDG, and_contact 14 run_andd_compare_ins),
      (CI_ANDDL, and_contact 14 run_andd_compare_ins), (CI_ANDDNE, and_contact 14 run_andd_compare_ins),
      (CI_ANDDLE, and_contact 14 run_andd_compare_ins), (CI_ANDDGE, and_contact 14 run_andd_compare_ins),
      (CI_ORDE, or_contact 14 run_ord_compare_ins), (CI_ORDG, or_contact 14 run_ord_compare_ins),
      (CI_ORDL, or_contact 14 run_ord_compare_ins), (CI_ORDNE, or_contact 14 run_ord_compare_ins),
      (CI_ORDLE, or_contact 14 run_ord_compare_ins), (CI_ORDGE, or_contact 14 run_ord_compare_ins),
      (CI_LDRE, adv_pass 14 (ext CI_LDRE)), (CI_LDRG, adv_pass 14 (ext CI_LDRG)),
      (CI_LDRL, adv_pass 14 (ext CI_LDRL)), (CI_LDRNE, adv_pass 14 (ext CI_LDRNE)),
      (CI_LDRLE, adv_pass 14 (ext CI_LDRLE)), (CI_LDRGE, adv_pass 14 (ext CI_LDRGE)),
      (CI_ANDRE, and_contact 14 (ext CI_ANDRE)), (CI_ANDRG, and_contact 14 (ext CI_ANDRG)),
      (CI_ANDRL, and_contact 14 (ext CI_ANDRL)), (CI_ANDRNE, and_contact 14 (ext CI_ANDRNE)),
      (CI_ANDRLE, and_contact 14 (ext CI_ANDRLE)), (CI_ANDRGE, and_contact 14 (ext CI_ANDRGE)),
      (CI_ORRE, or_contact 14 (ext CI_ORRE)), (CI_ORRG, or_contact 14 (ext CI_ORRG)),
      (CI_ORRL, or_contact 14 (ext CI_ORRL)), (CI_ORRNE, or_contact 14 (ext CI_ORRNE)),
      (CI_ORRLE, or_contact 14 (ext CI_ORRLE)), (CI_ORRGE, or_contact 14 (ext CI_ORRGE)),
      (CI_ADD, adv 14 run_ci_add_ins), (CI_SUB, adv 14 run_ci_sub_ins), (CI_MUL, adv 16 run_ci_mul_ins),
      (CI_DIV, adv 14 run_ci_div_ins), (CI_SQT, adv 10 (ext CI_SQT)), (CI_INC, adv 6 run_ci_inc_ins),
      (CI_DEC, adv 6 run_ci_dec_ins)]"

definition ci_cases_4 :: "program_runner \<Rightarrow> ext_ins \<Rightarrow> (u16 \<times> instruction) list" where
  "ci_cases_4 run ext =
     [(CI_VABS, adv 10 run_ci_vabs_ins), (CI_NEG, adv 10 run_ci_neg_ins), (CI_DADD, adv 20 run_ci_dadd_ins),
      (CI_DSUB, adv 20 run_ci_dsub_ins), (CI_DMUL, adv 20 run_ci_dmul_ins), (CI_DDIV, adv 20 run_ci_ddiv_ins),
      (CI_DSQT, adv 14 (ext CI_DSQT)), (CI_DINC, adv 8 run_ci_dinc_ins), (CI_DDEC, adv 8 run_ci_ddec_ins),
      (CI_DVABS, adv 14 run_ci_dvabs_ins), (CI_DNEG, adv 14 run_ci_dneg_ins), (CI_RADD, adv 20 (ext CI_RADD)),
      (CI_RSUB, adv 20 (ext CI_RSUB)), (CI_RMUL, adv 20 (ext CI_RMUL)), (CI_RDIV, adv 20 (ext CI_RDIV)),
      (CI_RSQT, adv 14 (ext CI_RSQT)), (CI_SIN, adv 14 (ext CI_SIN)), (CI_COS, adv 14 (ext CI_COS)),
      (CI_TAN, adv 14 (ext CI_TAN)), (CI_LN, adv 14 (ext CI_LN)), (CI_EXP, adv 14 (ext CI_EXP)),
      (CI_RNEG, adv 14 (ext CI_RNEG)), (CI_POWER, adv 20 (ext CI_POWER)), (CI_RVABS, adv 14 (ext CI_RVABS)),
      (CI_WAND, adv 14 run_ci_wand_ins), (CI_WOR, adv 14 run_ci_wor_ins), (CI_WXOR, adv 14 run_ci_wxor_ins),
      (CI_WINV, adv 10 run_ci_winv_ins), (CI_DWAND, adv 20 run_ci_dwand_ins), (CI_DWOR, adv 20 run_ci_dwor_ins)]"

definition ci_cases_5 :: "program_runner \<Rightarrow> ext_ins \<Rightarrow> (u16 \<times> instruction) list" where
  "ci_cases_5 run ext =
     [(CI_DWXOR, adv 20 run_ci_dwxor_ins), (CI_DWINV, adv 14 run_ci_dwinv_ins), (CI_ROR, adv 14 run_ci_ror_ins),
      (CI_ROL, adv 14 run_ci_rol_ins), (CI_RCR, adv 14 run_ci_rcr_ins), (CI_RCL, adv 14 run_ci_rcl_ins),
      (CI_DROR, adv 18 run_ci_dror_ins), (CI_DROL, adv 18 run_ci_drol_ins), (CI_DRCR, adv 18 run_ci_drcr_ins),
      (CI_DRCL, adv 18 run_ci_drcl_ins), (CI_SHR, adv 14 run_ci_shr_ins), (CI_SHL, adv 14 run_ci_shl_ins),
      (CI_DSHR, adv 18 run_ci_dshr_ins), (CI_DSHL, adv 18 run_ci_dshl_ins), (CI_SFTR, adv 18 run_ci_sftr_ins),
      (CI_SFTL, adv 18 run_ci_sftl_ins), (CI_FLT, adv 12 (ext CI_FLT)), (CI_DFLT, adv 14 (ext CI_DFLT)),
      (CI_INT, adv 12 (ext CI_INT)), (CI_DINT, adv 14 (ext CI_DINT)), (CI_BCD, adv 10 run_ci_bcd_ins),
      (CI_DBCD, adv 14 run_ci_dbcd_ins), (CI_BIN, adv 10 run_ci_bin_ins), (CI_DBIN, adv 14 run_ci_dbin_ins),
      (CI_GRY, adv 10 run_ci_gry_ins), (CI_DGRY, adv 14 run_ci_dgry_ins), (CI_GBIN, adv 10 run_ci_gbin_ins),
      (CI_DGBIN, adv 14 run_ci_dgbin_ins), (CI_SEG, adv 10 run_ci_seg_ins), (CI_ASC, adv 38 run_ci_asc_ins)]"

definition ci_cases_6 :: "program_runner \<Rightarrow> ext_ins \<Rightarrow> (u16 \<times> instruction) list" where
  "ci_cases_6 run ext =
     [(CI_ITA, adv 14 (ext CI_ITA)), (CI_ATI, adv 14 (ext CI_ATI)), (CI_PR, illegal 10), (CI_REF, illegal 10),
      (CI_REFF, adv 6 (ext CI_REFF)), (CI_DECO, adv 10 run_ci_deco_ins), (CI_ENCO, adv 10 run_ci_enco_ins),
      (CI_BITS, adv 10 run_ci_bits_ins), (CI_ZRST, adv 10 run_ci_zrst_ins), (CI_ZSET, adv 10 run_ci_zset_ins),
      (CI_PID, adv 18 (ext CI_PID)), (CI_XMT, adv 14 (ext CI_XMT)), (CI_TRD, adv 6 run_ci_trd_ins),
      (CI_TWR, adv 6 run_ci_twr_ins), (CI_TADD, adv 14 run_ci_tadd_ins), (CI_TSUB, adv 14 run_ci_tsub_ins),
      (CI_FIFO, adv 14 run_ci_fifo_ins), (CI_LIFO, adv 14 run_ci_lifo_ins), (CI_HOUR, adv 16 run_ci_hour_ins),
      (CI_BLD, adv 10 run_ci_bld_ins), (CI_BLDI, adv 10 run_ci_bldi_ins), (CI_BAND, adv 10 run_ci_band_ins),
      (CI_BANDI, adv 10 run_ci_bandi_ins), (CI_BOR, adv 10 run_ci_bor_ins), (CI_BORI, adv 10 run_ci_bori_ins),
      (CI_DBITS, adv 12 run_ci_dbits_ins), (CI_BON, adv 14 run_ci_bon_ins), (CI_BSET, adv 10 run_ci_bset_ins),
      (CI_BRST, adv 10 run_ci_brst_ins)]"

definition ci_cases_7 :: "program_runner \<Rightarrow> ext_ins \<Rightarrow> (u16 \<times> instruction) list" where
  "ci_cases_7 run ext =
     [(CI_WSFR, adv 18 run_ci_wsfr_ins), (CI_ITD, adv 12 run_ci_itd_ins), (CI_DTI, adv 12 run_ci_dti_ins),
      (CI_BOUT, adv 10 run_ci_bout_ins), (CI_RMOV, adv 14 run_ci_rmov_ins), (CI_RCV, adv 14 (ext CI_RCV)),
      (CI_MODBUS, adv 16 (ext CI_MODBUS)), (CI_SUM, adv 16 run_ci_sum_ins), (CI_DSUM, adv 18 run_ci_dsum_ins),
      (CI_RSUM, adv 18 (ext CI_RSUM)), (CI_DCMPE, adv 14 run_ci_dcmp_ins), (CI_DCMPG, adv 14 run_ci_dcmp_ins),
      (CI_DCMPL, adv 14 run_ci_dcmp_ins), (CI_DCMPNE, adv 14 run_ci_dcmp_ins), (CI_DCMPLE, adv 14 run_ci_dcmp_ins),
      (CI_DCMPGE, adv 14 run_ci_dcmp_ins), (CI_TCMPE, adv 14 run_ci_tcmp_ins), (CI_TCMPG, adv 14 run_ci_tcmp_ins),
      (CI_TCMPL, adv 14 run_ci_tcmp_ins), (CI_TCMPNE, adv 14 run_ci_tcmp_ins), (CI_TCMPLE, adv 14 run_ci_tcmp_ins),
      (CI_TCMPGE, adv 14 run_ci_tcmp_ins), (CI_RAMP, illegal 24), (CI_HACKLE, illegal 24), (CI_TRIANGLE, illegal 24),
      (CI_TMON, adv 12 (in_env run_ci_tmon_ins)), (CI_CCITT, adv 14 run_ci_ccitt_ins),
      (CI_CRC16, adv 14 run_ci_crc16_ins), (CI_LRC, adv 14 run_ci_lrc_ins), (CI_CANXMT, illegal 26),
      (CI_CANRCV, illegal 26), (CI_CANMXMT, illegal 20), (CI_LCNV, adv 18 (ext CI_LCNV)),
      (CI_CMP, adv 14 run_ci_cmp_ins), (CI_LCMP, adv 18 run_ci_lcmp_ins), (CI_RCMP, adv 18 (ext CI_RCMP)),
      (CI_ALT, adv 6 run_ci_alt_ins)]"

definition ci_cases_8 :: "program_runner \<Rightarrow> ext_ins \<Rightarrow> (u16 \<times> instruction) list" where
  "ci_cases_8 run ext =
     [(CI_MODRW, adv 28 (ext CI_MODRW)), (CI_ASIN, adv 14 (ext CI_ASIN)), (CI_ACOS, adv 14 (ext CI_ACOS)),
      (CI_ATAN, adv 14 (ext CI_ATAN)), (CI_RLCNV, adv 24 (ext CI_RLCNV)), (CI_MODLINK, adv 20 (ext CI_MODLINK)),
      (CI_MBCCONN, adv 28 (ext CI_MBCCONN)), (CI_MODTCPLINK, adv 28 (ext CI_MODTCPLINK)),
      (CI_TCP_CONN, adv 32 (ext CI_TCP_CONN)), (CI_TCP_XMT, adv 24 (ext CI_TCP_XMT)),
      (CI_TCP_RCV, adv 24 (ext CI_TCP_RCV)), (CI_TCP_PING, adv 20 (ext CI_TCP_PING)), (CI_LOG, adv 14 (ext CI_LOG)),
      (CI_RAD, adv 14 (ext CI_RAD)), (CI_DEG, adv 14 (ext CI_DEG)), (CI_LD_DX_Y, adv 8 run_ci_ld_dx_y_ins),
      (CI_LDI_DX_Y, adv 8 run_ci_ldi_dx_y_ins), (CI_AND_DX_Y, adv 8 run_ci_and_dx_y_ins),
      (CI_ANI_DX_Y, adv 8 run_ci_ani_dx_y_ins), (CI_OR_DX_Y, adv 8 run_ci_or_dx_y_ins),
      (CI_ORI_DX_Y, adv 8 run_ci_ori_dx_y_ins), (CI_SET_DX_Y, adv 8 run_ci_set_dx_y_ins),
      (CI_RST_DX_Y, adv 8 run_ci_rst_dx_y_ins), (CI_OUT_DX_Y, adv 8 run_ci_out_dx_y_ins),
      (CI_MEAN, adv 14 run_ci_mean_ins), (CI_WTOB, adv 14 run_ci_wtob_ins), (CI_BTOW, adv 14 run_ci_btow_ins),
      (CI_UNI, adv 14 run_ci_uni_ins), (CI_DIS, adv 14 run_ci_dis_ins), (CI_ANS, adv 14 (in_env run_ci_ans_ins))]"

definition ci_cases_9 :: "program_runner \<Rightarrow> ext_ins \<Rightarrow> (u16 \<times> instruction) list" where
  "ci_cases_9 run ext =
     [(CI_ANR, adv 2 run_ci_anr_ins), (CI_BKADD, adv 18 run_ci_bkadd_ins), (CI_BKSUB, adv 18 run_ci_bksub_ins),
      (CI_BKCMPDE, adv 18 run_ci_bkcmp_ins), (CI_BKCMPDG, adv 18 run_ci_bkcmp_ins),
      (CI_BKCMPDL, adv 18 run_ci_bkcmp_ins), (CI_BKCMPDNE, adv 18 run_ci_bkcmp_ins),
      (CI_BKCMPDLE, adv 18 run_ci_bkcmp_ins), (CI_BKCMPDGE, adv 18 run_ci_bkcmp_ins),
      (CI_LIMIT, adv 18 run_ci_limit_ins), (CI_DBAND, adv 18 run_ci_dband_ins), (CI_ZONE, adv 18 run_ci_zone_ins),
      (CI_SCL, adv 14 (ext CI_SCL)), (CI_SER, adv 18 run_ci_ser_ins), (CI_STRADD, adv_str2 (ext CI_STRADD)),
      (CI_STRLEN, adv 10 (ext CI_STRLEN)), (CI_STRRIGHT, adv 14 (ext CI_STRRIGHT)),
      (CI_STRLEFT, adv 14 (ext CI_STRLEFT)), (CI_STRMIDR, adv 14 (ext CI_STRMIDR)),
      (CI_STRMIDW, adv 14 (ext CI_STRMIDW)), (CI_STRINSTR, adv_str 16 18 (ext CI_STRINSTR)),
      (CI_STRMOV, adv_str 8 10 (ext CI_STRMOV)), (CI_RND, adv 6 (ext CI_RND)), (CI_DUTY, adv 14 (ext CI_DUTY)),
      (CI_HTOS, adv 10 run_ci_htos_ins), (CI_STOH, adv 10 run_ci_stoh_ins), (CI_SWAPWORD, adv 18 run_ci_swapword_ins),
      (CI_ECATSDORD, adv 36 (ext CI_ECATSDORD)), (CI_ECATSDOWR, adv 36 (ext CI_ECATSDOWR)),
      (CI_PLSY, adv 18 (ext CI_PLSY))]"

definition ci_cases_10 :: "program_runner \<Rightarrow> ext_ins \<Rightarrow> (u16 \<times> instruction) list" where
  "ci_cases_10 run ext =
     [(CI_LOADR, illegal 10), (CI_INITR, illegal 10), (CI_INITER, illegal 10), (CI_EVREV, illegal 12),
      (CI_EVFWD, illegal 12), (CI_EVDFWD, illegal 12), (CI_EVDREV, illegal 12), (CI_EROMWR, illegal 12),
      (CI_PWM, adv 14 (ext CI_PWM)), (CI_SAVER, illegal 14), (CI_PLS, illegal 14), (CI_SPD, adv 14 (ext CI_SPD)),
      (CI_HCNT, adv 14 (ext CI_HCNT)), (CI_EVSTOP, illegal 16), (CI_EVFRQ, illegal 16), (CI_ABS, illegal 16),
      (CI_PLSV, adv 16 (ext CI_PLSV)), (CI_GEARBOX, illegal 18), (CI_DSZR, illegal 18), (CI_FROM, illegal 18),
      (CI_TO, illegal 18), (CI_DHSCS, adv 20 (ext CI_DHSCS)), (CI_DHSCR, adv 20 (ext CI_DHSCR)),
      (CI_DHST, adv 20 (ext CI_DHST)), (CI_DHSP, adv 20 (ext CI_DHSP)), (CI_DHSCI, adv 20 (ext CI_DHSCI)),
      (CI_PLSR, adv 20 (ext CI_PLSR)), (CI_DFROM, illegal 20), (CI_DTO, illegal 20), (CI_EVWRT, illegal 20),
      (CI_EVRDST, illegal 20), (CI_EVRD, illegal 20), (CI_DRVC, illegal 20), (CI_DHSPI, illegal 20),
      (CI_LOGR, illegal 22), (CI_CAMBOX, illegal 22), (CI_CAMTABLE, illegal 22), (CI_ZRN, adv 24 (ext CI_ZRN)),
      (CI_DRVI, adv 24 (ext CI_DRVI)), (CI_DRVA, adv 24 (ext CI_DRVA)), (CI_LIN, illegal 24), (CI_CW, illegal 24),
      (CI_CCW, illegal 24), (CI_STOPDV, illegal 24), (CI_PLSB, adv 24 (ext CI_PLSB)), (CI_DHSZ, adv 26 (ext CI_DHSZ)),
      (CI_DRV, illegal 26), (CI_MOVELINK, illegal 34)]"

definition ci_cases :: "program_runner \<Rightarrow> ext_ins \<Rightarrow> (u16 \<times> instruction) list" where
  "ci_cases run ext =
     ci_cases_1 run ext @ ci_cases_2 run ext @ ci_cases_3 run ext @ ci_cases_4 run ext @ ci_cases_5 run ext @
     ci_cases_6 run ext @ ci_cases_7 run ext @ ci_cases_8 run ext @ ci_cases_9 run ext @ ci_cases_10 run ext"

section \<open>The loop\<close>

text \<open>One pass of the switch.\<close>

definition exec_ci :: "program_runner \<Rightarrow> ext_ins \<Rightarrow> instruction" where
  "exec_ci run ext s e =
     do { w \<leftarrow> GET_PU16_DATA (ucode s) (mcp_PC e);
          case map_of (ci_cases run ext) w of
            Some f \<Rightarrow> f s e
          | None \<Rightarrow> Some (ERR_ILLEGAL_INSTRCTION, s, e) }"

text \<open>\<open>plc_exec_complex_instruction\<close>; the number bounds the passes of the loop, which the code does not bound.\<close>

fun plc_exec_complex_instruction :: "nat \<Rightarrow> program_runner \<Rightarrow> ext_ins \<Rightarrow> instruction" where
  "plc_exec_complex_instruction 0 run ext s e = None"
| "plc_exec_complex_instruction (Suc k) run ext s e =
     do { (r, s', e') \<leftarrow> exec_ci run ext (s\<lparr>gcp_BackupUserPc := mcp_PC e\<rparr>) e;
          if r \<noteq> pdPASS then Some (r, s', e')
          else do { w \<leftarrow> GET_PU16_DATA (ucode s') (mcp_PC e');
                    if 0xF000 \<le> w then plc_exec_complex_instruction k run ext s' e' else Some (r, s', e') } }"

end
