(* ===== verification/PLC_Frame.thy ===== *)
theory PLC_Frame
  imports PLC_Complex
begin

text \<open>
  What no instruction changes: the element counts and the sizes of the element arrays, the user program, the
  tables that the compiler builds from it (subroutine entries, call sites, reset lists, interrupt sources) and
  the queue of interrupt requests.  \<open>frame\<close> collects these parts of the state; the theory shows for every modelled instruction
  that it keeps the frame and that it leaves the program counter to the dispatch.
\<close>

section \<open>The frame\<close>

definition elem_shape :: "plc_element_st \<Rightarrow> nat list" where
  "elem_shape e =
     [length (msp_XElement e), length (msp_YElement e), length (msp_MElement e), length (msp_LMElement e), length (msp_SMElement e),
      length (msp_SElement e), length (msp_DElement e), length (msp_RElement e), length (msp_SDElement e), length (msp_VElement e),
      length (msp_ZElement e), length (c_BitElement (mtv_CElement e)), length (c_16BitValue (mtv_CElement e)),
      length (c_32BitValue (mtv_CElement e)), length (c_StatusInfo (mtv_CElement e)), length (t_BitElement (mtv_TElement e)),
      length (t_CurrentValue (mtv_TElement e)), length (t_DestValue (mtv_TElement e)), length (t_StartValue (mtv_TElement e)),
      length (t_StatusInfo (mtv_TElement e))]"

record plc_frame =
  fr_info :: plc_element_info_st
  fr_shape :: "nat list"
  fr_ucode :: "u8 list"
  fr_sbr :: "nat option list"
  fr_calls :: "nat list"
  fr_used :: u32
  fr_sbr_lists :: "plc_ins_list_head_st list"
  fr_stl_lists :: "plc_ins_list_head_st list"
  fr_mc_lists :: "plc_mc_mcr_ins_list_st list"
  fr_sources :: "plc_interrupt_source_st list"
  fr_queue :: "u8 list"

definition frame :: "plc_state \<Rightarrow> plc_frame" where
  "frame s = \<lparr>fr_info = gtp_PlcElementInfo s, fr_shape = elem_shape (gtv_PlcElement s), fr_ucode = ucode s,
     fr_sbr = mcp_SbrPc (gtp_CallInsInfoPtr s), fr_calls = mlv_UCodeAddr (gtp_CallInsInfoPtr s),
     fr_used = msv_UseNum (gtp_CallInsInfoPtr s), fr_sbr_lists = gtp_SbrListPtr s, fr_stl_lists = gtp_StlListPtr s,
     fr_mc_lists = mtv_McMcrHead (gtv_McMcrBlockInfo s), fr_sources = mtv_IntSource (gtp_InterruptInfo s),
     fr_queue = gtv_InterruptMsgQueue s\<rparr>"

lemma frame_ucode: "frame s' = frame s \<Longrightarrow> ucode s' = ucode s"
  by (simp add: frame_def)

lemma frame_wf: "frame s' = frame s \<Longrightarrow> wf_state s' = wf_state s"
  by (simp add: frame_def elem_shape_def wf_elements_def)

lemma frame_upd [simp]:
  "frame (s\<lparr>gtp_EuEd := a\<rparr>) = frame s" "frame (s\<lparr>guv_StopError := b\<rparr>) = frame s" "frame (s\<lparr>guv_NonStopError := c\<rparr>) = frame s"
  "frame (s\<lparr>gtv_PlcExecErrorRecord := d\<rparr>) = frame s" "frame (s\<lparr>gtv_PlcRunStatus := f\<rparr>) = frame s" "frame (s\<lparr>gcp_BackupUserPc := g\<rparr>) = frame s"
  "frame (s\<lparr>gtp_ForNextIns := h\<rparr>) = frame s" "frame (s\<lparr>gtp_SfcStatus := i\<rparr>) = frame s" "frame (s\<lparr>gtp_HourInsSt := j\<rparr>) = frame s"
  "frame (s\<lparr>ssv_MinAlarmSElement := k\<rparr>) = frame s" "frame (s\<lparr>srtc_datetime := l\<rparr>) = frame s" "frame (s\<lparr>xTickCount := m\<rparr>) = frame s"
  "frame (s\<lparr>tick_tape := n\<rparr>) = frame s"
  by (simp_all add: frame_def)

lemma frame_elements: "elem_shape e = elem_shape (gtv_PlcElement s) \<Longrightarrow> frame (s\<lparr>gtv_PlcElement := e\<rparr>) = frame s"
  by (simp add: frame_def)

section \<open>Results that keep a frame\<close>

text \<open>\<open>keeps F st P x\<close>: a computation that ends gives a result whose state (\<open>st\<close> of the result) has the frame \<open>F\<close> and which
  satisfies \<open>P\<close>.\<close>

definition keeps :: "plc_frame \<Rightarrow> ('a \<Rightarrow> plc_state) \<Rightarrow> ('a \<Rightarrow> bool) \<Rightarrow> 'a option \<Rightarrow> bool" where
  "keeps F st P x \<longleftrightarrow> (\<forall>y. x = Some y \<longrightarrow> frame (st y) = F \<and> P y)"

definition st1 :: "plc_state \<Rightarrow> plc_state" where "st1 s = s"
definition stf :: "plc_state \<times> 'a \<Rightarrow> plc_state" where "stf y = fst y"
definition st2 :: "'a \<times> plc_state \<Rightarrow> plc_state" where "st2 y = snd y"
definition st3 :: "'a \<times> plc_state \<times> 'b \<Rightarrow> plc_state" where "st3 y = fst (snd y)"
definition any :: "'a \<Rightarrow> bool" where "any y \<longleftrightarrow> True"
definition pc_is :: "nat \<Rightarrow> 'a \<times> plc_state \<times> si_env \<Rightarrow> bool" where "pc_is p y \<longleftrightarrow> mcp_PC (snd (snd y)) = p"

abbreviation "kept F \<equiv> keeps F st1 any"
abbreviation "kept1 F \<equiv> keeps F stf any"
abbreviation "kept2 F \<equiv> keeps F st2 any"
abbreviation "kept3 F \<equiv> keeps F st3 any"
abbreviation "kept_pc F p \<equiv> keeps F st3 (pc_is p)"

named_theorems frame_intro \<open>operations that keep the frame\<close>

lemma keeps_simps [simp]:
  "keeps F st P None" "kept F (Some s) \<longleftrightarrow> frame s = F" "kept1 F (Some (s, d)) \<longleftrightarrow> frame s = F" "kept2 F (Some (a, s)) \<longleftrightarrow> frame s = F" "kept3 F (Some (b, s, c)) \<longleftrightarrow> frame s = F"
  "kept_pc F p (Some (r, s, e)) \<longleftrightarrow> frame s = F \<and> mcp_PC e = p"
  by (simp_all add: keeps_def st1_def stf_def st2_def st3_def any_def pc_is_def)

lemma bind_any: "(\<And>y. keeps F st P (f y)) \<Longrightarrow> keeps F st P (x \<bind> f)"
  by (auto simp: keeps_def bind_eq_Some_conv st1_def stf_def st2_def st3_def any_def pc_is_def)

lemma bind_eq: "(\<And>y. x = Some y \<Longrightarrow> keeps F st P (f y)) \<Longrightarrow> keeps F st P (x \<bind> f)"
  by (auto simp: keeps_def bind_eq_Some_conv)

lemma bind_kept [frame_intro]:
  "kept F x \<Longrightarrow> (\<And>s. frame s = F \<Longrightarrow> keeps F st P (f s)) \<Longrightarrow> keeps F st P (x \<bind> f)"
  by (auto simp: keeps_def bind_eq_Some_conv st1_def stf_def st2_def st3_def any_def pc_is_def)

lemma bind_kept1 [frame_intro]:
  "kept1 F x \<Longrightarrow> (\<And>s a. frame s = F \<Longrightarrow> keeps F st P (f s a)) \<Longrightarrow> keeps F st P (x \<bind> (\<lambda>(s, a). f s a))"
  by (auto simp: keeps_def bind_eq_Some_conv st1_def stf_def st2_def st3_def any_def pc_is_def)

lemma bind_kept2 [frame_intro]:
  "kept2 F x \<Longrightarrow> (\<And>a s. frame s = F \<Longrightarrow> keeps F st P (f a s)) \<Longrightarrow> keeps F st P (x \<bind> (\<lambda>(a, s). f a s))"
  by (auto simp: keeps_def bind_eq_Some_conv st1_def stf_def st2_def st3_def any_def pc_is_def)

lemma bind_kept3 [frame_intro]:
  "kept3 F x \<Longrightarrow> (\<And>a s b. frame s = F \<Longrightarrow> keeps F st P (f a s b)) \<Longrightarrow> keeps F st P (x \<bind> (\<lambda>(a, s, b). f a s b))"
  by (auto simp: keeps_def bind_eq_Some_conv st1_def stf_def st2_def st3_def any_def pc_is_def)

lemma bind_kept_pc:
  "kept_pc F q x \<Longrightarrow> (\<And>r s e. frame s = F \<Longrightarrow> mcp_PC e = q \<Longrightarrow> keeps F st P (f r s e)) \<Longrightarrow> keeps F st P (x \<bind> (\<lambda>(r, s, e). f r s e))"
  by (auto simp: keeps_def bind_eq_Some_conv st1_def stf_def st2_def st3_def any_def pc_is_def)

text \<open>Reading does not change the state.\<close>

lemmas bind_reads [frame_intro] =
  bind_any [where x = "rd xs i" for xs i] bind_any [where x = "GET_PU8_DATA m i" for m i] bind_any [where x = "GET_PU16_DATA m i" for m i]
  bind_any [where x = "GET_PU32_DATA m i" for m i]
  bind_any [where x = "get_bit_elem a s i" for a s i] bind_any [where x = "get_lm_elem a s i" for a s i] bind_any [where x = "get_word_elem a s i" for a s i]
  bind_any [where x = "get_v_elem a s i" for a s i] bind_any [where x = "get_c32_elem s i" for s i]
  bind_any [where x = "get_word s a i n" for s a i n] bind_any [where x = "get_dword s a i n" for s a i n]
  bind_any [where x = "get_char s a i n" for s a i n] bind_any [where x = "get_timer s n" for s n]
  bind_any [where x = "get_c_flow s n" for s n] bind_any [where x = "get_bsel b s i" for b s i] bind_any [where x = "get_wsel b s i" for b s i]
  bind_any [where x = "wr xs i v" for xs i v] bind_any [where x = "find_record r a i" for r a i] bind_any [where x = "shift_record r i" for r i]
  bind_any [where x = "put_record r i c a" for r i c a] bind_any [where x = "first_bit w i n" for w i n]
  bind_any [where x = "sum_words s e i n z" for s e i n z] bind_any [where x = "asc_words s e a n" for s e a n]
  bind_any [where x = "sft_overlap s e i j" for s e i j] bind_any [where x = "get_float s a i n" for s a i n]
  bind_any [where x = "get_word_addr s a i" for s a i] bind_any [where x = "get_dword_addr s a i" for s a i]
  bind_any [where x = "ser_loop x xs i r" for x xs i r] bind_any [where x = "bk_const f s e x i n" for f s e x i n]
  bind_any [where x = "bk_both f s e i n" for f s e i n] bind_any [where x = "bk_cmp c x y" for c x y]
  bind_any [where x = "ccitt_loop xs c" for xs c] bind_any [where x = "crc16_words xs c" for xs c] bind_any [where x = "cmp_switch cs w x y" for cs w x y]
  bind_any [where x = "get_for s" for s] bind_any [where x = "jump_by n d" for n d] bind_any [where x = "cj_leave f i j n" for f i j n]
  bind_any [where x = "si_near s n" for s n] bind_any [where x = "si_index s n x" for s n x] bind_any [where x = "next_top f n" for f n] bind_any [where x = "plc_get_call_ins_id s n" for s n] bind_any [where x = "GET_EDGE_VALUE s n" for s n]
  bind_any [where x = "GET_EDGE_INIT_FLAG s n" for s n] bind_any [where x = "plc_stl_is_all_on s" for s] bind_any [where x = "get_v_pair s k" for s k]
  bind_any [where x = "plc_call_instruction_length s n" for s n]
  bind_any [where x = "resolve f g s a i" for f g s a i] bind_any [where x = "resolve_kn f x g y s a" for f x g y s a]

lemma flow_pc [simp]: "mcp_PC (flow_ld b e) = mcp_PC e" "mcp_PC (flow_and b e) = mcp_PC e" "mcp_PC (flow_or b e) = mcp_PC e"
  by (simp_all add: flow_ld_def flow_and_def flow_or_def)

lemma frame_calls [simp]:
  "frame (set_nested n s) = frame s" "frame (set_sfc g s) = frame s" "frame (plc_user_interrupt_enable v s) = frame s"
  "frame (s\<lparr>gtp_CallInsInfoPtr := (gtp_CallInsInfoPtr s)\<lparr>mcv_IsExec := x\<rparr>\<rparr>) = frame s"
  "frame (s\<lparr>gtp_CallInsInfoPtr := (gtp_CallInsInfoPtr s)\<lparr>mcp_RetPc := y\<rparr>\<rparr>) = frame s"
  by (simp_all add: frame_def set_nested_def set_sfc_def plc_user_interrupt_enable_def)

lemma frame_flags [simp]: "frame (run_stop_flag k s) = frame s" "frame (stop_err k s) = frame s" "frame (non_stop_err k s) = frame s"
  by (simp_all add: run_stop_flag_def stop_err_def non_stop_err_def)

lemma kept3_res [frame_intro]: "frame s = F \<Longrightarrow> kept3 F (ci_ok s e)" "frame s = F \<Longrightarrow> kept3 F (ci_err r s e)"
  by (simp_all add: ci_ok_def ci_err_def)

lemma kept_pc_kept3: "kept_pc F p x \<Longrightarrow> kept3 F x"
  by (simp add: keeps_def any_def)

section \<open>Elements\<close>

lemma elem_shape_upd [simp]:
  "length b = length (bit_base e a) \<Longrightarrow> elem_shape (upd_bit_base a b e) = elem_shape e"
  "length w = length (word_base e k) \<Longrightarrow> elem_shape (upd_word_base k w e) = elem_shape e"
  by (cases a; simp add: elem_shape_def) (cases k; simp add: elem_shape_def)

lemma frame_set_bit_elem [frame_intro]: "frame s = F \<Longrightarrow> kept F (set_bit_elem a s i v)"
  by (auto simp: set_bit_elem_def keeps_def any_def st1_def opt_simps dest!: length_set_bit intro!: frame_elements)

lemma frame_set_word_elem [frame_intro]: "frame s = F \<Longrightarrow> kept F (set_word_elem a s i v)"
  by (auto simp: set_word_elem_def keeps_def any_def st1_def opt_simps intro: frame_elements)

lemma frame_set_lm_elem [frame_intro]: "frame s = F \<Longrightarrow> kept F (set_lm_elem l s i v)"
  by (auto simp: set_lm_elem_def set_lm_alt keeps_def any_def st1_def opt_simps Let_def elem_shape_def intro!: frame_elements split: if_splits)

lemma frame_set_v_elem [frame_intro]: "frame s = F \<Longrightarrow> kept F (set_v_elem l s i v)"
  by (auto simp: set_v_elem_def keeps_def any_def st1_def opt_simps Let_def elem_shape_def intro!: frame_elements)

lemma frame_set_c32_elem [frame_intro]: "frame s = F \<Longrightarrow> kept F (set_c32_elem s i v)"
  by (auto simp: set_c32_elem_def keeps_def any_def st1_def opt_simps Let_def elem_shape_def intro!: frame_elements split: if_splits)

lemma frame_put_c_flow [frame_intro]: "frame s = F \<Longrightarrow> kept F (put_c_flow s n b)"
  by (auto simp: put_c_flow_def keeps_def any_def st1_def opt_simps Let_def elem_shape_def intro!: frame_elements)

lemma frame_put_timer [frame_intro]: "frame s = F \<Longrightarrow> kept F (put_timer s n v)"
  by (auto simp: put_timer_def keeps_def any_def st1_def opt_simps Let_def elem_shape_def intro!: frame_elements)

lemma frame_put_bsel [frame_intro]: "frame s = F \<Longrightarrow> kept F (put_bsel b s i v)"
  by (cases b) (simp_all add: frame_intro)

lemma frame_put_wsel [frame_intro]: "frame s = F \<Longrightarrow> kept F (put_wsel b s i v)"
  by (cases b) (simp_all add: frame_intro)

lemma frame_pair_put [frame_intro]: "frame s = F \<Longrightarrow> kept F (pair_put (put_wsel b) s i v)"
  by (auto simp: pair_put_def intro!: frame_intro)

lemma frame_put_dsel [frame_intro]: "frame s = F \<Longrightarrow> kept F (put_dsel b s i v)"
  by (cases b) (auto intro!: frame_intro)

lemma frame_save_run [frame_intro]:
  assumes "\<And>F s i v. frame s = F \<Longrightarrow> kept F (put s i v)"
  shows "frame s = F \<Longrightarrow> kept2 F (save_run put rang s i n vs)"
proof (induction n arbitrary: s i vs)
  case (Suc n)
  then show ?case
    by (cases vs) (auto intro!: frame_intro assms)
qed simp

lemma frame_save_drun [frame_intro]:
  assumes "\<And>F s i v. frame s = F \<Longrightarrow> kept F (put s i v)"
  shows "frame s = F \<Longrightarrow> kept2 F (save_drun put chk d s i n vs)"
proof (induction n arbitrary: s i vs)
  case (Suc n)
  then show ?case
    by (cases vs) (auto intro!: frame_intro assms)
qed simp
lemma frame_kn_save_bits [frame_intro]:
  assumes "\<And>F s i v. frame s = F \<Longrightarrow> kept F (put s i v)"
  shows "frame s = F \<Longrightarrow> kept3 F (kn_save_bits put rang s i n v)"
  by (induction n arbitrary: s i v) (auto intro!: frame_intro assms)

lemma frame_kn_save [frame_intro]:
  assumes "\<And>F s i v. frame s = F \<Longrightarrow> kept F (put s i v)"
  shows "frame s = F \<Longrightarrow> kept3 F (kn_save put rang s i kn off n vs)"
proof (induction n arbitrary: s off vs)
  case (Suc n)
  then show ?case
    by (cases vs) (auto intro!: frame_intro assms)
qed simp

lemma frame_save_char [frame_intro]: "frame s = F \<Longrightarrow> kept2 F (save_char s a vs i n)"
  by (auto simp: save_char_def intro!: frame_intro split: option.splits)

lemma frame_save_word [frame_intro]: "frame s = F \<Longrightarrow> kept3 F (save_word s a vs i n)"
  by (auto simp: save_word_def intro!: frame_intro split: option.splits sum.splits)

lemma frame_save_dword [frame_intro]: "frame s = F \<Longrightarrow> kept3 F (save_dword s a ws i n)"
  by (auto simp: save_dword_def intro!: frame_intro split: option.splits sum.splits)

lemma frame_save_float [frame_intro]: "frame s = F \<Longrightarrow> kept2 F (save_float s a ws i n)"
  by (auto simp: save_float_def intro!: frame_intro split: option.splits sum.splits)

section \<open>Counters, timers, error messages, contacts and coils\<close>

lemma frame_plc_reset_one_counter [frame_intro]:
  "frame s = F \<Longrightarrow> kept F (plc_reset_one_counter s a1)"
  by (auto simp: plc_reset_one_counter_def Let_def intro!: frame_intro split: option.splits list.splits prod.splits)

lemma frame_run_ci_ctu_ins [frame_intro]:
  "frame s = F \<Longrightarrow> kept2 F (run_ci_ctu_ins s e)"
  by (auto simp: run_ci_ctu_ins_def Let_def intro!: frame_intro split: option.splits list.splits prod.splits)

lemma frame_run_ci_ctr_ins [frame_intro]:
  "frame s = F \<Longrightarrow> kept2 F (run_ci_ctr_ins s e)"
  by (auto simp: run_ci_ctr_ins_def Let_def intro!: frame_intro split: option.splits list.splits prod.splits)

lemma frame_run_ci_dcnt_ins [frame_intro]:
  "frame s = F \<Longrightarrow> kept2 F (run_ci_dcnt_ins s e)"
  by (auto simp: run_ci_dcnt_ins_def Let_def intro!: frame_intro split: option.splits list.splits prod.splits)

lemma frame_run_ci_rst_c_ins [frame_intro]:
  "frame s = F \<Longrightarrow> kept2 F (run_ci_rst_c_ins s e)"
  by (auto simp: run_ci_rst_c_ins_def Let_def intro!: frame_intro split: option.splits list.splits prod.splits)

lemma frame_error_flags [frame_intro]:
  "frame s = F \<Longrightarrow> kept F (error_flags s a1)"
  by (auto simp: error_flags_def Let_def intro!: frame_intro split: option.splits list.splits prod.splits)

lemma frame_shift_history [frame_intro]:
  "frame s = F \<Longrightarrow> kept F (shift_history s i)"
proof (induction i arbitrary: s)
  case 0
  then show ?case
    by (simp add: shift_history.simps [of _ 0])
next
  case (Suc i)
  then show ?case
    by (subst shift_history.simps) (auto intro!: frame_intro)
qed

lemma frame_plc_refresh_error_msg [frame_intro]:
  "frame s = F \<Longrightarrow> kept F (plc_refresh_error_msg s a1)"
  by (auto simp: plc_refresh_error_msg_def Let_def intro!: frame_intro split: option.splits list.splits prod.splits)

lemma frame_plc_refresh_exec_error_record [frame_intro]:
  "frame s = F \<Longrightarrow> kept F (plc_refresh_exec_error_record s a1 a2)"
  by (auto simp: plc_refresh_exec_error_record_def Let_def intro!: frame_intro split: option.splits list.splits prod.splits)

lemma frame_plc_reset_one_timer [frame_intro]:
  "frame s = F \<Longrightarrow> kept F (plc_reset_one_timer s a1)"
  by (auto simp: plc_reset_one_timer_def Let_def intro!: frame_intro split: option.splits list.splits prod.splits)

lemma frame_timer_contact [frame_intro]:
  "frame s = F \<Longrightarrow> kept F (timer_contact s a1 a2 a3)"
  by (auto simp: timer_contact_def Let_def intro!: frame_intro split: option.splits list.splits prod.splits)

lemma frame_dest_after [frame_intro]:
  "frame s = F \<Longrightarrow> kept F (dest_after s a1 a2)"
  by (auto simp: dest_after_def intro!: frame_intro split: list.split)

lemma frame_run_ci_ton_ins [frame_intro]:
  "frame s = F \<Longrightarrow> kept2 F (run_ci_ton_ins s e)"
  by (auto simp: run_ci_ton_ins_def Let_def intro!: frame_intro split: option.splits list.splits prod.splits)

lemma frame_run_ci_tonr_ins [frame_intro]:
  "frame s = F \<Longrightarrow> kept2 F (run_ci_tonr_ins s e)"
  by (auto simp: run_ci_tonr_ins_def Let_def intro!: frame_intro split: option.splits list.splits prod.splits)

lemma frame_run_ci_tof_ins [frame_intro]:
  "frame s = F \<Longrightarrow> kept2 F (run_ci_tof_ins s e)"
  by (auto simp: run_ci_tof_ins_def Let_def intro!: frame_intro split: option.splits list.splits prod.splits)

lemma frame_tmon_run [frame_intro]:
  "frame s = F \<Longrightarrow> kept2 F (tmon_run s a1)"
  by (auto simp: tmon_run_def Let_def intro!: frame_intro split: option.splits list.splits prod.splits)

lemma frame_run_ci_tmon_ins [frame_intro]:
  "frame s = F \<Longrightarrow> kept2 F (run_ci_tmon_ins s e)"
  by (auto simp: run_ci_tmon_ins_def Let_def intro!: frame_intro split: option.splits list.splits prod.splits)

lemma frame_run_ci_rst_t_ins [frame_intro]:
  "frame s = F \<Longrightarrow> kept2 F (run_ci_rst_t_ins s e)"
  by (auto simp: run_ci_rst_t_ins_def Let_def intro!: frame_intro split: option.splits list.splits prod.splits)

lemma frame_refresh_timer [frame_intro]:
  "frame s = F \<Longrightarrow> kept F (refresh_timer s a1)"
  by (auto simp: refresh_timer_def Let_def intro!: frame_intro split: option.splits list.splits prod.splits)

lemma frame_refresh_timers [frame_intro]:
  "frame s = F \<Longrightarrow> kept F (refresh_timers s a1 a2)"
  by (induction a2 arbitrary: s a1) (auto simp: Let_def intro!: frame_intro split: option.splits list.splits prod.splits)

lemma frame_plc_refresh_10ms_1ms_timer [frame_intro]:
  "frame s = F \<Longrightarrow> kept F (plc_refresh_10ms_1ms_timer s)"
  by (auto simp: plc_refresh_10ms_1ms_timer_def Let_def intro!: frame_intro split: option.splits list.splits prod.splits)

lemma frame_plc_stop_all_timer [frame_intro]:
  "frame s = F \<Longrightarrow> kept F (plc_stop_all_timer s)"
  by (auto simp: plc_stop_all_timer_def Let_def elem_shape_def intro!: frame_elements)

lemma frame_read_word_at [frame_intro]:
  "frame s = F \<Longrightarrow> mcp_PC e = p \<Longrightarrow> (\<And>x0. kept_pc F p (f x0)) \<Longrightarrow> kept_pc F p (read_word_at a1 s e a2 f)"
  by (auto simp: read_word_at_def Let_def intro!: frame_intro split: option.splits list.splits prod.splits)

lemma frame_read_dword [frame_intro]:
  "frame s = F \<Longrightarrow> mcp_PC e = p \<Longrightarrow> (\<And>x0. kept_pc F p (f x0)) \<Longrightarrow> kept_pc F p (read_dword s e a1 f)"
  by (auto simp: read_dword_def Let_def intro!: frame_intro split: option.splits list.splits prod.splits)

lemma frame_write_word_at [frame_intro]:
  "frame s = F \<Longrightarrow> mcp_PC e = p \<Longrightarrow> kept_pc F p (write_word_at a1 s e a2 a3)"
  by (auto simp: write_word_at_def Let_def intro!: frame_intro split: option.splits list.splits prod.splits)

lemma frame_write_dword_at [frame_intro]:
  "frame s = F \<Longrightarrow> mcp_PC e = p \<Longrightarrow> kept_pc F p (write_dword_at a1 s e a2 a3)"
  by (auto simp: write_dword_at_def Let_def intro!: frame_intro split: option.splits list.splits prod.splits)

lemma frame_write_chars [frame_intro]:
  "frame s = F \<Longrightarrow> mcp_PC e = p \<Longrightarrow> kept_pc F p (write_chars s e a1 a2)"
  by (auto simp: write_chars_def Let_def intro!: frame_intro split: option.splits list.splits prod.splits)

lemma frame_ci_ok [frame_intro]:
  "frame s = F \<Longrightarrow> mcp_PC e = p \<Longrightarrow> kept_pc F p (ci_ok s e)"
  by (auto simp: ci_ok_def Let_def intro!: frame_intro split: option.splits list.splits prod.splits)

lemma frame_ci_err [frame_intro]:
  "frame s = F \<Longrightarrow> mcp_PC e = p \<Longrightarrow> kept_pc F p (ci_err a1 s e)"
  by (auto simp: ci_err_def Let_def intro!: frame_intro split: option.splits list.splits prod.splits)

lemma frame_when_flow [frame_intro]:
  "frame s = F \<Longrightarrow> mcp_PC e = p \<Longrightarrow> kept_pc F p x \<Longrightarrow> kept_pc F p (when_flow s e x)"
  by (auto simp: when_flow_def Let_def intro!: frame_intro split: option.splits list.splits prod.splits)

lemma frame_unless_flow [frame_intro]:
  "frame s = F \<Longrightarrow> mcp_PC e = p \<Longrightarrow> kept_pc F p x \<Longrightarrow> kept_pc F p (unless_flow s e x)"
  by (auto simp: unless_flow_def Let_def intro!: frame_intro split: option.splits list.splits prod.splits)

lemma frame_words_operands [frame_intro]:
  "frame s = F \<Longrightarrow> mcp_PC e = p \<Longrightarrow> (\<And>x0 x1. kept_pc F p (f x0 x1)) \<Longrightarrow> kept_pc F p (words_operands s e f)"
  by (auto simp: words_operands_def Let_def intro!: frame_intro split: option.splits list.splits prod.splits)

lemma frame_dwords_operands [frame_intro]:
  "frame s = F \<Longrightarrow> mcp_PC e = p \<Longrightarrow> (\<And>x0 x1. kept_pc F p (f x0 x1)) \<Longrightarrow> kept_pc F p (dwords_operands s e f)"
  by (auto simp: dwords_operands_def Let_def intro!: frame_intro split: option.splits list.splits prod.splits)

lemma frame_ld_compare [frame_intro]:
  "frame s = F \<Longrightarrow> mcp_PC e = p \<Longrightarrow> kept_pc F p (ld_compare a1 s e a2 a3)"
  by (auto simp: ld_compare_def Let_def intro!: frame_intro split: option.splits list.splits prod.splits)

lemma frame_and_compare [frame_intro]:
  "frame s = F \<Longrightarrow> mcp_PC e = p \<Longrightarrow> kept_pc F p (and_compare a1 s e a2 a3)"
  by (auto simp: and_compare_def Let_def intro!: frame_intro split: option.splits list.splits prod.splits)

lemma frame_or_compare [frame_intro]:
  "frame s = F \<Longrightarrow> mcp_PC e = p \<Longrightarrow> kept_pc F p (or_compare a1 s e a2 a3)"
  by (auto simp: or_compare_def Let_def intro!: frame_intro split: option.splits list.splits prod.splits)

lemma frame_run_ld_compare_ins [frame_intro]:
  "frame s = F \<Longrightarrow> mcp_PC e = p \<Longrightarrow> kept_pc F p (run_ld_compare_ins s e)"
  by (auto simp: run_ld_compare_ins_def Let_def intro!: frame_intro split: option.splits list.splits prod.splits)

lemma frame_run_and_compare_ins [frame_intro]:
  "frame s = F \<Longrightarrow> mcp_PC e = p \<Longrightarrow> kept_pc F p (run_and_compare_ins s e)"
  by (auto simp: run_and_compare_ins_def Let_def intro!: frame_intro split: option.splits list.splits prod.splits)

lemma frame_run_or_compare_ins [frame_intro]:
  "frame s = F \<Longrightarrow> mcp_PC e = p \<Longrightarrow> kept_pc F p (run_or_compare_ins s e)"
  by (auto simp: run_or_compare_ins_def Let_def intro!: frame_intro split: option.splits list.splits prod.splits)

lemma frame_run_ldd_compare_ins [frame_intro]:
  "frame s = F \<Longrightarrow> mcp_PC e = p \<Longrightarrow> kept_pc F p (run_ldd_compare_ins s e)"
  by (auto simp: run_ldd_compare_ins_def Let_def intro!: frame_intro split: option.splits list.splits prod.splits)

lemma frame_run_andd_compare_ins [frame_intro]:
  "frame s = F \<Longrightarrow> mcp_PC e = p \<Longrightarrow> kept_pc F p (run_andd_compare_ins s e)"
  by (auto simp: run_andd_compare_ins_def Let_def intro!: frame_intro split: option.splits list.splits prod.splits)

lemma frame_run_ord_compare_ins [frame_intro]:
  "frame s = F \<Longrightarrow> mcp_PC e = p \<Longrightarrow> kept_pc F p (run_ord_compare_ins s e)"
  by (auto simp: run_ord_compare_ins_def Let_def intro!: frame_intro split: option.splits list.splits prod.splits)

lemma frame_run_ci_cmp_ins [frame_intro]:
  "frame s = F \<Longrightarrow> mcp_PC e = p \<Longrightarrow> kept_pc F p (run_ci_cmp_ins s e)"
  by (auto simp: run_ci_cmp_ins_def Let_def intro!: frame_intro split: option.splits list.splits prod.splits)

lemma frame_run_ci_lcmp_ins [frame_intro]:
  "frame s = F \<Longrightarrow> mcp_PC e = p \<Longrightarrow> kept_pc F p (run_ci_lcmp_ins s e)"
  by (auto simp: run_ci_lcmp_ins_def Let_def intro!: frame_intro split: option.splits list.splits prod.splits)

lemma frame_bit_index [frame_intro]:
  "frame s = F \<Longrightarrow> mcp_PC e = p \<Longrightarrow> (\<And>x0. kept_pc F p (f x0)) \<Longrightarrow> kept_pc F p (bit_index s e a1 f)"
  by (auto simp: bit_index_def Let_def intro!: frame_intro split: option.splits list.splits prod.splits)

lemma frame_read_index [frame_intro]:
  "frame s = F \<Longrightarrow> mcp_PC e = p \<Longrightarrow> (\<And>x0. kept_pc F p (f x0)) \<Longrightarrow> kept_pc F p (read_index s e f)"
  by (auto simp: read_index_def Let_def intro!: frame_intro split: option.splits list.splits prod.splits)

lemma frame_imm_index [frame_intro]:
  "frame s = F \<Longrightarrow> mcp_PC e = p \<Longrightarrow> (\<And>x0. kept_pc F p (f x0)) \<Longrightarrow> kept_pc F p (imm_index s e f)"
  by (auto simp: imm_index_def Let_def intro!: frame_intro split: option.splits list.splits prod.splits)

lemma frame_bit_operand [frame_intro]:
  "frame s = F \<Longrightarrow> mcp_PC e = p \<Longrightarrow> (\<And>f. (\<And>k. kept_pc F p (f k)) \<Longrightarrow> kept_pc F p (ix s e f)) \<Longrightarrow> (\<And>w k. kept_pc F p (f w k)) \<Longrightarrow> kept_pc F p (bit_operand ix s e f)"
  by (auto simp: bit_operand_def intro!: frame_intro)

lemma frame_bit_ld [frame_intro]:
  "frame s = F \<Longrightarrow> mcp_PC e = p \<Longrightarrow> (\<And>f. (\<And>k. kept_pc F p (f k)) \<Longrightarrow> kept_pc F p (ix s e f)) \<Longrightarrow> kept_pc F p (bit_ld ix b s e)"
  by (auto simp: bit_ld_def intro!: frame_intro)

lemma frame_bit_and [frame_intro]:
  "frame s = F \<Longrightarrow> mcp_PC e = p \<Longrightarrow> (\<And>f. (\<And>k. kept_pc F p (f k)) \<Longrightarrow> kept_pc F p (ix s e f)) \<Longrightarrow> kept_pc F p (bit_and ix b s e)"
  by (auto simp: bit_and_def intro!: frame_intro)

lemma frame_bit_or [frame_intro]:
  "frame s = F \<Longrightarrow> mcp_PC e = p \<Longrightarrow> (\<And>f. (\<And>k. kept_pc F p (f k)) \<Longrightarrow> kept_pc F p (ix s e f)) \<Longrightarrow> kept_pc F p (bit_or ix b s e)"
  by (auto simp: bit_or_def intro!: frame_intro)

lemma frame_bit_coil [frame_intro]:
  "frame s = F \<Longrightarrow> mcp_PC e = p \<Longrightarrow> (\<And>f. (\<And>k. kept_pc F p (f k)) \<Longrightarrow> kept_pc F p (ix s e f)) \<Longrightarrow> kept_pc F p (bit_coil ix b s e)"
  by (auto simp: bit_coil_def intro!: frame_intro)

lemma frame_run_ci_bld_ins [frame_intro]:
  "frame s = F \<Longrightarrow> mcp_PC e = p \<Longrightarrow> kept_pc F p (run_ci_bld_ins s e)"
  by (auto simp: run_ci_bld_ins_def Let_def intro!: frame_intro split: option.splits list.splits prod.splits)

lemma frame_run_ci_bldi_ins [frame_intro]:
  "frame s = F \<Longrightarrow> mcp_PC e = p \<Longrightarrow> kept_pc F p (run_ci_bldi_ins s e)"
  by (auto simp: run_ci_bldi_ins_def Let_def intro!: frame_intro split: option.splits list.splits prod.splits)

lemma frame_run_ci_band_ins [frame_intro]:
  "frame s = F \<Longrightarrow> mcp_PC e = p \<Longrightarrow> kept_pc F p (run_ci_band_ins s e)"
  by (auto simp: run_ci_band_ins_def Let_def intro!: frame_intro split: option.splits list.splits prod.splits)

lemma frame_run_ci_bandi_ins [frame_intro]:
  "frame s = F \<Longrightarrow> mcp_PC e = p \<Longrightarrow> kept_pc F p (run_ci_bandi_ins s e)"
  by (auto simp: run_ci_bandi_ins_def Let_def intro!: frame_intro split: option.splits list.splits prod.splits)

lemma frame_run_ci_bor_ins [frame_intro]:
  "frame s = F \<Longrightarrow> mcp_PC e = p \<Longrightarrow> kept_pc F p (run_ci_bor_ins s e)"
  by (auto simp: run_ci_bor_ins_def Let_def intro!: frame_intro split: option.splits list.splits prod.splits)

lemma frame_run_ci_bori_ins [frame_intro]:
  "frame s = F \<Longrightarrow> mcp_PC e = p \<Longrightarrow> kept_pc F p (run_ci_bori_ins s e)"
  by (auto simp: run_ci_bori_ins_def Let_def intro!: frame_intro split: option.splits list.splits prod.splits)

lemma frame_run_ci_bset_ins [frame_intro]:
  "frame s = F \<Longrightarrow> mcp_PC e = p \<Longrightarrow> kept_pc F p (run_ci_bset_ins s e)"
  by (auto simp: run_ci_bset_ins_def Let_def intro!: frame_intro split: option.splits list.splits prod.splits)

lemma frame_run_ci_brst_ins [frame_intro]:
  "frame s = F \<Longrightarrow> mcp_PC e = p \<Longrightarrow> kept_pc F p (run_ci_brst_ins s e)"
  by (auto simp: run_ci_brst_ins_def Let_def intro!: frame_intro split: option.splits list.splits prod.splits)

lemma frame_run_ci_bout_ins [frame_intro]:
  "frame s = F \<Longrightarrow> mcp_PC e = p \<Longrightarrow> kept_pc F p (run_ci_bout_ins s e)"
  by (auto simp: run_ci_bout_ins_def Let_def intro!: frame_intro split: option.splits list.splits prod.splits)

lemma frame_run_ci_ld_dx_y_ins [frame_intro]:
  "frame s = F \<Longrightarrow> mcp_PC e = p \<Longrightarrow> kept_pc F p (run_ci_ld_dx_y_ins s e)"
  by (auto simp: run_ci_ld_dx_y_ins_def Let_def intro!: frame_intro split: option.splits list.splits prod.splits)

lemma frame_run_ci_ldi_dx_y_ins [frame_intro]:
  "frame s = F \<Longrightarrow> mcp_PC e = p \<Longrightarrow> kept_pc F p (run_ci_ldi_dx_y_ins s e)"
  by (auto simp: run_ci_ldi_dx_y_ins_def Let_def intro!: frame_intro split: option.splits list.splits prod.splits)

lemma frame_run_ci_and_dx_y_ins [frame_intro]:
  "frame s = F \<Longrightarrow> mcp_PC e = p \<Longrightarrow> kept_pc F p (run_ci_and_dx_y_ins s e)"
  by (auto simp: run_ci_and_dx_y_ins_def Let_def intro!: frame_intro split: option.splits list.splits prod.splits)

lemma frame_run_ci_ani_dx_y_ins [frame_intro]:
  "frame s = F \<Longrightarrow> mcp_PC e = p \<Longrightarrow> kept_pc F p (run_ci_ani_dx_y_ins s e)"
  by (auto simp: run_ci_ani_dx_y_ins_def Let_def intro!: frame_intro split: option.splits list.splits prod.splits)

lemma frame_run_ci_or_dx_y_ins [frame_intro]:
  "frame s = F \<Longrightarrow> mcp_PC e = p \<Longrightarrow> kept_pc F p (run_ci_or_dx_y_ins s e)"
  by (auto simp: run_ci_or_dx_y_ins_def Let_def intro!: frame_intro split: option.splits list.splits prod.splits)

lemma frame_run_ci_ori_dx_y_ins [frame_intro]:
  "frame s = F \<Longrightarrow> mcp_PC e = p \<Longrightarrow> kept_pc F p (run_ci_ori_dx_y_ins s e)"
  by (auto simp: run_ci_ori_dx_y_ins_def Let_def intro!: frame_intro split: option.splits list.splits prod.splits)

lemma frame_run_ci_set_dx_y_ins [frame_intro]:
  "frame s = F \<Longrightarrow> mcp_PC e = p \<Longrightarrow> kept_pc F p (run_ci_set_dx_y_ins s e)"
  by (auto simp: run_ci_set_dx_y_ins_def Let_def intro!: frame_intro split: option.splits list.splits prod.splits)

lemma frame_run_ci_rst_dx_y_ins [frame_intro]:
  "frame s = F \<Longrightarrow> mcp_PC e = p \<Longrightarrow> kept_pc F p (run_ci_rst_dx_y_ins s e)"
  by (auto simp: run_ci_rst_dx_y_ins_def Let_def intro!: frame_intro split: option.splits list.splits prod.splits)

lemma frame_run_ci_out_dx_y_ins [frame_intro]:
  "frame s = F \<Longrightarrow> mcp_PC e = p \<Longrightarrow> kept_pc F p (run_ci_out_dx_y_ins s e)"
  by (auto simp: run_ci_out_dx_y_ins_def Let_def intro!: frame_intro split: option.splits list.splits prod.splits)

lemma frame_lm_contact [frame_intro]:
  "frame s = F \<Longrightarrow> mcp_PC e = p \<Longrightarrow> (\<And>x0. kept_pc F p (f x0)) \<Longrightarrow> kept_pc F p (lm_contact s e f)"
  by (auto simp: lm_contact_def Let_def intro!: frame_intro split: option.splits list.splits prod.splits)

lemma frame_lm_coil [frame_intro]:
  "frame s = F \<Longrightarrow> mcp_PC e = p \<Longrightarrow> kept_pc F p (lm_coil s e a1)"
  by (auto simp: lm_coil_def Let_def intro!: frame_intro split: option.splits list.splits prod.splits)

lemma frame_run_ci_ld_lm_ins [frame_intro]:
  "frame s = F \<Longrightarrow> mcp_PC e = p \<Longrightarrow> kept_pc F p (run_ci_ld_lm_ins s e)"
  by (auto simp: run_ci_ld_lm_ins_def Let_def intro!: frame_intro split: option.splits list.splits prod.splits)

lemma frame_run_ci_ldi_lm_ins [frame_intro]:
  "frame s = F \<Longrightarrow> mcp_PC e = p \<Longrightarrow> kept_pc F p (run_ci_ldi_lm_ins s e)"
  by (auto simp: run_ci_ldi_lm_ins_def Let_def intro!: frame_intro split: option.splits list.splits prod.splits)

lemma frame_run_ci_and_lm_ins [frame_intro]:
  "frame s = F \<Longrightarrow> mcp_PC e = p \<Longrightarrow> kept_pc F p (run_ci_and_lm_ins s e)"
  by (auto simp: run_ci_and_lm_ins_def Let_def intro!: frame_intro split: option.splits list.splits prod.splits)

lemma frame_run_ci_ani_lm_ins [frame_intro]:
  "frame s = F \<Longrightarrow> mcp_PC e = p \<Longrightarrow> kept_pc F p (run_ci_ani_lm_ins s e)"
  by (auto simp: run_ci_ani_lm_ins_def Let_def intro!: frame_intro split: option.splits list.splits prod.splits)

lemma frame_run_ci_or_lm_ins [frame_intro]:
  "frame s = F \<Longrightarrow> mcp_PC e = p \<Longrightarrow> kept_pc F p (run_ci_or_lm_ins s e)"
  by (auto simp: run_ci_or_lm_ins_def Let_def intro!: frame_intro split: option.splits list.splits prod.splits)

lemma frame_run_ci_ori_lm_ins [frame_intro]:
  "frame s = F \<Longrightarrow> mcp_PC e = p \<Longrightarrow> kept_pc F p (run_ci_ori_lm_ins s e)"
  by (auto simp: run_ci_ori_lm_ins_def Let_def intro!: frame_intro split: option.splits list.splits prod.splits)

lemma frame_run_ci_set_lm_ins [frame_intro]:
  "frame s = F \<Longrightarrow> mcp_PC e = p \<Longrightarrow> kept_pc F p (run_ci_set_lm_ins s e)"
  by (auto simp: run_ci_set_lm_ins_def Let_def intro!: frame_intro split: option.splits list.splits prod.splits)

lemma frame_run_ci_out_lm_ins [frame_intro]:
  "frame s = F \<Longrightarrow> mcp_PC e = p \<Longrightarrow> kept_pc F p (run_ci_out_lm_ins s e)"
  by (auto simp: run_ci_out_lm_ins_def Let_def intro!: frame_intro split: option.splits list.splits prod.splits)

lemma frame_run_ci_rst_lm_ins [frame_intro]:
  "frame s = F \<Longrightarrow> mcp_PC e = p \<Longrightarrow> kept_pc F p (run_ci_rst_lm_ins s e)"
  by (auto simp: run_ci_rst_lm_ins_def Let_def intro!: frame_intro split: option.splits list.splits prod.splits)

lemma frame_z_loop [frame_intro]:
  "frame s = F \<Longrightarrow> (\<And>F s i. frame s = F \<Longrightarrow> kept F (f s i)) \<Longrightarrow> kept2 F (z_loop f rang s k n)"
  by (induction n arbitrary: s k) (auto intro!: frame_intro)

lemma frame_z_batch [frame_intro]:
  "frame s = F \<Longrightarrow> mcp_PC e = p \<Longrightarrow> (\<And>F b s i. frame s = F \<Longrightarrow> kept F (f b s i)) \<Longrightarrow> kept_pc F p (z_batch f s e)"
  by (auto simp: z_batch_def intro!: frame_intro split: option.splits)

lemma frame_zrst_one [frame_intro]:
  "frame s = F \<Longrightarrow> kept F (zrst_one a1 s a2)"
  by (auto simp: zrst_one_def Let_def intro!: frame_intro split: option.splits list.splits prod.splits)

lemma frame_run_ci_zrst_ins [frame_intro]:
  "frame s = F \<Longrightarrow> mcp_PC e = p \<Longrightarrow> kept_pc F p (run_ci_zrst_ins s e)"
  by (auto simp: run_ci_zrst_ins_def Let_def intro!: frame_intro split: option.splits list.splits prod.splits)

lemma frame_run_ci_zset_ins [frame_intro]:
  "frame s = F \<Longrightarrow> mcp_PC e = p \<Longrightarrow> kept_pc F p (run_ci_zset_ins s e)"
  by (auto simp: run_ci_zset_ins_def Let_def intro!: frame_intro split: option.splits list.splits prod.splits)

lemma frame_run_ci_deco_ins [frame_intro]:
  "frame s = F \<Longrightarrow> mcp_PC e = p \<Longrightarrow> kept_pc F p (run_ci_deco_ins s e)"
  by (auto simp: run_ci_deco_ins_def Let_def intro!: frame_intro split: option.splits list.splits prod.splits)

lemma frame_run_ci_enco_ins [frame_intro]:
  "frame s = F \<Longrightarrow> mcp_PC e = p \<Longrightarrow> kept_pc F p (run_ci_enco_ins s e)"
  by (auto simp: run_ci_enco_ins_def Let_def intro!: frame_intro split: option.splits list.splits prod.splits)

lemma frame_run_ci_bits_ins [frame_intro]:
  "frame s = F \<Longrightarrow> mcp_PC e = p \<Longrightarrow> kept_pc F p (run_ci_bits_ins s e)"
  by (auto simp: run_ci_bits_ins_def Let_def intro!: frame_intro split: option.splits list.splits prod.splits)

lemma frame_run_ci_dbits_ins [frame_intro]:
  "frame s = F \<Longrightarrow> mcp_PC e = p \<Longrightarrow> kept_pc F p (run_ci_dbits_ins s e)"
  by (auto simp: run_ci_dbits_ins_def Let_def intro!: frame_intro split: option.splits list.splits prod.splits)

lemma frame_run_ci_bon_ins [frame_intro]:
  "frame s = F \<Longrightarrow> mcp_PC e = p \<Longrightarrow> kept_pc F p (run_ci_bon_ins s e)"
  by (auto simp: run_ci_bon_ins_def Let_def intro!: frame_intro split: option.splits list.splits prod.splits)

section \<open>Arithmetic, logic, moves, checksums and clock\<close>

lemma frame_word_un [frame_intro]:
  "frame s = F \<Longrightarrow> mcp_PC e = p \<Longrightarrow> kept_pc F p (word_un a1 s e)"
  by (auto simp: word_un_def Let_def intro!: frame_intro split: option.splits list.splits prod.splits)

lemma frame_word_bin [frame_intro]:
  "frame s = F \<Longrightarrow> mcp_PC e = p \<Longrightarrow> kept_pc F p (word_bin a1 s e)"
  by (auto simp: word_bin_def Let_def intro!: frame_intro split: option.splits list.splits prod.splits)

lemma frame_dword_un [frame_intro]:
  "frame s = F \<Longrightarrow> mcp_PC e = p \<Longrightarrow> kept_pc F p (dword_un a1 s e)"
  by (auto simp: dword_un_def Let_def intro!: frame_intro split: option.splits list.splits prod.splits)

lemma frame_dword_bin [frame_intro]:
  "frame s = F \<Longrightarrow> mcp_PC e = p \<Longrightarrow> kept_pc F p (dword_bin a1 s e)"
  by (auto simp: dword_bin_def Let_def intro!: frame_intro split: option.splits list.splits prod.splits)

lemma frame_raise_flag [frame_intro]:
  "frame s = F \<Longrightarrow> kept F (raise_flag a1 s)"
  by (auto simp: raise_flag_def Let_def intro!: frame_intro split: option.splits list.splits prod.splits)

lemma frame_clear_flags [frame_intro]:
  "frame s = F \<Longrightarrow> kept F (clear_flags s)"
  by (auto simp: clear_flags_def Let_def intro!: frame_intro split: option.splits list.splits prod.splits)

lemma frame_add_flags [frame_intro]:
  "frame s = F \<Longrightarrow> kept F (add_flags a1 s)"
  by (auto simp: add_flags_def Let_def intro!: frame_intro split: option.splits list.splits prod.splits)

lemma frame_add_words [frame_intro]:
  "frame s = F \<Longrightarrow> mcp_PC e = p \<Longrightarrow> kept_pc F p (add_words a1 s e)"
  by (auto simp: add_words_def Let_def intro!: frame_intro split: option.splits list.splits prod.splits)

lemma frame_run_ci_add_ins [frame_intro]:
  "frame s = F \<Longrightarrow> mcp_PC e = p \<Longrightarrow> kept_pc F p (run_ci_add_ins s e)"
  by (auto simp: run_ci_add_ins_def Let_def intro!: frame_intro split: option.splits list.splits prod.splits)

lemma frame_run_ci_sub_ins [frame_intro]:
  "frame s = F \<Longrightarrow> mcp_PC e = p \<Longrightarrow> kept_pc F p (run_ci_sub_ins s e)"
  by (auto simp: run_ci_sub_ins_def Let_def intro!: frame_intro split: option.splits list.splits prod.splits)

lemma frame_run_ci_mul_ins [frame_intro]:
  "frame s = F \<Longrightarrow> mcp_PC e = p \<Longrightarrow> kept_pc F p (run_ci_mul_ins s e)"
  by (auto simp: run_ci_mul_ins_def Let_def intro!: frame_intro split: option.splits list.splits prod.splits)

lemma frame_then_ins [frame_intro]:
  "kept_pc F p x \<Longrightarrow> (\<And>t. frame t = F \<Longrightarrow> kept_pc F p (f t)) \<Longrightarrow> kept_pc F p (then_ins x f)"
  by (auto simp: then_ins_def intro!: bind_kept_pc)

lemma frame_run_ci_div_ins [frame_intro]:
  "frame s = F \<Longrightarrow> mcp_PC e = p \<Longrightarrow> kept_pc F p (run_ci_div_ins s e)"
  by (auto simp: run_ci_div_ins_def Let_def intro!: frame_intro split: option.splits list.splits prod.splits)

lemma frame_run_ci_inc_ins [frame_intro]:
  "frame s = F \<Longrightarrow> mcp_PC e = p \<Longrightarrow> kept_pc F p (run_ci_inc_ins s e)"
  by (auto simp: run_ci_inc_ins_def Let_def intro!: frame_intro split: option.splits list.splits prod.splits)

lemma frame_run_ci_dec_ins [frame_intro]:
  "frame s = F \<Longrightarrow> mcp_PC e = p \<Longrightarrow> kept_pc F p (run_ci_dec_ins s e)"
  by (auto simp: run_ci_dec_ins_def Let_def intro!: frame_intro split: option.splits list.splits prod.splits)

lemma frame_run_ci_vabs_ins [frame_intro]:
  "frame s = F \<Longrightarrow> mcp_PC e = p \<Longrightarrow> kept_pc F p (run_ci_vabs_ins s e)"
  by (auto simp: run_ci_vabs_ins_def Let_def intro!: frame_intro split: option.splits list.splits prod.splits)

lemma frame_run_ci_neg_ins [frame_intro]:
  "frame s = F \<Longrightarrow> mcp_PC e = p \<Longrightarrow> kept_pc F p (run_ci_neg_ins s e)"
  by (auto simp: run_ci_neg_ins_def Let_def intro!: frame_intro split: option.splits list.splits prod.splits)

lemma frame_dadd_flags [frame_intro]:
  "frame s = F \<Longrightarrow> kept F (dadd_flags a1 a2 a3 s)"
  by (auto simp: dadd_flags_def Let_def intro!: frame_intro split: option.splits list.splits prod.splits)

lemma frame_dsub_flags [frame_intro]:
  "frame s = F \<Longrightarrow> kept F (dsub_flags a1 a2 a3 s)"
  by (auto simp: dsub_flags_def Let_def intro!: frame_intro split: option.splits list.splits prod.splits)

lemma frame_run_ci_dadd_ins [frame_intro]:
  "frame s = F \<Longrightarrow> mcp_PC e = p \<Longrightarrow> kept_pc F p (run_ci_dadd_ins s e)"
  by (auto simp: run_ci_dadd_ins_def Let_def intro!: frame_intro split: option.splits list.splits prod.splits)

lemma frame_run_ci_dsub_ins [frame_intro]:
  "frame s = F \<Longrightarrow> mcp_PC e = p \<Longrightarrow> kept_pc F p (run_ci_dsub_ins s e)"
  by (auto simp: run_ci_dsub_ins_def Let_def intro!: frame_intro split: option.splits list.splits prod.splits)

lemma frame_run_ci_dmul_ins [frame_intro]:
  "frame s = F \<Longrightarrow> mcp_PC e = p \<Longrightarrow> kept_pc F p (run_ci_dmul_ins s e)"
  by (auto simp: run_ci_dmul_ins_def Let_def intro!: frame_intro split: option.splits list.splits prod.splits)

lemma frame_run_ci_ddiv_ins [frame_intro]:
  "frame s = F \<Longrightarrow> mcp_PC e = p \<Longrightarrow> kept_pc F p (run_ci_ddiv_ins s e)"
  by (auto simp: run_ci_ddiv_ins_def Let_def intro!: frame_intro split: option.splits list.splits prod.splits)

lemma frame_run_ci_dinc_ins [frame_intro]:
  "frame s = F \<Longrightarrow> mcp_PC e = p \<Longrightarrow> kept_pc F p (run_ci_dinc_ins s e)"
  by (auto simp: run_ci_dinc_ins_def Let_def intro!: frame_intro split: option.splits list.splits prod.splits)

lemma frame_run_ci_ddec_ins [frame_intro]:
  "frame s = F \<Longrightarrow> mcp_PC e = p \<Longrightarrow> kept_pc F p (run_ci_ddec_ins s e)"
  by (auto simp: run_ci_ddec_ins_def Let_def intro!: frame_intro split: option.splits list.splits prod.splits)

lemma frame_run_ci_dvabs_ins [frame_intro]:
  "frame s = F \<Longrightarrow> mcp_PC e = p \<Longrightarrow> kept_pc F p (run_ci_dvabs_ins s e)"
  by (auto simp: run_ci_dvabs_ins_def Let_def intro!: frame_intro split: option.splits list.splits prod.splits)

lemma frame_run_ci_dneg_ins [frame_intro]:
  "frame s = F \<Longrightarrow> mcp_PC e = p \<Longrightarrow> kept_pc F p (run_ci_dneg_ins s e)"
  by (auto simp: run_ci_dneg_ins_def Let_def intro!: frame_intro split: option.splits list.splits prod.splits)

lemma frame_run_ci_sum_ins [frame_intro]:
  "frame s = F \<Longrightarrow> mcp_PC e = p \<Longrightarrow> kept_pc F p (run_ci_sum_ins s e)"
  by (auto simp: run_ci_sum_ins_def Let_def intro!: frame_intro split: option.splits list.splits prod.splits)

lemma frame_sum_dwords [frame_intro]:
  "frame s = F \<Longrightarrow> kept3 F (sum_dwords s e a1 a2 a3)"
  by (induction a2 arbitrary: s a1 a3) (auto simp: Let_def intro!: frame_intro split: option.splits list.splits prod.splits)

lemma frame_run_ci_dsum_ins [frame_intro]:
  "frame s = F \<Longrightarrow> mcp_PC e = p \<Longrightarrow> kept_pc F p (run_ci_dsum_ins s e)"
  by (auto simp: run_ci_dsum_ins_def Let_def intro!: frame_intro split: option.splits list.splits prod.splits)

lemma frame_run_ci_dti_ins [frame_intro]:
  "frame s = F \<Longrightarrow> mcp_PC e = p \<Longrightarrow> kept_pc F p (run_ci_dti_ins s e)"
  by (auto simp: run_ci_dti_ins_def Let_def intro!: frame_intro split: option.splits list.splits prod.splits)

lemma frame_run_ci_itd_ins [frame_intro]:
  "frame s = F \<Longrightarrow> mcp_PC e = p \<Longrightarrow> kept_pc F p (run_ci_itd_ins s e)"
  by (auto simp: run_ci_itd_ins_def Let_def intro!: frame_intro split: option.splits list.splits prod.splits)

lemma frame_run_ci_bcd_ins [frame_intro]:
  "frame s = F \<Longrightarrow> mcp_PC e = p \<Longrightarrow> kept_pc F p (run_ci_bcd_ins s e)"
  by (auto simp: run_ci_bcd_ins_def Let_def intro!: frame_intro split: option.splits list.splits prod.splits)

lemma frame_run_ci_dbcd_ins [frame_intro]:
  "frame s = F \<Longrightarrow> mcp_PC e = p \<Longrightarrow> kept_pc F p (run_ci_dbcd_ins s e)"
  by (auto simp: run_ci_dbcd_ins_def Let_def intro!: frame_intro split: option.splits list.splits prod.splits)

lemma frame_run_ci_bin_ins [frame_intro]:
  "frame s = F \<Longrightarrow> mcp_PC e = p \<Longrightarrow> kept_pc F p (run_ci_bin_ins s e)"
  by (auto simp: run_ci_bin_ins_def Let_def intro!: frame_intro split: option.splits list.splits prod.splits)

lemma frame_run_ci_dbin_ins [frame_intro]:
  "frame s = F \<Longrightarrow> mcp_PC e = p \<Longrightarrow> kept_pc F p (run_ci_dbin_ins s e)"
  by (auto simp: run_ci_dbin_ins_def Let_def intro!: frame_intro split: option.splits list.splits prod.splits)

lemma frame_run_ci_gry_ins [frame_intro]:
  "frame s = F \<Longrightarrow> mcp_PC e = p \<Longrightarrow> kept_pc F p (run_ci_gry_ins s e)"
  by (auto simp: run_ci_gry_ins_def Let_def intro!: frame_intro split: option.splits list.splits prod.splits)

lemma frame_run_ci_dgry_ins [frame_intro]:
  "frame s = F \<Longrightarrow> mcp_PC e = p \<Longrightarrow> kept_pc F p (run_ci_dgry_ins s e)"
  by (auto simp: run_ci_dgry_ins_def Let_def intro!: frame_intro split: option.splits list.splits prod.splits)

lemma frame_run_ci_gbin_ins [frame_intro]:
  "frame s = F \<Longrightarrow> mcp_PC e = p \<Longrightarrow> kept_pc F p (run_ci_gbin_ins s e)"
  by (auto simp: run_ci_gbin_ins_def Let_def intro!: frame_intro split: option.splits list.splits prod.splits)

lemma frame_run_ci_dgbin_ins [frame_intro]:
  "frame s = F \<Longrightarrow> mcp_PC e = p \<Longrightarrow> kept_pc F p (run_ci_dgbin_ins s e)"
  by (auto simp: run_ci_dgbin_ins_def Let_def intro!: frame_intro split: option.splits list.splits prod.splits)

lemma frame_run_ci_seg_ins [frame_intro]:
  "frame s = F \<Longrightarrow> mcp_PC e = p \<Longrightarrow> kept_pc F p (run_ci_seg_ins s e)"
  by (auto simp: run_ci_seg_ins_def Let_def intro!: frame_intro split: option.splits list.splits prod.splits)

lemma frame_run_ci_asc_ins [frame_intro]:
  "frame s = F \<Longrightarrow> mcp_PC e = p \<Longrightarrow> kept_pc F p (run_ci_asc_ins s e)"
  by (auto simp: run_ci_asc_ins_def Let_def intro!: frame_intro split: option.splits list.splits prod.splits)

lemma frame_run_ci_wand_ins [frame_intro]:
  "frame s = F \<Longrightarrow> mcp_PC e = p \<Longrightarrow> kept_pc F p (run_ci_wand_ins s e)"
  by (auto simp: run_ci_wand_ins_def Let_def intro!: frame_intro split: option.splits list.splits prod.splits)

lemma frame_run_ci_wor_ins [frame_intro]:
  "frame s = F \<Longrightarrow> mcp_PC e = p \<Longrightarrow> kept_pc F p (run_ci_wor_ins s e)"
  by (auto simp: run_ci_wor_ins_def Let_def intro!: frame_intro split: option.splits list.splits prod.splits)

lemma frame_run_ci_wxor_ins [frame_intro]:
  "frame s = F \<Longrightarrow> mcp_PC e = p \<Longrightarrow> kept_pc F p (run_ci_wxor_ins s e)"
  by (auto simp: run_ci_wxor_ins_def Let_def intro!: frame_intro split: option.splits list.splits prod.splits)

lemma frame_run_ci_winv_ins [frame_intro]:
  "frame s = F \<Longrightarrow> mcp_PC e = p \<Longrightarrow> kept_pc F p (run_ci_winv_ins s e)"
  by (auto simp: run_ci_winv_ins_def Let_def intro!: frame_intro split: option.splits list.splits prod.splits)

lemma frame_run_ci_dwand_ins [frame_intro]:
  "frame s = F \<Longrightarrow> mcp_PC e = p \<Longrightarrow> kept_pc F p (run_ci_dwand_ins s e)"
  by (auto simp: run_ci_dwand_ins_def Let_def intro!: frame_intro split: option.splits list.splits prod.splits)

lemma frame_run_ci_dwor_ins [frame_intro]:
  "frame s = F \<Longrightarrow> mcp_PC e = p \<Longrightarrow> kept_pc F p (run_ci_dwor_ins s e)"
  by (auto simp: run_ci_dwor_ins_def Let_def intro!: frame_intro split: option.splits list.splits prod.splits)

lemma frame_run_ci_dwxor_ins [frame_intro]:
  "frame s = F \<Longrightarrow> mcp_PC e = p \<Longrightarrow> kept_pc F p (run_ci_dwxor_ins s e)"
  by (auto simp: run_ci_dwxor_ins_def Let_def intro!: frame_intro split: option.splits list.splits prod.splits)

lemma frame_run_ci_dwinv_ins [frame_intro]:
  "frame s = F \<Longrightarrow> mcp_PC e = p \<Longrightarrow> kept_pc F p (run_ci_dwinv_ins s e)"
  by (auto simp: run_ci_dwinv_ins_def Let_def intro!: frame_intro split: option.splits list.splits prod.splits)

lemma frame_sh_word [frame_intro]:
  "frame s = F \<Longrightarrow> mcp_PC e = p \<Longrightarrow> (\<And>F s w n. frame s = F \<Longrightarrow> kept2 F (f s w n)) \<Longrightarrow> kept_pc F p (sh_word f s e)"
  by (auto simp: sh_word_def intro!: frame_intro)

lemma frame_sh_dword [frame_intro]:
  "frame s = F \<Longrightarrow> mcp_PC e = p \<Longrightarrow> (\<And>F s w n. frame s = F \<Longrightarrow> kept2 F (f s w n)) \<Longrightarrow> kept_pc F p (sh_dword i j f s e)"
  by (auto simp: sh_dword_def intro!: frame_intro)

lemma frame_ror [frame_intro]:
  "frame s = F \<Longrightarrow> kept2 F (ror s a1 a2)"
  by (auto simp: ror_def Let_def intro!: frame_intro split: option.splits list.splits prod.splits)

lemma frame_rol [frame_intro]:
  "frame s = F \<Longrightarrow> kept2 F (rol s a1 a2)"
  by (auto simp: rol_def Let_def intro!: frame_intro split: option.splits list.splits prod.splits)

lemma frame_rcr [frame_intro]:
  "frame s = F \<Longrightarrow> kept2 F (rcr s a1 a2)"
  by (auto simp: rcr_def Let_def intro!: frame_intro split: option.splits list.splits prod.splits)

lemma frame_rcl [frame_intro]:
  "frame s = F \<Longrightarrow> kept2 F (rcl s a1 a2)"
  by (auto simp: rcl_def Let_def intro!: frame_intro split: option.splits list.splits prod.splits)

lemma frame_shr [frame_intro]:
  "frame s = F \<Longrightarrow> kept2 F (shr s a1 a2)"
  by (auto simp: shr_def Let_def intro!: frame_intro split: option.splits list.splits prod.splits)

lemma frame_shl [frame_intro]:
  "frame s = F \<Longrightarrow> kept2 F (shl s a1 a2)"
  by (auto simp: shl_def Let_def intro!: frame_intro split: option.splits list.splits prod.splits)

lemma frame_run_ci_ror_ins [frame_intro]:
  "frame s = F \<Longrightarrow> mcp_PC e = p \<Longrightarrow> kept_pc F p (run_ci_ror_ins s e)"
  by (auto simp: run_ci_ror_ins_def Let_def intro!: frame_intro split: option.splits list.splits prod.splits)

lemma frame_run_ci_rol_ins [frame_intro]:
  "frame s = F \<Longrightarrow> mcp_PC e = p \<Longrightarrow> kept_pc F p (run_ci_rol_ins s e)"
  by (auto simp: run_ci_rol_ins_def Let_def intro!: frame_intro split: option.splits list.splits prod.splits)

lemma frame_run_ci_rcr_ins [frame_intro]:
  "frame s = F \<Longrightarrow> mcp_PC e = p \<Longrightarrow> kept_pc F p (run_ci_rcr_ins s e)"
  by (auto simp: run_ci_rcr_ins_def Let_def intro!: frame_intro split: option.splits list.splits prod.splits)

lemma frame_run_ci_rcl_ins [frame_intro]:
  "frame s = F \<Longrightarrow> mcp_PC e = p \<Longrightarrow> kept_pc F p (run_ci_rcl_ins s e)"
  by (auto simp: run_ci_rcl_ins_def Let_def intro!: frame_intro split: option.splits list.splits prod.splits)

lemma frame_run_ci_dror_ins [frame_intro]:
  "frame s = F \<Longrightarrow> mcp_PC e = p \<Longrightarrow> kept_pc F p (run_ci_dror_ins s e)"
  by (auto simp: run_ci_dror_ins_def Let_def intro!: frame_intro split: option.splits list.splits prod.splits)

lemma frame_run_ci_drol_ins [frame_intro]:
  "frame s = F \<Longrightarrow> mcp_PC e = p \<Longrightarrow> kept_pc F p (run_ci_drol_ins s e)"
  by (auto simp: run_ci_drol_ins_def Let_def intro!: frame_intro split: option.splits list.splits prod.splits)

lemma frame_run_ci_drcr_ins [frame_intro]:
  "frame s = F \<Longrightarrow> mcp_PC e = p \<Longrightarrow> kept_pc F p (run_ci_drcr_ins s e)"
  by (auto simp: run_ci_drcr_ins_def Let_def intro!: frame_intro split: option.splits list.splits prod.splits)

lemma frame_run_ci_drcl_ins [frame_intro]:
  "frame s = F \<Longrightarrow> mcp_PC e = p \<Longrightarrow> kept_pc F p (run_ci_drcl_ins s e)"
  by (auto simp: run_ci_drcl_ins_def Let_def intro!: frame_intro split: option.splits list.splits prod.splits)

lemma frame_run_ci_shr_ins [frame_intro]:
  "frame s = F \<Longrightarrow> mcp_PC e = p \<Longrightarrow> kept_pc F p (run_ci_shr_ins s e)"
  by (auto simp: run_ci_shr_ins_def Let_def intro!: frame_intro split: option.splits list.splits prod.splits)

lemma frame_run_ci_shl_ins [frame_intro]:
  "frame s = F \<Longrightarrow> mcp_PC e = p \<Longrightarrow> kept_pc F p (run_ci_shl_ins s e)"
  by (auto simp: run_ci_shl_ins_def Let_def intro!: frame_intro split: option.splits list.splits prod.splits)

lemma frame_run_ci_dshr_ins [frame_intro]:
  "frame s = F \<Longrightarrow> mcp_PC e = p \<Longrightarrow> kept_pc F p (run_ci_dshr_ins s e)"
  by (auto simp: run_ci_dshr_ins_def Let_def intro!: frame_intro split: option.splits list.splits prod.splits)

lemma frame_run_ci_dshl_ins [frame_intro]:
  "frame s = F \<Longrightarrow> mcp_PC e = p \<Longrightarrow> kept_pc F p (run_ci_dshl_ins s e)"
  by (auto simp: run_ci_dshl_ins_def Let_def intro!: frame_intro split: option.splits list.splits prod.splits)

lemma frame_copy_bit [frame_intro]:
  "frame s = F \<Longrightarrow> kept2 F (copy_bit s a1 a2 a3 a4)"
  by (auto simp: copy_bit_def Let_def intro!: frame_intro split: option.splits list.splits prod.splits)

lemma frame_copy_bits [frame_intro]:
  "frame s = F \<Longrightarrow> kept2 F (copy_bits s a1 a2 a3)"
  by (induction a3 arbitrary: s) (auto simp: Let_def intro!: frame_intro split: option.splits list.splits prod.splits)

lemma frame_sft [frame_intro]:
  "frame s = F \<Longrightarrow> mcp_PC e = p \<Longrightarrow> kept_pc F p (sft a1 a2 s e)"
  by (auto simp: sft_def Let_def intro!: frame_intro split: option.splits list.splits prod.splits)

lemma frame_run_ci_sftr_ins [frame_intro]:
  "frame s = F \<Longrightarrow> mcp_PC e = p \<Longrightarrow> kept_pc F p (run_ci_sftr_ins s e)"
  by (auto simp: run_ci_sftr_ins_def Let_def intro!: frame_intro split: option.splits list.splits prod.splits)

lemma frame_run_ci_sftl_ins [frame_intro]:
  "frame s = F \<Longrightarrow> mcp_PC e = p \<Longrightarrow> kept_pc F p (run_ci_sftl_ins s e)"
  by (auto simp: run_ci_sftl_ins_def Let_def intro!: frame_intro split: option.splits list.splits prod.splits)

lemma frame_run_ci_mov_ins [frame_intro]:
  "frame s = F \<Longrightarrow> mcp_PC e = p \<Longrightarrow> kept_pc F p (run_ci_mov_ins s e)"
  by (auto simp: run_ci_mov_ins_def Let_def intro!: frame_intro split: option.splits list.splits prod.splits)

lemma frame_run_ci_rmov_ins [frame_intro]:
  "frame s = F \<Longrightarrow> mcp_PC e = p \<Longrightarrow> kept_pc F p (run_ci_rmov_ins s e)"
  by (auto simp: run_ci_rmov_ins_def Let_def intro!: frame_intro split: option.splits list.splits prod.splits)

lemma frame_run_ci_dmov_ins [frame_intro]:
  "frame s = F \<Longrightarrow> mcp_PC e = p \<Longrightarrow> kept_pc F p (run_ci_dmov_ins s e)"
  by (auto simp: run_ci_dmov_ins_def Let_def intro!: frame_intro split: option.splits list.splits prod.splits)

lemma frame_copy_word [frame_intro]:
  "frame s = F \<Longrightarrow> kept2 F (copy_word s a1 a2 a3 a4)"
  by (auto simp: copy_word_def Let_def intro!: frame_intro split: option.splits list.splits prod.splits)

lemma frame_copy_words [frame_intro]:
  "frame s = F \<Longrightarrow> kept2 F (copy_words s a1 a2 a3)"
  by (induction a3 arbitrary: s) (auto simp: Let_def intro!: frame_intro split: option.splits list.splits prod.splits)

lemma frame_at_env [frame_intro]: "mcp_PC e = p \<Longrightarrow> kept2 F x \<Longrightarrow> kept_pc F p (at_env e x)"
  by (auto simp: at_env_def intro!: frame_intro)

lemma frame_run_ci_bmov_ins [frame_intro]:
  "frame s = F \<Longrightarrow> mcp_PC e = p \<Longrightarrow> kept_pc F p (run_ci_bmov_ins s e)"
  by (auto simp: run_ci_bmov_ins_def Let_def intro!: frame_intro split: option.splits list.splits prod.splits)

lemma frame_fill_words [frame_intro]:
  "frame s = F \<Longrightarrow> kept2 F (fill_words s a1 a2 a3 a4)"
  by (induction a4 arbitrary: s a3) (auto simp: Let_def intro!: frame_intro split: option.splits list.splits prod.splits)

lemma frame_run_ci_fmov_ins [frame_intro]:
  "frame s = F \<Longrightarrow> mcp_PC e = p \<Longrightarrow> kept_pc F p (run_ci_fmov_ins s e)"
  by (auto simp: run_ci_fmov_ins_def Let_def intro!: frame_intro split: option.splits list.splits prod.splits)

lemma frame_fill_dwords [frame_intro]:
  "frame s = F \<Longrightarrow> kept2 F (fill_dwords s a1 a2 a3 a4)"
  by (induction a4 arbitrary: s a3) (auto simp: Let_def intro!: frame_intro split: option.splits list.splits prod.splits)

lemma frame_run_ci_dfmov_ins [frame_intro]:
  "frame s = F \<Longrightarrow> mcp_PC e = p \<Longrightarrow> kept_pc F p (run_ci_dfmov_ins s e)"
  by (auto simp: run_ci_dfmov_ins_def Let_def intro!: frame_intro split: option.splits list.splits prod.splits)

lemma frame_run_ci_swap_ins [frame_intro]:
  "frame s = F \<Longrightarrow> mcp_PC e = p \<Longrightarrow> kept_pc F p (run_ci_swap_ins s e)"
  by (auto simp: run_ci_swap_ins_def Let_def intro!: frame_intro split: option.splits list.splits prod.splits)

lemma frame_swap_words [frame_intro]:
  "frame s = F \<Longrightarrow> kept F (swap_words s a1 a2 a3 a4 a5 a6)"
  by (induction a6 arbitrary: s a5) (auto simp: Let_def intro!: frame_intro split: option.splits list.splits prod.splits)

lemma frame_run_ci_swapword_ins [frame_intro]:
  "frame s = F \<Longrightarrow> mcp_PC e = p \<Longrightarrow> kept_pc F p (run_ci_swapword_ins s e)"
  by (auto simp: run_ci_swapword_ins_def Let_def intro!: frame_intro bind_any [where x = "b :: (word_area \<times> u16) option" for b] split: option.splits list.splits prod.splits)

lemma frame_run_ci_xch_ins [frame_intro]:
  "frame s = F \<Longrightarrow> mcp_PC e = p \<Longrightarrow> kept_pc F p (run_ci_xch_ins s e)"
  by (auto simp: run_ci_xch_ins_def Let_def intro!: frame_intro split: option.splits list.splits prod.splits)

lemma frame_run_ci_dxch_ins [frame_intro]:
  "frame s = F \<Longrightarrow> mcp_PC e = p \<Longrightarrow> kept_pc F p (run_ci_dxch_ins s e)"
  by (auto simp: run_ci_dxch_ins_def Let_def intro!: frame_intro split: option.splits list.splits prod.splits)

lemma frame_run_ci_push_ins [frame_intro]:
  "frame s = F \<Longrightarrow> mcp_PC e = p \<Longrightarrow> kept_pc F p (run_ci_push_ins s e)"
  by (auto simp: run_ci_push_ins_def Let_def intro!: frame_intro split: option.splits list.splits prod.splits)

lemma frame_pop_table [frame_intro]:
  "frame s = F \<Longrightarrow> mcp_PC e = p \<Longrightarrow> (\<And>t x1. frame t = F \<Longrightarrow> kept_pc F p (f t x1)) \<Longrightarrow> kept_pc F p (pop_table s e f)"
  by (auto simp: pop_table_def Let_def intro!: frame_intro split: option.splits list.splits prod.splits)

lemma frame_run_ci_fifo_ins [frame_intro]:
  "frame s = F \<Longrightarrow> mcp_PC e = p \<Longrightarrow> kept_pc F p (run_ci_fifo_ins s e)"
  by (auto simp: run_ci_fifo_ins_def Let_def intro!: frame_intro split: option.splits list.splits prod.splits)

lemma frame_run_ci_lifo_ins [frame_intro]:
  "frame s = F \<Longrightarrow> mcp_PC e = p \<Longrightarrow> kept_pc F p (run_ci_lifo_ins s e)"
  by (auto simp: run_ci_lifo_ins_def Let_def intro!: frame_intro split: option.splits list.splits prod.splits)

lemma frame_wsf [frame_intro]:
  "frame s = F \<Longrightarrow> mcp_PC e = p \<Longrightarrow> kept_pc F p (wsf a1 a2 s e)"
  by (auto simp: wsf_def Let_def intro!: frame_intro split: option.splits list.splits prod.splits)

lemma frame_run_ci_wsfr_ins [frame_intro]:
  "frame s = F \<Longrightarrow> mcp_PC e = p \<Longrightarrow> kept_pc F p (run_ci_wsfr_ins s e)"
  by (auto simp: run_ci_wsfr_ins_def Let_def intro!: frame_intro split: option.splits list.splits prod.splits)

lemma frame_run_ci_wsfl_ins [frame_intro]:
  "frame s = F \<Longrightarrow> mcp_PC e = p \<Longrightarrow> kept_pc F p (run_ci_wsfl_ins s e)"
  by (auto simp: run_ci_wsfl_ins_def Let_def intro!: frame_intro split: option.splits list.splits prod.splits)

lemma frame_wtob_loop [frame_intro]:
  "frame s = F \<Longrightarrow> kept2 F (wtob_loop s e a1 a2)"
  by (induction a2 arbitrary: s a1) (auto simp: Let_def intro!: frame_intro split: option.splits list.splits prod.splits)

lemma frame_run_ci_wtob_ins [frame_intro]:
  "frame s = F \<Longrightarrow> mcp_PC e = p \<Longrightarrow> kept_pc F p (run_ci_wtob_ins s e)"
  by (auto simp: run_ci_wtob_ins_def Let_def intro!: frame_intro split: option.splits list.splits prod.splits)

lemma frame_btow_loop [frame_intro]:
  "frame s = F \<Longrightarrow> kept2 F (btow_loop s e a1 a2)"
  by (induction a2 arbitrary: s a1) (auto simp: Let_def intro!: frame_intro split: option.splits list.splits prod.splits)

lemma frame_run_ci_btow_ins [frame_intro]:
  "frame s = F \<Longrightarrow> mcp_PC e = p \<Longrightarrow> kept_pc F p (run_ci_btow_ins s e)"
  by (auto simp: run_ci_btow_ins_def Let_def intro!: frame_intro split: option.splits list.splits prod.splits)

lemma frame_read_words [frame_intro]:
  "frame s = F \<Longrightarrow> mcp_PC e = p \<Longrightarrow> (\<And>x0. kept_pc F p (f x0)) \<Longrightarrow> kept_pc F p (read_words s e a1 a2 f)"
  by (auto simp: read_words_def Let_def intro!: frame_intro split: option.splits list.splits prod.splits)

lemma frame_write_words [frame_intro]:
  "frame s = F \<Longrightarrow> mcp_PC e = p \<Longrightarrow> kept_pc F p (write_words s e a1 a2)"
  by (auto simp: write_words_def Let_def intro!: frame_intro split: option.splits list.splits prod.splits)

lemma frame_run_ci_uni_ins [frame_intro]:
  "frame s = F \<Longrightarrow> mcp_PC e = p \<Longrightarrow> kept_pc F p (run_ci_uni_ins s e)"
  by (auto simp: run_ci_uni_ins_def Let_def intro!: frame_intro split: option.splits list.splits prod.splits)

lemma frame_run_ci_dis_ins [frame_intro]:
  "frame s = F \<Longrightarrow> mcp_PC e = p \<Longrightarrow> kept_pc F p (run_ci_dis_ins s e)"
  by (auto simp: run_ci_dis_ins_def Let_def intro!: frame_intro split: option.splits list.splits prod.splits)

lemma frame_run_ci_alt_ins [frame_intro]:
  "frame s = F \<Longrightarrow> mcp_PC e = p \<Longrightarrow> kept_pc F p (run_ci_alt_ins s e)"
  by (auto simp: run_ci_alt_ins_def Let_def intro!: frame_intro split: option.splits list.splits prod.splits)

lemma frame_three_words [frame_intro]:
  "frame s = F \<Longrightarrow> mcp_PC e = p \<Longrightarrow> kept_pc F p (three_words a1 s e)"
  by (auto simp: three_words_def Let_def intro!: frame_intro split: option.splits list.splits prod.splits)

lemma frame_run_ci_dband_ins [frame_intro]:
  "frame s = F \<Longrightarrow> mcp_PC e = p \<Longrightarrow> kept_pc F p (run_ci_dband_ins s e)"
  by (auto simp: run_ci_dband_ins_def Let_def intro!: frame_intro split: option.splits list.splits prod.splits)

lemma frame_run_ci_limit_ins [frame_intro]:
  "frame s = F \<Longrightarrow> mcp_PC e = p \<Longrightarrow> kept_pc F p (run_ci_limit_ins s e)"
  by (auto simp: run_ci_limit_ins_def Let_def intro!: frame_intro split: option.splits list.splits prod.splits)

lemma frame_run_ci_zone_ins [frame_intro]:
  "frame s = F \<Longrightarrow> mcp_PC e = p \<Longrightarrow> kept_pc F p (run_ci_zone_ins s e)"
  by (auto simp: run_ci_zone_ins_def Let_def intro!: frame_intro split: option.splits list.splits prod.splits)

lemma frame_run_ci_mean_ins [frame_intro]:
  "frame s = F \<Longrightarrow> mcp_PC e = p \<Longrightarrow> kept_pc F p (run_ci_mean_ins s e)"
  by (auto simp: run_ci_mean_ins_def Let_def intro!: frame_intro split: option.splits list.splits prod.splits)

lemma frame_run_ci_ser_ins [frame_intro]:
  "frame s = F \<Longrightarrow> mcp_PC e = p \<Longrightarrow> kept_pc F p (run_ci_ser_ins s e)"
  by (auto simp: run_ci_ser_ins_def Let_def intro!: frame_intro split: option.splits list.splits prod.splits)

lemma frame_bk_op [frame_intro]:
  "frame s = F \<Longrightarrow> mcp_PC e = p \<Longrightarrow> kept_pc F p (bk_op a1 s e)"
  by (auto simp: bk_op_def Let_def intro!: frame_intro split: option.splits list.splits prod.splits)

lemma frame_run_ci_bkadd_ins [frame_intro]:
  "frame s = F \<Longrightarrow> mcp_PC e = p \<Longrightarrow> kept_pc F p (run_ci_bkadd_ins s e)"
  by (auto simp: run_ci_bkadd_ins_def Let_def intro!: frame_intro split: option.splits list.splits prod.splits)

lemma frame_run_ci_bksub_ins [frame_intro]:
  "frame s = F \<Longrightarrow> mcp_PC e = p \<Longrightarrow> kept_pc F p (run_ci_bksub_ins s e)"
  by (auto simp: run_ci_bksub_ins_def Let_def intro!: frame_intro split: option.splits list.splits prod.splits)

lemma frame_bkcmp_loop [frame_intro]:
  "frame s = F \<Longrightarrow> kept3 F (bkcmp_loop a1 a2 s e a3 a4)"
  by (induction a4 arbitrary: s a3) (auto simp: Let_def intro!: frame_intro split: option.splits list.splits prod.splits)

lemma frame_bkcmp_end [frame_intro]: "mcp_PC e = p \<Longrightarrow> kept3 F x \<Longrightarrow> kept_pc F p (bkcmp_end e x)"
  by (auto simp: bkcmp_end_def intro!: frame_intro)

lemma frame_run_ci_bkcmp_ins [frame_intro]:
  "frame s = F \<Longrightarrow> mcp_PC e = p \<Longrightarrow> kept_pc F p (run_ci_bkcmp_ins s e)"
  by (auto simp: run_ci_bkcmp_ins_def Let_def intro!: frame_intro split: option.splits list.splits prod.splits)

lemma frame_check_count [frame_intro]:
  "frame s = F \<Longrightarrow> mcp_PC e = p \<Longrightarrow> (\<And>x0. kept_pc F p (f x0)) \<Longrightarrow> kept_pc F p (check_count s e f)"
  by (auto simp: check_count_def Let_def intro!: frame_intro split: option.splits list.splits prod.splits)

lemma frame_check_bytes [frame_intro]:
  "frame s = F \<Longrightarrow> mcp_PC e = p \<Longrightarrow> (\<And>x0. kept_pc F p (f x0)) \<Longrightarrow> kept_pc F p (check_bytes s e a1 f)"
  by (auto simp: check_bytes_def Let_def intro!: frame_intro split: option.splits list.splits prod.splits)

lemma frame_run_ci_ccitt_ins [frame_intro]:
  "frame s = F \<Longrightarrow> mcp_PC e = p \<Longrightarrow> kept_pc F p (run_ci_ccitt_ins s e)"
  by (auto simp: run_ci_ccitt_ins_def Let_def intro!: frame_intro split: option.splits list.splits prod.splits)

lemma frame_run_ci_crc16_ins [frame_intro]:
  "frame s = F \<Longrightarrow> mcp_PC e = p \<Longrightarrow> kept_pc F p (run_ci_crc16_ins s e)"
  by (auto simp: run_ci_crc16_ins_def Let_def intro!: frame_intro split: option.splits list.splits prod.splits)

lemma frame_run_ci_lrc_ins [frame_intro]:
  "frame s = F \<Longrightarrow> mcp_PC e = p \<Longrightarrow> kept_pc F p (run_ci_lrc_ins s e)"
  by (auto simp: run_ci_lrc_ins_def Let_def intro!: frame_intro split: option.splits list.splits prod.splits)

lemma frame_raise_alarm [frame_intro]:
  "frame s = F \<Longrightarrow> kept F (raise_alarm a1 s)"
  by (auto simp: raise_alarm_def Let_def intro!: frame_intro split: option.splits list.splits prod.splits)

lemma frame_run_ci_ans_ins [frame_intro]:
  "frame s = F \<Longrightarrow> kept2 F (run_ci_ans_ins s e)"
  by (auto simp: run_ci_ans_ins_def Let_def intro!: frame_intro split: option.splits list.splits prod.splits)

lemma frame_clear_alarm [frame_intro]:
  "frame s = F \<Longrightarrow> kept2 F (clear_alarm a1 s)"
  by (induction a1 arbitrary: s) (auto simp: Let_def intro!: frame_intro split: option.splits list.splits prod.splits)

lemma frame_run_ci_anr_ins [frame_intro]:
  "frame s = F \<Longrightarrow> mcp_PC e = p \<Longrightarrow> kept_pc F p (run_ci_anr_ins s e)"
  by (auto simp: run_ci_anr_ins_def Let_def intro!: frame_intro split: option.splits list.splits prod.splits)

lemma frame_trd_loop [frame_intro]:
  "frame s = F \<Longrightarrow> kept2 F (trd_loop s a1 a2)"
  by (induction a2 arbitrary: s) (auto simp: Let_def intro!: frame_intro split: option.splits list.splits prod.splits)

lemma frame_run_ci_trd_ins [frame_intro]:
  "frame s = F \<Longrightarrow> mcp_PC e = p \<Longrightarrow> kept_pc F p (run_ci_trd_ins s e)"
  by (auto simp: run_ci_trd_ins_def Let_def intro!: frame_intro split: option.splits list.splits prod.splits)

lemma frame_read_block [frame_intro]:
  "frame s = F \<Longrightarrow> mcp_PC e = p \<Longrightarrow> (\<And>x0. kept_pc F p (f x0)) \<Longrightarrow> kept_pc F p (read_block s e a1 a2 f)"
  by (auto simp: read_block_def Let_def intro!: frame_intro split: option.splits list.splits prod.splits)

lemma frame_run_ci_twr_ins [frame_intro]:
  "frame s = F \<Longrightarrow> mcp_PC e = p \<Longrightarrow> kept_pc F p (run_ci_twr_ins s e)"
  by (auto simp: run_ci_twr_ins_def Let_def intro!: frame_intro split: option.splits list.splits prod.splits)

lemma frame_time_pair [frame_intro]:
  "frame s = F \<Longrightarrow> mcp_PC e = p \<Longrightarrow> (\<And>x0 x1. kept_pc F p (f x0 x1)) \<Longrightarrow> kept_pc F p (time_pair a1 a2 s e f)"
  by (auto simp: time_pair_def Let_def intro!: frame_intro split: option.splits list.splits prod.splits)

lemma frame_zero_if [frame_intro]:
  "frame s = F \<Longrightarrow> kept F (zero_if a1 s)"
  by (auto simp: zero_if_def Let_def intro!: frame_intro split: option.splits list.splits prod.splits)

lemma frame_run_ci_tadd_ins [frame_intro]:
  "frame s = F \<Longrightarrow> mcp_PC e = p \<Longrightarrow> kept_pc F p (run_ci_tadd_ins s e)"
  by (auto simp: run_ci_tadd_ins_def Let_def intro!: frame_intro split: option.splits list.splits prod.splits)

lemma frame_run_ci_tsub_ins [frame_intro]:
  "frame s = F \<Longrightarrow> mcp_PC e = p \<Longrightarrow> kept_pc F p (run_ci_tsub_ins s e)"
  by (auto simp: run_ci_tsub_ins_def Let_def intro!: frame_intro split: option.splits list.splits prod.splits)

lemma frame_run_ci_htos_ins [frame_intro]:
  "frame s = F \<Longrightarrow> mcp_PC e = p \<Longrightarrow> kept_pc F p (run_ci_htos_ins s e)"
  by (auto simp: run_ci_htos_ins_def Let_def intro!: frame_intro split: option.splits list.splits prod.splits)

lemma frame_run_ci_stoh_ins [frame_intro]:
  "frame s = F \<Longrightarrow> mcp_PC e = p \<Longrightarrow> kept_pc F p (run_ci_stoh_ins s e)"
  by (auto simp: run_ci_stoh_ins_def Let_def intro!: frame_intro split: option.splits list.splits prod.splits)

lemma frame_put_hour [frame_intro]:
  "frame s = F \<Longrightarrow> kept F (put_hour a1 a2 s)"
  by (auto simp: put_hour_def Let_def intro!: frame_intro split: option.splits list.splits prod.splits)

lemma frame_run_ci_hour_ins [frame_intro]:
  "frame s = F \<Longrightarrow> mcp_PC e = p \<Longrightarrow> kept_pc F p (run_ci_hour_ins s e)"
  by (auto simp: run_ci_hour_ins_def Let_def intro!: frame_intro split: option.splits list.splits prod.splits)

lemma frame_store_cmp [frame_intro]:
  "frame s = F \<Longrightarrow> mcp_PC e = p \<Longrightarrow> kept_pc F p (store_cmp a1 s e a2)"
  by (auto simp: store_cmp_def Let_def intro!: frame_intro split: option.splits list.splits prod.splits)

lemma frame_run_ci_dcmp_ins [frame_intro]:
  "frame s = F \<Longrightarrow> mcp_PC e = p \<Longrightarrow> kept_pc F p (run_ci_dcmp_ins s e)"
  by (auto simp: run_ci_dcmp_ins_def Let_def intro!: frame_intro split: option.splits list.splits prod.splits)

lemma frame_run_ci_tcmp_ins [frame_intro]:
  "frame s = F \<Longrightarrow> mcp_PC e = p \<Longrightarrow> kept_pc F p (run_ci_tcmp_ins s e)"
  by (auto simp: run_ci_tcmp_ins_def Let_def intro!: frame_intro split: option.splits list.splits prod.splits)

section \<open>Flow control\<close>

lemma frame_PUT_EDGE_VALUE [frame_intro]: "frame s = F \<Longrightarrow> kept F (PUT_EDGE_VALUE s n v)"
  by (auto simp: PUT_EDGE_VALUE_def Let_def intro!: frame_intro)

lemma frame_RST_EDGE_INIT_FLAG [frame_intro]: "frame s = F \<Longrightarrow> kept F (RST_EDGE_INIT_FLAG s n)"
  by (auto simp: RST_EDGE_INIT_FLAG_def Let_def intro!: frame_intro)

lemma frame_si_write [frame_intro]: "frame s = F \<Longrightarrow> kept F (si_write s pc x v)"
  by (auto simp: si_write_def intro!: frame_intro split: option.splits)

lemma frame_put_for [frame_intro]:
  "frame s = F \<Longrightarrow> kept F (put_for s a1)"
  by (auto simp: put_for_def Let_def intro!: frame_intro split: option.splits list.splits prod.splits)

lemma frame_run_ci_for_ins [frame_intro]: "frame s = F \<Longrightarrow> kept3 F (run_ci_for_ins s e)"
  by (auto simp: run_ci_for_ins_def Let_def intro!: frame_intro split: option.splits list.splits prod.splits)

lemma frame_run_ci_next_ins [frame_intro]: "frame s = F \<Longrightarrow> kept3 F (run_ci_next_ins s e)"
  by (auto simp: run_ci_next_ins_def Let_def intro!: frame_intro split: option.splits list.splits prod.splits)

lemma frame_run_ci_continue_ins [frame_intro]:
  "frame s = F \<Longrightarrow> mcp_PC e = p \<Longrightarrow> kept_pc F p (run_ci_continue_ins s e)"
  by (auto simp: run_ci_continue_ins_def Let_def intro!: frame_intro split: option.splits list.splits prod.splits)

lemma frame_run_ci_break_ins [frame_intro]:
  "frame s = F \<Longrightarrow> mcp_PC e = p \<Longrightarrow> kept_pc F p (run_ci_break_ins s e)"
  by (auto simp: run_ci_break_ins_def Let_def intro!: frame_intro split: option.splits list.splits prod.splits)

lemma frame_run_ci_lbl_ins [frame_intro]:
  "frame s = F \<Longrightarrow> mcp_PC e = p \<Longrightarrow> kept_pc F p (run_ci_lbl_ins s e)"
  by (auto simp: run_ci_lbl_ins_def Let_def intro!: frame_intro split: option.splits list.splits prod.splits)

lemma frame_run_ci_cj_ins [frame_intro]: "frame s = F \<Longrightarrow> kept3 F (run_ci_cj_ins s e)"
  by (auto simp: run_ci_cj_ins_def Let_def intro!: frame_intro split: option.splits list.splits prod.splits)

lemma frame_run_ci_fend_ins [frame_intro]:
  "frame s = F \<Longrightarrow> mcp_PC e = p \<Longrightarrow> kept_pc F p (run_ci_fend_ins s e)"
  by (auto simp: run_ci_fend_ins_def Let_def intro!: frame_intro split: option.splits list.splits prod.splits)

lemma frame_run_ci_cfend_ins [frame_intro]:
  "frame s = F \<Longrightarrow> mcp_PC e = p \<Longrightarrow> kept_pc F p (run_ci_cfend_ins s e)"
  by (auto simp: run_ci_cfend_ins_def Let_def intro!: frame_intro split: option.splits list.splits prod.splits)

lemma frame_run_ci_wdt_ins [frame_intro]:
  "frame s = F \<Longrightarrow> mcp_PC e = p \<Longrightarrow> kept_pc F p (run_ci_wdt_ins s e)"
  by (auto simp: run_ci_wdt_ins_def Let_def intro!: frame_intro split: option.splits list.splits prod.splits)

lemma frame_run_ci_ei_ins [frame_intro]:
  "frame s = F \<Longrightarrow> mcp_PC e = p \<Longrightarrow> kept_pc F p (run_ci_ei_ins s e)"
  by (auto simp: run_ci_ei_ins_def Let_def intro!: frame_intro split: option.splits list.splits prod.splits)

lemma frame_run_ci_di_ins [frame_intro]:
  "frame s = F \<Longrightarrow> mcp_PC e = p \<Longrightarrow> kept_pc F p (run_ci_di_ins s e)"
  by (auto simp: run_ci_di_ins_def Let_def intro!: frame_intro split: option.splits list.splits prod.splits)

lemma frame_run_ci_iret_ins [frame_intro]:
  "frame s = F \<Longrightarrow> mcp_PC e = p \<Longrightarrow> kept_pc F p (run_ci_iret_ins s e)"
  by (auto simp: run_ci_iret_ins_def Let_def intro!: frame_intro split: option.splits list.splits prod.splits)

lemma frame_run_ci_ciret_ins [frame_intro]:
  "frame s = F \<Longrightarrow> mcp_PC e = p \<Longrightarrow> kept_pc F p (run_ci_ciret_ins s e)"
  by (auto simp: run_ci_ciret_ins_def Let_def intro!: frame_intro split: option.splits list.splits prod.splits)

lemma frame_run_ci_stop_ins [frame_intro]:
  "frame s = F \<Longrightarrow> mcp_PC e = p \<Longrightarrow> kept_pc F p (run_ci_stop_ins s e)"
  by (auto simp: run_ci_stop_ins_def Let_def intro!: frame_intro split: option.splits list.splits prod.splits)

lemma frame_run_ci_csret_ins [frame_intro]: "frame s = F \<Longrightarrow> kept3 F (run_ci_csret_ins s e)"
  by (auto simp: run_ci_csret_ins_def Let_def intro!: frame_intro split: option.splits list.splits prod.splits)

lemma frame_run_ci_sret_ins [frame_intro]:
  "frame s = F \<Longrightarrow> mcp_PC e = p \<Longrightarrow> kept_pc F p (run_ci_sret_ins s e)"
  by (auto simp: run_ci_sret_ins_def Let_def intro!: frame_intro split: option.splits list.splits prod.splits)

lemma frame_run_ci_sbr_ins [frame_intro]:
  "frame s = F \<Longrightarrow> mcp_PC e = p \<Longrightarrow> kept_pc F p (run_ci_sbr_ins s e)"
  by (auto simp: run_ci_sbr_ins_def Let_def intro!: frame_intro split: option.splits list.splits prod.splits)

lemma frame_rst_edge [frame_intro]:
  "frame s = F \<Longrightarrow> kept F (rst_edge s a1)"
  by (auto simp: rst_edge_def Let_def intro!: frame_intro split: option.splits list.splits prod.splits)

lemma frame_clean_simple [frame_intro]:
  "frame s = F \<Longrightarrow> kept F (clean_simple a1 s a2)"
  by (auto simp: clean_simple_def intro!: frame_intro split: option.splits si_op.splits)

lemma frame_clean_simples [frame_intro]: "frame s = F \<Longrightarrow> kept F (clean_simples b s pcs)"
  by (induction pcs arbitrary: s) (auto intro!: frame_intro)

lemma frame_set_exec [frame_intro]:
  "frame s = F \<Longrightarrow> kept F (set_exec a1 a2 s)"
  by (auto simp: set_exec_def Let_def intro!: frame_intro split: option.splits list.splits prod.splits)

lemma frame_clean_call [frame_intro]: "frame s = F \<Longrightarrow> (\<And>F s i. frame s = F \<Longrightarrow> kept2 F (sbr s i)) \<Longrightarrow> kept2 F (clean_call sbr s pc)"
  by (auto simp: clean_call_def intro!: frame_intro split: sum.splits)

lemma frame_clean_complex [frame_intro]: "frame s = F \<Longrightarrow> (\<And>F s i. frame s = F \<Longrightarrow> kept2 F (sbr s i)) \<Longrightarrow> kept2 F (clean_complex sbr s pc)"
  by (auto simp: clean_complex_def intro!: frame_intro kept_pc_kept3 [OF frame_run_ci_bout_ins] split: sum.splits)

lemma frame_clean_complexes [frame_intro]: "frame s = F \<Longrightarrow> (\<And>F s i. frame s = F \<Longrightarrow> kept2 F (sbr s i)) \<Longrightarrow> kept2 F (clean_complexes sbr s pcs)"
  by (induction pcs arbitrary: s) (auto intro!: frame_intro)

lemma frame_call_clean_body [frame_intro]: "frame s = F \<Longrightarrow> (\<And>F s i. frame s = F \<Longrightarrow> kept2 F (sbr s i)) \<Longrightarrow> kept2 F (call_clean_body sbr s i)"
  by (auto simp: call_clean_body_def intro!: frame_intro)

lemma frame_call_clean [frame_intro]: "frame s = F \<Longrightarrow> kept2 F (call_clean d s i)"
  by (induction d arbitrary: s i F) (auto intro!: frame_intro)

lemma frame_plc_call_ins_clean_element [frame_intro]: "frame s = F \<Longrightarrow> kept2 F (plc_call_ins_clean_element s i)"
  by (auto simp: plc_call_ins_clean_element_def intro!: frame_intro)

lemma frame_plc_mc_ins_clean_element [frame_intro]:
  "frame s = F \<Longrightarrow> kept2 F (plc_mc_ins_clean_element s e)"
  by (auto simp: plc_mc_ins_clean_element_def Let_def intro!: frame_intro split: option.splits list.splits prod.splits)

lemma frame_run_ci_mc_ins [frame_intro]: "frame s = F \<Longrightarrow> kept3 F (run_ci_mc_ins s e)"
  by (auto simp: run_ci_mc_ins_def Let_def intro!: frame_intro split: option.splits list.splits prod.splits)

lemma frame_run_ci_mcr_ins [frame_intro]: "frame s = F \<Longrightarrow> kept3 F (run_ci_mcr_ins s e)"
  by (auto simp: run_ci_mcr_ins_def Let_def intro!: frame_intro split: option.splits list.splits prod.splits)

lemma frame_put_stl [frame_intro]:
  "frame s = F \<Longrightarrow> kept F (put_stl a1 a2 a3 s)"
  by (auto simp: put_stl_def Let_def intro!: frame_intro split: option.splits list.splits prod.splits)

lemma frame_stl_series [frame_intro]:
  "frame s = F \<Longrightarrow> kept F (stl_series s a1 a2 a3)"
  by (induction a3 arbitrary: s a1 a2) (auto simp: Let_def intro!: frame_intro split: option.splits list.splits prod.splits)

lemma frame_plc_stl_bus_meet_analyse [frame_intro]:
  "frame s = F \<Longrightarrow> kept2 F (plc_stl_bus_meet_analyse s e)"
  by (auto simp: plc_stl_bus_meet_analyse_def Let_def intro!: frame_intro split: option.splits list.splits prod.splits)

lemma frame_plc_stl_ins_clean_element [frame_intro]:
  "frame s = F \<Longrightarrow> kept2 F (plc_stl_ins_clean_element s a1)"
  by (auto simp: plc_stl_ins_clean_element_def Let_def intro!: frame_intro split: option.splits list.splits prod.splits)

lemma frame_run_ci_stl_ins [frame_intro]: "frame s = F \<Longrightarrow> kept3 F (run_ci_stl_ins s e)"
  by (auto simp: run_ci_stl_ins_def Let_def intro!: frame_intro split: option.splits list.splits prod.splits)

lemma frame_rst_steps [frame_intro]:
  "frame s = F \<Longrightarrow> kept F (rst_steps s a1 a2)"
  by (induction a2 arbitrary: s a1) (auto simp: Let_def intro!: frame_intro split: option.splits list.splits prod.splits)

lemma frame_leave_steps [frame_intro]:
  "frame s = F \<Longrightarrow> kept F (leave_steps s)"
  by (auto simp: leave_steps_def Let_def intro!: frame_intro split: option.splits list.splits prod.splits)

lemma frame_run_ci_set_s_ins [frame_intro]:
  "frame s = F \<Longrightarrow> mcp_PC e = p \<Longrightarrow> kept_pc F p (run_ci_set_s_ins s e)"
  by (auto simp: run_ci_set_s_ins_def Let_def intro!: frame_intro split: option.splits list.splits prod.splits)

lemma frame_run_ci_out_s_ins [frame_intro]:
  "frame s = F \<Longrightarrow> mcp_PC e = p \<Longrightarrow> kept_pc F p (run_ci_out_s_ins s e)"
  by (auto simp: run_ci_out_s_ins_def Let_def intro!: frame_intro split: option.splits list.splits prod.splits)

lemma frame_run_ci_rst_s_ins [frame_intro]:
  "frame s = F \<Longrightarrow> mcp_PC e = p \<Longrightarrow> kept_pc F p (run_ci_rst_s_ins s e)"
  by (auto simp: run_ci_rst_s_ins_def Let_def intro!: frame_intro split: option.splits list.splits prod.splits)

lemma frame_run_ci_ret_ins [frame_intro]:
  "frame s = F \<Longrightarrow> mcp_PC e = p \<Longrightarrow> kept_pc F p (run_ci_ret_ins s e)"
  by (auto simp: run_ci_ret_ins_def Let_def intro!: frame_intro split: option.splits list.splits prod.splits)

lemma frame_clear_params [frame_intro]: "frame s = F \<Longrightarrow> kept F (clear_params s i n)"
  by (induction n arbitrary: s i) (auto intro!: frame_intro)

lemma frame_put_v_pair [frame_intro]:
  "frame s = F \<Longrightarrow> kept F (put_v_pair s a1 a2)"
  by (auto simp: put_v_pair_def Let_def intro!: frame_intro split: option.splits list.splits prod.splits)

lemma frame_put_read [frame_intro]: "frame s = F \<Longrightarrow> (\<And>v. kept F (f v)) \<Longrightarrow> kept F (put_read f s vs)"
  by (simp add: put_read_def split: list.split)

lemma frame_in_param [frame_intro]:
  "frame s = F \<Longrightarrow> kept3 F (in_param s a1)"
  by (auto simp: in_param_def intro!: frame_intro bind_any [where x = "lcv_Temp a1"])

lemma frame_in_params [frame_intro]: "frame s = F \<Longrightarrow> kept3 F (in_params a c s p out)"
proof (induction a c s p out rule: in_params.induct)
  case (1 a c s p out)
  note IH = "1.IH" and F = "1.prems"
  show ?case
  proof (cases "in_param s p")
    case None
    then show ?thesis
      using F by (subst in_params.simps) simp
  next
    case (Some x)
    obtain r s' p' where x: "in_param s p = Some (r, s', p')"
      using Some by (cases x) auto
    have "kept3 F (in_param s p)"
      by (rule frame_in_param [OF F])
    then have F': "frame s' = F"
      using x by simp
    show ?thesis
      using F F' IH [OF _ x refl refl refl _ F'] by (subst in_params.simps) (simp add: x Let_def)
  qed
qed

lemma frame_plc_call_ins_in_parameter_parse [frame_intro]: "frame s = F \<Longrightarrow> kept3 F (plc_call_ins_in_parameter_parse s pc)"
  by (auto simp: plc_call_ins_in_parameter_parse_def intro!: frame_intro)

lemma frame_out_param [frame_intro]:
  "frame s = F \<Longrightarrow> kept3 F (out_param s a1)"
  by (auto simp: out_param_def Let_def intro!: frame_intro split: option.splits list.splits prod.splits)

lemma frame_out_params [frame_intro]: "frame s = F \<Longrightarrow> kept2 F (out_params c s p)"
proof (induction c s p rule: out_params.induct)
  case (1 c s p)
  note IH = "1.IH" and F = "1.prems"
  show ?case
  proof (cases "out_param s p")
    case None
    then show ?thesis
      using F by (subst out_params.simps) simp
  next
    case (Some x)
    obtain r s' p' where x: "out_param s p = Some (r, s', p')"
      using Some by (cases x) auto
    have "kept3 F (out_param s p)"
      by (rule frame_out_param [OF F])
    then have F': "frame s' = F"
      using x by simp
    show ?thesis
      using F F' IH [OF _ x refl refl _ F'] by (subst out_params.simps) (simp add: x)
  qed
qed

lemma frame_plc_call_ins_out_parameter_parse [frame_intro]: "frame s = F \<Longrightarrow> kept2 F (plc_call_ins_out_parameter_parse s b w pc)"
  by (auto simp: plc_call_ins_out_parameter_parse_def intro!: frame_intro)

lemma frame_call_flow [frame_intro]: "frame s = F \<Longrightarrow> (\<And>F s pc. frame s = F \<Longrightarrow> kept2 F (run s pc)) \<Longrightarrow> kept3 F (call_flow run s e i n x)"
  by (auto simp: call_flow_def Let_def intro!: frame_intro bind_any [where x = "p :: nat option" for p] split: option.splits)

lemma frame_run_ci_call_ins [frame_intro]: "frame s = F \<Longrightarrow> (\<And>F s pc. frame s = F \<Longrightarrow> kept2 F (run s pc)) \<Longrightarrow> kept3 F (run_ci_call_ins run s e)"
  by (auto simp: run_ci_call_ins_def Let_def intro!: frame_intro split: sum.splits)

section \<open>Simple instructions\<close>

lemma frame_save_char_in_simpleIns [frame_intro]: "frame s = F \<Longrightarrow> kept2 F (save_char_in_simpleIns s a v)"
  by (auto simp: save_char_in_simpleIns_def intro!: frame_intro split: option.splits)

lemma frame_edges [frame_intro]:
  "frame s = F \<Longrightarrow> kept1 F (run_eu_ins s e)" "frame s = F \<Longrightarrow> kept1 F (run_ed_ins s e)"
  "frame s = F \<Longrightarrow> kept1 F (run_eu_p_ins s e c)" "frame s = F \<Longrightarrow> kept1 F (run_ed_f_ins s e c)"
  by (auto simp: run_eu_ins_def run_ed_ins_def run_eu_p_ins_def run_ed_f_ins_def Let_def intro!: frame_intro)

lemma frame_si_edge [frame_intro]:
  "frame s = F \<Longrightarrow> (\<And>F s e. frame s = F \<Longrightarrow> kept1 F (run s e)) \<Longrightarrow> kept1 F (si_edge s e run)"
  "frame s = F \<Longrightarrow> (\<And>F s e. frame s = F \<Longrightarrow> kept1 F (run s e)) \<Longrightarrow> kept1 F (si_pulse s e run)"
  by (auto simp: si_edge_def si_pulse_def intro!: frame_intro)

lemma frame_exec_si [frame_intro]: "frame s = F \<Longrightarrow> kept1 F (exec_si i s e cv)"
  by (cases i) (auto simp: si_out_def si_set_rst_def si_edge_elem_def
      intro!: frame_intro bind_any [where x = "x :: si_env option" for x] bind_any [where x = "x :: u8 option option" for x]
        bind_any [where x = "x :: u8 option" for x])

lemma frame_exec_simple_loop [frame_intro]: "frame s = F \<Longrightarrow> kept3 F (exec_simple_loop s e cv)"
proof (induction s e cv rule: exec_simple_loop.induct)
  case (1 s e cv)
  have "kept3 F (exec_simple_loop s' e' cv')"
    if "GET_PU16_DATA (ucode s) (mcp_PC e) = Some w" "w < 0xE000" "GET_PU8_DATA (ucode s) (mcp_PC e + 1) = Some c" "decode_si c = Some i"
      and x: "exec_si i (s\<lparr>gcp_BackupUserPc := mcp_PC e\<rparr>) e cv = Some (s', e', cv')" for w c i s' e' cv'
  proof (rule "1.IH" [OF that(1-4) x refl refl])
    show "frame s' = F"
      using frame_exec_si [of "s\<lparr>gcp_BackupUserPc := mcp_PC e\<rparr>" F i e cv] "1.prems" x by simp
  qed
  then show ?case
    using "1.prems" by (subst exec_simple_loop.simps) (auto intro!: bind_eq split: option.splits)
qed

lemma frame_plc_exec_simple_instruction [frame_intro]: "frame s = F \<Longrightarrow> kept3 F (plc_exec_simple_instruction s e)"
  by (auto simp: plc_exec_simple_instruction_def intro!: frame_intro)

end
