(* ===== verification/PLC_Compiler.thy ===== *)
theory PLC_Compiler
  imports PLC_FlowCtrl
begin

text \<open>
  The compiler of user programs, \<open>source/plc/executer/src/plc_compiler.c\<close>: one pass over the code that checks the
  codes and the length of every instruction, records where subroutines, interrupts and calls are, and collects for
  every subroutine, step and master-control block the instructions that have to be reset when it is left.  The
  pointers into the lists that the pass extends are indices; the entries of a linked list are a list.
\<close>

section \<open>Lengths\<close>

text \<open>The simple instructions of two, four and six bytes, in the order of the cases.\<close>

definition si_len2 :: "u8 list" where
  "si_len2 =
     [0x10, 0x11, 0x12, 0x13, 0x14, 0x15, 0x16, 0x17, 0x20, 0x21, 0x22, 0x23, 0x24, 0x25, 0x26, 0x27, 0x30, 0x31,
      0x32, 0x33, 0x34, 0x35, 0x36, 0x37, 0x40, 0x41, 0x42, 0x43, 0x44, 0x45, 0x46, 0x47, 0x50, 0x51, 0x52, 0x53,
      0x54, 0x55, 0x56, 0x57, 0x60, 0x61, 0x62, 0x63, 0x64, 0x65, 0x66, 0x67, 0x71, 0x74, 0x75, 0x77, 0x81, 0x84,
      0x85, 0x87, 0x91, 0x94, 0x95, 0x97, 0xA0, 0xA1, 0xA2, 0xA3, 0xA4, 0xA5, 0xA6]"

definition si_len4 :: "u8 list" where
  "si_len4 =
     [0x18, 0x19, 0x1A, 0x1B, 0x1C, 0x1D, 0x1E, 0x28, 0x29, 0x2A, 0x2B, 0x2C, 0x2D, 0x2E, 0x38, 0x39, 0x3A, 0x3B,
      0x3C, 0x3D, 0x3E, 0x48, 0x49, 0x4A, 0x4B, 0x4C, 0x4D, 0x4E, 0x58, 0x59, 0x5A, 0x5B, 0x5C, 0x5D, 0x5E, 0x68,
      0x69, 0x6A, 0x6B, 0x6C, 0x6D, 0x6E, 0x79, 0x7C, 0x7D, 0x89, 0x8C, 0x8D, 0x99, 0x9C, 0x9D, 0xA7, 0xA8]"

definition si_len6 :: "u8 list" where
  "si_len6 = [0xB0, 0xB1, 0xB2, 0xB3, 0xB4, 0xB5, 0xB6, 0xB7]"

definition plc_move_ucode_ptr_from_simple_ins :: "plc_state \<Rightarrow> nat \<Rightarrow> (plc_ret \<times> nat) option" where
  "plc_move_ucode_ptr_from_simple_ins s p =
     do { c \<leftarrow> GET_PU8_DATA (ucode s) (p + 1);
          if c \<in> set si_len2 then Some (pdPASS, p + 2)
          else if c \<in> set si_len4 then Some (pdPASS, p + 4)
          else if c \<in> set si_len6 then Some (pdPASS, p + 6)
          else Some (ERR_COMPILER, p) }"

text \<open>The complex instructions of fixed length that need no other treatment.\<close>

definition ci_len_1 :: "(u16 \<times> nat) list" where
  "ci_len_1 =
     [(CI_FEND, 2), (CI_CFEND, 2), (CI_CJ, 10), (CI_LBL, 6), (CI_FOR, 10), (CI_NEXT, 2), (CI_TON, 10), (CI_TOF, 10),
      (CI_TONR, 10), (CI_RST_T, 6), (CI_RST_C, 6), (CI_CTU, 10), (CI_CTR, 10), (CI_DCNT, 14), (CI_IRET, 2),
      (CI_CIRET, 2), (CI_LD_LM, 6), (CI_LDI_LM, 6), (CI_AND_LM, 6), (CI_ANI_LM, 6), (CI_OR_LM, 6), (CI_ORI_LM, 6),
      (CI_SET_LM, 6), (CI_RST_LM, 6), (CI_OUT_LM, 6), (CI_RST_S, 6), (CI_SET_S, 6), (CI_OUT_S, 6), (CI_STOP, 2),
      (CI_WDT, 2), (CI_BITS, 10), (CI_DBITS, 12), (CI_BON, 14), (CI_ZRST, 10), (CI_ZSET, 10), (CI_ENCO, 10),
      (CI_DECO, 10), (CI_EI, 2), (CI_DI, 2), (CI_MOV, 10), (CI_DMOV, 14), (CI_RMOV, 14), (CI_BMOV, 14),
      (CI_FMOV, 14), (CI_DFMOV, 18), (CI_SWAP, 6), (CI_SWAPWORD, 18), (CI_ECATSDORD, 36), (CI_ECATSDOWR, 36)]"

definition ci_len_2 :: "(u16 \<times> nat) list" where
  "ci_len_2 =
     [(CI_XCH, 10), (CI_DXCH, 14), (CI_WSFR, 18), (CI_WSFL, 18), (CI_PUSH, 14), (CI_FIFO, 14), (CI_LIFO, 14),
      (CI_ADD, 14), (CI_SUB, 14), (CI_MUL, 16), (CI_DIV, 14), (CI_SQT, 10), (CI_INC, 6), (CI_DEC, 6), (CI_VABS, 10),
      (CI_NEG, 10), (CI_DADD, 20), (CI_DSUB, 20), (CI_DMUL, 20), (CI_DDIV, 20), (CI_DSQT, 14), (CI_DINC, 8),
      (CI_DDEC, 8), (CI_DVABS, 14), (CI_DNEG, 14), (CI_RADD, 20), (CI_RSUB, 20), (CI_RMUL, 20), (CI_RDIV, 20),
      (CI_RSQT, 14), (CI_RNEG, 14), (CI_POWER, 20), (CI_RVABS, 14), (CI_SIN, 14), (CI_COS, 14), (CI_TAN, 14),
      (CI_ASIN, 14), (CI_ACOS, 14), (CI_ATAN, 14), (CI_LN, 14), (CI_EXP, 14), (CI_LOG, 14), (CI_RAD, 14),
      (CI_DEG, 14), (CI_WAND, 14), (CI_WOR, 14), (CI_WXOR, 14), (CI_WINV, 10), (CI_DWAND, 20), (CI_DWOR, 20)]"

definition ci_len_3 :: "(u16 \<times> nat) list" where
  "ci_len_3 =
     [(CI_DWXOR, 20), (CI_DWINV, 14), (CI_ROR, 14), (CI_ROL, 14), (CI_RCR, 14), (CI_RCL, 14), (CI_DROR, 18),
      (CI_DROL, 18), (CI_DRCR, 18), (CI_DRCL, 18), (CI_SHR, 14), (CI_SHL, 14), (CI_DSHR, 18), (CI_DSHL, 18),
      (CI_SFTR, 18), (CI_SFTL, 18), (CI_XMT, 14), (CI_RCV, 14), (CI_MODBUS, 16), (CI_MODRW, 28), (CI_MODLINK, 20),
      (CI_MBCCONN, 28), (CI_TCP_CONN, 32), (CI_TCP_XMT, 24), (CI_TCP_RCV, 24), (CI_TCP_PING, 20),
      (CI_MODTCPLINK, 28), (CI_S7TCPLINK, 28), (CI_EVFWD, 12), (CI_EVREV, 12), (CI_EVDFWD, 12), (CI_EVDREV, 12),
      (CI_EVSTOP, 16), (CI_EVFRQ, 16), (CI_EVWRT, 20), (CI_EVRDST, 20), (CI_EVRD, 20), (CI_CANXMT, 26),
      (CI_CANRCV, 26), (CI_CANMXMT, 20), (CI_LDE, 10), (CI_LDG, 10), (CI_LDL, 10), (CI_LDNE, 10), (CI_LDLE, 10),
      (CI_LDGE, 10), (CI_ANDG, 10), (CI_ANDL, 10), (CI_ANDNE, 10)]"

definition ci_len_4 :: "(u16 \<times> nat) list" where
  "ci_len_4 =
     [(CI_ANDLE, 10), (CI_ANDE, 10), (CI_ANDGE, 10), (CI_ORE, 10), (CI_ORL, 10), (CI_ORG, 10), (CI_ORNE, 10),
      (CI_ORLE, 10), (CI_ORGE, 10), (CI_LDDE, 14), (CI_LDDG, 14), (CI_LDDL, 14), (CI_LDDNE, 14), (CI_LDDLE, 14),
      (CI_LDDGE, 14), (CI_ANDDE, 14), (CI_ANDDG, 14), (CI_ANDDL, 14), (CI_ANDDNE, 14), (CI_ANDDLE, 14),
      (CI_ANDDGE, 14), (CI_ORDE, 14), (CI_ORDG, 14), (CI_ORDL, 14), (CI_ORDNE, 14), (CI_ORDLE, 14), (CI_ORDGE, 14),
      (CI_LDRE, 14), (CI_LDRG, 14), (CI_LDRL, 14), (CI_LDRNE, 14), (CI_LDRLE, 14), (CI_LDRGE, 14), (CI_ANDRE, 14),
      (CI_ANDRG, 14), (CI_ANDRL, 14), (CI_ANDRNE, 14), (CI_ANDRLE, 14), (CI_ANDRGE, 14), (CI_ORRE, 14),
      (CI_ORRG, 14), (CI_ORRL, 14), (CI_ORRNE, 14), (CI_ORRLE, 14), (CI_ORRGE, 14), (CI_BCD, 10), (CI_DBCD, 14),
      (CI_BIN, 10), (CI_DBIN, 14), (CI_GRY, 10)]"

definition ci_len_5 :: "(u16 \<times> nat) list" where
  "ci_len_5 =
     [(CI_DGRY, 14), (CI_GBIN, 10), (CI_DGBIN, 14), (CI_FLT, 12), (CI_DFLT, 14), (CI_INT, 12), (CI_DINT, 14),
      (CI_SEG, 10), (CI_BLD, 10), (CI_BLDI, 10), (CI_BAND, 10), (CI_BANDI, 10), (CI_BOR, 10), (CI_BORI, 10),
      (CI_BSET, 10), (CI_BRST, 10), (CI_BOUT, 10), (CI_ITD, 12), (CI_DTI, 12), (CI_PID, 18), (CI_SUM, 16),
      (CI_DSUM, 18), (CI_RSUM, 18), (CI_DCMPE, 14), (CI_DCMPG, 14), (CI_DCMPL, 14), (CI_DCMPNE, 14), (CI_DCMPLE, 14),
      (CI_DCMPGE, 14), (CI_TCMPE, 14), (CI_TCMPG, 14), (CI_TCMPL, 14), (CI_TCMPNE, 14), (CI_TCMPLE, 14),
      (CI_TCMPGE, 14), (CI_RAMP, 24), (CI_HACKLE, 24), (CI_TRIANGLE, 24), (CI_TMON, 12), (CI_CCITT, 14),
      (CI_CRC16, 14), (CI_LRC, 14), (CI_FROM, 18), (CI_TO, 18), (CI_DFROM, 20), (CI_DTO, 20), (CI_EROMWR, 12),
      (CI_REF, 10), (CI_REFF, 6), (CI_TADD, 14)]"

definition ci_len_6 :: "(u16 \<times> nat) list" where
  "ci_len_6 =
     [(CI_TSUB, 14), (CI_TRD, 6), (CI_TWR, 6), (CI_DHSCS, 20), (CI_DHSPI, 20), (CI_DHSCI, 20), (CI_DHSCR, 20),
      (CI_DHSZ, 26), (CI_DHST, 20), (CI_DHSP, 20), (CI_PLSY, 18), (CI_PLSR, 20), (CI_PWM, 14), (CI_SPD, 14),
      (CI_HCNT, 14), (CI_VRRD, 10), (CI_HOUR, 16), (CI_ATI, 14), (CI_ITA, 14), (CI_LCNV, 18), (CI_RLCNV, 24),
      (CI_ASC, 38), (CI_ABS, 16), (CI_ZRN, 24), (CI_PLSV, 16), (CI_DRVI, 24), (CI_DRVC, 20), (CI_DRVA, 24),
      (CI_PLS, 14), (CI_PLSB, 24), (CI_TKY, 14), (CI_PR, 10), (CI_LD_DX_Y, 8), (CI_LDI_DX_Y, 8), (CI_AND_DX_Y, 8),
      (CI_ANI_DX_Y, 8), (CI_OR_DX_Y, 8), (CI_ORI_DX_Y, 8), (CI_SET_DX_Y, 8), (CI_RST_DX_Y, 8), (CI_OUT_DX_Y, 8),
      (CI_MEAN, 14), (CI_WTOB, 14), (CI_BTOW, 14), (CI_DIS, 14), (CI_UNI, 14), (CI_ANS, 14), (CI_ANR, 2),
      (CI_BKADD, 18)]"

definition ci_len_7 :: "(u16 \<times> nat) list" where
  "ci_len_7 =
     [(CI_BKSUB, 18), (CI_BKCMPDE, 18), (CI_BKCMPDG, 18), (CI_BKCMPDL, 18), (CI_BKCMPDNE, 18), (CI_BKCMPDLE, 18),
      (CI_BKCMPDGE, 18), (CI_RND, 6), (CI_DUTY, 14), (CI_HTOS, 10), (CI_STOH, 10), (CI_LIMIT, 18), (CI_DBAND, 18),
      (CI_ZONE, 18), (CI_SCL, 14), (CI_SER, 18), (CI_STRLEN, 10), (CI_STRRIGHT, 14), (CI_STRLEFT, 14),
      (CI_STRMIDR, 14), (CI_STRMIDW, 14), (CI_CMP, 14), (CI_LCMP, 18), (CI_RCMP, 18), (CI_ALT, 6), (CI_ABSD, 18),
      (CI_DABSD, 22), (CI_LOADR, 10), (CI_SAVER, 14), (CI_INITR, 10), (CI_LOGR, 22), (CI_INITER, 10), (CI_LIN, 24),
      (CI_CW, 24), (CI_CCW, 24), (CI_DRV, 26), (CI_DSZR, 18), (CI_MOVELINK, 34), (CI_STOPDV, 24), (CI_GEARBOX, 18),
      (CI_CAMBOX, 22), (CI_CAMTABLE, 22)]"

definition ci_lens :: "(u16 \<times> nat) list" where
  "ci_lens = ci_len_1 @ ci_len_2 @ ci_len_3 @ ci_len_4 @ ci_len_5 @ ci_len_6 @ ci_len_7"

section \<open>The state of the pass\<close>

datatype compiler_flag = COMPILER_NORMAL_INS | COMPILER_STL_INS | COMPILER_MC_MCR_INS | COMPILER_SUB_INS

definition MAX_MC_MCR_BLOCK_NUMBER :: nat where
  "MAX_MC_MCR_BLOCK_NUMBER = 8"

text \<open>The static variables.  \<open>stap_McListPtr\<close> gives for every open master-control block its place in the list of
  blocks, \<open>None\<close> being the null pointer; \<open>free_blocks\<close> is the number of allocations for which the heap still has room.\<close>

record compiler_st =
  scv_CompilerInsFlag :: compiler_flag
  stp_StlListPtr :: "nat option"
  stp_SbrListPtr :: "nat option"
  stap_McListPtr :: "nat option list"
  free_blocks :: nat

type_synonym comp_res = "(plc_ret \<times> compiler_st \<times> plc_state \<times> nat) option"

section \<open>Special instructions\<close>

text \<open>The literal of a string instruction: its type and its length are taken from the bytes \<open>t\<close> and \<open>l\<close>.\<close>

definition lit_len :: "plc_state \<Rightarrow> nat \<Rightarrow> nat \<Rightarrow> nat \<Rightarrow> nat \<Rightarrow> nat option" where
  "lit_len s t l m n =
     do { a \<leftarrow> GET_PU8_DATA (ucode s) t;
          if a = 0x82 then do { b \<leftarrow> GET_PU8_DATA (ucode s) l; Some (unat b + m) } else Some n }"

definition comp_stradd :: "plc_state \<Rightarrow> nat \<Rightarrow> nat option" where
  "comp_stradd s p =
     do { k \<leftarrow> lit_len s (p + 2) (p + 3) 4 6; m \<leftarrow> lit_len s (p + k) (p + k + 1) 6 8; Some (p + k + m) }"

definition comp_call :: "plc_state \<Rightarrow> nat \<Rightarrow> (plc_state \<times> nat) option" where
  "comp_call s p =
     (let c = gtp_CallInsInfoPtr s in
      do { as \<leftarrow> wr (mlv_UCodeAddr c) (unat (msv_UseNum c)) p;
           n \<leftarrow> plc_call_instruction_length s p;
           Some (s\<lparr>gtp_CallInsInfoPtr := c\<lparr>mlv_UCodeAddr := as, msv_UseNum := msv_UseNum c + 1\<rparr>\<rparr>, p + unat n) })"

definition empty_head :: plc_ins_list_head_st where
  "empty_head = \<lparr>mtv_SimpInsHead = [], mtv_CompInsHead = []\<rparr>"

definition sbr_number :: "u16 \<Rightarrow> u16 option" where
  "sbr_number w =
     (if 0x100 \<le> w \<and> w \<le> 0x1FF \<or> 0x400 \<le> w \<and> w \<le> 0x4FF then Some (w AND 0xFF) else None)"

definition comp_sbr :: "compiler_st \<Rightarrow> plc_state \<Rightarrow> nat \<Rightarrow> comp_res" where
  "comp_sbr c s p =
     do { w \<leftarrow> GET_PU16_DATA (ucode s) (p + 2);
          case sbr_number w of
            None \<Rightarrow> Some (ERR_USER_PROGRAM, c, s, p)
          | Some n \<Rightarrow> do {
              pcs \<leftarrow> wr (mcp_SbrPc (gtp_CallInsInfoPtr s)) (unat n) (Some p);
              hs \<leftarrow> wr (gtp_SbrListPtr s) (unat n) empty_head;
              Some (pdPASS, c\<lparr>scv_CompilerInsFlag := COMPILER_SUB_INS, stp_SbrListPtr := Some (unat n)\<rparr>,
                s\<lparr>gtp_CallInsInfoPtr := (gtp_CallInsInfoPtr s)\<lparr>mcp_SbrPc := pcs\<rparr>, gtp_SbrListPtr := hs\<rparr>, p + 4) } }"

definition comp_intr :: "compiler_st \<Rightarrow> plc_state \<Rightarrow> nat \<Rightarrow> comp_res" where
  "comp_intr c s p =
     do { w \<leftarrow> GET_PU16_DATA (ucode s) (p + 2);
          if \<not> (0x200 \<le> w \<and> w \<le> 0x2FF) then Some (ERR_USER_PROGRAM, c, s, p)
          else let n = unat (w AND 0xFF); i = gtp_InterruptInfo s in
            do { x \<leftarrow> rd (mtv_IntSource i) n;
                 xs \<leftarrow> wr (mtv_IntSource i) n (x\<lparr>mcp_IntPara := Some p, mcv_IntFlag := mcv_IntFlag x OR 0x02\<rparr>);
                 Some (pdPASS, c, s\<lparr>gtp_InterruptInfo := i\<lparr>mtv_IntSource := xs\<rparr>\<rparr>, p + 4) } }"

definition comp_mc :: "compiler_st \<Rightarrow> plc_state \<Rightarrow> nat \<Rightarrow> comp_res" where
  "comp_mc c s p =
     (let m = gtv_McMcrBlockInfo s; c1 = c\<lparr>scv_CompilerInsFlag := COMPILER_MC_MCR_INS\<rparr> in
      do { ps \<leftarrow> wr (stap_McListPtr c1) (unat (mcv_NestedLevel m)) (if free_blocks c1 = 0 then None else Some (length (mtv_McMcrHead m)));
           if free_blocks c1 = 0 then Some (ERR_NO_FREE_MEMORY, c1\<lparr>stap_McListPtr := ps\<rparr>, s, p)
           else Some (pdPASS, c1\<lparr>stap_McListPtr := ps, free_blocks := free_blocks c1 - 1\<rparr>,
             s\<lparr>gtv_McMcrBlockInfo := \<lparr>mcv_NestedLevel = mcv_NestedLevel m + 1,
               mtv_McMcrHead = mtv_McMcrHead m @ [\<lparr>mcp_McUCodePc = p, mc_SimpInsHead = [], mc_CompInsHead = []\<rparr>]\<rparr>\<rparr>, p + 10) })"

definition comp_mcr :: "compiler_st \<Rightarrow> plc_state \<Rightarrow> nat \<Rightarrow> comp_res" where
  "comp_mcr c s p =
     (let m = gtv_McMcrBlockInfo s; l = (if 0 < mcv_NestedLevel m then mcv_NestedLevel m - 1 else mcv_NestedLevel m) in
      Some (pdPASS, if l = 0 then c\<lparr>scv_CompilerInsFlag := COMPILER_NORMAL_INS\<rparr> else c,
        s\<lparr>gtv_McMcrBlockInfo := m\<lparr>mcv_NestedLevel := l\<rparr>\<rparr>, p + 6))"

text \<open>The STL instructions that follow one another; the flag tells whether there is more than one.\<close>

function stl_scan :: "u8 list \<Rightarrow> nat \<Rightarrow> bool \<Rightarrow> (nat \<times> bool) option" where
  "stl_scan m p f =
     do { w \<leftarrow> GET_PU16_DATA m (p + 10); if w \<noteq> CI_STL then Some (p + 10, f) else stl_scan m (p + 10) True }"
  by pat_completeness auto
termination
  by (relation "measure (\<lambda>(m, p, f). length m - p)") (auto simp: GET_PU16_DATA_def opt_simps)

definition comp_stl :: "compiler_st \<Rightarrow> plc_state \<Rightarrow> nat \<Rightarrow> comp_res" where
  "comp_stl c s p =
     do { (q, f) \<leftarrow> stl_scan (ucode s) p False;
          if f then Some (pdPASS, c\<lparr>scv_CompilerInsFlag := COMPILER_NORMAL_INS, stp_StlListPtr := None\<rparr>, s, q)
          else do {
            n \<leftarrow> GET_PU16_DATA (ucode s) (p + 4);
            hs \<leftarrow> wr (gtp_StlListPtr s) (unat n) empty_head;
            Some (pdPASS, c\<lparr>scv_CompilerInsFlag := COMPILER_STL_INS, stp_StlListPtr := Some (unat n)\<rparr>,
              s\<lparr>gtp_StlListPtr := hs\<rparr>, q) } }"

definition plc_move_ucode_ptr_from_complex_ins :: "compiler_st \<Rightarrow> plc_state \<Rightarrow> nat \<Rightarrow> comp_res" where
  "plc_move_ucode_ptr_from_complex_ins c s p =
     do { w \<leftarrow> GET_PU16_DATA (ucode s) p;
          case map_of ci_lens w of
            Some n \<Rightarrow> Some (pdPASS, c, s, p + n)
          | None \<Rightarrow>
              if w = CI_STRADD then do { q \<leftarrow> comp_stradd s p; Some (pdPASS, c, s, q) }
              else if w = CI_STRINSTR then do { k \<leftarrow> lit_len s (p + 2) (p + 3) 16 18; Some (pdPASS, c, s, p + k) }
              else if w = CI_STRMOV then do { k \<leftarrow> lit_len s (p + 3) (p + 2) 8 10; Some (pdPASS, c, s, p + k) }
              else if w = CI_CALL then do { (s', q) \<leftarrow> comp_call s p; Some (pdPASS, c, s', q) }
              else if w = CI_SBR then comp_sbr c s p
              else if w = CI_SRET then
                Some (pdPASS, c\<lparr>scv_CompilerInsFlag := COMPILER_NORMAL_INS, stp_SbrListPtr := None\<rparr>, s, p + 2)
              else if w = CI_CSRET then Some (pdPASS, c, s, p + 2)
              else if w = CI_INTR then comp_intr c s p
              else if w = CI_MC then comp_mc c s p
              else if w = CI_MCR then comp_mcr c s p
              else if w = CI_STL then comp_stl c s p
              else if w = CI_RET then
                Some (pdPASS, c\<lparr>scv_CompilerInsFlag := COMPILER_NORMAL_INS, stp_StlListPtr := None\<rparr>, s, p + 2)
              else Some (ERR_COMPILER, c, s, p) }"

section \<open>Reset lists\<close>

text \<open>The instructions that are reset when a block is left: coils and edges in steps and master-control blocks,
  only edges in subroutines; timers, outputs, pulse instructions and calls in all of them.\<close>

definition reset_simple_coils :: "u8 list" where
  "reset_simple_coils = [0x71, 0x74, 0x75, 0x79, 0x7C, 0x7D, 0xA7, 0xA8, 0xB0, 0xB1, 0xB2, 0xB3, 0xB4, 0xB5, 0xB6, 0xB7]"

definition reset_edges :: "u8 list" where
  "reset_edges = [0xA7, 0xA8, 0xB0, 0xB1, 0xB2, 0xB3, 0xB4, 0xB5, 0xB6, 0xB7]"

definition reset_complex :: "u16 list" where
  "reset_complex =
     [CI_TON, CI_TONR, CI_TOF, CI_OUT_LM, CI_BOUT, CI_DRVI, CI_DRVC, CI_DRVA, CI_ZRN, CI_PLS, CI_PLSB, CI_PWM,
      CI_PLSY, CI_PLSR, CI_PLSV, CI_DHSCS, CI_HCNT, CI_SPD, CI_GEARBOX, CI_LIN, CI_CW, CI_CCW, CI_CAMBOX, CI_CALL]"

definition add_simple :: "nat \<Rightarrow> plc_ins_list_head_st \<Rightarrow> plc_ins_list_head_st" where
  "add_simple p h = h\<lparr>mtv_SimpInsHead := mtv_SimpInsHead h @ [p]\<rparr>"

definition add_complex :: "nat \<Rightarrow> plc_ins_list_head_st \<Rightarrow> plc_ins_list_head_st" where
  "add_complex p h = h\<lparr>mtv_CompInsHead := mtv_CompInsHead h @ [p]\<rparr>"

definition mc_simple :: "nat \<Rightarrow> plc_mc_mcr_ins_list_st \<Rightarrow> plc_mc_mcr_ins_list_st" where
  "mc_simple p h = h\<lparr>mc_SimpInsHead := mc_SimpInsHead h @ [p]\<rparr>"

definition mc_complex :: "nat \<Rightarrow> plc_mc_mcr_ins_list_st \<Rightarrow> plc_mc_mcr_ins_list_st" where
  "mc_complex p h = h\<lparr>mc_CompInsHead := mc_CompInsHead h @ [p]\<rparr>"

text \<open>One entry with its allocation.\<close>

definition alloc_upd :: "('h \<Rightarrow> 'h) \<Rightarrow> 'h list \<Rightarrow> nat \<Rightarrow> compiler_st \<Rightarrow> (plc_ret \<times> compiler_st \<times> 'h list) option" where
  "alloc_upd f hs i c =
     (if free_blocks c = 0 then Some (ERR_NO_FREE_MEMORY, c, hs)
      else do { h \<leftarrow> rd hs i; hs' \<leftarrow> wr hs i (f h); Some (pdPASS, c\<lparr>free_blocks := free_blocks c - 1\<rparr>, hs') })"

text \<open>An entry in the list of every open master-control block.\<close>

fun add_open :: "(plc_mc_mcr_ins_list_st \<Rightarrow> plc_mc_mcr_ins_list_st) \<Rightarrow> nat list \<Rightarrow> compiler_st \<Rightarrow> plc_mc_mcr_ins_list_st list \<Rightarrow>
    (plc_ret \<times> compiler_st \<times> plc_mc_mcr_ins_list_st list) option" where
  "add_open f [] c hs = Some (pdPASS, c, hs)"
| "add_open f (i # is) c hs =
     do { (r, c', hs') \<leftarrow> alloc_upd f hs i c; if r \<noteq> pdPASS then Some (r, c', hs') else add_open f is c' hs' }"

definition open_blocks :: "compiler_st \<Rightarrow> plc_state \<Rightarrow> nat list option" where
  "open_blocks c s =
     (let n = unat (mcv_NestedLevel (gtv_McMcrBlockInfo s)) in
      if n \<le> length (stap_McListPtr c) then those (take n (stap_McListPtr c)) else None)"

text \<open>The entry of the current block; \<open>b\<close> tells for a step or master-control block, \<open>d\<close> for a subroutine, whether
  the instruction belongs in its list.\<close>

definition add_ins :: "bool \<Rightarrow> bool \<Rightarrow> (plc_ins_list_head_st \<Rightarrow> plc_ins_list_head_st) \<Rightarrow>
    (plc_mc_mcr_ins_list_st \<Rightarrow> plc_mc_mcr_ins_list_st) \<Rightarrow> compiler_st \<Rightarrow> plc_state \<Rightarrow> (plc_ret \<times> compiler_st \<times> plc_state) option" where
  "add_ins b d f g c s =
     (case scv_CompilerInsFlag c of
        COMPILER_STL_INS \<Rightarrow>
          (case stp_StlListPtr c of
             Some i \<Rightarrow> if b then do { (r, c', hs) \<leftarrow> alloc_upd f (gtp_StlListPtr s) i c; Some (r, c', s\<lparr>gtp_StlListPtr := hs\<rparr>) }
                        else Some (pdPASS, c, s)
           | None \<Rightarrow> Some (pdPASS, c, s))
      | COMPILER_MC_MCR_INS \<Rightarrow>
          if b then do { is \<leftarrow> open_blocks c s;
                         (r, c', hs) \<leftarrow> add_open g is c (mtv_McMcrHead (gtv_McMcrBlockInfo s));
                         Some (r, c', s\<lparr>gtv_McMcrBlockInfo := (gtv_McMcrBlockInfo s)\<lparr>mtv_McMcrHead := hs\<rparr>\<rparr>) }
          else Some (pdPASS, c, s)
      | COMPILER_SUB_INS \<Rightarrow>
          (case stp_SbrListPtr c of
             Some i \<Rightarrow> if d then do { (r, c', hs) \<leftarrow> alloc_upd f (gtp_SbrListPtr s) i c; Some (r, c', s\<lparr>gtp_SbrListPtr := hs\<rparr>) }
                        else Some (pdPASS, c, s)
           | None \<Rightarrow> Some (pdPASS, c, s))
      | COMPILER_NORMAL_INS \<Rightarrow> Some (pdPASS, c, s))"

definition plc_add_ins_to_simple_list :: "compiler_st \<Rightarrow> plc_state \<Rightarrow> nat \<Rightarrow> (plc_ret \<times> compiler_st \<times> plc_state) option" where
  "plc_add_ins_to_simple_list c s p =
     do { op \<leftarrow> GET_PU8_DATA (ucode s) (p + 1);
          add_ins (op \<in> set reset_simple_coils) (op \<in> set reset_edges) (add_simple p) (mc_simple p) c s }"

definition plc_add_ins_to_complex_list :: "compiler_st \<Rightarrow> plc_state \<Rightarrow> nat \<Rightarrow> (plc_ret \<times> compiler_st \<times> plc_state) option" where
  "plc_add_ins_to_complex_list c s p =
     do { w \<leftarrow> GET_PU16_DATA (ucode s) p;
          add_ins (w \<in> set reset_complex) (w \<in> set reset_complex) (add_complex p) (mc_complex p) c s }"

section \<open>The pass\<close>

abbreviation (input) "SI_MAX_INS \<equiv> (0xB8 :: u8)"

text \<open>One instruction: the outcome is an error, the end of the code, or the place of the next instruction.\<close>

datatype comp_step = Failed plc_ret | Ended | Next

definition comp_ins :: "compiler_st \<Rightarrow> plc_state \<Rightarrow> nat \<Rightarrow> (comp_step \<times> compiler_st \<times> plc_state \<times> nat) option" where
  "comp_ins c s p =
     do { op \<leftarrow> GET_PU8_DATA (ucode s) (p + 1);
          if op < SI_MAX_INS then do {
            (r, c1, s1) \<leftarrow> plc_add_ins_to_simple_list c s p;
            if r \<noteq> pdPASS then Some (Failed r, c1, s1, p)
            else do { (r, q) \<leftarrow> plc_move_ucode_ptr_from_simple_ins s1 p;
                      Some (if r \<noteq> pdPASS then Failed r else Next, c1, s1, q) } }
          else do {
            (r, c1, s1) \<leftarrow> plc_add_ins_to_complex_list c s p;
            if r \<noteq> pdPASS then Some (Failed r, c1, s1, p)
            else do {
              (r, c2, s2, q) \<leftarrow> plc_move_ucode_ptr_from_complex_ins c1 s1 p;
              if r = pdPASS then Some (Next, c2, s2, q)
              else do { w \<leftarrow> GET_PU16_DATA (ucode s2) q; Some (if w = CI_END then Ended else Failed r, c2, s2, q) } } } }"

text \<open>How the pass ends: with an access outside an array, or with its return value (whether it is \<open>pdPASS\<close>).\<close>

datatype comp_out = Fault | Returned bool plc_state

text \<open>The code after the label of the errors.\<close>

definition comp_fail :: "plc_ret \<Rightarrow> plc_state \<Rightarrow> nat \<Rightarrow> comp_out" where
  "comp_fail r s p =
     (case plc_refresh_exec_error_record (stop_err 4 s) (ret_code r) p of None \<Rightarrow> Fault | Some s' \<Rightarrow> Returned False s')"

text \<open>The loop over the code up to \<open>q\<close>; the number bounds its passes, and \<open>None\<close> is a loop that has not ended within them.\<close>

fun comp_loop :: "nat \<Rightarrow> nat \<Rightarrow> compiler_st \<Rightarrow> plc_state \<Rightarrow> nat \<Rightarrow> comp_out option" where
  "comp_loop 0 q c s p = None"
| "comp_loop (Suc k) q c s p =
     (if q \<le> p then Some (Returned True s)
      else
        (case comp_ins c s p of
           None \<Rightarrow> Some Fault
         | Some (Failed r, c', s', p') \<Rightarrow> Some (comp_fail r s' p')
         | Some (Ended, c', s', p') \<Rightarrow> Some (Returned True s')
         | Some (Next, c', s', p') \<Rightarrow> if q < p' then Some (comp_fail ERR_USER_PROGRAM s' p') else comp_loop k q c' s' p'))"

text \<open>The tables of calls, subroutines, steps and blocks as the pass finds them.\<close>

definition comp_clear :: "plc_state \<Rightarrow> plc_state" where
  "comp_clear s =
     s\<lparr>gtp_CallInsInfoPtr := (gtp_CallInsInfoPtr s)\<lparr>msv_UseNum := 0, mlv_UCodeAddr := replicate MAX_CALL_INS_USE_NUMBER 0,
         mcv_IsExec := replicate MAX_CALL_INS_USE_NUMBER 0, mcp_SbrPc := replicate MAX_SBR_COUNT None,
         mcp_RetPc := replicate MAX_SBR_NESTED_LAYER 0\<rparr>,
       gtp_SbrListPtr := map (\<lambda>_. empty_head) (gtp_SbrListPtr s),
       gtp_StlListPtr := map (\<lambda>_. empty_head) (gtp_StlListPtr s),
       gtv_McMcrBlockInfo := \<lparr>mcv_NestedLevel = 0, mtv_McMcrHead = []\<rparr>\<rparr>"

text \<open>\<open>base\<close> is the address of the program in memory, on which the reading of its length depends; the code begins
  behind a header of 28 bytes and ends four bytes before the end of the file.\<close>

definition plc_compiler_ucode :: "nat \<Rightarrow> nat \<Rightarrow> compiler_st \<Rightarrow> plc_state \<Rightarrow> comp_out option" where
  "plc_compiler_ucode fuel base c s =
     (let s0 = comp_clear s in
      case plc_get_file_length base (ucode s0) 6 4 of
        None \<Rightarrow> Some Fault
      | Some n \<Rightarrow> comp_loop fuel (unat n - 4) (c\<lparr>scv_CompilerInsFlag := COMPILER_NORMAL_INS\<rparr>) s0 28)"

definition plc_free_ins :: "plc_state \<Rightarrow> plc_state" where
  "plc_free_ins s =
     s\<lparr>gtp_SbrListPtr := map (\<lambda>_. empty_head) (gtp_SbrListPtr s),
       gtp_StlListPtr := map (\<lambda>_. empty_head) (gtp_StlListPtr s),
       gtv_McMcrBlockInfo := \<lparr>mcv_NestedLevel = 0, mtv_McMcrHead = []\<rparr>\<rparr>"

section \<open>Termination\<close>

text \<open>Every instruction but CALL moves the pass forward.  The length of a CALL is kept in 16 bits and may be 0, but every CALL takes an entry of
  the table of calls.  What is left of the code and of the table bounds the passes of the loop.\<close>

definition calls_left :: "plc_state \<Rightarrow> nat" where
  "calls_left s = length (mlv_UCodeAddr (gtp_CallInsInfoPtr s)) - unat (msv_UseNum (gtp_CallInsInfoPtr s))"

definition comp_measure :: "nat \<Rightarrow> plc_state \<Rightarrow> nat \<Rightarrow> nat" where
  "comp_measure q s p = (q - p) + calls_left s"

text \<open>The move from \<open>p\<close> to \<open>p'\<close> uses up code or a table entry.\<close>

definition advances :: "plc_state \<Rightarrow> nat \<Rightarrow> plc_state \<Rightarrow> nat \<Rightarrow> bool" where
  "advances s p s' p' \<longleftrightarrow> length (mlv_UCodeAddr (gtp_CallInsInfoPtr s')) = length (mlv_UCodeAddr (gtp_CallInsInfoPtr s)) \<and>
     (p < p' \<and> calls_left s' = calls_left s \<or> p \<le> p' \<and> calls_left s' < calls_left s)"

lemma advances_measure: "advances s p s' p' \<Longrightarrow> p < q \<Longrightarrow> comp_measure q s' p' < comp_measure q s p"
  by (auto simp: advances_def comp_measure_def)

lemma add_ins_calls: "add_ins b d f g c s = Some (r, c', s') \<Longrightarrow> gtp_CallInsInfoPtr s' = gtp_CallInsInfoPtr s"
  by (auto simp: add_ins_def opt_simps split: compiler_flag.split_asm option.split_asm if_split_asm)

lemma advances_same: "gtp_CallInsInfoPtr s1 = gtp_CallInsInfoPtr s \<Longrightarrow> advances s1 p s' p' \<Longrightarrow> advances s p s' p'"
proof -
  assume e: "gtp_CallInsInfoPtr s1 = gtp_CallInsInfoPtr s"
  then have "calls_left s1 = calls_left s"
    by (simp add: calls_left_def)
  then show "advances s1 p s' p' \<Longrightarrow> advances s p s' p'"
    by (simp add: advances_def e)
qed

lemma advances_forward: "gtp_CallInsInfoPtr s' = gtp_CallInsInfoPtr s \<Longrightarrow> p < p' \<Longrightarrow> advances s p s' p'"
  by (simp add: advances_def calls_left_def)

lemma simple_advances: "plc_move_ucode_ptr_from_simple_ins s p = Some (pdPASS, p') \<Longrightarrow> p < p'"
  by (auto simp: plc_move_ucode_ptr_from_simple_ins_def opt_simps split: if_split_asm)

lemma lengths_positive: "map_of ci_lens w = Some n \<Longrightarrow> 0 < n"
proof -
  have "list_all (\<lambda>(c, n). 0 < n) ci_lens"
    by (simp add: ci_lens_def ci_len_1_def ci_len_2_def ci_len_3_def ci_len_4_def ci_len_5_def ci_len_6_def ci_len_7_def)
  then show "map_of ci_lens w = Some n \<Longrightarrow> 0 < n"
    by (auto simp: list_all_iff dest!: map_of_SomeD)
qed

lemma lit_len_positive: "lit_len s t l m n = Some k \<Longrightarrow> 0 < m \<Longrightarrow> 0 < n \<Longrightarrow> 0 < k"
  by (auto simp: lit_len_def opt_simps split: if_split_asm)

lemma call_advances:
  assumes "comp_call s p = Some (s', p')" and "length (mlv_UCodeAddr (gtp_CallInsInfoPtr s)) < 65536"
  shows "advances s p s' p'"
proof -
  let ?c = "gtp_CallInsInfoPtr s"
  obtain n where n: "unat (msv_UseNum ?c) < length (mlv_UCodeAddr ?c)" "p' = p + n" "msv_UseNum (gtp_CallInsInfoPtr s') = msv_UseNum ?c + 1"
      "length (mlv_UCodeAddr (gtp_CallInsInfoPtr s')) = length (mlv_UCodeAddr ?c)"
    using assms(1) by (auto simp: comp_call_def Let_def opt_simps wr_def split: if_split_asm)
  then have "unat (msv_UseNum ?c + 1) = unat (msv_UseNum ?c) + 1"
    using assms(2) by (simp add: unat_word_ariths)
  then show ?thesis
    using n unfolding advances_def calls_left_def by simp linarith
qed

lemma stl_scan_forward: "stl_scan m p f = Some (q, g) \<Longrightarrow> p < q"
proof (induction m p f rule: stl_scan.induct)
  case (1 m p f)
  obtain w where w: "GET_PU16_DATA m (p + 10) = Some w" "(if w \<noteq> CI_STL then Some (p + 10, f) else stl_scan m (p + 10) True) = Some (q, g)"
    using 1(2) unfolding stl_scan.simps [of m p f] bind_eq_Some_conv by blast
  show ?case
  proof (cases "w = CI_STL")
    case True
    then show ?thesis
      using 1(1) [OF w(1)] w(2) by simp
  qed (use w(2) in simp)
qed

lemma block_advances:
  "comp_sbr c s p = Some (pdPASS, c', s', p') \<Longrightarrow> advances s p s' p'" "comp_intr c s p = Some (pdPASS, c', s', p') \<Longrightarrow> advances s p s' p'"
  "comp_mc c s p = Some (pdPASS, c', s', p') \<Longrightarrow> advances s p s' p'" "comp_mcr c s p = Some (pdPASS, c', s', p') \<Longrightarrow> advances s p s' p'"
  by (auto simp: comp_sbr_def comp_intr_def comp_mc_def comp_mcr_def advances_def calls_left_def Let_def opt_simps split: option.split_asm if_split_asm)

lemma stl_advances: "comp_stl c s p = Some (pdPASS, c', s', p') \<Longrightarrow> advances s p s' p'"
proof -
  assume "comp_stl c s p = Some (pdPASS, c', s', p')"
  then obtain g where "stl_scan (ucode s) p False = Some (p', g)" "gtp_CallInsInfoPtr s' = gtp_CallInsInfoPtr s"
    unfolding comp_stl_def bind_eq_Some_conv by (auto simp: bind_eq_Some_conv simp del: stl_scan.simps split: if_split_asm)
  then show "advances s p s' p'"
    by (intro advances_forward stl_scan_forward)
qed

lemma stradd_forward: "comp_stradd s p = Some k \<Longrightarrow> p < k"
  unfolding comp_stradd_def bind_eq_Some_conv by (auto dest!: lit_len_positive)

text \<open>What a move over a complex instruction is.\<close>

lemma complex_moves:
  assumes "plc_move_ucode_ptr_from_complex_ins c s p = Some (pdPASS, c', s', p')"
  shows "(\<exists>w n. map_of ci_lens w = Some n \<and> p' = p + n \<and> s' = s) \<or> comp_stradd s p = Some p' \<and> s' = s \<or>
    (\<exists>t l m n k. lit_len s t l (Suc m) (Suc n) = Some k \<and> p' = p + k \<and> s' = s) \<or> comp_call s p = Some (s', p') \<or> p' = p + 2 \<and> s' = s \<or>
    comp_sbr c s p = Some (pdPASS, c', s', p') \<or> comp_intr c s p = Some (pdPASS, c', s', p') \<or> comp_mc c s p = Some (pdPASS, c', s', p') \<or>
    comp_mcr c s p = Some (pdPASS, c', s', p') \<or> comp_stl c s p = Some (pdPASS, c', s', p')"
proof -
  obtain w where w: "GET_PU16_DATA (ucode s) p = Some w"
    using assms by (auto simp: plc_move_ucode_ptr_from_complex_ins_def opt_simps)
  have l: "lit_len s t l 16 18 = lit_len s t l (Suc 15) (Suc 17)" "lit_len s t l 8 10 = lit_len s t l (Suc 7) (Suc 9)" for t l
    by simp_all
  show ?thesis
  proof (cases "map_of ci_lens w")
    case (Some n)
    then show ?thesis
      using assms w by (simp add: plc_move_ucode_ptr_from_complex_ins_def) blast
  next
    case None
    then show ?thesis
      using assms unfolding plc_move_ucode_ptr_from_complex_ins_def w bind.bind_lunit None option.case l
      by (simp only: split: if_split_asm) (simp_all only: opt_simps prod.inject option.inject split_paired_Ex simp_thms prod.case, blast+)
  qed
qed

lemma complex_advances:
  assumes "plc_move_ucode_ptr_from_complex_ins c s p = Some (pdPASS, c', s', p')" and "length (mlv_UCodeAddr (gtp_CallInsInfoPtr s)) < 65536"
  shows "advances s p s' p'"
  using complex_moves [OF assms(1)]
proof (elim disjE exE conjE)
  fix w n
  assume "map_of ci_lens w = Some n" "p' = p + n" "s' = s"
  then show ?thesis
    by (auto intro!: advances_forward dest: lengths_positive)
next
  fix t l m n k
  assume "lit_len s t l (Suc m) (Suc n) = Some k" "p' = p + k" "s' = s"
  then show ?thesis
    by (auto intro!: advances_forward dest: lit_len_positive)
qed (auto intro: block_advances stl_advances call_advances [OF _ assms(2)] stradd_forward advances_forward)

lemma comp_ins_advances:
  assumes "comp_ins c s p = Some (Next, c', s', p')" and "length (mlv_UCodeAddr (gtp_CallInsInfoPtr s)) < 65536"
  shows "advances s p s' p'"
proof -
  obtain op where op: "GET_PU8_DATA (ucode s) (p + 1) = Some op"
    using assms(1) by (auto simp: comp_ins_def opt_simps)
  show ?thesis
  proof (cases "op < SI_MAX_INS")
    case True
    then show ?thesis
      using assms(1) op
      by (auto simp: comp_ins_def opt_simps plc_add_ins_to_simple_list_def intro!: advances_forward
          dest: simple_advances add_ins_calls split: if_split_asm)
  next
    case False
    then obtain c1 s1 where s1: "plc_add_ins_to_complex_list c s p = Some (pdPASS, c1, s1)"
      "plc_move_ucode_ptr_from_complex_ins c1 s1 p = Some (pdPASS, c', s', p')"
      using assms(1) op by (auto simp: comp_ins_def opt_simps split: if_split_asm)
    have g: "gtp_CallInsInfoPtr s1 = gtp_CallInsInfoPtr s"
      using s1(1) by (auto simp: plc_add_ins_to_complex_list_def opt_simps dest: add_ins_calls)
    show ?thesis
      using complex_advances [OF s1(2)] assms(2) g by (simp add: advances_same [OF g])
  qed
qed

lemma comp_loop_ends:
  "comp_measure q s p < k \<Longrightarrow> length (mlv_UCodeAddr (gtp_CallInsInfoPtr s)) < 65536 \<Longrightarrow> \<exists>r. comp_loop k q c s p = Some r"
proof (induction k arbitrary: c s p)
  case (Suc k)
  have "\<exists>r. comp_loop k q c' s' p' = Some r" if "comp_ins c s p = Some (Next, c', s', p')" "p < q" for c' s' p'
  proof -
    note a = comp_ins_advances [OF that(1) Suc.prems(2)]
    show ?thesis
      using Suc.IH [of s' p' c'] advances_measure [OF a that(2)] a Suc.prems by (auto simp: advances_def)
  qed
  then show ?case
    by (auto split: option.split prod.split comp_step.split)
qed simp

lemma comp_loop_more: "comp_loop k q c s p = Some r \<Longrightarrow> k \<le> k' \<Longrightarrow> comp_loop k' q c s p = Some r"
proof (induction k arbitrary: k' c s p)
  case (Suc k)
  obtain j where j: "k' = Suc j" "k \<le> j"
    using Suc.prems(2) by (cases k') auto
  have "comp_loop j q c' s' p' = Some r" if "comp_loop k q c' s' p' = Some r" for c' s' p'
    using Suc.IH [OF that j(2)] .
  then show ?case
    using Suc.prems(1) unfolding j(1) comp_loop.simps
    by (cases "comp_ins c s p") (auto split: comp_step.split_asm if_split_asm)
qed simp

lemma calls_table: "length (mlv_UCodeAddr (gtp_CallInsInfoPtr (comp_clear s))) < 65536"
  by (simp add: comp_clear_def MAX_CALL_INS_USE_NUMBER_def)

text \<open>C6. The compiler ends.  Whatever bytes the program file has, the loop over its code ends after at most as many passes as the length in the file's
  header plus the entries of the table of calls, with a result that no larger bound changes: it returns, or an instruction makes an access
  outside an array.  No program keeps the loop going for ever.\<close>

theorem compiler_terminates:
  assumes "plc_get_file_length base (ucode s) 6 4 = Some n"
  shows "\<exists>r. \<forall>k. unat n + MAX_CALL_INS_USE_NUMBER < k \<longrightarrow> plc_compiler_ucode k base c s = Some r"
proof -
  let ?k = "Suc (unat n + MAX_CALL_INS_USE_NUMBER)" and ?c = "c\<lparr>scv_CompilerInsFlag := COMPILER_NORMAL_INS\<rparr>"
  have u: "ucode (comp_clear s) = ucode s"
    by (simp add: comp_clear_def)
  have "comp_measure (unat n - 4) (comp_clear s) 28 < ?k"
    by (simp add: comp_measure_def calls_left_def comp_clear_def)
  then obtain r where "comp_loop ?k (unat n - 4) ?c (comp_clear s) 28 = Some r"
    using comp_loop_ends [OF _ calls_table] by blast
  then have "comp_loop k (unat n - 4) ?c (comp_clear s) 28 = Some r" if "?k \<le> k" for k
    by (rule comp_loop_more [OF _ that])
  then show ?thesis
    using assms unfolding plc_compiler_ucode_def Let_def u by (auto simp: Suc_le_eq)
qed

text \<open>A file of 34 bytes with one NOP.\<close>

definition nop_file :: "u8 list" where
  "nop_file = replicate 6 0 @ [34, 0, 0, 0] @ replicate 18 0 @ [0, 0xA6, 0, 0, 0, 0]"

lemma nop_file_length: "plc_get_file_length 0 nop_file 6 4 = Some 34"
  by (simp add: plc_get_file_length_def nop_file_def GET_PU8_DATA_def rd_def nth_append)

lemma nop_compiled:
  assumes "ucode s = nop_file" and "scv_CompilerInsFlag c = COMPILER_NORMAL_INS"
  shows "comp_loop (Suc (Suc k)) 30 c s 28 = Some (Returned True s)"
proof -
  have "GET_PU8_DATA nop_file 29 = Some 0xA6"
    by (simp add: nop_file_def GET_PU8_DATA_def rd_def nth_append)
  then show ?thesis
    using assms by (simp add: comp_ins_def plc_add_ins_to_simple_list_def add_ins_def plc_move_ucode_ptr_from_simple_ins_def si_len2_def)
qed

theorem compiler_terminates_witness:
  "plc_compiler_ucode 1000 0 \<lparr>scv_CompilerInsFlag = COMPILER_NORMAL_INS, stp_StlListPtr = None, stp_SbrListPtr = None, stap_McListPtr = [],
     free_blocks = 0\<rparr> (boot_state nop_file) = Some (Returned True (comp_clear (boot_state nop_file)))"
proof -
  let ?s = "boot_state nop_file"
  let ?c = "\<lparr>scv_CompilerInsFlag = COMPILER_NORMAL_INS, stp_StlListPtr = None, stp_SbrListPtr = None, stap_McListPtr = [], free_blocks = 0\<rparr>"
  have u: "ucode ?s = nop_file" "ucode (comp_clear ?s) = nop_file"
    by (simp_all add: boot_state_def comp_clear_def)
  have k: "unat (34 :: u32) + MAX_CALL_INS_USE_NUMBER = 290" "unat (34 :: u32) - 4 = 30"
    by (simp_all add: MAX_CALL_INS_USE_NUMBER_def)
  obtain r where r: "\<forall>k. 290 < k \<longrightarrow> plc_compiler_ucode k 0 ?c ?s = Some r"
    using compiler_terminates [of 0 ?s 34 ?c, unfolded u(1) k(1), OF nop_file_length] by blast
  have "plc_compiler_ucode (Suc (Suc 289)) 0 ?c ?s = Some (Returned True (comp_clear ?s))"
    unfolding plc_compiler_ucode_def Let_def u(2) nop_file_length option.case k(2) by (rule nop_compiled [OF u(2)]) simp
  moreover have "plc_compiler_ucode (Suc (Suc 289)) 0 ?c ?s = Some r"
    using r by simp
  moreover have "plc_compiler_ucode 1000 0 ?c ?s = Some r"
    using r by simp
  ultimately show ?thesis
    by simp
qed

end
