(* ===== verification/PLC_Executer.thy ===== *)
theory PLC_Executer
  imports PLC_Complex PLC_Compiler
begin

text \<open>
  The executer, \<open>source/plc/executer/src/plc_executer.c\<close>, with the scan times of \<open>plc_internalmanage.c\<close>: the run state of
  the PLC, the loop that interprets a user program, the scan-time watchdog and the data block.  The start of
  the PLC (\<open>plc_status_stop_to_run\<close>) and the other functions that set up hardware are not modelled.
\<close>

section \<open>Run state\<close>

abbreviation (input) "PLC_STOP \<equiv> (0 :: u8)"
abbreviation (input) "PLC_RUN \<equiv> (1 :: u8)"
abbreviation (input) "PLC_STOP_STATUS \<equiv> (0 :: u8)"
abbreviation (input) "PLC_STOP_TO_RUN_STATUS \<equiv> (1 :: u8)"
abbreviation (input) "PLC_RUN_STATUS \<equiv> (2 :: u8)"
abbreviation (input) "PLC_RUN_TO_STOP_STATUS \<equiv> (3 :: u8)"

text \<open>The switch follows the reasons for running and stopping; a reason for stopping wins.\<close>

definition run_switch :: "plc_run_status_st \<Rightarrow> plc_run_status_st" where
  "run_switch t =
     (let b = mtv_PlcRunStopFlag t;
          t1 = (if b AND 0x0F \<noteq> 0 then t\<lparr>mcv_PlcRunSwitch := PLC_RUN\<rparr> else t) in
      if b AND 0xF0 \<noteq> 0 then t1\<lparr>mcv_PlcRunSwitch := PLC_STOP\<rparr> else t1)"

text \<open>With SM9, the input whose number is in SD9 starts a PLC that is stopped.\<close>

definition input_point :: "plc_state \<Rightarrow> bool option" where
  "input_point s =
     do { b \<leftarrow> get_bit_elem SM_ELEMENT s 9;
          if b = 0 then Some False
          else do { n \<leftarrow> get_word_elem SD_AREA s 9; x \<leftarrow> get_bit_elem X_ELEMENT s n; Some (x \<noteq> 0) } }"

definition input_run :: "plc_run_status_st \<Rightarrow> plc_run_status_st" where
  "input_run t =
     t\<lparr>mcv_PlcRunSwitch := PLC_RUN,
       mtv_PlcRunStopFlag := clear_flag (clear_flag (clear_flag (set_flag (mtv_PlcRunStopFlag t) input_point_run)
         cmd_stop) error_status_stop) cmd_reboot\<rparr>"

definition next_status :: "plc_run_status_st \<Rightarrow> u8" where
  "next_status t =
     (let c = mcv_PlcCurrentStatus t; w = mcv_PlcRunSwitch t in
      if c = PLC_STOP_STATUS then (if w = PLC_RUN then PLC_STOP_TO_RUN_STATUS else c)
      else if c = PLC_STOP_TO_RUN_STATUS then (if w = PLC_STOP then PLC_RUN_TO_STOP_STATUS else c)
      else if c = PLC_RUN_STATUS then (if w = PLC_STOP then PLC_RUN_TO_STOP_STATUS else c)
      else if c = PLC_RUN_TO_STOP_STATUS then (if w = PLC_RUN then PLC_STOP_TO_RUN_STATUS else PLC_STOP_STATUS)
      else PLC_STOP_STATUS)"

definition plc_sys_status_switch :: "plc_state \<Rightarrow> plc_state option" where
  "plc_sys_status_switch s =
     (let t = run_switch (gtv_PlcRunStatus s) in
      do { b \<leftarrow> (if mcv_PlcCurrentStatus t = PLC_STOP_STATUS then input_point s else Some False);
           let t' = (if b then input_run t else t);
           Some (s\<lparr>gtv_PlcRunStatus := t'\<lparr>mcv_PlcCurrentStatus := next_status t'\<rparr>\<rparr>) })"

definition plc_run_do :: "plc_state \<Rightarrow> plc_state" where
  "plc_run_do s = run_stop_flag cmd_run s"

definition plc_clean_user_run_error_flag :: "plc_state \<Rightarrow> plc_state option" where
  "plc_clean_user_run_error_flag s =
     do { s1 \<leftarrow> set_bit_elem SM_ELEMENT s 20 0;
          s2 \<leftarrow> set_word_elem SD_AREA s1 20 0;
          s3 \<leftarrow> set_word_elem SD_AREA s2 21 0;
          s4 \<leftarrow> set_word_elem SD_AREA s3 22 0;
          s5 \<leftarrow> set_word_elem SD_AREA s4 23 0;
          s6 \<leftarrow> set_word_elem SD_AREA s5 24 0;
          Some (s6\<lparr>guv_NonStopError := clear_flag (guv_NonStopError s6) nonstop_operands_err,
            guv_StopError := clear_flag (guv_StopError s6) stop_exec_err,
            gtv_PlcExecErrorRecord := (gtv_PlcExecErrorRecord s6)\<lparr>mcv_ErrorCnt := 0\<rparr>\<rparr>) }"

section \<open>Watchdog\<close>

definition over_time :: "plc_state \<Rightarrow> bool option" where
  "over_time s =
     do { v \<leftarrow> get_word_elem SD_AREA s 34;
          Some (ucast v < GET_1MS_TICKS_COUNT s - mlv_WatchDogTime (gtv_PlcRunStatus s)) }"

definition plc_judge_run_over_time :: "plc_state \<Rightarrow> plc_state option" where
  "plc_judge_run_over_time s =
     do { b \<leftarrow> over_time s; if b then plc_refresh_error_msg s (ret_code ERR_EXEC_OVER_TIME) else Some s }"

section \<open>The program loop\<close>

text \<open>The tick counter between two passes.\<close>

definition next_tick :: "plc_state \<Rightarrow> plc_state" where
  "next_tick s = (case tick_tape s of [] \<Rightarrow> s | t # ts \<Rightarrow> s\<lparr>xTickCount := t, tick_tape := ts\<rparr>)"

definition report :: "plc_ret \<Rightarrow> plc_state \<Rightarrow> plc_state option" where
  "report r s =
     do { s1 \<leftarrow> plc_refresh_error_msg s (ret_code r); plc_refresh_exec_error_record s1 (ret_code r) (gcp_BackupUserPc s1) }"

definition clear_error_bits :: "plc_state \<Rightarrow> plc_state option" where
  "clear_error_bits s =
     do { s1 \<leftarrow> set_bit_elem SM_ELEMENT s 20 0; s2 \<leftarrow> set_bit_elem SM_ELEMENT s1 21 0; set_bit_elem SM_ELEMENT s2 22 0 }"

text \<open>The instructions of one pass, simple or complex, with what the loop does about their result: \<open>Inl\<close> a result
  with which it returns at once.\<close>

definition pass_simple :: "plc_state \<Rightarrow> si_env \<Rightarrow> ((plc_ret + si_env) \<times> plc_state) option" where
  "pass_simple s e =
     do { (r, s1, e1) \<leftarrow> plc_exec_simple_instruction s e;
          s2 \<leftarrow> (if r \<noteq> pdPASS then report r s1 else Some s1);
          Some (Inr e1, s2) }"

definition pass_complex :: "nat \<Rightarrow> program_runner \<Rightarrow> ext_ins \<Rightarrow> plc_state \<Rightarrow> si_env \<Rightarrow> ((plc_ret + si_env) \<times> plc_state) option" where
  "pass_complex n run ext s e =
     do { (r, s1, e1) \<leftarrow> plc_exec_complex_instruction n run ext s e;
          case r of
            pdPASS \<Rightarrow> do { s2 \<leftarrow> clear_error_bits s1; Some (Inr e1, s2) }
          | EXEC_FLAG_FEND \<Rightarrow> Some (Inl EXEC_FLAG_FEND, s1)
          | EXEC_FLAG_IRET \<Rightarrow> Some (Inl EXEC_FLAG_IRET, s1)
          | EXEC_FLAG_SRET \<Rightarrow> Some (Inl EXEC_FLAG_SRET, s1)
          | EXEC_FLAG_STOP \<Rightarrow> Some (Inl EXEC_FLAG_STOP, run_stop_flag cmd_stop s1)
          | _ \<Rightarrow> do { s2 \<leftarrow> report r s1; Some (Inr e1, s2) } }"

text \<open>The end of a pass: watchdog, and stop on an error.\<close>

definition pass_end :: "plc_state \<Rightarrow> (plc_ret option \<times> plc_state) option" where
  "pass_end s =
     do { s1 \<leftarrow> (if mcv_IsOnlineProgram (gtv_PlcRunStatus s) = 0 then plc_judge_run_over_time s else Some s);
          if bit (mtv_PlcRunStopFlag (gtv_PlcRunStatus s1)) error_status_stop
          then Some (Some EXEC_FLAG_STOP, plc_user_interrupt_enable 0 s1) else Some (None, s1) }"

definition pass_ins :: "nat \<Rightarrow> program_runner \<Rightarrow> ext_ins \<Rightarrow> plc_state \<Rightarrow> si_env \<Rightarrow> ((plc_ret + si_env) \<times> plc_state) option" where
  "pass_ins n run ext s e =
     (let s0 = (next_tick s)\<lparr>gcp_BackupUserPc := mcp_PC e\<rparr> in
      do { w \<leftarrow> GET_PU16_DATA (ucode s0) (mcp_PC e);
           if w < 0xE000 then pass_simple s0 e else pass_complex n run ext s0 e })"

definition run_pass :: "nat \<Rightarrow> program_runner \<Rightarrow> ext_ins \<Rightarrow> plc_state \<Rightarrow> si_env \<Rightarrow> ((plc_ret + si_env) \<times> plc_state) option" where
  "run_pass n run ext s e =
     do { (x, s1) \<leftarrow> pass_ins n run ext s e;
          case x of
            Inl r \<Rightarrow> Some (Inl r, s1)
          | Inr e1 \<Rightarrow> do {
              (y, s2) \<leftarrow> pass_end s1;
              Some (case y of Some r \<Rightarrow> Inl r | None \<Rightarrow> Inr e1, s2) } }"

fun pass_loop :: "nat \<Rightarrow> program_runner \<Rightarrow> ext_ins \<Rightarrow> nat \<Rightarrow> plc_state \<Rightarrow> si_env \<Rightarrow> (plc_ret \<times> plc_state) option" where
  "pass_loop n run ext 0 s e = None"
| "pass_loop n run ext (Suc k) s e =
     do { (x, s') \<leftarrow> run_pass n run ext s e;
          case x of Inl r \<Rightarrow> Some (r, s') | Inr e' \<Rightarrow> pass_loop n run ext k s' e' }"

text \<open>\<open>plc_run_user_program\<close> from address \<open>pc\<close>.  A call runs the subroutine with the same function; the last number
  bounds the depth of calls, which \<open>run_ci_call_ins\<close> limits to \<open>MAX_SBR_NESTED_LAYER\<close>.  The first two numbers bound the
  passes of the two loops, which the code does not bound.\<close>

definition reset_for :: "plc_state \<Rightarrow> plc_state option" where
  "reset_for s =
     (let i = unat (nested s) in
      do { f \<leftarrow> rd (gtp_ForNextIns s) i;
           fs \<leftarrow> wr (gtp_ForNextIns s) i (f\<lparr>msv_NestedNum := 0\<rparr>);
           Some (s\<lparr>gtp_ForNextIns := fs\<rparr>) })"

definition start_env :: "nat \<Rightarrow> si_env" where
  "start_env pc = \<lparr>mlv_InPF = 0, mlv_OutPF = 0, mcp_PC = pc\<rparr>"

fun plc_run_user_program :: "nat \<Rightarrow> nat \<Rightarrow> ext_ins \<Rightarrow> nat \<Rightarrow> program_runner" where
  "plc_run_user_program n k ext 0 s pc = None"
| "plc_run_user_program n k ext (Suc d) s pc =
     do { s' \<leftarrow> reset_for s; pass_loop n (plc_run_user_program n k ext d) ext k s' (start_env pc) }"

section \<open>Scan\<close>

abbreviation (input) "SD30 \<equiv> (30 :: u16)"
abbreviation (input) "SD31 \<equiv> (31 :: u16)"
abbreviation (input) "SD32 \<equiv> (32 :: u16)"

text \<open>Current, greatest and smallest scan time; the time is signed, the elements are not.\<close>

definition put_scan_time :: "u32 \<Rightarrow> plc_state \<Rightarrow> plc_state option" where
  "put_scan_time d s =
     do { s1 \<leftarrow> set_word_elem SD_AREA s SD30 (ucast d);
          v \<leftarrow> get_word_elem SD_AREA s1 SD32;
          s2 \<leftarrow> (if uint v < sint d then set_word_elem SD_AREA s1 SD32 (ucast d) else Some s1);
          w \<leftarrow> get_word_elem SD_AREA s2 SD31;
          if sint d < uint w then set_word_elem SD_AREA s2 SD31 (ucast d) else Some s2 }"

definition restart_watchdog :: "plc_state \<Rightarrow> plc_state" where
  "restart_watchdog s =
     s\<lparr>gtv_PlcRunStatus := (gtv_PlcRunStatus s)\<lparr>mlv_SysScanTime := GET_1MS_TICKS_COUNT s, mlv_WatchDogTime := GET_1MS_TICKS_COUNT s\<rparr>\<rparr>"

definition plc_refresh_scan_time :: "u32 \<Rightarrow> plc_state \<Rightarrow> plc_state option" where
  "plc_refresh_scan_time lastTick s =
     (let now = GET_1MS_TICKS_COUNT s; d = now - lastTick;
          d' = (if sint d < 0 then now + (0xFFFFFFFF - mlv_SysScanTime (gtv_PlcRunStatus s)) else if d = 0 then 1 else d) in
      do { s1 \<leftarrow> put_scan_time d' s; Some (restart_watchdog s1) })"

text \<open>With constant scan (SM8) the result tells whether the set time SD33 has not passed yet.\<close>

definition plc_refresh_sys_scan_time :: "plc_state \<Rightarrow> (bool \<times> plc_state) option" where
  "plc_refresh_sys_scan_time s =
     (let t = gtv_PlcRunStatus s; now = GET_1MS_TICKS_COUNT s; d = now - mlv_SysScanTime t;
          d' = (if sint d < 0 then now + (0xFFFFFFFF - mlv_SysScanTime t) else d) in
      if mcv_PlcCurrentStatus t = PLC_RUN_STATUS then do {
        b \<leftarrow> get_bit_elem SM_ELEMENT s 8;
        v \<leftarrow> get_word_elem SD_AREA s 33;
        if b \<noteq> 0 \<and> sint d' < uint v then Some (True, s)
        else do { s1 \<leftarrow> put_scan_time d' s; Some (False, restart_watchdog s1) } }
      else Some (False, restart_watchdog s))"

definition plc_run_deamon :: "nat \<Rightarrow> nat \<Rightarrow> ext_ins \<Rightarrow> nat \<Rightarrow> plc_state \<Rightarrow> plc_state option" where
  "plc_run_deamon n k ext d s =
     (let s0 = s\<lparr>gtp_CallInsInfoPtr := (gtp_CallInsInfoPtr s)\<lparr>msv_SbrNestedNum := 0\<rparr>\<rparr> in
      do { b \<leftarrow> get_bit_elem SM_ELEMENT s0 8;
           let t = (if b = 0 then GET_1MS_TICKS_COUNT s0 else 0);
           (_, s1) \<leftarrow> plc_run_user_program n k ext d s0 28;
           b \<leftarrow> get_bit_elem SM_ELEMENT s1 8;
           s2 \<leftarrow> (if b = 0 then plc_refresh_scan_time t s1 else Some s1);
           s3 \<leftarrow> set_bit_elem SM_ELEMENT s2 0 1;
           s4 \<leftarrow> set_bit_elem SM_ELEMENT s3 1 0;
           s5 \<leftarrow> set_bit_elem SM_ELEMENT s4 2 0;
           c \<leftarrow> get_bit_elem SM_ELEMENT s5 15;
           set_bit_elem SM_ELEMENT s5 15 (if c \<noteq> 0 then 0 else 1) })"

section \<open>Data block\<close>

text \<open>The elements marked in a bit map take the values that follow it, in order; \<open>j\<close>, \<open>k\<close> and \<open>m\<close> are the counters of
  the code.\<close>

fun restore_area :: "word_area \<Rightarrow> u8 list \<Rightarrow> nat \<Rightarrow> nat list \<Rightarrow> nat \<times> nat \<times> nat \<Rightarrow> plc_state \<Rightarrow> ((nat \<times> nat \<times> nat) \<times> plc_state) option" where
  "restore_area a db v [] jkm s = Some (jkm, s)"
| "restore_area a db v (i # is) (j, k, m) s =
     do { w \<leftarrow> GET_PU16_DATA db (24 + 2 * j);
          (m', s') \<leftarrow> (if bit w k then do { x \<leftarrow> GET_PU16_DATA db (v + 2 * m); s' \<leftarrow> set_word_elem a s (of_nat i) x; Some (m + 1, s') }
                      else Some (m, s));
          restore_area a db v is (if 16 \<le> k + 1 then (j + 1, 0, m') else (j, k + 1, m')) s' }"

text \<open>\<open>db\<close> is the memory behind \<open>gtv_UserFilePtrSt.DataBlockPtr\<close> and \<open>base\<close> its address; lengths are kept in 16 bits.\<close>

definition plc_restore_data_block :: "nat \<Rightarrow> u8 list \<Rightarrow> plc_state \<Rightarrow> plc_state option" where
  "plc_restore_data_block base db s =
     do { h \<leftarrow> GET_PU8_DATA db 2; l \<leftarrow> GET_PU8_DATA db 3;
          if (push_bit 8 (ucast h) + ucast l :: u16) \<noteq> 2 then Some s
          else do {
            let d = unat (word_elem_rang D_AREA s);
            let r = unat (word_elem_rang R_AREA s);
            let min_len = (of_nat ((d + r) div 8 + 28) :: u16);
            n \<leftarrow> plc_get_file_length base db 6 4;
            if (ucast n :: u16) < min_len then Some s
            else do {
              ((j, k, m), s1) \<leftarrow> restore_area D_AREA db (unat min_len - 4) [0..<d] (0, 0, 0) s;
              (_, s2) \<leftarrow> restore_area R_AREA db (unat min_len - 4) [0..<r] (if d mod 8 \<noteq> 0 then j + 1 else j, 0, m) s1;
              Some s2 } } }"

end
