(* ===== verification/PLC_Program.thy ===== *)
theory PLC_Program
  imports PLC_Frame PLC_Executer
begin

text \<open>
  Compiler, interpreter and executer together.  The instruction lengths that \<open>plc_compiler.c\<close> and \<open>plc_complexins.c\<close> state
  independently agree up to a few listed codes; a program run changes neither the program nor the tables that the
  compiler built from it; the passes of the executer begin at the places where the compiler found an instruction; and
  the watchdog ends a run.
\<close>

section \<open>Complex instructions\<close>

text \<open>The instructions that are not modelled, and the runner of subroutines, keep the frame.\<close>

definition runner_ok :: "program_runner \<Rightarrow> bool" where
  "runner_ok run \<longleftrightarrow> (\<forall>s pc. kept2 (frame s) (run s pc))"

definition ext_ok :: "ext_ins \<Rightarrow> bool" where
  "ext_ok ext \<longleftrightarrow> (\<forall>w s e. kept_pc (frame s) (mcp_PC e) (ext w s e))"

text \<open>An instruction of length \<open>n\<close>: it keeps the frame and leaves the counter behind itself, or at itself after an error.\<close>

definition moves :: "nat \<Rightarrow> nat \<Rightarrow> plc_ret \<times> plc_state \<times> si_env \<Rightarrow> bool" where
  "moves n p = (\<lambda>(r, s, e). mcp_PC e = p + n \<or> r \<noteq> pdPASS \<and> mcp_PC e = p)"

definition lands :: "nat \<Rightarrow> instruction \<Rightarrow> bool" where
  "lands n f \<longleftrightarrow> (\<forall>s e. keeps (frame s) st3 (moves n (mcp_PC e)) (f s e))"

definition keeping :: "instruction \<Rightarrow> bool" where
  "keeping f \<longleftrightarrow> (\<forall>s e. kept3 (frame s) (f s e))"

definition staying :: "instruction \<Rightarrow> bool" where
  "staying f \<longleftrightarrow> (\<forall>s e. kept_pc (frame s) (mcp_PC e) (f s e))"

lemma lands_keeping: "lands n f \<Longrightarrow> keeping f"
  by (auto simp: lands_def keeping_def keeps_def any_def)

lemma keeps_moves [simp]:
  "keeps F st3 (moves n p) (Some (r, s, e)) \<longleftrightarrow> frame s = F \<and> (mcp_PC e = p + n \<or> r \<noteq> pdPASS \<and> mcp_PC e = p)"
  by (simp add: keeps_def moves_def st3_def)

lemma skip_pc [simp]: "mcp_PC (skip n e) = mcp_PC e + n"
  by (simp add: skip_def)

lemma lands_adv: "staying f \<Longrightarrow> lands n (adv n f)" "staying f \<Longrightarrow> lands n (adv_pass n f)" "staying f \<Longrightarrow> lands n (and_contact n f)"
  "staying f \<Longrightarrow> lands n (or_contact n f)" "lands n (illegal n)"
  by (auto simp: lands_def staying_def adv_def adv_pass_def and_contact_def or_contact_def illegal_def intro!: bind_kept_pc)

lemma stayingI: "(\<And>F p s e. frame s = F \<Longrightarrow> mcp_PC e = p \<Longrightarrow> kept_pc F p (f s e)) \<Longrightarrow> staying f"
  by (simp add: staying_def)

lemma staying_in_env: "(\<And>F s e. frame s = F \<Longrightarrow> kept2 F (f s e)) \<Longrightarrow> staying (in_env f)"
  by (auto simp: staying_def in_env_def intro!: frame_intro)

lemma staying_ext: "ext_ok ext \<Longrightarrow> staying (ext w)"
  by (simp add: ext_ok_def staying_def)

lemma staying_ci_ok: "staying ci_ok"
  by (simp add: staying_def ci_ok_def)

lemma keeping_adv: "staying f \<Longrightarrow> keeping (adv n f)" "staying f \<Longrightarrow> keeping (adv_pass n f)" "staying f \<Longrightarrow> keeping (and_contact n f)"
  "staying f \<Longrightarrow> keeping (or_contact n f)" "keeping (illegal n)"
  using lands_adv lands_keeping by blast+

lemma keeping_str: "staying f \<Longrightarrow> keeping (adv_str m n f)" "staying f \<Longrightarrow> keeping (adv_str2 f)"
  by (auto simp: keeping_def staying_def adv_str_def adv_str2_def intro!: bind_kept3 [OF kept_pc_kept3] bind_any [where x = "str_len s a m n" for s a m n])

lemma keepingI: "(\<And>F s e. frame s = F \<Longrightarrow> kept3 F (f s e)) \<Longrightarrow> keeping f"
  by (simp add: keeping_def)

lemma keeping_call: "runner_ok run \<Longrightarrow> keeping (run_ci_call_ins run)"
  by (auto simp: runner_ok_def intro!: keepingI frame_intro)

lemma keeping_flow: "keeping run_ci_stl_ins" "keeping run_ci_mc_ins" "keeping run_ci_mcr_ins" "keeping run_ci_cj_ins" "keeping run_ci_for_ins"
  "keeping run_ci_next_ins" "keeping run_ci_csret_ins"
  by (auto intro!: keepingI frame_intro)

lemma keeping_stay: "keeping run_ci_continue_ins" "keeping run_ci_break_ins" "keeping run_ci_sret_ins" "keeping run_ci_iret_ins"
  by (auto intro!: keepingI kept_pc_kept3 frame_intro)

lemmas keeping_intro = keeping_adv keeping_str keeping_flow keeping_stay staying_in_env staying_ci_ok stayingI frame_intro

lemma cases_1_keep:
  assumes "runner_ok run" and "ext_ok ext"
  shows "list_all (\<lambda>(c, f). keeping f) (ci_cases_1 run ext)"
  by (simp add: ci_cases_1_def) (intro conjI keeping_call [OF assms(1)] staying_ext [OF assms(2)] keeping_intro; assumption)

lemma cases_2_keep:
  assumes "runner_ok run" and "ext_ok ext"
  shows "list_all (\<lambda>(c, f). keeping f) (ci_cases_2 run ext)"
  by (simp add: ci_cases_2_def) (intro conjI keeping_call [OF assms(1)] staying_ext [OF assms(2)] keeping_intro; assumption)

lemma cases_3_keep:
  assumes "runner_ok run" and "ext_ok ext"
  shows "list_all (\<lambda>(c, f). keeping f) (ci_cases_3 run ext)"
  by (simp add: ci_cases_3_def) (intro conjI keeping_call [OF assms(1)] staying_ext [OF assms(2)] keeping_intro; assumption)

lemma cases_4_keep:
  assumes "runner_ok run" and "ext_ok ext"
  shows "list_all (\<lambda>(c, f). keeping f) (ci_cases_4 run ext)"
  by (simp add: ci_cases_4_def) (intro conjI keeping_call [OF assms(1)] staying_ext [OF assms(2)] keeping_intro; assumption)

lemma cases_5_keep:
  assumes "runner_ok run" and "ext_ok ext"
  shows "list_all (\<lambda>(c, f). keeping f) (ci_cases_5 run ext)"
  by (simp add: ci_cases_5_def) (intro conjI keeping_call [OF assms(1)] staying_ext [OF assms(2)] keeping_intro; assumption)

lemma cases_6_keep:
  assumes "runner_ok run" and "ext_ok ext"
  shows "list_all (\<lambda>(c, f). keeping f) (ci_cases_6 run ext)"
  by (simp add: ci_cases_6_def) (intro conjI keeping_call [OF assms(1)] staying_ext [OF assms(2)] keeping_intro; assumption)

lemma cases_7_keep:
  assumes "runner_ok run" and "ext_ok ext"
  shows "list_all (\<lambda>(c, f). keeping f) (ci_cases_7 run ext)"
  by (simp add: ci_cases_7_def) (intro conjI keeping_call [OF assms(1)] staying_ext [OF assms(2)] keeping_intro; assumption)

lemma cases_8_keep:
  assumes "runner_ok run" and "ext_ok ext"
  shows "list_all (\<lambda>(c, f). keeping f) (ci_cases_8 run ext)"
  by (simp add: ci_cases_8_def) (intro conjI keeping_call [OF assms(1)] staying_ext [OF assms(2)] keeping_intro; assumption)

lemma cases_9_keep:
  assumes "runner_ok run" and "ext_ok ext"
  shows "list_all (\<lambda>(c, f). keeping f) (ci_cases_9 run ext)"
  by (simp add: ci_cases_9_def) (intro conjI keeping_call [OF assms(1)] staying_ext [OF assms(2)] keeping_intro; assumption)

lemma cases_10_keep:
  assumes "runner_ok run" and "ext_ok ext"
  shows "list_all (\<lambda>(c, f). keeping f) (ci_cases_10 run ext)"
  by (simp add: ci_cases_10_def) (intro conjI keeping_call [OF assms(1)] staying_ext [OF assms(2)] keeping_intro; assumption)

section \<open>Lengths\<close>

text \<open>The tables with their codes as natural numbers, for evaluation.\<close>

primrec look :: "nat \<Rightarrow> (nat \<times> 'a) list \<Rightarrow> 'a option" where
  "look k [] = None"
| "look k (x # xs) = (if fst x = k then Some (snd x) else look k xs)"

definition codes :: "(u16 \<times> 'a) list \<Rightarrow> (nat \<times> 'a) list" where
  "codes xs = map (\<lambda>(c, x). (unat c, x)) xs"

lemma map_of_look: "map_of xs c = look (unat c) (codes xs)"
  by (induction xs) (auto simp: codes_def)

definition cases_n :: "program_runner \<Rightarrow> ext_ins \<Rightarrow> (nat \<times> instruction) list" where
  "cases_n run ext = codes (ci_cases run ext)"

lemmas cases_n_eval = cases_n_def [unfolded codes_def ci_cases_def ci_cases_1_def ci_cases_2_def ci_cases_3_def ci_cases_4_def
  ci_cases_5_def ci_cases_6_def ci_cases_7_def ci_cases_8_def ci_cases_9_def ci_cases_10_def append.simps list.map prod.case, simplified]

text \<open>Codes for which the two sides do not agree: FEND has the lengths 2 and 10, jumps and loops move the counter themselves, and
  five codes of the compiler have no case in the interpreter.\<close>

definition odd_codes :: "u16 list" where
  "odd_codes = [CI_FEND, CI_CJ, CI_FOR, CI_NEXT, CI_S7TCPLINK, CI_VRRD, CI_TKY, CI_ABSD, CI_DABSD]"

definition odd_n :: "(nat \<times> unit) list" where
  "odd_n = codes (map (\<lambda>c. (c, ())) odd_codes)"

lemmas odd_n_eval = odd_n_def [unfolded codes_def odd_codes_def list.map prod.case, simplified]

definition agrees :: "program_runner \<Rightarrow> ext_ins \<Rightarrow> nat \<times> nat \<Rightarrow> bool" where
  "agrees run ext x \<longleftrightarrow>
     (case look (fst x) odd_n of
        Some _ \<Rightarrow> True
      | None \<Rightarrow> (case look (fst x) (cases_n run ext) of Some f \<Rightarrow> lands (snd x) f | None \<Rightarrow> False))"

lemmas look_eval = look.simps fst_conv snd_conv if_True if_False numeral_eq_iff rel_simps option.case list.pred_inject agrees_def
  cases_n_eval odd_n_eval

lemma lands_return: "lands n run_ci_sret_ins" "lands n run_ci_iret_ins" "lands 2 run_ci_csret_ins"
  by (auto simp: lands_def run_ci_sret_ins_def run_ci_iret_ins_def run_ci_csret_ins_def ci_ok_def ci_err_def at_pc_def)

lemmas lands_intro = lands_adv lands_return staying_in_env staying_ci_ok stayingI frame_intro

lemmas codes_len_1 = codes_def [of ci_len_1, unfolded ci_len_1_def list.map prod.case, simplified]

lemma agrees_1:
  assumes "ext_ok ext"
  shows "list_all (agrees run ext) (codes ci_len_1)"
  by (simp only: ci_len_1_def codes_len_1 look_eval) (intro conjI TrueI staying_ext [OF assms] lands_intro; assumption)

lemmas codes_len_2 = codes_def [of ci_len_2, unfolded ci_len_2_def list.map prod.case, simplified]

lemma agrees_2:
  assumes "ext_ok ext"
  shows "list_all (agrees run ext) (codes ci_len_2)"
  by (simp only: ci_len_2_def codes_len_2 look_eval) (intro conjI TrueI staying_ext [OF assms] lands_intro; assumption)

lemmas codes_len_3 = codes_def [of ci_len_3, unfolded ci_len_3_def list.map prod.case, simplified]

lemma agrees_3:
  assumes "ext_ok ext"
  shows "list_all (agrees run ext) (codes ci_len_3)"
  by (simp only: ci_len_3_def codes_len_3 look_eval) (intro conjI TrueI staying_ext [OF assms] lands_intro; assumption)

lemmas codes_len_4 = codes_def [of ci_len_4, unfolded ci_len_4_def list.map prod.case, simplified]

lemma agrees_4:
  assumes "ext_ok ext"
  shows "list_all (agrees run ext) (codes ci_len_4)"
  by (simp only: ci_len_4_def codes_len_4 look_eval) (intro conjI TrueI staying_ext [OF assms] lands_intro; assumption)

lemmas codes_len_5 = codes_def [of ci_len_5, unfolded ci_len_5_def list.map prod.case, simplified]

lemma agrees_5:
  assumes "ext_ok ext"
  shows "list_all (agrees run ext) (codes ci_len_5)"
  by (simp only: ci_len_5_def codes_len_5 look_eval) (intro conjI TrueI staying_ext [OF assms] lands_intro; assumption)

lemmas codes_len_6 = codes_def [of ci_len_6, unfolded ci_len_6_def list.map prod.case, simplified]

lemma agrees_6:
  assumes "ext_ok ext"
  shows "list_all (agrees run ext) (codes ci_len_6)"
  by (simp only: ci_len_6_def codes_len_6 look_eval) (intro conjI TrueI staying_ext [OF assms] lands_intro; assumption)

lemmas codes_len_7 = codes_def [of ci_len_7, unfolded ci_len_7_def list.map prod.case, simplified]

lemma agrees_7:
  assumes "ext_ok ext"
  shows "list_all (agrees run ext) (codes ci_len_7)"
  by (simp only: ci_len_7_def codes_len_7 look_eval) (intro conjI TrueI staying_ext [OF assms] lands_intro; assumption)

lemma agrees_lens:
  assumes "ext_ok ext"
  shows "list_all (agrees run ext) (codes ci_lens)"
proof -
  have app: "codes (xs @ ys) = codes xs @ codes ys" for xs ys :: "(u16 \<times> nat) list"
    by (simp add: codes_def)
  show ?thesis
    unfolding ci_lens_def app list_all_append
    by (intro conjI agrees_1 agrees_2 agrees_3 agrees_4 agrees_5 agrees_6 agrees_7 assms)
qed

lemma lens_agree:
  assumes "ext_ok ext" and n: "map_of ci_lens c = Some n" and "c \<notin> set odd_codes"
  shows "\<exists>f. map_of (ci_cases run ext) c = Some f \<and> lands n f"
proof -
  have "(unat c, n) \<in> set (codes ci_lens)"
    using map_of_SomeD [OF n] by (force simp: codes_def)
  then have "agrees run ext (unat c, n)"
    using agrees_lens [OF assms(1)] by (auto simp: list_all_iff)
  moreover have "look (unat c) odd_n = None"
    unfolding odd_n_def map_of_look [symmetric] using assms(3) by (simp add: map_of_eq_None_iff image_image)
  ultimately show ?thesis
    unfolding agrees_def cases_n_def fst_conv snd_conv map_of_look by (auto split: option.splits)
qed

section \<open>Programs\<close>

lemma cases_keep:
  assumes "runner_ok run" and "ext_ok ext" and "map_of (ci_cases run ext) c = Some f"
  shows "keeping f"
proof -
  have "list_all (\<lambda>(c, f). keeping f) (ci_cases run ext)"
    unfolding ci_cases_def list_all_append
    by (intro conjI cases_1_keep cases_2_keep cases_3_keep cases_4_keep cases_5_keep cases_6_keep cases_7_keep cases_8_keep cases_9_keep
        cases_10_keep assms)
  then show ?thesis
    using map_of_SomeD [OF assms(3)] by (auto simp: list_all_iff)
qed

lemma frame_exec_ci [frame_intro]: "frame s = F \<Longrightarrow> runner_ok run \<Longrightarrow> ext_ok ext \<Longrightarrow> kept3 F (exec_ci run ext s e)"
  using cases_keep by (auto simp: exec_ci_def keeping_def intro!: frame_intro split: option.splits)

lemma frame_plc_exec_complex_instruction [frame_intro]:
  "frame s = F \<Longrightarrow> runner_ok run \<Longrightarrow> ext_ok ext \<Longrightarrow> kept3 F (plc_exec_complex_instruction n run ext s e)"
  by (induction n arbitrary: s e) (auto intro!: frame_intro)

lemma frame_next_tick [simp]: "frame (next_tick s) = frame s"
  by (simp add: next_tick_def split: list.splits)

lemma frame_report [frame_intro]: "frame s = F \<Longrightarrow> kept F (report r s)"
  by (auto simp: report_def intro!: frame_intro)

lemma frame_clear_error_bits [frame_intro]: "frame s = F \<Longrightarrow> kept F (clear_error_bits s)"
  by (auto simp: clear_error_bits_def intro!: frame_intro)

lemma frame_plc_judge_run_over_time [frame_intro]: "frame s = F \<Longrightarrow> kept F (plc_judge_run_over_time s)"
  by (auto simp: plc_judge_run_over_time_def over_time_def intro!: frame_intro)

lemma frame_pass_simple [frame_intro]: "frame s = F \<Longrightarrow> kept2 F (pass_simple s e)"
  by (auto simp: pass_simple_def intro!: frame_intro)

lemma frame_pass_complex [frame_intro]: "frame s = F \<Longrightarrow> runner_ok run \<Longrightarrow> ext_ok ext \<Longrightarrow> kept2 F (pass_complex n run ext s e)"
  by (auto simp: pass_complex_def intro!: frame_intro split: plc_ret.split)

lemma frame_pass_end [frame_intro]: "frame s = F \<Longrightarrow> kept2 F (pass_end s)"
  by (auto simp: pass_end_def intro!: frame_intro)

lemma frame_pass_ins [frame_intro]: "frame s = F \<Longrightarrow> runner_ok run \<Longrightarrow> ext_ok ext \<Longrightarrow> kept2 F (pass_ins n run ext s e)"
  by (auto simp: pass_ins_def Let_def intro!: frame_intro)

lemma frame_run_pass [frame_intro]: "frame s = F \<Longrightarrow> runner_ok run \<Longrightarrow> ext_ok ext \<Longrightarrow> kept2 F (run_pass n run ext s e)"
  by (auto simp: run_pass_def Let_def intro!: frame_intro split: sum.split)

lemma frame_pass_loop [frame_intro]: "frame s = F \<Longrightarrow> runner_ok run \<Longrightarrow> ext_ok ext \<Longrightarrow> kept2 F (pass_loop n run ext k s e)"
  by (induction k arbitrary: s e) (auto intro!: frame_intro split: sum.split)

lemma frame_reset_for [frame_intro]: "frame s = F \<Longrightarrow> kept F (reset_for s)"
  by (auto simp: reset_for_def Let_def intro!: frame_intro)

lemma runner_plc_run_user_program: "ext_ok ext \<Longrightarrow> runner_ok (plc_run_user_program n k ext d)"
proof (induction d)
  case 0
  then show ?case
    by (simp add: runner_ok_def)
next
  case (Suc d)
  then show ?case
    by (auto simp: runner_ok_def intro!: frame_intro)
qed

section \<open>What a program run returns\<close>

abbreviation "end_flags \<equiv> {EXEC_FLAG_FEND, EXEC_FLAG_IRET, EXEC_FLAG_SRET, EXEC_FLAG_STOP}"

lemma pass_simple_goes_on: "pass_simple s e = Some (x, s') \<Longrightarrow> \<exists>e'. x = Inr e'"
  by (auto simp: pass_simple_def opt_simps)

lemma pass_complex_ends:
  assumes "pass_complex n run ext s e = Some (Inl r, s')"
  shows "r \<in> end_flags"
proof -
  obtain q s1 e1 where "plc_exec_complex_instruction n run ext s e = Some (q, s1, e1)"
    using assms by (auto simp: pass_complex_def opt_simps)
  then show ?thesis
    using assms by (cases q) (simp_all add: pass_complex_def opt_simps)
qed

lemma pass_end_ends: "pass_end s = Some (Some r, s') \<Longrightarrow> r = EXEC_FLAG_STOP"
  unfolding pass_end_def bind_eq_Some_conv by (elim exE conjE) (simp split: if_split_asm)

lemma run_pass_ends:
  assumes "run_pass n run ext s e = Some (Inl r, s')"
  shows "r \<in> end_flags"
proof -
  obtain s0 x s1 where x: "pass_simple s0 e = Some (x, s1) \<or> pass_complex n run ext s0 e = Some (x, s1)"
    and c: "(case x of Inl r \<Rightarrow> Some (Inl r, s1) | Inr e1 \<Rightarrow> do { (y, s2) \<leftarrow> pass_end s1; Some (case y of Some r \<Rightarrow> Inl r | None \<Rightarrow> Inr e1, s2) })
      = Some (Inl r, s')"
    using assms unfolding run_pass_def pass_ins_def Let_def bind_eq_Some_conv by (auto split: if_split_asm)
  show ?thesis
  proof (cases x)
    case (Inl q)
    then show ?thesis
      using x c pass_complex_ends pass_simple_goes_on by fastforce
  next
    case (Inr e1)
    then show ?thesis
      using c pass_end_ends by (auto simp: opt_simps split: option.split_asm)
  qed
qed

lemma pass_loop_ends: "pass_loop n run ext k s e = Some (r, s') \<Longrightarrow> r \<in> end_flags"
proof (induction k arbitrary: s e)
  case (Suc k)
  obtain x t where x: "run_pass n run ext s e = Some (x, t)"
    using Suc.prems by (auto simp: opt_simps)
  show ?case
    using Suc.prems Suc.IH run_pass_ends [of n run ext s e] x by (cases x) auto
qed simp

lemma run_ends: "plc_run_user_program n k ext d s pc = Some (r, s') \<Longrightarrow> r \<in> end_flags"
  by (cases d) (auto simp: opt_simps dest: pass_loop_ends)

section \<open>Instructions with a length of their own\<close>

lemma case_by_look: "unat c = k \<Longrightarrow> look k (cases_n run ext) = Some f \<Longrightarrow> map_of (ci_cases run ext) c = Some f"
  by (simp only: map_of_look cases_n_def)

lemma special_cases:
  "map_of (ci_cases run ext) CI_CALL = Some (run_ci_call_ins run)" "map_of (ci_cases run ext) CI_SBR = Some (adv 4 run_ci_sbr_ins)"
  "map_of (ci_cases run ext) CI_SRET = Some run_ci_sret_ins" "map_of (ci_cases run ext) CI_CSRET = Some run_ci_csret_ins"
  "map_of (ci_cases run ext) CI_INTR = Some (adv 4 ci_ok)" "map_of (ci_cases run ext) CI_MCR = Some run_ci_mcr_ins"
  "map_of (ci_cases run ext) CI_RET = Some (adv 2 run_ci_ret_ins)" "map_of (ci_cases run ext) CI_STRMOV = Some (adv_str 8 10 (ext CI_STRMOV))"
  by (rule case_by_look, simp, simp only: look_eval)+

lemma call_moves:
  assumes "run_ci_call_ins run s e = Some (r, s', e')" and len: "plc_call_instruction_length s (mcp_PC e) = Some n"
    and run: "\<And>s pc r s'. run s pc = Some (r, s') \<Longrightarrow> r \<noteq> pdPASS"
  shows "mcp_PC e' = mcp_PC e + unat n \<or> r \<noteq> pdPASS \<and> mcp_PC e' = mcp_PC e"
proof -
  obtain q where q: "plc_get_call_ins_id s (mcp_PC e) = Some q"
    using assms(1) by (auto simp: run_ci_call_ins_def opt_simps)
  have flow: "e' = x \<or> r \<noteq> pdPASS \<and> e' = e" if "call_flow run s e i m x = Some (r, s', e')" for i m x
    using that run by (auto simp: call_flow_def ci_err_def Let_def opt_simps split: if_split_asm)
  show ?thesis
  proof (cases q)
    case (Inl a)
    then have "a \<noteq> pdPASS"
      using q by (auto simp: plc_get_call_ins_id_def opt_simps split: option.split_asm)
    then show ?thesis
      using assms(1) q Inl by (simp add: run_ci_call_ins_def ci_err_def)
  next
    case (Inr i)
    then show ?thesis
      using assms(1) q len
      by (auto simp: run_ci_call_ins_def ci_err_def ci_ok_def at_pc_def Let_def opt_simps split: if_split_asm dest!: flow)
  qed
qed

lemma landsD: "lands n f \<Longrightarrow> f s e = Some (r, s', e') \<Longrightarrow> mcp_PC e' = mcp_PC e + n \<or> r \<noteq> pdPASS \<and> mcp_PC e' = mcp_PC e"
  by (auto simp: lands_def keeps_def moves_def)

lemma lands_special: "lands 4 (adv 4 run_ci_sbr_ins)" "lands 4 (adv 4 ci_ok)" "lands 2 (adv 2 run_ci_ret_ins)" "lands 6 run_ci_mcr_ins"
proof -
  show "lands 4 (adv 4 run_ci_sbr_ins)" "lands 4 (adv 4 ci_ok)" "lands 2 (adv 2 run_ci_ret_ins)"
    by (intro lands_intro; assumption)+
  show "lands 6 run_ci_mcr_ins"
    by (simp add: lands_def run_ci_mcr_ins_def ci_ok_def at_pc_def)
qed

lemma strmov_moves:
  assumes "ext_ok ext" and "adv_str m n (ext w) s e = Some (r, s', e')" and k: "lit_len s (mcp_PC e + 3) (mcp_PC e + 2) m n = Some k"
  shows "mcp_PC e' = mcp_PC e + k"
proof -
  obtain s1 e1 where x: "ext w s e = Some (r, s1, e1)"
    and l: "str_len s1 (mcp_PC e1 + 2) m n \<bind> (\<lambda>k. Some (r, s1, skip k e1)) = Some (r, s', e')"
    using assms(2) by (auto simp: adv_str_def opt_simps)
  have "kept_pc (frame s) (mcp_PC e) (ext w s e)"
    using assms(1) by (simp add: ext_ok_def)
  then have eq: "ucode s1 = ucode s" "mcp_PC e1 = mcp_PC e"
    using x frame_ucode [of s1 s] by simp_all
  have "str_len s1 (mcp_PC e1 + 2) m n = Some k"
    using k unfolding str_len_def lit_len_def eq by (simp add: numeral_eq_Suc)
  then show ?thesis
    using l eq(2) by (simp only: bind.bind_lunit) auto
qed

lemma complex_agree:
  assumes "ext_ok ext"
    and "GET_PU16_DATA (ucode s) (mcp_PC e) = Some w"
    and "w \<notin> set odd_codes" and "w \<notin> {CI_MC, CI_STL, CI_STRADD, CI_STRINSTR}"
    and "ucode t = ucode s" and "plc_move_ucode_ptr_from_complex_ins c t (mcp_PC e) = Some (pdPASS, c', t', q)"
    and "exec_ci (plc_run_user_program n k ext d) ext s e = Some (r, s', e')"
  shows "mcp_PC e' = q \<or> r \<noteq> pdPASS \<and> mcp_PC e' = mcp_PC e"
proof (cases "map_of ci_lens w")
  case (Some m)
  then obtain f where f: "map_of (ci_cases (plc_run_user_program n k ext d) ext) w = Some f" "lands m f"
    using lens_agree [OF assms(1) Some assms(3)] by blast
  then have "f s e = Some (r, s', e')"
    using assms(2,7) by (simp add: exec_ci_def)
  moreover have "q = mcp_PC e + m"
    using assms(2,5,6) Some by (simp add: plc_move_ucode_ptr_from_complex_ins_def)
  ultimately show ?thesis
    using landsD [OF f(2)] by simp
next
  case None
  note special = special_cases [of "plc_run_user_program n k ext d" ext]
  have ex: "f s e = Some (r, s', e')" if "map_of (ci_cases (plc_run_user_program n k ext d) ext) w = Some f" for f
    using that assms(2,7) by (simp add: exec_ci_def)
  have land: "mcp_PC e' = mcp_PC e + m \<or> r \<noteq> pdPASS \<and> mcp_PC e' = mcp_PC e"
    if "map_of (ci_cases (plc_run_user_program n k ext d) ext) w = Some f" "lands m f" for f m
    by (rule landsD [OF that(2) ex [OF that(1)]])
  have run: "r \<noteq> pdPASS" if "plc_run_user_program n k ext d s pc = Some (r, s')" for s pc r s'
    using run_ends [OF that] by auto
  note move = assms(6) [unfolded plc_move_ucode_ptr_from_complex_ins_def assms(5) assms(2) bind.bind_lunit None option.case]
  consider "w = CI_STRMOV" | "w = CI_CALL" | "w = CI_SBR" | "w = CI_SRET" | "w = CI_CSRET" | "w = CI_INTR" | "w = CI_MCR" | "w = CI_RET"
    using move assms(4) by (auto split: if_split_asm)
  then show ?thesis
  proof cases
    case 1
    have "lit_len t a b i j = lit_len s a b i j" for a b i j
      unfolding lit_len_def assms(5) by (rule refl)
    then show ?thesis
      using 1 strmov_moves [OF assms(1), of 8 10 CI_STRMOV s e r s' e'] ex special(8) move by (auto simp: opt_simps)
  next
    case 2
    have call: "run_ci_call_ins (plc_run_user_program n k ext d) s e = Some (r, s', e')"
      using 2 special(1) by (intro ex) simp
    have "plc_call_instruction_length t a = plc_call_instruction_length s a" for a
      unfolding plc_call_instruction_length_def assms(5) by (rule refl)
    then obtain m where "plc_call_instruction_length s (mcp_PC e) = Some m" "q = mcp_PC e + unat m"
      using 2 move by (auto simp: comp_call_def Let_def opt_simps)
    then show ?thesis
      using call_moves [OF call _ run] by auto
  next
    case 3
    then show ?thesis
      using land [OF _ lands_special(1)] special(2) move by (auto simp: comp_sbr_def opt_simps split: option.split_asm)
  next
    case 4
    then show ?thesis
      using land [OF _ lands_return(1) [of 2]] special(3) move by auto
  next
    case 5
    then show ?thesis
      using land [OF _ lands_return(3)] special(4) move by auto
  next
    case 6
    then show ?thesis
      using land [OF _ lands_special(2)] special(5) move by (auto simp: comp_intr_def Let_def opt_simps split: if_split_asm)
  next
    case 7
    then show ?thesis
      using land [OF _ lands_special(4)] special(6) move by (auto simp: comp_mcr_def Let_def)
  next
    case 8
    then show ?thesis
      using land [OF _ lands_special(3)] special(7) move by auto
  qed
qed


text \<open>No instruction beyond the modelled ones; a compiler before its pass.\<close>

definition comp_start :: compiler_st where
  "comp_start = \<lparr>scv_CompilerInsFlag = COMPILER_NORMAL_INS, stp_StlListPtr = None, stp_SbrListPtr = None, stap_McListPtr = replicate 8 None,
     free_blocks = 1000\<rparr>"

definition no_ext :: ext_ins where
  "no_ext w s e = Some (ERR_ILLEGAL_INSTRCTION, s, e)"

lemma no_ext_ok: "ext_ok no_ext"
  by (simp add: ext_ok_def no_ext_def)

lemma ei_case: "map_of (ci_cases run ext) CI_EI = Some (adv 2 run_ci_ei_ins)"
  by (rule case_by_look, simp, simp only: look_eval)

lemma ei_len: "map_of ci_lens CI_EI = Some 2"
proof -
  have "look 61478 (codes ci_len_1) = Some 2"
    by (simp only: ci_len_1_def codes_len_1 look_eval)
  then have "map_of ci_len_1 CI_EI = Some 2"
    unfolding map_of_look by simp
  then show ?thesis
    unfolding ci_lens_def map_of_append by (simp add: map_add_Some_iff)
qed


definition si_agrees :: "nat \<Rightarrow> u8 \<Rightarrow> bool" where
  "si_agrees n c \<longleftrightarrow> c = 0x77 \<or> map_option si_size (decode_si c) = Some n"

lemma si_agrees_len: "list_all (si_agrees 2) si_len2" "list_all (si_agrees 4) si_len4" "list_all (si_agrees 6) si_len6"
  by (simp_all add: si_agrees_def si_len2_def si_len4_def si_len6_def decode_si_def si_contact_def si_contacts_def si_out_coil_def si_set_coil_def rd_def Let_def)

text \<open>The compiler accepts the code of an OUT of LM among the simple instructions, the interpreter does not.\<close>

lemma no_out_lm: "decode_si 0x77 = None"
  by (simp add: decode_si_def si_contact_def si_contacts_def si_out_coil_def si_set_coil_def rd_def Let_def)

lemma simple_lengths_agree:
  assumes "plc_move_ucode_ptr_from_simple_ins s p = Some (pdPASS, q)" and "GET_PU8_DATA (ucode s) (p + 1) = Some c" and "c \<noteq> 0x77"
  shows "\<exists>i. decode_si c = Some i \<and> q = p + si_size i"
proof -
  have "si_agrees n c" if "c \<in> set cs" "list_all (si_agrees n) cs" for n cs
    using that by (simp add: list_all_iff)
  then show ?thesis
    using assms si_agrees_len by (auto simp: plc_move_ucode_ptr_from_simple_ins_def si_agrees_def split: if_split_asm)
qed

section \<open>Instruction boundaries\<close>

text \<open>The places at which the compiler finds an instruction, from the first one behind the header.\<close>

inductive ins_chain :: "u8 list \<Rightarrow> nat \<Rightarrow> bool" for m where
  start: "ins_chain m 28"
| simple: "ins_chain m p \<Longrightarrow> ucode s = m \<Longrightarrow> GET_PU8_DATA m (p + 1) = Some b \<Longrightarrow> b < SI_MAX_INS \<Longrightarrow>
    plc_move_ucode_ptr_from_simple_ins s p = Some (pdPASS, q) \<Longrightarrow> ins_chain m q"
| complex: "ins_chain m p \<Longrightarrow> ucode s = m \<Longrightarrow> GET_PU8_DATA m (p + 1) = Some b \<Longrightarrow> \<not> b < SI_MAX_INS \<Longrightarrow>
    plc_move_ucode_ptr_from_complex_ins c s p = Some (pdPASS, c', s', q) \<Longrightarrow> ins_chain m q"

text \<open>The instructions that move the program counter themselves, and the two for whose literals the two sides read different bytes as the length.\<close>

definition jump_codes :: "u16 list" where
  "jump_codes = [CI_CJ, CI_FOR, CI_NEXT, CI_MC, CI_STL]"

definition literal_codes :: "u16 list" where
  "literal_codes = [CI_STRADD, CI_STRINSTR]"

definition no_case_codes :: "u16 list" where
  "no_case_codes = [CI_END, CI_S7TCPLINK, CI_VRRD, CI_TKY, CI_ABSD, CI_DABSD]"

text \<open>An instruction that does not jump: the compiler accepts it, or it ends the program, or the interpreter has no case for it and
  stops there.\<close>

definition straight_at :: "u8 list \<Rightarrow> nat \<Rightarrow> bool" where
  "straight_at m p \<longleftrightarrow>
     (\<exists>b. GET_PU8_DATA m (p + 1) = Some b \<and>
       (if b < SI_MAX_INS then \<exists>s q. ucode s = m \<and> plc_move_ucode_ptr_from_simple_ins s p = Some (pdPASS, q)
        else \<exists>w. GET_PU16_DATA m p = Some w \<and> w \<notin> set jump_codes \<and> w \<notin> set literal_codes \<and>
          (w = CI_FEND \<or> w \<in> set no_case_codes \<or>
           (\<exists>s c c' s' q. ucode s = m \<and> plc_move_ucode_ptr_from_complex_ins c s p = Some (pdPASS, c', s', q)))))"

lemma end_cases:
  "map_of (ci_cases run ext) CI_FEND = Some (adv 10 run_ci_fend_ins)"
  by (rule case_by_look, simp, simp only: look_eval)

lemma no_case_by_look: "unat c = k \<Longrightarrow> look k (cases_n run ext) = None \<Longrightarrow> map_of (ci_cases run ext) c = None"
  by (simp only: map_of_look cases_n_def)

lemma no_cases: "w \<in> set no_case_codes \<Longrightarrow> map_of (ci_cases run ext) w = None"
proof -
  have "map_of (ci_cases run ext) CI_END = None" "map_of (ci_cases run ext) CI_S7TCPLINK = None" "map_of (ci_cases run ext) CI_VRRD = None"
    "map_of (ci_cases run ext) CI_TKY = None" "map_of (ci_cases run ext) CI_ABSD = None" "map_of (ci_cases run ext) CI_DABSD = None"
    by (rule no_case_by_look, simp, simp only: look_eval)+
  then show "w \<in> set no_case_codes \<Longrightarrow> map_of (ci_cases run ext) w = None"
    by (auto simp: no_case_codes_def)
qed

lemma complex_codes_high: "list_all (\<lambda>(c, n). 0xF000 \<le> c) ci_lens"
  by (simp add: ci_lens_def ci_len_1_def ci_len_2_def ci_len_3_def ci_len_4_def ci_len_5_def ci_len_6_def ci_len_7_def)

lemma accepted_high:
  assumes "plc_move_ucode_ptr_from_complex_ins c s p = Some (pdPASS, c', s', q)" and "GET_PU16_DATA (ucode s) p = Some w"
  shows "0xF000 \<le> w"
proof (cases "map_of ci_lens w")
  case None
  then show ?thesis
    using assms by (auto simp: plc_move_ucode_ptr_from_complex_ins_def split: if_split_asm)
next
  case (Some n)
  then show ?thesis
    using complex_codes_high map_of_SomeD [OF Some] by (auto simp: list_all_iff)
qed

lemma high_byte:
  assumes "GET_PU16_DATA m p = Some w" and "GET_PU8_DATA m (p + 1) = Some b"
  shows "w < 0xE000 \<longleftrightarrow> b < 0xE0"
proof -
  have "w = bytes_u16 (m ! p) b"
    using assms by (auto simp: GET_PU16_DATA_def GET_PU8_DATA_def opt_simps)
  then have w: "unat w = unat (m ! p) + 256 * unat b"
    by (simp add: unat_bytes_u16)
  have "unat (m ! p) < 256"
    by (rule unat_lt_8)
  then have "unat w < 57344 \<longleftrightarrow> unat b < 224"
    unfolding w by linarith
  then show ?thesis
    by (simp add: word_less_nat_alt)
qed

lemma simple_step_chain:
  assumes "ins_chain m p" and "straight_at m p" and "GET_PU16_DATA m p = Some w" and "w < 0xE000"
    and "GET_PU8_DATA m (p + 1) = Some b" and "decode_si b = Some i"
  shows "ins_chain m (p + si_size i)"
proof (cases "b < SI_MAX_INS")
  case True
  then obtain s q where s: "ucode s = m" "plc_move_ucode_ptr_from_simple_ins s p = Some (pdPASS, q)"
    using assms(2,5) by (auto simp: straight_at_def)
  have "b \<noteq> 0x77"
    using assms(6) no_out_lm by auto
  then have "q = p + si_size i"
    using simple_lengths_agree [OF s(2)] s(1) assms(5,6) by auto
  then show ?thesis
    using ins_chain.simple [OF assms(1) s(1) assms(5) True s(2)] by simp
next
  case False
  have "0xF000 \<le> w" if "ucode s = m" "plc_move_ucode_ptr_from_complex_ins c s p = Some (pdPASS, c', s', q)" for s c c' s' q
    using accepted_high [OF that(2)] that(1) assms(3) by simp
  then have "0xF000 \<le> w"
    using assms(2,3,5) False by (auto simp: straight_at_def no_case_codes_def)
  then show ?thesis
    using assms(4) by (simp add: word_less_nat_alt word_le_nat_alt)
qed

lemma simple_loop_chain:
  assumes "\<And>p. ins_chain m p \<Longrightarrow> straight_at m p"
  shows "exec_simple_loop s e cv = Some (r, s', e') \<Longrightarrow> ucode s = m \<Longrightarrow> ins_chain m (mcp_PC e) \<Longrightarrow> ins_chain m (mcp_PC e')"
proof (induction s e cv rule: exec_simple_loop.induct)
  case (1 s e cv)
  obtain w where w: "GET_PU16_DATA (ucode s) (mcp_PC e) = Some w"
    using "1.prems"(1) by (subst (asm) exec_simple_loop.simps) (auto simp: opt_simps)
  show ?case
  proof (cases "w < 0xE000")
    case False
    then show ?thesis
      using 1 w by (subst (asm) exec_simple_loop.simps) simp
  next
    case True
    then obtain b where b: "GET_PU8_DATA (ucode s) (mcp_PC e + 1) = Some b"
      using "1.prems"(1) w by (subst (asm) exec_simple_loop.simps) (auto simp: opt_simps)
    show ?thesis
    proof (cases "decode_si b")
      case None
      then show ?thesis
        using "1.prems" w b True by (subst (asm) exec_simple_loop.simps) simp
    next
      case (Some i)
      then obtain s1 e1 cv1 where x: "exec_si i (s\<lparr>gcp_BackupUserPc := mcp_PC e\<rparr>) e cv = Some (s1, e1, cv1)"
        and l: "exec_simple_loop s1 e1 cv1 = Some (r, s', e')"
        using "1.prems"(1) w b True by (subst (asm) exec_simple_loop.simps) (auto simp: opt_simps)
      have "ins_chain m (mcp_PC e + si_size i)"
        using simple_step_chain [OF "1.prems"(3) assms [OF "1.prems"(3)] _ True _ Some] w b "1.prems"(2) by simp
      then show ?thesis
        using "1.IH" [OF w True b Some x refl refl l] si_frame_ucode [OF exec_si_frame [OF x]] exec_si_pc [OF x] "1.prems"(2) by simp
    qed
  qed
qed

lemma exec_ci_chain:
  assumes "ext_ok ext" and "ins_chain (ucode s) (mcp_PC e)" and "straight_at (ucode s) (mcp_PC e)"
    and w: "GET_PU16_DATA (ucode s) (mcp_PC e) = Some w" "0xE000 \<le> w"
    and x: "exec_ci (plc_run_user_program n k ext d) ext s e = Some (r, s', e')"
  shows "r = EXEC_FLAG_FEND \<or> ins_chain (ucode s) (mcp_PC e')"
proof -
  obtain b where b: "GET_PU8_DATA (ucode s) (mcp_PC e + 1) = Some b"
    using w(1) by (auto simp: GET_PU16_DATA_def GET_PU8_DATA_def opt_simps)
  then have nb: "\<not> b < SI_MAX_INS"
    using high_byte [OF w(1) b] w(2) by (simp add: not_less word_le_nat_alt word_less_nat_alt)
  have j: "w \<notin> set jump_codes" "w \<notin> set literal_codes"
    using assms(3) b nb w(1) by (simp_all add: straight_at_def)
  consider "w = CI_FEND" | "w \<in> set no_case_codes" | t c c' t' q where "w \<noteq> CI_FEND" "w \<notin> set no_case_codes" "ucode t = ucode s"
    "plc_move_ucode_ptr_from_complex_ins c t (mcp_PC e) = Some (pdPASS, c', t', q)"
    using assms(3) b nb w(1) by (simp add: straight_at_def) blast
  then show ?thesis
  proof cases
    case 1
    then show ?thesis
      using x w(1) by (auto simp: exec_ci_def end_cases adv_def run_ci_fend_ins_def ci_err_def)
  next
    case 2
    then show ?thesis
      using x w(1) assms(2) by (auto simp: exec_ci_def no_cases)
  next
    case (3 t c c' t' q)
    then have o: "w \<notin> set odd_codes" "w \<notin> {CI_MC, CI_STL, CI_STRADD, CI_STRINSTR}"
      using j by (auto simp: odd_codes_def jump_codes_def literal_codes_def no_case_codes_def)
    have "ins_chain (ucode s) q"
      by (rule ins_chain.complex [OF assms(2) 3(3) b nb 3(4)])
    then show ?thesis
      using complex_agree [OF assms(1) w(1) o 3(3,4) x] assms(2) by auto
  qed
qed

lemma complex_loop_chain:
  assumes ext: "ext_ok ext" and str: "\<And>p. ins_chain m p \<Longrightarrow> straight_at m p"
  shows "plc_exec_complex_instruction j (plc_run_user_program n k ext d) ext s e = Some (r, s', e') \<Longrightarrow> ucode s = m \<Longrightarrow>
    ins_chain m (mcp_PC e) \<Longrightarrow> GET_PU16_DATA m (mcp_PC e) = Some w \<Longrightarrow> 0xE000 \<le> w \<Longrightarrow> r = EXEC_FLAG_FEND \<or> ins_chain m (mcp_PC e')"
proof (induction j arbitrary: s e w)
  case (Suc j)
  let ?s = "s\<lparr>gcp_BackupUserPc := mcp_PC e\<rparr>" and ?run = "plc_run_user_program n k ext d"
  obtain r1 s1 e1 where x: "exec_ci ?run ext ?s e = Some (r1, s1, e1)"
    using Suc.prems(1) by (auto simp: opt_simps)
  have "kept3 (frame ?s) (exec_ci ?run ext ?s e)"
    by (intro frame_exec_ci ext runner_plc_run_user_program refl)
  then have m: "ucode s1 = m"
    using x frame_ucode [of s1 ?s] Suc.prems(2) by simp
  have c: "r1 = EXEC_FLAG_FEND \<or> ins_chain m (mcp_PC e1)"
    using exec_ci_chain [OF ext _ _ _ _ x, of w] Suc.prems(2-5) str [OF Suc.prems(3)] by simp
  show ?case
  proof (cases "r1 = pdPASS")
    case False
    then show ?thesis
      using Suc.prems(1) x c by simp
  next
    case True
    then obtain v where v: "GET_PU16_DATA m (mcp_PC e1) = Some v"
      using Suc.prems(1) x m by (auto simp: opt_simps)
    show ?thesis
    proof (cases "0xF000 \<le> v")
      case True
      then have "0xE000 \<le> v"
        by (simp add: word_le_nat_alt)
      then show ?thesis
        using Suc.IH [OF _ m _ v] c Suc.prems(1) x \<open>r1 = pdPASS\<close> v m True by simp
    next
      case False
      then show ?thesis
        using Suc.prems(1) x \<open>r1 = pdPASS\<close> v m c by simp
    qed
  qed
qed simp

lemma run_pass_chain:
  assumes "ext_ok ext" and str: "\<And>p. ins_chain (ucode s) p \<Longrightarrow> straight_at (ucode s) p"
    and "ins_chain (ucode s) (mcp_PC e)" and "run_pass j (plc_run_user_program n k ext d) ext s e = Some (Inr e', s')"
  shows "ins_chain (ucode s) (mcp_PC e')"
proof -
  let ?run = "plc_run_user_program n k ext d"
  define s0 where "s0 = (next_tick s)\<lparr>gcp_BackupUserPc := mcp_PC e\<rparr>"
  have m: "ucode s0 = ucode s"
    using frame_ucode [of s0 s] by (simp add: s0_def)
  obtain w y s1 where w: "GET_PU16_DATA (ucode s) (mcp_PC e) = Some w"
    and y: "(if w < 0xE000 then pass_simple s0 e else pass_complex j ?run ext s0 e) = Some (y, s1)"
      "(case y of Inl r \<Rightarrow> Some (Inl r, s1) | Inr e1 \<Rightarrow> do { (z, s2) \<leftarrow> pass_end s1; Some (case z of Some r \<Rightarrow> Inl r | None \<Rightarrow> Inr e1, s2) })
       = Some (Inr e', s')"
    using assms(4) m unfolding run_pass_def pass_ins_def Let_def s0_def [symmetric] bind_eq_Some_conv by auto
  have x: "(if w < 0xE000 then pass_simple s0 e else pass_complex j ?run ext s0 e) = Some (Inr e', s1)"
    using y by (cases y) (auto simp: opt_simps split: option.split_asm)
  show ?thesis
  proof (cases "w < 0xE000")
    case True
    then obtain r t where "plc_exec_simple_instruction s0 e = Some (r, t, e')"
      using x by (auto simp: pass_simple_def opt_simps)
    then show ?thesis
      using simple_loop_chain [OF str _ m assms(3)] by (auto simp: plc_exec_simple_instruction_def)
  next
    case False
    then have p: "pass_complex j ?run ext s0 e = Some (Inr e', s1)"
      using x by simp
    then obtain r t e1 where c: "plc_exec_complex_instruction j ?run ext s0 e = Some (r, t, e1)"
      by (auto simp: pass_complex_def opt_simps)
    have "e1 = e' \<and> r \<noteq> EXEC_FLAG_FEND"
      using p c by (cases r) (simp_all add: pass_complex_def opt_simps)
    then have r: "plc_exec_complex_instruction j ?run ext s0 e = Some (r, t, e')" "r \<noteq> EXEC_FLAG_FEND"
      using c by simp_all
    then show ?thesis
      using complex_loop_chain [OF assms(1) str r(1) m assms(3) w] False by (simp add: not_less)
  qed
qed

section \<open>Properties of program runs\<close>

lemma run_frame:
  assumes "ext_ok ext" and "plc_run_user_program n k ext d s pc = Some (r, s')"
  shows "frame s' = frame s"
  using runner_plc_run_user_program [OF assms(1), of n k d] assms(2) by (auto simp: runner_ok_def keeps_def st2_def)

lemma start_env_pc [simp]: "mcp_PC (start_env pc) = pc"
  by (simp add: start_env_def)

lemma fend_run:
  "plc_run_user_program 1 1 ext 1 (boot_state [0x2B, 0xF0]) 0 = Some (EXEC_FLAG_FEND, boot_state [0x2B, 0xF0])"
proof -
  let ?s = "boot_state [0x2B, 0xF0]"
  have w: "GET_PU16_DATA [0x2B, 0xF0] 0 = Some CI_FEND"
    by (simp add: GET_PU16_DATA_def mem_simps bytes_u16_def)
  have "reset_for ?s = Some ?s"
    by (simp add: reset_for_def boot_state_def rd_def wr_def list_update_same_conv)
  moreover have "next_tick ?s = ?s" "?s\<lparr>gcp_BackupUserPc := 0\<rparr> = ?s"
    by (simp_all add: next_tick_def boot_state_def)
  moreover have "exec_ci run ext ?s (start_env 0) = Some (EXEC_FLAG_FEND, ?s, skip 10 (start_env 0))" for run
    by (simp add: exec_ci_def w end_cases adv_def run_ci_fend_ins_def ci_err_def)
  ultimately show ?thesis
    by (simp add: run_pass_def pass_ins_def pass_complex_def w)
qed

text \<open>The state and the machine registers after \<open>i\<close> passes of the loop, when none of them ends it.\<close>

fun passes :: "nat \<Rightarrow> program_runner \<Rightarrow> ext_ins \<Rightarrow> nat \<Rightarrow> plc_state \<Rightarrow> si_env \<Rightarrow> (plc_state \<times> si_env) option" where
  "passes n run ext 0 s e = Some (s, e)"
| "passes n run ext (Suc i) s e =
     do { (x, s') \<leftarrow> run_pass n run ext s e; case x of Inl _ \<Rightarrow> None | Inr e' \<Rightarrow> passes n run ext i s' e' }"

lemma passes_SucD:
  assumes "passes n run ext (Suc i) s e = Some (t, f)"
  obtains s' e' where "run_pass n run ext s e = Some (Inr e', s')" "passes n run ext i s' e' = Some (t, f)"
proof -
  obtain x s' where "run_pass n run ext s e = Some (x, s')"
    using assms by (auto simp: bind_eq_Some_conv)
  then show ?thesis
    using assms that by (cases x) auto
qed

lemma passes_loop: "passes n run ext i s e = Some (t, f) \<Longrightarrow> pass_loop n run ext (i + k) s e = pass_loop n run ext k t f"
proof (induction i arbitrary: s e)
  case (Suc i)
  then show ?case
    by (elim passes_SucD) simp
qed simp

lemma run_pass_frame:
  assumes "ext_ok ext" and "run_pass j (plc_run_user_program n k ext d) ext s e = Some (x, s')"
  shows "frame s' = frame s"
  using frame_run_pass [OF refl runner_plc_run_user_program [OF assms(1), of n k d] assms(1), of s j e] assms(2) by simp

lemma passes_frame:
  assumes "ext_ok ext"
  shows "passes j (plc_run_user_program n k ext d) ext i s e = Some (t, f) \<Longrightarrow> frame t = frame s"
proof (induction i arbitrary: s e)
  case (Suc i)
  then show ?case
    by (elim passes_SucD) (simp add: run_pass_frame [OF assms])
qed simp

text \<open>The program, what the compiler built from it, the interrupt sources and requests, and the sizes of the element areas are the same in both states.\<close>

definition program_kept :: "plc_state \<Rightarrow> plc_state \<Rightarrow> bool" where
  "program_kept s s' \<longleftrightarrow> ucode s' = ucode s \<and> mcp_SbrPc (gtp_CallInsInfoPtr s') = mcp_SbrPc (gtp_CallInsInfoPtr s) \<and>
    mlv_UCodeAddr (gtp_CallInsInfoPtr s') = mlv_UCodeAddr (gtp_CallInsInfoPtr s) \<and>
    msv_UseNum (gtp_CallInsInfoPtr s') = msv_UseNum (gtp_CallInsInfoPtr s) \<and>
    gtp_SbrListPtr s' = gtp_SbrListPtr s \<and> gtp_StlListPtr s' = gtp_StlListPtr s \<and>
    mtv_McMcrHead (gtv_McMcrBlockInfo s') = mtv_McMcrHead (gtv_McMcrBlockInfo s) \<and>
    mtv_IntSource (gtp_InterruptInfo s') = mtv_IntSource (gtp_InterruptInfo s) \<and>
    gtv_InterruptMsgQueue s' = gtv_InterruptMsgQueue s \<and> gtp_PlcElementInfo s' = gtp_PlcElementInfo s \<and>
    wf_state s' = wf_state s"

lemma frame_program_kept: "frame s' = frame s \<Longrightarrow> program_kept s s'"
  using frame_wf [of s' s] by (simp add: frame_def program_kept_def)

text \<open>In place of the instructions that are not modelled: a run that reaches one of them has no result.\<close>

definition unmodelled :: ext_ins where
  "unmodelled w s e = None"

lemma unmodelled_ok: "ext_ok unmodelled"
  by (simp add: ext_ok_def unmodelled_def)

text \<open>C2. The modelled instructions change neither the program nor what the compiler built from it.  As long as a program executes modelled instructions
  only and makes no access outside an array, every state between two passes of the executer, however many passes there are, and the state in which a
  run ends have the same program, tables of subroutines, calls, steps and master-control blocks, interrupt sources and requests,
  and sizes of the element areas as the state in which the run began; the element store is as well-formed as it was.  Subroutine calls are
  runs themselves and included.\<close>

theorem run_keeps_program:
  "(\<forall>j i e t f. passes j (plc_run_user_program n k unmodelled d) unmodelled i s e = Some (t, f) \<longrightarrow> program_kept s t) \<and>
   (\<forall>pc r s'. plc_run_user_program n k unmodelled d s pc = Some (r, s') \<longrightarrow> program_kept s s')"
  using passes_frame [OF unmodelled_ok, of _ n k d _ s] run_frame [OF unmodelled_ok, of n k d s] frame_program_kept by blast

theorem run_keeps_program_witness:
  "\<exists>s'. plc_run_user_program 1 1 unmodelled 1 (boot_state [0x2B, 0xF0]) 0 = Some (EXEC_FLAG_FEND, s') \<and> program_kept (boot_state [0x2B, 0xF0]) s'"
  using run_keeps_program [of 1 1 1 "boot_state [0x2B, 0xF0]"] fend_run [of unmodelled] by blast

text \<open>C4. A program whose instructions are none of CJ, FOR, NEXT, MC, STL, which move the program counter themselves, and none of STRADD and
  STRINSTR, on whose lengths compiler and interpreter differ, is executed along the compiler's boundaries: whatever number of passes the loop makes
  from an instruction that the compiler found, the program counter stands at one.  The interpreter never decodes an operand as an
  instruction.  Subroutine calls are allowed; instructions that are not modelled have to leave program and program counter alone.\<close>

theorem passes_stay_on_boundaries:
  assumes "ext_ok ext" and "\<And>p. ins_chain (ucode s) p \<Longrightarrow> straight_at (ucode s) p"
    and "passes j (plc_run_user_program n k ext d) ext i s e = Some (t, f)" and "ins_chain (ucode s) (mcp_PC e)"
  shows "ins_chain (ucode s) (mcp_PC f)"
  using assms(2-4)
proof (induction i arbitrary: s e)
  case (Suc i)
  obtain s' e' where x: "run_pass j (plc_run_user_program n k ext d) ext s e = Some (Inr e', s')"
    "passes j (plc_run_user_program n k ext d) ext i s' e' = Some (t, f)"
    by (rule passes_SucD [OF Suc.prems(2)])
  have "ucode s' = ucode s"
    by (rule frame_ucode [OF run_pass_frame [OF assms(1) x(1)]])
  then show ?case
    using Suc.IH [OF _ x(2)] Suc.prems(1) run_pass_chain [OF assms(1) Suc.prems(1,3) x(1)] by simp
qed simp

definition nop_code :: "u8 list" where
  "nop_code = replicate 28 0 @ [0, 0xA6, 0xFF, 0xFF]"

lemma nop_code_bytes: "GET_PU8_DATA nop_code 29 = Some 0xA6" "GET_PU8_DATA nop_code 31 = Some 0xFF"
  "GET_PU16_DATA nop_code 28 = Some 0xA600" "GET_PU16_DATA nop_code 30 = Some CI_END"
  by (simp_all add: nop_code_def GET_PU8_DATA_def GET_PU16_DATA_def rd_def nth_append bytes_u16_def)

lemma end_no_len: "map_of ci_lens CI_END = None"
proof -
  have "list_all (\<lambda>(c, n). c \<noteq> CI_END) ci_lens"
    by (simp add: ci_lens_def ci_len_1_def ci_len_2_def ci_len_3_def ci_len_4_def ci_len_5_def ci_len_6_def ci_len_7_def)
  then show ?thesis
    by (auto simp: map_of_eq_None_iff list_all_iff)
qed

lemma nop_code_chain: "ins_chain nop_code p \<Longrightarrow> p = 28 \<or> p = 30"
proof (induction rule: ins_chain.induct)
  case (simple p s b q)
  then show ?case
    by (auto simp: nop_code_bytes plc_move_ucode_ptr_from_simple_ins_def si_len2_def)
next
  case (complex p s b c c' s' q)
  then show ?case
    by (auto simp: nop_code_bytes plc_move_ucode_ptr_from_complex_ins_def end_no_len)
qed simp

lemma nop_code_straight: "ins_chain nop_code p \<Longrightarrow> straight_at nop_code p"
proof (drule nop_code_chain, elim disjE)
  have "plc_move_ucode_ptr_from_simple_ins (boot_state nop_code) 28 = Some (pdPASS, 30)"
    by (simp add: plc_move_ucode_ptr_from_simple_ins_def nop_code_bytes si_len2_def)
  then show "p = 28 \<Longrightarrow> straight_at nop_code p"
    by (auto simp: straight_at_def nop_code_bytes intro!: exI [of _ "boot_state nop_code"])
  show "p = 30 \<Longrightarrow> straight_at nop_code p"
    by (simp add: straight_at_def nop_code_bytes no_case_codes_def jump_codes_def literal_codes_def)
qed

lemma nop_exec:
  "ucode s = nop_code \<Longrightarrow> plc_exec_simple_instruction s (start_env 28) = Some (pdPASS, s\<lparr>gcp_BackupUserPc := 28\<rparr>, start_env 30)"
proof -
  have "decode_si 0xA6 = Some SI_NOP" "si_next 2 0 (start_env 28) = start_env 30" "mlv_InPF (start_env 28) = 0"
    by (simp_all add: decode_si_def si_next_def start_env_def)
  then show "ucode s = nop_code \<Longrightarrow> ?thesis"
    by (simp add: plc_exec_simple_instruction_def exec_simple_loop.simps [of _ "start_env 28"] exec_simple_loop.simps [of _ "start_env 30"] nop_code_bytes)
qed

lemma nop_passes:
  "passes 1 run ext 1 (boot_state nop_code) (start_env 28) = Some ((boot_state nop_code)\<lparr>gcp_BackupUserPc := 28\<rparr>, start_env 30)"
proof -
  let ?s = "(boot_state nop_code)\<lparr>gcp_BackupUserPc := 28\<rparr>"
  have "next_tick (boot_state nop_code) = boot_state nop_code"
    by (simp add: next_tick_def boot_state_def)
  moreover have "get_word_elem SD_AREA ?s 34 = Some 0" "GET_1MS_TICKS_COUNT ?s = 0"
    "mlv_WatchDogTime (gtv_PlcRunStatus ?s) = 0" "mtv_PlcRunStopFlag (gtv_PlcRunStatus ?s) = 0"
    by (simp_all add: get_word_elem_def mem_simps boot_state_def GET_1MS_TICKS_COUNT_def)
  then have "pass_end ?s = Some (None, ?s)"
    by (simp add: pass_end_def plc_judge_run_over_time_def over_time_def)
  ultimately show ?thesis
    by (simp add: run_pass_def pass_ins_def pass_simple_def nop_code_bytes nop_exec)
qed

theorem passes_stay_on_boundaries_witness:
  "passes 1 (plc_run_user_program 1 1 no_ext 1) no_ext 1 (boot_state nop_code) (start_env 28) =
     Some ((boot_state nop_code)\<lparr>gcp_BackupUserPc := 28\<rparr>, start_env 30) \<and> ins_chain nop_code 30"
  using passes_stay_on_boundaries [OF no_ext_ok _ nop_passes, simplified, OF nop_code_straight ins_chain.start] nop_passes
  by simp

text \<open>C5. The watchdog ends a run.  Whatever the program does, when after some passes the instructions of a pass leave a state in which the tick
  counter is more than SD34 milliseconds ahead of the time of the watchdog's restart, modulo 2^32, and no online programming goes on,
  \<open>plc_run_user_program\<close> returns at the end of that pass with \<open>EXEC_FLAG_STOP\<close>, a reason for stopping is set, the error is in the history
  and user interrupts are disabled.\<close>

theorem watchdog_ends_run:
  assumes "reset_for s = Some s1" and "passes n (plc_run_user_program n k ext d) ext i s1 (start_env pc) = Some (t, f)" and "i < k"
    and "pass_ins n (plc_run_user_program n k ext d) ext t f = Some (Inr f', u)"
    and "mcv_IsOnlineProgram (gtv_PlcRunStatus u) = 0" and "get_word_elem SD_AREA u 34 = Some v"
    and "unat v < unat (xTickCount u - mlv_WatchDogTime (gtv_PlcRunStatus u))"
    and "wf_state u" and "23 \<le> unat (bit_rang (gtp_PlcElementInfo u) SM_ELEMENT)" and "25 \<le> length (msp_SDElement (gtv_PlcElement u))"
  shows "\<exists>s'. plc_run_user_program n k ext (Suc d) s pc = Some (EXEC_FLAG_STOP, s') \<and>
    bit (mtv_PlcRunStopFlag (gtv_PlcRunStatus s')) error_status_stop \<and> hd (error_history s') = ucast (ret_code ERR_EXEC_OVER_TIME) \<and>
    mcv_IntEnable (gtp_InterruptInfo s') = 0"
proof -
  have o: "over_time u = Some True"
    using assms(6,7) unat_lt_16 [of v] by (simp add: over_time_def GET_1MS_TICKS_COUNT_def word_less_nat_alt unsigned_ucast_eq take_bit_nat_eq_self)
  obtain v where v: "plc_refresh_error_msg u (ret_code ERR_EXEC_OVER_TIME) = Some v"
    "bit (mtv_PlcRunStopFlag (gtv_PlcRunStatus v)) error_status_stop" "hd (error_history v) = ucast (ret_code ERR_EXEC_OVER_TIME)"
    using refresh_error_msg_ok [OF assms(9,8,10), of "ret_code ERR_EXEC_OVER_TIME"] by (auto simp: stop_code_def split: if_split_asm)
  have e: "run_pass n (plc_run_user_program n k ext d) ext t f = Some (Inl EXEC_FLAG_STOP, plc_user_interrupt_enable 0 v)"
    using assms(4,5) o v(1,2) by (simp add: run_pass_def pass_end_def plc_judge_run_over_time_def)
  obtain j where j: "k = i + Suc j"
    using assms(3) less_iff_Suc_add by auto
  have "plc_run_user_program n k ext (Suc d) s pc = Some (EXEC_FLAG_STOP, plc_user_interrupt_enable 0 v)"
    using assms(1) passes_loop [OF assms(2), of "Suc j"] e by (simp add: j)
  then show ?thesis
    using v by (simp add: plc_user_interrupt_enable_def error_history_def)
qed

definition late :: plc_state where
  "late = (boot_state nop_code)\<lparr>tick_tape := [5]\<rparr>"

definition stopping :: plc_state where
  "stopping = (boot_state [])\<lparr>gtv_PlcRunStatus := (gtv_PlcRunStatus (boot_state []))\<lparr>mtv_PlcRunStopFlag := 0x11, mcv_PlcCurrentStatus := PLC_RUN_STATUS\<rparr>\<rparr>"

theorem watchdog_ends_run_witness:
  "\<exists>s'. plc_run_user_program 1 1 no_ext 1 late 28 = Some (EXEC_FLAG_STOP, s') \<and> bit (mtv_PlcRunStopFlag (gtv_PlcRunStatus s')) error_status_stop"
proof -
  let ?u = "(boot_state nop_code)\<lparr>xTickCount := 5, tick_tape := [], gcp_BackupUserPc := 28\<rparr>"
  have "reset_for late = Some late"
    by (simp add: reset_for_def late_def boot_state_def rd_def wr_def list_update_same_conv)
  moreover have "next_tick late = (boot_state nop_code)\<lparr>xTickCount := 5, tick_tape := []\<rparr>"
    by (simp add: next_tick_def late_def)
  then have "pass_ins 1 (plc_run_user_program 1 1 no_ext 0) no_ext late (start_env 28) = Some (Inr (start_env 30), ?u)"
    by (simp add: pass_ins_def pass_simple_def nop_code_bytes nop_exec)
  moreover have "mcv_IsOnlineProgram (gtv_PlcRunStatus ?u) = 0" "get_word_elem SD_AREA ?u 34 = Some 0"
    "unat (0 :: u16) < unat (xTickCount ?u - mlv_WatchDogTime (gtv_PlcRunStatus ?u))"
    by (simp_all add: get_word_elem_def mem_simps boot_state_def)
  moreover have "wf_state ?u" "23 \<le> unat (bit_rang (gtp_PlcElementInfo ?u) SM_ELEMENT)" "25 \<le> length (msp_SDElement (gtv_PlcElement ?u))"
    using wf_boot [of nop_code] by simp_all
  ultimately show ?thesis
    using watchdog_ends_run [of late late 1 1 no_ext 0 0 28 late "start_env 28" "start_env 30" ?u] by auto
qed

text \<open>C18. A PLC that runs, or is about to, is stopped by two turns of the status switch once a reason for stopping is set, whatever the reasons
  for running and whatever the position of the switch; and it stays stopped as long as the reason remains and the start input is off.\<close>

theorem stop_takes_two_switches:
  assumes "mtv_PlcRunStopFlag (gtv_PlcRunStatus s) AND 0xF0 \<noteq> 0"
    and "mcv_PlcCurrentStatus (gtv_PlcRunStatus s) \<in> {PLC_RUN_STATUS, PLC_STOP_TO_RUN_STATUS}"
    and "input_point s = Some False"
  shows "\<exists>s1 s2. plc_sys_status_switch s = Some s1 \<and> mcv_PlcCurrentStatus (gtv_PlcRunStatus s1) = PLC_RUN_TO_STOP_STATUS \<and>
    plc_sys_status_switch s1 = Some s2 \<and> mcv_PlcCurrentStatus (gtv_PlcRunStatus s2) = PLC_STOP_STATUS \<and>
    plc_sys_status_switch s2 = Some s2"
proof -
  let ?t = "gtv_PlcRunStatus s"
  let ?s = "\<lambda>c. s\<lparr>gtv_PlcRunStatus := ?t\<lparr>mcv_PlcRunSwitch := PLC_STOP, mcv_PlcCurrentStatus := c\<rparr>\<rparr>"
  have r: "run_switch (?t\<lparr>mcv_PlcRunSwitch := w, mcv_PlcCurrentStatus := c\<rparr>) = ?t\<lparr>mcv_PlcRunSwitch := PLC_STOP, mcv_PlcCurrentStatus := c\<rparr>"
    "run_switch ?t = ?t\<lparr>mcv_PlcRunSwitch := PLC_STOP\<rparr>" for w c
    using assms(1) by (simp_all add: run_switch_def Let_def)
  have a: "plc_sys_status_switch s = Some (?s PLC_RUN_TO_STOP_STATUS)"
  proof -
    have "next_status (?t\<lparr>mcv_PlcRunSwitch := PLC_STOP\<rparr>) = PLC_RUN_TO_STOP_STATUS" "mcv_PlcCurrentStatus ?t \<noteq> PLC_STOP_STATUS"
      using assms(2) by (auto simp: next_status_def)
    then show ?thesis
      by (simp add: plc_sys_status_switch_def r(2))
  qed
  have b: "plc_sys_status_switch (?s PLC_RUN_TO_STOP_STATUS) = Some (?s PLC_STOP_STATUS)"
    by (simp add: plc_sys_status_switch_def r next_status_def Let_def)
  have "input_point (?s PLC_STOP_STATUS) = Some False"
  proof -
    have "get_bit_elem b (?s PLC_STOP_STATUS) i = get_bit_elem b s i" "get_word_elem x (?s PLC_STOP_STATUS) i = get_word_elem x s i" for b x i
      by (simp_all add: get_bit_elem_def get_word_elem_def)
    then show ?thesis
      using assms(3) by (simp only: input_point_def)
  qed
  then have c: "plc_sys_status_switch (?s PLC_STOP_STATUS) = Some (?s PLC_STOP_STATUS)"
    by (simp add: plc_sys_status_switch_def r next_status_def Let_def)
  show ?thesis
    by (intro exI conjI, rule a, simp, rule b, simp, rule c)
qed

theorem stop_takes_two_switches_witness:
  "\<exists>s1 s2. plc_sys_status_switch stopping = Some s1 \<and> plc_sys_status_switch s1 = Some s2 \<and>
    mcv_PlcCurrentStatus (gtv_PlcRunStatus s2) = PLC_STOP_STATUS"
proof -
  have "input_point stopping = Some False"
    by (simp add: stopping_def input_point_def get_bit_elem_def get_bit_alt mem_simps Let_def)
  then show ?thesis
    using stop_takes_two_switches [of stopping] by (auto simp: stopping_def)
qed

end
