(* ===== verification/PLC_Interrupt.thy ===== *)
theory PLC_Interrupt
  imports PLC_Program
begin

text \<open>
  User interrupts, \<open>source/plc/interrupt/src/plc_interrupt.c\<close> and the timed interrupts of
  \<open>source/plc/portable/src/port_clockcycle.c\<close>: requests enter a message queue of the RTOS, a task takes them out and
  runs the interrupt program.  The queue has room for 30 messages; a message sent to a full queue is lost.
\<close>

section \<open>Requests\<close>

definition INT_QUEUE_LEN :: nat where
  "INT_QUEUE_LEN = 30"

definition plc_user_interrupt_init :: "plc_state \<Rightarrow> plc_state" where
  "plc_user_interrupt_init s =
     s\<lparr>gtp_InterruptInfo := \<lparr>mcv_IntEnable = 0, mtv_IntSource = replicate MAX_SYS_INT_NUM
         \<lparr>mcv_Priority = 0, mcv_IntFlag = 1, mcv_Count = 0, mcp_IntPara = None\<rparr>\<rparr>\<rparr>"

text \<open>\<open>xQueueSendToBack\<close> and \<open>xQueueSendToFront\<close>, in their variants for tasks and interrupt routines.\<close>

definition send_back :: "u8 \<Rightarrow> u8 list \<Rightarrow> u8 list" where
  "send_back n q = (if length q < INT_QUEUE_LEN then q @ [n] else q)"

definition send_front :: "u8 \<Rightarrow> u8 list \<Rightarrow> u8 list" where
  "send_front n q = (if length q < INT_QUEUE_LEN then n # q else q)"

definition put_source :: "u8 \<Rightarrow> plc_interrupt_source_st \<Rightarrow> plc_state \<Rightarrow> plc_state option" where
  "put_source n x s =
     do { xs \<leftarrow> wr (mtv_IntSource (gtp_InterruptInfo s)) (unat n) x;
          Some (s\<lparr>gtp_InterruptInfo := (gtp_InterruptInfo s)\<lparr>mtv_IntSource := xs\<rparr>\<rparr>) }"

definition get_source :: "u8 \<Rightarrow> plc_state \<Rightarrow> plc_interrupt_source_st option" where
  "get_source n s = rd (mtv_IntSource (gtp_InterruptInfo s)) (unat n)"

definition plc_add_int_to_interrupt_queue :: "u8 \<Rightarrow> plc_state \<Rightarrow> plc_state option" where
  "plc_add_int_to_interrupt_queue n s =
     (if mcv_IntEnable (gtp_InterruptInfo s) = 0 then Some s
      else if MAX_SYS_INT_NUM < unat n then Some s
      else do {
        x \<leftarrow> get_source n s;
        if mcv_IntFlag x AND 0x02 = 0 then Some s
        else if mcv_IntFlag x AND 0x01 \<noteq> 0 \<and> mcv_Count x \<noteq> 0 then Some s
        else do {
          s1 \<leftarrow> put_source n (x\<lparr>mcv_Count := mcv_Count x + 1\<rparr>) s;
          let q = gtv_InterruptMsgQueue s1;
          Some (s1\<lparr>gtv_InterruptMsgQueue := if mcv_Priority x = 0 then send_back n q else send_front n q\<rparr>) } })"

section \<open>The task\<close>

text \<open>The loop of \<open>interrupt_task\<close> in the parts between which other tasks and interrupt routines run: it takes a message, runs the interrupt
  program in a critical section, and counts the request off.  \<open>interrupt_task_step\<close> is one turn of the loop; with an empty queue the
  task waits.  A source without program has a null pointer.\<close>

definition interrupt_take :: "plc_state \<Rightarrow> (u8 option \<times> plc_state) option" where
  "interrupt_take s =
     (case gtv_InterruptMsgQueue s of
        [] \<Rightarrow> Some (None, s)
      | n # q \<Rightarrow>
          let s1 = s\<lparr>gtv_InterruptMsgQueue := q\<rparr> in
          if mcv_IntEnable (gtp_InterruptInfo s1) = 0 then Some (None, s1)
          else do { x \<leftarrow> get_source n s1; Some (if mcv_Count x = 0 then None else Some n, s1) })"

definition interrupt_serve :: "program_runner \<Rightarrow> u8 \<Rightarrow> plc_state \<Rightarrow> plc_state option" where
  "interrupt_serve run n s =
     do { x \<leftarrow> get_source n s; pc \<leftarrow> mcp_IntPara x; (_, s') \<leftarrow> run s pc; Some s' }"

definition interrupt_done :: "u8 \<Rightarrow> plc_state \<Rightarrow> plc_state option" where
  "interrupt_done n s = do { x \<leftarrow> get_source n s; put_source n (x\<lparr>mcv_Count := mcv_Count x - 1\<rparr>) s }"

definition interrupt_task_step :: "program_runner \<Rightarrow> plc_state \<Rightarrow> plc_state option" where
  "interrupt_task_step run s =
     do { (x, s1) \<leftarrow> interrupt_take s;
          case x of
            None \<Rightarrow> Some s1
          | Some n \<Rightarrow> do { s2 \<leftarrow> interrupt_serve run n s1; interrupt_done n s2 } }"

section \<open>Timed interrupts\<close>

text \<open>The counters \<open>ssv_TimeIntSM66Value\<close>, \<open>ssv_TimeIntSM67Value\<close> and \<open>ssv_TimeIntSM68Value\<close>; the element that enables a timed
  interrupt and the one that holds its period have the same number.\<close>

definition time_int :: "u16 \<Rightarrow> u8 \<Rightarrow> u16 \<times> plc_state \<Rightarrow> (u16 \<times> plc_state) option" where
  "time_int k n = (\<lambda>(c, s).
     do { b \<leftarrow> get_bit_elem SM_ELEMENT s k;
          p \<leftarrow> get_word_elem SD_AREA s k;
          if b = 0 \<or> p = 0 then Some (c, s)
          else if p < c + 1 then do { s1 \<leftarrow> plc_add_int_to_interrupt_queue n s; Some (0, s1) }
          else Some (c + 1, s) })"

definition vApplicationTickHook :: "(u16 \<times> u16 \<times> u16) \<Rightarrow> plc_state \<Rightarrow> ((u16 \<times> u16 \<times> u16) \<times> plc_state) option" where
  "vApplicationTickHook cs s =
     (case cs of (c0, c1, c2) \<Rightarrow>
        if mcv_IntEnable (gtp_InterruptInfo s) = 0 then Some (cs, s)
        else if mcv_PlcCurrentStatus (gtv_PlcRunStatus s) \<noteq> 2 then Some (cs, s)
        else do {
          (d0, s0) \<leftarrow> time_int 66 16 (c0, s);
          (d1, s1) \<leftarrow> time_int 67 17 (c1, s0);
          (d2, s2) \<leftarrow> time_int 68 18 (c2, s1);
          Some ((d0, d1, d2), s2) })"

section \<open>Interleavings\<close>

text \<open>Where the task stands in its loop, and the steps of the system between two starts of the PLC: a request from an interrupt routine, a tick, a part of
  the task's loop, an EI or DI, and a run of the user program.\<close>

datatype task_phase = Waiting | Taken u8 | Served u8

inductive int_step :: "program_runner \<Rightarrow> task_phase \<times> plc_state \<Rightarrow> task_phase \<times> plc_state \<Rightarrow> bool" for run where
  request: "plc_add_int_to_interrupt_queue n s = Some s' \<Longrightarrow> int_step run (p, s) (p, s')"
| tick: "vApplicationTickHook cs s = Some (cs', s') \<Longrightarrow> int_step run (p, s) (p, s')"
| take: "interrupt_take s = Some (x, s') \<Longrightarrow> int_step run (Waiting, s) (case x of None \<Rightarrow> Waiting | Some n \<Rightarrow> Taken n, s')"
| serve: "interrupt_serve run n s = Some s' \<Longrightarrow> int_step run (Taken n, s) (Served n, s')"
| finish: "interrupt_done n s = Some s' \<Longrightarrow> int_step run (Served n, s) (Waiting, s')"
| enable: "int_step run (p, s) (p, plc_user_interrupt_enable v s)"
| scan: "run s pc = Some (r, s') \<Longrightarrow> int_step run (p, s) (p, s')"

text \<open>With the starts: \<open>plc_user_interrupt_init\<close> resets the sources and not the queue, so a start is taken when no request is left; the compiler
  then enters the interrupt programs one by one.\<close>

inductive int_run :: "program_runner \<Rightarrow> task_phase \<times> plc_state \<Rightarrow> task_phase \<times> plc_state \<Rightarrow> bool" for run where
  go: "int_step run c c' \<Longrightarrow> int_run run c c'"
| start: "gtv_InterruptMsgQueue s = [] \<Longrightarrow> int_run run (Waiting, s) (Waiting, plc_user_interrupt_init s)"
| enter: "comp_intr c s pc = Some (r, c', s', pc') \<Longrightarrow> int_run run (p, s) (p, s')"

text \<open>How often a request of source \<open>n\<close> is under way, in the queue or with the task.\<close>

fun in_phase :: "u8 \<Rightarrow> task_phase \<Rightarrow> nat" where
  "in_phase n Waiting = 0"
| "in_phase n (Taken m) = (if n = m then 1 else 0)"
| "in_phase n (Served m) = (if n = m then 1 else 0)"

definition pending :: "u8 \<Rightarrow> task_phase \<times> plc_state \<Rightarrow> nat" where
  "pending n c = count_list (gtv_InterruptMsgQueue (snd c)) n + in_phase n (fst c)"

text \<open>A source with bit 0 of its flags set is taken one at a time.\<close>

definition single :: "plc_interrupt_source_st \<Rightarrow> bool" where
  "single x \<longleftrightarrow> mcv_IntFlag x AND 0x01 \<noteq> 0"

definition int_inv :: "task_phase \<times> plc_state \<Rightarrow> bool" where
  "int_inv c \<longleftrightarrow> length (gtv_InterruptMsgQueue (snd c)) \<le> INT_QUEUE_LEN \<and>
     (\<forall>n x. get_source n (snd c) = Some x \<longrightarrow> single x \<longrightarrow> pending n c \<le> unat (mcv_Count x) \<and> mcv_Count x \<le> 1)"

definition gone :: "u8 \<Rightarrow> task_phase \<times> plc_state \<Rightarrow> bool" where
  "gone n c \<longleftrightarrow> pending n c = 0 \<and> (\<exists>x. get_source n (snd c) = Some x \<and> single x \<and> mcv_Count x \<noteq> 0)"

lemma int_invD:
  "int_inv (p, s) \<Longrightarrow> get_source n s = Some x \<Longrightarrow> single x \<Longrightarrow> pending n (p, s) \<le> unat (mcv_Count x) \<and> mcv_Count x \<le> 1"
  "int_inv (p, s) \<Longrightarrow> length (gtv_InterruptMsgQueue s) \<le> INT_QUEUE_LEN"
  by (auto simp: int_inv_def)

lemma source_put: "put_source n x s = Some s' \<Longrightarrow> get_source m s' = (if m = n then Some x else get_source m s)"
  by (auto simp: put_source_def get_source_def opt_simps wr_def rd_def split: if_split_asm)

lemma queue_put: "put_source n x s = Some s' \<Longrightarrow> gtv_InterruptMsgQueue s' = gtv_InterruptMsgQueue s"
  by (auto simp: put_source_def opt_simps)

lemma source_queue [simp]: "get_source n (s\<lparr>gtv_InterruptMsgQueue := q\<rparr>) = get_source n s"
  by (simp add: get_source_def)

lemma send_count: "count_list (send_back n q) m \<le> count_list q m + (if m = n then 1 else 0)"
  "count_list (send_front n q) m \<le> count_list q m + (if m = n then 1 else 0)"
  "length q \<le> INT_QUEUE_LEN \<Longrightarrow> length (send_back n q) \<le> INT_QUEUE_LEN" "length q \<le> INT_QUEUE_LEN \<Longrightarrow> length (send_front n q) \<le> INT_QUEUE_LEN"
  by (simp_all add: send_back_def send_front_def)

lemma request_cases:
  assumes "plc_add_int_to_interrupt_queue n s = Some s'"
  obtains "s' = s"
  | x where "get_source n s = Some x" "single x \<longrightarrow> mcv_Count x = 0"
      "\<And>m. get_source m s' = (if m = n then Some (x\<lparr>mcv_Count := mcv_Count x + 1\<rparr>) else get_source m s)"
      "gtv_InterruptMsgQueue s' \<in> {send_back n (gtv_InterruptMsgQueue s), send_front n (gtv_InterruptMsgQueue s)}"
proof (cases "s' = s")
  case False
  then obtain x s1 where x: "get_source n s = Some x" "single x \<longrightarrow> mcv_Count x = 0"
    and s1: "put_source n (x\<lparr>mcv_Count := mcv_Count x + 1\<rparr>) s = Some s1"
    and q: "s' = s1\<lparr>gtv_InterruptMsgQueue := if mcv_Priority x = 0 then send_back n (gtv_InterruptMsgQueue s1) else send_front n (gtv_InterruptMsgQueue s1)\<rparr>"
  proof -
    obtain x where x: "get_source n s = Some x"
      using assms False by (auto simp: plc_add_int_to_interrupt_queue_def opt_simps split: if_split_asm)
    then have c: "\<not> (single x \<and> mcv_Count x \<noteq> 0)"
      using assms False by (auto simp: plc_add_int_to_interrupt_queue_def single_def split: if_split_asm)
    define f where "f s1 = s1\<lparr>gtv_InterruptMsgQueue := if mcv_Priority x = 0 then send_back n (gtv_InterruptMsgQueue s1) else send_front n (gtv_InterruptMsgQueue s1)\<rparr>" for s1 :: plc_state
    have "do { s1 \<leftarrow> put_source n (x\<lparr>mcv_Count := mcv_Count x + 1\<rparr>) s; Some (f s1) } = Some s'"
      using assms False x c unfolding plc_add_int_to_interrupt_queue_def single_def Let_def by (simp add: f_def split: if_split_asm)
    then obtain s1 where s1: "put_source n (x\<lparr>mcv_Count := mcv_Count x + 1\<rparr>) s = Some s1" "s' = f s1"
      unfolding bind_eq_Some_conv by (elim exE conjE) simp
    show thesis
      by (rule that [OF x _ s1(1) s1(2) [unfolded f_def]]) (use c in simp)
  qed
  show ?thesis
  proof (rule that(2) [OF x])
    show "get_source m s' = (if m = n then Some (x\<lparr>mcv_Count := mcv_Count x + 1\<rparr>) else get_source m s)" for m
      using source_put [OF s1, of m] q by simp
    show "gtv_InterruptMsgQueue s' \<in> {send_back n (gtv_InterruptMsgQueue s), send_front n (gtv_InterruptMsgQueue s)}"
      using queue_put [OF s1] q by simp
  qed
qed (rule that(1))

text \<open>A tick is at most three requests.\<close>

lemma time_int_request:
  "time_int k n (c, s) = Some (c', s') \<Longrightarrow> s' = s \<or> plc_add_int_to_interrupt_queue n s = Some s'"
  by (auto simp: time_int_def opt_simps split: if_split_asm)

lemma tick_induct:
  assumes "vApplicationTickHook cs s = Some (cs', s')" and "P s"
    and step: "\<And>n s s'. plc_add_int_to_interrupt_queue n s = Some s' \<Longrightarrow> P s \<Longrightarrow> P s'"
  shows "P s'"
proof -
  have t: "P u'" if "time_int k n (c, u) = Some (c', u')" "P u" for k n c u c' u'
    using time_int_request [OF that(1)] step that(2) by auto
  show ?thesis
    using assms(1,2) by (auto simp: vApplicationTickHook_def opt_simps split: prod.split_asm if_split_asm dest!: t)
qed

lemma take_cases:
  assumes "interrupt_take s = Some (x, s')"
  obtains "x = None" "s' = s"
  | n q where "gtv_InterruptMsgQueue s = n # q" "s' = s\<lparr>gtv_InterruptMsgQueue := q\<rparr>" "x = None \<or> x = Some n"
  using assms by (auto simp: interrupt_take_def opt_simps Let_def split: list.split_asm if_split_asm)

lemma request_inv: "plc_add_int_to_interrupt_queue n s = Some s' \<Longrightarrow> int_inv (p, s) \<Longrightarrow> int_inv (p, s')"
proof (elim request_cases)
  fix x
  assume i: "int_inv (p, s)" and x: "get_source n s = Some x" "single x \<longrightarrow> mcv_Count x = 0"
    "\<And>m. get_source m s' = (if m = n then Some (x\<lparr>mcv_Count := mcv_Count x + 1\<rparr>) else get_source m s)"
    and q: "gtv_InterruptMsgQueue s' \<in> {send_back n (gtv_InterruptMsgQueue s), send_front n (gtv_InterruptMsgQueue s)}"
  have l: "length (gtv_InterruptMsgQueue s') \<le> INT_QUEUE_LEN"
    using i q send_count(3,4) by (auto simp: int_inv_def)
  have p: "pending m (p, s') \<le> pending m (p, s) + (if m = n then 1 else 0)" for m
    using q send_count(1,2) [of n "gtv_InterruptMsgQueue s" m] by (auto simp: pending_def)
  have "pending m (p, s') \<le> unat (mcv_Count y) \<and> mcv_Count y \<le> 1" if "get_source m s' = Some y" "single y" for m y
  proof (cases "m = n")
    case True
    then have "single x"
      using x(3) [of n] that by (auto simp: single_def)
    then have "y = x\<lparr>mcv_Count := 1\<rparr>" "pending n (p, s) = 0"
      using int_invD(1) [OF i x(1)] x(2) x(3) [of n] that True by auto
    then show ?thesis
      using p [of m] True by simp
  next
    case False
    then show ?thesis
      using int_invD(1) [OF i, of m y] x(3) [of m] that p [of m] by auto
  qed
  then show "int_inv (p, s')"
    using l by (simp add: int_inv_def)
qed simp

lemma frame_queue: "frame s' = frame s \<Longrightarrow> gtv_InterruptMsgQueue s' = gtv_InterruptMsgQueue s" "frame s' = frame s \<Longrightarrow> get_source n s' = get_source n s"
  by (simp_all add: frame_def get_source_def)

lemma runner_frame: "runner_ok run \<Longrightarrow> run s pc = Some (r, s') \<Longrightarrow> frame s' = frame s"
  by (auto simp: runner_ok_def keeps_def st2_def)

lemma serve_frame: "runner_ok run \<Longrightarrow> interrupt_serve run n s = Some s' \<Longrightarrow> frame s' = frame s"
  by (auto simp: interrupt_serve_def opt_simps dest: runner_frame)

lemma frame_pending: "frame s' = frame s \<Longrightarrow> pending n (p, s') = pending n (p, s)"
  by (simp only: pending_def frame_queue(1) [of s' s] snd_conv fst_conv)

lemma frame_inv: "frame s' = frame s \<Longrightarrow> int_inv (p, s') = int_inv (p, s)"
  by (simp only: int_inv_def frame_queue [of s' s] frame_pending [of s' s] snd_conv)

lemma finish_inv:
  assumes "interrupt_done n s = Some s'" and "int_inv (Served n, s)"
  shows "int_inv (Waiting, s')"
proof -
  obtain x where x: "get_source n s = Some x" "put_source n (x\<lparr>mcv_Count := mcv_Count x - 1\<rparr>) s = Some s'"
    using assms(1) by (auto simp: interrupt_done_def opt_simps)
  have "pending m (Waiting, s') \<le> unat (mcv_Count y) \<and> mcv_Count y \<le> 1" if y: "get_source m s' = Some y" "single y" for m y
  proof (cases "m = n")
    case True
    then have "single x" "y = x\<lparr>mcv_Count := mcv_Count x - 1\<rparr>"
      using y source_put [OF x(2)] by (auto simp: single_def)
    moreover have "count_list (gtv_InterruptMsgQueue s) n + 1 \<le> unat (mcv_Count x)" "unat (mcv_Count x) \<le> 1"
      using int_invD(1) [OF assms(2) x(1) \<open>single x\<close>] by (auto simp: pending_def word_le_nat_alt)
    moreover from this have "unat (mcv_Count x) = 1"
      by linarith
    then have "mcv_Count x = 1"
      by (simp add: word_unat_eq_iff)
    ultimately show ?thesis
      using True queue_put [OF x(2)] by (simp add: pending_def)
  next
    case False
    then show ?thesis
      using int_invD(1) [OF assms(2), of m y] y source_put [OF x(2)] queue_put [OF x(2)] by (auto simp: pending_def)
  qed
  then show ?thesis
    using assms(2) queue_put [OF x(2)] by (simp add: int_inv_def)
qed

lemma take_inv:
  assumes "interrupt_take s = Some (x, s')" and "int_inv (Waiting, s)"
  shows "int_inv (case x of None \<Rightarrow> Waiting | Some n \<Rightarrow> Taken n, s')"
  using assms(1)
proof (cases rule: take_cases)
  case (2 n q)
  have p: "pending m (case x of None \<Rightarrow> Waiting | Some n \<Rightarrow> Taken n, s') \<le> pending m (Waiting, s)" for m
    using 2 by (auto simp: pending_def)
  have "pending m (case x of None \<Rightarrow> Waiting | Some n \<Rightarrow> Taken n, s') \<le> unat (mcv_Count y) \<and> mcv_Count y \<le> 1"
    if "get_source m s = Some y" "single y" for m y
    using int_invD(1) [OF assms(2) that] p [of m] by auto
  then show ?thesis
    using assms(2) 2(1,2) by (simp add: int_inv_def)
qed (use assms(2) in simp)

lemma enable_queue [simp]:
  "gtv_InterruptMsgQueue (plc_user_interrupt_enable v s) = gtv_InterruptMsgQueue s" "get_source n (plc_user_interrupt_enable v s) = get_source n s"
  by (simp_all add: plc_user_interrupt_enable_def get_source_def)

lemma int_step_inv:
  assumes "runner_ok run" and "int_step run c c'" and "int_inv c"
  shows "int_inv c'"
  using assms(2,3)
proof (induction rule: int_step.induct)
  case (request n s s' p)
  then show ?case
    by (rule request_inv)
next
  case (tick cs s cs' s' p)
  then show ?case
    using tick_induct [of cs s cs' s' "\<lambda>s. int_inv (p, s)"] request_inv by blast
next
  case (take s x s')
  then show ?case
    by (rule take_inv)
next
  case (serve n s s')
  then have "int_inv (Taken n, s')"
    using frame_inv [OF serve_frame [OF assms(1)]] by blast
  then show ?case
    by (simp add: int_inv_def pending_def)
next
  case (finish n s s')
  then show ?case
    by (rule finish_inv)
next
  case (enable p s v)
  then show ?case
    by (simp add: int_inv_def pending_def)
next
  case (scan s pc r s' p)
  then show ?case
    using frame_inv [OF runner_frame [OF assms(1)]] by blast
qed

lemma steps_keep:
  assumes "R\<^sup>*\<^sup>* c c'" and "I c" and "\<And>c c'. R c c' \<Longrightarrow> I c \<Longrightarrow> I c'"
  shows "I c'"
  using assms by (induction rule: rtranclp_induct) blast+

lemma start_inv: "gtv_InterruptMsgQueue s = [] \<Longrightarrow> int_inv (Waiting, plc_user_interrupt_init s)"
  by (auto simp: int_inv_def pending_def plc_user_interrupt_init_def get_source_def rd_def split: if_split_asm)

lemma enter_source:
  assumes "comp_intr c s pc = Some (r, c', s', pc')" and "get_source m s' = Some y"
  shows "\<exists>x. get_source m s = Some x \<and> mcv_Count y = mcv_Count x \<and> single y = single x"
proof -
  have o: "(f OR 2) AND 1 = f AND 1" for f :: u8
    by (rule bit_word_eqI) (auto simp: bit_simps)
  show ?thesis
    using assms o
    by (auto simp: comp_intr_def get_source_def single_def Let_def opt_simps wr_def rd_def nth_list_update split: if_split_asm)
qed

lemma enter_inv:
  assumes "comp_intr c s pc = Some (r, c', s', pc')" and "int_inv (p, s)"
  shows "int_inv (p, s')"
proof -
  have q: "gtv_InterruptMsgQueue s' = gtv_InterruptMsgQueue s"
    using assms(1) by (auto simp: comp_intr_def Let_def opt_simps split: if_split_asm)
  have "pending m (p, s') \<le> unat (mcv_Count y) \<and> mcv_Count y \<le> 1" if y: "get_source m s' = Some y" "single y" for m y
  proof -
    obtain x where "get_source m s = Some x" "mcv_Count y = mcv_Count x" "single y = single x"
      using enter_source [OF assms(1) y(1)] by blast
    then show ?thesis
      using int_invD(1) [OF assms(2), of m x] y(2) q by (simp add: pending_def)
  qed
  then show ?thesis
    using int_invD(2) [OF assms(2)] q by (simp add: int_inv_def)
qed

lemma int_run_inv: "runner_ok run \<Longrightarrow> int_run run c c' \<Longrightarrow> int_inv c \<Longrightarrow> int_inv c'"
  by (erule int_run.cases) (auto intro: int_step_inv start_inv enter_inv)

text \<open>C9. In every interleaving of requests, ticks, scans, EI and DI with the interrupt task, and over starts of the PLC that find no request left, the queue
  holds at most 30 requests, and a source that is taken one at a time has at most one request under way: never two in the queue, and
  none in the queue while its program runs or its request has just been taken.  Its count is then 1; the count may also be 1 with no request under
  way, but is never more.  Instructions that are not modelled have to leave sources and queue alone.\<close>

theorem interrupt_once:
  assumes "ext_ok ext" and "(int_run (plc_run_user_program n k ext d))\<^sup>*\<^sup>* (Waiting, s) (p, s')"
    and "gtv_InterruptMsgQueue s = []" and "\<And>m x. get_source m s = Some x \<Longrightarrow> mcv_Count x = 0"
    and "get_source m s' = Some x" and "mcv_IntFlag x AND 0x01 \<noteq> 0"
  shows "length (gtv_InterruptMsgQueue s') \<le> 30 \<and>
    count_list (gtv_InterruptMsgQueue s') m + (if p \<in> {Taken m, Served m} then 1 else 0) \<le> unat (mcv_Count x) \<and> mcv_Count x \<le> 1"
proof -
  have "int_inv (Waiting, s)"
    using assms(3,4) by (auto simp: int_inv_def pending_def INT_QUEUE_LEN_def)
  then have i: "int_inv (p, s')"
    using steps_keep [OF assms(2), of int_inv] int_run_inv [OF runner_plc_run_user_program [OF assms(1)]] by blast
  have "in_phase m p = (if p \<in> {Taken m, Served m} then 1 else 0)"
    by (cases p) auto
  then show ?thesis
    using int_invD(1) [OF i assms(5)] int_invD(2) [OF i] assms(6) by (simp add: pending_def single_def INT_QUEUE_LEN_def)
qed

lemma gone_frame: "frame s' = frame s \<Longrightarrow> gone n (p, s') = gone n (p, s)"
  by (simp only: gone_def frame_queue [of s' s] frame_pending [of s' s] snd_conv)

lemma gone_request: "plc_add_int_to_interrupt_queue m s = Some s' \<Longrightarrow> gone n (p, s) \<Longrightarrow> gone n (p, s')"
proof (elim request_cases)
  fix x
  assume g: "gone n (p, s)" and x: "get_source m s = Some x" "single x \<longrightarrow> mcv_Count x = 0"
    "\<And>k. get_source k s' = (if k = m then Some (x\<lparr>mcv_Count := mcv_Count x + 1\<rparr>) else get_source k s)"
    and q: "gtv_InterruptMsgQueue s' \<in> {send_back m (gtv_InterruptMsgQueue s), send_front m (gtv_InterruptMsgQueue s)}"
  have "m \<noteq> n"
    using g x(1,2) by (auto simp: gone_def)
  then show "gone n (p, s')"
    using g x(3) [of n] q send_count(1,2) [of m "gtv_InterruptMsgQueue s" n] by (auto simp: gone_def pending_def)
qed simp

lemma gone_step:
  assumes "runner_ok run" and "int_step run c c'" and "gone n c"
  shows "gone n c'"
  using assms(2,3)
proof (induction rule: int_step.induct)
  case (request m s s' p)
  then show ?case
    by (rule gone_request)
next
  case (tick cs s cs' s' p)
  then show ?case
    using tick_induct [of cs s cs' s' "\<lambda>s. gone n (p, s)"] gone_request by blast
next
  case (take s x s')
  then show ?case
    by (elim take_cases) (auto simp: gone_def pending_def split: if_split_asm)
next
  case (serve m s s')
  then have "gone n (Taken m, s')"
    using gone_frame [OF serve_frame [OF assms(1)]] by blast
  then show ?case
    by (simp add: gone_def pending_def)
next
  case (finish m s s')
  then obtain x where x: "get_source m s = Some x" "put_source m (x\<lparr>mcv_Count := mcv_Count x - 1\<rparr>) s = Some s'"
    by (auto simp: interrupt_done_def opt_simps)
  then show ?case
    using finish.prems source_put [OF x(2), of n] queue_put [OF x(2)] by (auto simp: gone_def pending_def split: if_split_asm)
next
  case (enable p s v)
  then show ?case
    by (simp add: gone_def pending_def)
next
  case (scan s pc r s' p)
  then show ?case
    using gone_frame [OF runner_frame [OF assms(1)]] by blast
qed

text \<open>C38. A request that the task takes while user interrupts are disabled (DI) is lost, and with it its source until the next start of the PLC: the task
  drops the message without counting it off, so that a source that is taken one at a time is not queued again, in whatever order the
  system goes on, EI included.\<close>

theorem lost_interrupt:
  assumes "ext_ok ext" and "int_inv (Waiting, s)" and "gtv_InterruptMsgQueue s = m # q" and "mcv_IntEnable (gtp_InterruptInfo s) = 0"
    and "get_source m s = Some x" and "mcv_IntFlag x AND 0x01 \<noteq> 0" and "interrupt_take s = Some (y, s')"
    and "(int_step (plc_run_user_program n k ext d))\<^sup>*\<^sup>* (Waiting, s') (p, s'')"
  shows "y = None \<and> m \<notin> set (gtv_InterruptMsgQueue s'') \<and> p \<notin> {Taken m, Served m}"
proof -
  have y: "y = None" "s' = s\<lparr>gtv_InterruptMsgQueue := q\<rparr>"
    using assms(3,4,7) by (simp_all add: interrupt_take_def)
  have "count_list (gtv_InterruptMsgQueue s) m \<le> unat (mcv_Count x)" "unat (mcv_Count x) \<le> 1"
    using int_invD(1) [OF assms(2,5)] assms(6) by (auto simp: single_def pending_def word_le_nat_alt)
  then have "count_list q m = 0" "mcv_Count x \<noteq> 0"
    using assms(3) by auto
  then have "gone m (Waiting, s')"
    using assms(5,6) y(2) by (auto simp: gone_def pending_def single_def)
  then have "gone m (p, s'')"
    using steps_keep [OF assms(8), of "gone m"] gone_step [OF runner_plc_run_user_program [OF assms(1)]] by blast
  then show ?thesis
    using y(1) by (auto simp: gone_def pending_def count_list_0_iff)
qed

text \<open>A system with interrupts enabled and one source with an interrupt program.\<close>

definition int_source :: plc_interrupt_source_st where
  "int_source = \<lparr>mcv_Priority = 0, mcv_IntFlag = 3, mcv_Count = 0, mcp_IntPara = Some 0\<rparr>"

definition int_start :: plc_state where
  "int_start = (boot_state [0x2B, 0xF0])\<lparr>gtp_InterruptInfo := \<lparr>mcv_IntEnable = 1, mtv_IntSource = [int_source]\<rparr>\<rparr>"

definition int_queued :: plc_state where
  "int_queued = int_start\<lparr>gtp_InterruptInfo := \<lparr>mcv_IntEnable = 1, mtv_IntSource = [int_source\<lparr>mcv_Count := 1\<rparr>]\<rparr>, gtv_InterruptMsgQueue := [0]\<rparr>"

lemma int_start_source: "get_source m int_start = (if m = 0 then Some int_source else None)"
  "get_source m int_queued = (if m = 0 then Some (int_source\<lparr>mcv_Count := 1\<rparr>) else None)"
  by (auto simp: get_source_def int_start_def int_queued_def rd_def unat_eq_zero)

lemma int_start_request: "plc_add_int_to_interrupt_queue 0 int_start = Some int_queued"
  by (simp add: plc_add_int_to_interrupt_queue_def int_start_source int_source_def)
    (simp add: put_source_def wr_def int_start_def int_queued_def int_source_def send_back_def INT_QUEUE_LEN_def boot_state_def)

theorem interrupt_once_witness:
  "(int_run (plc_run_user_program 1 1 no_ext 1))\<^sup>*\<^sup>* (Waiting, int_start) (Waiting, int_queued) \<and> count_list (gtv_InterruptMsgQueue int_queued) 0 \<le> 1"
proof -
  have s: "(int_run (plc_run_user_program 1 1 no_ext 1))\<^sup>*\<^sup>* (Waiting, int_start) (Waiting, int_queued)"
    by (rule r_into_rtranclp [of "int_run _", OF int_run.go [OF int_step.request [OF int_start_request]]])
  have q: "gtv_InterruptMsgQueue int_start = []"
    by (simp add: int_start_def boot_state_def)
  have c: "get_source m int_start = Some x \<Longrightarrow> mcv_Count x = 0" for m x
    by (auto simp: int_start_source int_source_def split: if_split_asm)
  have x: "get_source 0 int_queued = Some (int_source\<lparr>mcv_Count := 1\<rparr>)" "mcv_IntFlag (int_source\<lparr>mcv_Count := 1\<rparr>) AND 0x01 \<noteq> 0"
    by (simp_all add: int_start_source int_source_def)
  have "count_list (gtv_InterruptMsgQueue int_queued) 0 \<le> 1"
    using interrupt_once [OF no_ext_ok s q c x] by simp
  then show ?thesis
    using s by blast
qed

theorem lost_interrupt_witness:
  "\<exists>s'. interrupt_take (plc_user_interrupt_enable 0 int_queued) = Some (None, s') \<and>
    (int_step (plc_run_user_program 1 1 no_ext 1))\<^sup>*\<^sup>* (Waiting, s') (Waiting, plc_user_interrupt_enable 1 s') \<and>
    0 \<notin> set (gtv_InterruptMsgQueue (plc_user_interrupt_enable 1 s'))"
proof -
  let ?s = "plc_user_interrupt_enable 0 int_queued"
  define s' where "s' = ?s\<lparr>gtv_InterruptMsgQueue := []\<rparr>"
  have q: "gtv_InterruptMsgQueue ?s = [0]" "mcv_IntEnable (gtp_InterruptInfo ?s) = 0" "get_source 0 ?s = Some (int_source\<lparr>mcv_Count := 1\<rparr>)"
    "mcv_IntFlag (int_source\<lparr>mcv_Count := 1\<rparr>) AND 0x01 \<noteq> 0"
    by (simp_all add: int_start_source int_source_def) (simp_all add: int_queued_def plc_user_interrupt_enable_def)
  have i: "int_inv (Waiting, ?s)"
    using q(1) by (simp add: int_inv_def pending_def INT_QUEUE_LEN_def int_start_source)
  have t: "interrupt_take ?s = Some (None, s')"
    using q(1,2) by (simp add: interrupt_take_def s'_def)
  have r: "(int_step (plc_run_user_program 1 1 no_ext 1))\<^sup>*\<^sup>* (Waiting, s') (Waiting, plc_user_interrupt_enable 1 s')"
    by (rule r_into_rtranclp [of "int_step _", OF int_step.enable])
  show ?thesis
    using lost_interrupt [OF no_ext_ok i q t r] t r by blast
qed

end
