(* ===== verification/PLC_Modbus.thy ===== *)
theory PLC_Modbus
  imports PLC_Verify
begin

text \<open>
  The Modbus slave, \<open>source/protocol/modbus/src/mb.c\<close> and \<open>mb_maptable.c\<close>: the table that maps protocol addresses to
  elements, the read and write functions, the diagnostic functions and the frame handler with its checksum.  The functions for
  downloading, uploading and control (\<open>mb_download.c\<close>, \<open>mb_upload.c\<close>, \<open>mb_ctrl.c\<close>), which work on files and
  hardware, are an argument of the handler.  Frames handed to the response functions are collected in \<open>mb_sent\<close>.
\<close>

section \<open>Messages\<close>

record md_slave_msg_pack =
  mcv_Sender :: u8
  msv_ReceiveLen :: u16
  msv_RespLen :: u16
  mcv_IsBroadcastInfo :: u8
  mcv_ErrorCode :: u8
  mcp_ReceiveBuff :: "u8 list"
  mcp_RespBuff :: "u8 list"
  isTcpClient :: u8
  clientID :: u8
  slaveID :: u8
  has_tcp_resp_func :: bool
  has_resp_func :: bool

record mb_slave_diagnositic_info_st =
  mcv_SlaveId :: u8
  mcv_ListenOnlyMode :: u8
  msv_BusPackageCnt :: u16
  msv_BusCrcErrCnt :: u16
  msv_SlaveErrCnt :: u16
  msv_SlavePackageCnt :: u16
  msv_SlaveNoRespCnt :: u16
  msv_BusCharOverrunCnt :: u16

datatype mb_sent = Resp "u8 list" | TcpResp u8 "u8 list"

record mb_st =
  mb_pack :: md_slave_msg_pack
  gtp_ModbusSlaveDiagInfo :: "mb_slave_diagnositic_info_st list"
  mb_sent :: "mb_sent list"
  mb_plc :: plc_state

abbreviation (input) "MB_SENDER_USB \<equiv> (4 :: u8)"
abbreviation (input) "MB_SENDER_MAX \<equiv> (7 :: nat)"
abbreviation (input) "MB_ILIEGAL_CODE \<equiv> (0x01 :: u8)"
abbreviation (input) "MB_ILIEGAL_ADDR \<equiv> (0x02 :: u8)"
abbreviation (input) "MB_ILIEGAL_DATA \<equiv> (0x03 :: u8)"
abbreviation (input) "MB_ERROR_FRAME \<equiv> (0x18 :: u8)"
abbreviation (input) "MB_MAX_R_BIT_NUM \<equiv> (0x7D0 :: u16)"
abbreviation (input) "MB_MAX_W_BIT_NUM \<equiv> (0x7B0 :: u16)"
abbreviation (input) "MB_MAX_R_WORD_NUM \<equiv> (0x7D :: u16)"
abbreviation (input) "MB_MAX_W_WORD_NUM \<equiv> (0x78 :: u16)"

type_synonym mb_fun = "mb_st \<Rightarrow> mb_st option"

abbreviation recv :: "mb_st \<Rightarrow> u8 list" where "recv m \<equiv> mcp_ReceiveBuff (mb_pack m)"
abbreviation resp :: "mb_st \<Rightarrow> u8 list" where "resp m \<equiv> mcp_RespBuff (mb_pack m)"
abbreviation broadcast :: "mb_st \<Rightarrow> bool" where "broadcast m \<equiv> mcv_IsBroadcastInfo (mb_pack m) \<noteq> 0"

definition put_resp :: "u8 list \<Rightarrow> mb_st \<Rightarrow> mb_st" where
  "put_resp b m = m\<lparr>mb_pack := (mb_pack m)\<lparr>mcp_RespBuff := b\<rparr>\<rparr>"

definition put_len :: "u16 \<Rightarrow> mb_st \<Rightarrow> mb_st" where
  "put_len n m = m\<lparr>mb_pack := (mb_pack m)\<lparr>msv_RespLen := n\<rparr>\<rparr>"

definition GET_BIGPU16_DATA :: "u8 list \<Rightarrow> nat \<Rightarrow> u16 option" where
  "GET_BIGPU16_DATA b i = do { hi \<leftarrow> rd b i; lo \<leftarrow> rd b (i + 1); Some (push_bit 8 (ucast hi) + ucast lo) }"

definition GET_BIGPU32_DATA :: "u8 list \<Rightarrow> nat \<Rightarrow> u32 option" where
  "GET_BIGPU32_DATA b i =
     do { x \<leftarrow> rd b i; y \<leftarrow> rd b (i + 1); z \<leftarrow> rd b (i + 2); w \<leftarrow> rd b (i + 3);
          Some (push_bit 24 (ucast x) + push_bit 16 (ucast y) + push_bit 8 (ucast z) + ucast w) }"

section \<open>Responses\<close>

text \<open>Handing a frame to the response functions; over USB the function is called without a test for a null pointer.\<close>

definition mb_send :: mb_fun where
  "mb_send m =
     (let p = mb_pack m; f = take (unat (msv_RespLen p)) (mcp_RespBuff p) in
      if mcv_Sender p = MB_SENDER_USB then
        (if has_resp_func p then Some (m\<lparr>mb_sent := mb_sent m @ [Resp f]\<rparr>) else None)
      else
        Some (m\<lparr>mb_sent := mb_sent m @ (if has_resp_func p then [Resp f] else []) @
          (if isTcpClient p \<noteq> 0 \<and> has_tcp_resp_func p then [TcpResp (clientID p) f] else [])\<rparr>))"

definition mb_slave_error_resp :: mb_fun where
  "mb_slave_error_resp m =
     (if broadcast m then Some m
      else do {
        a \<leftarrow> rd (recv m) 0;
        f \<leftarrow> rd (recv m) 1;
        b0 \<leftarrow> wr (resp m) 0 a;
        b1 \<leftarrow> wr b0 1 (f + 0x80);
        b2 \<leftarrow> wr b1 2 (mcv_ErrorCode (mb_pack m));
        c \<leftarrow> calc_crc16 (take 3 b2);
        b3 \<leftarrow> wr b2 3 (ucast c);
        b4 \<leftarrow> wr b3 4 (ucast (drop_bit 8 c));
        mb_send (put_len 5 (put_resp b4 m)) })"

definition mb_fail :: "u8 \<Rightarrow> mb_fun" where
  "mb_fail c m = mb_slave_error_resp (m\<lparr>mb_pack := (mb_pack m)\<lparr>mcv_ErrorCode := c\<rparr>\<rparr>)"

definition mb_slave_verify_resp_msg :: mb_fun where
  "mb_slave_verify_resp_msg m =
     (let n = unat (msv_RespLen (mb_pack m)) in
      if length (resp m) < n then None
      else do {
        c \<leftarrow> calc_crc16 (take n (resp m));
        b1 \<leftarrow> wr (resp m) n (ucast (c AND 0xFF));
        b2 \<leftarrow> wr b1 (n + 1) (ucast (drop_bit 8 c));
        mb_send (put_len (msv_RespLen (mb_pack m) + 2) (put_resp b2 m)) })"

text \<open>\<open>for(i=j; i<j+n; i++) RespBuff[i] = ReceiveBuff[i]\<close>\<close>

fun copy_req :: "nat \<Rightarrow> nat \<Rightarrow> u8 list \<Rightarrow> u8 list \<Rightarrow> u8 list option" where
  "copy_req j 0 q b = Some b"
| "copy_req j (Suc n) q b = do { x \<leftarrow> rd q j; b' \<leftarrow> wr b j x; copy_req (j + 1) n q b' }"

text \<open>A response that repeats the first \<open>n\<close> bytes of the request.\<close>

definition mb_echo :: "nat \<Rightarrow> mb_fun" where
  "mb_echo n m = do { b \<leftarrow> copy_req 0 n (recv m) (resp m); mb_slave_verify_resp_msg (put_len (of_nat n) (put_resp b m)) }"

text \<open>A response with data: station and function from the request, then the number of bytes; \<open>b\<close> is the buffer with the data
  in place and \<open>n\<close> their number.\<close>

definition mb_data :: "u8 list \<Rightarrow> u16 \<Rightarrow> mb_fun" where
  "mb_data b n m =
     do { b1 \<leftarrow> copy_req 0 2 (recv m) b;
          b2 \<leftarrow> wr b1 2 (ucast n);
          mb_slave_verify_resp_msg (put_len (n + 3) (put_resp b2 m)) }"

section \<open>Addresses\<close>

record mb_element_map_table_info =
  mcv_AddrType :: u8
  mcv_ElementType :: u8
  mcv_AddrSection :: u8
  msv_StartAddr :: u16
  msv_EndAddr :: u16
  msv_StartElement :: u16
  msv_MaxNum :: u16

abbreviation (input) "MB_BIT_ELEMENT \<equiv> (1 :: u8)"
abbreviation (input) "MB_WORD_ELEMENT \<equiv> (2 :: u8)"
abbreviation (input) "MB_ELEMENT_MAX \<equiv> (3 :: u8)"
abbreviation (input) "MB_BIT_Y \<equiv> (0 :: u8)"
abbreviation (input) "MB_BIT_X \<equiv> (1 :: u8)"
abbreviation (input) "MB_BIT_M \<equiv> (2 :: u8)"
abbreviation (input) "MB_BIT_SM \<equiv> (3 :: u8)"
abbreviation (input) "MB_BIT_S \<equiv> (4 :: u8)"
abbreviation (input) "MB_BIT_T \<equiv> (5 :: u8)"
abbreviation (input) "MB_BIT_C \<equiv> (6 :: u8)"
abbreviation (input) "MB_WORD_D \<equiv> (7 :: u8)"
abbreviation (input) "MB_WORD_SD \<equiv> (8 :: u8)"
abbreviation (input) "MB_WORD_Z \<equiv> (9 :: u8)"
abbreviation (input) "MB_WORD_T \<equiv> (10 :: u8)"
abbreviation (input) "MB_WORD_C \<equiv> (11 :: u8)"
abbreviation (input) "MB_WORD_R \<equiv> (12 :: u8)"

definition map_row :: "u8 \<Rightarrow> u8 \<Rightarrow> u8 \<Rightarrow> u16 \<Rightarrow> u16 \<Rightarrow> u16 \<Rightarrow> u16 \<Rightarrow> mb_element_map_table_info" where
  "map_row at et sc sa ea se n = \<lparr>mcv_AddrType = at, mcv_ElementType = et, mcv_AddrSection = sc, msv_StartAddr = sa,
     msv_EndAddr = ea, msv_StartElement = se, msv_MaxNum = n\<rparr>"

definition stv_ModbusMapTable :: "mb_element_map_table_info list" where
  "stv_ModbusMapTable =
     [map_row MB_BIT_ELEMENT MB_BIT_Y 1 0 1199 0 256,
      map_row MB_BIT_ELEMENT MB_BIT_Y 2 10000 11999 256 1792,
      map_row MB_BIT_ELEMENT MB_BIT_X 1 1200 1999 0 256,
      map_row MB_BIT_ELEMENT MB_BIT_X 2 12000 13999 256 1792,
      map_row MB_BIT_ELEMENT MB_BIT_M 1 2000 4399 0 2048,
      map_row MB_BIT_ELEMENT MB_BIT_M 2 34000 53999 2048 14336,
      map_row MB_BIT_ELEMENT MB_BIT_SM 1 4400 5999 0 256,
      map_row MB_BIT_ELEMENT MB_BIT_SM 2 14000 17999 256 3840,
      map_row MB_BIT_ELEMENT MB_BIT_S 1 6000 7999 0 1024,
      map_row MB_BIT_ELEMENT MB_BIT_S 2 18000 25999 1024 7168,
      map_row MB_BIT_ELEMENT MB_BIT_T 1 8000 9199 0 256,
      map_row MB_BIT_ELEMENT MB_BIT_T 2 26000 29999 256 256,
      map_row MB_BIT_ELEMENT MB_BIT_C 1 9200 10000 0 256,
      map_row MB_BIT_ELEMENT MB_BIT_C 2 30000 33999 256 256,
      map_row MB_WORD_ELEMENT MB_WORD_D 1 0 7999 0 8000,
      map_row MB_WORD_ELEMENT MB_WORD_SD 1 8000 8499 0 256,
      map_row MB_WORD_ELEMENT MB_WORD_SD 2 46000 49999 256 3840,
      map_row MB_WORD_ELEMENT MB_WORD_Z 1 8500 8999 0 16,
      map_row MB_WORD_ELEMENT MB_WORD_Z 2 10000 11999 16 0,
      map_row MB_WORD_ELEMENT MB_WORD_T 1 9000 9499 0 256,
      map_row MB_WORD_ELEMENT MB_WORD_T 2 50000 53999 256 256,
      map_row MB_WORD_ELEMENT MB_WORD_C 1 9500 9699 0 200,
      map_row MB_WORD_ELEMENT MB_WORD_C 2 9700 9811 200 (56 * 2),
      map_row MB_WORD_ELEMENT MB_WORD_C 3 54000 61999 256 (256 * 2),
      map_row MB_WORD_ELEMENT MB_WORD_R 1 13000 45999 0 32768,
      map_row MB_ELEMENT_MAX 0 0 0 0 0 0]"

text \<open>The search; \<open>None\<close> is \<open>pdFAIL\<close>.  The list of rows ends with the row of type \<open>MB_ELEMENT_MAX\<close>.\<close>

fun map_search :: "u8 \<Rightarrow> u16 \<Rightarrow> mb_element_map_table_info list \<Rightarrow> (u8 \<times> u16) option" where
  "map_search t a [] = None"
| "map_search t a (r # rs) =
     (if mcv_AddrType r = MB_ELEMENT_MAX then None
      else if mcv_AddrType r \<noteq> t then map_search t a rs
      else if msv_StartAddr r \<le> a \<and> a \<le> msv_EndAddr r then
        (let e = a - msv_StartAddr r + msv_StartElement r in
         if unat (msv_StartAddr r) + unat (msv_MaxNum r) \<le> unat e then None else Some (mcv_ElementType r, e))
      else map_search t a rs)"

definition mb_slave_convert_element_info :: "u8 \<Rightarrow> u16 \<Rightarrow> (u8 \<times> u16) option" where
  "mb_slave_convert_element_info t a = map_search t a (drop (if t = MB_BIT_ELEMENT then 0 else 14) stv_ModbusMapTable)"

definition mb_bit_area :: "u8 \<Rightarrow> bit_area option" where
  "mb_bit_area t = rd [Y_ELEMENT, X_ELEMENT, M_ELEMENT, SM_ELEMENT, S_ELEMENT, T_ELEMENT, C_ELEMENT] (unat t)"

definition mb_word_area :: "u8 \<Rightarrow> word_area option" where
  "mb_word_area t =
     (if t = MB_WORD_D then Some D_AREA else if t = MB_WORD_SD then Some SD_AREA else if t = MB_WORD_Z then Some Z_AREA
      else if t = MB_WORD_T then Some T_AREA else if t = MB_WORD_R then Some R_AREA else None)"

text \<open>\<open>addr + cnt - 1 > rang\<close>, in \<open>int\<close>.\<close>

definition mb_over :: "u16 \<Rightarrow> u16 \<Rightarrow> u16 \<Rightarrow> bool" where
  "mb_over addr cnt rang \<longleftrightarrow> int (unat rang) < int (unat addr) + int (unat cnt) - 1"

section \<open>Reading\<close>

text \<open>The loop that packs bit elements into bytes from \<open>RespBuff[3]\<close>: \<open>p\<close> is the index behind \<open>lcp_Value\<close>, \<open>k\<close> the bits in
  that byte, \<open>n\<close> the number of bytes; \<open>f\<close> is what happens to the byte after each bit.\<close>

fun pack_bits :: "(u8 \<Rightarrow> u8) \<Rightarrow> bit_area \<Rightarrow> plc_state \<Rightarrow> nat \<Rightarrow> u16 \<Rightarrow> nat \<Rightarrow> nat \<Rightarrow> u8 \<Rightarrow> u8 list \<Rightarrow> (u8 \<times> u8 list) option" where
  "pack_bits f a s 0 addr p k n b = Some (n, b)"
| "pack_bits f a s (Suc c) addr p k n b =
     do { (p1, k1, n1, b1) \<leftarrow> (if 8 \<le> k then do { b' \<leftarrow> wr b (p + 1) 0; Some (p + 1, 0, n + 1, b') } else Some (p, k, n, b));
          v \<leftarrow> get_bit_elem a s addr;
          x \<leftarrow> rd b1 p1;
          b2 \<leftarrow> wr b1 p1 (f (x + push_bit k1 v));
          pack_bits f a s c (addr + 1) p1 (k1 + 1) n1 b2 }"

text \<open>The common part of the two bit functions, with the element chosen.\<close>

definition mb_read_bits :: "(u8 \<Rightarrow> u8) \<Rightarrow> bit_area \<Rightarrow> u16 \<Rightarrow> u16 \<Rightarrow> mb_fun" where
  "mb_read_bits f a addr cnt m =
     (if mb_over addr cnt (bit_elem_rang a (mb_plc m)) then mb_fail MB_ILIEGAL_ADDR m
      else do {
        b \<leftarrow> wr (resp m) 3 0;
        (n, b') \<leftarrow> pack_bits f a (mb_plc m) (unat cnt) addr 3 0 1 b;
        mb_data b' (ucast n) m })"

definition mb_slave_read_coils_status :: mb_fun where
  "mb_slave_read_coils_status m =
     (if broadcast m then Some m
      else if msv_ReceiveLen (mb_pack m) \<noteq> 8 then mb_fail MB_ILIEGAL_DATA m
      else do {
        start \<leftarrow> GET_BIGPU16_DATA (recv m) 2;
        cnt \<leftarrow> GET_BIGPU16_DATA (recv m) 4;
        if MB_MAX_R_BIT_NUM < cnt then mb_fail MB_ILIEGAL_DATA m
        else case mb_slave_convert_element_info MB_BIT_ELEMENT start of
          None \<Rightarrow> mb_fail MB_ILIEGAL_ADDR m
        | Some (t, addr) \<Rightarrow>
            (case mb_bit_area t of
               None \<Rightarrow> mb_fail MB_ILIEGAL_ADDR m
             | Some a \<Rightarrow> mb_read_bits (\<lambda>x. x) a addr cnt m) })"

definition mb_slave_read_descrete_input_status :: mb_fun where
  "mb_slave_read_descrete_input_status m =
     (if broadcast m then Some m
      else if msv_ReceiveLen (mb_pack m) \<noteq> 8 then mb_fail MB_ILIEGAL_DATA m
      else do {
        start \<leftarrow> GET_BIGPU16_DATA (recv m) 2;
        cnt \<leftarrow> GET_BIGPU16_DATA (recv m) 4;
        if MB_MAX_R_BIT_NUM < cnt then mb_fail MB_ILIEGAL_DATA m
        else case mb_slave_convert_element_info MB_BIT_ELEMENT start of
          None \<Rightarrow> mb_fail MB_ILIEGAL_ADDR m
        | Some (_, addr) \<Rightarrow> mb_read_bits (push_bit 1) X_ELEMENT addr cnt m })"

text \<open>The loops over word elements and 32-bit counters, high byte first, from index \<open>p\<close>.\<close>

fun mb_read_words :: "('s \<Rightarrow> u16 \<Rightarrow> u16 option) \<Rightarrow> 's \<Rightarrow> nat \<Rightarrow> u16 \<Rightarrow> nat \<Rightarrow> u8 list \<Rightarrow> u8 list option" where
  "mb_read_words get s 0 addr p b = Some b"
| "mb_read_words get s (Suc n) addr p b =
     do { v \<leftarrow> get s addr;
          b1 \<leftarrow> wr b p (ucast (drop_bit 8 v));
          b2 \<leftarrow> wr b1 (p + 1) (ucast v);
          mb_read_words get s n (addr + 1) (p + 2) b2 }"

fun read_c32 :: "plc_state \<Rightarrow> nat \<Rightarrow> u16 \<Rightarrow> nat \<Rightarrow> u8 list \<Rightarrow> u8 list option" where
  "read_c32 s 0 addr p b = Some b"
| "read_c32 s (Suc n) addr p b =
     do { v \<leftarrow> get_c32_elem s addr;
          b1 \<leftarrow> wr b p (ucast (drop_bit 24 v));
          b2 \<leftarrow> wr b1 (p + 1) (ucast (drop_bit 16 v));
          b3 \<leftarrow> wr b2 (p + 2) (ucast (drop_bit 8 v));
          b4 \<leftarrow> wr b3 (p + 3) (ucast v);
          read_c32 s n (addr + 1) (p + 4) b4 }"

definition mb_read_area :: "word_area \<Rightarrow> u16 \<Rightarrow> u16 \<Rightarrow> mb_fun" where
  "mb_read_area a addr cnt m =
     (if mb_over addr cnt (word_elem_rang a (mb_plc m)) then mb_fail MB_ILIEGAL_ADDR m
      else do { b \<leftarrow> mb_read_words (get_word_elem a) (mb_plc m) (unat cnt) addr 3 (resp m); mb_data b (2 * cnt) m })"

definition mb_slave_read_holding_register :: mb_fun where
  "mb_slave_read_holding_register m =
     (if broadcast m then Some m
      else if msv_ReceiveLen (mb_pack m) \<noteq> 8 then mb_fail MB_ILIEGAL_DATA m
      else do {
        start \<leftarrow> GET_BIGPU16_DATA (recv m) 2;
        cnt \<leftarrow> GET_BIGPU16_DATA (recv m) 4;
        if MB_MAX_R_WORD_NUM < cnt then mb_fail MB_ILIEGAL_ADDR m
        else case mb_slave_convert_element_info MB_WORD_ELEMENT start of
          None \<Rightarrow> mb_fail MB_ILIEGAL_ADDR m
        | Some (t, addr) \<Rightarrow>
            (case mb_word_area t of
               Some a \<Rightarrow> mb_read_area a addr cnt m
             | None \<Rightarrow>
                 if t \<noteq> MB_WORD_C then mb_data (resp m) 0 m
                 else if addr < word_elem_rang C16_AREA (mb_plc m) then mb_read_area C16_AREA addr cnt m
                 else if mb_over addr cnt (bit_elem_rang C_ELEMENT (mb_plc m)) then mb_fail MB_ILIEGAL_ADDR m
                 else do { b \<leftarrow> read_c32 (mb_plc m) (unat cnt) addr 3 (resp m); mb_data b (4 * cnt) m }) })"

section \<open>Writing\<close>

definition on_plc :: "(plc_state \<Rightarrow> plc_state option) \<Rightarrow> mb_fun" where
  "on_plc f m = do { s \<leftarrow> f (mb_plc m); Some (m\<lparr>mb_plc := s\<rparr>) }"

text \<open>The bit elements that can be written: all but the inputs.\<close>

definition mb_coil_area :: "u8 \<Rightarrow> bit_area option" where
  "mb_coil_area t = (if t = MB_BIT_X then None else mb_bit_area t)"

definition mb_slave_write_single_coil :: mb_fun where
  "mb_slave_write_single_coil m =
     do { v \<leftarrow> GET_BIGPU16_DATA (recv m) 4;
          if v \<noteq> 0xFF00 \<and> v \<noteq> 0 then mb_fail MB_ILIEGAL_DATA m
          else do {
            start \<leftarrow> GET_BIGPU16_DATA (recv m) 2;
            case mb_slave_convert_element_info MB_BIT_ELEMENT start of
              None \<Rightarrow> mb_fail MB_ILIEGAL_ADDR m
            | Some (t, addr) \<Rightarrow>
                (case mb_coil_area t of
                   None \<Rightarrow> mb_fail MB_ILIEGAL_ADDR m
                 | Some a \<Rightarrow> do { m1 \<leftarrow> on_plc (\<lambda>s. set_bit_elem a s addr (if 0 < v then 1 else 0)) m; mb_echo 6 m1 }) } }"

definition mb_slave_write_register :: mb_fun where
  "mb_slave_write_register m =
     do { start \<leftarrow> GET_BIGPU16_DATA (recv m) 2;
          v \<leftarrow> GET_BIGPU16_DATA (recv m) 4;
          case mb_slave_convert_element_info MB_WORD_ELEMENT start of
            None \<Rightarrow> mb_fail MB_ILIEGAL_ADDR m
          | Some (t, addr) \<Rightarrow>
              do { m1 \<leftarrow> (case mb_word_area t of
                     Some a \<Rightarrow> on_plc (\<lambda>s. set_word_elem a s addr v) m
                   | None \<Rightarrow>
                       if t \<noteq> MB_WORD_C then Some m
                       else if addr < word_elem_rang C16_AREA (mb_plc m) then on_plc (\<lambda>s. set_word_elem C16_AREA s addr v) m
                       else on_plc (\<lambda>s. set_c32_elem s addr (ucast v)) m);
                   mb_echo 6 m1 } }"

text \<open>The loops of \<open>mb_slave_write_multiple_coils\<close>: \<open>cnt\<close> is \<open>lsv_ElementCnt\<close>, of 16 bits.  The inner one ends after eight bits or when the
  count reaches zero, the outer one after \<open>n\<close> bytes.\<close>

fun unpack_byte :: "bit_area \<Rightarrow> u8 \<Rightarrow> nat \<Rightarrow> nat \<Rightarrow> u16 \<Rightarrow> u16 \<times> plc_state \<Rightarrow> (u16 \<times> plc_state) option" where
  "unpack_byte a x 0 j addr cs = Some cs"
| "unpack_byte a x (Suc n) j addr (cnt, s) =
     do { s' \<leftarrow> set_bit_elem a s (addr + of_nat j) (drop_bit j x AND 0x01);
          if cnt - 1 = 0 then Some (cnt - 1, s') else unpack_byte a x n (j + 1) addr (cnt - 1, s') }"

fun unpack_bytes :: "bit_area \<Rightarrow> u8 list \<Rightarrow> nat \<Rightarrow> nat \<Rightarrow> u16 \<Rightarrow> u16 \<times> plc_state \<Rightarrow> (u16 \<times> plc_state) option" where
  "unpack_bytes a q 0 p addr cs = Some cs"
| "unpack_bytes a q (Suc n) p addr cs =
     do { x \<leftarrow> rd q p; cs' \<leftarrow> unpack_byte a x 8 0 addr cs; unpack_bytes a q n (p + 1) (addr + 8) cs' }"

definition mb_slave_write_multiple_coils :: mb_fun where
  "mb_slave_write_multiple_coils m =
     do { start \<leftarrow> GET_BIGPU16_DATA (recv m) 2;
          cnt \<leftarrow> GET_BIGPU16_DATA (recv m) 4;
          n \<leftarrow> rd (recv m) 6;
          let k = int (unat cnt div 8);
          if k \<noteq> int (unat n) \<and> k \<noteq> int (unat n) - 1 then mb_fail MB_ILIEGAL_ADDR m
          else if unat cnt mod 8 = 0 \<and> k \<noteq> int (unat n) then mb_fail MB_ILIEGAL_ADDR m
          else if unat cnt mod 8 \<noteq> 0 \<and> k \<noteq> int (unat n) - 1 then mb_fail MB_ILIEGAL_ADDR m
          else if MB_MAX_W_BIT_NUM < cnt \<or> cnt < 1 then mb_fail MB_ILIEGAL_ADDR m
          else case mb_slave_convert_element_info MB_BIT_ELEMENT start of
            None \<Rightarrow> mb_fail MB_ILIEGAL_ADDR m
          | Some (t, addr) \<Rightarrow>
              (case mb_coil_area t of
                 None \<Rightarrow> mb_fail MB_ILIEGAL_ADDR m
               | Some a \<Rightarrow>
                   if mb_over addr cnt (bit_elem_rang a (mb_plc m)) then mb_fail MB_ILIEGAL_ADDR m
                   else do {
                     m1 \<leftarrow> on_plc (\<lambda>s. do { (_, s') \<leftarrow> unpack_bytes a (recv m) (unat n) 7 addr (cnt, s); Some s' }) m;
                     mb_echo 6 m1 }) }"

fun mb_write_words :: "('s \<Rightarrow> u16 \<Rightarrow> u16 \<Rightarrow> 's option) \<Rightarrow> u8 list \<Rightarrow> nat \<Rightarrow> u16 \<Rightarrow> nat \<Rightarrow> 's \<Rightarrow> 's option" where
  "mb_write_words put q 0 addr p s = Some s"
| "mb_write_words put q (Suc n) addr p s =
     do { v \<leftarrow> GET_BIGPU16_DATA q p; s' \<leftarrow> put s addr v; mb_write_words put q n (addr + 1) (p + 2) s' }"

fun write_c32 :: "u8 list \<Rightarrow> nat \<Rightarrow> u16 \<Rightarrow> nat \<Rightarrow> plc_state \<Rightarrow> plc_state option" where
  "write_c32 q 0 addr p s = Some s"
| "write_c32 q (Suc n) addr p s =
     do { v \<leftarrow> GET_BIGPU32_DATA q p; s' \<leftarrow> set_c32_elem s addr v; write_c32 q n (addr + 1) (p + 4) s' }"

definition mb_slave_write_multiple_registers :: mb_fun where
  "mb_slave_write_multiple_registers m =
     do { start \<leftarrow> GET_BIGPU16_DATA (recv m) 2;
          cnt \<leftarrow> GET_BIGPU16_DATA (recv m) 4;
          n \<leftarrow> rd (recv m) 6;
          if MB_MAX_W_WORD_NUM < cnt \<or> cnt < 1 then mb_fail MB_ILIEGAL_DATA m
          else if cnt \<noteq> drop_bit 1 (ucast n) then mb_fail MB_ILIEGAL_DATA m
          else case mb_slave_convert_element_info MB_WORD_ELEMENT start of
            None \<Rightarrow> mb_fail MB_ILIEGAL_ADDR m
          | Some (t, addr) \<Rightarrow>
              (case mb_word_area t of
                 Some a \<Rightarrow>
                   if mb_over addr cnt (word_elem_rang a (mb_plc m)) then mb_fail MB_ILIEGAL_ADDR m
                   else do { m1 \<leftarrow> on_plc (mb_write_words (set_word_elem a) (recv m) (unat cnt) addr 7) m; mb_echo 6 m1 }
               | None \<Rightarrow>
                   if t \<noteq> MB_WORD_C then mb_fail MB_ILIEGAL_ADDR m
                   else if mb_over addr cnt (bit_elem_rang C_ELEMENT (mb_plc m)) then mb_fail MB_ILIEGAL_ADDR m
                   else do {
                     m1 \<leftarrow> (if addr < word_elem_rang C16_AREA (mb_plc m)
                            then on_plc (mb_write_words (set_word_elem C16_AREA) (recv m) (unat cnt) addr 7) m
                            else on_plc (write_c32 (recv m) (unat cnt) addr 7) m);
                     mb_echo 6 m1 }) }"

section \<open>Lists of elements\<close>

text \<open>The functions of the programming tool take a list of addresses; \<open>i\<close> is the loop counter and \<open>n\<close> what is left of the list.  The
  result tells whether the list was worked off or an error was answered.\<close>

fun read_bit_list :: "nat \<Rightarrow> nat \<Rightarrow> mb_st \<Rightarrow> (bool \<times> mb_st) option" where
  "read_bit_list 0 i m = Some (True, m)"
| "read_bit_list (Suc n) i m =
     do { x \<leftarrow> rd (recv m) (3 + 2 * i);
          b1 \<leftarrow> wr (resp m) (3 + 3 * i) x;
          y \<leftarrow> rd (recv m) (4 + 2 * i);
          b2 \<leftarrow> wr b1 (4 + 3 * i) y;
          let m1 = put_resp b2 m;
          start \<leftarrow> GET_BIGPU16_DATA (recv m) (3 + 2 * i);
          case mb_slave_convert_element_info MB_BIT_ELEMENT start of
            None \<Rightarrow> do { m2 \<leftarrow> mb_fail MB_ILIEGAL_ADDR m1; Some (False, m2) }
          | Some (t, addr) \<Rightarrow>
              (case mb_bit_area t of
                 None \<Rightarrow> do { m2 \<leftarrow> mb_fail MB_ILIEGAL_ADDR m1; Some (False, m2) }
               | Some a \<Rightarrow>
                   do { v \<leftarrow> get_bit_elem a (mb_plc m1) addr;
                        b3 \<leftarrow> wr b2 (5 + 3 * i) v;
                        read_bit_list n (i + 1) (put_resp b3 m) }) }"

definition mb_slave_read_multiple_bit_element :: mb_fun where
  "mb_slave_read_multiple_bit_element m =
     (if broadcast m then Some m
      else do {
        n \<leftarrow> rd (recv m) 2;
        if 0x50 < n then mb_fail MB_ILIEGAL_DATA m
        else do {
          (ok, m1) \<leftarrow> read_bit_list (unat n) 0 m;
          if \<not> ok then Some m1
          else do {
            b \<leftarrow> copy_req 0 3 (recv m1) (resp m1);
            mb_slave_verify_resp_msg (put_len ((ucast n + 1) * 3) (put_resp b m1)) } } })"

text \<open>A 16-bit store into the buffer, low byte first.\<close>

definition store16 :: "u8 list \<Rightarrow> nat \<Rightarrow> u16 \<Rightarrow> u8 list option" where
  "store16 b p v = do { b1 \<leftarrow> wr b p (ucast v); wr b1 (p + 1) (ucast (drop_bit 8 v)) }"

definition copy_addr :: "u8 list \<Rightarrow> nat \<Rightarrow> u8 list \<Rightarrow> u8 list option" where
  "copy_addr q i b =
     do { x \<leftarrow> rd q (3 + 2 * i); b1 \<leftarrow> wr b (3 + 4 * i) x; y \<leftarrow> rd q (4 + 2 * i); wr b1 (4 + 4 * i) y }"

definition c32_number :: "plc_state \<Rightarrow> u16 \<Rightarrow> u16" where
  "c32_number s addr = (let n = word_elem_rang C16_AREA s in (addr - n) div 2 + n)"

text \<open>A 32-bit counter takes two entries of the list.\<close>

fun read_word_list :: "nat \<Rightarrow> nat \<Rightarrow> mb_st \<Rightarrow> (bool \<times> mb_st) option" where
  "read_word_list 0 i m = Some (True, m)"
| "read_word_list (Suc n) i m =
     do { b \<leftarrow> copy_addr (recv m) i (resp m);
          start \<leftarrow> GET_BIGPU16_DATA (recv m) (3 + 2 * i);
          case mb_slave_convert_element_info MB_WORD_ELEMENT start of
            None \<Rightarrow> do { m1 \<leftarrow> mb_fail MB_ILIEGAL_ADDR (put_resp b m); Some (False, m1) }
          | Some (t, addr) \<Rightarrow>
              (case mb_word_area t of
                 Some a \<Rightarrow>
                   do { v \<leftarrow> get_word_elem a (mb_plc m) addr;
                        b1 \<leftarrow> store16 b (5 + 4 * i) v;
                        read_word_list n (i + 1) (put_resp b1 m) }
               | None \<Rightarrow>
                   if t \<noteq> MB_WORD_C then do { m1 \<leftarrow> mb_fail MB_ILIEGAL_ADDR (put_resp b m); Some (False, m1) }
                   else if addr < word_elem_rang C16_AREA (mb_plc m) then
                     do { v \<leftarrow> get_word_elem C16_AREA (mb_plc m) addr;
                          b1 \<leftarrow> store16 b (5 + 4 * i) v;
                          read_word_list n (i + 1) (put_resp b1 m) }
                   else
                     do { v \<leftarrow> get_c32_elem (mb_plc m) (c32_number (mb_plc m) addr);
                          b1 \<leftarrow> store16 b (5 + 4 * i) (ucast (drop_bit 16 v));
                          b2 \<leftarrow> copy_addr (recv m) (i + 1) b1;
                          b3 \<leftarrow> store16 b2 (5 + 4 * (i + 1)) (ucast v);
                          read_word_list (n - 1) (i + 2) (put_resp b3 m) }) }"

definition mb_slave_read_multiple_word_element :: mb_fun where
  "mb_slave_read_multiple_word_element m =
     (if broadcast m then Some m
      else do {
        n \<leftarrow> rd (recv m) 2;
        if 0x3C < n then mb_fail MB_ILIEGAL_DATA m
        else do {
          (ok, m1) \<leftarrow> read_word_list (unat n) 0 m;
          if \<not> ok then Some m1
          else do {
            b \<leftarrow> copy_req 0 3 (recv m1) (resp m1);
            mb_slave_verify_resp_msg (put_len (3 + ucast n * 4) (put_resp b m1)) } } })"

fun write_bit_list :: "nat \<Rightarrow> nat \<Rightarrow> mb_st \<Rightarrow> (bool \<times> mb_st) option" where
  "write_bit_list 0 i m = Some (True, m)"
| "write_bit_list (Suc n) i m =
     do { start \<leftarrow> GET_BIGPU16_DATA (recv m) (3 + 3 * i);
          case mb_slave_convert_element_info MB_BIT_ELEMENT start of
            None \<Rightarrow> do { m1 \<leftarrow> mb_fail MB_ILIEGAL_ADDR m; Some (False, m1) }
          | Some (t, addr) \<Rightarrow>
              (case mb_coil_area t of
                 None \<Rightarrow> do { m1 \<leftarrow> mb_fail MB_ILIEGAL_ADDR m; Some (False, m1) }
               | Some a \<Rightarrow>
                   do { v \<leftarrow> rd (recv m) (5 + 3 * i);
                        m1 \<leftarrow> on_plc (\<lambda>s. set_bit_elem a s addr v) m;
                        write_bit_list n (i + 1) m1 }) }"

definition mb_slave_write_multiple_bit_element :: mb_fun where
  "mb_slave_write_multiple_bit_element m =
     (if broadcast m then Some m
      else do {
        n \<leftarrow> rd (recv m) 2;
        if 0x50 < n then mb_fail MB_ILIEGAL_DATA m
        else do {
          (ok, m1) \<leftarrow> write_bit_list (unat n) 0 m;
          if \<not> ok then Some m1 else mb_echo 2 m1 } })"

fun write_word_list :: "nat \<Rightarrow> nat \<Rightarrow> mb_st \<Rightarrow> (bool \<times> mb_st) option" where
  "write_word_list 0 i m = Some (True, m)"
| "write_word_list (Suc n) i m =
     do { start \<leftarrow> GET_BIGPU16_DATA (recv m) (3 + 4 * i);
          case mb_slave_convert_element_info MB_WORD_ELEMENT start of
            None \<Rightarrow> do { m1 \<leftarrow> mb_fail MB_ILIEGAL_ADDR m; Some (False, m1) }
          | Some (t, addr) \<Rightarrow>
              (case mb_word_area t of
                 Some a \<Rightarrow>
                   do { v \<leftarrow> GET_BIGPU16_DATA (recv m) (5 + 4 * i);
                        m1 \<leftarrow> on_plc (\<lambda>s. set_word_elem a s addr v) m;
                        write_word_list n (i + 1) m1 }
               | None \<Rightarrow>
                   if t \<noteq> MB_WORD_C then do { m1 \<leftarrow> mb_fail MB_ILIEGAL_ADDR m; Some (False, m1) }
                   else if addr < word_elem_rang C16_AREA (mb_plc m) then
                     do { v \<leftarrow> GET_BIGPU16_DATA (recv m) (5 + 4 * i);
                          m1 \<leftarrow> on_plc (\<lambda>s. set_word_elem C16_AREA s addr v) m;
                          write_word_list n (i + 1) m1 }
                   else
                     do { h \<leftarrow> GET_BIGPU16_DATA (recv m) (5 + 4 * i);
                          l \<leftarrow> GET_BIGPU16_DATA (recv m) (5 + 4 * (i + 1));
                          m1 \<leftarrow> on_plc (\<lambda>s. set_c32_elem s (c32_number s addr) (push_bit 16 (ucast h) + ucast l)) m;
                          write_word_list (n - 1) (i + 2) m1 }) }"

definition mb_slave_write_multiple_word_element :: mb_fun where
  "mb_slave_write_multiple_word_element m =
     (if broadcast m then Some m
      else do {
        n \<leftarrow> rd (recv m) 2;
        if 0x3C < n then mb_fail MB_ILIEGAL_DATA m
        else do {
          (ok, m1) \<leftarrow> write_word_list (unat n) 0 m;
          if \<not> ok then Some m1 else mb_echo 2 m1 } })"

section \<open>Diagnostics\<close>

definition mb_slave_diag_clear_ctrl_diag_reg :: "mb_st \<Rightarrow> mb_st" where
  "mb_slave_diag_clear_ctrl_diag_reg m =
     m\<lparr>gtp_ModbusSlaveDiagInfo := map (\<lambda>d. d\<lparr>mcv_ListenOnlyMode := 0, msv_BusPackageCnt := 0, msv_BusCrcErrCnt := 0, msv_SlaveErrCnt := 0,
         msv_SlavePackageCnt := 0, msv_SlaveNoRespCnt := 0, msv_BusCharOverrunCnt := 0\<rparr>) (gtp_ModbusSlaveDiagInfo m)\<rparr>"

definition sender_diag :: "mb_st \<Rightarrow> mb_slave_diagnositic_info_st option" where
  "sender_diag m = rd (gtp_ModbusSlaveDiagInfo m) (unat (mcv_Sender (mb_pack m)))"

definition upd_diag :: "(mb_slave_diagnositic_info_st \<Rightarrow> mb_slave_diagnositic_info_st) \<Rightarrow> mb_fun" where
  "upd_diag f m =
     do { d \<leftarrow> sender_diag m;
          ds \<leftarrow> wr (gtp_ModbusSlaveDiagInfo m) (unat (mcv_Sender (mb_pack m))) (f d);
          Some (m\<lparr>gtp_ModbusSlaveDiagInfo := ds\<rparr>) }"

definition slave_err :: mb_fun where
  "slave_err = upd_diag (\<lambda>d. d\<lparr>msv_SlaveErrCnt := msv_SlaveErrCnt d + 1\<rparr>)"

text \<open>A copy of the request without its checksum.\<close>

definition mb_repeat :: mb_fun where
  "mb_repeat m = mb_echo (unat (msv_ReceiveLen (mb_pack m)) - 2) m"

text \<open>A counter of the sender, or the sum over the first two senders when they have the same station number.  The high byte goes to the
  response and the low byte to the request.\<close>

definition diag_value :: "(mb_slave_diagnositic_info_st \<Rightarrow> u16) \<Rightarrow> mb_st \<Rightarrow> u16 option" where
  "diag_value f m =
     do { d0 \<leftarrow> rd (gtp_ModbusSlaveDiagInfo m) 0;
          d1 \<leftarrow> rd (gtp_ModbusSlaveDiagInfo m) 1;
          if mcv_SlaveId d0 = mcv_SlaveId d1 then Some (f d0 + f d1) else do { d \<leftarrow> sender_diag m; Some (f d) } }"

definition mb_diag_counter :: "(mb_slave_diagnositic_info_st \<Rightarrow> u16) \<Rightarrow> mb_fun" where
  "mb_diag_counter f m =
     do { v \<leftarrow> diag_value f m;
          b \<leftarrow> copy_req 0 4 (recv m) (resp m);
          b1 \<leftarrow> wr b 4 (ucast (drop_bit 8 v));
          q \<leftarrow> wr (recv m) 5 (ucast (v AND 0xFF));
          mb_slave_verify_resp_msg (put_len 6 (put_resp b1 (m\<lparr>mb_pack := (mb_pack m)\<lparr>mcp_ReceiveBuff := q\<rparr>\<rparr>))) }"

definition mb_slave_diagnostic_func :: mb_fun where
  "mb_slave_diagnostic_func m =
     do { code \<leftarrow> GET_BIGPU16_DATA (recv m) 2;
          v \<leftarrow> GET_BIGPU16_DATA (recv m) 4;
          if broadcast m \<and> code \<notin> {0x01, 0x04, 0x0A, 0xAA} then slave_err m
          else do {
            c \<leftarrow> rd (recv m) 3;
            if c = 0xAA then do {
              let n = unat (msv_ReceiveLen (mb_pack m)) - 2;
              b \<leftarrow> copy_req 1 (n - 1) (recv m) (resp m);
              b1 \<leftarrow> wr b 0 (slaveID (mb_pack m));
              mb_slave_verify_resp_msg (put_len (of_nat n) (put_resp b1 m)) }
            else if c = 0x00 then mb_repeat m
            else if c = 0x01 then
              (if v = 0 \<or> v = 0xFF00 then do { m1 \<leftarrow> upd_diag (\<lambda>d. d\<lparr>mcv_ListenOnlyMode := 0\<rparr>) m; mb_repeat m1 }
               else do {
                 d \<leftarrow> sender_diag m;
                 if mcv_ListenOnlyMode d \<noteq> 0 then Some m
                 else do { m1 \<leftarrow> slave_err m; mb_fail MB_ILIEGAL_CODE m1 } })
            else if c = 0x04 then upd_diag (\<lambda>d. d\<lparr>mcv_ListenOnlyMode := 1\<rparr>) m
            else if c = 0x0A then mb_repeat (mb_slave_diag_clear_ctrl_diag_reg m)
            else if c = 0x0B then mb_diag_counter (\<lambda>d. msv_BusPackageCnt d - msv_BusCrcErrCnt d) m
            else if c = 0x0C then mb_diag_counter msv_BusCrcErrCnt m
            else if c = 0x0D then mb_diag_counter msv_SlaveErrCnt m
            else if c = 0x0E then mb_diag_counter msv_SlavePackageCnt m
            else if c = 0x0F then mb_diag_counter msv_SlaveNoRespCnt m
            else if c = 0x12 then mb_diag_counter msv_BusCharOverrunCnt m
            else do { m1 \<leftarrow> slave_err m; mb_fail MB_ILIEGAL_CODE m1 } } }"

section \<open>The frame handler\<close>

text \<open>\<open>mb_manage\<close> stands for the download, upload and control functions.\<close>

definition mb_dispatch :: "(u8 \<Rightarrow> mb_fun) \<Rightarrow> u8 \<Rightarrow> mb_fun" where
  "mb_dispatch mb_manage f m =
     (if f = 0x01 then mb_slave_read_coils_status m
      else if f = 0x02 then mb_slave_read_descrete_input_status m
      else if f = 0x03 then mb_slave_read_holding_register m
      else if f = 0x05 then mb_slave_write_single_coil m
      else if f = 0x06 then mb_slave_write_register m
      else if f = 0x08 then mb_slave_diagnostic_func m
      else if f = 0x0F then mb_slave_write_multiple_coils m
      else if f = 0x10 then mb_slave_write_multiple_registers m
      else if f = 0x64 then mb_slave_read_multiple_bit_element m
      else if f = 0x65 then mb_slave_read_multiple_word_element m
      else if f = 0x66 then mb_slave_write_multiple_bit_element m
      else if f = 0x67 then mb_slave_write_multiple_word_element m
      else if f \<in> {0x68, 0x69, 0x6A} then mb_manage f m
      else do { m1 \<leftarrow> slave_err m; mb_fail MB_ILIEGAL_CODE m1 })"

definition mb_slave_msg_handler :: "(u8 \<Rightarrow> mb_fun) \<Rightarrow> mb_fun" where
  "mb_slave_msg_handler mb_manage m =
     (let n = unat (msv_ReceiveLen (mb_pack m)) in
      if n < 5 then Some m
      else do {
        cur \<leftarrow> GET_PU16_DATA (recv m) (n - 2);
        crc \<leftarrow> calc_crc16 (take (n - 2) (recv m));
        if cur \<noteq> crc then do {
          m1 \<leftarrow> upd_diag (\<lambda>d. d\<lparr>msv_BusCrcErrCnt := msv_BusCrcErrCnt d + 1\<rparr>) m;
          mb_fail MB_ERROR_FRAME m1 }
        else do {
          d \<leftarrow> sender_diag m;
          f \<leftarrow> rd (recv m) 1;
          x \<leftarrow> rd (recv m) 3;
          if mcv_ListenOnlyMode d \<noteq> 0 \<and> f \<noteq> 0x08 \<and> x \<noteq> 0x01 then Some m
          else mb_dispatch mb_manage f m } })"


section \<open>Frames\<close>

text \<open>A message with its checksum, low byte first, and the test that the receiver makes.\<close>

definition crc :: "u8 list \<Rightarrow> u16" where
  "crc bs = rcrc 0xA001 0xFFFF bs"

definition framed :: "u8 list \<Rightarrow> u8 list" where
  "framed bs = bs @ [ucast (crc bs AND 0xFF), ucast (drop_bit 8 (crc bs))]"

definition crc_ok :: "u8 list \<Rightarrow> bool" where
  "crc_ok f \<longleftrightarrow> 2 \<le> length f \<and> GET_PU16_DATA f (length f - 2) = calc_crc16 (take (length f - 2) f)"

lemma crc16_crc: "calc_crc16 bs = Some (crc bs)"
proof -
  have "join16 (0xFF, 0xFF) = 0xFFFF"
    by (simp add: join16_def)
  then show ?thesis
    using crc16_loop_eq [of "(0xFF, 0xFF)" bs] by (auto simp: calc_crc16_def crc_def join16_def)
qed

lemma length_framed [simp]: "length (framed bs) = length bs + 2"
  by (simp add: framed_def)

lemma framed_nth: "i < length bs \<Longrightarrow> framed bs ! i = bs ! i"
  by (simp add: framed_def nth_append)

lemma crc_halves: "bytes_u16 (ucast (c AND 0xFF)) (ucast (drop_bit 8 c)) = c"
proof (rule bit_word_eqI)
  fix n
  assume "n < LENGTH(16)"
  moreover have "bit (255 :: u16) n \<longleftrightarrow> n < 8"
    using bit_mask_iff [of 8 n, where 'a = "16 word"] by (auto simp: mask_eq_exp_minus_1)
  ultimately show "bit (bytes_u16 (ucast (c AND 0xFF)) (ucast (drop_bit 8 c))) n = bit c n"
    by (auto simp: bytes_u16_def bit_simps)
qed

lemma framed_crc: "GET_PU16_DATA (framed bs) (length bs) = Some (crc bs)" "take (length bs) (framed bs) = bs"
  using crc_halves [of "crc bs"] by (simp_all add: GET_PU16_DATA_def framed_def mem_simps nth_append)

lemma framed_ok: "crc_ok (framed bs)"
  by (simp add: crc_ok_def framed_crc crc16_crc)

lemma put_resp_simps [simp]:
  "mcp_ReceiveBuff (mb_pack (put_resp b m)) = recv m" "resp (put_resp b m) = b" "mb_sent (put_resp b m) = mb_sent m"
  "mb_plc (put_resp b m) = mb_plc m" "gtp_ModbusSlaveDiagInfo (put_resp b m) = gtp_ModbusSlaveDiagInfo m"
  "mcp_ReceiveBuff (mb_pack (put_len n m)) = recv m" "resp (put_len n m) = resp m" "mb_sent (put_len n m) = mb_sent m"
  "mb_plc (put_len n m) = mb_plc m" "gtp_ModbusSlaveDiagInfo (put_len n m) = gtp_ModbusSlaveDiagInfo m"
  "msv_RespLen (mb_pack (put_len n m)) = n"
  by (simp_all add: put_resp_def put_len_def)

text \<open>Who asks does not change: the fields of a message that no function writes.\<close>

definition asker :: "mb_st \<Rightarrow> u8 \<times> u8 \<times> u8 \<times> u8 \<times> u8 \<times> bool \<times> bool \<times> nat" where
  "asker m = (case mb_pack m of p \<Rightarrow> (mcv_Sender p, mcv_IsBroadcastInfo p, isTcpClient p, clientID p, slaveID p,
     has_tcp_resp_func p, has_resp_func p, length (mcp_RespBuff p)))"

lemma asker_put [simp]: "length b = length (resp m) \<Longrightarrow> asker (put_resp b m) = asker m" "asker (put_len n m) = asker m"
  "asker (m\<lparr>mb_sent := x\<rparr>) = asker m" "asker (m\<lparr>mb_plc := s\<rparr>) = asker m" "asker (m\<lparr>gtp_ModbusSlaveDiagInfo := ds\<rparr>) = asker m"
  by (simp_all add: asker_def put_resp_def put_len_def)

definition serial :: "mb_st \<Rightarrow> bool" where
  "serial m \<longleftrightarrow> has_resp_func (mb_pack m) \<and> isTcpClient (mb_pack m) = 0"

lemma asker_eqD: "asker m = asker m' \<Longrightarrow> serial m = serial m'" "asker m = asker m' \<Longrightarrow> broadcast m = broadcast m'"
  "asker m = asker m' \<Longrightarrow> length (resp m) = length (resp m')" "asker m = asker m' \<Longrightarrow> mcv_Sender (mb_pack m) = mcv_Sender (mb_pack m')"
  by (simp_all add: asker_def serial_def)

text \<open>\<open>m'\<close> is \<open>m\<close> after the answer \<open>f\<close>.\<close>

definition replied :: "u8 list \<Rightarrow> mb_st \<Rightarrow> mb_st \<Rightarrow> bool" where
  "replied f m m' \<longleftrightarrow> mb_sent m' = mb_sent m @ [Resp f] \<and> mb_plc m' = mb_plc m \<and>
     gtp_ModbusSlaveDiagInfo m' = gtp_ModbusSlaveDiagInfo m \<and> asker m' = asker m"

lemma take_wr2: "n + 2 \<le> length b \<Longrightarrow> take (n + 2) (b[n := x, Suc n := y]) = take n b @ [x, y]"
  by (simp add: take_Suc_conv_app_nth take_update_swap list_update_append)

lemma verify_replies:
  assumes "serial m" and "length b = length (resp m)" and "unat n + 2 \<le> length b" and "unat n + 2 < 65536"
  shows "\<exists>m'. mb_slave_verify_resp_msg (put_len n (put_resp b m)) = Some m' \<and> replied (framed (take (unat n) b)) m m'"
proof -
  define m1 where "m1 = put_len n (put_resp b m)"
  let ?c = "crc (take (unat n) b)"
  let ?b = "b[unat n := ucast (?c AND 0xFF), Suc (unat n) := ucast (drop_bit 8 ?c)]"
  have n: "unat (n + 2) = unat n + 2"
    using assms(4) by (simp add: unat_word_ariths)
  have "mb_slave_verify_resp_msg m1 = mb_send (put_len (n + 2) (put_resp ?b m1))"
    using assms(3) by (simp add: mb_slave_verify_resp_msg_def m1_def crc16_crc mem_simps Let_def)
  moreover have "take (unat (n + 2)) ?b = framed (take (unat n) b)"
    using take_wr2 [OF assms(3)] by (simp only: n framed_def)
  moreover have "mb_send k = Some (k\<lparr>mb_sent := mb_sent k @ [Resp (take (unat (msv_RespLen (mb_pack k))) (resp k))]\<rparr>)" if "serial k" for k
    using that by (simp add: mb_send_def serial_def Let_def)
  moreover have "serial (put_len (n + 2) (put_resp ?b m1))"
    using assms(1,2) asker_eqD(1) [of "put_len (n + 2) (put_resp ?b m1)" m] by (simp add: m1_def)
  ultimately show ?thesis
    using assms(2) by (simp add: replied_def m1_def)
qed

section \<open>Registers\<close>

definition be16 :: "u16 \<Rightarrow> u8 list" where
  "be16 v = [ucast (drop_bit 8 v), ucast v]"

definition be_words :: "u16 list \<Rightarrow> u8 list" where
  "be_words vs = concat (map be16 vs)"

lemma length_be_words [simp]: "length (be_words vs) = 2 * length vs"
  by (induction vs) (simp_all add: be_words_def be16_def)

lemma be_words_simps [simp]: "be_words [] = []" "be_words (v # vs) = ucast (drop_bit 8 v) # ucast v # be_words vs"
  by (simp_all add: be_words_def be16_def)

lemma big_halves: "push_bit 8 (ucast (ucast (drop_bit 8 v) :: u8)) + ucast (ucast v :: u8) = (v :: u16)"
proof -
  have "push_bit 8 (ucast (ucast (drop_bit 8 v) :: u8)) + ucast (ucast v :: u8) = push_bit 8 (ucast (ucast (drop_bit 8 v) :: u8)) OR (ucast (ucast v :: u8) :: u16)"
    by (rule disjunctive_add) (auto simp: bit_simps)
  also have "\<dots> = v"
    by (rule bit_word_eqI) (auto simp: bit_simps)
  finally show ?thesis .
qed

lemma big_word:
  assumes "q = pre @ be_words (v # vs) @ post"
  shows "GET_BIGPU16_DATA q (length pre) = Some v"
  using assms big_halves [of v] by (simp add: GET_BIGPU16_DATA_def mem_simps nth_append)

text \<open>What the writing loop leaves behind, for every bank of words, and what the reading loop makes of it.\<close>

locale word_bank = bank get put "\<lambda>v. v" rng inv
  for get :: "'s \<Rightarrow> u16 \<Rightarrow> u16 option" and put :: "'s \<Rightarrow> u16 \<Rightarrow> u16 \<Rightarrow> 's option" and rng :: "'s \<Rightarrow> u16" and inv :: "'s \<Rightarrow> bool"
begin

lemma mb_write_words_ok:
  "inv s \<Longrightarrow> unat addr + length vs \<le> unat (rng s) \<Longrightarrow> q = pre @ be_words vs @ post \<Longrightarrow>
    \<exists>s'. mb_write_words put q (length vs) addr (length pre) s = Some s' \<and> inv s' \<and> rng s' = rng s \<and>
      (\<forall>i < length vs. get s' (addr + of_nat i) = Some (vs ! i)) \<and>
      (\<forall>j. unat j < unat addr \<longrightarrow> get s' j = get s j)"
proof (induction vs arbitrary: s addr pre)
  case (Cons v vs)
  have r: "addr < rng s"
    using Cons.prems(2) by (simp add: word_less_nat_alt)
  obtain s1 where s1: "put s addr v = Some s1"
    using put_ok [OF Cons.prems(1) r] by blast
  have "unat addr + 1 < 65536"
    using Cons.prems(2) order_le_less_trans [OF _ unat_lt_16 [of "rng s"], of "unat addr + length (v # vs)"] by simp
  then have a: "unat (addr + 1) = unat addr + 1"
    by (simp add: unat_word_ariths)
  obtain s' where s': "mb_write_words put q (length vs) (addr + 1) (length pre + 2) s1 = Some s'" "inv s'" "rng s' = rng s1"
    "\<And>i. i < length vs \<Longrightarrow> get s' (addr + 1 + of_nat i) = Some (vs ! i)" "\<And>j. unat j < unat addr + 1 \<Longrightarrow> get s' j = get s1 j"
    using Cons.IH [OF put_inv [OF Cons.prems(1) s1], of "addr + 1" "pre @ be_words [v]"] Cons.prems(2,3) put_rng [OF s1] a by auto
  have "get s' (addr + of_nat i) = Some ((v # vs) ! i)" if "i < Suc (length vs)" for i
  proof (cases i)
    case 0
    then show ?thesis
      using s'(5) [of addr] get_put_same [OF s1] by simp
  next
    case (Suc k)
    then show ?thesis
      using s'(4) [of k] that by (simp add: ac_simps)
  qed
  moreover have "get s' j = get s j" if "unat j < unat addr" for j
    using s'(5) [of j] get_put_other [OF s1, of j] that by auto
  ultimately show ?case
    using s'(1-3) s1 put_rng [OF s1] big_word [OF Cons.prems(3)] by (auto simp: numeral_2_eq_2)
qed simp

end

interpretation areas: word_bank "get_word_elem a" "set_word_elem a" "word_elem_rang a" wf_state
  by unfold_locales

lemma take_put2: "p + 2 \<le> length b \<Longrightarrow> take (p + 2) (b[p := x, Suc p := y]) @ c @ drop n (b[p := x, Suc p := y]) = take p b @ x # y # c @ drop n (b[p := x, Suc p := y])"
  using take_wr2 [of p b x y] by simp

lemma mb_read_words_ok:
  "(\<And>i. i < length vs \<Longrightarrow> get s (addr + of_nat i) = Some (vs ! i)) \<Longrightarrow> p + 2 * length vs \<le> length b \<Longrightarrow>
    mb_read_words get s (length vs) addr p b = Some (take p b @ be_words vs @ drop (p + 2 * length vs) b)"
proof (induction vs arbitrary: addr p b)
  case (Cons v vs)
  let ?b = "b[p := ucast (drop_bit 8 v), Suc p := ucast v]"
  have g: "get s addr = Some v"
    using Cons.prems(1) [of 0] by simp
  have n: "get s (addr + 1 + of_nat i) = Some (vs ! i)" if "i < length vs" for i
    using Cons.prems(1) [of "Suc i"] that by (simp add: ac_simps)
  have "mb_read_words get s (length vs) (addr + 1) (p + 2) ?b = Some (take (p + 2) ?b @ be_words vs @ drop (p + 2 + 2 * length vs) ?b)"
    using Cons.IH [OF n, where b = ?b and p = "p + 2"] Cons.prems(2) by simp
  moreover have "drop (p + 2 + 2 * length vs) ?b = drop (p + 2 + 2 * length vs) b"
    by simp
  ultimately show ?case
    using g Cons.prems(2) take_put2 [of p b] by (simp add: mem_simps)
qed simp

section \<open>Requests and answers\<close>

lemma copy_req_ok:
  "j + n \<le> length q \<Longrightarrow> j + n \<le> length b \<Longrightarrow> copy_req j n q b = Some (take j b @ take n (drop j q) @ drop (j + n) b)"
proof (induction n arbitrary: j b)
  case (Suc n)
  have "take (Suc j) (b[j := q ! j]) = take j b @ [q ! j]" "drop (Suc j + n) (b[j := q ! j]) = drop (Suc j + n) b"
    using Suc.prems(2) by (simp_all add: take_Suc_conv_app_nth take_update_swap list_update_append)
  moreover have "take (Suc n) (drop j q) = q ! j # take n (drop (Suc j) q)"
    using Suc.prems(1) by (simp add: Cons_nth_drop_Suc [symmetric])
  ultimately show ?case
    using Suc.IH [of "Suc j" "b[j := q ! j]"] Suc.prems by (simp add: mem_simps)
qed simp

lemma echo_replies:
  assumes "serial m" and "n \<le> length (recv m)" and "n + 2 \<le> length (resp m)" and "n + 2 < 65536"
  shows "\<exists>m'. mb_echo n m = Some m' \<and> replied (framed (take n (recv m))) m m'"
proof -
  have n: "unat (of_nat n :: u16) = n"
    using assms(4) by (simp add: unat_of_nat)
  let ?b = "take n (recv m) @ drop n (resp m)"
  have "copy_req 0 n (recv m) (resp m) = Some ?b"
    using copy_req_ok [of 0 n "recv m" "resp m"] assms(2,3) by simp
  then show ?thesis
    using verify_replies [OF assms(1), of ?b "of_nat n"] assms(2-4) n by (simp add: mb_echo_def)
qed

lemma data_replies:
  assumes "serial m" and "2 \<le> length (recv m)" and "length b = length (resp m)" and "unat n + 5 \<le> length b" and "unat n + 5 < 65536"
  shows "\<exists>m'. mb_data b n m = Some m' \<and> replied (framed (recv m ! 0 # recv m ! 1 # ucast n # take (unat n) (drop 3 b))) m m'"
proof -
  have n: "unat (n + 3) = unat n + 3"
    using assms(5) by (simp add: unat_word_ariths)
  obtain x y z b' where b: "b = x # y # z # b'"
    using assms(4) by (auto simp: numeral_eq_Suc Suc_le_length_iff)
  obtain u v q where q: "recv m = u # v # q"
    using assms(2) by (auto simp: numeral_eq_Suc Suc_le_length_iff)
  have "copy_req 0 2 (recv m) b = Some (u # v # z # b')"
    using copy_req_ok [of 0 2 "recv m" b] assms(2,4) by (simp add: b q)
  moreover have "take (unat n + 3) (u # v # ucast n # b') = u # v # ucast n # take (unat n) b'"
    by (simp add: numeral_3_eq_3)
  ultimately show ?thesis
    using verify_replies [OF assms(1), of "u # v # ucast n # b'" "n + 3"] assms(3-5) n by (simp add: mb_data_def b q mem_simps)
qed

text \<open>A message from the line.\<close>

definition request :: "u8 list \<Rightarrow> mb_st \<Rightarrow> mb_st" where
  "request bs m = m\<lparr>mb_pack := (mb_pack m)\<lparr>mcp_ReceiveBuff := framed bs, msv_ReceiveLen := of_nat (length bs + 2)\<rparr>\<rparr>"

lemma request_simps [simp]:
  "recv (request bs m) = framed bs" "resp (request bs m) = resp m" "mb_sent (request bs m) = mb_sent m" "mb_plc (request bs m) = mb_plc m"
  "gtp_ModbusSlaveDiagInfo (request bs m) = gtp_ModbusSlaveDiagInfo m"
  "mcv_IsBroadcastInfo (mb_pack (request bs m)) = mcv_IsBroadcastInfo (mb_pack m)" "serial (request bs m) = serial m"
  "sender_diag (request bs m) = sender_diag m"
  by (simp_all add: request_def serial_def sender_diag_def)

lemma request_asker [simp]: "asker (request bs m) = asker m"
  by (simp add: request_def asker_def)

lemma request_len: "msv_ReceiveLen (mb_pack (request bs m)) = of_nat (length bs + 2)"
  by (simp add: request_def)

lemma handler_request:
  assumes "3 \<le> length bs" and "length bs + 2 < 65536" and "sender_diag m = Some d" and "mcv_ListenOnlyMode d = 0"
  shows "mb_slave_msg_handler man (request bs m) = mb_dispatch man (bs ! 1) (request bs m)"
proof -
  have n: "unat (msv_ReceiveLen (mb_pack (request bs m))) = length bs + 2"
    using assms(2) unfolding request_len by (simp only: unat_of_nat) simp
  show ?thesis
    using assms framed_crc [of bs] framed_nth [of 1 bs]
    by (simp add: mb_slave_msg_handler_def n crc16_crc mem_simps Let_def)
qed

lemma replied_keeps:
  assumes "replied f m m'"
  shows "serial m' = serial m" "broadcast m' = broadcast m" "length (resp m') = length (resp m)" "sender_diag m' = sender_diag m"
proof -
  have a: "asker m' = asker m" "gtp_ModbusSlaveDiagInfo m' = gtp_ModbusSlaveDiagInfo m"
    using assms by (simp_all add: replied_def)
  show "serial m' = serial m" "broadcast m' = broadcast m" "length (resp m') = length (resp m)"
    by (rule asker_eqD [OF a(1)])+
  show "sender_diag m' = sender_diag m"
    by (simp only: sender_diag_def asker_eqD(4) [OF a(1)] a(2))
qed

text \<open>The frames of a write and a read of registers.\<close>

definition write_frame :: "u8 \<Rightarrow> u16 \<Rightarrow> u16 list \<Rightarrow> u8 list" where
  "write_frame st start vs = st # 0x10 # be16 start @ be16 (of_nat (length vs)) @ of_nat (2 * length vs) # be_words vs"

definition read_frame :: "u8 \<Rightarrow> u16 \<Rightarrow> nat \<Rightarrow> u8 list" where
  "read_frame st start n = st # 0x03 # be16 start @ be16 (of_nat n)"

lemma write_frame_fields:
  "GET_BIGPU16_DATA (framed (write_frame st start vs)) 2 = Some start"
  "GET_BIGPU16_DATA (framed (write_frame st start vs)) 4 = Some (of_nat (length vs))"
  "rd (framed (write_frame st start vs)) 6 = Some (of_nat (2 * length vs))"
  "GET_BIGPU16_DATA (framed (read_frame st start n)) 2 = Some start"
  "GET_BIGPU16_DATA (framed (read_frame st start n)) 4 = Some (of_nat n)"
  using big_halves [of start] big_halves [of "of_nat (length vs)"] big_halves [of "of_nat n"]
  by (simp_all add: GET_BIGPU16_DATA_def framed_def write_frame_def read_frame_def be16_def mem_simps del: of_nat_mult)

lemma byte_count: "n \<le> 120 \<Longrightarrow> drop_bit 1 (ucast (of_nat (2 * n) :: u8) :: u16) = of_nat n"
  by (simp add: word_unat_eq_iff unat_drop_bit unat_of_nat unsigned_ucast_eq take_bit_nat_eq_self del: of_nat_mult)

lemma mb_over_nat: "mb_over addr cnt rang \<longleftrightarrow> unat rang + 1 < unat addr + unat cnt"
  unfolding mb_over_def by linarith

lemma write_frame_replies:
  assumes "mb_slave_convert_element_info MB_WORD_ELEMENT start = Some (t, addr)" and "mb_word_area t = Some a"
    and "1 \<le> length vs" and "length vs \<le> 120" and "unat addr + length vs \<le> unat (word_elem_rang a (mb_plc m))" and "wf_state (mb_plc m)"
    and "serial m" and "8 \<le> length (resp m)"
  shows "\<exists>m' s. mb_slave_write_multiple_registers (request (write_frame st start vs) m) = Some m' \<and>
    replied (framed (take 6 (write_frame st start vs))) (m\<lparr>mb_plc := s\<rparr>) m' \<and> 
    (\<forall>i < length vs. get_word_elem a s (addr + of_nat i) = Some (vs ! i)) \<and> word_elem_rang a s = word_elem_rang a (mb_plc m)"
proof -
  let ?m = "request (write_frame st start vs) m" and ?q = "framed (write_frame st start vs)"
  define pre where "pre = take 7 (write_frame st start vs)"
  have l: "length pre = 7"
    by (simp add: pre_def write_frame_def be16_def)
  have q: "?q = pre @ be_words vs @ drop (length (write_frame st start vs)) ?q"
    by (simp add: pre_def write_frame_def be16_def framed_def)
  obtain s where s: "mb_write_words (set_word_elem a) ?q (length vs) addr 7 (mb_plc m) = Some s"
    "\<And>i. i < length vs \<Longrightarrow> get_word_elem a s (addr + of_nat i) = Some (vs ! i)" "word_elem_rang a s = word_elem_rang a (mb_plc m)"
    using areas.mb_write_words_ok [OF assms(6,5) q] l by auto
  have n: "unat (of_nat (length vs) :: u16) = length vs"
    using assms(4) by (simp add: unat_of_nat)
  have c: "\<not> (MB_MAX_W_WORD_NUM < of_nat (length vs) \<or> (of_nat (length vs) :: u16) < 1)"
    using assms(3,4) n by (auto simp: word_less_nat_alt)
  have v: "\<not> mb_over addr (of_nat (length vs)) (word_elem_rang a (mb_plc m))"
    using assms(5) n by (simp add: mb_over_nat)
  obtain m' where m': "mb_echo 6 (?m\<lparr>mb_plc := s\<rparr>) = Some m'" "replied (framed (take 6 ?q)) (?m\<lparr>mb_plc := s\<rparr>) m'"
    using echo_replies [of "?m\<lparr>mb_plc := s\<rparr>" 6] assms(7,8) by (auto simp: write_frame_def be16_def serial_def request_def)
  have t: "take 6 ?q = take 6 (write_frame st start vs)"
    by (simp add: framed_def write_frame_def be16_def)
  have "mb_slave_write_multiple_registers ?m = Some m'"
    using s(1) m'(1) c v assms(1,2)
    by (simp add: mb_slave_write_multiple_registers_def write_frame_fields byte_count [OF assms(4), unfolded One_nat_def] n on_plc_def del: of_nat_mult)
  then show ?thesis
    using m'(2) s(2,3) by (auto simp: replied_def t)
qed

lemma read_frame_replies:
  assumes "mb_slave_convert_element_info MB_WORD_ELEMENT start = Some (t, addr)" and "mb_word_area t = Some a"
    and "length vs \<le> 120" and "unat addr + length vs \<le> unat (word_elem_rang a (mb_plc m))"
    and "\<And>i. i < length vs \<Longrightarrow> get_word_elem a (mb_plc m) (addr + of_nat i) = Some (vs ! i)"
    and "serial m" and "\<not> broadcast m" and "2 * length vs + 5 \<le> length (resp m)"
  shows "\<exists>m'. mb_slave_read_holding_register (request (read_frame st start (length vs)) m) = Some m' \<and>
    replied (framed (st # 0x03 # of_nat (2 * length vs) # be_words vs)) m m'"
proof -
  let ?m = "request (read_frame st start (length vs)) m"
  define b where "b = take 3 (resp m) @ be_words vs @ drop (3 + 2 * length vs) (resp m)"
  have n: "unat (of_nat (length vs) :: u16) = length vs" "unat (2 * of_nat (length vs) :: u16) = 2 * length vs"
    using assms(3) by (simp_all add: unat_of_nat unat_word_ariths)
  have c: "\<not> MB_MAX_R_WORD_NUM < of_nat (length vs)"
    using assms(3) n by (simp add: word_less_nat_alt)
  have v: "\<not> mb_over addr (of_nat (length vs)) (word_elem_rang a (mb_plc m))"
    using assms(4) n by (simp add: mb_over_nat)
  have r: "mb_read_words (get_word_elem a) (mb_plc m) (length vs) addr 3 (resp m) = Some b"
    unfolding b_def
  proof (rule mb_read_words_ok)
    show "get_word_elem a (mb_plc m) (addr + of_nat i) = Some (vs ! i)" if "i < length vs" for i
      using assms(5) that by simp
    show "3 + 2 * length vs \<le> length (resp m)"
      using assms(8) by linarith
  qed
  have b: "length b = length (resp m)" "take (2 * length vs) (drop 3 b) = be_words vs"
    using assms(8) by (simp_all add: b_def)
  have f: "framed (read_frame st start (length vs)) ! 0 = st" "framed (read_frame st start (length vs)) ! 1 = 3"
    by (simp_all add: framed_def read_frame_def)
  obtain m' where m': "mb_data b (2 * of_nat (length vs)) ?m = Some m'"
    "replied (framed (st # 3 # ucast (2 * of_nat (length vs) :: u16) # be_words vs)) ?m m'"
    using data_replies [of ?m b "2 * of_nat (length vs)"] assms(3,6,8) n b f by auto
  have "length (read_frame st start (length vs)) = 6"
    by (simp add: read_frame_def be16_def)
  then have "mb_slave_read_holding_register ?m = Some m'"
    using m'(1) c v r assms(1,2,7)
    by (simp add: mb_slave_read_holding_register_def mb_read_area_def write_frame_fields request_len n)
  moreover have "ucast (2 * of_nat (length vs) :: u16) = (of_nat (2 * length vs) :: u8)"
    using assms(3) by (simp add: word_unat_eq_iff unsigned_ucast_eq n unat_of_nat take_bit_nat_eq_self del: of_nat_mult)
  ultimately show ?thesis
    using m'(2) by (auto simp: replied_def)
qed

text \<open>C11. What a master writes to registers with function 16, it reads back with function 3.  For D, SD, Z, T and R elements behind a protocol
  address, and up to 120 values that fit into the elements, the slave answers the write with the first six bytes of the request and
  a later read of the same registers with exactly the values written, high byte first; both answers carry a valid checksum.\<close>

theorem mb_registers_round_trip:
  assumes "mb_slave_convert_element_info MB_WORD_ELEMENT start = Some (t, addr)" and "mb_word_area t = Some a"
    and "1 \<le> length vs" and "length vs \<le> 120" and "unat addr + length vs \<le> unat (word_elem_rang a (mb_plc m))" and "wf_state (mb_plc m)"
    and "serial m" and "\<not> broadcast m" and "245 \<le> length (resp m)" and "sender_diag m = Some d" and "mcv_ListenOnlyMode d = 0"
  shows "\<exists>m1 m2. mb_slave_msg_handler man (request (write_frame st start vs) m) = Some m1 \<and>
    mb_slave_msg_handler man (request (read_frame st start (length vs)) m1) = Some m2 \<and>
    mb_sent m2 = mb_sent m @ [Resp (framed (take 6 (write_frame st start vs))), Resp (framed (st # 0x03 # of_nat (2 * length vs) # be_words vs))]"
proof -
  obtain m1 s where m1: "mb_slave_write_multiple_registers (request (write_frame st start vs) m) = Some m1"
    "replied (framed (take 6 (write_frame st start vs))) (m\<lparr>mb_plc := s\<rparr>) m1"
    "\<And>i. i < length vs \<Longrightarrow> get_word_elem a s (addr + of_nat i) = Some (vs ! i)" "word_elem_rang a s = word_elem_rang a (mb_plc m)"
    using write_frame_replies [OF assms(1-7), of st] assms(9) by auto
  have k: "serial m1" "\<not> broadcast m1" "length (resp m1) = length (resp m)" "sender_diag m1 = Some d" "mb_plc m1 = s"
    using replied_keeps [OF m1(2)] assms(7,8,10) m1(2) by (simp_all add: serial_def sender_diag_def replied_def)
  obtain m2 where m2: "mb_slave_read_holding_register (request (read_frame st start (length vs)) m1) = Some m2"
    "replied (framed (st # 0x03 # of_nat (2 * length vs) # be_words vs)) m1 m2"
    using read_frame_replies [OF assms(1,2,4), of m1 st] assms(4,5,9) m1(3,4) k by auto
  have "mb_slave_msg_handler man (request (write_frame st start vs) m) = Some m1"
    using handler_request [OF _ _ assms(10,11), of "write_frame st start vs"] m1(1) assms(4) by (simp add: write_frame_def be16_def mb_dispatch_def)
  moreover have "mb_slave_msg_handler man (request (read_frame st start (length vs)) m1) = Some m2"
    using handler_request [OF _ _ k(4) assms(11), of "read_frame st start (length vs)"] m2(1) by (simp add: read_frame_def be16_def mb_dispatch_def)
  ultimately show ?thesis
    using m1(2) m2(2) by (auto simp: replied_def)
qed

text \<open>A slave on a serial line after start-up.\<close>

definition mb_boot :: mb_st where
  "mb_boot = \<lparr>mb_pack = \<lparr>mcv_Sender = 0, msv_ReceiveLen = 0, msv_RespLen = 0, mcv_IsBroadcastInfo = 0, mcv_ErrorCode = 0, mcp_ReceiveBuff = [],
       mcp_RespBuff = zeros 256, isTcpClient = 0, clientID = 0, slaveID = 1, has_tcp_resp_func = False, has_resp_func = True\<rparr>,
     gtp_ModbusSlaveDiagInfo = replicate MB_SENDER_MAX \<lparr>mcv_SlaveId = 1, mcv_ListenOnlyMode = 0, msv_BusPackageCnt = 0, msv_BusCrcErrCnt = 0,
       msv_SlaveErrCnt = 0, msv_SlavePackageCnt = 0, msv_SlaveNoRespCnt = 0, msv_BusCharOverrunCnt = 0\<rparr>,
     mb_sent = [], mb_plc = boot_state []\<rparr>"

lemma mb_boot_simps:
  "serial mb_boot" "\<not> broadcast mb_boot" "length (resp mb_boot) = 256" "mb_plc mb_boot = boot_state []" "mb_sent mb_boot = []"
  "sender_diag mb_boot = Some \<lparr>mcv_SlaveId = 1, mcv_ListenOnlyMode = 0, msv_BusPackageCnt = 0, msv_BusCrcErrCnt = 0,
       msv_SlaveErrCnt = 0, msv_SlavePackageCnt = 0, msv_SlaveNoRespCnt = 0, msv_BusCharOverrunCnt = 0\<rparr>"
  by (simp_all add: mb_boot_def serial_def sender_diag_def rd_def)

definition no_manage :: "u8 \<Rightarrow> mb_fun" where
  "no_manage f m = Some m"

theorem mb_registers_round_trip_witness:
  "\<exists>m1 m2. mb_slave_msg_handler no_manage (request (write_frame 1 100 [0x1234, 0xFFFF]) mb_boot) = Some m1 \<and>
    mb_slave_msg_handler no_manage (request (read_frame 1 100 2) m1) = Some m2 \<and>
    mb_sent m2 = [Resp (framed [1, 0x10, 0, 100, 0, 2]), Resp (framed [1, 3, 4, 0x12, 0x34, 0xFF, 0xFF])]"
proof -
  have "mb_slave_convert_element_info MB_WORD_ELEMENT 100 = Some (MB_WORD_D, 100)" "mb_word_area MB_WORD_D = Some D_AREA"
    by (simp_all add: mb_slave_convert_element_info_def stv_ModbusMapTable_def map_row_def mb_word_area_def)
  then obtain m1 m2 where "mb_slave_msg_handler no_manage (request (write_frame 1 100 [0x1234, 0xFFFF]) mb_boot) = Some m1"
    "mb_slave_msg_handler no_manage (request (read_frame 1 100 (length [0x1234, 0xFFFF :: u16])) m1) = Some m2"
    "mb_sent m2 = mb_sent mb_boot @ [Resp (framed (take 6 (write_frame 1 100 [0x1234, 0xFFFF]))),
       Resp (framed (1 # 0x03 # of_nat (2 * length [0x1234, 0xFFFF :: u16]) # be_words [0x1234, 0xFFFF]))]"
    using mb_registers_round_trip [OF _ _ _ _ _ _ mb_boot_simps(1,2) _ mb_boot_simps(6), of 100 MB_WORD_D 100 D_AREA "[0x1234, 0xFFFF]" no_manage 1]
    by (auto simp: mb_boot_simps(3-5))
  moreover have "take 6 (write_frame 1 100 [0x1234, 0xFFFF]) = [1, 0x10, 0, 100, 0, 2]" "be_words [0x1234, 0xFFFF] = [0x12, 0x34, 0xFF, 0xFF]"
    by (simp_all add: write_frame_def be16_def)
  moreover have w: "(4660 :: u8) = 0x34" "(65535 :: u8) = 0xFF"
    by simp_all
  ultimately show ?thesis
    by (simp add: mb_boot_simps(5)) (simp add: numeral_2_eq_2 w)
qed

end
