(* ===== verification/PLC_ModbusSlave.thy ===== *)
theory PLC_ModbusSlave
  imports PLC_Modbus PLC_Frame
begin

text \<open>
  Further properties of the Modbus slave: the round trip of coils through the packed bits of a frame, and what an arbitrary
  request can do to the elements, the user program and the line.
\<close>

section \<open>Coils\<close>

lemma unat_wide: "unat (ucast (n :: u8) :: u16) = unat n"
  using take_bit_nat_eq_self [OF u8_small [of n]] by (simp only: unsigned_ucast_eq) simp

lemma narrow_wide: "ucast (ucast (n :: u8) :: u16) = n"
  by (rule bit_word_eqI) (simp add: bit_simps)


text \<open>Bits in bytes, the first one lowest.\<close>

definition bits_byte :: "bool list \<Rightarrow> u8" where
  "bits_byte bs = horner_sum of_bool 2 bs"

fun coil_bytes :: "bool list \<Rightarrow> u8 list" where
  "coil_bytes [] = []"
| "coil_bytes (b # bs) = bits_byte (take 8 (b # bs)) # coil_bytes (drop 8 (b # bs))"

lemma bit_bits_byte: "bit (bits_byte bs) n \<longleftrightarrow> n < 8 \<and> n < length bs \<and> bs ! n"
  by (auto simp: bits_byte_def bit_horner_sum_bit_word_iff)

lemma bits_byte_Nil [simp]: "bits_byte [] = 0"
  by (simp add: bits_byte_def)

lemma bits_byte_snoc: "length bs < 8 \<Longrightarrow> bits_byte bs + push_bit (length bs) (of_bool b) = bits_byte (bs @ [b])"
proof -
  assume l: "length bs < 8"
  have "bits_byte bs + push_bit (length bs) (of_bool b) = bits_byte bs OR push_bit (length bs) (of_bool b)"
    by (rule disjunctive_add) (auto simp: bit_bits_byte bit_simps)
  also have "\<dots> = bits_byte (bs @ [b])"
    using l by (intro bit_word_eqI) (auto simp: bit_bits_byte bit_simps nth_append)
  finally show ?thesis .
qed

lemma coil_bytes_short: "bs \<noteq> [] \<Longrightarrow> length bs \<le> 8 \<Longrightarrow> coil_bytes bs = [bits_byte bs]"
  by (cases bs) simp_all

lemma coil_bytes_app: "length ks = 8 \<Longrightarrow> coil_bytes (ks @ bs) = bits_byte ks # coil_bytes bs"
  by (cases ks) simp_all

lemma length_coil_bytes: "length (coil_bytes bs) = (length bs + 7) div 8"
proof (induction bs rule: coil_bytes.induct)
  case (2 b bs)
  show ?case
    using 2 by (cases "length bs < 8") auto
qed simp

text \<open>The packing loop.\<close>

lemma pack_bits_ok:
  "(\<And>i. i < length vs \<Longrightarrow> get_bit_elem a s (addr + of_nat i) = Some (of_bool (vs ! i))) \<Longrightarrow> length ks \<le> 8 \<Longrightarrow> ks @ vs \<noteq> [] \<Longrightarrow>
    b ! p = bits_byte ks \<Longrightarrow> p + length (coil_bytes (ks @ vs)) \<le> length b \<Longrightarrow>
    pack_bits (\<lambda>x. x) a s (length vs) addr p (length ks) n b =
      Some (n + of_nat (length (coil_bytes (ks @ vs)) - 1), take p b @ coil_bytes (ks @ vs) @ drop (p + length (coil_bytes (ks @ vs))) b)"
proof (induction vs arbitrary: addr p ks n b)
  case Nil
  then have "coil_bytes ks = [b ! p]" "p < length b"
    by (simp_all add: coil_bytes_short)
  then show ?case
    by (simp add: id_take_nth_drop [symmetric] Suc_le_eq)
next
  case (Cons v vs)
  have g: "get_bit_elem a s addr = Some (of_bool v)"
    using Cons.prems(1) [of 0] by simp
  have r: "get_bit_elem a s (addr + 1 + of_nat i) = Some (of_bool (vs ! i))" if "i < length vs" for i
    using Cons.prems(1) [of "Suc i"] that by (simp add: ac_simps)
  show ?case
  proof (cases "length ks = 8")
    case False
    then have l: "length ks < 8" "p < length b"
      using Cons.prems(2,5) length_coil_bytes [of "ks @ v # vs"] by auto
    have "pack_bits (\<lambda>x. x) a s (length vs) (addr + 1) p (length (ks @ [v])) n (b[p := bits_byte (ks @ [v])]) =
        Some (n + of_nat (length (coil_bytes (ks @ v # vs)) - 1),
          take p (b[p := bits_byte (ks @ [v])]) @ coil_bytes (ks @ v # vs) @ drop (p + length (coil_bytes (ks @ v # vs))) (b[p := bits_byte (ks @ [v])]))"
      using Cons.IH [OF r, of "ks @ [v]" "b[p := bits_byte (ks @ [v])]" p n] Cons.prems(5) l by simp
    moreover have "drop (p + length (coil_bytes (ks @ v # vs))) (b[p := bits_byte (ks @ [v])]) = drop (p + length (coil_bytes (ks @ v # vs))) b"
      using length_coil_bytes [of "ks @ v # vs"] by simp
    ultimately show ?thesis
      using g l Cons.prems(4) bits_byte_snoc [OF l(1), of v] by (simp add: mem_simps)
  next
    case True
    let ?b = "b[p + 1 := bits_byte [v]]"
    have c: "coil_bytes (ks @ v # vs) = bits_byte ks # coil_bytes (v # vs)"
      by (rule coil_bytes_app [OF True])
    then have l: "p + 1 < length b"
      using Cons.prems(5) by simp
    have "pack_bits (\<lambda>x. x) a s (length vs) (addr + 1) (p + 1) (length [v]) (n + 1) ?b =
        Some (n + 1 + of_nat (length (coil_bytes (v # vs)) - 1),
          take (p + 1) ?b @ coil_bytes (v # vs) @ drop (p + 1 + length (coil_bytes (v # vs))) ?b)"
      using Cons.IH [OF r, of "[v]" ?b "p + 1" "n + 1"] Cons.prems(5) l c by simp
    moreover have "take (p + 1) ?b = take p b @ [bits_byte ks]" "drop (p + 1 + length (coil_bytes (v # vs))) ?b = drop (p + 1 + length (coil_bytes (v # vs))) b"
      using l Cons.prems(4) by (simp_all add: take_Suc_conv_app_nth)
    moreover have "n + 1 + of_nat (length (coil_bytes (v # vs)) - 1) = n + of_nat (length (coil_bytes (ks @ v # vs)) - 1)"
      using c by simp
    moreover have "push_bit 0 (of_bool v) = bits_byte [v]"
      by (simp add: bits_byte_def)
    ultimately show ?thesis
      using g l c True by (simp add: mem_simps)
  qed
qed

text \<open>The unpacking loops write the bits one after the other.\<close>

fun put_bits :: "('s \<Rightarrow> u16 \<Rightarrow> u8 \<Rightarrow> 's option) \<Rightarrow> u16 \<Rightarrow> bool list \<Rightarrow> 's \<Rightarrow> 's option" where
  "put_bits put addr [] s = Some s"
| "put_bits put addr (b # bs) s = do { s' \<leftarrow> put s addr (of_bool b); put_bits put (addr + 1) bs s' }"

lemma put_bits_append:
  "put_bits put addr (xs @ ys) s = do { s' \<leftarrow> put_bits put addr xs s; put_bits put (addr + of_nat (length xs)) ys s' }"
  by (induction xs arbitrary: addr s) (auto simp: ac_simps intro!: Option.bind_cong)

lemma unpack_byte_bits:
  "(\<And>i. i < length bs \<Longrightarrow> bit x (j + i) = bs ! i) \<Longrightarrow> bs \<noteq> [] \<Longrightarrow> length bs = min n c \<Longrightarrow> c < 65536 \<Longrightarrow>
    unpack_byte a x n j addr (of_nat c, s) = map_option (\<lambda>s'. (of_nat (c - length bs), s')) (put_bits (set_bit_elem a) (addr + of_nat j) bs s)"
proof (induction bs arbitrary: j n c s)
  case (Cons b bs)
  obtain m d where m: "n = Suc m" "c = Suc d"
    using Cons.prems(3) by (cases n; cases c) auto
  have v: "drop_bit j x AND 1 = of_bool b"
    using Cons.prems(1) [of 0] by (simp add: drop_bit_and_1)
  have z: "(of_nat d :: u16) = 0 \<longleftrightarrow> d = 0"
    using Cons.prems(4) m(2) by (auto simp: word_unat_eq_iff unat_of_nat)
  show ?case
  proof (cases "bs = []")
    case True
    then have "m = 0 \<or> d = 0"
      using Cons.prems(3) m by (auto simp: min_def split: if_split_asm)
    then show ?thesis
      using True m v z by (cases "set_bit_elem a s (addr + of_nat j) (of_bool b)") auto
  next
    case False
    then have "0 < length bs"
      by simp
    moreover have d: "length bs = min m d"
      using Cons.prems(3) m by simp
    ultimately have "d \<noteq> 0"
      by linarith
    have "unpack_byte a x m (j + 1) addr (of_nat d, s') = map_option (\<lambda>s'. (of_nat (d - length bs), s')) (put_bits (set_bit_elem a) (addr + of_nat (j + 1)) bs s')" for s'
      using Cons.prems(1) [of "Suc _"] Cons.prems(4) m(2) by (intro Cons.IH [OF _ False d]) auto
    then show ?thesis
      using m v z d \<open>d \<noteq> 0\<close> by (cases "set_bit_elem a s (addr + of_nat j) (of_bool b)") (simp_all add: ac_simps)
  qed
qed simp

lemma unpack_bytes_bits:
  "length vs < 65536 \<Longrightarrow> q = pre @ coil_bytes vs @ post \<Longrightarrow>
    map_option snd (unpack_bytes a q (length (coil_bytes vs)) (length pre) addr (of_nat (length vs), s)) = put_bits (set_bit_elem a) addr vs s"
proof (induction vs arbitrary: pre addr s rule: coil_bytes.induct)
  case (2 b bs)
  define vs where "vs = b # bs"
  define h where "h = take 8 vs"
  define t where "t = drop 8 vs"
  note ih = "2.IH" [folded vs_def, folded t_def] and prems = "2.prems" [folded vs_def]
  have l: "length h = min 8 (length vs)" "length vs = length h + length t" "h \<noteq> []" "vs = h @ t" "t \<noteq> [] \<Longrightarrow> length h = 8"
    by (auto simp: h_def t_def vs_def)
  have c: "coil_bytes vs = bits_byte h # coil_bytes t"
    by (simp add: vs_def h_def t_def)
  have x: "q ! length pre = bits_byte h" "length pre < length q"
    using prems(2) by (simp_all add: c)
  have hd: "unpack_byte a (bits_byte h) 8 0 addr (of_nat (length vs), s) = map_option (\<lambda>s'. (of_nat (length t), s')) (put_bits (set_bit_elem a) addr h s)"
  proof -
    have "bit (bits_byte h) (0 + i) = h ! i" if "i < length h" for i
      using that l(1) by (simp add: bit_bits_byte)
    moreover have "length vs - length h = length t"
      using l(2) by linarith
    ultimately show ?thesis
      using unpack_byte_bits [OF _ l(3,1) prems(1), of "bits_byte h" 0 a addr s] by simp
  qed
  have tl: "map_option snd (unpack_bytes a q (length (coil_bytes t)) (length pre + 1) (addr + 8) (of_nat (length t), s')) = put_bits (set_bit_elem a) (addr + 8) t s'" for s'
    using ih [of "pre @ [bits_byte h]" "addr + 8" s'] prems l(2) c by simp
  have e: "put_bits (set_bit_elem a) addr vs s = do { s' \<leftarrow> put_bits (set_bit_elem a) addr h s; put_bits (set_bit_elem a) (addr + 8) t s' }"
    using l(4,5) put_bits_append [of "set_bit_elem a" addr h t s] by (cases "t = []") (auto simp: bind_runit)
  show ?case
    unfolding vs_def [symmetric] e c using x hd tl by (cases "put_bits (set_bit_elem a) addr h s") (simp_all add: mem_simps)
qed simp

context bit_bank
begin

lemma put_bits_ok:
  "inv s \<Longrightarrow> unat addr + length vs \<le> unat (rng s) \<Longrightarrow>
    \<exists>s'. put_bits put addr vs s = Some s' \<and> rng s' = rng s \<and>
      (\<forall>i < length vs. get s' (addr + of_nat i) = Some (of_bool (vs ! i))) \<and> (\<forall>j. unat j < unat addr \<longrightarrow> get s' j = get s j)"
proof (induction vs arbitrary: s addr)
  case (Cons v vs)
  have "addr < rng s"
    using Cons.prems(2) by (simp add: word_less_nat_alt)
  then obtain s1 where s1: "put s addr (of_bool v) = Some s1"
    using put_ok [OF Cons.prems(1)] by blast
  have "unat addr + 1 < 65536"
    using Cons.prems(2) order_le_less_trans [OF _ unat_lt_16 [of "rng s"], of "unat addr + length (v # vs)"] by simp
  then have a: "unat (addr + 1) = unat addr + 1"
    by (simp add: unat_word_ariths)
  obtain s' where s': "put_bits put (addr + 1) vs s1 = Some s'" "rng s' = rng s1"
    "\<And>i. i < length vs \<Longrightarrow> get s' (addr + 1 + of_nat i) = Some (of_bool (vs ! i))" "\<And>j. unat j < unat addr + 1 \<Longrightarrow> get s' j = get s1 j"
    using Cons.IH [OF put_inv [OF Cons.prems(1) s1], of "addr + 1"] Cons.prems(2) put_rng [OF s1] a by auto
  have "get s' (addr + of_nat i) = Some (of_bool ((v # vs) ! i))" if "i < Suc (length vs)" for i
  proof (cases i)
    case 0
    then show ?thesis
      using s'(4) [of addr] get_put_same [OF s1] by (simp add: bit_norm_def)
  next
    case (Suc k)
    then show ?thesis
      using s'(3) [of k] that by (simp add: ac_simps)
  qed
  moreover have "get s' j = get s j" if "unat j < unat addr" for j
    using s'(4) [of j] get_put_other [OF s1, of j] that by auto
  ultimately show ?case
    using s'(1,2) s1 put_rng [OF s1] by auto
qed simp

end

definition write_coils_frame :: "u8 \<Rightarrow> u16 \<Rightarrow> bool list \<Rightarrow> u8 list" where
  "write_coils_frame st start vs = st # 0x0F # be16 start @ be16 (of_nat (length vs)) @ of_nat (length (coil_bytes vs)) # coil_bytes vs"

definition read_coils_frame :: "u8 \<Rightarrow> u16 \<Rightarrow> nat \<Rightarrow> u8 list" where
  "read_coils_frame st start n = st # 0x01 # be16 start @ be16 (of_nat n)"

lemma coils_frame_fields:
  "GET_BIGPU16_DATA (framed (write_coils_frame st start vs)) 2 = Some start"
  "GET_BIGPU16_DATA (framed (write_coils_frame st start vs)) 4 = Some (of_nat (length vs))"
  "rd (framed (write_coils_frame st start vs)) 6 = Some (of_nat (length (coil_bytes vs)))"
  "GET_BIGPU16_DATA (framed (read_coils_frame st start n)) 2 = Some start"
  "GET_BIGPU16_DATA (framed (read_coils_frame st start n)) 4 = Some (of_nat n)"
  using big_halves [of start] big_halves [of "of_nat (length vs)"] big_halves [of "of_nat n"]
  by (simp_all add: GET_BIGPU16_DATA_def framed_def write_coils_frame_def read_coils_frame_def be16_def mem_simps)

text \<open>The checks of the byte count accept exactly the right number of bytes.\<close>

lemma coil_count:
  assumes "1 \<le> n" and "n \<le> 0x7B0"
  shows "unat (of_nat ((n + 7) div 8) :: u8) = (n + 7) div 8" "unat (of_nat n :: u16) = n"
    "n mod 8 = 0 \<Longrightarrow> (n + 7) div 8 = n div 8" "n mod 8 \<noteq> 0 \<Longrightarrow> (n + 7) div 8 = n div 8 + 1"
proof -
  have "(n + 7) div 8 \<le> (0x7B0 + 7) div 8"
    using assms(2) by (intro div_le_mono) simp
  then show "unat (of_nat ((n + 7) div 8) :: u8) = (n + 7) div 8"
    by (simp add: unat_of_nat)
  show "unat (of_nat n :: u16) = n"
    using assms(2) by (simp add: unat_of_nat)
  show "n mod 8 = 0 \<Longrightarrow> (n + 7) div 8 = n div 8" "n mod 8 \<noteq> 0 \<Longrightarrow> (n + 7) div 8 = n div 8 + 1"
    by presburger+
qed

lemma write_coils_replies:
  assumes "mb_slave_convert_element_info MB_BIT_ELEMENT start = Some (t, addr)" and "mb_coil_area t = Some a"
    and "1 \<le> length vs" and "length vs \<le> 0x7B0" and "unat addr + length vs \<le> unat (bit_elem_rang a (mb_plc m))" and "wf_state (mb_plc m)"
    and "serial m" and "8 \<le> length (resp m)"
  shows "\<exists>m' s. mb_slave_write_multiple_coils (request (write_coils_frame st start vs) m) = Some m' \<and>
    replied (framed (take 6 (write_coils_frame st start vs))) (m\<lparr>mb_plc := s\<rparr>) m' \<and>
    (\<forall>i < length vs. get_bit_elem a s (addr + of_nat i) = Some (of_bool (vs ! i))) \<and> bit_elem_rang a s = bit_elem_rang a (mb_plc m)"
proof -
  let ?m = "request (write_coils_frame st start vs) m" and ?q = "framed (write_coils_frame st start vs)" and ?n = "length (coil_bytes vs)"
  define pre where "pre = take 7 (write_coils_frame st start vs)"
  have q: "?q = pre @ coil_bytes vs @ drop (length (write_coils_frame st start vs)) ?q" "length pre = 7"
    by (simp_all add: pre_def write_coils_frame_def be16_def framed_def)
  obtain s where s: "put_bits (set_bit_elem a) addr vs (mb_plc m) = Some s"
    "\<And>i. i < length vs \<Longrightarrow> get_bit_elem a s (addr + of_nat i) = Some (of_bool (vs ! i))" "bit_elem_rang a s = bit_elem_rang a (mb_plc m)"
    using bits.put_bits_ok [OF assms(6,5)] by auto
  obtain x where x: "unpack_bytes a ?q ?n 7 addr (of_nat (length vs), mb_plc m) = Some (x, s)"
    using unpack_bytes_bits [OF _ q(1), of a addr "mb_plc m"] assms(4) s(1) q(2) by auto
  note n = coil_count [OF assms(3,4)]
  have c: "unat (of_nat ?n :: u8) = ?n" "?n = (length vs + 7) div 8"
    using n(1) by (simp_all add: length_coil_bytes)
  have k: "\<not> (int (length vs div 8) \<noteq> int ?n \<and> int (length vs div 8) \<noteq> int ?n - 1)" "\<not> (length vs mod 8 = 0 \<and> int (length vs div 8) \<noteq> int ?n)"
    "\<not> (length vs mod 8 \<noteq> 0 \<and> int (length vs div 8) \<noteq> int ?n - 1)"
  proof -
    have "length vs mod 8 = 0 \<and> ?n = length vs div 8 \<or> length vs mod 8 \<noteq> 0 \<and> ?n = length vs div 8 + 1"
      using n(3,4) c(2) by (cases "length vs mod 8 = 0") simp_all
    then show "\<not> (int (length vs div 8) \<noteq> int ?n \<and> int (length vs div 8) \<noteq> int ?n - 1)" "\<not> (length vs mod 8 = 0 \<and> int (length vs div 8) \<noteq> int ?n)"
      "\<not> (length vs mod 8 \<noteq> 0 \<and> int (length vs div 8) \<noteq> int ?n - 1)"
      by auto
  qed
  have w: "\<not> (MB_MAX_W_BIT_NUM < of_nat (length vs) \<or> (of_nat (length vs) :: u16) < 1)"
    using assms(3,4) n(2) by (auto simp: word_less_nat_alt)
  have v: "\<not> mb_over addr (of_nat (length vs)) (bit_elem_rang a (mb_plc m))"
    using assms(5) n(2) by (simp add: mb_over_nat)
  obtain m' where m': "mb_echo 6 (?m\<lparr>mb_plc := s\<rparr>) = Some m'" "replied (framed (take 6 ?q)) (?m\<lparr>mb_plc := s\<rparr>) m'"
    using echo_replies [of "?m\<lparr>mb_plc := s\<rparr>" 6] assms(7,8) by (auto simp: write_coils_frame_def be16_def serial_def request_def)
  have t: "take 6 ?q = take 6 (write_coils_frame st start vs)"
    by (simp add: framed_def write_coils_frame_def be16_def)
  have "mb_slave_write_multiple_coils ?m = Some m'"
    unfolding mb_slave_write_multiple_coils_def request_simps coils_frame_fields bind.bind_lunit Let_def n(2) c(1)
    using k w v x m'(1) assms(1,2) by (simp only: if_False option.case prod.case on_plc_def request_simps bind.bind_lunit)
  then show ?thesis
    using m'(2) s(2,3) by (auto simp: replied_def t)
qed

lemma read_coils_replies:
  assumes "mb_slave_convert_element_info MB_BIT_ELEMENT start = Some (t, addr)" and "mb_bit_area t = Some a"
    and "1 \<le> length vs" and "length vs \<le> 0x7B0" and "unat addr + length vs \<le> unat (bit_elem_rang a (mb_plc m))"
    and "\<And>i. i < length vs \<Longrightarrow> get_bit_elem a (mb_plc m) (addr + of_nat i) = Some (of_bool (vs ! i))"
    and "serial m" and "\<not> broadcast m" and "length (coil_bytes vs) + 5 \<le> length (resp m)"
  shows "\<exists>m'. mb_slave_read_coils_status (request (read_coils_frame st start (length vs)) m) = Some m' \<and>
    replied (framed (st # 0x01 # of_nat (length (coil_bytes vs)) # coil_bytes vs)) m m'"
proof -
  let ?m = "request (read_coils_frame st start (length vs)) m" and ?n = "length (coil_bytes vs)"
  note n = coil_count [OF assms(3,4)]
  have c: "1 \<le> ?n" "unat (of_nat ?n :: u8) = ?n" "?n < 256"
    using n(1) assms(3) unat_lt_8 [of "of_nat ?n"] by (simp_all add: length_coil_bytes)
  define b where "b = take 3 ((resp m)[3 := 0]) @ coil_bytes vs @ drop (3 + ?n) ((resp m)[3 := 0])"
  have l: "3 < length (resp m)"
    using assms(9) by linarith
  have ne: "vs \<noteq> []"
    using assms(3) by auto
  have "pack_bits (\<lambda>x. x) a (mb_plc m) (length vs) addr 3 (length ([] :: bool list)) 1 ((resp m)[3 := 0]) = Some (1 + of_nat (length (coil_bytes ([] @ vs)) - 1), b)"
    using pack_bits_ok [of vs a "mb_plc m" addr "[]" "(resp m)[3 := 0]" 3 1, OF assms(6)] assms(9) l ne by (auto simp: b_def)
  moreover have "1 + of_nat (?n - 1) = (of_nat ?n :: u8)"
    using c(1) by (simp add: of_nat_diff)
  ultimately have r: "pack_bits (\<lambda>x. x) a (mb_plc m) (length vs) addr 3 0 1 ((resp m)[3 := 0]) = Some (of_nat ?n, b)"
    by simp
  have b: "length b = length (resp m)" "take ?n (drop 3 b) = coil_bytes vs"
    using assms(9) by (simp_all add: b_def)
  have f: "framed (read_coils_frame st start (length vs)) ! 0 = st" "framed (read_coils_frame st start (length vs)) ! 1 = 1"
    by (simp_all add: framed_def read_coils_frame_def)
  have u: "unat (ucast (of_nat ?n :: u8) :: u16) = ?n" "ucast (ucast (of_nat ?n :: u8) :: u16) = (of_nat ?n :: u8)"
    using c(2) by (simp_all add: unat_wide narrow_wide)
  obtain m' where m': "mb_data b (ucast (of_nat ?n :: u8)) ?m = Some m'" "replied (framed (st # 1 # of_nat ?n # coil_bytes vs)) ?m m'"
    using data_replies [of ?m b "ucast (of_nat ?n :: u8)"] assms(7,9) c(3) u b f by auto
  have w: "\<not> MB_MAX_R_BIT_NUM < of_nat (length vs)"
    using assms(4) n(2) by (simp add: word_less_nat_alt)
  have v: "\<not> mb_over addr (of_nat (length vs)) (bit_elem_rang a (mb_plc m))"
    using assms(5) n(2) by (simp add: mb_over_nat)
  have "length (read_coils_frame st start (length vs)) = 6"
    by (simp add: read_coils_frame_def be16_def)
  then have "mb_slave_read_coils_status ?m = Some m'"
    using m'(1) w v r assms(1,2,8) l
    by (simp add: mb_slave_read_coils_status_def mb_read_bits_def coils_frame_fields request_len n(2) mem_simps)
  then show ?thesis
    using m'(2) by (auto simp: replied_def)
qed

text \<open>C12. What a master writes to coils with function 15, it reads back with function 1: for Y, M, SM, S, T and C elements behind a protocol
  address and up to 1968 bits that fit into the elements, the answer to the read holds exactly the bits written, eight to a byte, the
  first one lowest, with zeros above the last.\<close>

theorem mb_coils_round_trip:
  assumes "mb_slave_convert_element_info MB_BIT_ELEMENT start = Some (t, addr)" and "mb_coil_area t = Some a"
    and "1 \<le> length vs" and "length vs \<le> 0x7B0" and "unat addr + length vs \<le> unat (bit_elem_rang a (mb_plc m))" and "wf_state (mb_plc m)"
    and "serial m" and "\<not> broadcast m" and "256 \<le> length (resp m)" and "sender_diag m = Some d" and "mcv_ListenOnlyMode d = 0"
  shows "\<exists>m1 m2. mb_slave_msg_handler man (request (write_coils_frame st start vs) m) = Some m1 \<and>
    mb_slave_msg_handler man (request (read_coils_frame st start (length vs)) m1) = Some m2 \<and>
    mb_sent m2 = mb_sent m @ [Resp (framed (take 6 (write_coils_frame st start vs))),
      Resp (framed (st # 0x01 # of_nat (length (coil_bytes vs)) # coil_bytes vs))]"
proof -
  obtain m1 s where m1: "mb_slave_write_multiple_coils (request (write_coils_frame st start vs) m) = Some m1"
    "replied (framed (take 6 (write_coils_frame st start vs))) (m\<lparr>mb_plc := s\<rparr>) m1"
    "\<And>i. i < length vs \<Longrightarrow> get_bit_elem a s (addr + of_nat i) = Some (of_bool (vs ! i))" "bit_elem_rang a s = bit_elem_rang a (mb_plc m)"
    using write_coils_replies [OF assms(1-7), of st] assms(9) by auto
  have k: "serial m1" "\<not> broadcast m1" "length (resp m1) = length (resp m)" "sender_diag m1 = Some d" "mb_plc m1 = s"
    using replied_keeps [OF m1(2)] assms(7,8,10) m1(2) by (simp_all add: serial_def sender_diag_def replied_def)
  have ar: "mb_bit_area t = Some a"
    using assms(2) by (simp add: mb_coil_area_def split: if_split_asm)
  have len: "length (coil_bytes vs) + 5 \<le> length (resp m1)" "length (coil_bytes vs) < 250"
    using assms(4,9) k(3) by (simp_all add: length_coil_bytes)
  obtain m2 where m2: "mb_slave_read_coils_status (request (read_coils_frame st start (length vs)) m1) = Some m2"
    "replied (framed (st # 0x01 # of_nat (length (coil_bytes vs)) # coil_bytes vs)) m1 m2"
    using read_coils_replies [OF assms(1) ar assms(3,4), of m1 st] assms(5) m1(3,4) k len(1) by auto
  have "mb_slave_msg_handler man (request (write_coils_frame st start vs) m) = Some m1"
    using handler_request [OF _ _ assms(10,11), of "write_coils_frame st start vs"] m1(1) len(2) by (simp add: write_coils_frame_def be16_def mb_dispatch_def)
  moreover have "mb_slave_msg_handler man (request (read_coils_frame st start (length vs)) m1) = Some m2"
    using handler_request [OF _ _ k(4) assms(11), of "read_coils_frame st start (length vs)"] m2(1) by (simp add: read_coils_frame_def be16_def mb_dispatch_def)
  ultimately show ?thesis
    using m1(2) m2(2) by (auto simp: replied_def)
qed

theorem mb_coils_round_trip_witness:
  "\<exists>m1 m2. mb_slave_msg_handler no_manage (request (write_coils_frame 1 2000 [True, False, True]) mb_boot) = Some m1 \<and>
    mb_slave_msg_handler no_manage (request (read_coils_frame 1 2000 (length [True, False, True])) m1) = Some m2 \<and>
    mb_sent m2 = mb_sent mb_boot @ [Resp (framed (take 6 (write_coils_frame 1 2000 [True, False, True]))), Resp (framed [1, 1, 1, 5])]"
proof -
  have "mb_slave_convert_element_info MB_BIT_ELEMENT 2000 = Some (MB_BIT_M, 0)" "mb_coil_area MB_BIT_M = Some M_ELEMENT"
    by (simp_all add: mb_slave_convert_element_info_def stv_ModbusMapTable_def map_row_def mb_coil_area_def mb_bit_area_def rd_def)
  moreover have "coil_bytes [True, False, True] = [5]"
    by (simp add: bits_byte_def)
  ultimately show ?thesis
    using mb_coils_round_trip [OF _ _ _ _ _ _ mb_boot_simps(1,2) _ mb_boot_simps(6), of 2000 MB_BIT_M 0 M_ELEMENT "[True, False, True]" no_manage 1]
    by (simp only: mb_boot_simps(3,4)) (simp del: coil_bytes.simps)
qed

section \<open>What a function does to the elements and the line\<close>

text \<open>\<open>safe P m x\<close>: when \<open>x\<close> ends, it has only added frames with a valid checksum to the line, and the elements before and after satisfy \<open>P\<close>.\<close>

definition bytes_of :: "mb_sent \<Rightarrow> u8 list" where
  "bytes_of f = (case f of Resp b \<Rightarrow> b | TcpResp c b \<Rightarrow> b)"

definition safe :: "(plc_state \<Rightarrow> plc_state \<Rightarrow> bool) \<Rightarrow> mb_st \<Rightarrow> mb_st option \<Rightarrow> bool" where
  "safe P m x \<longleftrightarrow> (\<forall>m'. x = Some m' \<longrightarrow> P (mb_plc m) (mb_plc m') \<and>
     (\<exists>fs. mb_sent m' = mb_sent m @ fs \<and> (\<forall>f \<in> set fs. crc_ok (bytes_of f))))"

named_theorems mb_safe \<open>functions that only answer\<close>

lemma safe_None [mb_safe]: "safe P m None"
  by (simp add: safe_def)

lemma safe_Some [mb_safe]: "safe (=) m (Some m)"
  by (simp add: safe_def)

lemma safe_step: "mb_sent m1 = mb_sent m \<Longrightarrow> mb_plc m1 = mb_plc m \<Longrightarrow> safe P m1 x \<Longrightarrow> safe P m x"
  by (simp add: safe_def)

lemma safe_bind_any: "(\<And>y. x = Some y \<Longrightarrow> safe P m (f y)) \<Longrightarrow> safe P m (x \<bind> f)"
  by (auto simp: safe_def bind_eq_Some_conv)

lemma safe_if: "(b \<Longrightarrow> safe P m x) \<Longrightarrow> (\<not> b \<Longrightarrow> safe P m y) \<Longrightarrow> safe P m (if b then x else y)"
  by simp

lemmas safe_reads = safe_bind_any [where x = "GET_BIGPU16_DATA b i" for b i] safe_bind_any [where x = "rd b i" for b i]
  safe_bind_any [where x = "copy_req i n q b" for i n q b] safe_bind_any [where x = "wr b i v" for b i v]

lemma send_frames: "mb_send m = Some m' \<Longrightarrow> mb_plc m' = mb_plc m \<and>
   (\<exists>fs. mb_sent m' = mb_sent m @ fs \<and> (\<forall>f \<in> set fs. bytes_of f = take (unat (msv_RespLen (mb_pack m))) (resp m)))"
  by (auto simp: mb_send_def Let_def bytes_of_def split: if_split_asm)

lemma safe_send: "crc_ok (take (unat (msv_RespLen (mb_pack m))) (resp m)) \<Longrightarrow> safe (=) m (mb_send m)"
  by (auto simp: safe_def dest!: send_frames)

lemma verify_safe [mb_safe]: "unat (msv_RespLen (mb_pack m)) + 2 < 65536 \<Longrightarrow> safe (=) m (mb_slave_verify_resp_msg m)"
proof -
  let ?n = "msv_RespLen (mb_pack m)"
  assume n: "unat ?n + 2 < 65536"
  then have u: "unat (?n + 2) = unat ?n + 2"
    by (simp add: unat_word_ariths)
  have "safe (=) m (mb_send (put_len (?n + 2) (put_resp ((resp m)[unat ?n := ucast (crc (take (unat ?n) (resp m)) AND 0xFF),
      Suc (unat ?n) := ucast (drop_bit 8 (crc (take (unat ?n) (resp m))))]) m)))" if l: "unat ?n + 2 \<le> length (resp m)"
  proof (rule safe_step [OF _ _ safe_send])
    show "crc_ok (take (unat (msv_RespLen (mb_pack (put_len (?n + 2) (put_resp ((resp m)[unat ?n := ucast (crc (take (unat ?n) (resp m)) AND 0xFF),
      Suc (unat ?n) := ucast (drop_bit 8 (crc (take (unat ?n) (resp m))))]) m)))))
      (resp (put_len (?n + 2) (put_resp ((resp m)[unat ?n := ucast (crc (take (unat ?n) (resp m)) AND 0xFF),
      Suc (unat ?n) := ucast (drop_bit 8 (crc (take (unat ?n) (resp m))))]) m))))"
      using framed_ok [of "take (unat ?n) (resp m)"] take_wr2 [OF l] by (simp only: put_resp_simps u framed_def)
  qed simp_all
  then show ?thesis
    by (auto simp: mb_slave_verify_resp_msg_def Let_def crc16_crc mem_simps intro!: safe_bind_any safe_None)
qed

lemma low_byte: "ucast (c AND 0xFF :: u16) = (ucast c :: u8)"
proof (rule bit_word_eqI)
  fix n
  assume "n < LENGTH(8)"
  moreover have "bit (255 :: u16) n \<longleftrightarrow> n < 8"
    using bit_mask_iff [of 8 n, where 'a = "16 word"] by (auto simp: mask_eq_exp_minus_1)
  ultimately show "bit (ucast (c AND 0xFF) :: u8) n = bit (ucast c :: u8) n"
    by (simp add: bit_simps)
qed

lemma error_safe [mb_safe]: "safe (=) m (mb_slave_error_resp m)"
proof (cases "broadcast m")
  case True
  then show ?thesis
    by (simp add: mb_slave_error_resp_def safe_Some)
next
  case False
  have "crc_ok (take 5 (b[0 := x, 1 := y, 2 := z, 3 := ucast (crc (take 3 (b[0 := x, 1 := y, 2 := z]))), 4 := ucast (drop_bit 8 (crc (take 3 (b[0 := x, 1 := y, 2 := z]))))]))"
    if "5 \<le> length b" for b x y z
    using framed_ok [of "take 3 (b[0 := x, 1 := y, 2 := z])"] take_wr2 [of 3 "b[0 := x, 1 := y, 2 := z]"] that by (simp add: framed_def low_byte)
  then have "safe (=) m (mb_send (put_len 5 (put_resp (b[0 := x, 1 := y, 2 := z, 3 := ucast (crc (take 3 (b[0 := x, 1 := y, 2 := z]))), 4 := ucast (drop_bit 8 (crc (take 3 (b[0 := x, 1 := y, 2 := z]))))]) m)))"
    if "5 \<le> length b" for b x y z
    using that by (intro safe_step [OF _ _ safe_send]) simp_all
  then show ?thesis
    using False by (auto simp: mb_slave_error_resp_def crc16_crc intro!: safe_bind_any)
qed

lemma fail_safe [mb_safe]: "safe (=) m (mb_fail c m)"
  unfolding mb_fail_def by (rule safe_step [OF _ _ error_safe]) simp_all

lemma echo_safe [mb_safe]: "n + 2 < 65536 \<Longrightarrow> safe (=) m (mb_echo n m)"
  unfolding mb_echo_def by (intro safe_bind_any safe_step [OF _ _ verify_safe]) (simp_all add: unat_of_nat)

lemma data_safe [mb_safe]: "unat n + 5 < 65536 \<Longrightarrow> safe (=) m (mb_data b n m)"
  unfolding mb_data_def by (intro safe_bind_any safe_step [OF _ _ verify_safe]) (simp_all add: unat_word_ariths)

lemma diag_upd: "upd_diag f m = Some m1 \<Longrightarrow> mb_sent m1 = mb_sent m" "upd_diag f m = Some m1 \<Longrightarrow> mb_plc m1 = mb_plc m"
  "upd_diag f m = Some m1 \<Longrightarrow> mb_pack m1 = mb_pack m"
  by (auto simp: upd_diag_def opt_simps)

lemma upd_diag_safe [mb_safe]: "safe (=) m (upd_diag f m)"
  by (auto simp: safe_def dest: diag_upd)

lemma upd_diag_then [mb_safe]: "(\<And>m1. mb_pack m1 = mb_pack m \<Longrightarrow> safe (=) m1 (g m1)) \<Longrightarrow> safe (=) m (upd_diag f m \<bind> g)"
proof (rule safe_bind_any)
  fix m1
  assume "\<And>m1. mb_pack m1 = mb_pack m \<Longrightarrow> safe (=) m1 (g m1)" and u: "upd_diag f m = Some m1"
  then have "safe (=) m1 (g m1)"
    using diag_upd(3) [OF u] by simp
  then show "safe (=) m (g m1)"
    by (rule safe_step [OF diag_upd(1,2) [OF u]])
qed

lemma read_bits_safe [mb_safe]: "safe (=) m (mb_read_bits f a addr cnt m)"
proof -
  have "unat (ucast (n :: u8) :: u16) + 5 < 65536" for n
    using unat_lt_8 [of n] unfolding unat_wide by linarith
  then show ?thesis
    by (auto simp: mb_read_bits_def intro!: safe_bind_any data_safe fail_safe)
qed

lemma few: "\<not> MB_MAX_R_WORD_NUM < cnt \<Longrightarrow> unat (2 * cnt) + 5 < 65536" "\<not> MB_MAX_R_WORD_NUM < cnt \<Longrightarrow> unat (4 * cnt) + 5 < 65536"
  by (simp_all add: word_less_nat_alt unat_word_ariths)

lemma reading_safe [mb_safe]:
  "safe (=) m (mb_slave_read_coils_status m)" "safe (=) m (mb_slave_read_descrete_input_status m)" "safe (=) m (mb_slave_read_holding_register m)"
  unfolding mb_slave_read_coils_status_def mb_slave_read_descrete_input_status_def mb_slave_read_holding_register_def mb_read_area_def
  by (auto intro!: safe_bind_any mb_safe few split: option.split)

lemma safe_seq:
  assumes "safe P m (map_option snd x)" and "transp P" and "\<And>ok m1. x = Some (ok, m1) \<Longrightarrow> safe P m1 (f ok m1)"
  shows "safe P m (x \<bind> (\<lambda>(ok, m1). f ok m1))"
proof (cases x)
  case (Some y)
  then show ?thesis
    using assms unfolding safe_def transp_def by (cases y) fastforce
qed (simp add: safe_None)

lemma fail_list: "safe (=) m (map_option snd (mb_fail c m \<bind> (\<lambda>m2. Some (False, m2))))"
  using fail_safe [of m c] by (cases "mb_fail c m") (simp_all add: safe_None)

lemma map_bind: "map_option g (x \<bind> f) = x \<bind> (\<lambda>y. map_option g (f y))"
  by (cases x) simp_all

lemma read_lists_safe: "safe (=) m (map_option snd (read_bit_list n i m))"
proof (induction n arbitrary: i m)
  case (Suc n)
  have "safe (=) m (map_option snd (read_bit_list n (i + 1) (put_resp b m)))" for b
    by (rule safe_step [OF _ _ Suc.IH]) simp_all
  moreover have "safe (=) m (map_option snd (mb_fail c (put_resp b m) \<bind> (\<lambda>m2. Some (False, m2))))" for b c
    by (rule safe_step [OF _ _ fail_list]) simp_all
  ultimately show ?case
    by (auto simp: map_bind Let_def intro!: safe_bind_any split: option.split)
qed (simp add: safe_Some)

lemma read_word_list_safe: "safe (=) m (map_option snd (read_word_list n i m))"
proof (induction n arbitrary: i m rule: less_induct)
  case (less n)
  have f: "safe (=) m (map_option snd (mb_fail c (put_resp b m) \<bind> (\<lambda>m2. Some (False, m2))))" for b c
    by (rule safe_step [OF _ _ fail_list]) simp_all
  have r: "safe (=) m (map_option snd (read_word_list k j (put_resp b m)))" if "k < n" for k j b
    by (rule safe_step [OF _ _ less.IH [OF that]]) simp_all
  show ?case
  proof (cases n)
    case (Suc k)
    then show ?thesis
      using f r by (auto simp: map_bind intro!: safe_bind_any split: option.split)
  qed (simp add: safe_Some)
qed

lemma list_reading_safe [mb_safe]: "safe (=) m (mb_slave_read_multiple_bit_element m)" "safe (=) m (mb_slave_read_multiple_word_element m)"
proof -
  have n: "unat (ucast n * 3 + 3 :: u16) < 65534" "unat (3 + ucast n * 4 :: u16) < 65534" for n :: u8
  proof -
    have "unat n \<le> 255"
      using unat_lt_8 [of n] by linarith
    then show "unat (ucast n * 3 + 3 :: u16) < 65534" "unat (3 + ucast n * 4 :: u16) < 65534"
      by (simp_all add: unat_word_ariths unat_wide)
  qed
  show "safe (=) m (mb_slave_read_multiple_bit_element m)" "safe (=) m (mb_slave_read_multiple_word_element m)"
    unfolding mb_slave_read_multiple_bit_element_def mb_slave_read_multiple_word_element_def
    by (auto intro!: safe_reads safe_Some fail_safe safe_seq [OF read_lists_safe] safe_seq [OF read_word_list_safe] safe_step [OF _ _ verify_safe]
        simp: transp_def n split: if_split_asm)
qed

text \<open>Writing changes contents of elements: it keeps the size of every area, the user program, the tables of the compiler and the interrupt queue.\<close>

definition elems_only :: "plc_state \<Rightarrow> plc_state \<Rightarrow> bool" where
  "elems_only s s' \<longleftrightarrow> frame s' = frame s"

lemma elems_only_trans: "transp elems_only"
  by (auto simp: transp_def elems_only_def)

lemma safe_elems: "safe (=) m x \<Longrightarrow> safe elems_only m x"
  by (auto simp: safe_def elems_only_def)

lemma on_plc_then:
  assumes "\<And>s. kept (frame s) (f s)" and "\<And>m1. mb_pack m1 = mb_pack m \<Longrightarrow> safe elems_only m1 (g m1)"
  shows "safe elems_only m (on_plc f m \<bind> g)"
proof (rule safe_bind_any)
  fix m1
  assume u: "on_plc f m = Some m1"
  then have m1: "frame (mb_plc m1) = frame (mb_plc m)" "mb_sent m1 = mb_sent m" "mb_pack m1 = mb_pack m"
    using assms(1) [of "mb_plc m"] by (auto simp: on_plc_def opt_simps)
  then have "safe elems_only m1 (g m1)"
    using assms(2) by simp
  then show "safe elems_only m (g m1)"
    using m1(1,2) by (simp add: safe_def elems_only_def)
qed

lemma frame_unpack_byte [frame_intro]: "frame s = F \<Longrightarrow> kept2 F (unpack_byte a x n j addr (c, s))"
proof (induction n arbitrary: j c s)
  case (Suc n)
  then show ?case
    by (auto intro!: bind_kept frame_set_bit_elem)
qed simp

lemma frame_unpack_bytes [frame_intro]: "frame s = F \<Longrightarrow> kept2 F (unpack_bytes a q n p addr (c, s))"
proof (induction n arbitrary: p addr c s)
  case (Suc n)
  have "kept2 F (rd q p \<bind> (\<lambda>x. unpack_byte a x 8 0 addr (c, s) \<bind> (\<lambda>(d, t). unpack_bytes a q n (p + 1) (addr + 8) (d, t))))"
    by (intro bind_any bind_kept2 frame_unpack_byte Suc)
  then show ?case
    by simp
qed simp

lemma frame_mb_write_words [frame_intro]: "frame s = F \<Longrightarrow> kept F (mb_write_words (set_word_elem a) q n addr p s)"
  by (induction n arbitrary: addr p s) (auto intro!: bind_any [where x = "GET_BIGPU16_DATA b i" for b i] bind_kept frame_set_word_elem)

lemma frame_write_c32 [frame_intro]: "frame s = F \<Longrightarrow> kept F (write_c32 q n addr p s)"
  by (induction n arbitrary: addr p s) (auto intro!: bind_any [where x = "GET_BIGPU32_DATA b i" for b i] bind_kept frame_set_c32_elem)

lemma writing_safe [mb_safe]:
  "safe elems_only m (mb_slave_write_single_coil m)" "safe elems_only m (mb_slave_write_register m)"
  "safe elems_only m (mb_slave_write_multiple_coils m)" "safe elems_only m (mb_slave_write_multiple_registers m)"
  unfolding mb_slave_write_single_coil_def mb_slave_write_register_def mb_slave_write_multiple_coils_def mb_slave_write_multiple_registers_def Let_def
  by (auto intro!: safe_reads on_plc_then safe_elems [OF fail_safe] safe_elems [OF echo_safe] bind_kept2 frame_set_bit_elem frame_set_word_elem frame_set_c32_elem
      frame_unpack_bytes frame_mb_write_words frame_write_c32 split: option.split)

lemma write_bit_list_safe: "safe elems_only m (map_option snd (write_bit_list n i m))"
proof (induction n arbitrary: i m)
  case (Suc n)
  show ?case
    by (auto simp: map_bind [of snd] intro!: safe_reads on_plc_then safe_elems [OF fail_safe] frame_set_bit_elem Suc split: option.split)
qed (simp add: safe_elems [OF safe_Some])

lemma write_word_list_safe: "safe elems_only m (map_option snd (write_word_list n i m))"
proof (induction n arbitrary: i m rule: less_induct)
  case (less n)
  show ?case
  proof (cases n)
    case (Suc k)
    then have r: "j \<le> k \<Longrightarrow> safe elems_only m1 (map_option snd (write_word_list j l m1))" for j l m1
      by (intro less.IH) simp
    show ?thesis
      unfolding Suc by (auto simp: map_bind [of snd] intro!: safe_reads on_plc_then safe_elems [OF fail_safe] frame_set_word_elem frame_set_c32_elem r
          split: option.split)
  qed (simp add: safe_elems [OF safe_Some])
qed

lemma list_writing_safe [mb_safe]:
  "safe elems_only m (mb_slave_write_multiple_bit_element m)" "safe elems_only m (mb_slave_write_multiple_word_element m)"
  unfolding mb_slave_write_multiple_bit_element_def mb_slave_write_multiple_word_element_def
  by (auto intro!: safe_reads safe_elems [OF safe_Some] safe_elems [OF fail_safe] safe_elems [OF echo_safe] safe_seq [OF write_bit_list_safe elems_only_trans]
      safe_seq [OF write_word_list_safe elems_only_trans] split: if_split_asm)

lemma repeat_safe [mb_safe]: "safe (=) m (mb_repeat m)"
proof -
  have "unat (msv_ReceiveLen (mb_pack m)) < 65536"
    by simp
  then show ?thesis
    unfolding mb_repeat_def by (intro echo_safe) linarith
qed

lemma diag_counter_safe [mb_safe]: "safe (=) m (mb_diag_counter f m)"
  unfolding mb_diag_counter_def by (intro safe_bind_any safe_step [OF _ _ verify_safe]) simp_all

lemma diagnostic_safe [mb_safe]: "safe (=) m (mb_slave_diagnostic_func m)"
proof -
  have l: "unat (of_nat (unat (msv_ReceiveLen (mb_pack m)) - 2) :: u16) + 2 < 65536"
  proof -
    have "unat (msv_ReceiveLen (mb_pack m)) < 65536"
      by simp
    then have "unat (msv_ReceiveLen (mb_pack m)) - 2 < 65534"
      by linarith
    then show ?thesis
      by (simp add: unat_of_nat)
  qed
  have v: "safe (=) m (mb_slave_verify_resp_msg (put_len (of_nat (unat (msv_ReceiveLen (mb_pack m)) - 2)) (put_resp b m)))" for b
    using l by (intro safe_step [OF _ _ verify_safe]) simp_all
  have c: "safe (=) m (mb_repeat (mb_slave_diag_clear_ctrl_diag_reg m))"
    by (rule safe_step [OF _ _ repeat_safe]) (simp_all add: mb_slave_diag_clear_ctrl_diag_reg_def)
  show ?thesis
    unfolding mb_slave_diagnostic_func_def slave_err_def Let_def
    by (intro safe_reads safe_if upd_diag_then upd_diag_safe repeat_safe diag_counter_safe fail_safe v c
        safe_bind_any [where x = "sender_diag m"] safe_Some)
qed

text \<open>The functions that write elements, and those for downloading, uploading and control.\<close>

definition mb_writes :: "u8 set" where
  "mb_writes = {0x05, 0x06, 0x0F, 0x10, 0x66, 0x67}"

definition mb_manages :: "u8 set" where
  "mb_manages = {0x68, 0x69, 0x6A}"

lemma dispatch_safe:
  "f \<notin> mb_manages \<Longrightarrow> safe elems_only m (mb_dispatch man f m)" "f \<notin> mb_manages \<Longrightarrow> f \<notin> mb_writes \<Longrightarrow> safe (=) m (mb_dispatch man f m)"
proof -
  have u: "safe (=) m (slave_err m \<bind> mb_fail c)" for c
    unfolding slave_err_def by (intro upd_diag_then fail_safe)
  show "safe elems_only m (mb_dispatch man f m)" if "f \<notin> mb_manages"
    using that unfolding mb_dispatch_def mb_manages_def
    by (auto intro!: safe_elems [OF reading_safe(1)] safe_elems [OF reading_safe(2)] safe_elems [OF reading_safe(3)] writing_safe list_writing_safe
        safe_elems [OF list_reading_safe(1)] safe_elems [OF list_reading_safe(2)] safe_elems [OF diagnostic_safe] safe_elems [OF u])
  show "f \<notin> mb_manages \<Longrightarrow> f \<notin> mb_writes \<Longrightarrow> safe (=) m (mb_dispatch man f m)"
    using u unfolding mb_dispatch_def mb_manages_def mb_writes_def by (auto intro!: reading_safe list_reading_safe diagnostic_safe)
qed

lemma handler_safe:
  assumes "rd (recv m) 1 = Some f" and "f \<notin> mb_manages"
  shows "safe elems_only m (mb_slave_msg_handler man m)" "f \<notin> mb_writes \<Longrightarrow> safe (=) m (mb_slave_msg_handler man m)"
proof -
  have e: "safe (=) m (upd_diag g m \<bind> mb_fail c)" for g c
    by (intro upd_diag_then fail_safe)
  show "safe elems_only m (mb_slave_msg_handler man m)"
    unfolding mb_slave_msg_handler_def Let_def
    using assms by (auto intro!: safe_if safe_bind_any safe_elems [OF e] safe_elems [OF safe_Some] dispatch_safe(1))
  show "safe (=) m (mb_slave_msg_handler man m)" if "f \<notin> mb_writes"
    unfolding mb_slave_msg_handler_def Let_def
    using that assms by (auto intro!: safe_if safe_bind_any e safe_Some dispatch_safe(2))
qed

lemma bad_crc_safe:
  assumes "mb_slave_msg_handler man m = Some m'" and "\<not> crc_ok (take (unat (msv_ReceiveLen (mb_pack m))) (recv m))"
  shows "mb_plc m' = mb_plc m"
proof (cases "unat (msv_ReceiveLen (mb_pack m)) < 5")
  case False
  let ?n = "unat (msv_ReceiveLen (mb_pack m))"
  obtain c where c: "GET_PU16_DATA (recv m) (?n - 2) = Some c"
    using assms(1) False by (auto simp: mb_slave_msg_handler_def Let_def opt_simps)
  then have l: "?n \<le> length (recv m)" "GET_PU16_DATA (take ?n (recv m)) (?n - 2) = Some c"
    using False by (auto simp: GET_PU16_DATA_def rd_def opt_simps split: if_split_asm)
  then have "length (take ?n (recv m)) = ?n" "take (?n - 2) (take ?n (recv m)) = take (?n - 2) (recv m)"
    by simp_all
  then have "c \<noteq> crc (take (?n - 2) (recv m))"
    using assms(2) False l(2) unfolding crc_ok_def crc16_crc by auto
  then have "upd_diag (\<lambda>d. d\<lparr>msv_BusCrcErrCnt := msv_BusCrcErrCnt d + 1\<rparr>) m \<bind> mb_fail MB_ERROR_FRAME = Some m'"
    using assms(1) c False by (simp add: mb_slave_msg_handler_def Let_def crc16_crc)
  moreover have "safe (=) m (upd_diag (\<lambda>d. d\<lparr>msv_BusCrcErrCnt := msv_BusCrcErrCnt d + 1\<rparr>) m \<bind> mb_fail MB_ERROR_FRAME)"
    by (intro upd_diag_then fail_safe)
  ultimately show ?thesis
    by (simp add: safe_def)
qed (use assms in \<open>simp add: mb_slave_msg_handler_def\<close>)

text \<open>C10. What a request can do to the slave.  Whatever bytes arrive with a function code other than the three for downloading, uploading and
  control (0x68, 0x69, 0x6A), which do replace programs, and as long as the slave makes no access outside an array: every frame it sends
  carries a valid checksum; the user program, the tables of the compiler, the interrupt queue and the size of every element area stay as they
  are; a request whose function code is none of the writing functions changes no element at all, and neither does a frame with a
  wrong checksum.\<close>

theorem mb_request_effects:
  assumes "recv m ! 1 \<notin> mb_manages" and "mb_slave_msg_handler man m = Some m'"
  shows "(\<exists>fs. mb_sent m' = mb_sent m @ fs \<and> list_all (\<lambda>f. crc_ok (bytes_of f)) fs) \<and> frame (mb_plc m') = frame (mb_plc m) \<and>
    (recv m ! 1 \<notin> mb_writes \<or> \<not> crc_ok (take (unat (msv_ReceiveLen (mb_pack m))) (recv m)) \<longrightarrow> mb_plc m' = mb_plc m)"
proof (cases "length (recv m) \<le> 1")
  case True
  then have "m' = m"
    using assms(2) by (auto simp: mb_slave_msg_handler_def Let_def opt_simps GET_PU16_DATA_def rd_def split: if_split_asm)
  then show ?thesis
    by simp
next
  case False
  then have "rd (recv m) 1 = Some (recv m ! 1)"
    by (simp add: rd_def)
  note s = handler_safe [OF this assms(1), of man]
  have "frame (mb_plc m') = frame (mb_plc m)" "\<exists>fs. mb_sent m' = mb_sent m @ fs \<and> (\<forall>f \<in> set fs. crc_ok (bytes_of f))"
    using s(1) assms(2) unfolding safe_def elems_only_def by blast+
  moreover have "recv m ! 1 \<notin> mb_writes \<longrightarrow> mb_plc m' = mb_plc m"
    using s(2) assms(2) unfolding safe_def by simp
  ultimately show ?thesis
    using bad_crc_safe [OF assms(2)] by (auto simp: list_all_iff)
qed

lemma unknown_answered: "\<exists>m'. mb_dispatch no_manage 0x2B (request [1, 0x2B, 0, 1] mb_boot) = Some m'"
  by (simp add: mb_dispatch_def slave_err_def upd_diag_def sender_diag_def mb_fail_def mb_slave_error_resp_def mb_send_def crc16_crc mem_simps
      mb_boot_def request_def framed_def put_len_def put_resp_def Let_def)

theorem mb_request_effects_witness:
  "\<exists>m'. mb_slave_msg_handler no_manage (request [1, 0x2B, 0, 1] mb_boot) = Some m' \<and>
    list_all (\<lambda>f. crc_ok (bytes_of f)) (mb_sent m') \<and> mb_plc m' = boot_state []"
proof -
  let ?m = "request [1, 0x2B, 0, 1] mb_boot"
  obtain m' where m': "mb_slave_msg_handler no_manage ?m = Some m'"
    using handler_request [OF _ _ mb_boot_simps(6), of "[1, 0x2B, 0, 1]" no_manage] unknown_answered by auto
  have n: "recv ?m ! 1 \<notin> mb_manages" "recv ?m ! 1 \<notin> mb_writes"
    by (simp_all add: mb_manages_def mb_writes_def request_def framed_def)
  have "mb_plc m' = mb_plc ?m"
    using n(2) mb_request_effects [OF n(1) m'] by blast
  moreover have "list_all (\<lambda>f. crc_ok (bytes_of f)) (mb_sent m')"
    using mb_request_effects [OF n(1) m'] by (auto simp: mb_boot_simps)
  ultimately show ?thesis
    using m' by (simp add: mb_boot_simps)
qed


text \<open>C39. A write of a single register can leave the element array.  The map table accepts every protocol address of a row whose element number is below
  \<open>msv_StartAddr + msv_MaxNum\<close>, an address plus a count, instead of \<open>msv_StartElement + msv_MaxNum\<close>; function 6 makes no check of its own.
  For the addresses 8516 to 8999 the slave writes Z16 to Z499, past the end of the sixteen index registers.\<close>

theorem mb_write_register_leaves_array:
  assumes "8516 \<le> a" and "a \<le> 8999" and "length (msp_ZElement (gtv_PlcElement (mb_plc m))) = 16"
    and "sender_diag m = Some d" and "mcv_ListenOnlyMode d = 0"
  shows "mb_slave_convert_element_info MB_WORD_ELEMENT a = Some (MB_WORD_Z, a - 8500) \<and>
    mb_slave_msg_handler man (request (st # 0x06 # be16 a @ be16 v) m) = None"
proof -
  have e: "unat (a - 8500) = unat a - 8500" "8516 \<le> unat a" "unat a \<le> 8999"
    using assms(1,2) by (simp_all add: word_le_nat_alt unat_sub_if')
  then have c: "mb_slave_convert_element_info MB_WORD_ELEMENT a = Some (MB_WORD_Z, a - 8500)"
    by (simp add: mb_slave_convert_element_info_def stv_ModbusMapTable_def map_row_def word_le_nat_alt Let_def)
  have "set_word_elem Z_AREA s (a - 8500) v = None" if "length (msp_ZElement (gtv_PlcElement s)) = 16" for s
    using e that by (simp add: set_word_elem_def wr_def)
  moreover have "GET_BIGPU16_DATA (framed (st # 0x06 # be16 a @ be16 v)) 2 = Some a" "GET_BIGPU16_DATA (framed (st # 0x06 # be16 a @ be16 v)) 4 = Some v"
    using big_halves [of a] big_halves [of v] by (simp_all add: GET_BIGPU16_DATA_def framed_def be16_def mem_simps)
  ultimately have "mb_slave_write_register (request (st # 0x06 # be16 a @ be16 v) m) = None"
    using assms(3) c by (simp add: mb_slave_write_register_def mb_word_area_def on_plc_def)
  then show ?thesis
    using c handler_request [OF _ _ assms(4,5), of "st # 0x06 # be16 a @ be16 v" man] by (simp add: be16_def mb_dispatch_def)
qed

theorem mb_write_register_leaves_array_witness:
  "mb_slave_msg_handler no_manage (request [1, 0x06, 0x21, 0x98, 0, 0] mb_boot) = None"
proof -
  have "length (msp_ZElement (gtv_PlcElement (mb_plc mb_boot))) = 16"
    by (simp add: mb_boot_simps boot_state_def)
  moreover have "be16 8600 = [0x21, 0x98]" "be16 0 = [0, 0]"
    by (simp_all add: be16_def)
  ultimately show ?thesis
    using mb_write_register_leaves_array [of 8600 mb_boot _ no_manage 1 0, OF _ _ _ mb_boot_simps(6)] by simp
qed

end
