(* ===== verification/PLC_Flash.thy ===== *)
theory PLC_Flash
  imports PLC_Prelude
begin

text \<open>
  The flash partitions, \<open>board/bsp_1062/bsp_flash.c\<close>: the table of partitions, erasing a partition sector by sector and writing a buffer
  page by page.  The vendor's driver of the flash chip (\<open>mflash_drv.c\<close> with \<open>mflash_drv_erase_sector\<close>, \<open>mflash_drv_write_page\<close>,
  \<open>mflash_drv_write_page_bytes\<close>) is not modelled but an argument; \<open>drv_ok\<close> states what it is documented to do when it reports
  success.  Delays, the data cache and the hardware watchdog have no part in the contents.
\<close>

section \<open>Partitions\<close>

record flash_part_info_t =
  startAddr :: u32
  endAddr :: u32

definition flash_page_info :: "flash_part_info_t list" where
  "flash_page_info = map (\<lambda>(a, b). \<lparr>startAddr = a, endAddr = b\<rparr>)
     [(0x60100000, 0x60103FFF), (0x60104000, 0x60107FFF), (0x60108000, 0x6010BFFF), (0x6010C000, 0x6010CFFF),
      (0x60110000, 0x6011FFFF), (0x60120000, 0x6013FFFF), (0x60140000, 0x6015FFFF), (0x60160000, 0x6017FFFF),
      (0x60180000, 0x6019FFFF), (0x601A0000, 0x601BFFFF), (0x601C0000, 0x601DFFFF), (0x601E0000, 0x601FFFFF),
      (0x60200000, 0x60200FFF), (0x601A0000, 0x601AFFFF), (0x60208000, 0x6020BFFF), (0x6020C000, 0x6020FFFF),
      (0x60210000, 0x6021FFFF), (0x60220000, 0x6023FFFF), (0x60240000, 0x6025FFFF), (0x60260000, 0x6027FFFF),
      (0x60280000, 0x6029FFFF), (0x602A0000, 0x602BFFFF), (0x602FE000, 0x602FEFFF), (0x602FF000, 0x602FFFFF)]"

abbreviation (input) "MAX_FLASH_PAGE_NUM \<equiv> (24 :: u8)"
abbreviation (input) "KALYKE_FLEXSPI_AMBA_BASE \<equiv> (0x60000000 :: u32)"
abbreviation (input) "SECTOR_SIZE \<equiv> (0x1000 :: nat)"
abbreviation (input) "FLASH_PAGE_SIZE \<equiv> (256 :: nat)"

text \<open>The inner \<open>Some\<close> is a pointer, \<open>None\<close> the null pointer.\<close>

definition bsp_get_flash_info :: "u8 \<Rightarrow> flash_part_info_t option" where
  "bsp_get_flash_info page = (if page < MAX_FLASH_PAGE_NUM then rd flash_page_info (unat page) else None)"

section \<open>Erasing and writing\<close>

type_synonym flash = "nat \<Rightarrow> u8"

text \<open>The functions of the driver: the flag tells whether the status is success.\<close>

record flash_drv =
  mflash_drv_erase_sector :: "nat \<Rightarrow> flash \<Rightarrow> bool \<times> flash"
  mflash_drv_write_page :: "nat \<Rightarrow> u8 list \<Rightarrow> flash \<Rightarrow> bool \<times> flash"
  mflash_drv_write_page_bytes :: "nat \<Rightarrow> u8 list \<Rightarrow> flash \<Rightarrow> bool \<times> flash"

datatype mem_status = MEM_OK | MEM_ADDR_ERR

text \<open>The loop of \<open>bsp_flash_erase_partition\<close>; \<open>erasedSize\<close> does not overflow for the sizes of partitions.\<close>

function erase_loop :: "flash_drv \<Rightarrow> nat \<Rightarrow> nat \<Rightarrow> nat \<Rightarrow> flash \<Rightarrow> mem_status \<times> flash" where
  "erase_loop d a partSize erasedSize f =
     (case mflash_drv_erase_sector d (a + erasedSize) f of (ok, f') \<Rightarrow>
        if \<not> ok then (MEM_ADDR_ERR, f')
        else if partSize \<le> erasedSize + SECTOR_SIZE then (MEM_OK, f')
        else erase_loop d a partSize (erasedSize + SECTOR_SIZE) f')"
  by pat_completeness auto
termination
  by (relation "measure (\<lambda>(d, a, n, k, f). n - k)") auto

definition bsp_flash_erase_partition :: "flash_drv \<Rightarrow> u32 \<Rightarrow> u32 \<Rightarrow> flash \<Rightarrow> mem_status \<times> flash" where
  "bsp_flash_erase_partition d start partSize f = erase_loop d (unat (start - KALYKE_FLEXSPI_AMBA_BASE)) (unat partSize) 0 f"

text \<open>The loop for more than one page; \<open>buff\<close> is what is left of the buffer.  A buffer that is not aligned goes through \<open>gFlashBuf\<close>,
  with the same bytes.\<close>

function write_pages :: "flash_drv \<Rightarrow> nat \<Rightarrow> u8 list \<Rightarrow> nat \<Rightarrow> flash \<Rightarrow> mem_status \<times> flash" where
  "write_pages d a buff progSizeLeft f =
     (case mflash_drv_write_page d a (take FLASH_PAGE_SIZE buff) f of (ok, f1) \<Rightarrow>
        if \<not> ok then (MEM_ADDR_ERR, f1)
        else if progSizeLeft - FLASH_PAGE_SIZE \<le> FLASH_PAGE_SIZE then
          (case mflash_drv_write_page_bytes d (a + FLASH_PAGE_SIZE) (take (progSizeLeft - FLASH_PAGE_SIZE) (drop FLASH_PAGE_SIZE buff)) f1 of
             (ok, f2) \<Rightarrow> (if ok then MEM_OK else MEM_ADDR_ERR, f2))
        else write_pages d (a + FLASH_PAGE_SIZE) (drop FLASH_PAGE_SIZE buff) (progSizeLeft - FLASH_PAGE_SIZE) f1)"
  by pat_completeness auto
termination
  by (relation "measure (\<lambda>(d, a, b, n, f). n)") auto

definition bsp_flash_write_buffer :: "flash_drv \<Rightarrow> u32 \<Rightarrow> u8 list \<Rightarrow> flash \<Rightarrow> mem_status \<times> flash" where
  "bsp_flash_write_buffer d start buff f =
     (let a = unat (start - KALYKE_FLEXSPI_AMBA_BASE) in
      if length buff \<le> FLASH_PAGE_SIZE then
        (case mflash_drv_write_page_bytes d a buff f of (ok, f') \<Rightarrow> (if ok then MEM_OK else MEM_ADDR_ERR, f'))
      else write_pages d a buff (length buff) f)"

section \<open>The chip\<close>

text \<open>An erase sets every bit of its sector; programming can only clear bits, within one page.  Both leave the rest alone.  Nothing is said of a write
  of no bytes, for which the driver programs a whole page.\<close>

definition erased :: "nat \<Rightarrow> nat \<Rightarrow> flash \<Rightarrow> flash" where
  "erased a n f = (\<lambda>x. if a \<le> x \<and> x < a + n then 0xFF else f x)"

definition programmed :: "nat \<Rightarrow> u8 list \<Rightarrow> flash \<Rightarrow> flash" where
  "programmed a bs f = (\<lambda>x. if a \<le> x \<and> x < a + length bs then f x AND bs ! (x - a) else f x)"

definition drv_ok :: "flash_drv \<Rightarrow> bool" where
  "drv_ok d \<longleftrightarrow>
     (\<forall>a f f'. SECTOR_SIZE dvd a \<longrightarrow> mflash_drv_erase_sector d a f = (True, f') \<longrightarrow> f' = erased a SECTOR_SIZE f) \<and>
     (\<forall>a bs f f'. FLASH_PAGE_SIZE dvd a \<longrightarrow> length bs = FLASH_PAGE_SIZE \<longrightarrow> mflash_drv_write_page d a bs f = (True, f') \<longrightarrow> f' = programmed a bs f) \<and>
     (\<forall>a bs f f'. FLASH_PAGE_SIZE dvd a \<longrightarrow> bs \<noteq> [] \<longrightarrow> length bs \<le> FLASH_PAGE_SIZE \<longrightarrow> mflash_drv_write_page_bytes d a bs f = (True, f') \<longrightarrow> f' = programmed a bs f)"

lemma drv_okD:
  assumes "drv_ok d"
  shows "SECTOR_SIZE dvd a \<Longrightarrow> mflash_drv_erase_sector d a f = (True, f') \<Longrightarrow> f' = erased a SECTOR_SIZE f"
    "FLASH_PAGE_SIZE dvd a \<Longrightarrow> length bs = FLASH_PAGE_SIZE \<Longrightarrow> mflash_drv_write_page d a bs f = (True, f') \<Longrightarrow> f' = programmed a bs f"
    "FLASH_PAGE_SIZE dvd a \<Longrightarrow> bs \<noteq> [] \<Longrightarrow> length bs \<le> FLASH_PAGE_SIZE \<Longrightarrow> mflash_drv_write_page_bytes d a bs f = (True, f') \<Longrightarrow> f' = programmed a bs f"
  using assms by (simp_all add: drv_ok_def)

text \<open>An erase of sectors one after another, and programming page by page, amount to one erase and one programming.\<close>

lemma erased_erased: "erased (a + k) m (erased a k f) = erased a (k + m) f"
proof
  fix x
  show "erased (a + k) m (erased a k f) x = erased a (k + m) f x"
    by (cases "a \<le> x \<and> x < a + (k + m)"; cases "x < a + k") (simp_all add: erased_def)
qed

lemma programmed_append: "programmed (a + length bs) cs (programmed a bs f) = programmed a (bs @ cs) f"
proof
  fix x
  show "programmed (a + length bs) cs (programmed a bs f) x = programmed a (bs @ cs) f x"
    by (cases "x < a"; cases "x - a < length bs") (auto simp: programmed_def nth_append)
qed

lemma erase_loop_erases:
  "drv_ok d \<Longrightarrow> SECTOR_SIZE dvd a \<Longrightarrow> SECTOR_SIZE dvd n \<Longrightarrow> SECTOR_SIZE dvd k \<Longrightarrow> k < n \<Longrightarrow> erase_loop d a n k f = (MEM_OK, f') \<Longrightarrow>
    f' = erased (a + k) (n - k) f"
proof (induction d a n k f rule: erase_loop.induct)
  case (1 d a n k f)
  obtain ok f1 where e: "mflash_drv_erase_sector d (a + k) f = (ok, f1)"
    by (cases "mflash_drv_erase_sector d (a + k) f")
  have ok: "ok"
    using "1.prems"(6) e by (cases ok) (simp_all add: erase_loop.simps [of d a n k f])
  have d: "SECTOR_SIZE dvd a + k" "SECTOR_SIZE dvd k + SECTOR_SIZE" "SECTOR_SIZE dvd n - k"
    using "1.prems"(2-4) by (simp_all add: dvd_diff_nat)
  have f1: "f1 = erased (a + k) SECTOR_SIZE f"
    using drv_okD(1) [OF "1.prems"(1) d(1)] e ok by simp
  show ?case
  proof (cases "n \<le> k + SECTOR_SIZE")
    case True
    then have "n - k = SECTOR_SIZE"
      using dvd_imp_le [OF d(3)] "1.prems"(5) by linarith
    then show ?thesis
      using "1.prems"(6) e ok True f1 by (simp add: erase_loop.simps [of d a n k f])
  next
    case False
    then have "erase_loop d a n (k + SECTOR_SIZE) f1 = (MEM_OK, f')"
      using "1.prems"(6) e ok by (simp add: erase_loop.simps [of d a n k f])
    then have "f' = erased (a + (k + SECTOR_SIZE)) (n - (k + SECTOR_SIZE)) f1"
      using "1.IH" [OF e [symmetric]] ok False "1.prems"(1-3) d(2) by simp
    then show ?thesis
      using erased_erased [of "a + k" SECTOR_SIZE "n - (k + SECTOR_SIZE)" f] False f1 by (simp add: add.assoc)
  qed
qed

lemma write_pages_programs:
  "drv_ok d \<Longrightarrow> FLASH_PAGE_SIZE dvd a \<Longrightarrow> FLASH_PAGE_SIZE < n \<Longrightarrow> n = length bs \<Longrightarrow> write_pages d a bs n f = (MEM_OK, f') \<Longrightarrow>
    f' = programmed a bs f"
proof (induction d a bs n f rule: write_pages.induct)
  case (1 d a bs n f)
  let ?b = "take FLASH_PAGE_SIZE bs" and ?c = "drop FLASH_PAGE_SIZE bs"
  obtain ok f1 where e: "mflash_drv_write_page d a ?b f = (ok, f1)"
    by (cases "mflash_drv_write_page d a ?b f")
  have ok: "ok"
    using "1.prems"(5) e by (cases ok) (simp_all add: write_pages.simps [of d a bs n f])
  have l: "length ?b = FLASH_PAGE_SIZE" "n - FLASH_PAGE_SIZE = length ?c" "FLASH_PAGE_SIZE dvd a + FLASH_PAGE_SIZE" "?c \<noteq> []"
    using "1.prems"(2-4) by simp_all
  have f1: "f1 = programmed a ?b f"
    using drv_okD(2) [OF "1.prems"(1,2) l(1)] e ok by simp
  have "f' = programmed (a + FLASH_PAGE_SIZE) ?c f1"
  proof (cases "n - FLASH_PAGE_SIZE \<le> FLASH_PAGE_SIZE")
    case True
    then have "mflash_drv_write_page_bytes d (a + FLASH_PAGE_SIZE) ?c f1 = (True, f')"
      using "1.prems"(4,5) e ok by (simp add: write_pages.simps [of d a bs n f] split: prod.split_asm if_split_asm)
    then show ?thesis
      using drv_okD(3) [OF "1.prems"(1) l(3,4)] True l(2) by simp
  next
    case False
    then have "write_pages d (a + FLASH_PAGE_SIZE) ?c (n - FLASH_PAGE_SIZE) f1 = (MEM_OK, f')"
      using "1.prems"(5) e ok by (simp add: write_pages.simps [of d a bs n f])
    then show ?thesis
      using "1.IH" [OF e [symmetric]] ok False "1.prems"(1) l(2,3) by simp
  qed
  then show ?case
    using programmed_append [of a ?b ?c f] l(1) f1 by simp
qed

lemma programmed_erased: "programmed a bs (erased a n f) = (\<lambda>x. if a \<le> x \<and> x < a + length bs then bs ! (x - a) else erased a n f x)"
  if "length bs \<le> n"
proof
  fix x
  have "(0xFF :: u8) = - 1"
    by simp
  then have "(0xFF :: u8) AND v = v" for v
    by (simp only: and.left_neutral)
  then show "programmed a bs (erased a n f) x = (if a \<le> x \<and> x < a + length bs then bs ! (x - a) else erased a n f x)"
    using that by (simp add: programmed_def erased_def)
qed

text \<open>A buffer written to an erased partition is read back.  For a partition of whole sectors, a buffer that fits into it and any number
  of pages: when erasing and writing report \<open>MEM_OK\<close>, the partition holds exactly the bytes of the buffer, is blank behind them, and nothing
  outside the partition has changed.\<close>

theorem flash_write_read:
  assumes "drv_ok d" and "a = unat (start - KALYKE_FLEXSPI_AMBA_BASE)" and "SECTOR_SIZE dvd a" and "SECTOR_SIZE dvd unat n" and "0 < n" and "bs \<noteq> []" and "length bs \<le> unat n"
    and "bsp_flash_erase_partition d start n f = (MEM_OK, f1)" and "bsp_flash_write_buffer d start bs f1 = (MEM_OK, f2)"
  shows "(\<forall>i < length bs. f2 (a + i) = bs ! i) \<and> (\<forall>i. length bs \<le> i \<and> i < unat n \<longrightarrow> f2 (a + i) = 0xFF) \<and>
    (\<forall>x. x < a \<or> a + unat n \<le> x \<longrightarrow> f2 x = f x)"
proof -
  have f1: "f1 = erased a (unat n) f"
    using erase_loop_erases [OF assms(1,3,4), of 0 f f1] assms(2,5,8) by (simp add: bsp_flash_erase_partition_def word_less_nat_alt)
  have p: "FLASH_PAGE_SIZE dvd a"
    using assms(3) by (rule dvd_trans [rotated]) simp
  have "f2 = programmed a bs f1"
  proof (cases "length bs \<le> FLASH_PAGE_SIZE")
    case True
    then show ?thesis
      using assms(2,9) drv_okD(3) [OF assms(1) p assms(6) True] by (auto simp: bsp_flash_write_buffer_def Let_def split: prod.split_asm if_split_asm)
  next
    case False
    then show ?thesis
      using assms(2,9) write_pages_programs [OF assms(1) p, of "length bs" bs f1 f2]
      by (simp add: bsp_flash_write_buffer_def Let_def del: write_pages.simps)
  qed
  then have "f2 = (\<lambda>x. if a \<le> x \<and> x < a + length bs then bs ! (x - a) else erased a (unat n) f x)"
    using programmed_erased [OF assms(7)] f1 by simp
  then show ?thesis
    using assms(7) by (auto simp: erased_def)
qed

text \<open>A chip that never fails.\<close>

definition nor_drv :: flash_drv where
  "nor_drv = \<lparr>mflash_drv_erase_sector = \<lambda>a f. (True, erased a SECTOR_SIZE f), mflash_drv_write_page = \<lambda>a bs f. (True, programmed a bs f),
     mflash_drv_write_page_bytes = \<lambda>a bs f. (True, programmed a bs f)\<rparr>"

lemma nor_drv_ok: "drv_ok nor_drv"
  by (simp add: drv_ok_def nor_drv_def)

theorem flash_write_read_witness:
  "\<exists>f2. bsp_flash_write_buffer nor_drv 0x60200000 [1, 2, 3] (snd (bsp_flash_erase_partition nor_drv 0x60200000 0x1000 (\<lambda>_. 0))) = (MEM_OK, f2) \<and>
     f2 0x200001 = 2 \<and> f2 0x200003 = 0xFF"
proof -
  let ?f = "\<lambda>_. 0"
  obtain f1 where f1: "bsp_flash_erase_partition nor_drv 0x60200000 0x1000 ?f = (MEM_OK, f1)"
    by (simp add: bsp_flash_erase_partition_def erase_loop.simps [of nor_drv _ _ 0] nor_drv_def)
  obtain f2 where f2: "bsp_flash_write_buffer nor_drv 0x60200000 [1, 2, 3] f1 = (MEM_OK, f2)"
    by (simp add: bsp_flash_write_buffer_def nor_drv_def)
  note r = flash_write_read [OF nor_drv_ok refl _ _ _ _ _ f1 f2, simplified]
  from r have "f2 (0x200000 + 1) = [1, 2, 3] ! 1" "f2 (0x200000 + 3) = 0xFF"
    by (auto dest: spec [of _ 1] spec [of _ 3])
  then show ?thesis
    using f1 f2 by simp
qed

end
