(* ===== verification/PLC_Password.thy ===== *)
theory PLC_Password
  imports PLC_Verify PLC_Flash
begin

text \<open>
  Passwords for downloading, uploading and monitoring, \<open>source/plc/sysmanage/src/plc_password.c\<close>: set-up, loading from flash, changing,
  checking, the state of the last check, and the flag that forbids uploading.
\<close>

section \<open>State\<close>

record plc_password_st =
  mcv_IsEnable :: u8
  mcv_CheckPass :: u8
  mlv_CheckTime :: u8
  mcv_Len :: u8
  mcv_Password :: "u8 list"

text \<open>\<open>mcv_Padding\<close> is the byte that aligns \<open>mlv_Crc\<close>, part of the memory that the checksum covers.\<close>

record plc_password_info_st =
  msv_Head :: u16
  mcv_UploadForbid :: u8
  mtv_Password :: "plc_password_st list"
  mcv_Padding :: u8
  mlv_Crc :: u32

text \<open>The pointer, the flash chip and the tick counter; \<open>heap_byte\<close> is what a new block holds at the place of the padding.\<close>

record pw_state =
  gtp_PasswordInfo :: "plc_password_info_st option"
  pw_flash :: flash
  pw_ticks :: u32
  heap_byte :: u8

abbreviation (input) "MAX_PASSWORD_LEN \<equiv> (8 :: nat)"
abbreviation (input) "MAX_PASSWORD_NUM \<equiv> (4 :: nat)"
abbreviation (input) "MAX_PASSWORD_VALIDITY \<equiv> (300000 :: u32)"
abbreviation (input) "USER_PASSWORD_START_FLASH_PAGE \<equiv> (12 :: u8)"

text \<open>The 56 bytes of the structure: the fields in order, words low byte first.\<close>

definition password_bytes :: "plc_password_st \<Rightarrow> u8 list" where
  "password_bytes p = [mcv_IsEnable p, mcv_CheckPass p, mlv_CheckTime p, mcv_Len p] @ mcv_Password p"

definition info_bytes :: "plc_password_info_st \<Rightarrow> u8 list" where
  "info_bytes i = [ucast (msv_Head i), ucast (drop_bit 8 (msv_Head i)), mcv_UploadForbid i] @ concat (map password_bytes (mtv_Password i)) @ [mcv_Padding i]"

definition struct_bytes :: "plc_password_info_st \<Rightarrow> u8 list" where
  "struct_bytes i = info_bytes i @ map (\<lambda>k. ucast (drop_bit (8 * k) (mlv_Crc i))) [0, 1, 2, 3]"

definition with_crc :: "plc_password_info_st \<Rightarrow> plc_password_info_st option" where
  "with_crc i = do { c \<leftarrow> calc_crc32 (info_bytes i); Some (i\<lparr>mlv_Crc := c\<rparr>) }"

definition pw_item :: "u8 \<Rightarrow> pw_state \<Rightarrow> plc_password_st option" where
  "pw_item n s = do { i \<leftarrow> gtp_PasswordInfo s; rd (mtv_Password i) (unat n) }"

definition put_item :: "u8 \<Rightarrow> plc_password_st \<Rightarrow> pw_state \<Rightarrow> pw_state option" where
  "put_item n p s = do { i \<leftarrow> gtp_PasswordInfo s; ps \<leftarrow> wr (mtv_Password i) (unat n) p; Some (s\<lparr>gtp_PasswordInfo := Some (i\<lparr>mtv_Password := ps\<rparr>)\<rparr>) }"

section \<open>Operations\<close>

definition plc_password_init :: "pw_state \<Rightarrow> pw_state option" where
  "plc_password_init s =
     (case gtp_PasswordInfo s of
        Some i \<Rightarrow> Some s
      | None \<Rightarrow> do {
          i \<leftarrow> with_crc \<lparr>msv_Head = 0xAA55, mcv_UploadForbid = 0,
            mtv_Password = replicate MAX_PASSWORD_NUM \<lparr>mcv_IsEnable = 0, mcv_CheckPass = 0, mlv_CheckTime = ucast (pw_ticks s),
              mcv_Len = of_nat MAX_PASSWORD_LEN, mcv_Password = replicate MAX_PASSWORD_LEN 0\<rparr>,
            mcv_Padding = heap_byte s, mlv_Crc = 0\<rparr>;
          Some (s\<lparr>gtp_PasswordInfo := Some i\<rparr>) })"

text \<open>The loop over \<open>mcv_Password\<close>: \<open>n\<close> bytes from \<open>j\<close> on.\<close>

fun copy_password :: "nat \<Rightarrow> nat \<Rightarrow> u8 list \<Rightarrow> u8 list \<Rightarrow> u8 list option" where
  "copy_password 0 j src dst = Some dst"
| "copy_password (Suc n) j src dst = do { b \<leftarrow> rd src j; dst' \<leftarrow> wr dst j b; copy_password n (j + 1) src dst' }"

text \<open>The structure in the flash, mapped at its address: item \<open>k\<close> begins at byte \<open>3 + 12 * k\<close>.  Its password reaches beyond the item when its
  length does, so the source of the copy is the flash from there on.\<close>

definition flash_bytes :: "flash \<Rightarrow> nat \<Rightarrow> nat \<Rightarrow> u8 list" where
  "flash_bytes f a n = map (\<lambda>i. f (a + i)) [0..<n]"

fun read_items :: "flash \<Rightarrow> nat \<Rightarrow> nat \<Rightarrow> nat \<Rightarrow> plc_password_st list \<Rightarrow> plc_password_st list option" where
  "read_items f a 0 k ps = Some ps"
| "read_items f a (Suc n) k ps =
     do { p \<leftarrow> rd ps k;
          let l = f (a + 3 + 12 * k + 3);
          w \<leftarrow> copy_password (unat l) 0 (flash_bytes f (a + 3 + 12 * k + 4) (unat l)) (mcv_Password p);
          ps' \<leftarrow> wr ps k (p\<lparr>mcv_IsEnable := f (a + 3 + 12 * k), mcv_Len := l, mcv_Password := w\<rparr>);
          read_items f a n (k + 1) ps' }"

definition plc_read_password_info :: "pw_state \<Rightarrow> pw_state option" where
  "plc_read_password_info s =
     (case bsp_get_flash_info USER_PASSWORD_START_FLASH_PAGE of
        None \<Rightarrow> Some s
      | Some part \<Rightarrow>
          let f = pw_flash s; a = unat (startAddr part - KALYKE_FLEXSPI_AMBA_BASE) in
          do { h \<leftarrow> GET_PU16_DATA (flash_bytes f a 56) 0;
               if h \<noteq> 0xAA55 then Some s
               else do {
                 c \<leftarrow> calc_crc32 (flash_bytes f a 52);
                 c' \<leftarrow> GET_PU32_DATA (flash_bytes f a 56) 52;
                 if c \<noteq> c' then Some s
                 else do {
                   i \<leftarrow> gtp_PasswordInfo s;
                   ps \<leftarrow> read_items f a MAX_PASSWORD_NUM 0 (mtv_Password i);
                   Some (s\<lparr>gtp_PasswordInfo := Some (i\<lparr>mcv_UploadForbid := f (a + 2), mtv_Password := ps, mlv_Crc := c\<rparr>)\<rparr>) } } })"

text \<open>The end of \<open>plc_update_password_info\<close> and \<open>plc_set_upload_forbid_flag\<close>; the status of the flash functions is not looked at.  The flag tells
  whether the function returns \<open>pdPASS\<close>.\<close>

definition save_info :: "flash_drv \<Rightarrow> pw_state \<Rightarrow> (bool \<times> pw_state) option" where
  "save_info d s =
     do { i0 \<leftarrow> gtp_PasswordInfo s;
          i \<leftarrow> with_crc i0;
          let s1 = s\<lparr>gtp_PasswordInfo := Some i\<rparr>;
          case bsp_get_flash_info USER_PASSWORD_START_FLASH_PAGE of
            None \<Rightarrow> Some (False, s1)
          | Some part \<Rightarrow>
              let f1 = snd (bsp_flash_erase_partition d (startAddr part) (endAddr part - startAddr part + 1) (pw_flash s1));
                  f2 = snd (bsp_flash_write_buffer d (startAddr part) (struct_bytes i) f1) in
              Some (True, s1\<lparr>pw_flash := f2\<rparr>) }"

definition plc_update_password_info :: "flash_drv \<Rightarrow> u8 \<Rightarrow> u8 list \<Rightarrow> u8 \<Rightarrow> pw_state \<Rightarrow> (bool \<times> pw_state) option" where
  "plc_update_password_info d item new len s =
     do { p \<leftarrow> pw_item item s;
          w \<leftarrow> copy_password (unat len) 0 new (mcv_Password p);
          v \<leftarrow> GET_PU32_DATA w 0;
          s1 \<leftarrow> put_item item (p\<lparr>mcv_Len := len, mcv_Password := w, mlv_CheckTime := ucast (pw_ticks s),
                 mcv_IsEnable := (if v = 0 then 0 else 1), mcv_CheckPass := 0\<rparr>) s;
          save_info d s1 }"

definition plc_password_erase :: "flash_drv \<Rightarrow> pw_state \<Rightarrow> pw_state option" where
  "plc_password_erase d s =
     do { part \<leftarrow> bsp_get_flash_info USER_PASSWORD_START_FLASH_PAGE;
          plc_password_init (s\<lparr>pw_flash := snd (bsp_flash_erase_partition d (startAddr part) (endAddr part - startAddr part + 1) (pw_flash s)),
            gtp_PasswordInfo := None\<rparr>) }"

text \<open>The comparison of \<open>n\<close> bytes from \<open>j\<close> on.\<close>

fun same_password :: "nat \<Rightarrow> nat \<Rightarrow> u8 list \<Rightarrow> u8 list \<Rightarrow> bool option" where
  "same_password 0 j given stored = Some True"
| "same_password (Suc n) j given stored =
     do { a \<leftarrow> rd given j; b \<leftarrow> rd stored j; if a \<noteq> b then Some False else same_password n (j + 1) given stored }"

definition plc_check_password_info :: "u8 \<Rightarrow> u8 list \<Rightarrow> u8 \<Rightarrow> pw_state \<Rightarrow> (bool \<times> pw_state) option" where
  "plc_check_password_info item given len s =
     do { p \<leftarrow> pw_item item s;
          if mcv_IsEnable p = 0 then Some (True, s)
          else if len \<noteq> mcv_Len p then Some (False, s)
          else do {
            b \<leftarrow> same_password (unat len) 0 given (mcv_Password p);
            if \<not> b then Some (False, s)
            else do { s1 \<leftarrow> put_item item (p\<lparr>mcv_CheckPass := 1\<rparr>) s; Some (True, s1) } } }"

definition plc_get_password_check_result :: "u8 \<Rightarrow> pw_state \<Rightarrow> (bool \<times> pw_state) option" where
  "plc_get_password_check_result item s =
     do { p \<leftarrow> pw_item item s;
          if mcv_IsEnable p = 0 then Some (True, s)
          else if MAX_PASSWORD_VALIDITY < pw_ticks s - ucast (mlv_CheckTime p) then
            do { s1 \<leftarrow> put_item item (p\<lparr>mcv_CheckPass := 0\<rparr>) s; Some (False, s1) }
          else do {
            s1 \<leftarrow> put_item item (p\<lparr>mlv_CheckTime := ucast (pw_ticks s)\<rparr>) s;
            Some (mcv_CheckPass p \<noteq> 0, s1) } }"

definition plc_set_upload_forbid_flag :: "flash_drv \<Rightarrow> u8 \<Rightarrow> pw_state \<Rightarrow> (bool \<times> pw_state) option" where
  "plc_set_upload_forbid_flag d flag s =
     do { i \<leftarrow> gtp_PasswordInfo s; save_info d (s\<lparr>gtp_PasswordInfo := Some (i\<lparr>mcv_UploadForbid := flag\<rparr>)\<rparr>) }"

definition plc_get_upload_forbid_flag :: "pw_state \<Rightarrow> u8 option" where
  "plc_get_upload_forbid_flag s = map_option mcv_UploadForbid (gtp_PasswordInfo s)"

section \<open>What a password protects\<close>

text \<open>Time passes, and masters check passwords, ask for the result, change passwords and the upload flag.\<close>

datatype pw_op = TickOp u32 | CheckOp u8 "u8 list" u8 | ResultOp u8 | UpdateOp u8 "u8 list" u8 | ForbidOp u8

fun pw_step :: "flash_drv \<Rightarrow> pw_op \<Rightarrow> pw_state \<Rightarrow> pw_state option" where
  "pw_step d (TickOp t) s = Some (s\<lparr>pw_ticks := t\<rparr>)"
| "pw_step d (CheckOp n g l) s = map_option snd (plc_check_password_info n g l s)"
| "pw_step d (ResultOp n) s = map_option snd (plc_get_password_check_result n s)"
| "pw_step d (UpdateOp n g l) s = map_option snd (plc_update_password_info d n g l s)"
| "pw_step d (ForbidOp v) s = map_option snd (plc_set_upload_forbid_flag d v s)"

fun pw_steps :: "flash_drv \<Rightarrow> pw_op list \<Rightarrow> pw_state \<Rightarrow> pw_state option" where
  "pw_steps d [] s = Some s"
| "pw_steps d (x # xs) s = do { s' \<leftarrow> pw_step d x s; pw_steps d xs s' }"

lemma pw_item_put: "put_item n q s = Some s' \<Longrightarrow> pw_item m s' = (if m = n then Some q else pw_item m s)"
  by (auto simp: put_item_def pw_item_def opt_simps rd_def)

lemma pw_item_save: "save_info d s = Some (r, s') \<Longrightarrow> pw_item m s' = pw_item m s"
  by (auto simp: save_info_def with_crc_def pw_item_def opt_simps Let_def split: option.split_asm)

lemma same_password_iff: "same_password n j g w = Some b \<Longrightarrow> b \<longleftrightarrow> take n (drop j g) = take n (drop j w)"
proof (induction n arbitrary: j)
  case (Suc n)
  then obtain x y where j: "rd g j = Some x" "rd w j = Some y" "(if x \<noteq> y then Some False else same_password n (j + 1) g w) = Some b"
    by (auto simp: opt_simps)
  then have "j < length g" "j < length w" "g ! j = x" "w ! j = y"
    by (auto simp: rd_def split: if_split_asm)
  then have "take (Suc n) (drop j g) = x # take n (drop (j + 1) g)" "take (Suc n) (drop j w) = y # take n (drop (j + 1) w)"
    by (simp_all add: Cons_nth_drop_Suc [symmetric])
  then show ?case
    using j(3) Suc.IH [of "j + 1"] by (auto split: if_split_asm)
qed simp

text \<open>The item has the password of \<open>p\<close> and has not been checked.\<close>

definition locked :: "u8 \<Rightarrow> plc_password_st \<Rightarrow> pw_state \<Rightarrow> bool" where
  "locked n p s \<longleftrightarrow> (\<exists>q. pw_item n s = Some q \<and> mcv_IsEnable q = mcv_IsEnable p \<and> mcv_Len q = mcv_Len p \<and> mcv_Password q = mcv_Password p \<and> mcv_CheckPass q = 0)"

text \<open>The operations that do not touch the lock of item \<open>n\<close>: checks with something else than its password, changes of other passwords.\<close>

fun harmless :: "u8 \<Rightarrow> plc_password_st \<Rightarrow> pw_op \<Rightarrow> bool" where
  "harmless n p (CheckOp m g l) = (m = n \<longrightarrow> l \<noteq> mcv_Len p \<or> take (unat l) g \<noteq> take (unat l) (mcv_Password p))"
| "harmless n p (UpdateOp m g l) = (m \<noteq> n)"
| "harmless n p _ = True"

lemma locked_item: "pw_item n s' = pw_item n s \<Longrightarrow> locked n p s' = locked n p s"
  by (simp add: locked_def)

lemma locked_step:
  assumes "locked n p s" and "mcv_IsEnable p \<noteq> 0" and "harmless n p x" and "pw_step d x s = Some s'"
  shows "locked n p s'"
proof (cases x)
  case (TickOp t)
  then show ?thesis
    using assms(1,4) by (auto simp: locked_def pw_item_def)
next
  case (CheckOp m g l)
  show ?thesis
  proof (cases "pw_item n s' = pw_item n s")
    case False
    then have "m = n"
      using assms(4) CheckOp by (auto simp: plc_check_password_info_def opt_simps pw_item_put split: if_split_asm)
    then show ?thesis
      using assms False CheckOp
      by (auto simp: plc_check_password_info_def opt_simps locked_def split: if_split_asm dest!: same_password_iff)
  qed (use assms(1) locked_item in blast)
next
  case (ResultOp m)
  then show ?thesis
    using assms(1,4) by (auto simp: plc_get_password_check_result_def opt_simps locked_def pw_item_put split: if_split_asm)
next
  case (UpdateOp m g l)
  then have "pw_item n s' = pw_item n s"
    using assms(3,4) by (auto simp: plc_update_password_info_def opt_simps pw_item_save pw_item_put)
  then show ?thesis
    using assms(1) locked_item by blast
next
  case (ForbidOp v)
  then have "pw_item n s' = pw_item n s"
    using assms(4) by (auto simp: plc_set_upload_forbid_flag_def opt_simps pw_item_save) (simp add: pw_item_def)
  then show ?thesis
    using assms(1) locked_item by blast
qed

lemma locked_steps: "pw_steps d xs s = Some s' \<Longrightarrow> locked n p s \<Longrightarrow> mcv_IsEnable p \<noteq> 0 \<Longrightarrow> list_all (harmless n p) xs \<Longrightarrow> locked n p s'"
  by (induction xs arbitrary: s) (auto simp: opt_simps dest: locked_step)

lemma put_item_ok: "pw_item n s = Some q \<Longrightarrow> \<exists>s'. put_item n r s = Some s'"
  by (auto simp: pw_item_def put_item_def opt_simps rd_def wr_def split: if_split_asm)

lemma locked_result:
  assumes "locked n p s" and "mcv_IsEnable p \<noteq> 0"
  shows "\<exists>s'. plc_get_password_check_result n s = Some (False, s')"
proof -
  obtain q where q: "pw_item n s = Some q" "mcv_IsEnable q \<noteq> 0" "mcv_CheckPass q = 0"
    using assms by (auto simp: locked_def)
  obtain s1 s2 where "put_item n (q\<lparr>mcv_CheckPass := 0\<rparr>) s = Some s1" "put_item n (q\<lparr>mlv_CheckTime := ucast (pw_ticks s)\<rparr>) s = Some s2"
    using put_item_ok [OF q(1)] by blast
  then show ?thesis
    using q by (simp add: plc_get_password_check_result_def)
qed

text \<open>C13. Without the password there is no access.  From a state in which an enabled password has not been checked, after any sequence of operations
  that neither presents exactly its bytes with its length nor changes it (checks with other bytes, checks and changes of other
  passwords, requests for results, changes of the upload flag, the passing of time) the result of the check is failure.\<close>

theorem no_access_without_password:
  assumes "pw_item n s = Some p" and "mcv_IsEnable p \<noteq> 0" and "mcv_CheckPass p = 0" and "list_all (harmless n p) xs" and "pw_steps d xs s = Some s'"
  shows "\<exists>s''. plc_get_password_check_result n s' = Some (False, s'')"
proof -
  have "locked n p s"
    using assms(1,3) by (simp add: locked_def)
  then show ?thesis
    using locked_result [OF locked_steps [OF assms(5) _ assms(2,4)] assms(2)] by simp
qed

text \<open>A controller after start-up, with the password 12345678 for downloading.\<close>

definition pw_start :: pw_state where
  "pw_start = \<lparr>gtp_PasswordInfo = Some \<lparr>msv_Head = 0xAA55, mcv_UploadForbid = 0,
       mtv_Password = \<lparr>mcv_IsEnable = 1, mcv_CheckPass = 0, mlv_CheckTime = 0, mcv_Len = 8, mcv_Password = [1, 2, 3, 4, 5, 6, 7, 8]\<rparr> #
         replicate 3 \<lparr>mcv_IsEnable = 0, mcv_CheckPass = 0, mlv_CheckTime = 0, mcv_Len = 8, mcv_Password = replicate 8 0\<rparr>,
       mcv_Padding = 0, mlv_Crc = 0\<rparr>, pw_flash = (\<lambda>_. 0xFF), pw_ticks = 0, heap_byte = 0\<rparr>"

lemma pw_start_item:
  "pw_item 0 pw_start = Some \<lparr>mcv_IsEnable = 1, mcv_CheckPass = 0, mlv_CheckTime = 0, mcv_Len = 8, mcv_Password = [1, 2, 3, 4, 5, 6, 7, 8]\<rparr>"
  by (simp add: pw_item_def pw_start_def rd_def)

theorem no_access_without_password_witness:
  "\<exists>s' s''. pw_steps nor_drv [TickOp 100, CheckOp 0 [1, 2, 3, 4, 5, 6, 7, 9] 8, CheckOp 0 [1, 2] 2] pw_start = Some s' \<and>
     plc_get_password_check_result 0 s' = Some (False, s'')"
proof -
  let ?p = "\<lparr>mcv_IsEnable = 1, mcv_CheckPass = 0, mlv_CheckTime = 0, mcv_Len = 8, mcv_Password = [1, 2, 3, 4, 5, 6, 7, 8]\<rparr>"
  let ?xs = "[TickOp 100, CheckOp 0 [1, 2, 3, 4, 5, 6, 7, 9] 8, CheckOp 0 [1, 2] 2]"
  have i: "pw_item 0 (pw_start\<lparr>pw_ticks := 100\<rparr>) = Some ?p"
    using pw_start_item by (simp add: pw_item_def)
  have "same_password 8 0 [1, 2, 3, 4, 5, 6, 7, 9] [1, 2, 3, 4, 5, 6, 7, 8] = Some False"
    by (simp add: numeral_eq_Suc rd_def)
  then have s: "pw_steps nor_drv ?xs pw_start = Some (pw_start\<lparr>pw_ticks := 100\<rparr>)"
    by (simp add: plc_check_password_info_def i)
  show ?thesis
    using no_access_without_password [OF pw_start_item _ _ _ s] s by simp
qed

text \<open>C40. The check time is kept in eight bits, so the five minutes count from start-up and not from the check.  More than
  300255 ms after start-up an enabled password opens nothing any more: directly after a check with the right password the
  result is failure.  Up to 300000 ms after start-up the result of a
  successful check does not expire, however long ago the check was.\<close>

theorem password_validity_from_startup:
  assumes "pw_item n s = Some p" and "mcv_IsEnable p \<noteq> 0" and "unat (mcv_Len p) \<le> length (mcv_Password p)"
  shows "\<exists>s1. plc_check_password_info n (mcv_Password p) (mcv_Len p) s = Some (True, s1) \<and>
    (300255 < pw_ticks s \<longrightarrow> (\<exists>s2. plc_get_password_check_result n s1 = Some (False, s2))) \<and>
    (\<forall>t. 255 \<le> t \<and> t \<le> 300000 \<longrightarrow> (\<exists>s2. plc_get_password_check_result n (s1\<lparr>pw_ticks := t\<rparr>) = Some (True, s2)))"
proof -
  let ?q = "p\<lparr>mcv_CheckPass := 1\<rparr>"
  have same: "same_password m j w w = Some True" if "j + m \<le> length w" for m j and w :: "u8 list"
    using that by (induction m arbitrary: j) (auto simp: mem_simps)
  obtain s1 where s1: "put_item n ?q s = Some s1"
    using put_item_ok [OF assms(1)] by blast
  then have i: "pw_item n s1 = Some ?q" "pw_item n (s1\<lparr>pw_ticks := t\<rparr>) = Some ?q" "pw_ticks s1 = pw_ticks s" for t
    using pw_item_put [OF s1, of n] s1 by (auto simp: pw_item_def put_item_def opt_simps)
  have "unat (mlv_CheckTime p) < 256"
    by (rule unat_lt_8)
  then have "unat (mlv_CheckTime p) \<le> 255"
    by linarith
  then have c: "unat (ucast (mlv_CheckTime p) :: u32) \<le> 255"
    by (simp add: unsigned_ucast_eq)
  have late: "300000 < t - ucast (mlv_CheckTime p)" if "300255 < t" for t :: u32
    using that c by (simp add: word_less_nat_alt unat_sub_if')
  have early: "\<not> 300000 < t - ucast (mlv_CheckTime p)" if "255 \<le> t" "t \<le> 300000" for t :: u32
    using that c by (simp add: word_less_nat_alt word_le_nat_alt unat_sub_if')
  have "\<exists>s2. plc_get_password_check_result n s1 = Some (False, s2)" if "300255 < pw_ticks s"
    using put_item_ok [OF i(1), of "p\<lparr>mcv_CheckPass := 0\<rparr>"] late [OF that] i(1,3) assms(2) by (auto simp: plc_get_password_check_result_def)
  moreover have "\<exists>s2. plc_get_password_check_result n (s1\<lparr>pw_ticks := t\<rparr>) = Some (True, s2)" if "255 \<le> t" "t \<le> 300000" for t
    using put_item_ok [OF i(2) [of t], of "?q\<lparr>mlv_CheckTime := ucast t\<rparr>"] early [OF that] i(2) [of t] assms(2)
    by (auto simp: plc_get_password_check_result_def)
  ultimately show ?thesis
    using s1 assms same [of 0 "unat (mcv_Len p)" "mcv_Password p"] by (auto simp: plc_check_password_info_def)
qed

theorem password_validity_from_startup_witness:
  "\<exists>s1 s2. plc_check_password_info 0 [1, 2, 3, 4, 5, 6, 7, 8] 8 (pw_start\<lparr>pw_ticks := 300256\<rparr>) = Some (True, s1) \<and>
     plc_get_password_check_result 0 s1 = Some (False, s2)"
proof -
  have "pw_item 0 (pw_start\<lparr>pw_ticks := 300256\<rparr>) =
      Some \<lparr>mcv_IsEnable = 1, mcv_CheckPass = 0, mlv_CheckTime = 0, mcv_Len = 8, mcv_Password = [1, 2, 3, 4, 5, 6, 7, 8]\<rparr>"
    using pw_start_item by (simp add: pw_item_def)
  from password_validity_from_startup [OF this] show ?thesis
    by auto
qed

section \<open>Restart\<close>

text \<open>The shape of the structure: four items of eight bytes, no length above eight.\<close>

definition wf_items :: "plc_password_st list \<Rightarrow> bool" where
  "wf_items ps \<longleftrightarrow> length ps = MAX_PASSWORD_NUM \<and> (\<forall>p \<in> set ps. length (mcv_Password p) = MAX_PASSWORD_LEN \<and> unat (mcv_Len p) \<le> MAX_PASSWORD_LEN)"

lemma wf_item: "wf_items ps \<Longrightarrow> k < 4 \<Longrightarrow> length (mcv_Password (ps ! k)) = 8 \<and> unat (mcv_Len (ps ! k)) \<le> 8"
  by (simp add: wf_items_def)

lemma blocks_nth:
  assumes "\<forall>x \<in> set xs. length x = n" and "k < length xs" and "i < n"
  shows "concat xs ! (n * k + i) = xs ! k ! i"
  using assms
proof (induction xs arbitrary: k)
  case (Cons x xs)
  then show ?case
    by (cases k) (auto simp: nth_append)
qed simp

lemma info_nth:
  assumes "wf_items (mtv_Password i)"
  shows "length (info_bytes i) = 52" "k < 4 \<Longrightarrow> j < 12 \<Longrightarrow> info_bytes i ! (3 + 12 * k + j) = password_bytes (mtv_Password i ! k) ! j"
proof -
  let ?c = "concat (map password_bytes (mtv_Password i))"
  have b: "\<forall>x \<in> set (map password_bytes (mtv_Password i)). length x = 12" "length (mtv_Password i) = 4"
    using assms by (auto simp: wf_items_def password_bytes_def)
  have "length (concat xs) = n * length xs" if "\<forall>x \<in> set xs. length x = n" for xs :: "u8 list list" and n
    using that by (induction xs) auto
  from this [OF b(1)] have l: "length ?c = 48"
    using b(2) by simp
  then show "length (info_bytes i) = 52"
    by (simp add: info_bytes_def)
  assume k: "k < 4" "j < 12"
  then have "12 * k + j < 48"
    by linarith
  then have "info_bytes i ! (3 + 12 * k + j) = ?c ! (12 * k + j)"
    using l by (simp add: info_bytes_def nth_append nth_Cons' numeral_eq_Suc)
  then show "info_bytes i ! (3 + 12 * k + j) = password_bytes (mtv_Password i ! k) ! j"
    using blocks_nth [OF b(1), of k j] k b(2) by simp
qed

lemma copy_password_ok: "j + n \<le> length src \<Longrightarrow> j + n \<le> length dst \<Longrightarrow>
    copy_password n j src dst = Some (take j dst @ take n (drop j src) @ drop (j + n) dst)"
proof (induction n arbitrary: j dst)
  case (Suc n)
  then have "copy_password (Suc n) j src dst = copy_password n (j + 1) src (dst[j := src ! j])"
    by (simp add: mem_simps)
  also have "\<dots> = Some (take (j + 1) (dst[j := src ! j]) @ take n (drop (j + 1) src) @ drop (j + 1 + n) (dst[j := src ! j]))"
    using Suc by (intro Suc.IH) simp_all
  also have "take (j + 1) (dst[j := src ! j]) = take j dst @ [src ! j]"
    using Suc.prems by (simp add: take_Suc_conv_app_nth)
  finally show ?case
    using Suc.prems by (simp add: Cons_nth_drop_Suc [symmetric])
qed simp

text \<open>What is copied of an item, into the zeros of a new structure.\<close>

definition reloaded :: "plc_password_st \<Rightarrow> plc_password_st \<Rightarrow> plc_password_st" where
  "reloaded p q = q\<lparr>mcv_IsEnable := mcv_IsEnable p, mcv_Len := mcv_Len p,
     mcv_Password := take (unat (mcv_Len p)) (mcv_Password p) @ drop (unat (mcv_Len p)) (mcv_Password q)\<rparr>"

lemma read_items_ok:
  assumes "wf_items (mtv_Password i)" and "\<forall>x < 52. f (a + x) = info_bytes i ! x"
    and "n + k = 4" and "length qs = 4" and "\<forall>q \<in> set qs. length (mcv_Password q) = 8"
  shows "read_items f a n k qs = Some (take k qs @ map2 reloaded (drop k (mtv_Password i)) (drop k qs))"
  using assms(3-5)
proof (induction n arbitrary: k qs)
  case 0
  then show ?case
    by simp
next
  case (Suc n)
  let ?p = "mtv_Password i ! k" and ?q = "qs ! k"
  have k: "k < 4" "k < length qs"
    using Suc.prems by linarith+
  have lens: "length (mcv_Password ?p) = 8" "unat (mcv_Len ?p) \<le> 8" "length (mcv_Password ?q) = 8" "length (mtv_Password i) = 4"
    using wf_item [OF assms(1) k(1)] Suc.prems(3) k(2) assms(1) by (auto simp: wf_items_def)
  have f: "f (a + 3 + 12 * k + j) = password_bytes ?p ! j" if "j < 12" for j
  proof -
    have "3 + 12 * k + j < 52"
      using that k(1) by linarith
    then show ?thesis
      using assms(2) [rule_format, of "3 + 12 * k + j"] info_nth(2) [OF assms(1) k(1) that] by (simp add: add.assoc)
  qed
  have h: "f (a + 3 + 12 * k) = mcv_IsEnable ?p" "f (a + 3 + 12 * k + 3) = mcv_Len ?p"
    using f [of 0] f [of 3] by (simp_all add: password_bytes_def)
  have "flash_bytes f (a + 3 + 12 * k + 4) (unat (mcv_Len ?p)) = take (unat (mcv_Len ?p)) (mcv_Password ?p)"
  proof (rule nth_equalityI)
    fix j
    assume "j < length (flash_bytes f (a + 3 + 12 * k + 4) (unat (mcv_Len ?p)))"
    then have j: "j < unat (mcv_Len ?p)"
      by (simp add: flash_bytes_def)
    then show "flash_bytes f (a + 3 + 12 * k + 4) (unat (mcv_Len ?p)) ! j = take (unat (mcv_Len ?p)) (mcv_Password ?p) ! j"
      using f [of "4 + j"] lens(2) by (simp add: flash_bytes_def password_bytes_def add.assoc)
  qed (use lens in \<open>simp add: flash_bytes_def\<close>)
  then have w: "copy_password (unat (mcv_Len ?p)) 0 (flash_bytes f (a + 3 + 12 * k + 4) (unat (mcv_Len ?p))) (mcv_Password ?q) =
      Some (take (unat (mcv_Len ?p)) (mcv_Password ?p) @ drop (unat (mcv_Len ?p)) (mcv_Password ?q))"
    using lens by (simp add: copy_password_ok)
  have "read_items f a (Suc n) k qs = read_items f a n (k + 1) (qs[k := reloaded ?p ?q])"
    using w h k(2) by (simp add: Let_def mem_simps reloaded_def)
  also have "\<dots> = Some (take (k + 1) (qs[k := reloaded ?p ?q]) @ map2 reloaded (drop (k + 1) (mtv_Password i)) (drop (k + 1) (qs[k := reloaded ?p ?q])))"
    using Suc.prems lens k by (intro Suc.IH) (auto simp: reloaded_def dest!: set_update_subset_insert [THEN subsetD])
  also have "take (k + 1) (qs[k := reloaded ?p ?q]) = take k qs @ [reloaded ?p ?q]"
    using k(2) by (simp add: take_Suc_conv_app_nth)
  finally show ?case
    using k lens(4) by (simp add: Cons_nth_drop_Suc [symmetric])
qed

text \<open>A chip whose operations succeed.\<close>

definition never_fails :: "flash_drv \<Rightarrow> bool" where
  "never_fails d \<longleftrightarrow> (\<forall>a f. fst (mflash_drv_erase_sector d a f)) \<and> (\<forall>a bs f. fst (mflash_drv_write_page_bytes d a bs f))"

lemma never_failsD:
  "never_fails d \<Longrightarrow> \<exists>f'. mflash_drv_erase_sector d a f = (True, f')" "never_fails d \<Longrightarrow> \<exists>f'. mflash_drv_write_page_bytes d a bs f = (True, f')"
  by (metis never_fails_def prod.collapse)+

lemma crc32_defined: "\<exists>c. calc_crc32 bs = Some c"
  by (simp add: calc_crc32_def crc32_loop_eq)

lemma with_crc_defined: "\<exists>c. with_crc i = Some (i\<lparr>mlv_Crc := c\<rparr>)"
  using crc32_defined [of "info_bytes i"] by (auto simp: with_crc_def)

lemma pw_part: "bsp_get_flash_info USER_PASSWORD_START_FLASH_PAGE = Some \<lparr>startAddr = 0x60200000, endAddr = 0x60200FFF\<rparr>"
  by (simp add: bsp_get_flash_info_def flash_page_info_def rd_def)

text \<open>What the flash holds after the structure has been saved.\<close>

lemma save_info_stored:
  assumes "drv_ok d" and "never_fails d" and "gtp_PasswordInfo s = Some i" and "wf_items (mtv_Password i)"
  shows "\<exists>c s'. calc_crc32 (info_bytes i) = Some c \<and> save_info d s = Some (True, s') \<and> gtp_PasswordInfo s' = Some (i\<lparr>mlv_Crc := c\<rparr>) \<and>
    (\<forall>x < 56. pw_flash s' (0x200000 + x) = struct_bytes (i\<lparr>mlv_Crc := c\<rparr>) ! x)"
proof -
  obtain c where c: "calc_crc32 (info_bytes i) = Some c"
    using crc32_defined by blast
  let ?i = "i\<lparr>mlv_Crc := c\<rparr>"
  have l: "length (struct_bytes ?i) = 56"
    using info_nth(1) [of ?i] assms(4) by (simp add: struct_bytes_def)
  then have ne: "struct_bytes ?i \<noteq> []"
    by (metis length_0_conv zero_neq_numeral)
  obtain f1 where f1: "bsp_flash_erase_partition d 0x60200000 0x1000 (pw_flash s) = (MEM_OK, f1)"
    using never_failsD(1) [OF assms(2), of "0x200000" "pw_flash s"]
    by (auto simp: bsp_flash_erase_partition_def erase_loop.simps [of d _ _ 0] split: prod.split_asm)
  obtain f2 where f2: "bsp_flash_write_buffer d 0x60200000 (struct_bytes ?i) f1 = (MEM_OK, f2)"
    using never_failsD(2) [OF assms(2), of "0x200000" "struct_bytes ?i" f1] l by (auto simp: bsp_flash_write_buffer_def)
  have "save_info d s = Some (True, s\<lparr>gtp_PasswordInfo := Some ?i, pw_flash := f2\<rparr>)"
    using assms(3) c f1 f2 by (simp add: save_info_def with_crc_def pw_part Let_def)
  moreover have "\<forall>x < 56. f2 (0x200000 + x) = struct_bytes ?i ! x"
    using flash_write_read [OF assms(1) refl _ _ _ ne _ f1 f2] l by simp
  ultimately show ?thesis
    using c by auto
qed

lemma half_bytes: "bytes_u16 (ucast (w :: u32)) (ucast (drop_bit 8 w)) = ucast w"
  by (rule bit_word_eqI) (auto simp: bytes_u16_def bit_simps)

lemma crc_bytes: "GET_PU32_DATA (bs @ map (\<lambda>k. ucast (drop_bit (8 * k) c)) [0, 1, 2, 3]) (length bs) = Some c"
proof -
  have "bytes_u16 (ucast (drop_bit 16 c)) (ucast (drop_bit 24 c)) = ucast (drop_bit 16 c)"
    using half_bytes [of "drop_bit 16 c"] by simp
  moreover have "words_u32 (ucast c) (ucast (drop_bit 16 c)) = c"
    unfolding words_u32_def by (subst disjunctive_add) (auto simp: bit_simps intro!: bit_word_eqI)
  ultimately show ?thesis
    using half_bytes [of c] by (simp add: GET_PU32_DATA_def GET_PU16_DATA_def mem_simps nth_append)
qed

lemma reload:
  assumes "\<forall>x < 56. pw_flash s (0x200000 + x) = struct_bytes (i\<lparr>mlv_Crc := c\<rparr>) ! x" and "calc_crc32 (info_bytes i) = Some c" and "wf_items (mtv_Password i)"
    and "msv_Head i = 0xAA55" and "gtp_PasswordInfo s = Some j" and "length (mtv_Password j) = 4" and "\<forall>q \<in> set (mtv_Password j). length (mcv_Password q) = 8"
  shows "plc_read_password_info s =
    Some (s\<lparr>gtp_PasswordInfo := Some (j\<lparr>mcv_UploadForbid := mcv_UploadForbid i, mtv_Password := map2 reloaded (mtv_Password i) (mtv_Password j), mlv_Crc := c\<rparr>)\<rparr>)"
proof -
  let ?f = "pw_flash s" and ?i = "i\<lparr>mlv_Crc := c\<rparr>"
  have b: "info_bytes ?i = info_bytes i" "length (info_bytes i) = 52"
    using info_nth(1) [OF assms(3)] by (simp_all add: info_bytes_def)
  have l: "length (struct_bytes ?i) = 56"
    using b by (simp add: struct_bytes_def)
  have s56: "flash_bytes ?f 0x200000 56 = struct_bytes ?i"
    using assms(1) l by (intro nth_equalityI) (simp_all add: flash_bytes_def)
  have s52: "flash_bytes ?f 0x200000 52 = info_bytes i"
    using assms(1) b by (intro nth_equalityI) (simp_all add: flash_bytes_def struct_bytes_def nth_append)
  have h: "GET_PU16_DATA (struct_bytes ?i) 0 = Some 0xAA55" "?f (0x200000 + 2) = mcv_UploadForbid i"
    using assms(1) [rule_format, of 2] assms(4) by (simp_all add: struct_bytes_def info_bytes_def GET_PU16_DATA_def rd_def bytes_u16_def)
  have c: "GET_PU32_DATA (struct_bytes ?i) 52 = Some c"
    using crc_bytes [of "info_bytes i" c] b by (simp add: struct_bytes_def)
  have "\<forall>x < 52. ?f (0x200000 + x) = info_bytes i ! x"
    using assms(1) b by (simp add: struct_bytes_def nth_append)
  then have "read_items ?f 0x200000 4 0 (mtv_Password j) = Some (map2 reloaded (mtv_Password i) (mtv_Password j))"
    using read_items_ok [OF assms(3), of ?f "0x200000" 4 0 "mtv_Password j"] assms(6,7) by simp
  then show ?thesis
    unfolding plc_read_password_info_def pw_part using h(2) by (simp add: s56 s52 h(1) c assms(2,5))
qed

text \<open>A change leaves a structure \<open>i0\<close> in memory and in the flash.\<close>

lemma update_stores:
  assumes "drv_ok d" and "never_fails d" and "gtp_PasswordInfo s = Some i" and "wf_items (mtv_Password i)" and "n < 4" and "unat len \<le> 8" and "unat len \<le> length new"
  shows "\<exists>i0 c s1. plc_update_password_info d n new len s = Some (True, s1) \<and> gtp_PasswordInfo s1 = Some (i0\<lparr>mlv_Crc := c\<rparr>) \<and>
    calc_crc32 (info_bytes i0) = Some c \<and> (\<forall>x < 56. pw_flash s1 (0x200000 + x) = struct_bytes (i0\<lparr>mlv_Crc := c\<rparr>) ! x) \<and> wf_items (mtv_Password i0) \<and>
    msv_Head i0 = msv_Head i \<and> mcv_UploadForbid i0 = mcv_UploadForbid i \<and> mcv_Len (mtv_Password i0 ! unat n) = len \<and>
    take (unat len) (mcv_Password (mtv_Password i0 ! unat n)) = take (unat len) new"
proof -
  let ?p = "mtv_Password i ! unat n"
  have n: "unat n < 4" "length (mtv_Password i) = 4"
    using assms(4,5) by (simp_all add: wf_items_def word_less_nat_alt)
  note l = wf_item [OF assms(4) n(1)]
  define w where "w = take (unat len) new @ drop (unat len) (mcv_Password ?p)"
  have w: "copy_password (unat len) 0 new (mcv_Password ?p) = Some w" "length w = 8" "take (unat len) w = take (unat len) new"
    using l assms(6,7) by (simp_all add: copy_password_ok w_def)
  obtain v where v: "GET_PU32_DATA w 0 = Some v"
    using w(2) by (simp add: GET_PU32_DATA_def GET_PU16_DATA_def mem_simps)
  define p' where "p' = ?p\<lparr>mcv_Len := len, mcv_Password := w, mlv_CheckTime := ucast (pw_ticks s), mcv_IsEnable := (if v = 0 then 0 else 1), mcv_CheckPass := 0\<rparr>"
  define i0 where "i0 = i\<lparr>mtv_Password := (mtv_Password i)[unat n := p']\<rparr>"
  have i0: "wf_items (mtv_Password i0)" "mtv_Password i0 ! unat n = p'"
    using assms(4,6) w(2) n by (auto simp: i0_def wf_items_def p'_def dest!: set_update_subset_insert [THEN subsetD])
  obtain c s1 where s1: "calc_crc32 (info_bytes i0) = Some c" "save_info d (s\<lparr>gtp_PasswordInfo := Some i0\<rparr>) = Some (True, s1)"
    "gtp_PasswordInfo s1 = Some (i0\<lparr>mlv_Crc := c\<rparr>)" "\<forall>x < 56. pw_flash s1 (0x200000 + x) = struct_bytes (i0\<lparr>mlv_Crc := c\<rparr>) ! x"
    using save_info_stored [OF assms(1,2) _ i0(1), of "s\<lparr>gtp_PasswordInfo := Some i0\<rparr>"] by auto
  have "plc_update_password_info d n new len s = Some (True, s1)"
    using assms(3) n w v s1(2) by (simp add: plc_update_password_info_def pw_item_def put_item_def mem_simps p'_def i0_def)
  moreover have "msv_Head i0 = msv_Head i" "mcv_UploadForbid i0 = mcv_UploadForbid i" "mcv_Len p' = len" "take (unat len) (mcv_Password p') = take (unat len) new"
    using w(3) by (simp_all add: i0_def p'_def)
  ultimately show ?thesis
    using s1(1,3,4) i0 by blast
qed

text \<open>The structure of a new start, and loading into it.\<close>

lemma restart_loads:
  assumes "\<forall>x < 56. pw_flash s (0x200000 + x) = struct_bytes (i0\<lparr>mlv_Crc := c\<rparr>) ! x" and "calc_crc32 (info_bytes i0) = Some c"
    and "wf_items (mtv_Password i0)" and "msv_Head i0 = 0xAA55"
  shows "\<exists>s2 s3 i3. plc_password_init (s\<lparr>gtp_PasswordInfo := None, pw_ticks := t, heap_byte := b\<rparr>) = Some s2 \<and> plc_read_password_info s2 = Some s3 \<and>
    gtp_PasswordInfo s3 = Some i3 \<and> mcv_UploadForbid i3 = mcv_UploadForbid i0 \<and>
    (\<forall>k < 4. mtv_Password i3 ! k = reloaded (mtv_Password i0 ! k)
       \<lparr>mcv_IsEnable = 0, mcv_CheckPass = 0, mlv_CheckTime = ucast t, mcv_Len = 8, mcv_Password = replicate 8 0\<rparr>)"
proof -
  let ?q = "\<lparr>mcv_IsEnable = 0, mcv_CheckPass = 0, mlv_CheckTime = ucast t, mcv_Len = 8, mcv_Password = replicate 8 0\<rparr>"
  let ?j = "\<lparr>msv_Head = 0xAA55, mcv_UploadForbid = 0, mtv_Password = replicate 4 ?q, mcv_Padding = b, mlv_Crc = 0\<rparr>"
  obtain c2 where c2: "with_crc ?j = Some (?j\<lparr>mlv_Crc := c2\<rparr>)"
    using with_crc_defined [of ?j] by (elim exE)
  define j where "j = ?j\<lparr>mlv_Crc := c2\<rparr>"
  define s2 where "s2 = s\<lparr>gtp_PasswordInfo := Some j, pw_ticks := t, heap_byte := b\<rparr>"
  have "plc_password_init (s\<lparr>gtp_PasswordInfo := None, pw_ticks := t, heap_byte := b\<rparr>) = Some s2"
    using c2 by (simp add: plc_password_init_def s2_def j_def)
  moreover have "plc_read_password_info s2 =
      Some (s2\<lparr>gtp_PasswordInfo := Some (j\<lparr>mcv_UploadForbid := mcv_UploadForbid i0, mtv_Password := map2 reloaded (mtv_Password i0) (mtv_Password j), mlv_Crc := c\<rparr>)\<rparr>)"
    using assms(1) by (intro reload [OF _ assms(2-4)]) (simp_all add: s2_def j_def)
  moreover have "map2 reloaded (mtv_Password i0) (mtv_Password j) ! k = reloaded (mtv_Password i0 ! k) ?q" if "k < 4" for k
    using that assms(3) by (simp add: j_def wf_items_def)
  ultimately show ?thesis
    by auto
qed

lemma reloaded_same:
  assumes "wf_items ps" and "k < 4" and "q = reloaded (ps ! k) \<lparr>mcv_IsEnable = 0, mcv_CheckPass = 0, mlv_CheckTime = t, mcv_Len = 8, mcv_Password = replicate 8 0\<rparr>"
  shows "mcv_IsEnable q = mcv_IsEnable (ps ! k)" "mcv_Len q = mcv_Len (ps ! k)" "mcv_CheckPass q = 0"
    "take (unat (mcv_Len (ps ! k))) (mcv_Password q) = take (unat (mcv_Len (ps ! k))) (mcv_Password (ps ! k))"
  using wf_item [OF assms(1,2)] assms(3) by (simp_all add: reloaded_def)

text \<open>A changed password survives a restart.  With a flash chip that works, after a change of one of the four passwords, a
  restart of the controller and loading from flash, every password is enabled or not as before and has the same length and bytes, the upload flag is the
  same, and no check counts any more; the changed one has the length and bytes that were given.\<close>

theorem password_survives_restart:
  assumes "drv_ok d" and "never_fails d" and "gtp_PasswordInfo s = Some i" and "wf_items (mtv_Password i)" and "msv_Head i = 0xAA55"
    and "n < 4" and "unat len \<le> 8" and "unat len \<le> length new"
  shows "\<exists>s1 i1 s2 s3 i3. plc_update_password_info d n new len s = Some (True, s1) \<and> gtp_PasswordInfo s1 = Some i1 \<and>
    plc_password_init (s1\<lparr>gtp_PasswordInfo := None, pw_ticks := t, heap_byte := b\<rparr>) = Some s2 \<and> plc_read_password_info s2 = Some s3 \<and>
    gtp_PasswordInfo s3 = Some i3 \<and> mcv_UploadForbid i3 = mcv_UploadForbid i \<and>
    (\<forall>k < 4. mcv_IsEnable (mtv_Password i3 ! k) = mcv_IsEnable (mtv_Password i1 ! k) \<and> mcv_Len (mtv_Password i3 ! k) = mcv_Len (mtv_Password i1 ! k) \<and>
       take (unat (mcv_Len (mtv_Password i1 ! k))) (mcv_Password (mtv_Password i3 ! k)) = take (unat (mcv_Len (mtv_Password i1 ! k))) (mcv_Password (mtv_Password i1 ! k)) \<and>
       mcv_CheckPass (mtv_Password i3 ! k) = 0) \<and>
    mcv_Len (mtv_Password i3 ! unat n) = len \<and> take (unat len) (mcv_Password (mtv_Password i3 ! unat n)) = take (unat len) new"
proof -
  obtain i0 c s1 where s1: "plc_update_password_info d n new len s = Some (True, s1)" "gtp_PasswordInfo s1 = Some (i0\<lparr>mlv_Crc := c\<rparr>)"
    "calc_crc32 (info_bytes i0) = Some c" "\<forall>x < 56. pw_flash s1 (0x200000 + x) = struct_bytes (i0\<lparr>mlv_Crc := c\<rparr>) ! x" "wf_items (mtv_Password i0)"
    "msv_Head i0 = 0xAA55" "mcv_UploadForbid i0 = mcv_UploadForbid i" "mcv_Len (mtv_Password i0 ! unat n) = len"
    "take (unat len) (mcv_Password (mtv_Password i0 ! unat n)) = take (unat len) new"
    using update_stores [OF assms(1-4,6-8)] assms(5) by metis
  obtain s2 s3 i3 where s3: "plc_password_init (s1\<lparr>gtp_PasswordInfo := None, pw_ticks := t, heap_byte := b\<rparr>) = Some s2" "plc_read_password_info s2 = Some s3"
    "gtp_PasswordInfo s3 = Some i3" "mcv_UploadForbid i3 = mcv_UploadForbid i0"
    "\<And>k. k < 4 \<Longrightarrow> mtv_Password i3 ! k = reloaded (mtv_Password i0 ! k)
       \<lparr>mcv_IsEnable = 0, mcv_CheckPass = 0, mlv_CheckTime = ucast t, mcv_Len = 8, mcv_Password = replicate 8 0\<rparr>"
    using restart_loads [OF s1(4,3,5,6)] by metis
  note r = reloaded_same [OF s1(5) _ s3(5)]
  have n: "unat n < 4"
    using assms(6) by (simp add: word_less_nat_alt)
  have "mcv_Len (mtv_Password i3 ! unat n) = len" "take (unat len) (mcv_Password (mtv_Password i3 ! unat n)) = take (unat len) new"
    using r(2,4) [OF n n] s1(8,9) by simp_all
  then show ?thesis
    using s1(1,2,7) s3(1-4) r by (intro exI [of _ s1] exI [of _ "i0\<lparr>mlv_Crc := c\<rparr>"] exI [of _ s2] exI [of _ s3] exI [of _ i3]) simp
qed

lemma nor_drv_never_fails: "never_fails nor_drv"
  by (simp add: never_fails_def nor_drv_def)

theorem password_survives_restart_witness:
  "\<exists>s1 s2 s3 i3. plc_update_password_info nor_drv 1 [9, 8, 7, 6] 4 pw_start = Some (True, s1) \<and>
    plc_password_init (s1\<lparr>gtp_PasswordInfo := None, pw_ticks := 0, heap_byte := 7\<rparr>) = Some s2 \<and> plc_read_password_info s2 = Some s3 \<and>
    gtp_PasswordInfo s3 = Some i3 \<and> mcv_Len (mtv_Password i3 ! 1) = 4 \<and> take 4 (mcv_Password (mtv_Password i3 ! 1)) = [9, 8, 7, 6]"
proof -
  obtain i where i: "gtp_PasswordInfo pw_start = Some i" "wf_items (mtv_Password i)" "msv_Head i = 0xAA55"
    by (simp add: pw_start_def wf_items_def)
  from password_survives_restart [OF nor_drv_ok nor_drv_never_fails i, of 1 4 "[9, 8, 7, 6]" 7 0] show ?thesis
    by auto
qed

end
