(* ===== verification/PLC_Force.thy ===== *)
theory PLC_Force
  imports PLC_Modbus
begin

text \<open>
  Forced elements: the requests of \<open>source/protocol/modbus/src/mb_ctrl.c\<close> that force elements and release them, the lists uploaded by
  \<open>mb_upload.c\<close>, and \<open>plc_refresh_force_element_value\<close> of \<open>plc_internalmanage.c\<close>, which writes the forced values
  into the elements after every scan; also the outputs of a stopped controller.
\<close>

section \<open>Lists\<close>

record mb_monitor_element_t =
  mon_ElementType :: u8
  mon_ElementAddr :: u16
  mon_ModbusAddr :: u16
  mon_ElementValue :: u16

text \<open>The linked list and the separate count of its entries.\<close>

record mb_monitor_element_head_t =
  mon_head :: "mb_monitor_element_t list"
  lsv_ListLen :: u16

record force_st =
  force_mb :: mb_st
  gtv_ForceBits :: mb_monitor_element_head_t
  gtv_ForceWords :: mb_monitor_element_head_t

definition list_add_tail :: "mb_monitor_element_t \<Rightarrow> mb_monitor_element_head_t \<Rightarrow> mb_monitor_element_head_t" where
  "list_add_tail x h = h\<lparr>mon_head := mon_head h @ [x], lsv_ListLen := lsv_ListLen h + 1\<rparr>"

section \<open>Forcing and releasing\<close>

text \<open>Bits have three bytes in a request, address and value, words four; \<open>val\<close> reads the value.\<close>

definition bit_value :: "u8 list \<Rightarrow> nat \<Rightarrow> u16 option" where
  "bit_value q p = map_option ucast (GET_PU8_DATA q p)"

text \<open>The search for an entry with the same address, whose value is replaced.\<close>

fun replace_value :: "u16 \<Rightarrow> u16 \<Rightarrow> mb_monitor_element_t list \<Rightarrow> mb_monitor_element_t list option" where
  "replace_value a v [] = None"
| "replace_value a v (x # xs) =
     (if mon_ModbusAddr x = a then Some (x\<lparr>mon_ElementValue := v\<rparr> # xs) else map_option ((#) x) (replace_value a v xs))"

definition new_entry :: "u8 \<Rightarrow> u16 \<Rightarrow> mb_monitor_element_t option" where
  "new_entry ty a =
     map_option (\<lambda>(t, e). \<lparr>mon_ElementType = t, mon_ElementAddr = e, mon_ModbusAddr = a, mon_ElementValue = 0\<rparr>) (mb_slave_convert_element_info ty a)"

text \<open>The loop for a list with entries and the one for an empty list; \<open>False\<close> stands for the answer with an error, \<open>k\<close> is the number of bytes
  of an element, \<open>p\<close> the place of the next one.\<close>

fun force_update :: "u8 \<Rightarrow> (u8 list \<Rightarrow> nat \<Rightarrow> u16 option) \<Rightarrow> nat \<Rightarrow> nat \<Rightarrow> nat \<Rightarrow> u8 list \<Rightarrow> mb_monitor_element_head_t \<Rightarrow> (bool \<times> mb_monitor_element_head_t) option" where
  "force_update ty val k 0 p q h = Some (True, h)"
| "force_update ty val k (Suc n) p q h =
     do { a \<leftarrow> GET_BIGPU16_DATA q p;
          v \<leftarrow> val q (p + 2);
          case replace_value a v (mon_head h) of
            Some xs \<Rightarrow> force_update ty val k n (p + k) q (h\<lparr>mon_head := xs\<rparr>)
          | None \<Rightarrow>
              (case new_entry ty a of
                 None \<Rightarrow> Some (False, h)
               | Some x \<Rightarrow> force_update ty val k n (p + k) q (list_add_tail (x\<lparr>mon_ElementValue := v\<rparr>) h)) }"

fun force_insert :: "u8 \<Rightarrow> (u8 list \<Rightarrow> nat \<Rightarrow> u16 option) \<Rightarrow> nat \<Rightarrow> nat \<Rightarrow> nat \<Rightarrow> u8 list \<Rightarrow> mb_monitor_element_head_t \<Rightarrow> (bool \<times> mb_monitor_element_head_t) option" where
  "force_insert ty val k 0 p q h = Some (True, h)"
| "force_insert ty val k (Suc n) p q h =
     do { a \<leftarrow> GET_BIGPU16_DATA q p;
          case new_entry ty a of
            None \<Rightarrow> Some (False, h)
          | Some x \<Rightarrow> do { v \<leftarrow> val q (p + 2); force_insert ty val k n (p + k) q (list_add_tail (x\<lparr>mon_ElementValue := v\<rparr>) h) } }"

definition force_elements :: "u8 \<Rightarrow> (u8 list \<Rightarrow> nat \<Rightarrow> u16 option) \<Rightarrow> nat \<Rightarrow> mb_st \<Rightarrow> mb_monitor_element_head_t \<Rightarrow>
    (mb_st \<times> mb_monitor_element_head_t) option" where
  "force_elements ty val k m h =
     do { n \<leftarrow> rd (recv m) 3;
          (ok, h') \<leftarrow> (if 0 < lsv_ListLen h then force_update ty val k (unat n) 4 (recv m) h else force_insert ty val k (unat n) 4 (recv m) h);
          m' \<leftarrow> (if ok then Some m else mb_fail MB_ILIEGAL_DATA m);
          Some (m', h') }"

definition mb_slave_ctrl_force_bits :: "force_st \<Rightarrow> force_st option" where
  "mb_slave_ctrl_force_bits s =
     do { (m, h) \<leftarrow> force_elements MB_BIT_ELEMENT bit_value 3 (force_mb s) (gtv_ForceBits s); Some (s\<lparr>force_mb := m, gtv_ForceBits := h\<rparr>) }"

definition mb_slave_ctrl_force_words :: "force_st \<Rightarrow> force_st option" where
  "mb_slave_ctrl_force_words s =
     do { (m, h) \<leftarrow> force_elements MB_WORD_ELEMENT GET_BIGPU16_DATA 4 (force_mb s) (gtv_ForceWords s); Some (s\<lparr>force_mb := m, gtv_ForceWords := h\<rparr>) }"

text \<open>The first entry with an address is removed.\<close>

fun remove_entry :: "u16 \<Rightarrow> mb_monitor_element_t list \<Rightarrow> mb_monitor_element_t list option" where
  "remove_entry a [] = None"
| "remove_entry a (x # xs) = (if mon_ModbusAddr x = a then Some xs else map_option ((#) x) (remove_entry a xs))"

fun unforce_loop :: "nat \<Rightarrow> nat \<Rightarrow> u8 list \<Rightarrow> mb_monitor_element_head_t \<Rightarrow> mb_monitor_element_head_t option" where
  "unforce_loop 0 p q h = Some h"
| "unforce_loop (Suc n) p q h =
     do { a \<leftarrow> GET_BIGPU16_DATA q p;
          unforce_loop n (p + 2) q
            (case remove_entry a (mon_head h) of None \<Rightarrow> h | Some xs \<Rightarrow> h\<lparr>mon_head := xs, lsv_ListLen := lsv_ListLen h - 1\<rparr>) }"

definition unforce_elements :: "mb_st \<Rightarrow> mb_monitor_element_head_t \<Rightarrow> mb_monitor_element_head_t option" where
  "unforce_elements m h =
     do { n \<leftarrow> rd (recv m) 3;
          h' \<leftarrow> (if 0 < lsv_ListLen h then unforce_loop (unat n) 4 (recv m) h else Some h);
          Some (if lsv_ListLen h' = 0 then h'\<lparr>mon_head := []\<rparr> else h') }"

definition mb_slave_ctrl_unforce_bits :: "force_st \<Rightarrow> force_st option" where
  "mb_slave_ctrl_unforce_bits s = do { h \<leftarrow> unforce_elements (force_mb s) (gtv_ForceBits s); Some (s\<lparr>gtv_ForceBits := h\<rparr>) }"

definition mb_slave_ctrl_unforce_words :: "force_st \<Rightarrow> force_st option" where
  "mb_slave_ctrl_unforce_words s = do { h \<leftarrow> unforce_elements (force_mb s) (gtv_ForceWords s); Some (s\<lparr>gtv_ForceWords := h\<rparr>) }"

definition mb_slave_ctrl_unforce_all :: "force_st \<Rightarrow> force_st" where
  "mb_slave_ctrl_unforce_all s =
     s\<lparr>gtv_ForceBits := (gtv_ForceBits s)\<lparr>mon_head := [], lsv_ListLen := 0\<rparr>, gtv_ForceWords := (gtv_ForceWords s)\<lparr>mon_head := [], lsv_ListLen := 0\<rparr>\<rparr>"

section \<open>Uploading the lists\<close>

text \<open>At most 250 entries are written from \<open>RespBuff[5]\<close> on; \<open>enc\<close> gives the bytes of a value, \<open>c\<close> counts in eight bits.\<close>

fun put_bytes :: "u8 list \<Rightarrow> nat \<Rightarrow> u8 list \<Rightarrow> u8 list option" where
  "put_bytes [] p b = Some b"
| "put_bytes (x # xs) p b = do { b' \<leftarrow> wr b p x; put_bytes xs (p + 1) b' }"

fun upload_loop :: "(u16 \<Rightarrow> u8 list) \<Rightarrow> mb_monitor_element_t list \<Rightarrow> nat \<Rightarrow> u8 \<Rightarrow> u8 list \<Rightarrow> (nat \<times> u8 \<times> u8 list) option" where
  "upload_loop enc [] i c b = Some (i, c, b)"
| "upload_loop enc (x # xs) i c b =
     (let bs = be16 (mon_ModbusAddr x) @ enc (mon_ElementValue x) in
      do { b' \<leftarrow> put_bytes bs (5 + i) b;
           if 250 \<le> c + 1 then Some (i + length bs, c + 1, b') else upload_loop enc xs (i + length bs) (c + 1) b' })"

definition upload_force :: "(u16 \<Rightarrow> u8 list) \<Rightarrow> mb_monitor_element_head_t \<Rightarrow> mb_fun" where
  "upload_force enc h m =
     do { (i, c, b) \<leftarrow> (if 0 < lsv_ListLen h then upload_loop enc (mon_head h) 0 0 (resp m) else Some (0, 0, resp m));
          b1 \<leftarrow> copy_req 0 3 (recv m) b;
          b2 \<leftarrow> wr b1 3 0xFE;
          b3 \<leftarrow> wr b2 4 c;
          mb_slave_verify_resp_msg (put_len (of_nat (5 + i)) (put_resp b3 m)) }"

definition mb_slave_upload_force_bits :: "force_st \<Rightarrow> force_st option" where
  "mb_slave_upload_force_bits s = do { m \<leftarrow> upload_force (\<lambda>v. [ucast v]) (gtv_ForceBits s) (force_mb s); Some (s\<lparr>force_mb := m\<rparr>) }"

definition mb_slave_upload_force_words :: "force_st \<Rightarrow> force_st option" where
  "mb_slave_upload_force_words s = do { m \<leftarrow> upload_force be16 (gtv_ForceWords s) (force_mb s); Some (s\<lparr>force_mb := m\<rparr>) }"

section \<open>Writing the forced values\<close>

definition force_bit :: "mb_monitor_element_t \<Rightarrow> plc_state \<Rightarrow> plc_state option" where
  "force_bit x s =
     (case mb_bit_area (mon_ElementType x) of
        Some a \<Rightarrow> set_bit_elem a s (mon_ElementAddr x) (ucast (mon_ElementValue x))
      | None \<Rightarrow> Some s)"

fun refresh_bits :: "mb_monitor_element_t list \<Rightarrow> plc_state \<Rightarrow> plc_state option" where
  "refresh_bits [] s = Some s"
| "refresh_bits (x # xs) s = do { s' \<leftarrow> force_bit x s; refresh_bits xs s' }"

text \<open>A 32-bit counter takes its high half from the next entry.  Without a next entry the code takes the head of the list for one; when the next entry
  is not a counter, the first is ignored.\<close>

fun refresh_words :: "mb_monitor_element_t list \<Rightarrow> plc_state \<Rightarrow> plc_state option" where
  "refresh_words [] s = Some s"
| "refresh_words (x # xs) s =
     (case mb_word_area (mon_ElementType x) of
        Some a \<Rightarrow> do { s' \<leftarrow> set_word_elem a s (mon_ElementAddr x) (mon_ElementValue x); refresh_words xs s' }
      | None \<Rightarrow>
          if mon_ElementType x \<noteq> MB_WORD_C then refresh_words xs s
          else if mon_ElementAddr x < word_elem_rang C16_AREA s then
            do { s' \<leftarrow> set_word_elem C16_AREA s (mon_ElementAddr x) (mon_ElementValue x); refresh_words xs s' }
          else
            (case xs of
               [] \<Rightarrow> None
             | y # ys \<Rightarrow>
                 if mon_ElementType y \<noteq> MB_WORD_C then refresh_words (y # ys) s
                 else do {
                   s' \<leftarrow> set_c32_elem s (of_nat ((unat (mon_ElementAddr x) - unat (word_elem_rang C16_AREA s)) div 2 +
                            unat (c_16bitCnt (msv_CElement (gtp_PlcElementInfo s))))) (words_u32 (mon_ElementValue x) (mon_ElementValue y));
                   refresh_words ys s' }))"

definition plc_refresh_force_element_value :: "mb_monitor_element_head_t \<Rightarrow> mb_monitor_element_head_t \<Rightarrow> plc_state \<Rightarrow> plc_state option" where
  "plc_refresh_force_element_value hb hw s =
     do { s1 \<leftarrow> (if 0 < lsv_ListLen hb then refresh_bits (mon_head hb) s else Some s);
          if 0 < lsv_ListLen hw then refresh_words (mon_head hw) s1 else Some s1 }"

section \<open>Outputs of a stopped controller\<close>

record plc_run_to_stop_output_status =
  mcv_Status :: u8
  msv_OutValue :: "u16 list"

abbreviation (input) "OUTPUT_POINT_KEEP \<equiv> (0 :: u8)"
abbreviation (input) "OUTPUT_POINT_CLOSE \<equiv> (1 :: u8)"
abbreviation (input) "OUTPUT_POINT_CONFIG \<equiv> (2 :: u8)"

text \<open>The loops that write the words of Y; \<open>n\<close> words from \<open>i\<close> on, \<open>val\<close> gives the value of a word.\<close>

fun store_outputs :: "(nat \<Rightarrow> u16 option) \<Rightarrow> nat \<Rightarrow> nat \<Rightarrow> u16 list \<Rightarrow> u16 list option" where
  "store_outputs val 0 i y = Some y"
| "store_outputs val (Suc n) i y = do { v \<leftarrow> val i; y' \<leftarrow> wr y i v; store_outputs val n (i + 1) y' }"

definition put_outputs :: "(nat \<Rightarrow> u16 option) \<Rightarrow> nat \<Rightarrow> plc_state \<Rightarrow> plc_state option" where
  "put_outputs val n s =
     do { y \<leftarrow> store_outputs val n 0 (msp_YElement (gtv_PlcElement s)); Some (s\<lparr>gtv_PlcElement := (gtv_PlcElement s)\<lparr>msp_YElement := y\<rparr>\<rparr>) }"

definition plc_set_stop_status_output_port :: "plc_run_to_stop_output_status \<Rightarrow> plc_state \<Rightarrow> plc_state option" where
  "plc_set_stop_status_output_port st s =
     (if mcv_Status st = OUTPUT_POINT_CLOSE then put_outputs (\<lambda>i. Some 0) (unat (bit_elem_rang Y_ELEMENT s) div 16) s
      else if mcv_Status st = OUTPUT_POINT_CONFIG then put_outputs (rd (msv_OutValue st)) 8 s
      else Some s)"

section \<open>Counts\<close>

text \<open>The count of a list is the number of its entries, in 16 bits; every request keeps it so.\<close>

definition counted :: "mb_monitor_element_head_t \<Rightarrow> bool" where
  "counted h \<longleftrightarrow> lsv_ListLen h = of_nat (length (mon_head h))"

lemma counted_add: "counted h \<Longrightarrow> counted (list_add_tail x h)"
  by (simp add: counted_def list_add_tail_def)

lemma replace_value_length: "replace_value a v xs = Some ys \<Longrightarrow> length ys = length xs"
  by (induction xs arbitrary: ys) (auto split: if_split_asm)

lemma remove_entry_length: "remove_entry a xs = Some ys \<Longrightarrow> length xs = Suc (length ys)"
  by (induction xs arbitrary: ys) (auto split: if_split_asm)

lemma counted_update: "force_update ty val k n p q h = Some (ok, h') \<Longrightarrow> counted h \<Longrightarrow> counted h'"
proof (induction n arbitrary: p h)
  case (Suc n)
  then obtain a v where av: "GET_BIGPU16_DATA q p = Some a" "val q (p + 2) = Some v"
    by (auto simp: opt_simps)
  show ?case
  proof (cases "replace_value a v (mon_head h)")
    case None
    then show ?thesis
      using Suc.IH [of "p + k" "list_add_tail _ h", OF _ counted_add [OF Suc.prems(2)]] Suc.prems av by (cases "new_entry ty a") auto
  next
    case (Some xs)
    then have "counted (h\<lparr>mon_head := xs\<rparr>)"
      using Suc.prems(2) replace_value_length [OF Some] by (simp add: counted_def)
    then show ?thesis
      using Suc.IH [of "p + k" "h\<lparr>mon_head := xs\<rparr>"] Suc.prems(1) av Some by simp
  qed
qed simp

lemma counted_insert: "force_insert ty val k n p q h = Some (ok, h') \<Longrightarrow> counted h \<Longrightarrow> counted h'"
proof (induction n arbitrary: p h)
  case (Suc n)
  then obtain a where a: "GET_BIGPU16_DATA q p = Some a"
    by (auto simp: opt_simps)
  show ?case
  proof (cases "new_entry ty a")
    case (Some x)
    then obtain v where "force_insert ty val k n (p + k) q (list_add_tail (x\<lparr>mon_ElementValue := v\<rparr>) h) = Some (ok, h')"
      using Suc.prems(1) a by (auto simp: opt_simps)
    then show ?thesis
      by (rule Suc.IH [OF _ counted_add [OF Suc.prems(2)]])
  qed (use Suc.prems a in simp)
qed simp

lemma counted_unforce: "unforce_loop n p q h = Some h' \<Longrightarrow> counted h \<Longrightarrow> counted h'"
proof (induction n arbitrary: p h)
  case (Suc n)
  have "counted (h\<lparr>mon_head := xs, lsv_ListLen := lsv_ListLen h - 1\<rparr>)" if "remove_entry a (mon_head h) = Some xs" for a xs
    using remove_entry_length [OF that] Suc.prems(2) by (simp add: counted_def)
  then show ?case
    using Suc.IH Suc.prems by (auto simp: opt_simps split: option.split_asm)
qed simp

lemma force_counted:
  "force_elements ty val k m h = Some (m', h') \<Longrightarrow> counted h \<Longrightarrow> counted h'" "unforce_elements m h = Some h' \<Longrightarrow> length (mon_head h) < 65536 \<Longrightarrow> counted h \<Longrightarrow> counted h'"
  by (auto simp: force_elements_def unforce_elements_def opt_simps counted_def [of "_\<lparr>mon_head := []\<rparr>"] split: if_split_asm dest: counted_update counted_insert counted_unforce)

section \<open>Forced elements keep their values\<close>

definition bit_key :: "mb_monitor_element_t \<Rightarrow> bit_area option \<times> u16" where
  "bit_key x = (mb_bit_area (mon_ElementType x), mon_ElementAddr x)"

definition bit_fits :: "plc_state \<Rightarrow> mb_monitor_element_t \<Rightarrow> bool" where
  "bit_fits s x \<longleftrightarrow> (\<exists>a. mb_bit_area (mon_ElementType x) = Some a \<and> mon_ElementAddr x < bit_elem_rang a s)"

lemma refresh_bits_ok:
  "wf_state s \<Longrightarrow> list_all (bit_fits s) xs \<Longrightarrow> \<exists>s'. refresh_bits xs s = Some s' \<and> wf_state s' \<and> gtp_PlcElementInfo s' = gtp_PlcElementInfo s \<and>
     (\<forall>a i. (Some a, i) \<notin> bit_key ` set xs \<longrightarrow> get_bit_elem a s' i = get_bit_elem a s i) \<and>
     (distinct (map bit_key xs) \<longrightarrow> (\<forall>x \<in> set xs. \<forall>a. mb_bit_area (mon_ElementType x) = Some a \<longrightarrow>
        get_bit_elem a s' (mon_ElementAddr x) = Some (of_bool ((ucast (mon_ElementValue x) :: u8) \<noteq> 0))))"
proof (induction xs arbitrary: s)
  case (Cons x xs)
  obtain a where a: "mb_bit_area (mon_ElementType x) = Some a" "mon_ElementAddr x < bit_elem_rang a s"
    using Cons.prems(2) by (auto simp: bit_fits_def)
  obtain s1 where s1: "set_bit_elem a s (mon_ElementAddr x) (ucast (mon_ElementValue x)) = Some s1"
    using bits.put_ok [OF Cons.prems(1) a(2)] by blast
  have i: "gtp_PlcElementInfo s1 = gtp_PlcElementInfo s"
    using s1 by (auto simp: set_bit_elem_def opt_simps)
  then have f: "list_all (bit_fits s1) xs"
    using Cons.prems(2) by (simp add: bit_fits_def list_all_iff)
  obtain s' where s': "refresh_bits xs s1 = Some s'" "wf_state s'" "gtp_PlcElementInfo s' = gtp_PlcElementInfo s1"
    "\<And>a i. (Some a, i) \<notin> bit_key ` set xs \<Longrightarrow> get_bit_elem a s' i = get_bit_elem a s1 i"
    "distinct (map bit_key xs) \<Longrightarrow> (\<forall>x \<in> set xs. \<forall>a. mb_bit_area (mon_ElementType x) = Some a \<longrightarrow>
        get_bit_elem a s' (mon_ElementAddr x) = Some (of_bool ((ucast (mon_ElementValue x) :: u8) \<noteq> 0)))"
    using Cons.IH [OF bits.put_inv [OF Cons.prems(1) s1] f] by blast
  note g = set_get_bit_elem [OF s1]
  have "get_bit_elem b s' j = get_bit_elem b s j" if "(Some b, j) \<notin> bit_key ` set (x # xs)" for b j
    using that s'(4) [of b j] g [of b j] a(1) by (auto simp: bit_key_def)
  moreover have "get_bit_elem a s' (mon_ElementAddr x) = Some (of_bool ((ucast (mon_ElementValue x) :: u8) \<noteq> 0))" if "distinct (map bit_key (x # xs))"
    using that s'(4) [of a "mon_ElementAddr x"] g [of a "mon_ElementAddr x"] a(1) by (auto simp: bit_key_def image_iff)
  ultimately show ?case
    using s' s1 a(1) i by (intro exI [of _ s']) (auto simp: force_bit_def)
qed simp

lemma refresh_words_bits: "refresh_words xs s = Some s' \<Longrightarrow> get_bit_elem a s' i = get_bit_elem a s i"
proof (induction xs s rule: refresh_words.induct)
  case (2 x xs s)
  have w: "get_bit_elem a t i = get_bit_elem a s i" if "set_word_elem b s j v = Some t" for b j v t
    using that by (auto simp: set_word_elem_def get_bit_elem_def opt_simps)
  have c: "get_bit_elem a t i = get_bit_elem a s i" if "set_c32_elem s j v = Some t" for j v t
    using that by (cases a) (auto simp: set_c32_elem_def get_bit_elem_def opt_simps Let_def split: if_split_asm)
  show ?case
  proof (cases "mb_word_area (mon_ElementType x)")
    case (Some b)
    then show ?thesis
      using 2 w by (auto simp: opt_simps)
  next
    case None
    then show ?thesis
      using 2 w c by (auto simp: opt_simps split: if_split_asm list.split_asm)
  qed
qed simp

text \<open>C17. Forced bits hold their values.  When the entries of the list of forced bits name different elements inside their areas, the refresh after
  a scan does not leave an array on them, and afterwards every forced bit has its forced value, whatever the user program wrote; bits
  that are not forced are as the program left them.  Forced words do not disturb bits.\<close>

theorem forced_bits_hold:
  assumes "wf_state s" and "0 < lsv_ListLen hb" and "list_all (bit_fits s) (mon_head hb)" and "distinct (map bit_key (mon_head hb))"
  shows "(lsv_ListLen hw = 0 \<longrightarrow> (\<exists>s'. plc_refresh_force_element_value hb hw s = Some s')) \<and>
    (\<forall>s'. plc_refresh_force_element_value hb hw s = Some s' \<longrightarrow>
      (\<forall>x \<in> set (mon_head hb). \<forall>a. mb_bit_area (mon_ElementType x) = Some a \<longrightarrow>
        get_bit_elem a s' (mon_ElementAddr x) = Some (of_bool ((ucast (mon_ElementValue x) :: u8) \<noteq> 0))) \<and>
      (\<forall>a i. (Some a, i) \<notin> bit_key ` set (mon_head hb) \<longrightarrow> get_bit_elem a s' i = get_bit_elem a s i))"
proof -
  obtain s1 where s1: "refresh_bits (mon_head hb) s = Some s1"
    "\<forall>a i. (Some a, i) \<notin> bit_key ` set (mon_head hb) \<longrightarrow> get_bit_elem a s1 i = get_bit_elem a s i"
    "\<forall>x \<in> set (mon_head hb). \<forall>a. mb_bit_area (mon_ElementType x) = Some a \<longrightarrow>
        get_bit_elem a s1 (mon_ElementAddr x) = Some (of_bool ((ucast (mon_ElementValue x) :: u8) \<noteq> 0))"
    using refresh_bits_ok [OF assms(1,3)] assms(4) by blast
  have "get_bit_elem a s' i = get_bit_elem a s1 i" if "plc_refresh_force_element_value hb hw s = Some s'" for s' a i
    using that s1(1) assms(2) refresh_words_bits [of "mon_head hw" s1 s'] by (auto simp: plc_refresh_force_element_value_def split: if_split_asm)
  moreover have "lsv_ListLen hw = 0 \<longrightarrow> (\<exists>s'. plc_refresh_force_element_value hb hw s = Some s')"
    using s1(1) assms(2) by (simp add: plc_refresh_force_element_value_def)
  ultimately show ?thesis
    using s1(2,3) by simp
qed

definition one_forced :: mb_monitor_element_head_t where
  "one_forced = \<lparr>mon_head = [\<lparr>mon_ElementType = MB_BIT_M, mon_ElementAddr = 5, mon_ModbusAddr = 2005, mon_ElementValue = 1\<rparr>], lsv_ListLen = 1\<rparr>"

definition none_forced :: mb_monitor_element_head_t where
  "none_forced = \<lparr>mon_head = [], lsv_ListLen = 0\<rparr>"

theorem forced_bits_hold_witness:
  "\<exists>s'. plc_refresh_force_element_value one_forced none_forced (boot_state []) = Some s' \<and> get_bit_elem M_ELEMENT s' 5 = Some 1"
proof -
  have "mb_bit_area MB_BIT_M = Some M_ELEMENT"
    by (simp add: mb_bit_area_def rd_def)
  then show ?thesis
    using forced_bits_hold [of "boot_state []" one_forced none_forced] by (auto simp: one_forced_def none_forced_def bit_fits_def)
qed

text \<open>Releasing does not always release.  A request that forces the same element twice while the list is empty makes two entries, since only the
  loop for a list with entries looks for the address; a later request to release the element removes the first entry, and the
  element stays forced to the second value.\<close>

definition force_request :: "u16 \<Rightarrow> u8 \<Rightarrow> u8 \<Rightarrow> u8 list" where
  "force_request a v w = [1, 0x6A, 0, 2] @ be16 a @ [v] @ be16 a @ [w]"

definition release_request :: "u16 \<Rightarrow> u8 list" where
  "release_request a = [1, 0x6A, 0, 1] @ be16 a"

theorem released_element_stays_forced:
  assumes "gtv_ForceBits s = none_forced" and "mb_slave_convert_element_info MB_BIT_ELEMENT a = Some (t, e)"
  shows "\<exists>s1 s2. mb_slave_ctrl_force_bits (s\<lparr>force_mb := request (force_request a v w) m\<rparr>) = Some s1 \<and>
    mb_slave_ctrl_unforce_bits (s1\<lparr>force_mb := request (release_request a) m\<rparr>) = Some s2 \<and>
    gtv_ForceBits s2 = \<lparr>mon_head = [\<lparr>mon_ElementType = t, mon_ElementAddr = e, mon_ModbusAddr = a, mon_ElementValue = ucast w\<rparr>], lsv_ListLen = 1\<rparr>"
proof -
  let ?q = "framed (force_request a v w)" and ?r = "framed (release_request a)"
  have q: "rd ?q 3 = Some 2" "GET_BIGPU16_DATA ?q 4 = Some a" "GET_PU8_DATA ?q 6 = Some v" "GET_BIGPU16_DATA ?q 7 = Some a" "GET_PU8_DATA ?q 9 = Some w"
    "rd ?r 3 = Some 1" "GET_BIGPU16_DATA ?r 4 = Some a"
    using big_halves [of a] by (simp_all add: GET_BIGPU16_DATA_def GET_PU8_DATA_def framed_def force_request_def release_request_def be16_def mem_simps)
  have n: "new_entry MB_BIT_ELEMENT a = Some \<lparr>mon_ElementType = t, mon_ElementAddr = e, mon_ModbusAddr = a, mon_ElementValue = 0\<rparr>"
    using assms(2) by (simp add: new_entry_def)
  have two: "unat (2 :: u8) = Suc (Suc 0)"
    by simp
  have "force_elements MB_BIT_ELEMENT bit_value 3 (request (force_request a v w) m) none_forced =
      Some (request (force_request a v w) m, \<lparr>mon_head = map (\<lambda>x. \<lparr>mon_ElementType = t, mon_ElementAddr = e, mon_ModbusAddr = a, mon_ElementValue = ucast x\<rparr>) [v, w], lsv_ListLen = 2\<rparr>)"
    unfolding force_elements_def request_simps q(1) bind.bind_lunit two
    using q(2-5) n by (simp add: none_forced_def bit_value_def list_add_tail_def)
  moreover have "unforce_elements (request (release_request a) m) \<lparr>mon_head = map (\<lambda>x. \<lparr>mon_ElementType = t, mon_ElementAddr = e, mon_ModbusAddr = a, mon_ElementValue = ucast x\<rparr>) [v, w], lsv_ListLen = 2\<rparr> =
      Some \<lparr>mon_head = [\<lparr>mon_ElementType = t, mon_ElementAddr = e, mon_ModbusAddr = a, mon_ElementValue = ucast w\<rparr>], lsv_ListLen = 1\<rparr>"
    unfolding unforce_elements_def request_simps q(6) bind.bind_lunit using q(7) by simp
  ultimately show ?thesis
    using assms(1) by (simp add: mb_slave_ctrl_force_bits_def mb_slave_ctrl_unforce_bits_def)
qed

theorem released_element_stays_forced_witness:
  "\<exists>s1 s2. mb_slave_ctrl_force_bits \<lparr>force_mb = request (force_request 2005 0 1) mb_boot, gtv_ForceBits = none_forced, gtv_ForceWords = none_forced\<rparr> = Some s1 \<and>
    mb_slave_ctrl_unforce_bits (s1\<lparr>force_mb := request (release_request 2005) mb_boot\<rparr>) = Some s2 \<and> gtv_ForceBits s2 = one_forced"
proof -
  have "mb_slave_convert_element_info MB_BIT_ELEMENT 2005 = Some (MB_BIT_M, 5)"
    by (simp add: mb_slave_convert_element_info_def stv_ModbusMapTable_def map_row_def)
  from released_element_stays_forced [OF _ this, of "\<lparr>force_mb = mb_boot, gtv_ForceBits = none_forced, gtv_ForceWords = none_forced\<rparr>" 0 1 mb_boot]
  show ?thesis
    by (simp add: one_forced_def)
qed

end
