(* ===== verification/Spec2Isabelle.thy ===== *)
theory Spec2Isabelle
  imports PLC_Ladder PLC_Interrupt PLC_ModbusSlave PLC_Password PLC_Force
begin

text \<open>
  A verification development of the PLC runtime of the ESX controller firmware.

  \<^bold>\<open>The program.\<close>  The firmware runs user programs in an instruction list on soft elements: bits (X, Y, M, SM, LM, S and the
  contacts of timers and counters) and words (D, SD, R, V, Z and the values of timers and counters).  A program is a byte string;
  \<open>plc_compiler.c\<close> walks over it once and builds tables of its calls, subroutines, interrupt programs, steps and
  master-control blocks.  In every scan \<open>plc_executer.c\<close> calls \<open>plc_run_user_program\<close>, whose passes hand the
  program counter in turn to the interpreter of the simple instructions (\<open>plc_simpleins.c\<close>: contacts, coils, power-flow stack, edges) and
  of the complex ones (\<open>plc_complexins.c\<close>, which calls the instruction functions of \<open>plc_flowctrlins.c\<close>,
  \<open>plc_timeins.c\<close>, \<open>plc_counterins.c\<close>, \<open>plc_dataprocessing.c\<close>, \<open>plc_verifyins.c\<close> and others).  Instructions find their operands
  through \<open>plc_parseaddr.c\<close>.  Errors go into elements and a log through \<open>plc_commonfunc.c\<close>.  A task serves interrupts from a
  queue (\<open>plc_interrupt.c\<close>).  A Modbus slave (\<open>source/protocol/modbus\<close>) reads and writes the same elements from outside and lets a master force
  them.  Passwords (\<open>plc_password.c\<close>), kept in a flash partition (\<open>bsp_flash.c\<close>), guard downloading, uploading and monitoring.

  \<^bold>\<open>Theories, in the order of their imports.\<close>

  \<^item> \<open>PLC_Prelude\<close>: bytes and words, checked reading and writing of arrays (\<open>rd\<close>, \<open>wr\<close>), the collections of simplification rules.
  \<^item> \<open>PLC_State\<close>: the records of \<open>plc_element.h\<close>, \<open>plc_variable.h\<close> and \<open>plc_interrupt.h\<close>, the state of the runtime \<open>plc_state\<close>, the
    return codes \<open>plc_ret\<close>, the invariant \<open>wf_state\<close> (every area is as large as its element count says).
  \<^item> \<open>PLC_Element\<close> (\<open>plc_element.c\<close>): bit elements in words, LM layers, clearing; the locales of banks of bits and words.
  \<^item> \<open>PLC_Access\<close>, \<open>PLC_ParseAddr\<close>, \<open>PLC_ParseWord\<close>, \<open>PLC_ParseDWord\<close> (\<open>plc_parseaddr.c\<close>): operands, direct, grouped (Kn) and indexed by Z, of
    bits, words, double words and floats; that they stay inside the arrays and that what is saved is read back.
  \<^item> \<open>PLC_CommonFunc\<close> (\<open>plc_commonfunc.c\<close>): file lengths, ring buffers, error history and error record.
  \<^item> \<open>PLC_SimpleIns\<close>, \<open>PLC_Edge\<close>, \<open>PLC_Ladder\<close> (\<open>plc_simpleins.c\<close>): the interpreter of simple instructions; edges over scans; an abstract
    semantics of series and parallel networks that the interpreter implements.
  \<^item> \<open>PLC_Opcode\<close> (\<open>plc_instruction.h\<close>), \<open>PLC_Counter\<close>, \<open>PLC_Timer\<close>, \<open>PLC_Clock\<close>, \<open>PLC_FlowCtrl\<close>, \<open>PLC_BitIns\<close>, \<open>PLC_Arith\<close>, \<open>PLC_Logic\<close>,
    \<open>PLC_Move\<close>, \<open>PLC_Verify\<close>: the instruction functions, one definition \<open>run_ci_..._ins\<close> per function of the source.
  \<^item> \<open>PLC_Complex\<close> (\<open>plc_complexins.c\<close>): the dispatch, as tables from codes to instructions with their lengths.
  \<^item> \<open>PLC_Compiler\<close> (\<open>plc_compiler.c\<close>), \<open>PLC_Executer\<close> (\<open>plc_executer.c\<close>, \<open>plc_internalmanage.c\<close>), \<open>PLC_Interrupt\<close> (\<open>plc_interrupt.c\<close>,
    \<open>port_clockcycle.c\<close>).
  \<^item> \<open>PLC_Frame\<close>: for every instruction, that it keeps the frame of the state: program, tables, sizes.  \<open>PLC_Program\<close>: compiler, interpreter and
    executer together.
  \<^item> \<open>PLC_Modbus\<close>, \<open>PLC_ModbusSlave\<close> (\<open>mb.c\<close>, \<open>mb_maptable.c\<close>): the slave on top of the elements.
  \<^item> \<open>PLC_Force\<close> (parts of \<open>mb_ctrl.c\<close>, \<open>mb_upload.c\<close>, \<open>plc_internalmanage.c\<close>): the lists of forced elements, their requests, and the writing of the forced values;
    the outputs of a stopped controller.
  \<^item> \<open>PLC_Flash\<close> (\<open>bsp_flash.c\<close>): partitions, erasing and writing; \<open>PLC_Password\<close> (\<open>plc_password.c\<close>) on top of it.

  \<^bold>\<open>Correspondence.\<close>  A function of the source is a function on \<open>plc_state\<close> with the name of the source; \<open>None\<close> stands for an access
  outside an array or through a null pointer, which in C is undefined, so a theorem with \<open>= Some ...\<close> also says that no such access
  happens.  Return codes are values of \<open>plc_ret\<close>.  Integers keep their width as words; arithmetic that C does in \<open>int\<close> before it stores is
  written out.  A pointer into the program is an offset.  Linked lists of the reset lists are HOL lists; their allocation is a
  number of free blocks, and allocation outside them is asserted by the code and taken to succeed.  \<open>si_env\<close> is the structure
  \<open>plc_run_power_flow_st\<close> that the interpreters pass around.  Time is the field \<open>xTickCount\<close>; the values it takes between the passes of a run are a tape
  in the state, so that a theorem about every state speaks about every passage of time.  Instructions that are not modelled are the argument
  \<open>ext\<close> of the dispatch, the Modbus functions for files and control are the argument \<open>mb_manage\<close> of the handler, and the driver of the flash chip is an
  argument of \<open>bsp_flash.c\<close>.  \<open>run_keeps_program\<close> is about runs that reach no instruction outside the model (\<open>unmodelled\<close>); theorems on the program
  counter and on interrupts ask of \<open>ext\<close> to leave the program, its tables, the interrupt sources and the program counter alone (\<open>ext_ok\<close>).

  \<^bold>\<open>Fuel.\<close>  Loops over a counter or over the program are structural or have a termination proof.  The loop of the compiler has a
  bound, its value for a loop that has not ended (\<open>None\<close>) is none of the results of the compiler (\<open>comp_out\<close>), and \<open>compiler_terminates\<close> shows that a bound
  computed from the file is enough.  The two loops of a run, over complex instructions and over passes, need not end, since user
  programs may loop; they take their bounds as arguments, not returning within them is \<open>None\<close>, and \<open>watchdog_ends_run\<close> says when a run returns.  The depth of
  calls is bounded by the last argument of \<open>plc_run_user_program\<close>; the call instruction itself refuses more than eight levels.

  \<^bold>\<open>What is shown.\<close>  The interpreter of simple instructions implements ladders and never leaves the program or the elements; the lengths of
  the compiler and of the interpreter agree but for listed codes, so the passes of a straight program begin where the compiler found instructions; a run of modelled instructions keeps program and
  tables; the compiler ends; the watchdog and the stop switch end a run; a source of interrupts has at most one request under way in every
  interleaving; registers, counters apart, and coils written over Modbus are read back, and requests other than those for downloading, uploading and control keep program and
  tables as long as they stay inside the arrays; forced bits hold their values; without the password there is no access, and passwords survive a restart
  if the flash driver works.  Components: round
  trips of operands, counters and timers over arbitrary scans, FIFO and LIFO tables against a queue and a stack, FOR/NEXT, checksums against polynomial
  division, BCD, the error history.  Theorems of the kind \<^emph>\<open>error\<close> establish deviations that the model exhibits: bit coils that are never
  cleared, loop records that run out, registers behind an array, lost interrupts, a validity of passwords that counts from start-up.

  \<^bold>\<open>Not modelled.\<close>  Floating-point arithmetic and PID control (no model of the processor's floats); string instructions, which read uninitialised heap memory on several
  paths; high-speed counters, pulses, interpolation and EtherCAT, which drive peripherals; communication instructions and
  protocols of partner devices; start and stop of a program beyond the status switch, since they work on files and hardware; the files and system
  blocks that are downloaded, uploaded and parsed; the cipher;
  the network stack, the RTOS, drivers and the cloud client, which are vendored or hardware code.
\<close>

end
